(* ===== verification/Prelude.thy ===== *)
theory Prelude
  imports Main "HOL-Library.Word"
begin

text \<open>
  What every component of the model shares: the machine integers and byte strings of the
  Rust sources, Rust's outcome of a fallible call (\<open>Ok\<close>, \<open>Err\<close> or a panic), the programs
  that thread a state through such calls (the \<open>async fn\<close>s of the crate, one RPC at a
  time), and the list and map lemmas that the component theories use.  The collections
  \<open>rust_simps\<close> and \<open>rust_splits\<close> hold the facts with which a component's proofs open a
  chain of calls.
\<close>

named_theorems rust_simps "equations that open a chain of fallible calls"

subsection \<open>Machine integers and bytes\<close>

type_synonym u8 = "8 word"
type_synonym u16 = "16 word"
type_synonym u64 = "64 word"
type_synonym i32 = "32 word"
type_synonym i64 = "64 word"
type_synonym bytes = "u8 list"

text \<open>A Rust \<open>&str\<close> read as its UTF-8 bytes, and a byte string literal.\<close>

definition str_bytes :: "string \<Rightarrow> bytes" where
  "str_bytes s = map (\<lambda>c. of_nat (of_char c)) s"

lemma length_str_bytes [simp]: "length (str_bytes s) = length s"
  by (simp add: str_bytes_def)

text \<open>
  \<open>to_le_bytes\<close> and \<open>from_le_bytes\<close> of the standard library, for any width in bytes, and
  the value of a big-endian byte string.
\<close>

fun nat_to_le :: "nat \<Rightarrow> nat \<Rightarrow> bytes" where
  "nat_to_le 0 n = []"
| "nat_to_le (Suc k) n = of_nat n # nat_to_le k (n div 256)"

fun le_nat :: "bytes \<Rightarrow> nat" where
  "le_nat [] = 0"
| "le_nat (b # bs) = unat b + 256 * le_nat bs"

definition be_nat :: "bytes \<Rightarrow> nat" where
  "be_nat bs = le_nat (rev bs)"

definition u64_to_le_bytes :: "u64 \<Rightarrow> bytes" where
  "u64_to_le_bytes w = nat_to_le 8 (unat w)"

definition u64_from_le_bytes :: "bytes \<Rightarrow> u64" where
  "u64_from_le_bytes bs = of_nat (le_nat bs)"

definition u64_to_be_bytes :: "u64 \<Rightarrow> bytes" where
  "u64_to_be_bytes w = rev (u64_to_le_bytes w)"

definition u16_from_be_bytes :: "bytes \<Rightarrow> u16" where
  "u16_from_be_bytes bs = of_nat (be_nat bs)"

lemma length_nat_to_le [simp]: "length (nat_to_le k n) = k"
  by (induction k arbitrary: n) auto

lemma length_u64_to_le_bytes [simp]: "length (u64_to_le_bytes w) = 8"
  by (simp add: u64_to_le_bytes_def)

lemma le_nat_bound: "le_nat bs < 256 ^ length bs"
proof (induction bs)
  case (Cons b bs)
  have "unat b < 256"
    using unsigned_less [of b, where 'a = nat] by simp
  with Cons show ?case by simp
qed simp

lemma le_nat_to_le: "le_nat (nat_to_le k n) = n mod 256 ^ k"
proof (induction k arbitrary: n)
  case (Suc k)
  have "unat (of_nat n :: u8) = n mod 256"
    by (simp add: unat_of_nat)
  then show ?case
    by (simp add: Suc mod_mult2_eq)
qed simp

lemma nat_to_le_le_nat: "nat_to_le (length bs) (le_nat bs) = bs"
proof (induction bs)
  case (Cons b bs)
  have b: "unat b < 256"
    using unsigned_less [of b, where 'a = nat] by simp
  have "(of_nat (unat b + 256 * le_nat bs) :: u8) = b"
  proof -
    have "(of_nat (256 * le_nat bs) :: u8) = 0"
      by (simp only: word_of_nat_eq_0_iff) simp
    then show ?thesis
      by (simp only: of_nat_add) simp
  qed
  moreover have "(unat b + 256 * le_nat bs) div 256 = le_nat bs"
    using b by simp
  ultimately show ?case
    by (simp add: Cons)
qed simp

lemma le_nat_inj: "length as = length bs \<Longrightarrow> le_nat as = le_nat bs \<Longrightarrow> as = bs"
  by (metis nat_to_le_le_nat)

lemma u64_le_roundtrip [simp]: "u64_from_le_bytes (u64_to_le_bytes w) = w"
proof -
  have "unat w < 256 ^ 8"
    using unsigned_less [of w, where 'a = nat] by simp
  then show ?thesis
    by (simp add: u64_from_le_bytes_def u64_to_le_bytes_def le_nat_to_le)
qed

lemma u64_to_le_bytes_inj [simp]: "u64_to_le_bytes v = u64_to_le_bytes w \<longleftrightarrow> v = w"
  by (metis u64_le_roundtrip)

lemma le_nat_append: "le_nat (xs @ ys) = le_nat xs + 256 ^ length xs * le_nat ys"
  by (induction xs) (auto simp: algebra_simps)

lemma le_nat_replicate_0 [simp]: "le_nat (replicate n 0) = 0"
  by (induction n) auto

lemma be_nat_pad [simp]: "be_nat (replicate n 0 @ bs) = be_nat bs"
  by (simp add: be_nat_def le_nat_append)

lemma be_nat_bound: "be_nat bs < 256 ^ length bs"
  using le_nat_bound [of "rev bs"] by (simp add: be_nat_def)

lemma be_nat_inj: "length as = length bs \<Longrightarrow> be_nat as = be_nat bs \<Longrightarrow> as = bs"
  unfolding be_nat_def by (metis le_nat_inj length_rev rev_is_rev_conv)

subsection \<open>Outcomes of fallible calls\<close>

text \<open>
  \<open>Ok\<close> and \<open>Err\<close> are \<open>Result\<close>'s constructors; \<open>Panic\<close> is a call that does not return
  because an \<open>expect\<close>, \<open>unwrap\<close> or \<open>panic!\<close> fired.  \<open>rbind\<close> is the \<open>?\<close> operator.
\<close>

datatype ('a, 'e) result = Ok 'a | Err 'e | Panic

fun rbind :: "('a, 'e) result \<Rightarrow> ('a \<Rightarrow> ('b, 'e) result) \<Rightarrow> ('b, 'e) result" where
  "rbind (Ok x) f = f x"
| "rbind (Err e) f = Err e"
| "rbind Panic f = Panic"

fun map_err :: "('e \<Rightarrow> 'f) \<Rightarrow> ('a, 'e) result \<Rightarrow> ('a, 'f) result" where
  "map_err f (Ok x) = Ok x"
| "map_err f (Err e) = Err (f e)"
| "map_err f Panic = Panic"

fun is_ok :: "('a, 'e) result \<Rightarrow> bool" where
  "is_ok (Ok x) = True"
| "is_ok _ = False"

lemma is_ok_iff: "is_ok r \<longleftrightarrow> (\<exists>x. r = Ok x)"
  by (cases r) auto

definition ok_or :: "'e \<Rightarrow> 'a option \<Rightarrow> ('a, 'e) result" where
  "ok_or e opt = (case opt of Some x \<Rightarrow> Ok x | None \<Rightarrow> Err e)"

definition expect :: "'a option \<Rightarrow> ('a, 'e) result" where
  "expect opt = (case opt of Some x \<Rightarrow> Ok x | None \<Rightarrow> Panic)"

definition check :: "bool \<Rightarrow> 'e \<Rightarrow> (unit, 'e) result" where
  "check b e = (if b then Ok () else Err e)"

lemma rbind_Ok_iff [rust_simps]: "rbind m f = Ok y \<longleftrightarrow> (\<exists>x. m = Ok x \<and> f x = Ok y)"
  by (cases m) auto

lemma rbind_Err_iff [rust_simps]:
  "rbind m f = Err e \<longleftrightarrow> m = Err e \<or> (\<exists>x. m = Ok x \<and> f x = Err e)"
  by (cases m) auto

lemma rbind_Panic_iff [rust_simps]:
  "rbind m f = Panic \<longleftrightarrow> m = Panic \<or> (\<exists>x. m = Ok x \<and> f x = Panic)"
  by (cases m) auto

lemma map_err_iff [rust_simps]:
  "map_err g m = Ok x \<longleftrightarrow> m = Ok x"
  "map_err g m = Err e \<longleftrightarrow> (\<exists>d. m = Err d \<and> g d = e)"
  "map_err g m = Panic \<longleftrightarrow> m = Panic"
  by (cases m; auto)+

lemma ok_or_iff [rust_simps]:
  "ok_or e opt = Ok x \<longleftrightarrow> opt = Some x"
  "ok_or e opt = Err d \<longleftrightarrow> opt = None \<and> d = e"
  "ok_or e opt \<noteq> Panic"
  by (auto simp: ok_or_def split: option.splits)

lemma expect_iff [rust_simps]:
  "expect opt = Ok x \<longleftrightarrow> opt = Some x"
  "expect opt \<noteq> Err d"
  "expect opt = Panic \<longleftrightarrow> opt = None"
  by (auto simp: expect_def split: option.splits)

lemma check_iff [rust_simps]:
  "check b e = Ok u \<longleftrightarrow> b"
  "check b e = Err d \<longleftrightarrow> \<not> b \<and> d = e"
  "check b e \<noteq> Panic"
  by (auto simp: check_def)

lemma check_simps [simp]: "check True e = Ok ()" "check False e = Err e"
  by (simp_all add: check_def)

lemma ok_or_simps [simp]: "ok_or e (Some x) = Ok x" "ok_or e None = Err e"
  by (simp_all add: ok_or_def)

lemma expect_simps [simp]: "expect (Some x) = Ok x" "expect None = Panic"
  by (simp_all add: expect_def)

subsection \<open>Programs over a state\<close>

text \<open>
  An \<open>async fn\<close> that mutates \<open>self\<close> and talks to the outside is a function of the state
  it runs in: it returns its outcome together with the state it leaves, also when the
  outcome is an error or a panic.
\<close>

type_synonym ('s, 'a, 'e) prog = "'s \<Rightarrow> ('a, 'e) result \<times> 's"

definition ret :: "'a \<Rightarrow> ('s, 'a, 'e) prog" where
  "ret x = (\<lambda>s. (Ok x, s))"

definition fail :: "'e \<Rightarrow> ('s, 'a, 'e) prog" where
  "fail e = (\<lambda>s. (Err e, s))"

definition pbind :: "('s, 'a, 'e) prog \<Rightarrow> ('a \<Rightarrow> ('s, 'b, 'e) prog) \<Rightarrow> ('s, 'b, 'e) prog" where
  "pbind m k = (\<lambda>s. case m s of
     (Ok x, s') \<Rightarrow> k x s' | (Err e, s') \<Rightarrow> (Err e, s') | (Panic, s') \<Rightarrow> (Panic, s'))"

definition lift :: "('a, 'e) result \<Rightarrow> ('s, 'a, 'e) prog" where
  "lift r = (\<lambda>s. (r, s))"

definition gets :: "('s \<Rightarrow> 'a) \<Rightarrow> ('s, 'a, 'e) prog" where
  "gets f = (\<lambda>s. (Ok (f s), s))"

definition modify :: "('s \<Rightarrow> 's) \<Rightarrow> ('s, unit, 'e) prog" where
  "modify f = (\<lambda>s. (Ok (), f s))"

definition perr :: "('e \<Rightarrow> 'f) \<Rightarrow> ('s, 'a, 'e) prog \<Rightarrow> ('s, 'a, 'f) prog" where
  "perr g m = (\<lambda>s. case m s of (r, s') \<Rightarrow> (map_err g r, s'))"

text \<open>\<open>match\<close> on the outcome of a call: the continuation sees the error as well.\<close>

definition pcatch ::
  "('s, 'a, 'e) prog \<Rightarrow> ('a \<Rightarrow> ('s, 'b, 'f) prog) \<Rightarrow> ('e \<Rightarrow> ('s, 'b, 'f) prog) \<Rightarrow> ('s, 'b, 'f) prog"
where
  "pcatch m k h = (\<lambda>s. case m s of
     (Ok x, s') \<Rightarrow> k x s' | (Err e, s') \<Rightarrow> h e s' | (Panic, s') \<Rightarrow> (Panic, s'))"

lemmas prog_defs = ret_def fail_def lift_def gets_def modify_def

lemma pbind_Ok_iff [rust_simps]:
  "pbind m k s = (Ok y, t) \<longleftrightarrow> (\<exists>x u. m s = (Ok x, u) \<and> k x u = (Ok y, t))"
  by (auto simp: pbind_def split: prod.splits result.splits)

lemma pbind_Err_iff [rust_simps]:
  "pbind m k s = (Err e, t) \<longleftrightarrow>
     m s = (Err e, t) \<or> (\<exists>x u. m s = (Ok x, u) \<and> k x u = (Err e, t))"
  by (auto simp: pbind_def split: prod.splits result.splits)

lemma pbind_Panic_iff [rust_simps]:
  "pbind m k s = (Panic, t) \<longleftrightarrow>
     m s = (Panic, t) \<or> (\<exists>x u. m s = (Ok x, u) \<and> k x u = (Panic, t))"
  by (auto simp: pbind_def split: prod.splits result.splits)

lemma prog_simps [simp]:
  "ret x s = (Ok x, s)" "fail e s = (Err e, s)" "lift r s = (r, s)"
  "gets f s = (Ok (f s), s)" "modify g s = (Ok (), g s)"
  by (simp_all add: prog_defs)

lemma perr_iff [rust_simps]:
  "perr g m s = (Ok x, t) \<longleftrightarrow> m s = (Ok x, t)"
  "perr g m s = (Err e, t) \<longleftrightarrow> (\<exists>d. m s = (Err d, t) \<and> g d = e)"
  "perr g m s = (Panic, t) \<longleftrightarrow> m s = (Panic, t)"
  by (auto simp: perr_def rust_simps split: prod.splits)

text \<open>
  \<open>keeps I m\<close>: running \<open>m\<close> from a state in \<open>I\<close> ends in \<open>I\<close>, whatever the outcome.  The
  rules follow the program's structure, so that a component proves one fact per
  primitive call.
\<close>

definition keeps :: "('s \<Rightarrow> bool) \<Rightarrow> ('s, 'a, 'e) prog \<Rightarrow> bool" where
  "keeps I m \<longleftrightarrow> (\<forall>s. I s \<longrightarrow> I (snd (m s)))"

named_theorems keeps_rules "introduction rules for keeps"

lemma keepsD: "keeps I m \<Longrightarrow> I s \<Longrightarrow> m s = (r, t) \<Longrightarrow> I t"
  by (auto simp: keeps_def dest!: spec [where x = s])

lemma keeps_pure [keeps_rules]:
  "keeps I (ret x)" "keeps I (fail e)" "keeps I (lift r)" "keeps I (gets f)"
  by (auto simp: keeps_def)

lemma keeps_pbind [keeps_rules]:
  "keeps I m \<Longrightarrow> (\<And>x. keeps I (k x)) \<Longrightarrow> keeps I (pbind m k)"
  by (fastforce simp: keeps_def pbind_def split: prod.splits result.splits)

lemma keeps_perr [keeps_rules]: "keeps I m \<Longrightarrow> keeps I (perr g m)"
  by (fastforce simp: keeps_def perr_def split: prod.splits)

lemma keeps_pcatch [keeps_rules]:
  "keeps I m \<Longrightarrow> (\<And>x. keeps I (k x)) \<Longrightarrow> (\<And>e. keeps I (h e)) \<Longrightarrow> keeps I (pcatch m k h)"
  by (fastforce simp: keeps_def pcatch_def split: prod.splits result.splits)

lemma keeps_modify: "(\<And>s. I s \<Longrightarrow> I (f s)) \<Longrightarrow> keeps I (modify f)"
  by (auto simp: keeps_def)

text \<open>
  \<open>preserves f m\<close>: running \<open>m\<close> does not change what \<open>f\<close> reads of the state.
\<close>

definition preserves :: "('s \<Rightarrow> 'b) \<Rightarrow> ('s, 'a, 'e) prog \<Rightarrow> bool" where
  "preserves f m \<longleftrightarrow> (\<forall>s. f (snd (m s)) = f s)"

named_theorems preserves_rules "introduction rules for preserves"

lemma preservesD: "preserves f m \<Longrightarrow> m s = (r, t) \<Longrightarrow> f t = f s"
  by (metis preserves_def snd_conv)

lemma preserves_snd: "preserves f m \<Longrightarrow> f (snd (m s)) = f s"
  by (simp add: preserves_def)

lemma preservesI: "(\<And>s r t. m s = (r, t) \<Longrightarrow> f t = f s) \<Longrightarrow> preserves f m"
  by (metis preserves_def prod.collapse)

lemma preserves_pure [preserves_rules]:
  "preserves f (ret x)" "preserves f (fail e)" "preserves f (lift r)" "preserves f (gets g)"
  by (simp_all add: preserves_def)

lemma preserves_pbind [preserves_rules]:
  "preserves f m \<Longrightarrow> (\<And>x. preserves f (k x)) \<Longrightarrow> preserves f (pbind m k)"
proof (rule preservesI)
  fix s r t
  assume *: "preserves f m" "\<And>x. preserves f (k x)" and r: "pbind m k s = (r, t)"
  obtain r1 u where 1: "m s = (r1, u)" by fastforce
  then have "f u = f s" using *(1) by (rule preservesD [rotated])
  then show "f t = f s"
    using r 1 by (cases r1) (auto simp: pbind_def dest!: preservesD [OF *(2)])
qed

lemma preserves_pcatch [preserves_rules]:
  "preserves f m \<Longrightarrow> (\<And>x. preserves f (k x)) \<Longrightarrow> (\<And>e. preserves f (h e)) \<Longrightarrow> preserves f (pcatch m k h)"
proof (rule preservesI)
  fix s r t
  assume *: "preserves f m" "\<And>x. preserves f (k x)" "\<And>e. preserves f (h e)" and r: "pcatch m k h s = (r, t)"
  obtain r1 u where 1: "m s = (r1, u)" by fastforce
  then have "f u = f s" using *(1) by (rule preservesD [rotated])
  then show "f t = f s"
    using r 1 by (cases r1) (auto simp: pcatch_def dest!: preservesD [OF *(2)] preservesD [OF *(3)])
qed

lemma preserves_perr [preserves_rules]: "preserves f m \<Longrightarrow> preserves f (perr g m)"
  by (rule preservesI) (auto simp: perr_def split: prod.splits dest!: preservesD)

lemma preserves_modify: "(\<And>s. f (g s) = f s) \<Longrightarrow> preserves f (modify g)"
  by (simp add: preserves_def)

lemma preserves_of_keeps: "(\<And>x. keeps (\<lambda>s. f s = x) m) \<Longrightarrow> preserves f m"
  unfolding preserves_def keeps_def by blast

subsection \<open>Lists searched and updated by the first match\<close>

text \<open>\<open>iter_mut().find(p)\<close> followed by an assignment to the element found.\<close>

fun update_first :: "('a \<Rightarrow> bool) \<Rightarrow> ('a \<Rightarrow> 'a) \<Rightarrow> 'a list \<Rightarrow> 'a list" where
  "update_first p f [] = []"
| "update_first p f (x # xs) = (if p x then f x # xs else x # update_first p f xs)"

definition update_last :: "('a \<Rightarrow> 'a) \<Rightarrow> 'a list \<Rightarrow> 'a list" where
  "update_last f xs = (if xs = [] then [] else butlast xs @ [f (last xs)])"

lemma length_update_first [simp]: "length (update_first p f xs) = length xs"
  by (induction xs) auto

lemma map_update_first: "(\<And>x. g (f x) = g x) \<Longrightarrow> map g (update_first p f xs) = map g xs"
  by (induction xs) auto

lemma update_first_no_match: "\<forall>x\<in>set xs. \<not> p x \<Longrightarrow> update_first p f xs = xs"
  by (induction xs) auto

lemma update_last_snoc [simp]: "update_last f (xs @ [x]) = xs @ [f x]"
  by (simp add: update_last_def)

lemma find_append:
  "find p (xs @ ys) = (case find p xs of Some x \<Rightarrow> Some x | None \<Rightarrow> find p ys)"
  by (induction xs) auto

lemma find_SomeD: "find p xs = Some x \<Longrightarrow> x \<in> set xs \<and> p x"
  by (induction xs) (auto split: if_splits)

lemma find_None: "find p xs = None \<longleftrightarrow> (\<forall>x\<in>set xs. \<not> p x)"
  by (induction xs) auto

lemma find_key_distinct:
  assumes "distinct (map k xs)" and "x \<in> set xs"
  shows "find (\<lambda>y. k y = k x) xs = Some x"
  using assms by (induction xs) auto

subsection \<open>Machines driven by events\<close>

text \<open>
  A component that handles one event at a time, and an invariant that every event keeps:
  the contract that each stateful component below proves of its own handlers.
\<close>

definition run_events :: "('ev \<Rightarrow> 's \<Rightarrow> 's) \<Rightarrow> 'ev list \<Rightarrow> 's \<Rightarrow> 's" where
  "run_events step evs s = foldl (\<lambda>s e. step e s) s evs"

lemma run_events_simps [simp]:
  "run_events step [] s = s"
  "run_events step (e # evs) s = run_events step evs (step e s)"
  "run_events step (evs @ evs') s = run_events step evs' (run_events step evs s)"
  by (simp_all add: run_events_def)

locale event_machine =
  fixes inv :: "'s \<Rightarrow> bool"
    and step :: "'ev \<Rightarrow> 's \<Rightarrow> 's"
  assumes step_inv: "inv s \<Longrightarrow> inv (step e s)"
begin

lemma run_inv: "inv s \<Longrightarrow> inv (run_events step evs s)"
  by (induction evs arbitrary: s) (simp_all add: step_inv)

text \<open>What every step leaves as it is or moves one way holds along the whole run.\<close>

lemma run_relation:
  assumes "reflp R" and "transp R" and "\<And>s e. inv s \<Longrightarrow> R s (step e s)" and "inv s"
  shows "R s (run_events step evs s)"
  using assms(4)
proof (induction evs arbitrary: s)
  case Nil
  then show ?case using assms(1) by (simp add: reflpD)
next
  case (Cons e evs)
  then have "R (step e s) (run_events step evs (step e s))" by (simp add: step_inv)
  with Cons.prems assms(2,3) show ?case by (auto dest: transpD)
qed

end

end
