(* ===== verification/Proto.thy ===== *)
theory Proto
  imports Prelude
begin

text \<open>
  The wire messages of \<open>wispers-connect/proto/roster.proto\<close> and
  \<open>wispers-connect/proto/hub.proto\<close>, as the structs that prost generates from them: a
  message field is an option, a \<open>oneof\<close> an option of a datatype, an enum an open
  \<open>i32\<close>, a string its UTF-8 bytes.  Field names carry a prefix because record fields
  are global names here.
\<close>

subsection \<open>roster.proto\<close>

record roster_node =
  rn_node_number :: i32
  rn_public_key_spki :: bytes
  rn_revoked :: bool

record activation_payload =
  ap_version :: i64
  ap_new_node_number :: i32
  ap_endorser_node_number :: i32
  ap_new_node_nonce :: bytes
  ap_endorser_nonce :: bytes

record activation =
  act_payload :: "activation_payload option"
  act_new_node_signature :: bytes
  act_endorser_signature :: bytes

record revocation_payload =
  rp_version :: i64
  rp_revoked_node_number :: i32
  rp_revoker_node_number :: i32

record revocation =
  rev_payload :: "revocation_payload option"
  rev_revoker_signature :: bytes

datatype addendum_kind = Activation activation | Revocation revocation

record addendum =
  add_kind :: "addendum_kind option"

record roster =
  ro_version :: i64
  ro_nodes :: "roster_node list"
  ro_addenda :: "addendum list"

definition default_roster :: roster where
  "default_roster = \<lparr>ro_version = 0, ro_nodes = [], ro_addenda = []\<rparr>"

subsection \<open>hub.proto: registration and activation\<close>

record proto_registration =
  pr_connectivity_group_id :: string
  pr_node_number :: i32
  pr_auth_token :: string
  pr_attestation_jwt :: string

record pair_payload =
  pp_sender_node_number :: i32
  pp_receiver_node_number :: i32
  pp_public_key_spki :: bytes
  pp_nonce :: bytes
  pp_reply_nonce :: bytes

record pair_nodes_message =
  pm_payload :: "pair_payload option"
  pm_mac :: bytes

record roster_cosign_request =
  rc_new_node_number :: i64
  rc_new_roster :: "roster option"

record roster_cosign_response =
  rc_endorser_signature :: bytes

subsection \<open>hub.proto: connectivity group state\<close>

record hub_node =
  hn_node_number :: i32
  hn_name :: string
  hn_last_seen_at_millis :: i64
  hn_metadata :: string
  hn_is_online :: bool

record group_metadata =
  gm_id :: string
  gm_name :: string
  gm_created_at_millis :: i64

subsection \<open>hub.proto: peer-to-peer connections\<close>

record stun_turn_config =
  st_stun_server :: string
  st_turn_server :: string
  st_turn_username :: string
  st_turn_password :: string
  st_expires_at_millis :: i64

record request_payload =
  rq_answerer_node_number :: i32
  rq_caller_x25519_public_key :: bytes
  rq_caller_sdp :: string
  rq_transport :: i32
  rq_stun_turn_config :: "stun_turn_config option"
  rq_caller_hub_rtt_usec :: i64
  rq_caller_ice_start_delay_usec :: i64

record start_connection_request =
  sq_signed_payload :: bytes
  sq_signature :: bytes

record response_payload =
  rs_connection_id :: i64
  rs_answerer_x25519_public_key :: bytes
  rs_answerer_sdp :: string

record start_connection_response =
  ss_signed_payload :: bytes
  ss_signature :: bytes

datatype transport = Datagram | Stream

definition transport_to_i32 :: "transport \<Rightarrow> i32" where
  "transport_to_i32 t = (case t of Datagram \<Rightarrow> 0 | Stream \<Rightarrow> 1)"

text \<open>The getter of an enum field: a number outside the enum reads as its default.\<close>

definition transport_of :: "request_payload \<Rightarrow> transport" where
  "transport_of p = (if rq_transport p = 1 then Stream else Datagram)"

subsection \<open>hub.proto: the serving stream\<close>

datatype serving_request_kind =
    Welcome i64
  | PairNodesReq pair_nodes_message
  | RosterCosignReq roster_cosign_request
  | StartConnectionReq start_connection_request

record serving_request =
  sr_dest_node_number :: i32
  sr_source_node_number :: i32
  sr_request_id :: i64
  sr_kind :: "serving_request_kind option"

datatype serving_response_kind =
    PairNodesResp pair_nodes_message
  | RosterCosignResp roster_cosign_response
  | StartConnectionResp start_connection_response
  | CheckIn

record serving_response =
  sp_request_id :: i64
  sp_error :: string
  sp_kind :: "serving_response_kind option"

end
