(* ===== verification/Primitives.thy ===== *)
theory Primitives
  imports Proto
begin

text \<open>
  The third-party code the crate calls, as one record of functions that every model
  takes as its parameter \<open>P\<close>: the crates \<open>sha2\<close>, \<open>hmac\<close>, \<open>hkdf\<close>,
  \<open>ed25519_dalek\<close>, \<open>x25519_dalek\<close>, \<open>aes_gcm\<close> and \<open>num_bigint\<close>, and the encoders that
  \<open>prost\<close> generates from the protobuf files.  Nothing is assumed about them here; what a
  property relies on is one of the named hypotheses below, which state documented
  behaviour (a signature made with a key verifies under its public key, decryption
  inverts encryption, a message decodes from its own encoding).

  A verifying key is its 32 compressed bytes, which is what \<open>VerifyingKey\<close>'s equality
  compares; a signing key is its 32-byte seed.
\<close>

type_synonym verifying_key = bytes
type_synonym signing_seed = bytes

record prims =
  sha256 :: "bytes \<Rightarrow> bytes"
  \<comment> \<open>key, message\<close>
  hmac_sha256 :: "bytes \<Rightarrow> bytes \<Rightarrow> bytes"
  \<comment> \<open>salt, input key material, info, output length\<close>
  hkdf_sha256 :: "bytes \<Rightarrow> bytes \<Rightarrow> bytes \<Rightarrow> nat \<Rightarrow> bytes option"
  \<comment> \<open>the decoded key, or the error's text\<close>
  vk_from_der :: "bytes \<Rightarrow> string + verifying_key"
  vk_to_der :: "verifying_key \<Rightarrow> bytes"
  ed_verifying_key :: "signing_seed \<Rightarrow> verifying_key"
  ed_sign :: "signing_seed \<Rightarrow> bytes \<Rightarrow> bytes"
  sig_from_slice :: "bytes \<Rightarrow> bytes option"
  ed_verify :: "verifying_key \<Rightarrow> bytes \<Rightarrow> bytes \<Rightarrow> bool"
  x25519_public :: "bytes \<Rightarrow> bytes"
  x25519_dh :: "bytes \<Rightarrow> bytes \<Rightarrow> bytes"
  \<comment> \<open>key, nonce, associated data, message\<close>
  aes_encrypt :: "bytes \<Rightarrow> bytes \<Rightarrow> bytes \<Rightarrow> bytes \<Rightarrow> bytes option"
  aes_decrypt :: "bytes \<Rightarrow> bytes \<Rightarrow> bytes \<Rightarrow> bytes \<Rightarrow> bytes option"
  big_to_str36 :: "nat \<Rightarrow> string"
  big_parse36 :: "string \<Rightarrow> nat option"
  big_to_be :: "nat \<Rightarrow> bytes"
  big_from_be :: "bytes \<Rightarrow> nat"
  encode_roster :: "roster \<Rightarrow> bytes"
  encode_pair_payload :: "pair_payload \<Rightarrow> bytes"
  encode_request :: "request_payload \<Rightarrow> bytes"
  decode_request :: "bytes \<Rightarrow> request_payload option"
  encode_response :: "response_payload \<Rightarrow> bytes"
  decode_response :: "bytes \<Rightarrow> response_payload option"
  encode_registration :: "proto_registration \<Rightarrow> bytes"
  \<comment> \<open>the decoded message, or the error's text\<close>
  decode_registration :: "bytes \<Rightarrow> string + proto_registration"

subsection \<open>Documented behaviour, as hypotheses\<close>

text \<open>Ed25519: signing is correct, signatures are 64 bytes, a public key survives DER.\<close>

definition ed25519_correct :: "prims \<Rightarrow> bool" where
  "ed25519_correct P \<longleftrightarrow>
     (\<forall>sk m. ed_verify P (ed_verifying_key P sk) m (ed_sign P sk m)) \<and>
     (\<forall>sk m. length (ed_sign P sk m) = 64) \<and>
     (\<forall>s. sig_from_slice P s = (if length s = 64 then Some s else None)) \<and>
     (\<forall>vk. vk_from_der P (vk_to_der P vk) = Inr vk)"

lemma ed25519_correctD:
  assumes "ed25519_correct P"
  shows "ed_verify P (ed_verifying_key P sk) m (ed_sign P sk m)"
    and "length (ed_sign P sk m) = 64"
    and "sig_from_slice P s = (if length s = 64 then Some s else None)"
    and "vk_from_der P (vk_to_der P vk) = Inr vk"
  using assms by (auto simp: ed25519_correct_def)

text \<open>AES-256-GCM: decryption under the same key, nonce and associated data inverts
  encryption.\<close>

definition aead_correct :: "prims \<Rightarrow> bool" where
  "aead_correct P \<longleftrightarrow>
     (\<forall>k n a m c. aes_encrypt P k n a m = Some c \<longrightarrow> aes_decrypt P k n a c = Some m)"

text \<open>X25519: both sides of an exchange compute the same secret.\<close>

definition x25519_correct :: "prims \<Rightarrow> bool" where
  "x25519_correct P \<longleftrightarrow>
     (\<forall>a b. x25519_dh P a (x25519_public P b) = x25519_dh P b (x25519_public P a))"

text \<open>
  \<open>BigUint\<close>: bytes and numbers convert without loss, \<open>to_bytes_be\<close> is minimal, radix-36
  printing is minimal and parsing inverts it, also with leading zeros.
\<close>

definition biguint_correct :: "prims \<Rightarrow> bool" where
  "biguint_correct P \<longleftrightarrow>
     (\<forall>bs. big_from_be P bs = be_nat bs) \<and>
     (\<forall>n. be_nat (big_to_be P n) = n) \<and>
     (\<forall>n k. 0 < k \<longrightarrow> n < 256 ^ k \<longrightarrow> length (big_to_be P n) \<le> k) \<and>
     (\<forall>n k. big_parse36 P (replicate k (CHR ''0'') @ big_to_str36 P n) = Some n) \<and>
     (\<forall>n k. 0 < k \<longrightarrow> n < 36 ^ k \<longrightarrow> length (big_to_str36 P n) \<le> k) \<and>
     (\<forall>n. set (big_to_str36 P n) \<subseteq> set ''0123456789abcdefghijklmnopqrstuvwxyz'')"

end
