(* ===== verification/Roster.thy ===== *)
theory Roster
  imports Primitives
begin

text \<open>
  \<open>wispers-connect/src/roster.rs\<close>: the verifier that rebuilds a roster from its addenda,
  and the builders that extend one.  The verifier's two \<open>&mut\<close> arguments, the working
  roster and the map of active keys, are returned as a pair; where the code stops with
  an error it leaves them half updated, and its only caller discards them.

  Version numbers are \<open>i64\<close> words, so \<open>base_roster.version + 1\<close> wraps (the release
  build's behaviour; a debug build panics).  The \<open>debug_assert\<close>s of the builders and of
  \<open>compute_signing_hash\<close> are not part of the functions: that they hold at the call sites
  is proved in \<open>Roster_Chain\<close> and \<open>Node\<close>.
\<close>

definition active_nodes :: "roster \<Rightarrow> roster_node list" where
  "active_nodes r = filter (\<lambda>n. \<not> rn_revoked n) (ro_nodes r)"

datatype roster_error =
    InvalidVersion i64
  | NodeCountMismatch i64 nat nat
  | AddendaCountMismatch i64 nat nat
  | DuplicateNode i32
  | InvalidPublicKey i32 string
  | VerifierNotInRoster i32
  | VerifierRevoked i32
  | VerifierKeyMismatch i32
  | MissingAddendum nat
  | EmptyAddendum nat
  | MissingActivationPayload i64
  | MissingRevocationPayload i64
  | InvalidNewNodeSignature i64
  | InvalidEndorserSignature i64
  | InvalidRevokerSignature i64
  | NewNodeNotInRoster i64 i32
  | NewNodeIsEndorser i32
  | EndorserNotInPreviousRoster i64 i32
  | RevokerNotInPreviousRoster i64 i32
  | RevokedNodeNotInRoster i64 i32
  | VersionMismatch i64 i64
  | ReconstructionMismatch

type_synonym key_map = "i32 \<rightharpoonup> verifying_key"

subsection \<open>Signing hash and signatures\<close>

definition SIGNING_HASH_DOMAIN :: bytes where
  "SIGNING_HASH_DOMAIN = str_bytes ''wispers-connect/roster-signing/v1'' @ [0]"

definition compute_signing_hash :: "prims \<Rightarrow> roster \<Rightarrow> bytes" where
  "compute_signing_hash P r = sha256 P (SIGNING_HASH_DOMAIN @ encode_roster P r)"

definition latest_addendum_signatures_are_empty :: "roster \<Rightarrow> bool" where
  "latest_addendum_signatures_are_empty r =
     (case (if ro_addenda r = [] then None else add_kind (last (ro_addenda r))) of
        Some (Activation act) \<Rightarrow>
          act_new_node_signature act = [] \<and> act_endorser_signature act = []
      | Some (Revocation rv) \<Rightarrow> rev_revoker_signature rv = []
      | None \<Rightarrow> True)"

fun clear_kind :: "addendum_kind option \<Rightarrow> addendum_kind option" where
  "clear_kind (Some (Activation act)) =
     Some (Activation (act\<lparr>act_new_node_signature := [], act_endorser_signature := []\<rparr>))"
| "clear_kind (Some (Revocation rv)) = Some (Revocation (rv\<lparr>rev_revoker_signature := []\<rparr>))"
| "clear_kind None = None"

definition clear_latest_addendum_signatures :: "roster \<Rightarrow> roster" where
  "clear_latest_addendum_signatures r =
     r\<lparr>ro_addenda := update_last (\<lambda>a. a\<lparr>add_kind := clear_kind (add_kind a)\<rparr>) (ro_addenda r)\<rparr>"

definition verify_signature :: "prims \<Rightarrow> verifying_key \<Rightarrow> bytes \<Rightarrow> bytes \<Rightarrow> bool" where
  "verify_signature P key message signature_bytes =
     (case sig_from_slice P signature_bytes of
        None \<Rightarrow> False
      | Some signature \<Rightarrow> ed_verify P key message signature)"

subsection \<open>Builders\<close>

definition build_activation_payload ::
  "roster \<Rightarrow> i32 \<Rightarrow> i32 \<Rightarrow> bytes \<Rightarrow> bytes \<Rightarrow> activation_payload"
where
  "build_activation_payload base_roster new_node_number endorser_node_number
     new_node_nonce endorser_nonce =
     \<lparr>ap_version = ro_version base_roster + 1,
      ap_new_node_number = new_node_number,
      ap_endorser_node_number = endorser_node_number,
      ap_new_node_nonce = new_node_nonce,
      ap_endorser_nonce = endorser_nonce\<rparr>"

definition unsigned_activation :: "activation_payload \<Rightarrow> addendum" where
  "unsigned_activation payload =
     \<lparr>add_kind = Some (Activation \<lparr>act_payload = Some payload,
        act_new_node_signature = [], act_endorser_signature = []\<rparr>)\<rparr>"

definition unsigned_revocation :: "revocation_payload \<Rightarrow> addendum" where
  "unsigned_revocation payload =
     \<lparr>add_kind = Some (Revocation \<lparr>rev_payload = Some payload, rev_revoker_signature = []\<rparr>)\<rparr>"

definition fresh_node :: "i32 \<Rightarrow> bytes \<Rightarrow> roster_node" where
  "fresh_node n spki = \<lparr>rn_node_number = n, rn_public_key_spki = spki, rn_revoked = False\<rparr>"

definition create_bootstrap_roster :: "activation_payload \<Rightarrow> bytes \<Rightarrow> bytes \<Rightarrow> roster" where
  "create_bootstrap_roster payload new_node_pubkey_spki endorser_pubkey_spki =
     \<lparr>ro_version = 1,
      ro_nodes = [fresh_node (ap_endorser_node_number payload) endorser_pubkey_spki,
                  fresh_node (ap_new_node_number payload) new_node_pubkey_spki],
      ro_addenda = [unsigned_activation payload]\<rparr>"

definition add_activation_to_roster :: "roster \<Rightarrow> activation_payload \<Rightarrow> bytes \<Rightarrow> roster" where
  "add_activation_to_roster r payload new_node_pubkey_spki =
     r\<lparr>ro_version := ap_version payload,
       ro_nodes := ro_nodes r @ [fresh_node (ap_new_node_number payload) new_node_pubkey_spki],
       ro_addenda := ro_addenda r @ [unsigned_activation payload]\<rparr>"

definition build_revocation_payload :: "roster \<Rightarrow> i32 \<Rightarrow> i32 \<Rightarrow> revocation_payload" where
  "build_revocation_payload base_roster revoked_node_number revoker_node_number =
     \<lparr>rp_version = ro_version base_roster + 1,
      rp_revoked_node_number = revoked_node_number,
      rp_revoker_node_number = revoker_node_number\<rparr>"

definition mark_revoked :: "i32 \<Rightarrow> roster_node list \<Rightarrow> roster_node list" where
  "mark_revoked n nodes =
     update_first (\<lambda>x. rn_node_number x = n) (\<lambda>x. x\<lparr>rn_revoked := True\<rparr>) nodes"

definition add_revocation_to_roster :: "roster \<Rightarrow> revocation_payload \<Rightarrow> roster" where
  "add_revocation_to_roster r payload =
     r\<lparr>ro_version := rp_version payload,
       ro_nodes := mark_revoked (rp_revoked_node_number payload) (ro_nodes r),
       ro_addenda := ro_addenda r @ [unsigned_revocation payload]\<rparr>"

text \<open>
  The three setters of the latest addendum's signatures; each panics when there is no
  addendum, when it has no kind, or when it is of the other kind.
\<close>

definition set_latest ::
  "(addendum_kind \<Rightarrow> addendum_kind option) \<Rightarrow> roster \<Rightarrow> (roster, 'e) result"
where
  "set_latest f r =
     (if ro_addenda r = [] then Panic
      else case add_kind (last (ro_addenda r)) of
        None \<Rightarrow> Panic
      | Some k \<Rightarrow> (case f k of
          None \<Rightarrow> Panic
        | Some k' \<Rightarrow> Ok (r\<lparr>ro_addenda :=
            update_last (\<lambda>a. a\<lparr>add_kind := Some k'\<rparr>) (ro_addenda r)\<rparr>)))"

definition set_new_node_signature :: "roster \<Rightarrow> bytes \<Rightarrow> (roster, 'e) result" where
  "set_new_node_signature r signature = set_latest (\<lambda>k. case k of
     Activation act \<Rightarrow> Some (Activation (act\<lparr>act_new_node_signature := signature\<rparr>))
   | Revocation _ \<Rightarrow> None) r"

definition set_endorser_signature :: "roster \<Rightarrow> bytes \<Rightarrow> (roster, 'e) result" where
  "set_endorser_signature r signature = set_latest (\<lambda>k. case k of
     Activation act \<Rightarrow> Some (Activation (act\<lparr>act_endorser_signature := signature\<rparr>))
   | Revocation _ \<Rightarrow> None) r"

definition set_revoker_signature :: "roster \<Rightarrow> bytes \<Rightarrow> (roster, 'e) result" where
  "set_revoker_signature r signature = set_latest (\<lambda>k. case k of
     Revocation rv \<Rightarrow> Some (Revocation (rv\<lparr>rev_revoker_signature := signature\<rparr>))
   | Activation _ \<Rightarrow> None) r"

subsection \<open>Verification\<close>

definition verify_roster_structure :: "roster \<Rightarrow> (unit, roster_error) result" where
  "verify_roster_structure r =
     (if sint (ro_version r) < 1 then Err (InvalidVersion (ro_version r))
      else if length (ro_addenda r) \<noteq> unat (ro_version r)
      then Err (AddendaCountMismatch (ro_version r) (unat (ro_version r)) (length (ro_addenda r)))
      else Ok ())"

definition find_node :: "i32 \<Rightarrow> roster_node list \<Rightarrow> roster_node option" where
  "find_node n nodes = find (\<lambda>x. rn_node_number x = n) nodes"

definition decode_key :: "prims \<Rightarrow> i32 \<Rightarrow> bytes \<Rightarrow> (verifying_key, roster_error) result" where
  "decode_key P n spki =
     (case vk_from_der P spki of Inl reason \<Rightarrow> Err (InvalidPublicKey n reason) | Inr k \<Rightarrow> Ok k)"

text \<open>The endorser's key: from the input roster at version 1, from the active keys after.\<close>

definition endorser_key ::
  "prims \<Rightarrow> roster \<Rightarrow> i64 \<Rightarrow> i32 \<Rightarrow> key_map \<Rightarrow> (verifying_key, roster_error) result"
where
  "endorser_key P input_roster expected_version endorser keys =
     (if expected_version = 1
      then rbind (ok_or (EndorserNotInPreviousRoster expected_version endorser)
                   (find_node endorser (ro_nodes input_roster)))
             (\<lambda>e. decode_key P endorser (rn_public_key_spki e))
      else ok_or (EndorserNotInPreviousRoster expected_version endorser) (keys endorser))"

definition apply_and_verify_activation ::
  "prims \<Rightarrow> roster \<Rightarrow> activation \<Rightarrow> i64 \<Rightarrow> roster \<Rightarrow> key_map
     \<Rightarrow> (roster \<times> key_map, roster_error) result"
where
  "apply_and_verify_activation P input_roster act expected_version working keys =
     rbind (ok_or (MissingActivationPayload expected_version) (act_payload act)) (\<lambda>payload.
     let new = ap_new_node_number payload; endorser = ap_endorser_node_number payload in
     rbind (check (ap_version payload = expected_version)
             (VersionMismatch expected_version (ap_version payload))) (\<lambda>_.
     rbind (check (new \<noteq> endorser) (NewNodeIsEndorser new)) (\<lambda>_.
     rbind (check (\<forall>n \<in> set (ro_nodes working). rn_node_number n \<noteq> new) (DuplicateNode new)) (\<lambda>_.
     rbind (ok_or (NewNodeNotInRoster expected_version new)
             (find_node new (ro_nodes input_roster))) (\<lambda>new_in_input.
     rbind (decode_key P new (rn_public_key_spki new_in_input)) (\<lambda>new_key.
     rbind (endorser_key P input_roster expected_version endorser keys) (\<lambda>e_key.
     rbind (if expected_version = 1
            then rbind (expect (find_node endorser (ro_nodes input_roster))) (\<lambda>e_in_input.
                   Ok (working\<lparr>ro_nodes := ro_nodes working @
                         [fresh_node endorser (rn_public_key_spki e_in_input)]\<rparr>,
                       keys(endorser \<mapsto> e_key)))
            else Ok (working, keys)) (\<lambda>(w1, keys1).
     let w2 = w1\<lparr>ro_nodes := ro_nodes w1 @ [fresh_node new (rn_public_key_spki new_in_input)],
                 ro_version := expected_version,
                 ro_addenda := ro_addenda w1 @ [unsigned_activation payload]\<rparr>;
         keys2 = keys1(new \<mapsto> new_key);
         signing_hash = compute_signing_hash P w2 in
     rbind (check (verify_signature P new_key signing_hash (act_new_node_signature act))
             (InvalidNewNodeSignature expected_version)) (\<lambda>_.
     rbind (check (verify_signature P e_key signing_hash (act_endorser_signature act))
             (InvalidEndorserSignature expected_version)) (\<lambda>_.
     rbind (set_new_node_signature w2 (act_new_node_signature act)) (\<lambda>w3.
     rbind (set_endorser_signature w3 (act_endorser_signature act)) (\<lambda>w4.
     Ok (w4, keys2)))))))))))))"

definition apply_and_verify_revocation ::
  "prims \<Rightarrow> revocation \<Rightarrow> i64 \<Rightarrow> roster \<Rightarrow> key_map \<Rightarrow> (roster \<times> key_map, roster_error) result"
where
  "apply_and_verify_revocation P rv expected_version working keys =
     rbind (ok_or (MissingRevocationPayload expected_version) (rev_payload rv)) (\<lambda>payload.
     let revoked = rp_revoked_node_number payload; revoker = rp_revoker_node_number payload in
     rbind (check (rp_version payload = expected_version)
             (VersionMismatch expected_version (rp_version payload))) (\<lambda>_.
     rbind (ok_or (RevokerNotInPreviousRoster expected_version revoker) (keys revoker)) (\<lambda>revoker_key.
     rbind (check (keys revoked \<noteq> None) (RevokedNodeNotInRoster expected_version revoked)) (\<lambda>_.
     let w2 = working\<lparr>ro_nodes := mark_revoked revoked (ro_nodes working),
                      ro_version := expected_version,
                      ro_addenda := ro_addenda working @ [unsigned_revocation payload]\<rparr>;
         signing_hash = compute_signing_hash P w2 in
     rbind (check (verify_signature P revoker_key signing_hash (rev_revoker_signature rv))
             (InvalidRevokerSignature expected_version)) (\<lambda>_.
     rbind (set_revoker_signature w2 (rev_revoker_signature rv)) (\<lambda>w3.
     Ok (w3, keys(revoked := None))))))))"

text \<open>The forward walk over \<open>roster.addenda.iter().enumerate()\<close>.\<close>

definition verify_addendum ::
  "prims \<Rightarrow> roster \<Rightarrow> nat \<Rightarrow> addendum \<Rightarrow> roster \<times> key_map
     \<Rightarrow> (roster \<times> key_map, roster_error) result"
where
  "verify_addendum P input_roster i a wk =
     (case add_kind a of
        None \<Rightarrow> Err (EmptyAddendum i)
      | Some (Activation act) \<Rightarrow>
          apply_and_verify_activation P input_roster act (of_nat (i + 1)) (fst wk) (snd wk)
      | Some (Revocation rv) \<Rightarrow>
          apply_and_verify_revocation P rv (of_nat (i + 1)) (fst wk) (snd wk))"

fun verify_addenda ::
  "prims \<Rightarrow> roster \<Rightarrow> nat \<Rightarrow> addendum list \<Rightarrow> roster \<times> key_map
     \<Rightarrow> (roster \<times> key_map, roster_error) result"
where
  "verify_addenda P input_roster i [] wk = Ok wk"
| "verify_addenda P input_roster i (a # as) wk =
     rbind (verify_addendum P input_roster i a wk)
       (\<lambda>wk'. verify_addenda P input_roster (i + 1) as wk')"

definition verify_roster ::
  "prims \<Rightarrow> roster \<Rightarrow> i32 \<Rightarrow> bytes \<Rightarrow> (key_map, roster_error) result"
where
  "verify_roster P r verifier_node_number verifier_public_key_spki =
     (case vk_from_der P verifier_public_key_spki of
        Inl _ \<Rightarrow> Panic
      | Inr expected_verifier_key \<Rightarrow>
          rbind (verify_roster_structure r) (\<lambda>_.
          rbind (verify_addenda P r 0 (ro_addenda r) (default_roster, Map.empty)) (\<lambda>(working, keys).
          if working \<noteq> r then Err ReconstructionMismatch
          else case keys verifier_node_number of
            None \<Rightarrow>
              (if \<exists>n \<in> set (ro_nodes working). rn_node_number n = verifier_node_number
               then Err (VerifierRevoked verifier_node_number)
               else Err (VerifierNotInRoster verifier_node_number))
          | Some verifier_key_in_state \<Rightarrow>
              (if verifier_key_in_state \<noteq> expected_verifier_key
               then Err (VerifierKeyMismatch verifier_node_number)
               else Ok keys))))"

end
