(* ===== verification/Rust_Std.thy ===== *)
theory Rust_Std
  imports Prelude
begin

text \<open>
  The parts of Rust's standard library that the crate leans on beyond plain data:
  positional notation, integer parsing and printing, splitting strings, saturating and
  converting integer arithmetic.  They are the library's documented functions, written
  out so that the components' parsers can be executed and inverted.
\<close>

subsection \<open>Positional notation\<close>

text \<open>The digits of \<open>n\<close> in base \<open>b\<close>, least significant first, without leading zeros.\<close>

function digits :: "nat \<Rightarrow> nat \<Rightarrow> nat list" where
  "digits b n = (if n < b \<or> b < 2 then [n] else n mod b # digits b (n div b))"
  by auto
termination by (relation "measure snd") (auto intro: div_less_dividend)

declare digits.simps [simp del]

fun undigits :: "nat \<Rightarrow> nat list \<Rightarrow> nat" where
  "undigits b [] = 0"
| "undigits b (d # ds) = d + b * undigits b ds"

lemma undigits_digits [simp]: "undigits b (digits b n) = n"
proof (induction b n rule: digits.induct)
  case (1 b n)
  then show ?case by (subst digits.simps) auto
qed

lemma digits_less: "2 \<le> b \<Longrightarrow> d \<in> set (digits b n) \<Longrightarrow> d < b"
proof (induction b n rule: digits.induct)
  case (1 b n)
  show ?case
  proof (cases "n < b")
    case True
    with 1 show ?thesis by (subst (asm) digits.simps) simp
  next
    case False
    with "1.prems" have "d = n mod b \<or> d \<in> set (digits b (n div b))"
      by (subst (asm) digits.simps) auto
    with 1 False show ?thesis by auto
  qed
qed

lemma digits_length:
  "2 \<le> b \<Longrightarrow> 0 < k \<Longrightarrow> n < b ^ k \<Longrightarrow> length (digits b n) \<le> k"
proof (induction b n arbitrary: k rule: digits.induct)
  case (1 b n)
  show ?case
  proof (cases "n < b")
    case True
    with 1 show ?thesis by (subst digits.simps) simp
  next
    case False
    obtain j where k: "k = Suc j"
      using "1.prems" by (cases k) auto
    with "1.prems" False have "0 < j"
      by (cases j) auto
    note k = k this
    have "n div b < b ^ j"
      using k "1.prems" by (simp add: less_mult_imp_div_less mult.commute)
    with 1 k False show ?thesis by (subst digits.simps) simp
  qed
qed

lemma digits_nonempty [simp]: "digits b n \<noteq> []"
  by (subst digits.simps) simp

lemma undigits_append: "undigits b (xs @ ys) = undigits b xs + b ^ length xs * undigits b ys"
  by (induction xs) (auto simp: algebra_simps)

lemma undigits_zeros [simp]: "undigits b (replicate k 0) = 0"
  by (induction k) auto

subsection \<open>Decimal printing and parsing\<close>

definition digit_char :: "nat \<Rightarrow> char" where
  "digit_char d = (if d < 10 then char_of (48 + d) else char_of (87 + d))"

text \<open>\<open>char::to_digit\<close>: the letters of either case are the digits from ten.\<close>

definition char_digit :: "nat \<Rightarrow> char \<Rightarrow> nat option" where
  "char_digit radix c = (let k = (of_char c :: nat);
      d = (if 48 \<le> k \<and> k \<le> 57 then k - 48
           else if 97 \<le> k \<and> k \<le> 122 then k - 87
           else if 65 \<le> k \<and> k \<le> 90 then k - 55
           else radix)
    in if d < radix then Some d else None)"

fun char_digits :: "nat \<Rightarrow> string \<Rightarrow> nat list option" where
  "char_digits radix [] = Some []"
| "char_digits radix (c # cs) = (case char_digit radix c of
     None \<Rightarrow> None
   | Some d \<Rightarrow> map_option ((#) d) (char_digits radix cs))"

definition to_radix :: "nat \<Rightarrow> nat \<Rightarrow> string" where
  "to_radix radix n = rev (map digit_char (digits radix n))"

text \<open>An unsigned number: at least one digit, digits only.\<close>

definition parse_radix :: "nat \<Rightarrow> string \<Rightarrow> nat option" where
  "parse_radix radix s = (if s = [] then None
     else map_option (\<lambda>ds. undigits radix (rev ds)) (char_digits radix s))"

lemma of_char_digit_char:
  "d < 36 \<Longrightarrow> (of_char (digit_char d) :: nat) = (if d < 10 then 48 + d else 87 + d)"
  by (simp add: digit_char_def)

lemma char_digit_digit_char:
  "radix \<le> 36 \<Longrightarrow> d < radix \<Longrightarrow> char_digit radix (digit_char d) = Some d"
  by (auto simp: char_digit_def Let_def of_char_digit_char)

lemma char_digits_map:
  "radix \<le> 36 \<Longrightarrow> \<forall>d \<in> set ds. d < radix \<Longrightarrow>
     char_digits radix (map digit_char ds) = Some ds"
  by (induction ds) (auto simp: char_digit_digit_char)

lemma char_digits_append:
  "char_digits radix (xs @ ys) = (case (char_digits radix xs, char_digits radix ys) of
     (Some a, Some b) \<Rightarrow> Some (a @ b) | _ \<Rightarrow> None)"
  by (induction xs) (auto split: option.splits)

lemma char_digits_rev_map:
  assumes "radix \<le> 36" and "\<forall>d \<in> set ds. d < radix"
  shows "char_digits radix (rev (map digit_char ds)) = Some (rev ds)"
  using char_digits_map [of radix "rev ds"] assms by (simp add: rev_map)

lemma char_digits_zeros:
  "0 < radix \<Longrightarrow> char_digits radix (replicate k (CHR ''0'')) = Some (replicate k 0)"
  by (induction k) (auto simp: char_digit_def)

lemma parse_to_radix:
  assumes "2 \<le> radix" and "radix \<le> 36"
  shows "parse_radix radix (replicate k (CHR ''0'') @ to_radix radix n) = Some n"
proof -
  have "char_digits radix (to_radix radix n) = Some (rev (digits radix n))"
    using assms digits_less by (auto simp: to_radix_def intro: char_digits_rev_map)
  then show ?thesis
    using assms by (simp add: parse_radix_def char_digits_append char_digits_zeros
        undigits_append to_radix_def)
qed

text \<open>\<open>i32::to_string\<close> and the integer types' \<open>from_str\<close>.\<close>

definition int_to_string :: "int \<Rightarrow> string" where
  "int_to_string i = (if i < 0 then CHR ''-'' # to_radix 10 (nat (- i)) else to_radix 10 (nat i))"

definition parse_signed :: "string \<Rightarrow> int option" where
  "parse_signed s = (case s of
     [] \<Rightarrow> None
   | c # cs \<Rightarrow> (if c = CHR ''-'' then map_option (\<lambda>n. - int n) (parse_radix 10 cs)
                else if c = CHR ''+'' then map_option int (parse_radix 10 cs)
                else map_option int (parse_radix 10 s)))"

definition parse_unsigned :: "nat \<Rightarrow> string \<Rightarrow> nat option" where
  "parse_unsigned bound s =
     (case (case s of c # cs \<Rightarrow> if c = CHR ''+'' then parse_radix 10 cs else parse_radix 10 s
            | [] \<Rightarrow> None) of
        None \<Rightarrow> None
      | Some n \<Rightarrow> if n < bound then Some n else None)"

definition parse_i32 :: "string \<Rightarrow> i32 option" where
  "parse_i32 s = (case parse_signed s of
     None \<Rightarrow> None
   | Some i \<Rightarrow> if - (2 ^ 31) \<le> i \<and> i < 2 ^ 31 then Some (of_int i) else None)"

definition parse_u16 :: "string \<Rightarrow> u16 option" where
  "parse_u16 s = map_option of_nat (parse_unsigned (2 ^ 16) s)"

definition parse_u64 :: "string \<Rightarrow> u64 option" where
  "parse_u64 s = map_option of_nat (parse_unsigned (2 ^ 64) s)"

lemma to_radix_nonempty [simp]: "to_radix b n \<noteq> []"
  by (simp add: to_radix_def)

lemma to_radix_digits:
  assumes "2 \<le> radix" and "radix \<le> 36" and "c \<in> set (to_radix radix n)"
  shows "c \<noteq> CHR ''-''" and "c \<noteq> CHR ''+''" and "char_digit radix c \<noteq> None"
proof -
  from assms(3) obtain d where d: "d \<in> set (digits radix n)" "c = digit_char d"
    by (auto simp: to_radix_def)
  then have dr: "d < radix" "d < 36"
    using digits_less [OF assms(1)] assms(2) by fastforce+
  then have "(of_char c :: nat) = (if d < 10 then 48 + d else 87 + d)"
    using d of_char_digit_char by simp
  then show "c \<noteq> CHR ''-''" and "c \<noteq> CHR ''+''"
    by (auto split: if_splits)
  show "char_digit radix c \<noteq> None"
    using dr d char_digit_digit_char [OF assms(2)] by simp
qed

lemma parse_to_decimal [simp]: "parse_radix 10 (to_radix 10 n) = Some n"
  using parse_to_radix [of 10 0 n] by simp

lemma parse_int_to_string [simp]: "parse_signed (int_to_string i) = Some i"
proof (cases "i < 0")
  case True
  then show ?thesis by (simp add: parse_signed_def int_to_string_def)
next
  case False
  obtain c cs where s: "to_radix 10 (nat i) = c # cs"
    by (cases "to_radix 10 (nat i)") auto
  have "c \<noteq> CHR ''-''" "c \<noteq> CHR ''+''"
    using to_radix_digits [of 10 c "nat i"] s by auto
  with False s parse_to_decimal [of "nat i"] show ?thesis
    by (simp add: parse_signed_def int_to_string_def)
qed

lemma parse_i32_to_string [simp]: "parse_i32 (int_to_string (sint (w :: i32))) = Some w"
proof -
  have "- (2 ^ 31) \<le> sint w" "sint w < 2 ^ 31"
    using sint_greater_eq [of w] sint_lt [of w] by simp_all
  then show ?thesis by (simp add: parse_i32_def)
qed

lemma int_to_string_no_dash:
  "0 \<le> i \<Longrightarrow> CHR ''-'' \<notin> set (int_to_string i)"
  using to_radix_digits(1) [of 10 "CHR ''-''" "nat i"] by (auto simp: int_to_string_def)

subsection \<open>Strings\<close>

text \<open>\<open>str::split\<close> on a character: always at least one piece.\<close>

fun split_on :: "char \<Rightarrow> string \<Rightarrow> string list" where
  "split_on c [] = [[]]"
| "split_on c (x # xs) =
     (if x = c then [] # split_on c xs
      else (case split_on c xs of [] \<Rightarrow> [[x]] | y # ys \<Rightarrow> (x # y) # ys))"

lemma split_on_nonempty [simp]: "split_on c s \<noteq> []"
  by (induction s) (auto split: list.splits)

lemma split_on_no_sep: "c \<notin> set s \<Longrightarrow> split_on c s = [s]"
  by (induction s) auto

lemma split_on_append: "c \<notin> set a \<Longrightarrow> split_on c (a @ c # b) = a # split_on c b"
  by (induction a) auto

lemma length_split_on: "length (split_on c s) = Suc (count_list s c)"
  by (induction s) (auto split: list.splits)

lemma split_on_two:
  "split_on c s = [a, b] \<longleftrightarrow> s = a @ c # b \<and> c \<notin> set a \<and> c \<notin> set b"
proof
  show "s = a @ c # b \<and> c \<notin> set a \<and> c \<notin> set b \<Longrightarrow> split_on c s = [a, b]"
    by (auto simp: split_on_append split_on_no_sep)
  show "split_on c s = [a, b] \<Longrightarrow> s = a @ c # b \<and> c \<notin> set a \<and> c \<notin> set b"
  proof (induction s arbitrary: a)
    case (Cons x xs)
    have one: "split_on c ys = [b] \<Longrightarrow> ys = b \<and> c \<notin> set b" for ys
    proof (induction ys arbitrary: b)
      case (Cons y ys)
      then show ?case by (fastforce split: if_splits list.splits)
    qed auto
    show ?case
    proof (cases "x = c")
      case True
      with Cons.prems one [of xs] show ?thesis by simp
    next
      case False
      with Cons.prems obtain a' where "split_on c xs = [a', b]" "a = x # a'"
        by (auto split: list.splits)
      with Cons.IH [of a'] False show ?thesis by simp
    qed
  qed simp
qed

text \<open>\<open>str::rsplit_once\<close>: split at the last occurrence.\<close>

definition rsplit_once :: "char \<Rightarrow> string \<Rightarrow> (string \<times> string) option" where
  "rsplit_once c s =
     (if c \<in> set s
      then let after = rev (takeWhile (\<lambda>x. x \<noteq> c) (rev s))
           in Some (take (length s - length after - 1) s, after)
      else None)"

lemma rsplit_once_append: "c \<notin> set b \<Longrightarrow> rsplit_once c (a @ c # b) = Some (a, b)"
proof -
  assume c: "c \<notin> set b"
  have "takeWhile (\<lambda>x. x \<noteq> c) (rev (a @ c # b)) = rev b"
    using c by (simp add: takeWhile_append)
  then show ?thesis by (simp add: rsplit_once_def)
qed

lemma rsplit_once_None: "rsplit_once c s = None \<longleftrightarrow> c \<notin> set s"
  by (simp add: rsplit_once_def Let_def)

end
