(* ===== verification/Reference_Prims.thy ===== *)
theory Reference_Prims
  imports Primitives Rust_Std
begin

text \<open>
  One concrete, executable instance of the parameter \<open>P\<close>, at which the witnesses
  evaluate.  Its big-number conversions are the real ones; its cryptography is a
  stand-in that has the documented functional behaviour (and no security), and its
  encoders are a self-delimiting byte format.  That it meets every hypothesis of
  \<open>Primitives\<close> shows that the hypotheses are satisfiable together.
\<close>

subsection \<open>A self-delimiting encoding\<close>

fun enc_bytes :: "bytes \<Rightarrow> bytes" where
  "enc_bytes [] = [0]"
| "enc_bytes (x # xs) = 1 # x # enc_bytes xs"

fun dec_bytes :: "bytes \<Rightarrow> (bytes \<times> bytes) option" where
  "dec_bytes [] = None"
| "dec_bytes [b] = (if b = 0 then Some ([], []) else None)"
| "dec_bytes (b # x # r) = (if b = 0 then Some ([], x # r)
     else map_option (\<lambda>(xs, r'). (x # xs, r')) (dec_bytes r))"

definition bytes_str :: "bytes \<Rightarrow> string" where
  "bytes_str bs = map (\<lambda>b. char_of (unat b)) bs"

definition dec_str :: "bytes \<Rightarrow> (string \<times> bytes) option" where
  "dec_str bs = map_option (\<lambda>(x, r). (bytes_str x, r)) (dec_bytes bs)"

definition dec_i32 :: "bytes \<Rightarrow> (i32 \<times> bytes) option" where
  "dec_i32 bs = Some (of_nat (le_nat (take 4 bs)), drop 4 bs)"

definition dec_i64 :: "bytes \<Rightarrow> (i64 \<times> bytes) option" where
  "dec_i64 bs = Some (of_nat (le_nat (take 8 bs)), drop 8 bs)"

definition enc_i32 :: "i32 \<Rightarrow> bytes" where "enc_i32 w = nat_to_le 4 (unat w)"
definition enc_i64 :: "i64 \<Rightarrow> bytes" where "enc_i64 w = nat_to_le 8 (unat w)"
definition enc_str :: "string \<Rightarrow> bytes" where "enc_str s = enc_bytes (str_bytes s)"

lemma dec_enc_bytes [simp]: "dec_bytes (enc_bytes xs @ r) = Some (xs, r)"
proof (induction xs)
  case Nil
  then show ?case by (cases r) simp_all
qed simp

lemma unat_of_char: "unat (of_nat (of_char c) :: u8) = of_char c"
proof -
  have "(of_char c :: nat) < 256" by simp
  then show ?thesis by (simp add: unat_of_nat)
qed

lemma bytes_str_str_bytes [simp]: "bytes_str (str_bytes s) = s"
  by (induction s) (simp_all add: bytes_str_def str_bytes_def unat_of_char)

lemma dec_enc_str [simp]: "dec_str (enc_str s @ r) = Some (s, r)"
  by (simp add: dec_str_def enc_str_def)

lemma dec_enc_i32 [simp]: "dec_i32 (enc_i32 w @ r) = Some (w, r)"
proof -
  have "unat w < 2 ^ 32" using unsigned_less [of w, where 'a = nat] by simp
  then show ?thesis by (simp add: dec_i32_def enc_i32_def le_nat_to_le)
qed

lemma dec_enc_i64 [simp]: "dec_i64 (enc_i64 w @ r) = Some (w, r)"
proof -
  have "unat w < 2 ^ 64" using unsigned_less [of w, where 'a = nat] by simp
  then show ?thesis by (simp add: dec_i64_def enc_i64_def le_nat_to_le)
qed

subsection \<open>The messages\<close>

definition ref_encode_roster :: "roster \<Rightarrow> bytes" where
  "ref_encode_roster r = enc_i64 (ro_version r) @ concat (map (\<lambda>n.
     enc_i32 (rn_node_number n) @ [if rn_revoked n then 1 else 0] @
     enc_bytes (rn_public_key_spki n)) (ro_nodes r))"

definition ref_encode_pair :: "pair_payload \<Rightarrow> bytes" where
  "ref_encode_pair p = enc_i32 (pp_sender_node_number p) @ enc_i32 (pp_receiver_node_number p) @
     enc_bytes (pp_public_key_spki p) @ enc_bytes (pp_nonce p) @ enc_bytes (pp_reply_nonce p)"

definition enc_stun :: "stun_turn_config option \<Rightarrow> bytes" where
  "enc_stun c = (case c of None \<Rightarrow> [] | Some c \<Rightarrow>
     enc_str (st_stun_server c) @ enc_str (st_turn_server c) @ enc_str (st_turn_username c) @
     enc_str (st_turn_password c) @ enc_i64 (st_expires_at_millis c))"

definition dec_stun :: "bytes \<Rightarrow> stun_turn_config option option" where
  "dec_stun bs = (if bs = [] then Some None else
     Option.bind (dec_str bs) (\<lambda>(s, bs). Option.bind (dec_str bs) (\<lambda>(t, bs).
     Option.bind (dec_str bs) (\<lambda>(u, bs). Option.bind (dec_str bs) (\<lambda>(p, bs).
     Option.bind (dec_i64 bs) (\<lambda>(e, bs).
       Some (Some \<lparr>st_stun_server = s, st_turn_server = t, st_turn_username = u,
         st_turn_password = p, st_expires_at_millis = e\<rparr>)))))))"

definition ref_encode_request :: "request_payload \<Rightarrow> bytes" where
  "ref_encode_request p = enc_i32 (rq_answerer_node_number p) @
     enc_bytes (rq_caller_x25519_public_key p) @ enc_str (rq_caller_sdp p) @
     enc_i32 (rq_transport p) @ enc_i64 (rq_caller_hub_rtt_usec p) @
     enc_i64 (rq_caller_ice_start_delay_usec p) @ enc_stun (rq_stun_turn_config p)"

definition ref_decode_request :: "bytes \<Rightarrow> request_payload option" where
  "ref_decode_request bs =
     Option.bind (dec_i32 bs) (\<lambda>(n, bs). Option.bind (dec_bytes bs) (\<lambda>(k, bs).
     Option.bind (dec_str bs) (\<lambda>(s, bs). Option.bind (dec_i32 bs) (\<lambda>(t, bs).
     Option.bind (dec_i64 bs) (\<lambda>(r, bs). Option.bind (dec_i64 bs) (\<lambda>(d, bs).
     Option.bind (dec_stun bs) (\<lambda>c.
       Some \<lparr>rq_answerer_node_number = n, rq_caller_x25519_public_key = k, rq_caller_sdp = s,
         rq_transport = t, rq_stun_turn_config = c, rq_caller_hub_rtt_usec = r,
         rq_caller_ice_start_delay_usec = d\<rparr>)))))))"

definition ref_encode_response :: "response_payload \<Rightarrow> bytes" where
  "ref_encode_response p = enc_i64 (rs_connection_id p) @
     enc_bytes (rs_answerer_x25519_public_key p) @ enc_str (rs_answerer_sdp p)"

definition ref_decode_response :: "bytes \<Rightarrow> response_payload option" where
  "ref_decode_response bs =
     Option.bind (dec_i64 bs) (\<lambda>(n, bs). Option.bind (dec_bytes bs) (\<lambda>(k, bs).
     Option.bind (dec_str bs) (\<lambda>(s, bs).
       Some \<lparr>rs_connection_id = n, rs_answerer_x25519_public_key = k, rs_answerer_sdp = s\<rparr>)))"

definition ref_encode_registration :: "proto_registration \<Rightarrow> bytes" where
  "ref_encode_registration p = enc_str (pr_connectivity_group_id p) @ enc_i32 (pr_node_number p) @
     enc_str (pr_auth_token p) @ enc_str (pr_attestation_jwt p)"

definition ref_decode_registration :: "bytes \<Rightarrow> string + proto_registration" where
  "ref_decode_registration bs = (case
     Option.bind (dec_str bs) (\<lambda>(g, bs). Option.bind (dec_i32 bs) (\<lambda>(n, bs).
     Option.bind (dec_str bs) (\<lambda>(a, bs). Option.bind (dec_str bs) (\<lambda>(j, bs).
       Some \<lparr>pr_connectivity_group_id = g, pr_node_number = n, pr_auth_token = a,
         pr_attestation_jwt = j\<rparr>))))
     of None \<Rightarrow> Inl ''failed to decode Protobuf message'' | Some p \<Rightarrow> Inr p)"

lemmas ref_codec_defs = ref_encode_request_def ref_decode_request_def ref_encode_response_def
  ref_decode_response_def ref_encode_registration_def ref_decode_registration_def

lemma dec_enc_stun [simp]: "dec_stun (enc_stun c) = Some c"
proof (cases c)
  case (Some x)
  have "enc_str s \<noteq> []" for s by (cases s) (simp_all add: enc_str_def str_bytes_def)
  with Some show ?thesis
    using dec_enc_i64 [of _ "[]"] by (simp add: dec_stun_def enc_stun_def)
qed (simp add: dec_stun_def enc_stun_def)

subsection \<open>The instance\<close>

definition ref_sign :: "bytes \<Rightarrow> bytes \<Rightarrow> bytes" where
  "ref_sign k m = take 64 (rev m @ k @ replicate 64 0)"

definition ref_prims :: prims where
  "ref_prims = \<lparr>
     sha256 = (\<lambda>m. take 32 (rev m @ replicate 32 0)),
     hmac_sha256 = (\<lambda>k m. take 32 (rev m @ k @ replicate 32 0)),
     hkdf_sha256 = (\<lambda>salt ikm info n. if n \<le> 255 * 32
       then Some (take n (rev info @ ikm @ salt @ replicate n 0)) else None),
     vk_from_der = (\<lambda>b. case b of [] \<Rightarrow> Inl ''empty'' | t # k \<Rightarrow>
       if t = 48 then Inr k else Inl ''unexpected ASN.1 DER tag''),
     vk_to_der = (\<lambda>k. 48 # k),
     ed_verifying_key = (\<lambda>s. s),
     ed_sign = ref_sign,
     sig_from_slice = (\<lambda>s. if length s = 64 then Some s else None),
     ed_verify = (\<lambda>k m s. s = ref_sign k m),
     x25519_public = (\<lambda>s. s),
     x25519_dh = (\<lambda>a b. map2 (+) a b),
     aes_encrypt = (\<lambda>k n a m. Some (k @ n @ a @ m)),
     aes_decrypt = (\<lambda>k n a c. if take (length (k @ n @ a)) c = k @ n @ a
       then Some (drop (length (k @ n @ a)) c) else None),
     big_to_str36 = to_radix 36,
     big_parse36 = parse_radix 36,
     big_to_be = (\<lambda>n. rev (map of_nat (digits 256 n))),
     big_from_be = be_nat,
     encode_roster = ref_encode_roster,
     encode_pair_payload = ref_encode_pair,
     encode_request = ref_encode_request,
     decode_request = ref_decode_request,
     encode_response = ref_encode_response,
     decode_response = ref_decode_response,
     encode_registration = ref_encode_registration,
     decode_registration = ref_decode_registration\<rparr>"

lemma ref_prims_simps [simp]:
  "vk_to_der ref_prims k = 48 # k"
  "vk_from_der ref_prims (48 # k) = Inr k"
  "vk_from_der ref_prims [] = Inl ''empty''"
  "ed_verifying_key ref_prims s = s"
  "ed_sign ref_prims = ref_sign"
  "sig_from_slice ref_prims s = (if length s = 64 then Some s else None)"
  "ed_verify ref_prims k m s \<longleftrightarrow> s = ref_sign k m"
  "length (ref_sign k m) = 64"
  "x25519_public ref_prims s = s"
  "x25519_dh ref_prims a b = map2 (+) a b"
  "decode_request ref_prims (encode_request ref_prims q) = Some q"
  "decode_response ref_prims (encode_response ref_prims p) = Some p"
  "decode_registration ref_prims (encode_registration ref_prims g) = Inr g"
  using dec_enc_str [of _ "[]"]
  by (simp_all add: ref_prims_def ref_sign_def ref_codec_defs)

lemma ref_ed25519_correct: "ed25519_correct ref_prims"
  by (simp add: ed25519_correct_def)

lemma ref_aead_correct: "aead_correct ref_prims"
  by (auto simp: aead_correct_def ref_prims_def)

lemma ref_x25519_correct: "x25519_correct ref_prims"
  by (simp add: x25519_correct_def list_eq_iff_nth_eq add.commute min.commute)

lemma le_nat_undigits: "\<forall>d \<in> set ds. d < 256 \<Longrightarrow> le_nat (map of_nat ds) = undigits 256 ds"
proof (induction ds)
  case (Cons d ds)
  then have "unat (of_nat d :: u8) = d" by (simp add: unat_of_nat)
  with Cons show ?case by simp
qed simp

lemma digit_char_36: "d < 36 \<Longrightarrow> digit_char d \<in> set ''0123456789abcdefghijklmnopqrstuvwxyz''"
proof -
  have "list_all (\<lambda>d. digit_char d \<in> set ''0123456789abcdefghijklmnopqrstuvwxyz'') [0..<36]"
    by code_simp
  then show "d < 36 \<Longrightarrow> ?thesis" by (simp only: list_all_iff) simp
qed

lemma ref_biguint_correct: "biguint_correct ref_prims"
proof -
  have be: "be_nat (rev (map of_nat (digits 256 n))) = n" for n
    using le_nat_undigits [of "digits 256 n"] digits_less [of 256 _ n] by (simp add: be_nat_def)
  have str: "set (to_radix 36 n) \<subseteq> set ''0123456789abcdefghijklmnopqrstuvwxyz''" for n
    using digits_less [of 36 _ n] digit_char_36 by (auto simp only: to_radix_def set_rev set_map)
  have len: "length (to_radix 36 n) \<le> k" if "0 < k" "n < 36 ^ k" for n k
    using that digits_length [of 36 k n] by (simp add: to_radix_def)
  show ?thesis
    unfolding biguint_correct_def
    using be str len digits_length [of 256] parse_to_radix [of 36] by (simp add: ref_prims_def)
qed

end
