(* ===== verification/Pairing.thy ===== *)
theory Pairing
  imports Reference_Prims
begin

text \<open>
  \<open>wispers-connect/src/crypto.rs\<close>: activation-code profiles, the node's signing key, the
  ephemeral X25519 key, pairing secrets with their base36 form and message
  authentication, and the pairing code that a user copies between devices.  Random bytes
  are an argument (\<open>rand i\<close> is the \<open>i\<close>th byte drawn); durations are nanoseconds.
\<close>

type_synonym duration = nat

definition from_secs :: "nat \<Rightarrow> duration" where "from_secs s = s * 1000000000"
definition from_millis :: "nat \<Rightarrow> duration" where "from_millis s = s * 1000000"
definition from_micros :: "nat \<Rightarrow> duration" where "from_micros s = s * 1000"

subsection \<open>Profiles\<close>

datatype ttl_profile = Interactive | Asynchronous

definition default_ttl_profile :: ttl_profile where
  "default_ttl_profile = Interactive"

fun secret_len :: "ttl_profile \<Rightarrow> nat" where
  "secret_len Interactive = 7"
| "secret_len Asynchronous = 9"

fun base36_len :: "ttl_profile \<Rightarrow> nat" where
  "base36_len Interactive = 11"
| "base36_len Asynchronous = 14"

fun ttl :: "ttl_profile \<Rightarrow> duration" where
  "ttl Interactive = from_secs 120"
| "ttl Asynchronous = from_secs (24 * 60 * 60)"

definition from_secret_len :: "nat \<Rightarrow> ttl_profile option" where
  "from_secret_len len =
     (if len = 7 then Some Interactive else if len = 9 then Some Asynchronous else None)"

definition from_base36_len :: "nat \<Rightarrow> ttl_profile option" where
  "from_base36_len len =
     (if len = 11 then Some Interactive else if len = 14 then Some Asynchronous else None)"

definition PAIRING_RPC_DEADLINE :: duration where
  "PAIRING_RPC_DEADLINE = from_secs 120"

definition NONCE_LEN :: nat where
  "NONCE_LEN = 16"

text \<open>\<open>fill_bytes\<close> of a buffer of \<open>n\<close> bytes.\<close>

definition fill_bytes :: "(nat \<Rightarrow> u8) \<Rightarrow> nat \<Rightarrow> bytes" where
  "fill_bytes rand n = map rand [0..<n]"

definition generate_nonce :: "(nat \<Rightarrow> u8) \<Rightarrow> bytes" where
  "generate_nonce rand = fill_bytes rand NONCE_LEN"

subsection \<open>Keys\<close>

text \<open>HKDF refuses to expand only beyond 255 blocks of the hash; its output has the length
  asked for.\<close>

definition hkdf_correct :: "prims \<Rightarrow> bool" where
  "hkdf_correct P \<longleftrightarrow> (\<forall>salt ikm info n. n \<le> 255 * 32 \<longrightarrow>
     (\<exists>out. hkdf_sha256 P salt ikm info n = Some out \<and> length out = n))"

definition derive_from_root_key :: "prims \<Rightarrow> bytes \<Rightarrow> (signing_seed, 'e) result" where
  "derive_from_root_key P root_key =
     expect (hkdf_sha256 P (str_bytes ''wispers-connect-v1'') root_key
       (str_bytes ''signing-key'') 32)"

definition public_key_spki :: "prims \<Rightarrow> signing_seed \<Rightarrow> bytes" where
  "public_key_spki P sk = vk_to_der P (ed_verifying_key P sk)"

definition public_key_bytes :: "prims \<Rightarrow> signing_seed \<Rightarrow> bytes" where
  "public_key_bytes P sk = ed_verifying_key P sk"

definition sign :: "prims \<Rightarrow> signing_seed \<Rightarrow> bytes \<Rightarrow> bytes" where
  "sign P sk message = ed_sign P sk message"

definition generate_ephemeral :: "(nat \<Rightarrow> u8) \<Rightarrow> bytes" where
  "generate_ephemeral rand = fill_bytes rand 32"

definition x_public_key :: "prims \<Rightarrow> bytes \<Rightarrow> bytes" where
  "x_public_key P seed = x25519_public P seed"

definition diffie_hellman :: "prims \<Rightarrow> bytes \<Rightarrow> bytes \<Rightarrow> bytes" where
  "diffie_hellman P seed peer_public = x25519_dh P seed peer_public"

subsection \<open>Pairing secrets\<close>

type_synonym pairing_secret = bytes

datatype pairing_secret_error = InvalidLength | InvalidCharacter | OutOfRange

definition generate_secret :: "(nat \<Rightarrow> u8) \<Rightarrow> ttl_profile \<Rightarrow> pairing_secret" where
  "generate_secret rand profile = fill_bytes rand (secret_len profile)"

text \<open>\<open>format!("{s:0>width$}")\<close> pads on the left up to the width and never truncates.\<close>

definition pad_left :: "nat \<Rightarrow> string \<Rightarrow> string" where
  "pad_left width s = replicate (width - length s) (CHR ''0'') @ s"

definition encode_base36 :: "prims \<Rightarrow> bytes \<Rightarrow> (string, 'e) result" where
  "encode_base36 P bs =
     rbind (expect (from_secret_len (length bs))) (\<lambda>profile.
     Ok (pad_left (base36_len profile) (big_to_str36 P (big_from_be P bs))))"

definition decode_base36 :: "prims \<Rightarrow> string \<Rightarrow> (bytes, pairing_secret_error) result" where
  "decode_base36 P s =
     rbind (ok_or InvalidLength (from_base36_len (length s))) (\<lambda>profile.
     rbind (ok_or InvalidCharacter (big_parse36 P s)) (\<lambda>n.
     let raw = big_to_be P n; len = secret_len profile in
     if length raw > len then Err OutOfRange
     else Ok (replicate (len - length raw) 0 @ raw)))"

definition from_base36 :: "prims \<Rightarrow> string \<Rightarrow> (pairing_secret, pairing_secret_error) result" where
  "from_base36 P s = decode_base36 P s"

definition to_base36 :: "prims \<Rightarrow> pairing_secret \<Rightarrow> (string, 'e) result" where
  "to_base36 P secret = encode_base36 P secret"

definition derive_mac_key :: "prims \<Rightarrow> pairing_secret \<Rightarrow> bytes" where
  "derive_mac_key P secret =
     hmac_sha256 P secret (str_bytes ''wispers-pairing-v1'' @ str_bytes ''wispers-pairing-v1|mac'')"

definition compute_mac :: "prims \<Rightarrow> pairing_secret \<Rightarrow> bytes \<Rightarrow> bytes" where
  "compute_mac P secret payload = take 16 (hmac_sha256 P (derive_mac_key P secret) payload)"

definition constant_time_eq :: "bytes \<Rightarrow> bytes \<Rightarrow> bool" where
  "constant_time_eq a b \<longleftrightarrow> length a = length b \<and>
     foldl (\<lambda>acc (x, y). or acc (xor x y)) 0 (zip a b) = 0"

definition verify_mac :: "prims \<Rightarrow> pairing_secret \<Rightarrow> bytes \<Rightarrow> bytes \<Rightarrow> bool" where
  "verify_mac P secret payload tag = constant_time_eq (compute_mac P secret payload) tag"

subsection \<open>Pairing codes\<close>

record pairing_code =
  pc_node_number :: i32
  pc_secret :: pairing_secret

datatype pairing_code_error =
    InvalidFormat | InvalidNodeNumber | InvalidSecret pairing_secret_error

definition format_code :: "prims \<Rightarrow> pairing_code \<Rightarrow> (string, 'e) result" where
  "format_code P code =
     rbind (to_base36 P (pc_secret code)) (\<lambda>s.
     Ok (int_to_string (sint (pc_node_number code)) @ CHR ''-'' # s))"

definition parse_code :: "prims \<Rightarrow> string \<Rightarrow> (pairing_code, pairing_code_error) result" where
  "parse_code P s =
     (case split_on (CHR ''-'') s of
        [a, b] \<Rightarrow>
          rbind (ok_or InvalidNodeNumber (parse_i32 a)) (\<lambda>node_number.
          rbind (map_err InvalidSecret (from_base36 P b)) (\<lambda>secret.
          Ok \<lparr>pc_node_number = node_number, pc_secret = secret\<rparr>))
      | _ \<Rightarrow> Err InvalidFormat)"

subsection \<open>Constant-time comparison\<close>

lemma xor_zero_iff: "xor x y = 0 \<longleftrightarrow> x = (y :: 'a :: len word)"
  by (auto simp: bit_eq_iff bit_xor_iff)

lemma foldl_or_zero:
  "foldl (\<lambda>acc (x, y). or acc (xor x y)) (c :: u8) zs = 0 \<longleftrightarrow> c = 0 \<and> (\<forall>(x, y) \<in> set zs. x = y)"
proof (induction zs arbitrary: c)
  case (Cons z zs)
  obtain x y where z: "z = (x, y)" by (cases z)
  have "or c (xor x y) = 0 \<longleftrightarrow> c = 0 \<and> x = y"
    by (simp add: or_eq_0_iff xor_zero_iff)
  then show ?case using Cons.IH [of "or c (xor x y)"] by (auto simp: z)
qed simp

lemma constant_time_eq_iff: "constant_time_eq a b \<longleftrightarrow> a = b"
proof
  assume c: "constant_time_eq a b"
  then have len: "length a = length b" by (simp add: constant_time_eq_def)
  show "a = b"
  proof (rule nth_equalityI [OF len])
    fix i assume i: "i < length a"
    then have "(a ! i, b ! i) \<in> set (zip a b)"
      using len by (auto simp: set_zip)
    then show "a ! i = b ! i"
      using c by (auto simp: constant_time_eq_def foldl_or_zero)
  qed
qed (auto simp: constant_time_eq_def foldl_or_zero set_zip)

lemma verify_mac_iff [simp]: "verify_mac P secret payload tag \<longleftrightarrow> tag = compute_mac P secret payload"
  by (auto simp: verify_mac_def constant_time_eq_iff)

subsection \<open>Base36\<close>

lemma from_secret_len_iff: "from_secret_len n = Some p \<longleftrightarrow> n = secret_len p"
  by (cases p) (auto simp: from_secret_len_def)

lemma from_base36_len_iff: "from_base36_len n = Some p \<longleftrightarrow> n = base36_len p"
  by (cases p) (auto simp: from_base36_len_def)

lemma length_fill_bytes [simp]: "length (fill_bytes rand n) = n"
  by (simp add: fill_bytes_def)

lemma biguint_correctD:
  assumes "biguint_correct P"
  shows "big_from_be P bs = be_nat bs" and "be_nat (big_to_be P n) = n"
    and "0 < k \<Longrightarrow> n < 256 ^ k \<Longrightarrow> length (big_to_be P n) \<le> k"
    and "big_parse36 P (replicate k (CHR ''0'') @ big_to_str36 P n) = Some n"
    and "0 < k \<Longrightarrow> n < 36 ^ k \<Longrightarrow> length (big_to_str36 P n) \<le> k"
    and "c \<in> set (big_to_str36 P n) \<Longrightarrow> c \<in> set ''0123456789abcdefghijklmnopqrstuvwxyz''"
  using assms unfolding biguint_correct_def by auto

text \<open>The width of a profile fits its secrets without loss, and no smaller width does.\<close>

lemma width_fits: "256 ^ secret_len p < (36 ^ base36_len p :: nat)"
  by (cases p) simp_all

lemma secret_len_pos [simp]: "0 < secret_len p" "0 < base36_len p"
  by (cases p; simp)+

definition base36_text :: "prims \<Rightarrow> ttl_profile \<Rightarrow> bytes \<Rightarrow> string" where
  "base36_text P p bs = pad_left (base36_len p) (big_to_str36 P (be_nat bs))"

lemma encode_base36_text:
  "biguint_correct P \<Longrightarrow> length bs = secret_len p \<Longrightarrow> encode_base36 P bs = Ok (base36_text P p bs)"
  by (simp add: encode_base36_def base36_text_def from_secret_len_iff [THEN iffD2]
      biguint_correctD(1))

lemma base36_text_props:
  assumes P: "biguint_correct P" and len: "length bs = secret_len p"
  shows "length (base36_text P p bs) = base36_len p"
    and "big_parse36 P (base36_text P p bs) = Some (be_nat bs)"
    and "CHR ''-'' \<notin> set (base36_text P p bs)"
proof -
  note D = biguint_correctD [OF P]
  let ?t = "big_to_str36 P (be_nat bs)"
  have "be_nat bs < 36 ^ base36_len p"
    using be_nat_bound [of bs] width_fits [of p] len by simp
  then have "length ?t \<le> base36_len p" using D(5) by simp
  then show "length (base36_text P p bs) = base36_len p"
    by (simp add: base36_text_def pad_left_def)
  show "big_parse36 P (base36_text P p bs) = Some (be_nat bs)"
    using D(4) by (simp add: base36_text_def pad_left_def)
  show "CHR ''-'' \<notin> set (base36_text P p bs)"
    using D(6) [of "CHR ''-''"] by (auto simp: base36_text_def pad_left_def)
qed

lemma decode_base36_Ok_iff:
  assumes P: "biguint_correct P"
  shows "decode_base36 P s = Ok bs \<longleftrightarrow>
    (\<exists>p. length s = base36_len p \<and> length bs = secret_len p \<and> big_parse36 P s = Some (be_nat bs))"
    (is "?L \<longleftrightarrow> ?R")
proof
  note D = biguint_correctD [OF P]
  show "?L \<Longrightarrow> ?R"
    using D(2) by (fastforce simp: decode_base36_def rust_simps from_base36_len_iff Let_def
        split: if_splits)
  assume ?R
  then obtain p where p: "length s = base36_len p" "length bs = secret_len p"
      "big_parse36 P s = Some (be_nat bs)" by auto
  let ?raw = "big_to_be P (be_nat bs)"
  have l: "length ?raw \<le> secret_len p"
    using D(3) be_nat_bound [of bs] p(2) by simp
  have "replicate (secret_len p - length ?raw) 0 @ ?raw = bs"
    using l p(2) D(2) by (intro be_nat_inj) simp_all
  with l p show ?L
    by (simp add: decode_base36_def from_base36_len_iff [THEN iffD2] Let_def)
qed

subsection \<open>Properties\<close>

text \<open>
  The base36 form of a pairing secret is lossless.  A secret of either profile's length
  is encoded, without a panic, as exactly as many characters as the profile prescribes,
  and decoding them gives back the same bytes.
\<close>

theorem base36_roundtrip:
  assumes "biguint_correct P" and "length secret = secret_len profile"
  shows "\<exists>s. to_base36 P secret = Ok s \<and> length s = base36_len profile \<and>
    from_base36 P s = Ok secret"
  using assms base36_text_props [OF assms] encode_base36_text [OF assms]
  by (auto simp: to_base36_def from_base36_def decode_base36_Ok_iff intro: exI [of _ profile])

theorem base36_roundtrip_witness:
  "\<exists>s. to_base36 ref_prims [0, 0, 1, 2, 3, 4, 5] = Ok s \<and> length s = 11 \<and>
     from_base36 ref_prims s = Ok [0, 0, 1, 2, 3, 4, 5]"
  using base36_roundtrip [OF ref_biguint_correct, of "[0, 0, 1, 2, 3, 4, 5]" Interactive] by simp

text \<open>
  An activation code survives being copied.  Formatting a code whose node number is
  not negative and parsing the text again returns the same node number and secret.
\<close>

theorem pairing_code_roundtrip:
  assumes "biguint_correct P" and "length (pc_secret code) = secret_len profile"
    and "0 \<le> sint (pc_node_number code)"
  shows "\<exists>s. format_code P code = Ok s \<and> parse_code P s = Ok code"
proof -
  let ?s = "base36_text P profile (pc_secret code)"
  let ?t = "int_to_string (sint (pc_node_number code)) @ CHR ''-'' # ?s"
  note s = base36_text_props [OF assms(1,2)]
  have "split_on (CHR ''-'') ?t = [int_to_string (sint (pc_node_number code)), ?s]"
    using s(3) int_to_string_no_dash [OF assms(3)] by (simp add: split_on_two)
  moreover have "from_base36 P ?s = Ok (pc_secret code)"
    using s assms by (auto simp: from_base36_def decode_base36_Ok_iff)
  ultimately have "parse_code P ?t = Ok code"
    by (simp add: parse_code_def)
  then show ?thesis
    by (simp add: format_code_def to_base36_def encode_base36_text [OF assms(1,2)])
qed

theorem pairing_code_roundtrip_witness:
  "\<exists>s. format_code ref_prims \<lparr>pc_node_number = 12, pc_secret = [9, 8, 7, 6, 5, 4, 3, 2, 1]\<rparr> = Ok s \<and>
     parse_code ref_prims s = Ok \<lparr>pc_node_number = 12, pc_secret = [9, 8, 7, 6, 5, 4, 3, 2, 1]\<rparr>"
  using pairing_code_roundtrip [OF ref_biguint_correct,
      of "\<lparr>pc_node_number = 12, pc_secret = [9, 8, 7, 6, 5, 4, 3, 2, 1]\<rparr>" Asynchronous] by simp

text \<open>
  The parser accepts nothing else.  An accepted code is a decimal node number, one
  dash and a base36 number of 11 or 14 characters that fits the profile's secret, and the
  secret it yields denotes exactly that number; in particular no accepted text can yield a
  secret of another length.
\<close>

theorem parse_code_accepts_only_codes:
  assumes "biguint_correct P" and "parse_code P s = Ok code"
  shows "\<exists>a b profile. s = a @ CHR ''-'' # b \<and> parse_i32 a = Some (pc_node_number code) \<and>
    length b = base36_len profile \<and> length (pc_secret code) = secret_len profile \<and>
    big_parse36 P b = Some (be_nat (pc_secret code))"
proof -
  from assms(2) obtain a b where ab: "split_on (CHR ''-'') s = [a, b]"
      "parse_i32 a = Some (pc_node_number code)" "from_base36 P b = Ok (pc_secret code)"
    by (auto simp: parse_code_def rust_simps split: list.splits)
  then show ?thesis
    unfolding split_on_two from_base36_def decode_base36_Ok_iff [OF assms(1)] by blast
qed

theorem parse_code_accepts_only_codes_witness:
  "\<exists>a b. ''7-00000000001'' = a @ CHR ''-'' # b \<and> parse_i32 a = Some 7"
proof -
  have "parse_code ref_prims ''7-00000000001'' =
      Ok \<lparr>pc_node_number = 7, pc_secret = [0, 0, 0, 0, 0, 0, 1]\<rparr>"
    by code_simp
  from parse_code_accepts_only_codes [OF ref_biguint_correct this] show ?thesis
    by (elim exE conjE) (intro exI conjI; assumption?; simp)
qed

text \<open>
  The constant-time comparison is equality, so the message authentication accepts a
  tag if and only if it is the one that the secret computes for the payload.
\<close>

theorem mac_accepts_exactly_its_tag:
  "(constant_time_eq a b \<longleftrightarrow> a = b) \<and>
   (verify_mac P secret payload tag \<longleftrightarrow> tag = compute_mac P secret payload)"
  by (simp add: constant_time_eq_iff)

text \<open>
  The profiles are calibrated as documented.  A profile's base36 width is the smallest
  one that holds its secrets, the two lengths determine the profile, generated secrets have
  the profile's length, no profile has fewer secret bytes than the interactive one, and the
  new node's deadline is the interactive lifetime.
\<close>

theorem profiles_are_calibrated:
  "36 ^ (base36_len p - 1) < (256 ^ secret_len p :: nat) \<and>
   (256 ^ secret_len p :: nat) \<le> 36 ^ base36_len p \<and>
   from_secret_len (secret_len p) = Some p \<and> from_base36_len (base36_len p) = Some p \<and>
   length (generate_secret rand p) = secret_len p \<and>
   secret_len Interactive \<le> secret_len p \<and> PAIRING_RPC_DEADLINE = ttl Interactive"
  by (cases p) (simp_all add: from_secret_len_def from_base36_len_def generate_secret_def
      PAIRING_RPC_DEADLINE_def)

end
