(* ===== verification/Node_Types.thy ===== *)
theory Node_Types
  imports Roster Pairing
begin

text \<open>
  \<open>wispers-connect/src/types.rs\<close>, \<open>errors.rs\<close>, the error types and predicates of
  \<open>hub.rs\<close>, \<open>storage/mod.rs\<close> and \<open>serving.rs\<close>, and the state enums of \<open>node.rs\<close>.  Errors
  that only wrap a third-party value without reading it keep no more than its text.
\<close>

subsection \<open>types.rs\<close>

definition ROOT_KEY_LEN :: nat where
  "ROOT_KEY_LEN = 32"

type_synonym root_key = bytes

definition generate_root_key :: "(nat \<Rightarrow> u8) \<Rightarrow> root_key" where
  "generate_root_key rand = fill_bytes rand ROOT_KEY_LEN"

record node_registration =
  nr_connectivity_group_id :: string
  nr_node_number :: i32
  nr_auth_token :: "string option"
  nr_attestation_jwt :: string

definition new_registration :: "string \<Rightarrow> i32 \<Rightarrow> string \<Rightarrow> string \<Rightarrow> node_registration" where
  "new_registration connectivity_group_id node_number auth_token attestation_jwt =
     \<lparr>nr_connectivity_group_id = connectivity_group_id, nr_node_number = node_number,
      nr_auth_token = Some auth_token, nr_attestation_jwt = attestation_jwt\<rparr>"

datatype node_state = Pending | Registered | Activated | Revoked

record node_info =
  ni_node_number :: i32
  ni_name :: string
  ni_metadata :: string
  ni_is_self :: bool
  ni_state :: node_state
  ni_last_seen_at_millis :: i64
  ni_is_online :: bool

datatype group_state = Alone | Bootstrap | NeedActivation | CanEndorse | AllActivated

record group_info =
  gi_id :: string
  gi_name :: "string option"
  gi_created_at_millis :: i64
  gi_state :: group_state
  gi_nodes :: "node_info list"

record persisted_node_state =
  ps_root_key :: root_key
  ps_registration :: "node_registration option"

definition new_persisted :: "(nat \<Rightarrow> u8) \<Rightarrow> persisted_node_state" where
  "new_persisted rand = \<lparr>ps_root_key = generate_root_key rand, ps_registration = None\<rparr>"

definition from_stored :: "bytes \<Rightarrow> node_registration option \<Rightarrow> persisted_node_state" where
  "from_stored root_key_bytes registration =
     \<lparr>ps_root_key = root_key_bytes, ps_registration = registration\<rparr>"

definition is_registered :: "persisted_node_state \<Rightarrow> bool" where
  "is_registered s \<longleftrightarrow> ps_registration s \<noteq> None"

definition set_registration :: "node_registration \<Rightarrow> persisted_node_state \<Rightarrow> persisted_node_state" where
  "set_registration registration s = s\<lparr>ps_registration := Some registration\<rparr>"

subsection \<open>errors.rs and the error types it wraps\<close>

datatype wispers_status =
    Success | NullPointer | InvalidUtf8 | StoreError | StatusAlreadyRegistered
  | StatusNotRegistered | NotFound | BufferTooSmall | StatusMissingCallback
  | StatusInvalidActivationCode | ActivationFailed | StatusHubError | ConnectionFailed
  | Timeout | StatusInvalidState | Unauthenticated | PeerRejected | PeerUnavailable
  | StatusRevoked

datatype storage_error =
    Poisoned | Io string | InvalidRootKey | RegistrationCodec string
  | MissingCallback string | ForeignStatus wispers_status

text \<open>The status codes of gRPC (\<open>tonic::Code\<close>) and a status with its message.\<close>

datatype grpc_code =
    CodeOk | CodeCancelled | CodeUnknown | CodeInvalidArgument | CodeDeadlineExceeded
  | CodeNotFound | CodeAlreadyExists | CodePermissionDenied | CodeResourceExhausted
  | CodeFailedPrecondition | CodeAborted | CodeOutOfRange | CodeUnimplemented | CodeInternal
  | CodeUnavailable | CodeDataLoss | CodeUnauthenticated

record grpc_status =
  gs_code :: grpc_code
  gs_message :: string

datatype hub_error =
    InvalidUri string | Connection string | Rpc grpc_status | IncompatibleVersion string
  | Metadata string | RosterVerification roster_error

definition VERSION_REJECTION_PREFIX :: string where
  "VERSION_REJECTION_PREFIX = ''incompatible client version''"

definition starts_with :: "string \<Rightarrow> string \<Rightarrow> bool" where
  "starts_with s prefix \<longleftrightarrow> take (length prefix) s = prefix"

definition hub_error_from_status :: "grpc_status \<Rightarrow> hub_error" where
  "hub_error_from_status status =
     (if gs_code status = CodeFailedPrecondition \<and>
         starts_with (gs_message status) VERSION_REJECTION_PREFIX
      then IncompatibleVersion (gs_message status)
      else Rpc status)"

definition rpc_code_is :: "grpc_code \<Rightarrow> hub_error \<Rightarrow> bool" where
  "rpc_code_is code e \<longleftrightarrow> (case e of Rpc s \<Rightarrow> gs_code s = code | _ \<Rightarrow> False)"

definition hub_is_unauthenticated :: "hub_error \<Rightarrow> bool" where
  "hub_is_unauthenticated e = rpc_code_is CodeUnauthenticated e"

definition hub_is_not_found :: "hub_error \<Rightarrow> bool" where
  "hub_is_not_found e = rpc_code_is CodeNotFound e"

definition hub_is_peer_rejected :: "hub_error \<Rightarrow> bool" where
  "hub_is_peer_rejected e = rpc_code_is CodeFailedPrecondition e"

definition hub_is_peer_unavailable :: "hub_error \<Rightarrow> bool" where
  "hub_is_peer_unavailable e = rpc_code_is CodeUnavailable e"

datatype node_state_error =
    Store storage_error
  | Hub hub_error
  | AlreadyRegistered
  | NotRegistered
  | InvalidActivationCode pairing_code_error
  | MacVerificationFailed
  | MissingEndorserResponse
  | RosterVerificationFailed roster_error
  | LastActiveNode
  | CannotRevokeSelf
  | NodeNotActive i32
  | NodeRevoked
  | InvalidState node_state string

definition err_is_unauthenticated :: "node_state_error \<Rightarrow> bool" where
  "err_is_unauthenticated e \<longleftrightarrow> (case e of Hub h \<Rightarrow> hub_is_unauthenticated h | _ \<Rightarrow> False)"

definition err_is_not_found :: "node_state_error \<Rightarrow> bool" where
  "err_is_not_found e \<longleftrightarrow> (case e of Hub h \<Rightarrow> hub_is_not_found h | _ \<Rightarrow> False)"

definition err_is_revoked :: "node_state_error \<Rightarrow> bool" where
  "err_is_revoked e \<longleftrightarrow> (case e of NodeRevoked \<Rightarrow> True | _ \<Rightarrow> False)"

definition err_is_peer_rejected :: "node_state_error \<Rightarrow> bool" where
  "err_is_peer_rejected e \<longleftrightarrow> (case e of Hub h \<Rightarrow> hub_is_peer_rejected h | _ \<Rightarrow> False)"

definition err_is_peer_unavailable :: "node_state_error \<Rightarrow> bool" where
  "err_is_peer_unavailable e \<longleftrightarrow> (case e of Hub h \<Rightarrow> hub_is_peer_unavailable h | _ \<Rightarrow> False)"

datatype serving_error = ServingHub hub_error | SessionShutdown | TooManyActivationSessions

definition serving_is_unauthenticated :: "serving_error \<Rightarrow> bool" where
  "serving_is_unauthenticated e \<longleftrightarrow> (case e of ServingHub h \<Rightarrow> hub_is_unauthenticated h | _ \<Rightarrow> False)"

definition serving_is_peer_rejected :: "serving_error \<Rightarrow> bool" where
  "serving_is_peer_rejected e \<longleftrightarrow> (case e of ServingHub h \<Rightarrow> hub_is_peer_rejected h | _ \<Rightarrow> False)"

definition serving_is_peer_unavailable :: "serving_error \<Rightarrow> bool" where
  "serving_is_peer_unavailable e \<longleftrightarrow> (case e of ServingHub h \<Rightarrow> hub_is_peer_unavailable h | _ \<Rightarrow> False)"

lemma version_rejection_is_no_peer_rejection:
  "hub_error_from_status s = IncompatibleVersion m \<Longrightarrow>
     \<not> hub_is_peer_rejected (hub_error_from_status s)"
  by (simp add: hub_is_peer_rejected_def rpc_code_is_def)

lemma hub_predicates_exclusive:
  "hub_is_unauthenticated e \<Longrightarrow> \<not> hub_is_not_found e"
  by (auto simp: hub_is_unauthenticated_def hub_is_not_found_def rpc_code_is_def
      split: hub_error.splits)

end
