(* ===== verification/Rtt.thy ===== *)
theory Rtt
  imports Pairing
begin

text \<open>
  \<open>wispers-connect/src/rtt.rs\<close>: the node's estimate of its round trip to the hub, the
  minimum over recent samples.  The clock reading is an argument; instants and durations
  are nanoseconds, and \<open>duration_since\<close> saturates at zero, which is subtraction on \<open>nat\<close>.
\<close>

definition MAX_SAMPLES :: nat where
  "MAX_SAMPLES = 8"

definition MAX_AGE :: duration where
  "MAX_AGE = from_secs (5 * 60)"

text \<open>Samples from the oldest to the newest, each with the instant it was taken.\<close>

record rtt_estimator =
  rtt_samples :: "(nat \<times> duration) list"

definition rtt_new :: rtt_estimator where
  "rtt_new = \<lparr>rtt_samples = []\<rparr>"

definition iter_min :: "nat list \<Rightarrow> nat option" where
  "iter_min xs = (if xs = [] then None else Some (Min (set xs)))"

definition fresh_at :: "nat \<Rightarrow> nat \<times> duration \<Rightarrow> bool" where
  "fresh_at now s \<longleftrightarrow> now - fst s < MAX_AGE"

definition rtt_estimate :: "nat \<Rightarrow> rtt_estimator \<Rightarrow> duration option" where
  "rtt_estimate now e =
     (case iter_min (map snd (filter (fresh_at now) (rtt_samples e))) of
        None \<Rightarrow> iter_min (map snd (rtt_samples e))
      | Some m \<Rightarrow> Some m)"

definition rtt_observe :: "nat \<Rightarrow> duration \<Rightarrow> rtt_estimator \<Rightarrow> rtt_estimator" where
  "rtt_observe now sample e =
     (let samples = filter (fresh_at now) (rtt_samples e);
          samples = (if length samples = MAX_SAMPLES then tl samples else samples)
      in e\<lparr>rtt_samples := samples @ [(now, sample)]\<rparr>)"

subsection \<open>Invariant\<close>

text \<open>At most \<open>MAX_SAMPLES\<close> samples, from the oldest to the newest, none from the future.\<close>

definition rtt_inv :: "nat \<Rightarrow> rtt_estimator \<Rightarrow> bool" where
  "rtt_inv now e \<longleftrightarrow> length (rtt_samples e) \<le> MAX_SAMPLES \<and>
     sorted (map fst (rtt_samples e)) \<and> (\<forall>s \<in> set (rtt_samples e). fst s \<le> now)"

lemma rtt_inv_new: "rtt_inv now rtt_new"
  by (simp add: rtt_inv_def rtt_new_def)

lemma rtt_inv_observe:
  assumes "rtt_inv t e" and "t \<le> now"
  shows "rtt_inv now (rtt_observe now sample e)"
proof -
  let ?s = "filter (fresh_at now) (rtt_samples e)"
  let ?t = "if length ?s = MAX_SAMPLES then tl ?s else ?s"
  have "length ?s \<le> MAX_SAMPLES"
    using assms(1) le_trans [OF length_filter_le] by (auto simp: rtt_inv_def)
  then have len: "length ?t < MAX_SAMPLES" by (auto simp: MAX_SAMPLES_def)
  have "sorted (map fst ?s)"
    using assms(1) sorted_filter by (auto simp: rtt_inv_def)
  then have srt: "sorted (map fst ?t)"
    by (simp add: map_tl sorted_tl)
  have "set (tl ?s) \<subseteq> set ?s" by (cases ?s) auto
  then have "set ?t \<subseteq> set (rtt_samples e)" by auto
  then have "\<forall>s \<in> set ?t. fst s \<le> now"
    using assms by (fastforce simp: rtt_inv_def)
  with len srt show ?thesis
    by (auto simp: rtt_inv_def rtt_observe_def Let_def sorted_append)
qed

lemma iter_min_le: "x \<in> set xs \<Longrightarrow> \<exists>m. iter_min xs = Some m \<and> m \<le> x \<and> m \<in> set xs"
  by (auto simp: iter_min_def)

text \<open>The whole history of observations of one node, replayed into the estimator.\<close>

fun rtt_run :: "rtt_estimator \<Rightarrow> (nat \<times> duration) list \<Rightarrow> rtt_estimator" where
  "rtt_run e [] = e"
| "rtt_run e ((now, s) # obs) = rtt_run (rtt_observe now s e) obs"

lemma rtt_run_inv:
  "rtt_inv t e \<Longrightarrow> sorted (t # map fst obs) \<Longrightarrow> rtt_inv (last (t # map fst obs)) (rtt_run e obs)"
proof (induction obs arbitrary: e t)
  case (Cons o1 obs)
  obtain now s where o: "o1 = (now, s)" by (cases o1)
  with Cons.prems have "rtt_inv now (rtt_observe now s e)"
    using rtt_inv_observe by simp
  then show ?case using Cons.IH [of now] Cons.prems(2) by (simp add: o)
qed simp

lemma rtt_run_snoc: "rtt_run e (obs @ [(now, s)]) = rtt_observe now s (rtt_run e obs)"
  by (induction e obs rule: rtt_run.induct) auto

lemma observe_keeps_new: "(now, s) \<in> set (rtt_samples (rtt_observe now s e))"
  by (simp add: rtt_observe_def Let_def)

lemma observe_subset:
  "set (rtt_samples (rtt_observe now s e)) \<subseteq> insert (now, s) (set (rtt_samples e))"
proof -
  let ?s = "filter (fresh_at now) (rtt_samples e)"
  have "set (tl ?s) \<subseteq> set ?s" by (cases ?s) auto
  then show ?thesis by (auto simp: rtt_observe_def Let_def)
qed

lemma rtt_run_subset: "set (rtt_samples (rtt_run e obs)) \<subseteq> set (rtt_samples e) \<union> set obs"
proof (induction e obs rule: rtt_run.induct)
  case (2 e now s obs)
  then show ?case using observe_subset [of now s e] by fastforce
qed simp

text \<open>
  The round-trip estimate is sound and bounded.  After any run of observations in the
  order of time, at most eight samples are held; once anything was observed there is an
  estimate, it is one of the observed values, and it is no larger than the latest one.
\<close>

theorem rtt_estimate_sound:
  assumes "sorted (map fst (obs @ [(now, s)]))"
  shows "length (rtt_samples (rtt_run rtt_new (obs @ [(now, s)]))) \<le> MAX_SAMPLES \<and>
    (\<exists>m. rtt_estimate now (rtt_run rtt_new (obs @ [(now, s)])) = Some m \<and> m \<le> s \<and>
       m \<in> snd ` set (obs @ [(now, s)]))"
proof -
  let ?e = "rtt_run rtt_new (obs @ [(now, s)])"
  have "sorted (0 # map fst (obs @ [(now, s)]))" using assms by simp
  then have inv: "rtt_inv now ?e"
    using rtt_run_inv [OF rtt_inv_new, of 0 "obs @ [(now, s)]"] by simp
  have new: "(now, s) \<in> set (rtt_samples ?e)"
    by (simp only: rtt_run_snoc observe_keeps_new)
  have sub: "set (rtt_samples ?e) \<subseteq> set (obs @ [(now, s)])"
    using rtt_run_subset [of rtt_new "obs @ [(now, s)]"] by (simp add: rtt_new_def)
  have "s \<in> set (map snd (filter (fresh_at now) (rtt_samples ?e)))"
    using new by (force simp: fresh_at_def MAX_AGE_def from_secs_def)
  from iter_min_le [OF this] obtain m where
    m: "iter_min (map snd (filter (fresh_at now) (rtt_samples ?e))) = Some m" "m \<le> s"
      "m \<in> set (map snd (filter (fresh_at now) (rtt_samples ?e)))" by blast
  then have "m \<in> snd ` set (obs @ [(now, s)])" using sub by auto
  with m inv show ?thesis by (simp add: rtt_estimate_def rtt_inv_def)
qed

theorem rtt_estimate_sound_witness:
  "\<exists>m. rtt_estimate 30 (rtt_run rtt_new ([(10, 40), (20, 25)] @ [(30, 60)])) = Some m \<and> m \<le> 60"
  using rtt_estimate_sound [of "[(10, 40), (20, 25)]" 30 60] by auto

end
