(* ===== verification/Roster_Chain.thy ===== *)
theory Roster_Chain
  imports Roster
begin

text \<open>
  What a roster that passes \<open>verify_roster\<close> is: \<open>valid_history\<close> generates exactly the
  rosters that arise from a cosigned bootstrap by cosigned activations and signed
  revocations, with the code's own builders.  The verifier accepts a roster if and only
  if it has such a history and the verifier is active in it under the expected key
  (\<open>verify_roster_accepts\<close>); the remaining lemmas are about histories, so that the
  clients of the verifier (\<open>Node\<close>, \<open>Session\<close>) never open its loop.
\<close>

subsection \<open>Signed addenda and active keys\<close>

definition signed_activation :: "activation_payload \<Rightarrow> bytes \<Rightarrow> bytes \<Rightarrow> addendum" where
  "signed_activation p ns es =
     \<lparr>add_kind = Some (Activation \<lparr>act_payload = Some p,
        act_new_node_signature = ns, act_endorser_signature = es\<rparr>)\<rparr>"

definition signed_revocation :: "revocation_payload \<Rightarrow> bytes \<Rightarrow> addendum" where
  "signed_revocation p s =
     \<lparr>add_kind = Some (Revocation \<lparr>rev_payload = Some p, rev_revoker_signature = s\<rparr>)\<rparr>"

definition with_last :: "roster \<Rightarrow> addendum \<Rightarrow> roster" where
  "with_last r a = r\<lparr>ro_addenda := butlast (ro_addenda r) @ [a]\<rparr>"

definition node_numbers :: "roster \<Rightarrow> i32 list" where
  "node_numbers r = map rn_node_number (ro_nodes r)"

definition node_id :: "roster_node \<Rightarrow> i32 \<times> bytes" where
  "node_id n = (rn_node_number n, rn_public_key_spki n)"

definition keys_of :: "prims \<Rightarrow> roster_node list \<Rightarrow> key_map" where
  "keys_of P nodes n =
     (case find (\<lambda>x. rn_node_number x = n \<and> \<not> rn_revoked x) nodes of
        None \<Rightarrow> None
      | Some x \<Rightarrow> (case vk_from_der P (rn_public_key_spki x) of Inl _ \<Rightarrow> None | Inr k \<Rightarrow> Some k))"

definition active_keys :: "prims \<Rightarrow> roster \<Rightarrow> key_map" where
  "active_keys P r = keys_of P (ro_nodes r)"

subsection \<open>Valid histories\<close>

inductive valid_history :: "prims \<Rightarrow> roster \<Rightarrow> bool" for P where
  bootstrap:
    "\<lbrakk>ap_version p = 1; ap_new_node_number p \<noteq> ap_endorser_node_number p;
      vk_from_der P nspki = Inr nk; vk_from_der P espki = Inr ek;
      r = create_bootstrap_roster p nspki espki;
      verify_signature P nk (compute_signing_hash P r) ns;
      verify_signature P ek (compute_signing_hash P r) es\<rbrakk>
     \<Longrightarrow> valid_history P (with_last r (signed_activation p ns es))"
| activation:
    "\<lbrakk>valid_history P r0; ap_version p = ro_version r0 + 1;
      ap_new_node_number p \<notin> set (node_numbers r0);
      vk_from_der P nspki = Inr nk; active_keys P r0 (ap_endorser_node_number p) = Some ek;
      r = add_activation_to_roster r0 p nspki;
      verify_signature P nk (compute_signing_hash P r) ns;
      verify_signature P ek (compute_signing_hash P r) es\<rbrakk>
     \<Longrightarrow> valid_history P (with_last r (signed_activation p ns es))"
| revocation:
    "\<lbrakk>valid_history P r0; rp_version p = ro_version r0 + 1;
      active_keys P r0 (rp_revoker_node_number p) = Some rk;
      active_keys P r0 (rp_revoked_node_number p) \<noteq> None;
      r = add_revocation_to_roster r0 p;
      verify_signature P rk (compute_signing_hash P r) s\<rbrakk>
     \<Longrightarrow> valid_history P (with_last r (signed_revocation p s))"

lemma with_last_simps [simp]:
  "ro_nodes (with_last r a) = ro_nodes r"
  "ro_version (with_last r a) = ro_version r"
  "ro_addenda (with_last r a) = butlast (ro_addenda r) @ [a]"
  by (simp_all add: with_last_def)

lemma builder_simps [simp]:
  "ro_nodes (create_bootstrap_roster p ns es) =
     [fresh_node (ap_endorser_node_number p) es, fresh_node (ap_new_node_number p) ns]"
  "ro_version (create_bootstrap_roster p ns es) = 1"
  "ro_addenda (create_bootstrap_roster p ns es) = [unsigned_activation p]"
  "ro_nodes (add_activation_to_roster r p ns) =
     ro_nodes r @ [fresh_node (ap_new_node_number p) ns]"
  "ro_version (add_activation_to_roster r p ns) = ap_version p"
  "ro_addenda (add_activation_to_roster r p ns) = ro_addenda r @ [unsigned_activation p]"
  "ro_nodes (add_revocation_to_roster r q) = mark_revoked (rp_revoked_node_number q) (ro_nodes r)"
  "ro_version (add_revocation_to_roster r q) = rp_version q"
  "ro_addenda (add_revocation_to_roster r q) = ro_addenda r @ [unsigned_revocation q]"
  by (simp_all add: create_bootstrap_roster_def add_activation_to_roster_def
      add_revocation_to_roster_def)

lemma fresh_node_simps [simp]:
  "rn_node_number (fresh_node n s) = n" "rn_public_key_spki (fresh_node n s) = s"
  "\<not> rn_revoked (fresh_node n s)" "node_id (fresh_node n s) = (n, s)"
  by (simp_all add: fresh_node_def node_id_def)

lemma mark_revoked_ids [simp]: "map node_id (mark_revoked n nodes) = map node_id nodes"
  unfolding mark_revoked_def by (rule map_update_first) (simp add: node_id_def)

lemma mark_revoked_numbers [simp]:
  "map rn_node_number (mark_revoked n nodes) = map rn_node_number nodes"
  unfolding mark_revoked_def by (rule map_update_first) simp

lemma numbers_of_ids: "map rn_node_number nodes = map fst (map node_id nodes)"
  by (simp add: node_id_def)

subsection \<open>How the builders change the active keys\<close>

lemma keys_of_snoc:
  assumes "n \<notin> rn_node_number ` set nodes" and "vk_from_der P s = Inr k"
  shows "keys_of P (nodes @ [fresh_node n s]) = (keys_of P nodes)(n \<mapsto> k)"
proof
  fix m
  have "find (\<lambda>x. rn_node_number x = n \<and> \<not> rn_revoked x) nodes = None"
    using assms(1) by (auto simp: find_None)
  then show "keys_of P (nodes @ [fresh_node n s]) m = ((keys_of P nodes)(n \<mapsto> k)) m"
    using assms(2) by (auto simp: keys_of_def find_append split: option.splits)
qed

lemma find_mark_revoked:
  assumes "distinct (map rn_node_number nodes)"
  shows "find (\<lambda>x. rn_node_number x = m \<and> \<not> rn_revoked x) (mark_revoked n nodes) =
    (if m = n then None else find (\<lambda>x. rn_node_number x = m \<and> \<not> rn_revoked x) nodes)"
  using assms
proof (induction nodes)
  case (Cons x xs)
  show ?case
  proof (cases "rn_node_number x = n")
    case True
    then have "\<forall>y \<in> set xs. rn_node_number y \<noteq> n"
      using Cons.prems by (auto simp: image_iff)
    then show ?thesis
      using True by (auto simp: mark_revoked_def find_None)
  next
    case False
    with Cons show ?thesis by (cases "m = n") (simp_all add: mark_revoked_def)
  qed
qed (simp add: mark_revoked_def)

lemma keys_of_mark_revoked:
  "distinct (map rn_node_number nodes) \<Longrightarrow>
     keys_of P (mark_revoked n nodes) = (keys_of P nodes)(n := None)"
  by (auto simp: keys_of_def find_mark_revoked fun_eq_iff)

lemma keys_of_bootstrap:
  assumes "n \<noteq> e" and "vk_from_der P ns = Inr nk" and "vk_from_der P es = Inr ek"
  shows "keys_of P [fresh_node e es, fresh_node n ns] = [e \<mapsto> ek, n \<mapsto> nk]"
proof -
  have "keys_of P [] = Map.empty" by (simp add: keys_of_def fun_eq_iff)
  then have "keys_of P [fresh_node e es] = [e \<mapsto> ek]"
    using keys_of_snoc [of e "[]" P es ek] assms by simp
  then show ?thesis
    using keys_of_snoc [of n "[fresh_node e es]" P ns nk] assms by simp
qed

subsection \<open>Well-formed rosters\<close>

text \<open>What every valid history keeps: no number twice, every key decodes, one addendum per
  version.\<close>

definition wf_roster :: "prims \<Rightarrow> roster \<Rightarrow> bool" where
  "wf_roster P r \<longleftrightarrow> distinct (node_numbers r) \<and>
     (\<forall>x \<in> set (ro_nodes r). \<exists>k. vk_from_der P (rn_public_key_spki x) = Inr k) \<and>
     ro_version r = of_nat (length (ro_addenda r)) \<and> ro_addenda r \<noteq> []"

lemma mark_revoked_spki:
  "x \<in> set (mark_revoked n nodes) \<Longrightarrow> rn_public_key_spki x \<in> rn_public_key_spki ` set nodes"
proof -
  assume "x \<in> set (mark_revoked n nodes)"
  then have "node_id x \<in> set (map node_id (mark_revoked n nodes))"
    by (simp only: set_map imageI)
  then have "node_id x \<in> set (map node_id nodes)"
    by (simp only: mark_revoked_ids)
  then show ?thesis by (auto simp: node_id_def)
qed

lemma valid_history_wf: "valid_history P r \<Longrightarrow> wf_roster P r"
proof (induction rule: valid_history.induct)
  case (revocation r0 p rk r s)
  then show ?case
    by (fastforce simp: wf_roster_def node_numbers_def dest!: mark_revoked_spki)
qed (auto simp: wf_roster_def node_numbers_def)

lemma keys_of_in_numbers: "keys_of P nodes n = Some k \<Longrightarrow> n \<in> rn_node_number ` set nodes"
  by (auto simp: keys_of_def dest!: find_SomeD split: option.splits)

lemma not_in_numbers:
  "n \<notin> set (node_numbers r) \<longleftrightarrow> (\<forall>x \<in> set (ro_nodes r). rn_node_number x \<noteq> n)"
  by (auto simp: node_numbers_def)

subsection \<open>One step of the verifier\<close>

lemmas set_signature_defs = set_new_node_signature_def set_endorser_signature_def
  set_revoker_signature_def set_latest_def unsigned_activation_def signed_activation_def
  unsigned_revocation_def signed_revocation_def

lemma roster_update_order:
  "r\<lparr>ro_version := v, ro_nodes := ns\<rparr> = r\<lparr>ro_nodes := ns, ro_version := v\<rparr>"
  by (cases r) simp

lemma decode_key_iff [rust_simps]:
  "decode_key P n s = Ok k \<longleftrightarrow> vk_from_der P s = Inr k"
  "decode_key P n s = Err e \<longleftrightarrow> (\<exists>t. vk_from_der P s = Inl t \<and> e = InvalidPublicKey n t)"
  "decode_key P n s \<noteq> Panic"
  by (auto simp: decode_key_def split: sum.splits)

text \<open>What the verifier accepts as an activation after version 1, as one condition.\<close>

lemma activation_Ok_iff:
  assumes "v \<noteq> 1" and "act_payload act = Some p"
  shows "apply_and_verify_activation P input act v w keys = Ok (w', keys') \<longleftrightarrow>
    (\<exists>nd nk ek. ap_version p = v \<and>
      ap_new_node_number p \<noteq> ap_endorser_node_number p \<and>
      (\<forall>x \<in> set (ro_nodes w). rn_node_number x \<noteq> ap_new_node_number p) \<and>
      find_node (ap_new_node_number p) (ro_nodes input) = Some nd \<and>
      vk_from_der P (rn_public_key_spki nd) = Inr nk \<and>
      keys (ap_endorser_node_number p) = Some ek \<and>
      (let r = add_activation_to_roster w p (rn_public_key_spki nd) in
        verify_signature P nk (compute_signing_hash P r) (act_new_node_signature act) \<and>
        verify_signature P ek (compute_signing_hash P r) (act_endorser_signature act) \<and>
        w' = with_last r (signed_activation p (act_new_node_signature act)
                            (act_endorser_signature act)) \<and>
        keys' = keys(ap_new_node_number p \<mapsto> nk)))"
  using assms
  by (simp add: apply_and_verify_activation_def rust_simps Let_def endorser_key_def
      add_activation_to_roster_def with_last_def set_signature_defs roster_update_order) auto

text \<open>The bootstrap: version 1 on the empty working roster.\<close>

lemma activation_bootstrap_Ok_iff:
  assumes "act_payload act = Some p"
  shows "apply_and_verify_activation P input act 1 default_roster Map.empty = Ok (w', keys') \<longleftrightarrow>
    (\<exists>nd ed nk ek. ap_version p = 1 \<and>
      ap_new_node_number p \<noteq> ap_endorser_node_number p \<and>
      find_node (ap_new_node_number p) (ro_nodes input) = Some nd \<and>
      vk_from_der P (rn_public_key_spki nd) = Inr nk \<and>
      find_node (ap_endorser_node_number p) (ro_nodes input) = Some ed \<and>
      vk_from_der P (rn_public_key_spki ed) = Inr ek \<and>
      (let r = create_bootstrap_roster p (rn_public_key_spki nd) (rn_public_key_spki ed) in
        verify_signature P nk (compute_signing_hash P r) (act_new_node_signature act) \<and>
        verify_signature P ek (compute_signing_hash P r) (act_endorser_signature act) \<and>
        w' = with_last r (signed_activation p (act_new_node_signature act)
                            (act_endorser_signature act)) \<and>
        keys' = [ap_endorser_node_number p \<mapsto> ek, ap_new_node_number p \<mapsto> nk]))"
  using assms
  by (simp add: apply_and_verify_activation_def rust_simps Let_def endorser_key_def
      create_bootstrap_roster_def with_last_def set_signature_defs default_roster_def
      fresh_node_def) auto

lemma revocation_Ok_iff:
  assumes "rev_payload rv = Some p"
  shows "apply_and_verify_revocation P rv v w keys = Ok (w', keys') \<longleftrightarrow>
    (\<exists>rk. rp_version p = v \<and>
      keys (rp_revoker_node_number p) = Some rk \<and> keys (rp_revoked_node_number p) \<noteq> None \<and>
      (let r = add_revocation_to_roster w p in
        verify_signature P rk (compute_signing_hash P r) (rev_revoker_signature rv) \<and>
        w' = with_last r (signed_revocation p (rev_revoker_signature rv)) \<and>
        keys' = keys(rp_revoked_node_number p := None)))"
  using assms
  by (simp add: apply_and_verify_revocation_def rust_simps Let_def
      add_revocation_to_roster_def with_last_def set_signature_defs roster_update_order) auto

subsection \<open>Soundness and completeness of the forward walk\<close>

text \<open>The walk's state after \<open>i\<close> addenda.\<close>

definition walk_inv :: "prims \<Rightarrow> nat \<Rightarrow> roster \<times> key_map \<Rightarrow> bool" where
  "walk_inv P i wk \<longleftrightarrow>
     (if i = 0 then wk = (default_roster, Map.empty)
      else valid_history P (fst wk) \<and> length (ro_addenda (fst wk)) = i \<and>
           snd wk = active_keys P (fst wk))"

lemma of_nat_i64_eq_1:
  assumes "i + 1 < 2 ^ 64"
  shows "(of_nat (i + 1) :: i64) = 1 \<longleftrightarrow> i = 0"
proof -
  have "unat (of_nat (i + 1) :: i64) = (i + 1) mod 2 ^ 64"
    by (simp only: unat_of_nat) simp
  with assms have "unat (of_nat (i + 1) :: i64) = i + 1" by simp
  then show ?thesis
    by (simp only: word_unat_eq_iff unat_1) simp
qed

lemma active_keys_activation:
  assumes "ap_new_node_number p \<notin> set (node_numbers r0)" and "vk_from_der P s = Inr nk"
  shows "active_keys P (with_last (add_activation_to_roster r0 p s) a) =
    (active_keys P r0)(ap_new_node_number p \<mapsto> nk)"
  using keys_of_snoc assms by (simp add: active_keys_def node_numbers_def)

lemma active_keys_revocation:
  assumes "valid_history P r0"
  shows "active_keys P (with_last (add_revocation_to_roster r0 p) a) =
    (active_keys P r0)(rp_revoked_node_number p := None)"
  using valid_history_wf [OF assms]
  by (simp add: active_keys_def keys_of_mark_revoked wf_roster_def node_numbers_def)

lemma bootstrap_step:
  assumes app: "apply_and_verify_activation P input act 1 default_roster Map.empty = Ok (w', keys')"
    and p: "act_payload act = Some p"
  shows "walk_inv P 1 (w', keys') \<and> ro_addenda w' =
    [signed_activation p (act_new_node_signature act) (act_endorser_signature act)]"
proof -
  from app obtain ns es nk ek r where h: "ap_version p = 1"
      "ap_new_node_number p \<noteq> ap_endorser_node_number p"
      "vk_from_der P ns = Inr nk" "vk_from_der P es = Inr ek"
      "r = create_bootstrap_roster p ns es"
      "verify_signature P nk (compute_signing_hash P r) (act_new_node_signature act)"
      "verify_signature P ek (compute_signing_hash P r) (act_endorser_signature act)"
    and w': "w' = with_last r (signed_activation p (act_new_node_signature act)
        (act_endorser_signature act))"
    and k': "keys' = [ap_endorser_node_number p \<mapsto> ek, ap_new_node_number p \<mapsto> nk]"
    unfolding activation_bootstrap_Ok_iff [OF p] by (auto simp: Let_def)
  have "valid_history P w'"
    unfolding w' using h by (rule valid_history.bootstrap)
  moreover have "keys' = active_keys P w'"
    using keys_of_bootstrap [OF h(2,3,4)] by (simp add: k' w' h(5) active_keys_def)
  ultimately show ?thesis
    by (simp add: walk_inv_def w' h(5))
qed

lemma activation_step:
  assumes app: "apply_and_verify_activation P input act v w (active_keys P w) = Ok (w', keys')"
    and p: "act_payload act = Some p" and "v \<noteq> 1" and "v = ro_version w + 1"
    and w: "valid_history P w"
  shows "valid_history P w' \<and> keys' = active_keys P w' \<and> ro_addenda w' = ro_addenda w @
    [signed_activation p (act_new_node_signature act) (act_endorser_signature act)]"
proof -
  from app obtain ns nk ek r where h: "ap_version p = ro_version w + 1"
      "ap_new_node_number p \<notin> set (node_numbers w)" "vk_from_der P ns = Inr nk"
      "active_keys P w (ap_endorser_node_number p) = Some ek"
      "r = add_activation_to_roster w p ns"
      "verify_signature P nk (compute_signing_hash P r) (act_new_node_signature act)"
      "verify_signature P ek (compute_signing_hash P r) (act_endorser_signature act)"
    and w': "w' = with_last r (signed_activation p (act_new_node_signature act)
        (act_endorser_signature act))"
    and k': "keys' = (active_keys P w)(ap_new_node_number p \<mapsto> nk)"
    unfolding activation_Ok_iff [OF assms(3) p] using assms(4)
    by (auto simp: Let_def not_in_numbers)
  have "valid_history P w'"
    unfolding w' using w h by (rule valid_history.activation)
  then show ?thesis
    using h(2,3) by (simp add: k' w' h(5) active_keys_activation)
qed

lemma revocation_step:
  assumes app: "apply_and_verify_revocation P rv v w (active_keys P w) = Ok (w', keys')"
    and p: "rev_payload rv = Some p" and "v = ro_version w + 1" and w: "valid_history P w"
  shows "valid_history P w' \<and> keys' = active_keys P w' \<and>
    ro_addenda w' = ro_addenda w @ [signed_revocation p (rev_revoker_signature rv)]"
proof -
  from app obtain rk r where h: "rp_version p = ro_version w + 1"
      "active_keys P w (rp_revoker_node_number p) = Some rk"
      "active_keys P w (rp_revoked_node_number p) \<noteq> None"
      "r = add_revocation_to_roster w p"
      "verify_signature P rk (compute_signing_hash P r) (rev_revoker_signature rv)"
    and w': "w' = with_last r (signed_revocation p (rev_revoker_signature rv))"
    and k': "keys' = (active_keys P w)(rp_revoked_node_number p := None)"
    unfolding revocation_Ok_iff [OF p] using assms(3) by (auto simp: Let_def)
  have "valid_history P w'"
    unfolding w' using w h by (rule valid_history.revocation)
  then show ?thesis
    using w by (simp add: k' w' h(4) active_keys_revocation)
qed

lemma walk_inv_later:
  assumes "walk_inv P i (w, keys)" and "i \<noteq> 0"
  shows "valid_history P w" and "keys = active_keys P w" and "length (ro_addenda w) = i"
    and "(of_nat (i + 1) :: i64) = ro_version w + 1"
  using assms valid_history_wf [of P w] by (auto simp: walk_inv_def wf_roster_def add.commute)

lemma walk_step_sound:
  assumes inv: "walk_inv P i (w, keys)" and bound: "i + 1 < 2 ^ 64"
    and step: "verify_addendum P input i a (w, keys) = Ok (w', keys')"
  shows "walk_inv P (i + 1) (w', keys') \<and> ro_addenda w' = ro_addenda w @ [a]"
proof -
  from step obtain k where a: "a = \<lparr>add_kind = Some k\<rparr>"
    by (cases a) (auto simp: verify_addendum_def split: option.splits)
  show ?thesis
  proof (cases k)
    case (Activation act)
    with step have app: "apply_and_verify_activation P input act (of_nat (i + 1)) w keys
        = Ok (w', keys')"
      by (simp add: verify_addendum_def a)
    then obtain p where p: "act_payload act = Some p"
      by (auto simp: apply_and_verify_activation_def rust_simps)
    then have a': "a = signed_activation p (act_new_node_signature act) (act_endorser_signature act)"
      by (cases act) (simp add: a Activation signed_activation_def)
    show ?thesis
    proof (cases "i = 0")
      case True
      with inv have "w = default_roster" "keys = Map.empty"
        by (simp_all add: walk_inv_def)
      with app True bootstrap_step [OF _ p] show ?thesis
        by (simp add: a' default_roster_def)
    next
      case False
      note l = walk_inv_later [OF inv False]
      have "(of_nat (i + 1) :: i64) \<noteq> 1"
        using False of_nat_i64_eq_1 [OF bound] by blast
      with activation_step [OF app [unfolded l(2)] p _ l(4,1)] show ?thesis
        using l(3) by (simp add: walk_inv_def a')
    qed
  next
    case (Revocation rv)
    with step have app: "apply_and_verify_revocation P rv (of_nat (i + 1)) w keys
        = Ok (w', keys')"
      by (simp add: verify_addendum_def a)
    then obtain p where p: "rev_payload rv = Some p"
      by (auto simp: apply_and_verify_revocation_def rust_simps)
    then have a': "a = signed_revocation p (rev_revoker_signature rv)"
      by (cases rv) (simp add: a Revocation signed_revocation_def)
    from app have "keys \<noteq> Map.empty" by (auto simp: revocation_Ok_iff [OF p])
    with inv have "i \<noteq> 0" by (auto simp: walk_inv_def)
    note l = walk_inv_later [OF inv this]
    from revocation_step [OF app [unfolded l(2)] p l(4,1)] show ?thesis
      using l(3) by (simp add: walk_inv_def a')
  qed
qed

lemma walk_sound:
  assumes "verify_addenda P input i as wk = Ok wk'" and "walk_inv P i wk"
    and "i + length as < 2 ^ 64"
  shows "walk_inv P (i + length as) wk' \<and> ro_addenda (fst wk') = ro_addenda (fst wk) @ as"
  using assms
proof (induction as arbitrary: i wk)
  case (Cons a as)
  then obtain wk1 where s: "verify_addendum P input i a wk = Ok wk1"
    and r: "verify_addenda P input (i + 1) as wk1 = Ok wk'"
    by (auto simp: rust_simps)
  have "walk_inv P (i + 1) wk1 \<and> ro_addenda (fst wk1) = ro_addenda (fst wk) @ [a]"
    using walk_step_sound [of P i "fst wk" "snd wk" input a "fst wk1" "snd wk1"]
      Cons.prems(2,3) s by simp
  then show ?case
    using Cons.IH [OF r] Cons.prems(3) by simp
qed simp

text \<open>
  Conversely the walk reproduces every valid history, with any input roster whose node
  list starts with the history's nodes (their keys are read from the input).
\<close>

lemma find_node_of_id:
  assumes "distinct (map rn_node_number nodes)" and "(n, s) \<in> set (map node_id nodes)"
  shows "\<exists>x. find_node n nodes = Some x \<and> rn_public_key_spki x = s"
proof -
  from assms(2) obtain x where x: "x \<in> set nodes" "rn_node_number x = n" "rn_public_key_spki x = s"
    by (auto simp: node_id_def)
  then show ?thesis
    using find_key_distinct [OF assms(1) x(1)] by (auto simp: find_node_def)
qed

lemma verify_addenda_append:
  "verify_addenda P input i (xs @ ys) wk =
    rbind (verify_addenda P input i xs wk) (\<lambda>wk'. verify_addenda P input (i + length xs) ys wk')"
proof (induction xs arbitrary: i wk)
  case (Cons x xs)
  then show ?case by (cases "verify_addendum P input i x wk") simp_all
qed simp

lemma wf_version_step:
  assumes "valid_history P r"
  shows "(of_nat (length (ro_addenda r) + 1) :: i64) = ro_version r + 1"
    and "0 < length (ro_addenda r)"
  using valid_history_wf [OF assms] by (auto simp: wf_roster_def add.commute)

lemma walk_complete:
  assumes "valid_history P r" and "map node_id (ro_nodes input) = map node_id (ro_nodes r) @ zs"
    and dist: "distinct (map rn_node_number (ro_nodes input))"
    and "length (ro_addenda r) < 2 ^ 64"
  shows "verify_addenda P input 0 (ro_addenda r) (default_roster, Map.empty)
    = Ok (r, active_keys P r)"
  using assms(1,2,4)
proof (induction arbitrary: zs rule: valid_history.induct)
  case (bootstrap p nspki nk espki ek r ns es)
  let ?act = "\<lparr>act_payload = Some p, act_new_node_signature = ns, act_endorser_signature = es\<rparr>"
  let ?r = "with_last r (signed_activation p ns es)"
  have ids: "(ap_new_node_number p, nspki) \<in> set (map node_id (ro_nodes input))"
      "(ap_endorser_node_number p, espki) \<in> set (map node_id (ro_nodes input))"
    using bootstrap.prems(1) bootstrap.hyps(5) by auto
  obtain nd where nd: "find_node (ap_new_node_number p) (ro_nodes input) = Some nd"
      "rn_public_key_spki nd = nspki"
    using find_node_of_id [OF dist ids(1)] by auto
  obtain ed where ed: "find_node (ap_endorser_node_number p) (ro_nodes input) = Some ed"
      "rn_public_key_spki ed = espki"
    using find_node_of_id [OF dist ids(2)] by auto
  have "apply_and_verify_activation P input ?act 1 default_roster Map.empty
      = Ok (?r, [ap_endorser_node_number p \<mapsto> ek, ap_new_node_number p \<mapsto> nk])"
    unfolding activation_bootstrap_Ok_iff [of ?act p, simplified]
    using bootstrap.hyps nd ed by (auto simp: Let_def)
  moreover have "active_keys P ?r = [ap_endorser_node_number p \<mapsto> ek, ap_new_node_number p \<mapsto> nk]"
    using keys_of_bootstrap [OF bootstrap.hyps(2,3,4)] by (simp add: active_keys_def bootstrap.hyps(5))
  ultimately show ?case
    by (simp add: bootstrap.hyps(5) verify_addendum_def signed_activation_def fun_upd_def)
next
  case (activation r0 p nspki nk ek r ns es)
  let ?act = "\<lparr>act_payload = Some p, act_new_node_signature = ns, act_endorser_signature = es\<rparr>"
  let ?r = "with_last r (signed_activation p ns es)"
  let ?i = "length (ro_addenda r0)"
  have IH: "verify_addenda P input 0 (ro_addenda r0) (default_roster, Map.empty)
      = Ok (r0, active_keys P r0)"
    using activation.IH [of "(ap_new_node_number p, nspki) # zs"] activation.prems
      activation.hyps(6) by simp
  have "(ap_new_node_number p, nspki) \<in> set (map node_id (ro_nodes input))"
    using activation.prems(1) activation.hyps(6) by auto
  then obtain nd where nd: "find_node (ap_new_node_number p) (ro_nodes input) = Some nd"
      "rn_public_key_spki nd = nspki"
    using find_node_of_id [OF dist] by auto
  note v = wf_version_step [OF activation.hyps(1)]
  have "?i + 1 < 2 ^ 64"
    using activation.prems(2) activation.hyps(6) by simp
  then have "(of_nat (?i + 1) :: i64) \<noteq> 1"
    using v(2) of_nat_i64_eq_1 [of ?i] by simp
  moreover have "ap_new_node_number p \<noteq> ap_endorser_node_number p"
    using activation.hyps(3,5) keys_of_in_numbers by (fastforce simp: active_keys_def node_numbers_def)
  ultimately have "apply_and_verify_activation P input ?act (of_nat (?i + 1)) r0 (active_keys P r0)
      = Ok (?r, (active_keys P r0)(ap_new_node_number p \<mapsto> nk))"
    unfolding v(1) using activation.hyps nd
    by (subst activation_Ok_iff [of _ ?act p]) (auto simp: Let_def not_in_numbers)
  then have "verify_addendum P input ?i (signed_activation p ns es) (r0, active_keys P r0)
      = Ok (?r, active_keys P ?r)"
    using activation.hyps(3,4) unfolding activation.hyps(6)
    by (simp add: verify_addendum_def signed_activation_def active_keys_activation)
  then show ?case
    using IH by (simp add: activation.hyps(6) verify_addenda_append)
next
  case (revocation r0 p rk r s)
  let ?rv = "\<lparr>rev_payload = Some p, rev_revoker_signature = s\<rparr>"
  let ?r = "with_last r (signed_revocation p s)"
  let ?i = "length (ro_addenda r0)"
  have IH: "verify_addenda P input 0 (ro_addenda r0) (default_roster, Map.empty)
      = Ok (r0, active_keys P r0)"
    using revocation.IH [of zs] revocation.prems revocation.hyps(5) by simp
  note v = wf_version_step [OF revocation.hyps(1)]
  have "apply_and_verify_revocation P ?rv (of_nat (?i + 1)) r0 (active_keys P r0)
      = Ok (?r, (active_keys P r0)(rp_revoked_node_number p := None))"
    unfolding v(1) using revocation.hyps
    by (subst revocation_Ok_iff [of ?rv p]) (auto simp: Let_def)
  then have "verify_addendum P input ?i (signed_revocation p s) (r0, active_keys P r0)
      = Ok (?r, active_keys P ?r)"
    using active_keys_revocation [OF revocation.hyps(1)] unfolding revocation.hyps(5)
    by (simp add: verify_addendum_def signed_revocation_def)
  then show ?case
    using IH by (simp add: revocation.hyps(5) verify_addenda_append)
qed

subsection \<open>What the verifier accepts\<close>

lemma sint_small:
  assumes "n < 2 ^ 63"
  shows "sint (of_nat n :: i64) = int n" and "unat (of_nat n :: i64) = n"
proof -
  show "unat (of_nat n :: i64) = n"
    using assms by (simp add: unat_of_nat)
  show "sint (of_nat n :: i64) = int n"
    using assms by (simp add: signed_of_nat signed_take_bit_int_eq_self)
qed

lemma structure_Ok_iff:
  "verify_roster_structure r = Ok () \<longleftrightarrow>
     1 \<le> sint (ro_version r) \<and> length (ro_addenda r) = unat (ro_version r)"
  by (auto simp: verify_roster_structure_def)

lemma structure_bound:
  assumes "verify_roster_structure r = Ok ()"
  shows "length (ro_addenda r) < 2 ^ 63" and "ro_addenda r \<noteq> []"
proof -
  let ?v = "ro_version r"
  from assms have v: "1 \<le> sint ?v" "length (ro_addenda r) = unat ?v"
    by (auto simp: structure_Ok_iff)
  have lt: "sint ?v < 2 ^ 63" using sint_lt [of ?v] by simp
  have "uint ?v = take_bit 64 (sint ?v)" using uint_sint [of ?v] by simp
  also have "\<dots> = sint ?v" using v(1) lt by (simp add: take_bit_int_eq_self)
  finally have "int (unat ?v) = sint ?v" by simp
  with v(1) lt have "0 < int (unat ?v)" "int (unat ?v) < 2 ^ 63" by linarith+
  then have "0 < unat ?v" "unat ?v < 2 ^ 63"
    by (simp_all only: of_nat_less_numeral_power_cancel_iff of_nat_0_less_iff)
  then show "length (ro_addenda r) < 2 ^ 63" and "ro_addenda r \<noteq> []"
    using v(2) by auto
qed

lemma structure_of_history:
  assumes "valid_history P r" and "length (ro_addenda r) < 2 ^ 63"
  shows "verify_roster_structure r = Ok ()"
  using valid_history_wf [OF assms(1)] sint_small [OF assms(2)]
  by (auto simp: structure_Ok_iff wf_roster_def Suc_le_eq)

lemma walk_result:
  assumes "verify_roster_structure r = Ok ()"
  shows "verify_addenda P r 0 (ro_addenda r) (default_roster, Map.empty) = Ok (r, keys) \<longleftrightarrow>
    valid_history P r \<and> keys = active_keys P r"
proof
  note b = structure_bound [OF assms]
  {
    assume "verify_addenda P r 0 (ro_addenda r) (default_roster, Map.empty) = Ok (r, keys)"
    from walk_sound [OF this] b show "valid_history P r \<and> keys = active_keys P r"
      by (simp add: walk_inv_def)
  next
    assume h: "valid_history P r \<and> keys = active_keys P r"
    then have "distinct (map rn_node_number (ro_nodes r))"
      using valid_history_wf by (auto simp: wf_roster_def node_numbers_def)
    with h b show "verify_addenda P r 0 (ro_addenda r) (default_roster, Map.empty) = Ok (r, keys)"
      using walk_complete [of P r r "[]"] by simp
  }
qed

lemma verify_roster_Ok_iff:
  "verify_roster P r me spki = Ok keys \<longleftrightarrow>
    (\<exists>ek. vk_from_der P spki = Inr ek \<and> valid_history P r \<and> length (ro_addenda r) < 2 ^ 63 \<and>
       active_keys P r me = Some ek \<and> keys = active_keys P r)" (is "?L \<longleftrightarrow> ?R")
proof
  assume ?L
  then obtain ek where ek: "vk_from_der P spki = Inr ek"
      and s: "verify_roster_structure r = Ok ()"
      and w: "verify_addenda P r 0 (ro_addenda r) (default_roster, Map.empty) = Ok (r, keys)"
      and k: "keys me = Some ek"
    by (auto simp: verify_roster_def rust_simps split: sum.splits if_splits option.splits)
  show ?R
    using ek k structure_bound [OF s] w unfolding walk_result [OF s] by auto
next
  assume ?R
  then obtain ek where h: "vk_from_der P spki = Inr ek" "valid_history P r"
      "length (ro_addenda r) < 2 ^ 63" "active_keys P r me = Some ek" "keys = active_keys P r"
    by auto
  note s = structure_of_history [OF h(2,3)]
  have "verify_addenda P r 0 (ro_addenda r) (default_roster, Map.empty) = Ok (r, keys)"
    unfolding walk_result [OF s] using h by simp
  with h s show ?L by (simp add: verify_roster_def)
qed

end
