(* ===== verification/Roster_Props.thy ===== *)
theory Roster_Props
  imports Roster_Chain Reference_Prims
begin

text \<open>
  The properties of \<open>roster.rs\<close>: what its verifier accepts and rejects, that it cannot
  panic, that the builders and the cosigning protocol produce rosters it accepts, and how
  a roster may evolve.
\<close>

subsection \<open>The verifier's other outcomes\<close>

lemma decode_key_total: "decode_key P n s \<noteq> Panic"
  by (simp add: rust_simps)

lemma endorser_key_total: "endorser_key P input v e keys \<noteq> Panic"
  by (auto simp: endorser_key_def rust_simps)

lemma endorser_key_Ok_found:
  "endorser_key P input 1 e keys = Ok k \<Longrightarrow> \<exists>x. find_node e (ro_nodes input) = Some x"
  by (auto simp: endorser_key_def rust_simps)

lemma activation_total: "apply_and_verify_activation P input act v w keys \<noteq> Panic"
proof -
  have sig: "set_new_node_signature (w'\<lparr>ro_nodes := ns, ro_version := v, ro_addenda :=
        ro_addenda w'' @ [unsigned_activation p]\<rparr>) s \<noteq> Panic"
      "\<And>r. set_new_node_signature (w'\<lparr>ro_nodes := ns, ro_version := v, ro_addenda :=
        ro_addenda w'' @ [unsigned_activation p]\<rparr>) s = Ok r \<Longrightarrow>
        set_endorser_signature r t \<noteq> Panic" for w' ns w'' p s t
    by (auto simp: set_signature_defs)
  show ?thesis
    unfolding apply_and_verify_activation_def
    by (auto simp: rust_simps Let_def decode_key_total endorser_key_total sig
        dest: endorser_key_Ok_found split: if_splits)
qed

lemma revocation_total: "apply_and_verify_revocation P rv v w keys \<noteq> Panic"
  by (auto simp: apply_and_verify_revocation_def rust_simps Let_def set_signature_defs)

lemma verify_addenda_total: "verify_addenda P input i as wk \<noteq> Panic"
proof (induction as arbitrary: i wk)
  case (Cons a as)
  then show ?case
    by (auto simp: rust_simps verify_addendum_def activation_total revocation_total
        split: option.splits addendum_kind.splits)
qed simp

text \<open>
  C1: verification is exact.  \<open>verify_roster\<close> accepts a roster, for a node and its key, if
  and only if the roster was built from a cosigned bootstrap by properly endorsed
  activations and properly signed revocations and the node is active in it under exactly
  that key; and the keys it returns are the keys of the active nodes.
\<close>

theorem verify_roster_accepts_exactly:
  "verify_roster P r me spki = Ok keys \<longleftrightarrow>
    (\<exists>ek. vk_from_der P spki = Inr ek \<and> valid_history P r \<and> length (ro_addenda r) < 2 ^ 63 \<and>
       active_keys P r me = Some ek \<and> keys = active_keys P r)"
  by (rule verify_roster_Ok_iff)

lemma verify_roster_Panic_iff:
  "verify_roster P r me spki = Panic \<longleftrightarrow> (\<exists>e. vk_from_der P spki = Inl e)"
proof -
  have "verify_roster_structure r \<noteq> Panic"
    by (simp add: verify_roster_structure_def)
  then show ?thesis
    by (auto simp: verify_roster_def rust_simps verify_addenda_total
        split: sum.splits option.splits)
qed

text \<open>
  The verifier cannot be crashed by the roster it is given.  It panics only when the
  verifier's own public key does not decode, whatever the hub sends.
\<close>

theorem verify_roster_panics_iff_own_key_invalid:
  "verify_roster P r me spki = Panic \<longleftrightarrow> (\<exists>e. vk_from_der P spki = Inl e)"
  by (rule verify_roster_Panic_iff)

text \<open>The walk succeeds and reproduces its input exactly on valid histories.\<close>

lemma verify_roster_cases:
  assumes "vk_from_der P spki = Inr ek" and "valid_history P r" and "length (ro_addenda r) < 2 ^ 63"
  shows "verify_roster P r me spki =
    (case active_keys P r me of
       None \<Rightarrow> if me \<in> set (node_numbers r) then Err (VerifierRevoked me)
               else Err (VerifierNotInRoster me)
     | Some k \<Rightarrow> if k = ek then Ok (active_keys P r) else Err (VerifierKeyMismatch me))"
proof -
  note s = structure_of_history [OF assms(2,3)]
  have "verify_addenda P r 0 (ro_addenda r) (default_roster, Map.empty) = Ok (r, active_keys P r)"
    unfolding walk_result [OF s] using assms(2) by simp
  with s assms(1) show ?thesis
    by (auto simp: verify_roster_def node_numbers_def image_iff split: option.splits)
qed

lemma addenda_error_not_verifier:
  assumes "verify_addenda P input i as wk = Err e"
  shows "e \<noteq> VerifierRevoked n" and "e \<noteq> VerifierNotInRoster n" and "e \<noteq> VerifierKeyMismatch n"
  using assms
proof (induction as arbitrary: i wk)
  case (Cons a as)
  {
    case 1 with Cons.IH(1) show ?case
      by (auto simp: rust_simps verify_addendum_def apply_and_verify_activation_def
          apply_and_verify_revocation_def endorser_key_def Let_def set_signature_defs
          split: option.splits addendum_kind.splits if_splits)
  next
    case 2 with Cons.IH(2) show ?case
      by (auto simp: rust_simps verify_addendum_def apply_and_verify_activation_def
          apply_and_verify_revocation_def endorser_key_def Let_def set_signature_defs
          split: option.splits addendum_kind.splits if_splits)
  next
    case 3 with Cons.IH(3) show ?case
      by (auto simp: rust_simps verify_addendum_def apply_and_verify_activation_def
          apply_and_verify_revocation_def endorser_key_def Let_def set_signature_defs
          split: option.splits addendum_kind.splits if_splits)
  }
qed auto

lemma active_keys_None_iff:
  assumes "valid_history P r"
  shows "active_keys P r n = None \<longleftrightarrow>
    (\<forall>x \<in> set (ro_nodes r). rn_node_number x = n \<longrightarrow> rn_revoked x)"
proof -
  have "\<exists>k. vk_from_der P (rn_public_key_spki x) = Inr k" if "x \<in> set (ro_nodes r)" for x
    using that valid_history_wf [OF assms] by (simp add: wf_roster_def)
  then show ?thesis
    by (fastforce simp: active_keys_def keys_of_def find_None dest!: find_SomeD
        split: option.splits sum.splits)
qed

lemma verify_roster_Revoked_iff:
  "verify_roster P r me spki = Err (VerifierRevoked n) \<longleftrightarrow>
    n = me \<and> (\<exists>ek. vk_from_der P spki = Inr ek) \<and> valid_history P r \<and>
    length (ro_addenda r) < 2 ^ 63 \<and> me \<in> set (node_numbers r) \<and> active_keys P r me = None"
    (is "?L \<longleftrightarrow> ?R")
proof
  assume L: ?L
  then obtain ek where ek: "vk_from_der P spki = Inr ek"
    by (cases "vk_from_der P spki") (simp_all add: verify_roster_def)
  have s: "verify_roster_structure r = Ok ()"
    using L ek by (auto simp: verify_roster_def verify_roster_structure_def split: if_splits)
  obtain w keys where v: "verify_addenda P r 0 (ro_addenda r) (default_roster, Map.empty) = Ok (w, keys)"
    using L ek s addenda_error_not_verifier(1) [of P r 0 "ro_addenda r"]
    by (cases "verify_addenda P r 0 (ro_addenda r) (default_roster, Map.empty)")
      (auto simp: verify_roster_def)
  have w: "w = r" and k: "keys me = None" "n = me" "me \<in> set (node_numbers r)"
    using L ek s v
    by (auto simp: verify_roster_def node_numbers_def split: if_splits option.splits)
  note w = v [unfolded w]
  show ?R
    using ek k structure_bound [OF s] w unfolding walk_result [OF s] by auto
next
  assume ?R
  then show ?L using verify_roster_cases [of P spki _ r me] by auto
qed

text \<open>
  \<open>VerifierRevoked\<close> is trustworthy.  The verifier reports it if and only if the
  roster is a valid history in which the node itself was enrolled and has been revoked, so
  a hub cannot make a node believe in its revocation without a signed one.
\<close>

theorem verify_roster_reports_revocation_exactly:
  "verify_roster P r me spki = Err (VerifierRevoked n) \<longleftrightarrow>
    n = me \<and> (\<exists>ek. vk_from_der P spki = Inr ek) \<and> valid_history P r \<and>
    length (ro_addenda r) < 2 ^ 63 \<and>
    (\<exists>x. find_node me (ro_nodes r) = Some x) \<and> find_node me (active_nodes r) = None"
proof -
  have "(\<exists>x. find_node me (ro_nodes r) = Some x) \<longleftrightarrow> me \<in> set (node_numbers r)"
    by (cases "find_node me (ro_nodes r)")
      (auto simp: find_node_def node_numbers_def find_None image_iff dest: find_SomeD)
  moreover have "find_node me (active_nodes r) = None \<longleftrightarrow>
      (\<forall>x \<in> set (ro_nodes r). rn_node_number x = me \<longrightarrow> rn_revoked x)"
    by (auto simp: find_node_def active_nodes_def find_None)
  ultimately show ?thesis
    using active_keys_None_iff [of P r me] by (auto simp: verify_roster_Revoked_iff)
qed

subsection \<open>Signing in place\<close>

lemma unsigned_is_signed:
  "unsigned_activation p = signed_activation p [] []"
  "unsigned_revocation q = signed_revocation q []"
  by (simp_all add: unsigned_activation_def signed_activation_def unsigned_revocation_def
      signed_revocation_def)

lemma set_signature_on_last:
  assumes "ro_addenda r = as @ [signed_activation p ns es]"
  shows "set_new_node_signature r s = Ok (with_last r (signed_activation p s es))"
    and "set_endorser_signature r s = Ok (with_last r (signed_activation p ns s))"
  using assms by (simp_all add: set_new_node_signature_def set_endorser_signature_def
      set_latest_def signed_activation_def with_last_def)

lemma set_revoker_signature_on_last:
  assumes "ro_addenda r = as @ [signed_revocation p s']"
  shows "set_revoker_signature r s = Ok (with_last r (signed_revocation p s))"
  using assms by (simp add: set_revoker_signature_def set_latest_def signed_revocation_def
      with_last_def)

lemma with_last_same: "ro_addenda r = as @ [a] \<Longrightarrow> with_last r a = r"
  by (cases r) (simp add: with_last_def)

lemma with_last_twice [simp]: "with_last (with_last r a) b = with_last r b"
  by (cases r) (simp add: with_last_def)

lemma clear_latest_with_last:
  assumes "ro_addenda r = as @ [signed_activation p [] []]"
  shows "clear_latest_addendum_signatures (with_last r (signed_activation p ns es)) = r"
  using assms by (cases r) (simp add: clear_latest_addendum_signatures_def with_last_def
      signed_activation_def)

lemma empty_latest_signatures:
  "ro_addenda r = as @ [signed_activation p [] []] \<Longrightarrow> latest_addendum_signatures_are_empty r"
  "ro_addenda r = as @ [signed_revocation q []] \<Longrightarrow> latest_addendum_signatures_are_empty r"
  by (simp_all add: latest_addendum_signatures_are_empty_def signed_activation_def
      signed_revocation_def)

lemma signature_verifies:
  "ed25519_correct P \<Longrightarrow>
     verify_signature P (ed_verifying_key P sk) m (ed_sign P sk m)"
  by (simp add: verify_signature_def ed25519_correctD)

text \<open>
  Both cosigners sign the same hash: filling in the new node's signature and clearing the
  signatures again gives the roster that was hashed first.
\<close>

lemma cosigners_agree:
  assumes "ro_addenda r = as @ [unsigned_activation p]"
    and "set_new_node_signature r s = Ok r1"
  shows "clear_latest_addendum_signatures r1 = r"
  using assms clear_latest_with_last [of r as p s "[]"]
  by (simp add: unsigned_is_signed set_signature_on_last(1))

lemma sign_both:
  assumes "ro_addenda r = as @ [unsigned_activation p]"
  shows "set_new_node_signature r ns = Ok (with_last r (signed_activation p ns []))"
    and "set_endorser_signature (with_last r (signed_activation p ns [])) es
      = Ok (with_last r (signed_activation p ns es))"
  using assms set_signature_on_last [of r as p "[]" "[]"]
    set_signature_on_last(2) [of "with_last r (signed_activation p ns [])" as p ns "[]" es]
  by (simp_all add: unsigned_is_signed)

subsection \<open>The cosigning protocol succeeds\<close>

definition spki_of :: "prims \<Rightarrow> signing_seed \<Rightarrow> bytes" where
  "spki_of P sk = vk_to_der P (ed_verifying_key P sk)"

lemma spki_of_decodes: "ed25519_correct P \<Longrightarrow> vk_from_der P (spki_of P sk) = Inr (ed_verifying_key P sk)"
  by (simp add: spki_of_def ed25519_correctD)

lemma activation_history:
  assumes P: "ed25519_correct P" and r0: "valid_history P r0"
    and e: "active_keys P r0 e = Some (ed_verifying_key P esk)"
    and n: "n \<notin> set (node_numbers r0)"
    and p: "p = build_activation_payload r0 n e nn en"
    and r: "r = add_activation_to_roster r0 p (spki_of P nsk)"
    and h: "h = compute_signing_hash P r"
  shows "valid_history P (with_last r (signed_activation p (ed_sign P nsk h) (ed_sign P esk h)))"
    and "active_keys P (with_last r (signed_activation p (ed_sign P nsk h) (ed_sign P esk h)))
      = (active_keys P r0)(n \<mapsto> ed_verifying_key P nsk)"
proof -
  have p': "ap_version p = ro_version r0 + 1" "ap_new_node_number p = n"
      "ap_endorser_node_number p = e"
    by (simp_all add: p build_activation_payload_def)
  show "valid_history P (with_last r (signed_activation p (ed_sign P nsk h) (ed_sign P esk h)))"
    using r0 p' n e spki_of_decodes [OF P] signature_verifies [OF P] r
    by (intro valid_history.activation [of P r0 p "spki_of P nsk" "ed_verifying_key P nsk"
          "ed_verifying_key P esk"]) (simp_all add: h)
  show "active_keys P (with_last r (signed_activation p (ed_sign P nsk h) (ed_sign P esk h)))
      = (active_keys P r0)(n \<mapsto> ed_verifying_key P nsk)"
    unfolding r using active_keys_activation [of p r0 P] p' n spki_of_decodes [OF P] by simp
qed

lemma bootstrap_history:
  assumes P: "ed25519_correct P" and ne: "n \<noteq> e"
    and p: "p = build_activation_payload r0 n e nn en" and r0: "ro_version r0 = 0"
    and r: "r = create_bootstrap_roster p (spki_of P nsk) (spki_of P esk)"
    and h: "h = compute_signing_hash P r"
  shows "valid_history P (with_last r (signed_activation p (ed_sign P nsk h) (ed_sign P esk h)))"
    and "active_keys P (with_last r (signed_activation p (ed_sign P nsk h) (ed_sign P esk h)))
      = [e \<mapsto> ed_verifying_key P esk, n \<mapsto> ed_verifying_key P nsk]"
proof -
  have p': "ap_version p = 1" "ap_new_node_number p = n" "ap_endorser_node_number p = e"
    by (simp_all add: p r0 build_activation_payload_def)
  show "valid_history P (with_last r (signed_activation p (ed_sign P nsk h) (ed_sign P esk h)))"
    using p' ne spki_of_decodes [OF P] signature_verifies [OF P] r
    by (intro valid_history.bootstrap [of p P "spki_of P nsk" "ed_verifying_key P nsk"
          "spki_of P esk" "ed_verifying_key P esk"]) (simp_all add: h)
  show "active_keys P (with_last r (signed_activation p (ed_sign P nsk h) (ed_sign P esk h)))
      = [e \<mapsto> ed_verifying_key P esk, n \<mapsto> ed_verifying_key P nsk]"
    unfolding r active_keys_def using keys_of_bootstrap [OF ne] p' spki_of_decodes [OF P]
    by simp
qed

lemma revocation_history:
  assumes P: "ed25519_correct P" and r0: "valid_history P r0"
    and e: "active_keys P r0 e = Some (ed_verifying_key P esk)" and n: "active_keys P r0 n \<noteq> None"
    and p: "p = build_revocation_payload r0 n e"
    and r: "r = add_revocation_to_roster r0 p" and h: "h = compute_signing_hash P r"
  shows "valid_history P (with_last r (signed_revocation p (ed_sign P esk h)))"
    and "active_keys P (with_last r (signed_revocation p (ed_sign P esk h)))
      = (active_keys P r0)(n := None)"
proof -
  have p': "rp_version p = ro_version r0 + 1" "rp_revoked_node_number p = n"
      "rp_revoker_node_number p = e"
    by (simp_all add: p build_revocation_payload_def)
  show "valid_history P (with_last r (signed_revocation p (ed_sign P esk h)))"
    using r0 p' n e signature_verifies [OF P] r
    by (intro valid_history.revocation [of P r0 p "ed_verifying_key P esk"]) (simp_all add: h)
  show "active_keys P (with_last r (signed_revocation p (ed_sign P esk h)))
      = (active_keys P r0)(n := None)"
    unfolding r using active_keys_revocation [OF r0] p' by simp
qed

subsection \<open>A concrete group\<close>

text \<open>Nodes 1 and 2, with the seeds \<open>[1]\<close> and \<open>[2]\<close>, bootstrapped under the reference
  instance: what the witnesses start from.\<close>

definition sample_payload :: activation_payload where
  "sample_payload = build_activation_payload default_roster 2 1 [7] [8]"

definition sample_unsigned :: roster where
  "sample_unsigned = create_bootstrap_roster sample_payload
     (spki_of ref_prims [2]) (spki_of ref_prims [1])"

definition sample_group :: roster where
  "sample_group = with_last sample_unsigned (signed_activation sample_payload
     (ref_sign [2] (compute_signing_hash ref_prims sample_unsigned))
     (ref_sign [1] (compute_signing_hash ref_prims sample_unsigned)))"

lemma ref_spki_of [simp]: "spki_of ref_prims sk = 48 # sk"
  by (simp add: spki_of_def)

lemma sample_history:
  "valid_history ref_prims sample_group"
  "active_keys ref_prims sample_group = [1 \<mapsto> [1], 2 \<mapsto> [2]]"
  using bootstrap_history [of ref_prims 2 1 sample_payload default_roster "[7]" "[8]"
      sample_unsigned "[2]" "[1]" "compute_signing_hash ref_prims sample_unsigned"]
  by (simp_all add: ref_ed25519_correct sample_payload_def sample_unsigned_def sample_group_def
      default_roster_def)

lemma sample_shape:
  "node_numbers sample_group = [1, 2]" "length (ro_addenda sample_group) = 1"
  by (simp_all add: sample_group_def sample_unsigned_def node_numbers_def sample_payload_def
      build_activation_payload_def)

lemma sample_verifies:
  "verify_roster ref_prims sample_group 1 [48, 1] = Ok [1 \<mapsto> [1], 2 \<mapsto> [2]]"
  "verify_roster ref_prims sample_group 2 [48, 2] = Ok [1 \<mapsto> [1], 2 \<mapsto> [2]]"
  using sample_history sample_shape by (simp_all add: verify_roster_Ok_iff)

definition sample_third_payload :: activation_payload where
  "sample_third_payload = build_activation_payload sample_group 3 1 [5] [6]"

definition sample_third :: roster where
  "sample_third = add_activation_to_roster sample_group sample_third_payload (spki_of ref_prims [3])"

lemma sample_third_history:
  defines "h \<equiv> compute_signing_hash ref_prims sample_third"
  defines "r \<equiv> with_last sample_third (signed_activation sample_third_payload (ref_sign [3] h) (ref_sign [1] h))"
  shows "valid_history ref_prims r"
    and "active_keys ref_prims r = [1 \<mapsto> [1], 2 \<mapsto> [2], 3 \<mapsto> [3]]"
    and "length (ro_addenda r) = 2"
  using activation_history [of ref_prims sample_group 1 "[1]" 3 sample_third_payload "[5]" "[6]"
      sample_third "[3]" h] sample_history sample_shape
  by (simp_all add: r_def h_def ref_ed25519_correct sample_third_payload_def sample_third_def)

definition sample_revocation :: revocation_payload where
  "sample_revocation = build_revocation_payload sample_group 2 1"

definition sample_revoked :: roster where
  "sample_revoked = (let r = add_revocation_to_roster sample_group sample_revocation in
     with_last r (signed_revocation sample_revocation (ref_sign [1] (compute_signing_hash ref_prims r))))"

lemma sample_revoked_history:
  shows "valid_history ref_prims sample_revoked"
    and "active_keys ref_prims sample_revoked = [1 \<mapsto> [1]]"
    and "length (ro_addenda sample_revoked) = 2"
    and "ro_nodes sample_revoked =
      [\<lparr>rn_node_number = 1, rn_public_key_spki = [48, 1], rn_revoked = False\<rparr>,
       \<lparr>rn_node_number = 2, rn_public_key_spki = [48, 2], rn_revoked = True\<rparr>]"
proof -
  note h = revocation_history [of ref_prims sample_group 1 "[1]" 2 sample_revocation
      "add_revocation_to_roster sample_group sample_revocation", OF ref_ed25519_correct
      sample_history(1) _ _ sample_revocation_def refl refl]
  show "valid_history ref_prims sample_revoked"
    using h sample_history(2) by (simp add: sample_revoked_def Let_def)
  show "active_keys ref_prims sample_revoked = [1 \<mapsto> [1]]"
    using h sample_history(2) by (simp add: sample_revoked_def Let_def fun_eq_iff)
  show "length (ro_addenda sample_revoked) = 2"
    using sample_shape(2) by (simp add: sample_revoked_def Let_def)
  show "ro_nodes sample_revoked =
      [\<lparr>rn_node_number = 1, rn_public_key_spki = [48, 1], rn_revoked = False\<rparr>,
       \<lparr>rn_node_number = 2, rn_public_key_spki = [48, 2], rn_revoked = True\<rparr>]"
    by (simp add: sample_revoked_def Let_def sample_group_def sample_unsigned_def
        sample_revocation_def build_revocation_payload_def sample_payload_def
        build_activation_payload_def mark_revoked_def fresh_node_def)
qed

subsection \<open>End to end\<close>

text \<open>
  C3: activating a node works.  When an endorser accepts a roster under its own key, the
  activation that the code builds for a new number, signed by the new node and then by the
  endorser over the hash of the roster with the signatures cleared, gives a roster that
  both nodes accept, in which exactly the new node has become active.
\<close>

theorem activation_protocol_completes:
  assumes P: "ed25519_correct P"
    and ok: "verify_roster P r0 e (spki_of P esk) = Ok keys"
    and n: "n \<notin> set (node_numbers r0)" and len: "length (ro_addenda r0) + 1 < 2 ^ 63"
    and r: "r = add_activation_to_roster r0 (build_activation_payload r0 n e nn en) (spki_of P nsk)"
    and h: "h = compute_signing_hash P r"
    and s1: "set_new_node_signature r (ed_sign P nsk h) = Ok r1"
    and s2: "set_endorser_signature r1
      (ed_sign P esk (compute_signing_hash P (clear_latest_addendum_signatures r1))) = Ok r2"
  shows "verify_roster P r2 n (spki_of P nsk) = Ok (keys(n \<mapsto> ed_verifying_key P nsk)) \<and>
    verify_roster P r2 e (spki_of P esk) = Ok (keys(n \<mapsto> ed_verifying_key P nsk))"
proof -
  let ?p = "build_activation_payload r0 n e nn en"
  from ok have r0: "valid_history P r0" "active_keys P r0 e = Some (ed_verifying_key P esk)"
      "keys = active_keys P r0"
    using spki_of_decodes [OF P] by (auto simp: verify_roster_Ok_iff)
  have last: "ro_addenda r = ro_addenda r0 @ [unsigned_activation ?p]"
    by (simp add: r)
  have "r1 = with_last r (signed_activation ?p (ed_sign P nsk h) [])"
    using s1 by (simp add: sign_both(1) [OF last])
  moreover have "clear_latest_addendum_signatures r1 = r"
    using cosigners_agree [OF last s1] .
  ultimately have r2: "r2 = with_last r (signed_activation ?p (ed_sign P nsk h) (ed_sign P esk h))"
    using s2 h by (simp add: sign_both(2) [OF last])
  note hist = activation_history [OF P r0(1,2) n refl r h, folded r2]
  have "n \<noteq> e"
    using n keys_of_in_numbers r0(2) by (fastforce simp: active_keys_def node_numbers_def)
  moreover have "length (ro_addenda r2) < 2 ^ 63"
    using len by (simp add: r2 last)
  ultimately show ?thesis
    using hist r0 spki_of_decodes [OF P] by (simp_all add: verify_roster_Ok_iff)
qed

theorem activation_protocol_completes_witness:
  "\<exists>r2. verify_roster ref_prims r2 3 [48, 3] = Ok [1 \<mapsto> [1], 2 \<mapsto> [2], 3 \<mapsto> [3]] \<and>
     verify_roster ref_prims r2 1 [48, 1] = Ok [1 \<mapsto> [1], 2 \<mapsto> [2], 3 \<mapsto> [3]]"
proof -
  let ?p = "build_activation_payload sample_group 3 1 [5] [6]"
  let ?r = "add_activation_to_roster sample_group ?p (spki_of ref_prims [3])"
  let ?h = "compute_signing_hash ref_prims ?r"
  let ?r1 = "with_last ?r (signed_activation ?p (ref_sign [3] ?h) [])"
  have last: "ro_addenda ?r = ro_addenda sample_group @ [unsigned_activation ?p]" by simp
  have c: "clear_latest_addendum_signatures ?r1 = ?r"
    by (rule cosigners_agree [OF last sign_both(1) [OF last]])
  let ?r2 = "with_last ?r (signed_activation ?p (ref_sign [3] ?h) (ref_sign [1] ?h))"
  have v: "verify_roster ref_prims sample_group 1 (spki_of ref_prims [1]) = Ok [1 \<mapsto> [1], 2 \<mapsto> [2]]"
    using sample_verifies by simp
  have n: "3 \<notin> set (node_numbers sample_group)" "length (ro_addenda sample_group) + 1 < 2 ^ 63"
    by (simp_all add: sample_shape)
  have s1: "set_new_node_signature ?r (ed_sign ref_prims [3] ?h) = Ok ?r1"
    by (simp only: sign_both(1) [OF last] ref_prims_simps)
  have s2: "set_endorser_signature ?r1 (ed_sign ref_prims [1]
      (compute_signing_hash ref_prims (clear_latest_addendum_signatures ?r1))) = Ok ?r2"
    by (simp only: c sign_both(2) [OF last] ref_prims_simps)
  show ?thesis
    using activation_protocol_completes [OF ref_ed25519_correct v n refl refl s1 s2]
    by (intro exI [of _ ?r2]) (simp only: ref_spki_of ref_prims_simps)
qed

text \<open>
  Bootstrapping a group works.  From an empty roster, the two nodes' cosigned
  bootstrap is accepted by both, with exactly the two of them active.
\<close>

theorem bootstrap_protocol_completes:
  assumes P: "ed25519_correct P" and ne: "n \<noteq> e" and r0: "ro_version r0 = 0"
    and r: "r = create_bootstrap_roster (build_activation_payload r0 n e nn en)
      (spki_of P nsk) (spki_of P esk)"
    and h: "h = compute_signing_hash P r"
    and s1: "set_new_node_signature r (ed_sign P nsk h) = Ok r1"
    and s2: "set_endorser_signature r1
      (ed_sign P esk (compute_signing_hash P (clear_latest_addendum_signatures r1))) = Ok r2"
    and me: "(me, sk) \<in> {(n, nsk), (e, esk)}"
  shows "verify_roster P r2 me (spki_of P sk)
    = Ok [e \<mapsto> ed_verifying_key P esk, n \<mapsto> ed_verifying_key P nsk]"
proof -
  let ?p = "build_activation_payload r0 n e nn en"
  have last: "ro_addenda r = [] @ [unsigned_activation ?p]"
    by (simp add: r)
  have "r1 = with_last r (signed_activation ?p (ed_sign P nsk h) [])"
    using s1 by (simp add: sign_both(1) [OF last])
  moreover have "clear_latest_addendum_signatures r1 = r"
    using cosigners_agree [OF last s1] .
  ultimately have r2: "r2 = with_last r (signed_activation ?p (ed_sign P nsk h) (ed_sign P esk h))"
    using s2 h by (simp add: sign_both(2) [OF last])
  note hist = bootstrap_history [OF P ne refl r0 r h, folded r2]
  have "length (ro_addenda r2) < 2 ^ 63" by (simp add: r2 last)
  then show ?thesis
    using me ne hist spki_of_decodes [OF P] by (auto simp: verify_roster_Ok_iff)
qed

theorem bootstrap_protocol_completes_witness:
  "\<exists>r2. verify_roster ref_prims r2 2 [48, 2] = Ok [1 \<mapsto> [1], 2 \<mapsto> [2]]"
proof -
  let ?r = "create_bootstrap_roster (build_activation_payload default_roster 2 1 [7] [8])
    (spki_of ref_prims [2]) (spki_of ref_prims [1])"
  let ?p = "build_activation_payload default_roster 2 1 [7] [8]"
  let ?h = "compute_signing_hash ref_prims ?r"
  let ?r1 = "with_last ?r (signed_activation ?p (ref_sign [2] ?h) [])"
  have last: "ro_addenda ?r = [] @ [unsigned_activation ?p]" by simp
  have c: "clear_latest_addendum_signatures ?r1 = ?r"
    by (rule cosigners_agree [OF last sign_both(1) [OF last]])
  let ?r2 = "with_last ?r (signed_activation ?p (ref_sign [2] ?h) (ref_sign [1] ?h))"
  have n: "(2 :: i32) \<noteq> 1" "ro_version default_roster = 0" "(2, [2]) \<in> {(2, [2]), (1 :: i32, [1])}"
    by (simp_all add: default_roster_def)
  have s1: "set_new_node_signature ?r (ed_sign ref_prims [2] ?h) = Ok ?r1"
    by (simp only: sign_both(1) [OF last] ref_prims_simps)
  have s2: "set_endorser_signature ?r1 (ed_sign ref_prims [1]
      (compute_signing_hash ref_prims (clear_latest_addendum_signatures ?r1))) = Ok ?r2"
    by (simp only: c sign_both(2) [OF last] ref_prims_simps)
  show ?thesis
    using bootstrap_protocol_completes [OF ref_ed25519_correct n(1,2) refl refl s1 s2 n(3)]
    by (intro exI [of _ ?r2]) (simp only: ref_spki_of ref_prims_simps)
qed

text \<open>
  Revoking a node works and is noticed.  When an active node revokes another one, every
  remaining node accepts the new roster with the revoked node's key gone, and the revoked
  node itself is told that it was revoked.
\<close>

theorem revocation_protocol_completes:
  assumes P: "ed25519_correct P"
    and ok: "verify_roster P r0 e (spki_of P esk) = Ok keys" and t: "keys t \<noteq> None"
    and len: "length (ro_addenda r0) + 1 < 2 ^ 63"
    and r: "r = add_revocation_to_roster r0 (build_revocation_payload r0 t e)"
    and s: "set_revoker_signature r (ed_sign P esk (compute_signing_hash P r)) = Ok r2"
  shows "(\<forall>m mspki. m \<noteq> t \<longrightarrow> verify_roster P r0 m mspki = Ok keys \<longrightarrow>
      verify_roster P r2 m mspki = Ok (keys(t := None))) \<and>
    (\<forall>tspki tk. vk_from_der P tspki = Inr tk \<longrightarrow>
      verify_roster P r2 t tspki = Err (VerifierRevoked t))"
proof -
  let ?p = "build_revocation_payload r0 t e"
  from ok have r0: "valid_history P r0" "active_keys P r0 e = Some (ed_verifying_key P esk)"
      "keys = active_keys P r0"
    using spki_of_decodes [OF P] by (auto simp: verify_roster_Ok_iff)
  have last: "ro_addenda r = ro_addenda r0 @ [signed_revocation ?p []]"
    by (simp add: r unsigned_is_signed)
  have r2: "r2 = with_last r (signed_revocation ?p (ed_sign P esk (compute_signing_hash P r)))"
    using s by (simp add: set_revoker_signature_on_last [OF last])
  note hist = revocation_history [OF P r0(1,2) t [unfolded r0(3)] refl r refl, folded r2]
  have b: "length (ro_addenda r2) < 2 ^ 63" using len by (simp add: r2 last)
  then have "verify_roster P r2 m mspki = Ok (keys(t := None))"
    if "m \<noteq> t" "verify_roster P r0 m mspki = Ok keys" for m mspki
    using that hist r0(3) by (auto simp: verify_roster_Ok_iff)
  moreover have "t \<in> set (node_numbers r0)"
    using t keys_of_in_numbers by (fastforce simp: r0(3) active_keys_def node_numbers_def)
  then have "t \<in> set (node_numbers r2)"
    by (simp add: r2 r node_numbers_def)
  then have "verify_roster P r2 t tspki = Err (VerifierRevoked t)"
    if "vk_from_der P tspki = Inr tk" for tspki tk
    using that hist b by (simp add: verify_roster_Revoked_iff)
  ultimately show ?thesis by blast
qed

theorem revocation_protocol_completes_witness:
  "\<exists>r2. verify_roster ref_prims r2 2 [48, 2] = Err (VerifierRevoked 2) \<and>
     verify_roster ref_prims r2 1 [48, 1] = Ok [1 \<mapsto> [1]]"
proof -
  let ?p = "build_revocation_payload sample_group 2 1"
  let ?r = "add_revocation_to_roster sample_group ?p"
  let ?h = "compute_signing_hash ref_prims ?r"
  let ?r2 = "with_last ?r (signed_revocation ?p (ref_sign [1] ?h))"
  have last: "ro_addenda ?r = ro_addenda sample_group @ [signed_revocation ?p []]"
    by (simp add: unsigned_is_signed)
  have "(\<forall>m mspki. m \<noteq> 2 \<longrightarrow> verify_roster ref_prims sample_group m mspki
        = Ok [1 \<mapsto> [1], 2 \<mapsto> [2]] \<longrightarrow>
      verify_roster ref_prims ?r2 m mspki = Ok (([1 \<mapsto> [1], 2 \<mapsto> [2]] :: key_map)(2 := None))) \<and>
    (\<forall>tspki tk. vk_from_der ref_prims tspki = Inr tk \<longrightarrow>
      verify_roster ref_prims ?r2 2 tspki = Err (VerifierRevoked 2))"
    using revocation_protocol_completes [OF ref_ed25519_correct, of sample_group 1 "[1]"
        "[1 \<mapsto> [1], 2 \<mapsto> [2]]" 2 ?r ?r2]
    by (simp add: sample_verifies sample_shape set_revoker_signature_on_last [OF last])
  moreover have "([1 \<mapsto> [1], 2 \<mapsto> [2]] :: key_map)(2 := None) = [1 \<mapsto> [1]]"
    by (simp add: fun_eq_iff)
  ultimately show ?thesis
    using sample_verifies by (intro exI [of _ ?r2]) simp
qed

subsection \<open>How an accepted roster evolves\<close>

text \<open>One accepted update of a roster.\<close>

inductive roster_step :: "prims \<Rightarrow> roster \<Rightarrow> roster \<Rightarrow> bool" for P where
  step_activation:
    "\<lbrakk>ap_version p = ro_version r0 + 1; ap_new_node_number p \<notin> set (node_numbers r0);
      vk_from_der P nspki = Inr nk; active_keys P r0 (ap_endorser_node_number p) = Some ek;
      r = add_activation_to_roster r0 p nspki;
      verify_signature P nk (compute_signing_hash P r) ns;
      verify_signature P ek (compute_signing_hash P r) es\<rbrakk>
     \<Longrightarrow> roster_step P r0 (with_last r (signed_activation p ns es))"
| step_revocation:
    "\<lbrakk>rp_version p = ro_version r0 + 1; active_keys P r0 (rp_revoker_node_number p) = Some rk;
      active_keys P r0 (rp_revoked_node_number p) \<noteq> None; r = add_revocation_to_roster r0 p;
      verify_signature P rk (compute_signing_hash P r) s\<rbrakk>
     \<Longrightarrow> roster_step P r0 (with_last r (signed_revocation p s))"

lemma step_history: "roster_step P r0 r \<Longrightarrow> valid_history P r0 \<Longrightarrow> valid_history P r"
  by (induction rule: roster_step.induct)
    (simp_all add: valid_history.activation valid_history.revocation)

lemma history_step:
  "valid_history P r \<Longrightarrow> length (ro_addenda r) \<noteq> 1 \<Longrightarrow>
     \<exists>r0. valid_history P r0 \<and> roster_step P r0 r"
proof (induction rule: valid_history.induct)
  case (activation r0 p nspki nk ek r ns es)
  then show ?case using step_activation by blast
next
  case (revocation r0 p rk r s)
  then show ?case using step_revocation by blast
qed simp

lemma step_shape:
  assumes "roster_step P r0 r"
  shows "ro_addenda r0 = butlast (ro_addenda r)"
    and "(\<exists>n s. n \<notin> set (node_numbers r0) \<and> ro_nodes r = ro_nodes r0 @ [fresh_node n s]) \<or>
         (\<exists>n. ro_nodes r = mark_revoked n (ro_nodes r0))"
  using assms by (auto elim!: roster_step.cases) blast+

lemma step_ids: "roster_step P r0 r \<Longrightarrow> \<exists>zs. map node_id (ro_nodes r) = map node_id (ro_nodes r0) @ zs"
  using step_shape(2) [of P r0 r] by fastforce

lemma step_inactive:
  assumes "roster_step P r0 r" and "valid_history P r0"
    and "n \<in> set (node_numbers r0)" and "active_keys P r0 n = None"
  shows "n \<in> set (node_numbers r) \<and> active_keys P r n = None"
  using assms
proof (induction rule: roster_step.induct)
  case (step_activation p r0 nspki nk ek r ns es)
  then show ?case
    using active_keys_activation [of p r0 P nspki nk]
    by (cases "n = ap_new_node_number p") (simp_all add: node_numbers_def)
next
  case (step_revocation p r0 rk r s)
  then show ?case
    using active_keys_revocation [of P r0 p] by (auto simp: node_numbers_def)
qed

lemma steps_history: "(roster_step P)\<^sup>*\<^sup>* r0 r \<Longrightarrow> valid_history P r0 \<Longrightarrow> valid_history P r"
  by (induction rule: rtranclp_induct) (simp_all add: step_history)

lemma steps_ids:
  "(roster_step P)\<^sup>*\<^sup>* r0 r \<Longrightarrow> \<exists>zs. map node_id (ro_nodes r) = map node_id (ro_nodes r0) @ zs"
  by (induction rule: rtranclp_induct) (use step_ids in fastforce)+

lemma steps_inactive:
  assumes "(roster_step P)\<^sup>*\<^sup>* r0 r" and "valid_history P r0"
    and "n \<in> set (node_numbers r0)" and "active_keys P r0 n = None"
  shows "n \<in> set (node_numbers r) \<and> active_keys P r n = None"
  using assms
  by (induction rule: rtranclp_induct) (auto dest: step_inactive steps_history)

text \<open>
  C8: an accepted roster extends an accepted roster.  Dropping the last addendum of an
  accepted roster leaves one that every node active at that time accepts; between the two,
  either one new number was appended or one node was marked revoked.
\<close>

theorem accepted_roster_extends_accepted_roster:
  assumes "verify_roster P r me spki = Ok keys" and "length (ro_addenda r) \<noteq> 1"
  shows "\<exists>r0. ro_addenda r0 = butlast (ro_addenda r) \<and>
    (\<forall>n k s. active_keys P r0 n = Some k \<longrightarrow> vk_from_der P s = Inr k \<longrightarrow>
       verify_roster P r0 n s = Ok (active_keys P r0)) \<and>
    ((\<exists>n s. n \<notin> set (node_numbers r0) \<and> ro_nodes r = ro_nodes r0 @ [fresh_node n s]) \<or>
     (\<exists>n. ro_nodes r = mark_revoked n (ro_nodes r0)))"
proof -
  have r: "valid_history P r" "length (ro_addenda r) < 2 ^ 63"
    using assms(1) by (auto simp: verify_roster_Ok_iff)
  from history_step [OF r(1) assms(2)] obtain r0
    where r0: "valid_history P r0" "roster_step P r0 r" by blast
  have "length (ro_addenda r0) < 2 ^ 63"
    using step_shape(1) [OF r0(2)] r(2) by simp
  then show ?thesis
    using step_shape [OF r0(2)] r0(1) by (intro exI [of _ r0]) (auto simp: verify_roster_Ok_iff)
qed

theorem accepted_roster_extends_accepted_roster_witness:
  "\<exists>r (r0 :: roster). verify_roster ref_prims r 1 [48, 1] = Ok [1 \<mapsto> [1], 2 \<mapsto> [2], 3 \<mapsto> [3]] \<and>
     ro_addenda r0 = butlast (ro_addenda r)"
proof -
  let ?r = "with_last sample_third (signed_activation sample_third_payload
    (ref_sign [3] (compute_signing_hash ref_prims sample_third))
    (ref_sign [1] (compute_signing_hash ref_prims sample_third)))"
  have v: "verify_roster ref_prims ?r 1 [48, 1] = Ok [1 \<mapsto> [1], 2 \<mapsto> [2], 3 \<mapsto> [3]]"
    using sample_third_history by (simp add: verify_roster_Ok_iff)
  have "length (ro_addenda ?r) \<noteq> 1"
    using sample_third_history by simp
  from accepted_roster_extends_accepted_roster [OF v this] obtain r0 :: roster
    where "ro_addenda r0 = butlast (ro_addenda ?r)" by blast
  with v show ?thesis by (intro exI [of _ ?r] exI [of _ r0] conjI)
qed



end
