(* ===== verification/Hub.thy ===== *)
theory Hub
  imports Node_Types Rtt Roster_Props
begin

text \<open>
  \<open>wispers-connect/src/hub.rs\<close>: the client for the hub's RPCs.  The hub and the network are
  the parameter \<open>H\<close>, one function per RPC over a state \<open>'w\<close> of their own: it may answer
  anything, including nothing honest, and what a property needs of it is a hypothesis.
  Every call takes the credentials from the caller's registration, measures its duration
  and feeds the round-trip estimate, and turns a gRPC status into a \<open>hub_error\<close>.
\<close>

subsection \<open>RPCs\<close>

record 'a response =
  resp_body :: 'a
  \<comment> \<open>the header \<open>wispers-server-time-usec\<close>, when present and textual\<close>
  resp_server_time :: "string option"

record credentials =
  au_connectivity_group_id :: string
  au_node_number :: string
  au_auth_token :: string

text \<open>An RPC answers with a status or a response, after a while.\<close>

type_synonym ('w, 'a) rpc = "'w \<Rightarrow> (grpc_status + 'a response) \<times> duration \<times> 'w"

record 'w hub =
  \<comment> \<open>address, whether TLS is configured\<close>
  net_connect :: "string \<Rightarrow> bool \<Rightarrow> 'w \<Rightarrow> hub_error option \<times> 'w"
  \<comment> \<open>whether a text is a legal metadata value\<close>
  metadata_value :: "string \<Rightarrow> bool"
  rpc_complete_node_registration :: "string \<Rightarrow> ('w, proto_registration) rpc"
  rpc_list_nodes :: "credentials \<Rightarrow> ('w, hub_node list) rpc"
  \<comment> \<open>with the timeout of the request\<close>
  rpc_pair_nodes :: "duration \<Rightarrow> credentials \<Rightarrow> pair_nodes_message \<Rightarrow> ('w, pair_nodes_message) rpc"
  rpc_get_roster :: "credentials \<Rightarrow> ('w, roster) rpc"
  rpc_get_group_metadata :: "credentials \<Rightarrow> ('w, group_metadata) rpc"
  rpc_update_roster :: "credentials \<Rightarrow> roster \<Rightarrow> ('w, roster option) rpc"
  rpc_start_serving :: "credentials \<Rightarrow> ('w, unit) rpc"
  rpc_get_stun_turn_config :: "credentials \<Rightarrow> ('w, stun_turn_config) rpc"
  rpc_start_connection ::
    "credentials \<Rightarrow> start_connection_request \<Rightarrow> ('w, start_connection_response) rpc"
  rpc_deregister_node :: "credentials \<Rightarrow> ('w, unit) rpc"

text \<open>What a client runs in: the outside world, the shared round-trip estimate, the clock.\<close>

record 'w env =
  ev_world :: 'w
  ev_rtt :: rtt_estimator
  ev_now :: nat

definition call_rpc :: "('w, 'a) rpc \<Rightarrow> (('w, 'z) env_scheme, 'a response \<times> duration, grpc_status) prog" where
  "call_rpc rpc = (\<lambda>s. case rpc (ev_world s) of (reply, elapsed, w) \<Rightarrow>
     ((case reply of Inl status \<Rightarrow> Err status | Inr r \<Rightarrow> Ok (r, elapsed)),
      s\<lparr>ev_world := w, ev_now := ev_now s + elapsed\<rparr>))"

definition observe_rtt :: "duration \<Rightarrow> (('w, 'z) env_scheme, unit, 'e) prog" where
  "observe_rtt sample = modify (\<lambda>s. s\<lparr>ev_rtt := rtt_observe (ev_now s) sample (ev_rtt s)\<rparr>)"

definition server_time :: "'a response \<Rightarrow> duration option" where
  "server_time r = (case resp_server_time r of None \<Rightarrow> None
     | Some v \<Rightarrow> map_option (\<lambda>n. from_micros (unat n)) (parse_u64 v))"

definition timed :: "('w, 'a) rpc \<Rightarrow> (('w, 'z) env_scheme, 'a, grpc_status) prog" where
  "timed rpc =
     pbind (call_rpc rpc) (\<lambda>(r, elapsed).
     pbind (case server_time r of
              None \<Rightarrow> ret ()
            | Some server \<Rightarrow> observe_rtt (elapsed - server)) (\<lambda>_.
     ret (resp_body r)))"

subsection \<open>The client\<close>

definition add_auth_metadata :: "'w hub \<Rightarrow> node_registration \<Rightarrow> (credentials, hub_error) result" where
  "add_auth_metadata H registration =
     rbind (expect (nr_auth_token registration)) (\<lambda>auth_token.
     let group_id = nr_connectivity_group_id registration;
         node_number = int_to_string (sint (nr_node_number registration)) in
     rbind (check (metadata_value H group_id) (Metadata group_id)) (\<lambda>_.
     rbind (check (metadata_value H node_number) (Metadata node_number)) (\<lambda>_.
     rbind (check (metadata_value H auth_token) (Metadata auth_token)) (\<lambda>_.
     Ok \<lparr>au_connectivity_group_id = group_id, au_node_number = node_number,
         au_auth_token = auth_token\<rparr>))))"

definition connect :: "'w hub \<Rightarrow> string \<Rightarrow> (('w, 'z) env_scheme, unit, hub_error) prog" where
  "connect H addr = (\<lambda>s. case net_connect H addr (starts_with addr ''https://'') (ev_world s) of
     (None, w) \<Rightarrow> (Ok (), s\<lparr>ev_world := w\<rparr>)
   | (Some e, w) \<Rightarrow> (Err e, s\<lparr>ev_world := w\<rparr>))"

definition complete_registration ::
  "'w hub \<Rightarrow> string \<Rightarrow> (('w, 'z) env_scheme, node_registration, hub_error) prog"
where
  "complete_registration H token =
     pbind (perr hub_error_from_status (timed (rpc_complete_node_registration H token))) (\<lambda>reg.
     ret (new_registration (pr_connectivity_group_id reg) (pr_node_number reg)
       (pr_auth_token reg) (pr_attestation_jwt reg)))"

text \<open>An authenticated, timed RPC.\<close>

definition authed ::
  "'w hub \<Rightarrow> node_registration \<Rightarrow> (credentials \<Rightarrow> ('w, 'a) rpc) \<Rightarrow>
   (('w, 'z) env_scheme, 'a, hub_error) prog"
where
  "authed H registration rpc =
     pbind (lift (add_auth_metadata H registration)) (\<lambda>auth.
     perr hub_error_from_status (timed (rpc auth)))"

definition list_nodes :: "'w hub \<Rightarrow> node_registration \<Rightarrow> (('w, 'z) env_scheme, hub_node list, hub_error) prog" where
  "list_nodes H registration = authed H registration (rpc_list_nodes H)"

definition hub_pair_nodes ::
  "'w hub \<Rightarrow> node_registration \<Rightarrow> pair_nodes_message \<Rightarrow>
   (('w, 'z) env_scheme, pair_nodes_message, hub_error) prog"
where
  "hub_pair_nodes H registration message =
     authed H registration (\<lambda>auth. rpc_pair_nodes H PAIRING_RPC_DEADLINE auth message)"

definition get_unverified_roster ::
  "'w hub \<Rightarrow> node_registration \<Rightarrow> (('w, 'z) env_scheme, roster, hub_error) prog"
where
  "get_unverified_roster H registration = authed H registration (rpc_get_roster H)"

definition get_group_metadata ::
  "'w hub \<Rightarrow> node_registration \<Rightarrow> (('w, 'z) env_scheme, group_metadata, hub_error) prog"
where
  "get_group_metadata H registration = authed H registration (rpc_get_group_metadata H)"

definition get_and_verify_roster ::
  "prims \<Rightarrow> 'w hub \<Rightarrow> node_registration \<Rightarrow> bytes \<Rightarrow> (('w, 'z) env_scheme, roster, hub_error) prog"
where
  "get_and_verify_roster P H registration verifier_public_key_spki =
     pbind (get_unverified_roster H registration) (\<lambda>r.
     pbind (lift (map_err RosterVerification
       (verify_roster P r (nr_node_number registration) verifier_public_key_spki))) (\<lambda>_.
     ret r))"

definition update_roster ::
  "'w hub \<Rightarrow> node_registration \<Rightarrow> roster \<Rightarrow> (('w, 'z) env_scheme, roster, hub_error) prog"
where
  "update_roster H registration new_roster =
     pbind (authed H registration (\<lambda>auth. rpc_update_roster H auth new_roster)) (\<lambda>cosigned_roster.
     lift (ok_or (Rpc \<lparr>gs_code = CodeInternal,
       gs_message = ''missing cosigned_roster in response''\<rparr>) cosigned_roster))"

text \<open>The serving stream; a connection is the instant at which it was opened.\<close>

definition hub_start_serving :: "'w hub \<Rightarrow> node_registration \<Rightarrow> (('w, 'z) env_scheme, nat, hub_error) prog" where
  "hub_start_serving H registration =
     pbind (lift (add_auth_metadata H registration)) (\<lambda>auth.
     pbind (gets ev_now) (\<lambda>opened_at.
     pbind (perr hub_error_from_status (call_rpc (rpc_start_serving H auth))) (\<lambda>_.
     ret opened_at)))"

definition get_stun_turn_config ::
  "'w hub \<Rightarrow> node_registration \<Rightarrow> (('w, 'z) env_scheme, stun_turn_config, hub_error) prog"
where
  "get_stun_turn_config H registration = authed H registration (rpc_get_stun_turn_config H)"

definition start_connection ::
  "'w hub \<Rightarrow> node_registration \<Rightarrow> start_connection_request \<Rightarrow>
   (('w, 'z) env_scheme, start_connection_response, hub_error) prog"
where
  "start_connection H registration request =
     authed H registration (\<lambda>auth. rpc_start_connection H auth request)"

definition deregister_node :: "'w hub \<Rightarrow> node_registration \<Rightarrow> (('w, 'z) env_scheme, unit, hub_error) prog" where
  "deregister_node H registration = authed H registration (rpc_deregister_node H)"

subsection \<open>What the calls leave alone\<close>

text \<open>
  A client call changes nothing of a larger state but the world, the estimate and the
  clock: any predicate that does not look at those is kept.
\<close>

definition env_blind :: "(('w, 'z) env_scheme \<Rightarrow> bool) \<Rightarrow> bool" where
  "env_blind I \<longleftrightarrow> (\<forall>s w r n. I (s\<lparr>ev_world := w, ev_rtt := r, ev_now := n\<rparr>) = I s)"

lemma env_blindD:
  assumes "env_blind I"
  shows "I (s\<lparr>ev_world := w\<rparr>) = I s" and "I (s\<lparr>ev_rtt := r\<rparr>) = I s" and "I (s\<lparr>ev_now := n\<rparr>) = I s"
    and "I (s\<lparr>ev_world := w, ev_now := n\<rparr>) = I s"
proof -
  have all: "I (s\<lparr>ev_world := w, ev_rtt := r, ev_now := n\<rparr>) = I s" for s w r n
    using assms by (simp add: env_blind_def)
  show "I (s\<lparr>ev_world := w\<rparr>) = I s" using all [of "ev_now s" "ev_rtt s" w s] by simp
  show "I (s\<lparr>ev_rtt := r\<rparr>) = I s" using all [of "ev_now s" r "ev_world s" s] by simp
  show "I (s\<lparr>ev_now := n\<rparr>) = I s" using all [of n "ev_rtt s" "ev_world s" s] by simp
  show "I (s\<lparr>ev_world := w, ev_now := n\<rparr>) = I s" using all [of n "ev_rtt s" w s] by simp
qed

lemma keeps_call_rpc [keeps_rules]: "env_blind I \<Longrightarrow> keeps I (call_rpc rpc)"
  by (auto simp: keeps_def call_rpc_def env_blindD split: prod.splits)

lemma keeps_observe_rtt [keeps_rules]: "env_blind I \<Longrightarrow> keeps I (observe_rtt sample)"
  by (auto simp: observe_rtt_def env_blindD intro!: keeps_modify)

lemma keeps_timed [keeps_rules]: "env_blind I \<Longrightarrow> keeps I (timed rpc)"
  by (auto simp: timed_def split: option.splits intro!: keeps_rules)

lemma keeps_authed [keeps_rules]: "env_blind I \<Longrightarrow> keeps I (authed H reg rpc)"
  by (auto simp: authed_def intro!: keeps_rules)

lemma keeps_connect [keeps_rules]: "env_blind I \<Longrightarrow> keeps I (connect H addr)"
  by (auto simp: keeps_def connect_def env_blindD split: prod.splits option.splits)

lemma keeps_client [keeps_rules]:
  assumes "env_blind I"
  shows "keeps I (complete_registration H token)" "keeps I (list_nodes H reg)"
    "keeps I (hub_pair_nodes H reg msg)" "keeps I (get_unverified_roster H reg)"
    "keeps I (get_group_metadata H reg)" "keeps I (get_and_verify_roster P H reg spki)"
    "keeps I (update_roster H reg r)" "keeps I (hub_start_serving H reg)"
    "keeps I (get_stun_turn_config H reg)" "keeps I (start_connection H reg rq)"
    "keeps I (deregister_node H reg)"
  unfolding complete_registration_def list_nodes_def hub_pair_nodes_def get_unverified_roster_def
    get_group_metadata_def get_and_verify_roster_def update_roster_def hub_start_serving_def
    get_stun_turn_config_def start_connection_def deregister_node_def
  using assms by (auto intro!: keeps_rules)

subsection \<open>Panics\<close>

text \<open>A program that cannot panic, whatever it starts from.\<close>

definition no_panic :: "('s, 'a, 'e) prog \<Rightarrow> bool" where
  "no_panic m \<longleftrightarrow> (\<forall>s. fst (m s) \<noteq> Panic)"

lemma no_panicD: "no_panic m \<Longrightarrow> m s \<noteq> (Panic, t)"
  by (auto simp: no_panic_def dest: spec [of _ s])

lemma no_panic_call_rpc: "no_panic (call_rpc rpc)"
  by (auto simp: no_panic_def call_rpc_def split: prod.splits sum.splits)

lemma no_panic_timed: "no_panic (timed rpc)"
proof -
  have "timed rpc s \<noteq> (Panic, t)" for s t
    using no_panicD [OF no_panic_call_rpc [of rpc]]
    by (auto simp: timed_def observe_rtt_def rust_simps split: option.splits)
  then show ?thesis unfolding no_panic_def by (metis prod.collapse)
qed

lemma authed_no_panic:
  assumes "nr_auth_token reg = Some t"
  shows "no_panic (authed H reg rpc)"
proof -
  have "authed H reg rpc s \<noteq> (Panic, s')" for s s'
    using assms no_panicD [OF no_panic_timed]
    by (auto simp: authed_def rust_simps add_auth_metadata_def Let_def)
  then show ?thesis unfolding no_panic_def by (metis prod.collapse)
qed

lemma connect_no_panic: "no_panic (connect H addr)"
  by (auto simp: no_panic_def connect_def split: prod.splits option.splits)

lemma complete_registration_no_panic: "no_panic (complete_registration H token)"
proof -
  have "complete_registration H token s \<noteq> (Panic, s')" for s s'
    using no_panicD [OF no_panic_timed] by (auto simp: complete_registration_def rust_simps)
  then show ?thesis unfolding no_panic_def by (metis prod.collapse)
qed

end
