(* ===== verification/Storage.thy ===== *)
theory Storage
  imports Node_Types Reference_Prims
begin

text \<open>
  \<open>wispers-connect/src/storage\<close>: the codec, and the three implementations of the trait
  \<open>NodeStateStore\<close>.  The trait is the locale \<open>node_store\<close>; each implementation interprets
  it on its own model.  The file store runs on a model of the directory's three files in
  which every file-system call may fail, as an oracle says; the foreign store runs on the
  host application's callbacks.
\<close>

subsection \<open>storage/codec.rs\<close>

definition serialize_registration :: "prims \<Rightarrow> node_registration \<Rightarrow> bytes" where
  "serialize_registration P reg = encode_registration P
     \<lparr>pr_connectivity_group_id = nr_connectivity_group_id reg,
      pr_node_number = nr_node_number reg,
      pr_auth_token = (case nr_auth_token reg of None \<Rightarrow> [] | Some t \<Rightarrow> t),
      pr_attestation_jwt = nr_attestation_jwt reg\<rparr>"

definition deserialize_registration ::
  "prims \<Rightarrow> bytes \<Rightarrow> (node_registration, storage_error) result"
where
  "deserialize_registration P bs =
     (case decode_registration P bs of
        Inl e \<Rightarrow> Err (RegistrationCodec e)
      | Inr r \<Rightarrow> Ok (new_registration (pr_connectivity_group_id r) (pr_node_number r)
          (pr_auth_token r) (pr_attestation_jwt r)))"

text \<open>The registrations that survive storage: the ones with a token, which is all that
  \<open>NodeRegistration::new\<close> makes, and that the message library decodes from its encoding.\<close>

definition storable_registration :: "prims \<Rightarrow> node_registration \<Rightarrow> bool" where
  "storable_registration P reg \<longleftrightarrow> serialize_registration P reg \<noteq> [] \<and>
     (\<exists>t. nr_auth_token reg = Some t \<and>
       decode_registration P (serialize_registration P reg) = Inr
         \<lparr>pr_connectivity_group_id = nr_connectivity_group_id reg,
          pr_node_number = nr_node_number reg, pr_auth_token = t,
          pr_attestation_jwt = nr_attestation_jwt reg\<rparr>)"

lemma deserialize_serialize:
  "storable_registration P reg \<Longrightarrow>
     deserialize_registration P (serialize_registration P reg) = Ok reg"
  by (cases reg) (auto simp: storable_registration_def deserialize_registration_def
      new_registration_def)

definition storable :: "prims \<Rightarrow> persisted_node_state \<Rightarrow> bool" where
  "storable P p \<longleftrightarrow> length (ps_root_key p) = ROOT_KEY_LEN \<and>
     (case ps_registration p of None \<Rightarrow> True | Some reg \<Rightarrow> storable_registration P reg)"

subsection \<open>The trait\<close>

text \<open>
  What a client of \<open>NodeStateStore\<close> may rely on while the store is healthy: a save is read
  back, a delete leaves nothing, reading changes nothing that a later read sees.
\<close>

locale node_store =
  fixes healthy :: "'s \<Rightarrow> bool"
    and content :: "'s \<Rightarrow> persisted_node_state option"
    and good :: "persisted_node_state \<Rightarrow> bool"
    and load :: "('s, persisted_node_state option, storage_error) prog"
    and save :: "persisted_node_state \<Rightarrow> ('s, unit, storage_error) prog"
    and delete :: "('s, unit, storage_error) prog"
  assumes load_content: "healthy s \<Longrightarrow> fst (load s) = Ok (content s)"
    and load_keeps: "healthy s \<Longrightarrow> healthy (snd (load s)) \<and> content (snd (load s)) = content s"
    and save_content: "healthy s \<Longrightarrow> good p \<Longrightarrow>
      fst (save p s) = Ok () \<and> healthy (snd (save p s)) \<and> content (snd (save p s)) = Some p"
    and delete_content: "healthy s \<Longrightarrow>
      fst (delete s) = Ok () \<and> healthy (snd (delete s)) \<and> content (snd (delete s)) = None"

text \<open>A client's calls, and what they mean on the abstract content.\<close>

datatype store_call = LoadCall | SaveCall persisted_node_state | DeleteCall

fun abstract_store :: "persisted_node_state option \<Rightarrow> store_call list \<Rightarrow> persisted_node_state option" where
  "abstract_store c [] = c"
| "abstract_store c (LoadCall # cs) = abstract_store c cs"
| "abstract_store c (SaveCall p # cs) = abstract_store (Some p) cs"
| "abstract_store c (DeleteCall # cs) = abstract_store None cs"

fun run_store ::
  "('s, persisted_node_state option, storage_error) prog \<Rightarrow>
   (persisted_node_state \<Rightarrow> ('s, unit, storage_error) prog) \<Rightarrow>
   ('s, unit, storage_error) prog \<Rightarrow> store_call list \<Rightarrow> 's \<Rightarrow> 's"
where
  "run_store load save delete [] s = s"
| "run_store load save delete (LoadCall # cs) s = run_store load save delete cs (snd (load s))"
| "run_store load save delete (SaveCall p # cs) s = run_store load save delete cs (snd (save p s))"
| "run_store load save delete (DeleteCall # cs) s = run_store load save delete cs (snd (delete s))"

context node_store
begin

lemma run_refines:
  assumes "healthy s" and "\<forall>p. SaveCall p \<in> set cs \<longrightarrow> good p"
  shows "healthy (run_store load save delete cs s) \<and>
    content (run_store load save delete cs s) = abstract_store (content s) cs"
  using assms
proof (induction cs arbitrary: s)
  case (Cons c cs)
  show ?case
  proof (cases c)
    case LoadCall
    then show ?thesis using load_keeps [OF Cons.prems(1)] Cons by auto
  next
    case (SaveCall p)
    then show ?thesis using save_content [OF Cons.prems(1), of p] Cons by auto
  next
    case DeleteCall
    then show ?thesis using delete_content [OF Cons.prems(1)] Cons by auto
  qed
qed simp

text \<open>A load after any calls returns what the abstract store holds.\<close>

lemma load_after_run:
  assumes "healthy s" and "\<forall>p. SaveCall p \<in> set cs \<longrightarrow> good p"
  shows "fst (load (run_store load save delete cs s)) = Ok (abstract_store (content s) cs)"
  using run_refines [OF assms] load_content by simp

end

subsection \<open>storage/in_memory.rs\<close>

record mem_store =
  ms_state :: "persisted_node_state option"
  ms_poisoned :: bool

definition mem_new :: mem_store where
  "mem_new = \<lparr>ms_state = None, ms_poisoned = False\<rparr>"

definition mem_load :: "(mem_store, persisted_node_state option, storage_error) prog" where
  "mem_load = pbind (gets ms_poisoned) (\<lambda>poisoned.
     if poisoned then fail Poisoned else gets ms_state)"

definition mem_save :: "persisted_node_state \<Rightarrow> (mem_store, unit, storage_error) prog" where
  "mem_save state = pbind (gets ms_poisoned) (\<lambda>poisoned.
     if poisoned then fail Poisoned else modify (\<lambda>s. s\<lparr>ms_state := Some state\<rparr>))"

definition mem_delete :: "(mem_store, unit, storage_error) prog" where
  "mem_delete = pbind (gets ms_poisoned) (\<lambda>poisoned.
     if poisoned then fail Poisoned else modify (\<lambda>s. s\<lparr>ms_state := None\<rparr>))"

interpretation mem: node_store "\<lambda>s. \<not> ms_poisoned s" ms_state "\<lambda>p. True" mem_load mem_save mem_delete
  by unfold_locales (simp_all add: mem_load_def mem_save_def mem_delete_def pbind_def)

subsection \<open>storage/file.rs\<close>

text \<open>The store's directory: its three files, when it exists.\<close>

record fs =
  fs_dir :: bool
  fs_root_key :: "bytes option"
  fs_registration :: "bytes option"
  fs_legacy :: bool

text \<open>
  Every call to the file system asks the oracle \<open>io\<close> whether it fails, with which error,
  and what the failed call did to the directory (\<open>fs::write\<close> truncates before it writes,
  \<open>remove_dir_all\<close> may stop half way).
\<close>

datatype fs_call =
    ReadRootKey | ReadRegistration | RemoveLegacy | CreateDir | SetDirMode
  | WriteRootKey | ChmodRootKey | WriteRegistration | ChmodRegistration
  | RemoveRegistration | RemoveDir

type_synonym fs_oracle = "fs_call \<Rightarrow> (string \<times> (fs \<Rightarrow> fs)) option"

definition fs_do :: "fs_oracle \<Rightarrow> fs_call \<Rightarrow> (fs \<Rightarrow> fs) \<Rightarrow> (fs, unit, storage_error) prog" where
  "fs_do io call effect = (\<lambda>s. case io call of
     None \<Rightarrow> (Ok (), effect s)
   | Some (e, damage) \<Rightarrow> (Err (Io e), damage s))"

text \<open>\<open>fs::read\<close> of a file that was just seen to exist.\<close>

definition fs_read :: "fs_oracle \<Rightarrow> fs_call \<Rightarrow> (fs \<Rightarrow> bytes option) \<Rightarrow> (fs, bytes, storage_error) prog" where
  "fs_read io call content = (\<lambda>s. case io call of
     Some (e, damage) \<Rightarrow> (Err (Io e), s)
   | None \<Rightarrow> (case content s of None \<Rightarrow> (Err (Io ''entity not found''), s) | Some b \<Rightarrow> (Ok b, s)))"

definition write_root_key :: "fs_oracle \<Rightarrow> bytes \<Rightarrow> (fs, unit, storage_error) prog" where
  "write_root_key io data =
     pbind (fs_do io WriteRootKey (\<lambda>s. s\<lparr>fs_root_key := Some data\<rparr>)) (\<lambda>_.
     fs_do io ChmodRootKey (\<lambda>s. s))"

definition write_registration :: "fs_oracle \<Rightarrow> bytes \<Rightarrow> (fs, unit, storage_error) prog" where
  "write_registration io data =
     pbind (fs_do io WriteRegistration (\<lambda>s. s\<lparr>fs_registration := Some data\<rparr>)) (\<lambda>_.
     fs_do io ChmodRegistration (\<lambda>s. s))"

definition file_load :: "prims \<Rightarrow> fs_oracle \<Rightarrow> (fs, persisted_node_state option, storage_error) prog" where
  "file_load P io =
     pbind (gets (\<lambda>s. fs_dir s \<and> fs_root_key s \<noteq> None)) (\<lambda>root_key_exists.
     if \<not> root_key_exists then ret None else
     pbind (fs_read io ReadRootKey fs_root_key) (\<lambda>root_key_bytes.
     if length root_key_bytes \<noteq> ROOT_KEY_LEN then fail InvalidRootKey else
     pbind (gets (\<lambda>s. fs_registration s \<noteq> None)) (\<lambda>registration_exists.
     pbind (if registration_exists
            then pbind (fs_read io ReadRegistration fs_registration) (\<lambda>bs.
                 case deserialize_registration P bs of
                   Ok reg \<Rightarrow> ret (Some reg)
                 | _ \<Rightarrow> ret None)
            else pbind (gets fs_legacy) (\<lambda>legacy.
                 if legacy
                 then pcatch (fs_do io RemoveLegacy (\<lambda>s. s\<lparr>fs_legacy := False\<rparr>))
                        (\<lambda>_. ret None) (\<lambda>_. ret None)
                 else ret None)) (\<lambda>registration.
     ret (Some (from_stored root_key_bytes registration))))))"

definition file_save :: "prims \<Rightarrow> fs_oracle \<Rightarrow> persisted_node_state \<Rightarrow> (fs, unit, storage_error) prog" where
  "file_save P io state =
     pbind (gets fs_dir) (\<lambda>dir_exists.
     pbind (if dir_exists then ret ()
            else pbind (fs_do io CreateDir (\<lambda>s. \<lparr>fs_dir = True, fs_root_key = None,
                   fs_registration = None, fs_legacy = False\<rparr>)) (\<lambda>_.
                 fs_do io SetDirMode (\<lambda>s. s))) (\<lambda>_.
     pbind (write_root_key io (ps_root_key state)) (\<lambda>_.
     case ps_registration state of
       Some registration \<Rightarrow> write_registration io (serialize_registration P registration)
     | None \<Rightarrow> pbind (gets (\<lambda>s. fs_registration s \<noteq> None)) (\<lambda>exists.
         if exists then fs_do io RemoveRegistration (\<lambda>s. s\<lparr>fs_registration := None\<rparr>)
         else ret ()))))"

definition file_delete :: "fs_oracle \<Rightarrow> (fs, unit, storage_error) prog" where
  "file_delete io =
     pbind (gets fs_dir) (\<lambda>dir_exists.
     if dir_exists
     then fs_do io RemoveDir (\<lambda>s. \<lparr>fs_dir = False, fs_root_key = None, fs_registration = None,
            fs_legacy = False\<rparr>)
     else ret ())"

text \<open>A directory on which nothing fails and that holds a whole root key, and its content.\<close>

definition fs_healthy :: "fs_oracle \<Rightarrow> fs \<Rightarrow> bool" where
  "fs_healthy io s \<longleftrightarrow> (\<forall>c. io c = None) \<and>
     (case fs_root_key s of None \<Rightarrow> True | Some k \<Rightarrow> length k = ROOT_KEY_LEN)"

definition fs_content :: "prims \<Rightarrow> fs \<Rightarrow> persisted_node_state option" where
  "fs_content P s =
     (if fs_dir s then
       (case fs_root_key s of None \<Rightarrow> None | Some k \<Rightarrow> Some (from_stored k
          (case fs_registration s of None \<Rightarrow> None
           | Some bs \<Rightarrow> (case deserialize_registration P bs of Ok reg \<Rightarrow> Some reg | _ \<Rightarrow> None))))
      else None)"

lemmas file_defs = file_load_def file_save_def file_delete_def write_root_key_def
  write_registration_def fs_do_def fs_read_def pbind_def pcatch_def
  fs_healthy_def fs_content_def

interpretation fstore: node_store "fs_healthy io" "fs_content P" "storable P"
  "file_load P io" "file_save P io" "file_delete io" for P io
proof
  fix s
  assume "fs_healthy io s"
  then show "fst (file_load P io s) = Ok (fs_content P s)"
      "fs_healthy io (snd (file_load P io s)) \<and> fs_content P (snd (file_load P io s)) = fs_content P s"
      "fst (file_delete io s) = Ok () \<and> fs_healthy io (snd (file_delete io s)) \<and>
        fs_content P (snd (file_delete io s)) = None"
    by (auto simp: file_defs split: option.splits result.splits)
next
  fix s p
  assume "fs_healthy io s" "storable P p"
  then show "fst (file_save P io p s) = Ok () \<and> fs_healthy io (snd (file_save P io p s)) \<and>
      fs_content P (snd (file_save P io p s)) = Some p"
    by (cases p) (auto simp: file_defs storable_def from_stored_def deserialize_serialize
        split: option.splits)
qed

subsection \<open>storage/foreign.rs\<close>

definition INITIAL_REGISTRATION_BUFFER :: nat where
  "INITIAL_REGISTRATION_BUFFER = 256"

text \<open>
  The host's callbacks over its own state \<open>'h\<close>; an out-parameter is passed in and
  returned, with what the callback left in it.  A load gets a buffer, whose contents it may
  change but not its length, and a cell for the length that it needs.
\<close>

record 'h callbacks =
  cb_load_root_key :: "(bytes \<Rightarrow> 'h \<Rightarrow> wispers_status \<times> bytes \<times> 'h) option"
  cb_save_root_key :: "(bytes \<Rightarrow> 'h \<Rightarrow> wispers_status \<times> 'h) option"
  cb_delete_root_key :: "('h \<Rightarrow> wispers_status \<times> 'h) option"
  cb_load_registration :: "(bytes \<Rightarrow> nat \<Rightarrow> 'h \<Rightarrow> wispers_status \<times> bytes \<times> nat \<times> 'h) option"
  cb_save_registration :: "(bytes \<Rightarrow> 'h \<Rightarrow> wispers_status \<times> 'h) option"
  cb_delete_registration :: "('h \<Rightarrow> wispers_status \<times> 'h) option"

definition foreign_new :: "'h callbacks \<Rightarrow> ('h callbacks, storage_error) result" where
  "foreign_new cbs =
     (if cb_load_root_key cbs = None then Err (MissingCallback ''load_root_key'')
      else if cb_save_root_key cbs = None then Err (MissingCallback ''save_root_key'')
      else if cb_delete_root_key cbs = None then Err (MissingCallback ''delete_root_key'')
      else if cb_load_registration cbs = None then Err (MissingCallback ''load_registration'')
      else if cb_save_registration cbs = None then Err (MissingCallback ''save_registration'')
      else if cb_delete_registration cbs = None then Err (MissingCallback ''delete_registration'')
      else Ok cbs)"

definition call_load_root_key :: "'h callbacks \<Rightarrow> ('h, bytes option, storage_error) prog" where
  "call_load_root_key cbs = pbind (lift (expect (cb_load_root_key cbs))) (\<lambda>callback h.
     case callback (replicate ROOT_KEY_LEN 0) h of (status, buffer, h') \<Rightarrow>
       ((if status = Success then Ok (Some buffer)
         else if status = NotFound then Ok None
         else Err (ForeignStatus status)), h'))"

definition status_result :: "wispers_status set \<Rightarrow> wispers_status \<Rightarrow> (unit, storage_error) result" where
  "status_result good status = (if status \<in> good then Ok () else Err (ForeignStatus status))"

definition call_save_root_key :: "'h callbacks \<Rightarrow> bytes \<Rightarrow> ('h, unit, storage_error) prog" where
  "call_save_root_key cbs root_key = pbind (lift (expect (cb_save_root_key cbs))) (\<lambda>callback h.
     case callback root_key h of (status, h') \<Rightarrow> (status_result {Success} status, h'))"

definition call_delete_root_key :: "'h callbacks \<Rightarrow> ('h, unit, storage_error) prog" where
  "call_delete_root_key cbs = pbind (lift (expect (cb_delete_root_key cbs))) (\<lambda>callback h.
     case callback h of (status, h') \<Rightarrow> (status_result {Success, NotFound} status, h'))"

definition call_delete_registration :: "'h callbacks \<Rightarrow> ('h, unit, storage_error) prog" where
  "call_delete_registration cbs = pbind (lift (expect (cb_delete_registration cbs))) (\<lambda>callback h.
     case callback h of (status, h') \<Rightarrow> (status_result {Success, NotFound} status, h'))"

definition serialize_registration_opt :: "prims \<Rightarrow> node_registration option \<Rightarrow> bytes" where
  "serialize_registration_opt P registration =
     (case registration of Some reg \<Rightarrow> serialize_registration P reg | None \<Rightarrow> [])"

definition deserialize_registration_opt ::
  "prims \<Rightarrow> bytes \<Rightarrow> (node_registration option, storage_error) result"
where
  "deserialize_registration_opt P bs =
     (if bs = [] then Ok None
      else rbind (deserialize_registration P bs) (\<lambda>reg. Ok (Some reg)))"

text \<open>\<open>Vec::resize(n, 0)\<close>.\<close>

definition resize :: "nat \<Rightarrow> bytes \<Rightarrow> bytes" where
  "resize n bs = take n bs @ replicate (n - length bs) 0"

text \<open>
  The loop of \<open>call_load_registration\<close>, which asks again with a larger buffer.  Nothing in
  it bounds the number of rounds, so not returning is a value, \<open>None\<close>.
\<close>

partial_function (option) load_registration_loop ::
  "prims \<Rightarrow> 'h callbacks \<Rightarrow> (bytes \<Rightarrow> nat \<Rightarrow> 'h \<Rightarrow> wispers_status \<times> bytes \<times> nat \<times> 'h) \<Rightarrow>
   bytes \<Rightarrow> nat \<Rightarrow> 'h \<Rightarrow> ((node_registration option, storage_error) result \<times> 'h) option"
where
  "load_registration_loop P cbs callback buffer required h =
     (case callback buffer required h of (status, buffer', required', h') \<Rightarrow>
        if status = Success then
          (case deserialize_registration_opt P (take required' buffer') of
             Ok reg \<Rightarrow> Some (Ok reg, h')
           | _ \<Rightarrow> Some (Ok None, snd (call_delete_registration cbs h')))
        else if status = NotFound then Some (Ok None, h')
        else if status = BufferTooSmall then
          (if required' = 0 then Some (Err (ForeignStatus BufferTooSmall), h')
           else load_registration_loop P cbs callback (resize required' buffer') required' h')
        else Some (Err (ForeignStatus status), h'))"

definition call_load_registration ::
  "prims \<Rightarrow> 'h callbacks \<Rightarrow> 'h \<Rightarrow> ((node_registration option, storage_error) result \<times> 'h) option"
where
  "call_load_registration P cbs h =
     (case cb_load_registration cbs of
        None \<Rightarrow> Some (Panic, h)
      | Some callback \<Rightarrow> load_registration_loop P cbs callback
          (replicate INITIAL_REGISTRATION_BUFFER 0) 0 h)"

definition call_save_registration ::
  "prims \<Rightarrow> 'h callbacks \<Rightarrow> node_registration option \<Rightarrow> ('h, unit, storage_error) prog"
where
  "call_save_registration P cbs registration =
     pbind (lift (expect (cb_save_registration cbs))) (\<lambda>callback h.
     case callback (serialize_registration_opt P registration) h of
       (status, h') \<Rightarrow> (status_result {Success} status, h'))"

definition foreign_load ::
  "prims \<Rightarrow> 'h callbacks \<Rightarrow> 'h \<Rightarrow> ((persisted_node_state option, storage_error) result \<times> 'h) option"
where
  "foreign_load P cbs h =
     (case call_load_root_key cbs h of
        (Ok (Some bytes), h') \<Rightarrow>
          (case call_load_registration P cbs h' of
             None \<Rightarrow> None
           | Some (Ok reg, h'') \<Rightarrow> Some (Ok (Some (from_stored bytes reg)), h'')
           | Some (Err e, h'') \<Rightarrow> Some (Err e, h'')
           | Some (Panic, h'') \<Rightarrow> Some (Panic, h''))
      | (Ok None, h') \<Rightarrow> Some (Ok None, h')
      | (Err e, h') \<Rightarrow> Some (Err e, h')
      | (Panic, h') \<Rightarrow> Some (Panic, h'))"

definition foreign_save ::
  "prims \<Rightarrow> 'h callbacks \<Rightarrow> persisted_node_state \<Rightarrow> ('h, unit, storage_error) prog"
where
  "foreign_save P cbs state =
     pbind (call_save_root_key cbs (ps_root_key state)) (\<lambda>_.
     call_save_registration P cbs (ps_registration state))"

definition foreign_delete :: "'h callbacks \<Rightarrow> ('h, unit, storage_error) prog" where
  "foreign_delete cbs =
     pbind (call_delete_root_key cbs) (\<lambda>_. call_delete_registration cbs)"

subsection \<open>A host that keeps its side\<close>

text \<open>
  What the C header asks of the callbacks, over the host's two values \<open>rk\<close> and \<open>rg\<close>: a
  load copies the value out, says \<open>NotFound\<close> when there is none, and says
  \<open>BufferTooSmall\<close> with the length needed when the buffer is too short; a save stores, a
  delete removes.
\<close>

definition host_contract ::
  "'h callbacks \<Rightarrow> ('h \<Rightarrow> bytes option) \<Rightarrow> ('h \<Rightarrow> bytes option) \<Rightarrow> bool"
where
  "host_contract cbs rk rg \<longleftrightarrow> (\<exists>lk sk dk lr sr dr.
     cb_load_root_key cbs = Some lk \<and> cb_save_root_key cbs = Some sk \<and>
     cb_delete_root_key cbs = Some dk \<and> cb_load_registration cbs = Some lr \<and>
     cb_save_registration cbs = Some sr \<and> cb_delete_registration cbs = Some dr \<and>
     (\<forall>buf h. lk buf h = (case rk h of None \<Rightarrow> (NotFound, buf, h) | Some k \<Rightarrow> (Success, k, h))) \<and>
     (\<forall>k h. fst (sk k h) = Success \<and> rk (snd (sk k h)) = Some k \<and> rg (snd (sk k h)) = rg h) \<and>
     (\<forall>h. fst (dk h) \<in> {Success, NotFound} \<and> rk (snd (dk h)) = None \<and> rg (snd (dk h)) = rg h) \<and>
     (\<forall>buf n h. lr buf n h = (case rg h of None \<Rightarrow> (NotFound, buf, n, h)
        | Some b \<Rightarrow> if length b \<le> length buf then (Success, b @ drop (length b) buf, length b, h)
                    else (BufferTooSmall, buf, length b, h))) \<and>
     (\<forall>b h. fst (sr b h) = Success \<and> rg (snd (sr b h)) = Some b \<and> rk (snd (sr b h)) = rk h) \<and>
     (\<forall>h. fst (dr h) \<in> {Success, NotFound} \<and> rg (snd (dr h)) = None \<and> rk (snd (dr h)) = rk h))"

definition host_content ::
  "prims \<Rightarrow> ('h \<Rightarrow> bytes option) \<Rightarrow> ('h \<Rightarrow> bytes option) \<Rightarrow> 'h \<Rightarrow> persisted_node_state option"
where
  "host_content P rk rg h =
     (case rk h of None \<Rightarrow> None | Some k \<Rightarrow> Some (from_stored k
        (case rg h of None \<Rightarrow> None
         | Some b \<Rightarrow> (case deserialize_registration_opt P b of Ok reg \<Rightarrow> reg | _ \<Rightarrow> None))))"

text \<open>The outcome of a load that may not return, which counts as a panic.\<close>

definition returned :: "'h \<Rightarrow> (('a, 'e) result \<times> 'h) option \<Rightarrow> ('a, 'e) result \<times> 'h" where
  "returned h r = (case r of None \<Rightarrow> (Panic, h) | Some x \<Rightarrow> x)"

lemma length_resize [simp]: "length (resize n bs) = n"
  by (simp add: resize_def)

text \<open>Against such a host the loop ends after at most two rounds.\<close>

lemma contract_load_registration:
  assumes "host_contract cbs rk rg"
  shows "\<exists>h'. call_load_registration P cbs h = Some (Ok (case rg h of None \<Rightarrow> None
      | Some b \<Rightarrow> (case deserialize_registration_opt P b of Ok reg \<Rightarrow> reg | _ \<Rightarrow> None)), h') \<and>
    rk h' = rk h \<and> (rg h' = rg h \<or> rg h' = None \<and>
      (\<exists>b. rg h = Some b \<and> (\<forall>reg. deserialize_registration_opt P b \<noteq> Ok reg)))"
proof -
  from assms obtain lr dr where lr: "cb_load_registration cbs = Some lr"
    "\<And>buf n h. lr buf n h = (case rg h of None \<Rightarrow> (NotFound, buf, n, h)
        | Some b \<Rightarrow> if length b \<le> length buf then (Success, b @ drop (length b) buf, length b, h)
                    else (BufferTooSmall, buf, length b, h))"
    and dr: "cb_delete_registration cbs = Some dr" "\<And>h. rg (snd (dr h)) = None"
      "\<And>h. rk (snd (dr h)) = rk h"
    unfolding host_contract_def by blast
  have del: "rg (snd (call_delete_registration cbs h)) = None"
      "rk (snd (call_delete_registration cbs h)) = rk h" for h
    using dr(2,3) [of h] by (cases "dr h"; simp add: call_delete_registration_def pbind_def dr(1))+
  have hit: "\<exists>h'. load_registration_loop P cbs lr buf n h = Some (Ok
      (case deserialize_registration_opt P b of Ok reg \<Rightarrow> reg | _ \<Rightarrow> None), h') \<and>
      rk h' = rk h \<and> (rg h' = rg h \<or> rg h' = None \<and>
        (\<forall>reg. deserialize_registration_opt P b \<noteq> Ok reg))"
    if "rg h = Some b" "length b \<le> length buf" for buf n b
    using that del by (subst load_registration_loop.simps) (auto simp: lr(2) split: result.splits)
  show ?thesis
  proof (cases "rg h")
    case None
    then show ?thesis
        by (simp add: call_load_registration_def lr load_registration_loop.simps [where callback = lr])
  next
    case (Some b)
    show ?thesis
    proof (cases "length b \<le> INITIAL_REGISTRATION_BUFFER")
      case True
      then show ?thesis using hit [OF Some] Some by (simp add: call_load_registration_def lr)
    next
      case False
      then have "load_registration_loop P cbs lr (replicate INITIAL_REGISTRATION_BUFFER 0) 0 h =
          load_registration_loop P cbs lr
            (resize (length b) (replicate INITIAL_REGISTRATION_BUFFER 0)) (length b) h"
        using Some by (subst load_registration_loop.simps) (auto simp: lr(2))
      then show ?thesis
        using hit [OF Some, of "resize (length b) (replicate INITIAL_REGISTRATION_BUFFER 0)"] Some
        by (simp add: call_load_registration_def lr)
    qed
  qed
qed

lemma contract_load:
  assumes "host_contract cbs rk rg"
  shows "\<exists>h'. foreign_load P cbs h = Some (Ok (host_content P rk rg h), h') \<and>
    host_content P rk rg h' = host_content P rk rg h"
proof -
  from assms obtain lk where lk: "cb_load_root_key cbs = Some lk"
    "\<And>buf h. lk buf h = (case rk h of None \<Rightarrow> (NotFound, buf, h) | Some k \<Rightarrow> (Success, k, h))"
    unfolding host_contract_def by blast
  have key: "call_load_root_key cbs h = (Ok (rk h), h)"
    by (simp add: call_load_root_key_def pbind_def lk split: option.splits)
  obtain h' where "call_load_registration P cbs h = Some (Ok (case rg h of None \<Rightarrow> None
      | Some b \<Rightarrow> (case deserialize_registration_opt P b of Ok reg \<Rightarrow> reg | _ \<Rightarrow> None)), h')"
    "rk h' = rk h" "rg h' = rg h \<or> rg h' = None \<and>
      (\<exists>b. rg h = Some b \<and> (\<forall>reg. deserialize_registration_opt P b \<noteq> Ok reg))"
    using contract_load_registration [OF assms, of P h] by blast
  then show ?thesis
    by (cases "rk h") (auto simp: foreign_load_def key host_content_def split: result.splits)
qed

lemma contract_save:
  assumes "host_contract cbs rk rg" and "storable P p"
  shows "fst (foreign_save P cbs p h) = Ok () \<and>
    host_content P rk rg (snd (foreign_save P cbs p h)) = Some p"
proof -
  from assms(1) obtain sk sr where sk: "cb_save_root_key cbs = Some sk"
      "\<And>k h. fst (sk k h) = Success \<and> rk (snd (sk k h)) = Some k \<and> rg (snd (sk k h)) = rg h"
    and sr: "cb_save_registration cbs = Some sr"
      "\<And>b h. fst (sr b h) = Success \<and> rg (snd (sr b h)) = Some b \<and> rk (snd (sr b h)) = rk h"
    unfolding host_contract_def by blast
  obtain h1 where 1: "sk (ps_root_key p) h = (Success, h1)" "rk h1 = Some (ps_root_key p)"
    using sk(2) [of "ps_root_key p" h] by (cases "sk (ps_root_key p) h") simp
  let ?b = "serialize_registration_opt P (ps_registration p)"
  obtain h2 where 2: "sr ?b h1 = (Success, h2)" "rg h2 = Some ?b" "rk h2 = Some (ps_root_key p)"
    using sr(2) [of ?b h1] 1 by (cases "sr ?b h1") simp
  have run: "foreign_save P cbs p h = (Ok (), h2)"
    using 1 2 by (simp add: foreign_save_def call_save_root_key_def call_save_registration_def
        pbind_def sk(1) sr(1) status_result_def)
  have "deserialize_registration_opt P ?b = Ok (ps_registration p)"
    using assms(2) by (auto simp: deserialize_registration_opt_def serialize_registration_opt_def
        storable_def storable_registration_def deserialize_serialize split: option.splits)
  then have "host_content P rk rg h2 = Some p"
    using 2 by (cases p) (simp add: host_content_def from_stored_def)
  with run show ?thesis by simp
qed

lemma contract_delete:
  assumes "host_contract cbs rk rg"
  shows "fst (foreign_delete cbs h) = Ok () \<and>
    host_content P rk rg (snd (foreign_delete cbs h)) = None"
proof -
  from assms obtain dk dr where dk: "cb_delete_root_key cbs = Some dk"
      "\<And>h. fst (dk h) \<in> {Success, NotFound} \<and> rk (snd (dk h)) = None \<and> rg (snd (dk h)) = rg h"
    and dr: "cb_delete_registration cbs = Some dr"
      "\<And>h. fst (dr h) \<in> {Success, NotFound} \<and> rg (snd (dr h)) = None \<and> rk (snd (dr h)) = rk h"
    unfolding host_contract_def by blast
  obtain s1 h1 where 1: "dk h = (s1, h1)" "s1 \<in> {Success, NotFound}" "rk h1 = None"
    using dk(2) [of h] by (cases "dk h") simp
  obtain s2 h2 where 2: "dr h1 = (s2, h2)" "s2 \<in> {Success, NotFound}" "rk h2 = None"
    using dr(2) [of h1] 1 by (cases "dr h1") simp
  have "foreign_delete cbs h = (Ok (), h2)"
    using 1 2 by (simp add: foreign_delete_def call_delete_root_key_def
        call_delete_registration_def pbind_def dk(1) dr(1) status_result_def)
  then show ?thesis using 2 by (simp add: host_content_def)
qed

interpretation foreign: node_store "\<lambda>h. host_contract cbs rk rg" "host_content P rk rg"
  "storable P" "\<lambda>h. returned h (foreign_load P cbs h)" "foreign_save P cbs" "foreign_delete cbs"
  for P cbs rk rg
proof
  fix h p
  assume c: "host_contract cbs rk rg"
  obtain h' where h': "foreign_load P cbs h = Some (Ok (host_content P rk rg h), h')"
      "host_content P rk rg h' = host_content P rk rg h"
    using contract_load [OF c] by blast
  show "fst (returned h (foreign_load P cbs h)) = Ok (host_content P rk rg h)"
      "host_contract cbs rk rg \<and> host_content P rk rg (snd (returned h (foreign_load P cbs h)))
        = host_content P rk rg h"
    using c h' by (simp_all add: returned_def)
  show "fst (foreign_save P cbs p h) = Ok () \<and> host_contract cbs rk rg \<and>
      host_content P rk rg (snd (foreign_save P cbs p h)) = Some p" if "storable P p"
    using c contract_save [OF c that, of h] by simp
  show "fst (foreign_delete cbs h) = Ok () \<and> host_contract cbs rk rg \<and>
      host_content P rk rg (snd (foreign_delete cbs h)) = None"
    using c contract_delete [OF c, of h P] by simp
qed

text \<open>A host that asks for a larger buffer for ever keeps the loop running for ever.\<close>

definition insatiable :: "(bytes \<Rightarrow> nat \<Rightarrow> 'h \<Rightarrow> wispers_status \<times> bytes \<times> nat \<times> 'h) \<Rightarrow> bool" where
  "insatiable callback \<longleftrightarrow> (\<forall>buf n h. fst (callback buf n h) = BufferTooSmall \<and>
     fst (snd (snd (callback buf n h))) \<noteq> 0)"

lemma insatiable_loop:
  assumes "load_registration_loop P cbs callback buffer required h = Some y"
  shows "\<not> insatiable callback"
proof -
  have "\<not> insatiable (snd (fst (fst (fst (((((P, cbs), callback), buffer), required), h)))))"
  proof (rule load_registration_loop.raw_induct
      [where Pa = "\<lambda>t y. \<not> insatiable (snd (fst (fst (fst t))))", OF _ assms], goal_cases)
    case (1 loop P cbs callback buffer required h y)
    show ?case
    proof
      assume all: "insatiable (snd (fst (fst (fst (((((P, cbs), callback), buffer), required), h)))))"
      obtain st buf' n' h' where c: "callback buffer required h = (st, buf', n', h')"
        by (cases "callback buffer required h") auto
      then have "st = BufferTooSmall" "n' \<noteq> 0"
        using all unfolding insatiable_def fst_conv snd_conv by (metis fst_conv snd_conv)+
      with 1(2) c have "loop P cbs callback (resize n' buf') n' h' = Some y" by simp
      from 1(1) [OF this] all show False by simp
    qed
  qed
  then show ?thesis by simp
qed

subsection \<open>Properties\<close>

text \<open>A host over two cells, for the witnesses.\<close>

definition cell_host :: "(bytes option \<times> bytes option) callbacks" where
  "cell_host = \<lparr>
     cb_load_root_key = Some (\<lambda>buf h. case fst h of None \<Rightarrow> (NotFound, buf, h) | Some k \<Rightarrow> (Success, k, h)),
     cb_save_root_key = Some (\<lambda>k h. (Success, (Some k, snd h))),
     cb_delete_root_key = Some (\<lambda>h. (Success, (None, snd h))),
     cb_load_registration = Some (\<lambda>buf n h. case snd h of None \<Rightarrow> (NotFound, buf, n, h)
        | Some b \<Rightarrow> if length b \<le> length buf then (Success, b @ drop (length b) buf, length b, h)
                    else (BufferTooSmall, buf, length b, h)),
     cb_save_registration = Some (\<lambda>b h. (Success, (fst h, Some b))),
     cb_delete_registration = Some (\<lambda>h. (Success, (fst h, None)))\<rparr>"

lemma cell_host_contract: "host_contract cell_host fst snd"
  by (simp add: host_contract_def cell_host_def)

definition sample_registration :: node_registration where
  "sample_registration = new_registration ''group-123'' 7 ''token'' ''jwt''"

definition sample_persisted :: persisted_node_state where
  "sample_persisted = from_stored (replicate 32 5) (Some sample_registration)"

lemma sample_storable: "storable ref_prims sample_persisted"
proof -
  have "encode_registration ref_prims r \<noteq> []" if "pr_connectivity_group_id r = ''group-123''" for r
    using that by (simp add: ref_prims_def ref_encode_registration_def enc_str_def str_bytes_def)
  then show ?thesis
    by (simp add: storable_def sample_persisted_def sample_registration_def from_stored_def
        storable_registration_def serialize_registration_def new_registration_def ROOT_KEY_LEN_def)
qed

text \<open>
  C14: every store behaves as one cell.  On a healthy in-memory store, on a file store on
  which no file-system call fails, and on a foreign store whose host keeps the contract of
  the C header, a load after any sequence of loads, saves and deletes returns exactly what
  the last save or delete left, root key and registration included.
\<close>

theorem stores_refine_one_cell:
  assumes "\<not> ms_poisoned m" and "fs_healthy io f" and "host_contract cbs rk rg"
    and "\<forall>p. SaveCall p \<in> set calls \<longrightarrow> storable P p"
  shows "fst (mem_load (run_store mem_load mem_save mem_delete calls m))
      = Ok (abstract_store (ms_state m) calls) \<and>
    fst (file_load P io (run_store (file_load P io) (file_save P io) (file_delete io) calls f))
      = Ok (abstract_store (fs_content P f) calls) \<and>
    fst (returned h' (foreign_load P cbs (run_store (\<lambda>h. returned h (foreign_load P cbs h))
        (foreign_save P cbs) (foreign_delete cbs) calls h)))
      = Ok (abstract_store (host_content P rk rg h) calls)"
proof -
  let ?h = "run_store (\<lambda>h. returned h (foreign_load P cbs h)) (foreign_save P cbs)
    (foreign_delete cbs) calls h"
  have "fst (returned h' (foreign_load P cbs ?h)) = fst (returned ?h (foreign_load P cbs ?h))"
    using contract_load [OF assms(3), of P ?h] by (auto simp: returned_def)
  then show ?thesis
    using mem.load_after_run [of m calls] fstore.load_after_run [OF assms(2,4)]
      foreign.load_after_run [OF assms(3,4), of h] assms(1) by simp
qed

theorem stores_refine_one_cell_witness:
  "fst (returned (None, None) (foreign_load ref_prims cell_host
     (run_store (\<lambda>h. returned h (foreign_load ref_prims cell_host h))
       (foreign_save ref_prims cell_host) (foreign_delete cell_host)
       [DeleteCall, SaveCall sample_persisted, LoadCall] (None, None))))
   = Ok (Some sample_persisted)"
  using stores_refine_one_cell [of mem_new "\<lambda>_. None"
      "\<lparr>fs_dir = False, fs_root_key = None, fs_registration = None, fs_legacy = False\<rparr>"
      cell_host fst snd "[DeleteCall, SaveCall sample_persisted, LoadCall]" ref_prims
      "(None, None)" "(None, None)"]
  by (simp add: mem_new_def fs_healthy_def cell_host_contract sample_storable)

text \<open>
  Loading a registration from the host terminates when the host keeps its contract,
  and whether it terminates is up to the host: one that answers \<open>BufferTooSmall\<close> with a
  positive length every time keeps \<open>call_load_registration\<close> in its loop for ever.
\<close>

theorem foreign_load_termination:
  assumes "cb_load_registration cbs = Some callback"
  shows "(host_contract cbs rk rg \<longrightarrow> call_load_registration P cbs h \<noteq> None) \<and>
    (insatiable callback \<longrightarrow> call_load_registration P cbs h = None)"
proof -
  have "call_load_registration P cbs h = None" if "insatiable callback"
    using insatiable_loop [of P cbs callback _ 0 h] that assms
    by (cases "call_load_registration P cbs h") (auto simp: call_load_registration_def)
  then show ?thesis
    using contract_load_registration [of cbs rk rg P h] by auto
qed

theorem foreign_load_termination_witness:
  "call_load_registration ref_prims cell_host (None, Some (replicate 300 1)) \<noteq> None \<and>
   call_load_registration ref_prims (cell_host\<lparr>cb_load_registration :=
     Some (\<lambda>buf n h. (BufferTooSmall, buf, length buf + 1, h))\<rparr>) (None, None) = None"
proof -
  have "\<exists>cb. cb_load_registration cell_host = Some cb"
    by (simp add: cell_host_def)
  then show ?thesis
    using foreign_load_termination [of cell_host _ fst snd ref_prims "(None, Some (replicate 300 1))"]
      foreign_load_termination [of "cell_host\<lparr>cb_load_registration :=
        Some (\<lambda>buf n h. (BufferTooSmall, buf, length buf + 1, h))\<rparr>"
        "\<lambda>buf n h. (BufferTooSmall, buf, length buf + 1, h)" fst snd ref_prims "(None, None)"]
      cell_host_contract
    by (auto simp: insatiable_def)
qed

end
