(* ===== verification/Endorsing.thy ===== *)
theory Endorsing
  imports Node_Types Roster_Props "HOL-Library.AList" "HOL-Library.Multiset"
begin

text \<open>
  \<open>EndorsingState\<close> of \<open>wispers-connect/src/serving.rs\<close>: the outstanding activation codes
  and the endorsements that wait for the hub's cosign request.  Readings of the clock and
  random bytes are arguments; the \<open>HashMap\<close> of pending endorsements is an association list
  without duplicate keys, whose order carries no meaning.
\<close>

definition MAX_ACTIVE_ACTIVATIONS :: nat where
  "MAX_ACTIVE_ACTIVATIONS = 100"

record timed_secret =
  ts_secret :: pairing_secret
  ts_expires_at :: nat

record pending_endorsement =
  pe_new_node_pubkey :: bytes
  pe_new_node_nonce :: bytes
  pe_our_nonce :: bytes

record endorsing_state =
  es_ttl_override :: "duration option"
  es_pairing_secrets :: "timed_secret list"
  es_pending_endorsements :: "(i32 \<times> pending_endorsement) list"

record endorsing_status =
  et_codes_outstanding :: nat
  et_nodes_awaiting_cosign :: "i32 list"

definition endorsing_new :: endorsing_state where
  "endorsing_new = \<lparr>es_ttl_override = None, es_pairing_secrets = [], es_pending_endorsements = []\<rparr>"

definition prune_expired :: "nat \<Rightarrow> endorsing_state \<Rightarrow> endorsing_state" where
  "prune_expired now es =
     es\<lparr>es_pairing_secrets := filter (\<lambda>ts. now < ts_expires_at ts) (es_pairing_secrets es)\<rparr>"

definition endorsing_status_of :: "nat \<Rightarrow> endorsing_state \<Rightarrow> endorsing_status option" where
  "endorsing_status_of now es =
     (let codes = length (filter (\<lambda>ts. now < ts_expires_at ts) (es_pairing_secrets es));
          nodes = map fst (es_pending_endorsements es)
      in if codes = 0 \<and> nodes = [] then None
         else Some \<lparr>et_codes_outstanding = codes, et_nodes_awaiting_cosign = nodes\<rparr>)"

definition generate_activation_code_with_ttl ::
  "nat \<Rightarrow> nat \<Rightarrow> (nat \<Rightarrow> u8) \<Rightarrow> i32 \<Rightarrow> ttl_profile \<Rightarrow> endorsing_state \<Rightarrow>
   (pairing_code, serving_error) result \<times> endorsing_state"
where
  "generate_activation_code_with_ttl now now' rand node_number profile es =
     (let es = prune_expired now es in
      if length (es_pairing_secrets es) + length (es_pending_endorsements es) \<ge> MAX_ACTIVE_ACTIVATIONS
      then (Err TooManyActivationSessions, es)
      else let life = (case es_ttl_override es of Some d \<Rightarrow> d | None \<Rightarrow> ttl profile);
               secret = generate_secret rand profile;
               code = \<lparr>pc_node_number = node_number, pc_secret = secret\<rparr>
           in (Ok code, es\<lparr>es_pairing_secrets := es_pairing_secrets es @
                 [\<lparr>ts_secret = secret, ts_expires_at = now' + life\<rparr>]\<rparr>))"

text \<open>\<open>Iterator::position\<close> and \<open>Vec::swap_remove\<close>.\<close>

fun position :: "('a \<Rightarrow> bool) \<Rightarrow> 'a list \<Rightarrow> nat option" where
  "position p [] = None"
| "position p (x # xs) = (if p x then Some 0 else map_option Suc (position p xs))"

definition swap_remove :: "nat \<Rightarrow> 'a list \<Rightarrow> 'a list" where
  "swap_remove i xs = (if i = length xs - 1 then butlast xs else (butlast xs)[i := last xs])"

definition pair_nodes ::
  "prims \<Rightarrow> nat \<Rightarrow> (nat \<Rightarrow> u8) \<Rightarrow> pair_nodes_message \<Rightarrow> i32 \<Rightarrow> signing_seed \<Rightarrow> endorsing_state \<Rightarrow>
   (pair_nodes_message, string) result \<times> endorsing_state"
where
  "pair_nodes P now rand msg node_number signing_key es =
     (case pm_payload msg of
        None \<Rightarrow> (Err ''PairNodesMessage missing payload'', es)
      | Some payload \<Rightarrow>
          let es = prune_expired now es;
              payload_bytes = encode_pair_payload P payload
          in (case position (\<lambda>ts. verify_mac P (ts_secret ts) payload_bytes (pm_mac msg))
                     (es_pairing_secrets es) of
                None \<Rightarrow> (if es_pairing_secrets es = [] then (Err ''no active pairing session'', es)
                         else (Err ''MAC verification failed'', es))
              | Some i \<Rightarrow>
                  let secret = ts_secret (es_pairing_secrets es ! i);
                      our_nonce = generate_nonce rand;
                      reply_payload = \<lparr>pp_sender_node_number = node_number,
                        pp_receiver_node_number = pp_sender_node_number payload,
                        pp_public_key_spki = public_key_spki P signing_key,
                        pp_nonce = our_nonce, pp_reply_nonce = pp_nonce payload\<rparr>
                  in (Ok \<lparr>pm_payload = Some reply_payload,
                          pm_mac = compute_mac P secret (encode_pair_payload P reply_payload)\<rparr>,
                      es\<lparr>es_pairing_secrets := swap_remove i (es_pairing_secrets es),
                         es_pending_endorsements := AList.update (pp_sender_node_number payload)
                           \<lparr>pe_new_node_pubkey = pp_public_key_spki payload,
                            pe_new_node_nonce = pp_nonce payload, pe_our_nonce = our_nonce\<rparr>
                           (es_pending_endorsements es)\<rparr>)))"

text \<open>The latest addendum, if it is an activation.\<close>

definition latest_activation :: "roster \<Rightarrow> activation option" where
  "latest_activation r =
     (if ro_addenda r = [] then None
      else case add_kind (last (ro_addenda r)) of Some (Activation act) \<Rightarrow> Some act | _ \<Rightarrow> None)"

text \<open>The checks of a cosign request and the signature, as the code orders them.\<close>

definition cosign_answer ::
  "prims \<Rightarrow> roster_cosign_request \<Rightarrow> i32 \<Rightarrow> i32 \<Rightarrow> signing_seed \<Rightarrow> endorsing_state \<Rightarrow>
   (roster_cosign_response, string) result"
where
  "cosign_answer P req new_node_number node_number signing_key es =
     rbind (ok_or (''no pending endorsement for node '' @ int_to_string (sint new_node_number))
       (map_of (es_pending_endorsements es) new_node_number)) (\<lambda>pending.
     rbind (ok_or ''missing roster'' (rc_new_roster req)) (\<lambda>r.
     rbind (ok_or ''no activation addendum'' (latest_activation r)) (\<lambda>act.
     rbind (ok_or ''activation missing payload'' (act_payload act)) (\<lambda>p.
     rbind (check (ap_new_node_nonce p = pe_new_node_nonce pending)
       ''new node nonce mismatch'') (\<lambda>_.
     rbind (check (ap_endorser_nonce p = pe_our_nonce pending)
       ''endorser nonce mismatch'') (\<lambda>_.
     rbind (check (ap_endorser_node_number p = node_number)
       ''wrong endorser node number'') (\<lambda>_.
     rbind (ok_or ''new node not in roster'' (find_node new_node_number (ro_nodes r))) (\<lambda>n.
     rbind (check (rn_public_key_spki n = pe_new_node_pubkey pending)
       ''nodes list new_node key does not match paired key'') (\<lambda>_.
     rbind (ok_or ''endorser not in roster'' (find_node node_number (ro_nodes r))) (\<lambda>e.
     rbind (check (rn_public_key_spki e = public_key_spki P signing_key)
       ''nodes list endorser key does not match our own key'') (\<lambda>_.
     Ok \<lparr>rc_endorser_signature = sign P signing_key
          (compute_signing_hash P (clear_latest_addendum_signatures r))\<rparr>)))))))))))"

definition roster_cosign ::
  "prims \<Rightarrow> roster_cosign_request \<Rightarrow> i32 \<Rightarrow> signing_seed \<Rightarrow> endorsing_state \<Rightarrow>
   (roster_cosign_response, string) result \<times> endorsing_state"
where
  "roster_cosign P req node_number signing_key es =
     (let new_node_number = (ucast (rc_new_node_number req) :: i32);
          answer = cosign_answer P req new_node_number node_number signing_key es
      in (answer, (case answer of
            Ok _ \<Rightarrow> es\<lparr>es_pending_endorsements :=
                      AList.delete new_node_number (es_pending_endorsements es)\<rparr>
          | _ \<Rightarrow> es)))"

subsection \<open>Lists\<close>

lemma position_Some:
  "position p xs = Some i \<Longrightarrow> i < length xs \<and> p (xs ! i) \<and> (\<forall>j < i. \<not> p (xs ! j))"
proof (induction xs arbitrary: i)
  case (Cons x xs)
  then show ?case by (auto split: if_splits simp: less_Suc_eq_0_disj)
qed simp

lemma position_None: "position p xs = None \<longleftrightarrow> (\<forall>x \<in> set xs. \<not> p x)"
  by (induction xs) auto

lemma mset_swap_remove:
  assumes "i < length xs"
  shows "mset (swap_remove i xs) = mset xs - {# xs ! i #}"
proof -
  obtain ys y where xs: "xs = ys @ [y]" using assms by (cases xs rule: rev_cases) auto
  show ?thesis
  proof (cases "i = length ys")
    case False
    then have "i < length ys" using assms xs by simp
    then show ?thesis
      by (simp add: swap_remove_def xs mset_update nth_append add_mset_commute)
  qed (simp add: swap_remove_def xs)
qed

lemma length_swap_remove: "i < length xs \<Longrightarrow> length (swap_remove i xs) = length xs - 1"
  by (simp add: swap_remove_def)

lemma set_swap_remove: "i < length xs \<Longrightarrow> set (swap_remove i xs) \<subseteq> set xs"
proof
  fix x assume "i < length xs" "x \<in> set (swap_remove i xs)"
  then have "x \<in># mset xs - {# xs ! i #}" by (simp add: mset_swap_remove [symmetric])
  then show "x \<in> set xs" by (auto dest: in_diffD)
qed

lemma length_alist_update: "length (AList.update k v al) \<le> Suc (length al)"
  by (induction al) auto

lemma length_alist_delete: "length (AList.delete k al) \<le> length al"
  by (simp add: AList.delete_eq)

lemmas prune_simps [simp] = prune_expired_def

subsection \<open>Capacity\<close>

definition endorsing_inv :: "endorsing_state \<Rightarrow> bool" where
  "endorsing_inv es \<longleftrightarrow>
     length (es_pairing_secrets es) + length (es_pending_endorsements es) \<le> MAX_ACTIVE_ACTIVATIONS \<and>
     distinct (map fst (es_pending_endorsements es))"

datatype endorsing_event =
    Generate nat nat "nat \<Rightarrow> u8" i32 ttl_profile
  | Pair nat "nat \<Rightarrow> u8" pair_nodes_message i32 signing_seed
  | Cosign roster_cosign_request i32 signing_seed

fun endorsing_step :: "prims \<Rightarrow> endorsing_event \<Rightarrow> endorsing_state \<Rightarrow> endorsing_state" where
  "endorsing_step P (Generate now now' rand n profile) es =
     snd (generate_activation_code_with_ttl now now' rand n profile es)"
| "endorsing_step P (Pair now rand msg n sk) es = snd (pair_nodes P now rand msg n sk es)"
| "endorsing_step P (Cosign req n sk) es = snd (roster_cosign P req n sk es)"

lemma filter_le: "length xs + k \<le> m \<Longrightarrow> length (filter p xs) + k \<le> m"
  using length_filter_le [of p xs] by linarith

lemma generate_inv:
  "endorsing_inv es \<Longrightarrow> endorsing_inv (snd (generate_activation_code_with_ttl now now' rand n profile es))"
  using filter_le [of "es_pairing_secrets es" "length (es_pending_endorsements es)"
      MAX_ACTIVE_ACTIVATIONS "\<lambda>ts. now < ts_expires_at ts"]
  by (auto simp: generate_activation_code_with_ttl_def Let_def endorsing_inv_def)

lemma pair_nodes_inv:
  assumes "endorsing_inv es"
  shows "endorsing_inv (snd (pair_nodes P now rand msg n sk es))"
proof (cases "pm_payload msg")
  case (Some payload)
  let ?s = "filter (\<lambda>ts. now < ts_expires_at ts) (es_pairing_secrets es)"
  let ?pos = "position (\<lambda>ts. verify_mac P (ts_secret ts) (encode_pair_payload P payload) (pm_mac msg)) ?s"
  have s: "length ?s + length (es_pending_endorsements es) \<le> MAX_ACTIVE_ACTIVATIONS"
    using assms by (auto simp: endorsing_inv_def intro: filter_le)
  show ?thesis
  proof (cases ?pos)
    case None
    then show ?thesis using s assms Some
      by (simp add: pair_nodes_def Let_def endorsing_inv_def)
  next
    case (Some i)
    from position_Some [OF this] have i: "i < length ?s" by blast
    then have "length (swap_remove i ?s) + length (AList.update k v (es_pending_endorsements es))
        \<le> MAX_ACTIVE_ACTIVATIONS" for k v
      using s length_alist_update [of k v "es_pending_endorsements es"]
      using i by (simp add: length_swap_remove [OF i])
    then show ?thesis
      using assms Some \<open>pm_payload msg = Some payload\<close>
      by (simp add: pair_nodes_def Let_def endorsing_inv_def distinct_update del: verify_mac_iff)
  qed
qed (simp add: assms pair_nodes_def)

lemma delete_inv:
  "endorsing_inv es \<Longrightarrow> endorsing_inv
     (es\<lparr>es_pending_endorsements := AList.delete n (es_pending_endorsements es)\<rparr>)"
  using length_alist_delete [of n "es_pending_endorsements es"]
  by (simp add: endorsing_inv_def distinct_delete)

lemma roster_cosign_inv:
  "endorsing_inv es \<Longrightarrow> endorsing_inv (snd (roster_cosign P req n sk es))"
  by (simp add: roster_cosign_def Let_def delete_inv split: result.splits)

interpretation endorsing: event_machine endorsing_inv "endorsing_step P" for P
proof
  fix es e
  assume "endorsing_inv es"
  then show "endorsing_inv (endorsing_step P e es)"
    by (cases e) (simp_all add: generate_inv pair_nodes_inv roster_cosign_inv)
qed

lemma endorsing_inv_new: "endorsing_inv endorsing_new"
  by (simp add: endorsing_inv_def endorsing_new_def)

subsection \<open>Pairing\<close>

lemma pair_nodes_Ok:
  assumes "pair_nodes P now rand msg n sk es = (Ok reply, es')"
  obtains payload i where "pm_payload msg = Some payload"
    "position (\<lambda>ts. verify_mac P (ts_secret ts) (encode_pair_payload P payload) (pm_mac msg))
       (filter (\<lambda>ts. now < ts_expires_at ts) (es_pairing_secrets es)) = Some i"
    "es' = es\<lparr>es_pairing_secrets := swap_remove i
         (filter (\<lambda>ts. now < ts_expires_at ts) (es_pairing_secrets es)),
       es_pending_endorsements := AList.update (pp_sender_node_number payload)
         \<lparr>pe_new_node_pubkey = pp_public_key_spki payload, pe_new_node_nonce = pp_nonce payload,
          pe_our_nonce = generate_nonce rand\<rparr> (es_pending_endorsements es)\<rparr>"
    "reply = (let rp = \<lparr>pp_sender_node_number = n,
         pp_receiver_node_number = pp_sender_node_number payload,
         pp_public_key_spki = public_key_spki P sk, pp_nonce = generate_nonce rand,
         pp_reply_nonce = pp_nonce payload\<rparr> in
       \<lparr>pm_payload = Some rp, pm_mac = compute_mac P (ts_secret ((filter (\<lambda>ts. now < ts_expires_at ts)
           (es_pairing_secrets es)) ! i)) (encode_pair_payload P rp)\<rparr>)"
proof (cases "pm_payload msg")
  case (Some payload)
  then show ?thesis
    using assms that [OF Some]
    by (auto simp: pair_nodes_def Let_def simp del: verify_mac_iff split: option.splits if_splits)
qed (use assms in \<open>simp add: pair_nodes_def\<close>)

lemma pair_nodes_first_match:
  assumes "pm_payload msg = Some payload"
    and "position (\<lambda>ts. verify_mac P (ts_secret ts) (encode_pair_payload P payload) (pm_mac msg))
      (filter (\<lambda>ts. now < ts_expires_at ts) (es_pairing_secrets es)) = Some i"
  shows "\<exists>reply es'. pair_nodes P now rand msg n sk es = (Ok reply, es') \<and>
    pm_payload reply = Some \<lparr>pp_sender_node_number = n,
      pp_receiver_node_number = pp_sender_node_number payload,
      pp_public_key_spki = public_key_spki P sk, pp_nonce = generate_nonce rand,
      pp_reply_nonce = pp_nonce payload\<rparr>"
  using assms by (simp add: pair_nodes_def Let_def del: verify_mac_iff)

text \<open>
  The endorser's memory is bounded.  Whatever codes are requested and whatever the hub
  sends, the outstanding codes and the pending endorsements together never exceed 100, and
  a node number has at most one pending endorsement.
\<close>

theorem endorsing_capacity:
  "length (es_pairing_secrets (run_events (endorsing_step P) evs endorsing_new)) +
     length (es_pending_endorsements (run_events (endorsing_step P) evs endorsing_new))
     \<le> MAX_ACTIVE_ACTIVATIONS \<and>
   distinct (map fst (es_pending_endorsements (run_events (endorsing_step P) evs endorsing_new)))"
  using endorsing.run_inv [OF endorsing_inv_new, of P evs] by (simp only: endorsing_inv_def)

text \<open>
  C11: a code pairs one node, once, in its lifetime.  When a pairing message is accepted, it
  carries the authentication code of a secret that was issued and has not expired, exactly
  that one secret is consumed, and the message's sender is what becomes pending.
\<close>

theorem pairing_consumes_one_live_code:
  assumes "pair_nodes P now rand msg n sk es = (Ok reply, es')"
  shows "\<exists>payload ts. pm_payload msg = Some payload \<and> ts \<in> set (es_pairing_secrets es) \<and>
    now < ts_expires_at ts \<and>
    pm_mac msg = compute_mac P (ts_secret ts) (encode_pair_payload P payload) \<and>
    mset (es_pairing_secrets es') =
      mset (filter (\<lambda>t. now < ts_expires_at t) (es_pairing_secrets es)) - {# ts #} \<and>
    map_of (es_pending_endorsements es') (pp_sender_node_number payload) =
      Some \<lparr>pe_new_node_pubkey = pp_public_key_spki payload, pe_new_node_nonce = pp_nonce payload,
            pe_our_nonce = generate_nonce rand\<rparr>"
proof -
  let ?s = "filter (\<lambda>ts. now < ts_expires_at ts) (es_pairing_secrets es)"
  from pair_nodes_Ok [OF assms] obtain payload i where p: "pm_payload msg = Some payload"
      "position (\<lambda>ts. verify_mac P (ts_secret ts) (encode_pair_payload P payload) (pm_mac msg)) ?s = Some i"
    and es': "es' = es\<lparr>es_pairing_secrets := swap_remove i ?s,
       es_pending_endorsements := AList.update (pp_sender_node_number payload)
         \<lparr>pe_new_node_pubkey = pp_public_key_spki payload, pe_new_node_nonce = pp_nonce payload,
          pe_our_nonce = generate_nonce rand\<rparr> (es_pending_endorsements es)\<rparr>" by metis
  note i = position_Some [OF p(2)]
  then have "?s ! i \<in> set ?s" by (simp only: nth_mem)
  then show ?thesis
    using i p(1) by (intro exI [of _ payload] exI [of _ "?s ! i"])
      (simp add: es' mset_swap_remove update_conv')
qed

theorem pairing_consumes_one_live_code_witness:
  "es_pairing_secrets (snd (pair_nodes ref_prims 5 (\<lambda>i. 1)
     \<lparr>pm_payload = Some \<lparr>pp_sender_node_number = 2, pp_receiver_node_number = 1,
        pp_public_key_spki = [48, 2], pp_nonce = [7], pp_reply_nonce = []\<rparr>,
      pm_mac = compute_mac ref_prims [3] (encode_pair_payload ref_prims
        \<lparr>pp_sender_node_number = 2, pp_receiver_node_number = 1,
         pp_public_key_spki = [48, 2], pp_nonce = [7], pp_reply_nonce = []\<rparr>)\<rparr> 1 [1]
     (endorsing_new\<lparr>es_pairing_secrets := [\<lparr>ts_secret = [3], ts_expires_at = 50\<rparr>]\<rparr>))) = []"
proof -
  let ?p = "\<lparr>pp_sender_node_number = 2, pp_receiver_node_number = 1,
    pp_public_key_spki = [48, 2], pp_nonce = [7], pp_reply_nonce = []\<rparr> :: pair_payload"
  let ?m = "\<lparr>pm_payload = Some ?p, pm_mac = compute_mac ref_prims [3] (encode_pair_payload ref_prims ?p)\<rparr>"
  let ?es = "endorsing_new\<lparr>es_pairing_secrets := [\<lparr>ts_secret = [3], ts_expires_at = 50\<rparr>]\<rparr>"
  obtain reply es' where r: "pair_nodes ref_prims 5 (\<lambda>i. 1) ?m 1 [1] ?es = (Ok reply, es')"
    using pair_nodes_first_match [of ?m ?p ref_prims 5 ?es 0 "\<lambda>i. 1" 1 "[1]"] by auto
  obtain ts where "ts \<in> set (es_pairing_secrets ?es)" "mset (es_pairing_secrets es') =
      mset (filter (\<lambda>t. 5 < ts_expires_at t) (es_pairing_secrets ?es)) - {# ts #}"
    using pairing_consumes_one_live_code [OF r] by blast
  then show ?thesis using r by auto
qed

text \<open>
  A fresh code works.  When an endorser without other codes issues a code, a message
  that a new node authenticates with the code's secret before it expires is accepted, and
  the reply passes the new node's checks: it is authenticated by the same secret, addressed
  to the new node and carries the nonce of the request.
\<close>

theorem fresh_code_pairs:
  assumes gen: "generate_activation_code_with_ttl now now' rand n profile es = (Ok code, es1)"
    and es: "es_pairing_secrets es = []" "es_ttl_override es = None"
    and live: "t < now' + ttl profile"
    and msg: "msg = \<lparr>pm_payload = Some payload,
      pm_mac = compute_mac P (pc_secret code) (encode_pair_payload P payload)\<rparr>"
  shows "\<exists>reply es2 rp. pair_nodes P t rand' msg n sk es1 = (Ok reply, es2) \<and>
    pm_payload reply = Some rp \<and>
    verify_mac P (pc_secret code) (encode_pair_payload P rp) (pm_mac reply) \<and>
    pp_receiver_node_number rp = pp_sender_node_number payload \<and>
    pp_reply_nonce rp = pp_nonce payload \<and> pp_public_key_spki rp = public_key_spki P sk \<and>
    es_pairing_secrets es2 = []"
proof -
  have es1: "es_pairing_secrets es1 =
      [\<lparr>ts_secret = pc_secret code, ts_expires_at = now' + ttl profile\<rparr>]"
    using gen es by (auto simp: generate_activation_code_with_ttl_def Let_def split: if_splits)
  show ?thesis
    using live by (simp add: pair_nodes_def Let_def es1 msg swap_remove_def)
qed

theorem fresh_code_pairs_witness:
  "\<exists>reply es2. pair_nodes ref_prims 5 (\<lambda>i. 1)
     \<lparr>pm_payload = Some \<lparr>pp_sender_node_number = 2, pp_receiver_node_number = 1,
        pp_public_key_spki = [48, 2], pp_nonce = [7], pp_reply_nonce = []\<rparr>,
      pm_mac = compute_mac ref_prims (replicate 7 3) (encode_pair_payload ref_prims
        \<lparr>pp_sender_node_number = 2, pp_receiver_node_number = 1,
         pp_public_key_spki = [48, 2], pp_nonce = [7], pp_reply_nonce = []\<rparr>)\<rparr> 1 [1]
     (snd (generate_activation_code_with_ttl 0 0 (\<lambda>i. 3) 1 Interactive endorsing_new))
   = (Ok reply, es2)"
proof -
  have s: "generate_secret (\<lambda>i. 3) Interactive = replicate 7 3"
    by (simp add: generate_secret_def fill_bytes_def upt_rec numeral_eq_Suc)
  have g: "generate_activation_code_with_ttl 0 0 (\<lambda>i. 3) 1 Interactive endorsing_new =
      (Ok \<lparr>pc_node_number = 1, pc_secret = replicate 7 3\<rparr>,
       snd (generate_activation_code_with_ttl 0 0 (\<lambda>i. 3) 1 Interactive endorsing_new))"
    by (simp add: generate_activation_code_with_ttl_def Let_def endorsing_new_def
        MAX_ACTIVE_ACTIVATIONS_def s)
  have l: "(5 :: nat) < 0 + ttl Interactive" by (simp add: from_secs_def)
  show ?thesis
    using fresh_code_pairs [OF g _ _ l, of
        "\<lparr>pm_payload = Some \<lparr>pp_sender_node_number = 2, pp_receiver_node_number = 1,
          pp_public_key_spki = [48, 2], pp_nonce = [7], pp_reply_nonce = []\<rparr>,
         pm_mac = compute_mac ref_prims (replicate 7 3) (encode_pair_payload ref_prims
          \<lparr>pp_sender_node_number = 2, pp_receiver_node_number = 1,
           pp_public_key_spki = [48, 2], pp_nonce = [7], pp_reply_nonce = []\<rparr>)\<rparr>"
        "\<lparr>pp_sender_node_number = 2, pp_receiver_node_number = 1,
          pp_public_key_spki = [48, 2], pp_nonce = [7], pp_reply_nonce = []\<rparr>"
        ref_prims "\<lambda>i. 1" "[1]"]
    by (simp add: endorsing_new_def) blast
qed

subsection \<open>Cosigning\<close>

lemma cosign_Ok:
  assumes "roster_cosign P req me sk es = (Ok resp, es')"
  obtains pending r act p n e where
    "map_of (es_pending_endorsements es) (ucast (rc_new_node_number req)) = Some pending"
    "rc_new_roster req = Some r" "latest_activation r = Some act" "act_payload act = Some p"
    "ap_new_node_nonce p = pe_new_node_nonce pending" "ap_endorser_nonce p = pe_our_nonce pending"
    "ap_endorser_node_number p = me"
    "find_node (ucast (rc_new_node_number req)) (ro_nodes r) = Some n"
    "rn_public_key_spki n = pe_new_node_pubkey pending"
    "find_node me (ro_nodes r) = Some e" "rn_public_key_spki e = public_key_spki P sk"
    "resp = \<lparr>rc_endorser_signature = sign P sk
       (compute_signing_hash P (clear_latest_addendum_signatures r))\<rparr>"
    "es' = es\<lparr>es_pending_endorsements :=
       AList.delete (ucast (rc_new_node_number req)) (es_pending_endorsements es)\<rparr>"
proof -
  have a: "cosign_answer P req (ucast (rc_new_node_number req)) me sk es = Ok resp"
    and s: "es' = es\<lparr>es_pending_endorsements :=
       AList.delete (ucast (rc_new_node_number req)) (es_pending_endorsements es)\<rparr>"
    using assms by (auto simp: roster_cosign_def Let_def)
  show ?thesis
    using a s that by (auto simp: cosign_answer_def rust_simps)
qed

text \<open>
  A cosign request for an activation of \<open>n\<close> that names the pending node \<open>k\<close>, and the
  endorser's answer to it.
\<close>

lemma cosign_answers:
  assumes n: "n \<notin> set (node_numbers r0)"
    and e: "find_node me (ro_nodes r0) = Some e" "rn_public_key_spki e = spki_of P sk"
    and p: "p = build_activation_payload r0 n me nn en"
    and r: "r = add_activation_to_roster r0 p (spki_of P nsk)"
    and h: "h = compute_signing_hash P r"
    and pending: "map_of (es_pending_endorsements es) k = Some
      \<lparr>pe_new_node_pubkey = paired, pe_new_node_nonce = nn, pe_our_nonce = en\<rparr>"
    and k: "k = n \<and> paired = spki_of P nsk \<or>
      (\<exists>x. find_node k (ro_nodes r0) = Some x \<and> rn_public_key_spki x = paired)"
  shows "roster_cosign P \<lparr>rc_new_node_number = scast k,
      rc_new_roster = Some (with_last r (signed_activation p ns []))\<rparr> me sk es =
    (Ok \<lparr>rc_endorser_signature = ed_sign P sk h\<rparr>,
     es\<lparr>es_pending_endorsements := AList.delete k (es_pending_endorsements es)\<rparr>)"
proof -
  let ?r1 = "with_last r (signed_activation p ns [])"
  have last: "ro_addenda r = ro_addenda r0 @ [signed_activation p [] []]"
    by (simp add: r unsigned_is_signed)
  have c: "clear_latest_addendum_signatures ?r1 = r"
    by (rule clear_latest_with_last [OF last])
  have la: "latest_activation ?r1 = Some \<lparr>act_payload = Some p, act_new_node_signature = ns,
      act_endorser_signature = []\<rparr>"
    by (simp add: latest_activation_def signed_activation_def)
  have p': "ap_new_node_nonce p = nn" "ap_endorser_nonce p = en" "ap_endorser_node_number p = me"
      "ap_new_node_number p = n"
    by (simp_all add: p build_activation_payload_def)
  have fn: "\<exists>x. find_node k (ro_nodes r) = Some x \<and> rn_public_key_spki x = paired"
    using k
  proof
    assume "k = n \<and> paired = spki_of P nsk"
    then show ?thesis
      using n by (auto simp: r p' find_node_def find_append find_None
          not_in_numbers split: option.splits dest: find_SomeD)
  qed (auto simp: r find_node_def find_append)
  have fe: "find_node me (ro_nodes r) = Some e"
    using e(1) by (simp add: r find_node_def find_append)
  have u: "(ucast (scast k :: i64) :: i32) = k"
    by (rule bit_word_eqI) (simp add: bit_simps)
  have "public_key_spki P sk = spki_of P sk"
    by (simp add: public_key_spki_def spki_of_def)
  with fn show ?thesis
    using e(2) by (auto simp: roster_cosign_def cosign_answer_def Let_def u pending la fe c h
        sign_def p')
qed



text \<open>
  The endorsement ceremony succeeds.  When the roster that the hub asks to cosign is the
  activation of the paired node that the new node built and signed, the endorser signs it,
  and with that signature filled in both nodes accept the roster.
\<close>

theorem endorsement_completes:
  assumes P: "ed25519_correct P" and ok: "verify_roster P r0 me (spki_of P sk) = Ok keys"
    and e: "find_node me (ro_nodes r0) = Some e" "rn_public_key_spki e = spki_of P sk"
    and n: "n \<notin> set (node_numbers r0)" and len: "length (ro_addenda r0) + 1 < 2 ^ 63"
    and p: "p = build_activation_payload r0 n me nn en"
    and r: "r = add_activation_to_roster r0 p (spki_of P nsk)"
    and ns: "ns = ed_sign P nsk (compute_signing_hash P r)"
    and pending: "map_of (es_pending_endorsements es) n = Some
      \<lparr>pe_new_node_pubkey = spki_of P nsk, pe_new_node_nonce = nn, pe_our_nonce = en\<rparr>"
  shows "\<exists>resp es'. roster_cosign P \<lparr>rc_new_node_number = scast n,
      rc_new_roster = Some (with_last r (signed_activation p ns []))\<rparr> me sk es = (Ok resp, es') \<and>
    (\<forall>(m, msk) \<in> {(n, nsk), (me, sk)}.
      verify_roster P (with_last r (signed_activation p ns (rc_endorser_signature resp))) m
        (spki_of P msk) = Ok (keys(n \<mapsto> ed_verifying_key P nsk)))"
proof -
  from ok have r0: "valid_history P r0" "active_keys P r0 me = Some (ed_verifying_key P sk)"
      "keys = active_keys P r0"
    using spki_of_decodes [OF P] by (auto simp: verify_roster_Ok_iff)
  note c = cosign_answers [OF n e p r refl pending, of ns]
  note h = activation_history [OF P r0(1,2) n p r refl, folded ns]
  have "n \<noteq> me"
    using n keys_of_in_numbers r0(2) by (fastforce simp: active_keys_def node_numbers_def)
  moreover have "length (ro_addenda r) < 2 ^ 63" using len by (simp add: r)
  ultimately show ?thesis
    using c h r0 spki_of_decodes [OF P] by (auto simp: verify_roster_Ok_iff r)
qed

theorem endorsement_completes_witness:
  "\<exists>resp es'. roster_cosign ref_prims \<lparr>rc_new_node_number = scast (3 :: i32),
      rc_new_roster = Some (with_last sample_third (signed_activation sample_third_payload
        (ref_sign [3] (compute_signing_hash ref_prims sample_third)) []))\<rparr> 1 [1]
      (endorsing_new\<lparr>es_pending_endorsements := [(3, \<lparr>pe_new_node_pubkey = [48, 3],
         pe_new_node_nonce = [5], pe_our_nonce = [6]\<rparr>)]\<rparr>) = (Ok resp, es')"
proof -
  have v: "verify_roster ref_prims sample_group 1 (spki_of ref_prims [1]) = Ok [1 \<mapsto> [1], 2 \<mapsto> [2]]"
    using sample_verifies by simp
  have f: "find_node 1 (ro_nodes sample_group) = Some (fresh_node 1 [48, 1])"
    by (simp add: sample_group_def sample_unsigned_def sample_payload_def find_node_def
        build_activation_payload_def)
  have n: "3 \<notin> set (node_numbers sample_group)" "length (ro_addenda sample_group) + 1 < 2 ^ 63"
    by (simp_all add: sample_shape)
  show ?thesis
    using endorsement_completes [OF ref_ed25519_correct v f _ n sample_third_payload_def
        sample_third_def refl, of "endorsing_new\<lparr>es_pending_endorsements :=
          [(3, \<lparr>pe_new_node_pubkey = [48, 3], pe_new_node_nonce = [5], pe_our_nonce = [6]\<rparr>)]\<rparr>"]
    by (simp only: ref_spki_of ref_prims_simps) fastforce
qed

text \<open>
  C36: the endorser does not check whom the activation activates.  The cosign request names
  the paired node, but the activation's own node number is never compared with it: when
  some node that is already in the group pairs again, a hub can have the endorser cosign
  the activation of any other number under a key of the hub's own, and the endorser accepts
  the result as a valid roster in which the hub's node is active.
\<close>

theorem cosign_admits_a_node_that_never_paired:
  assumes P: "ed25519_correct P" and ok: "verify_roster P r0 me (spki_of P sk) = Ok keys"
    and e: "find_node me (ro_nodes r0) = Some e" "rn_public_key_spki e = spki_of P sk"
    and len: "length (ro_addenda r0) + 1 < 2 ^ 63"
    and paired: "find_node k (ro_nodes r0) = Some x"
      "map_of (es_pending_endorsements es) k = Some \<lparr>pe_new_node_pubkey = rn_public_key_spki x,
        pe_new_node_nonce = nn, pe_our_nonce = en\<rparr>"
    and rogue: "n \<notin> set (node_numbers r0)" "n \<noteq> k"
    and p: "p = build_activation_payload r0 n me nn en"
    and r: "r = add_activation_to_roster r0 p (spki_of P hub_seed)"
    and ns: "ns = ed_sign P hub_seed (compute_signing_hash P r)"
  shows "\<exists>resp es'. roster_cosign P \<lparr>rc_new_node_number = scast k,
      rc_new_roster = Some (with_last r (signed_activation p ns []))\<rparr> me sk es = (Ok resp, es') \<and>
    verify_roster P (with_last r (signed_activation p ns (rc_endorser_signature resp))) me
      (spki_of P sk) = Ok (keys(n \<mapsto> ed_verifying_key P hub_seed))"
proof -
  from ok have r0: "valid_history P r0" "active_keys P r0 me = Some (ed_verifying_key P sk)"
      "keys = active_keys P r0"
    using spki_of_decodes [OF P] by (auto simp: verify_roster_Ok_iff)
  note c = cosign_answers [OF rogue(1) e p r refl paired(2), of ns]
  note h = activation_history [OF P r0(1,2) rogue(1) p r refl, folded ns]
  have "n \<noteq> me"
    using rogue(1) keys_of_in_numbers r0(2) by (fastforce simp: active_keys_def node_numbers_def)
  moreover have "length (ro_addenda r) < 2 ^ 63" using len by (simp add: r)
  ultimately show ?thesis
    using c h r0 paired(1) spki_of_decodes [OF P] by (auto simp: verify_roster_Ok_iff r)
qed

theorem cosign_admits_a_node_that_never_paired_witness:
  "\<exists>r2. verify_roster ref_prims r2 1 [48, 1] = Ok [1 \<mapsto> [1], 2 \<mapsto> [2], 3 \<mapsto> [9]]"
proof -
  have v: "verify_roster ref_prims sample_group 1 (spki_of ref_prims [1]) = Ok [1 \<mapsto> [1], 2 \<mapsto> [2]]"
    using sample_verifies by simp
  have f: "find_node 1 (ro_nodes sample_group) = Some (fresh_node 1 [48, 1])"
      "find_node 2 (ro_nodes sample_group) = Some (fresh_node 2 [48, 2])"
    by (simp_all add: sample_group_def sample_unsigned_def sample_payload_def find_node_def
        build_activation_payload_def)
  have n: "3 \<notin> set (node_numbers sample_group)" "length (ro_addenda sample_group) + 1 < 2 ^ 63"
      "(3 :: i32) \<noteq> 2"
    by (simp_all add: sample_shape)
  have "map_of (es_pending_endorsements (endorsing_new\<lparr>es_pending_endorsements :=
      [(2, \<lparr>pe_new_node_pubkey = [48, 2], pe_new_node_nonce = [5], pe_our_nonce = [6]\<rparr>)]\<rparr>)) 2
    = Some \<lparr>pe_new_node_pubkey = rn_public_key_spki (fresh_node 2 [48, 2]),
        pe_new_node_nonce = [5], pe_our_nonce = [6]\<rparr>" by simp
  note this = cosign_admits_a_node_that_never_paired [OF ref_ed25519_correct v f(1) _ n(2) f(2) this
      n(1,3) refl refl refl, of "[9]"]
  then show ?thesis
    by (simp only: ref_spki_of ref_prims_simps) fastforce
qed

end
