(* ===== verification/Encryption.thy ===== *)
theory Encryption
  imports Pairing
begin

text \<open>
  \<open>wispers-connect/src/encryption.rs\<close>: AES-256-GCM packets with a counter nonce.  An
  encrypter's counter is an \<open>AtomicU64\<close> whose \<open>fetch_add\<close> wraps, so it is a 64-bit word in
  the state that \<open>encrypt\<close> returns; it advances also when the encryption fails.  The
  locale \<open>packet_cipher\<close> is the contract that a connection relies on, interpreted on both
  directions of a connection.
\<close>

subsection \<open>Constants, nonces and associated data\<close>

definition PRK_INFO_CALLER_TO_ANSWERER :: bytes where
  "PRK_INFO_CALLER_TO_ANSWERER = str_bytes ''wispers-p2p-v1|c2a''"

definition PRK_INFO_ANSWERER_TO_CALLER :: bytes where
  "PRK_INFO_ANSWERER_TO_CALLER = str_bytes ''wispers-p2p-v1|a2c''"

definition NONCE_PREFIX_INFO :: bytes where
  "NONCE_PREFIX_INFO = str_bytes ''wispers-p2p-v1|np''"

definition AAD_PREFIX :: bytes where
  "AAD_PREFIX = str_bytes ''wispers-p2p-v1|a''"

datatype encryption_error = HkdfError | EncryptError | DecryptError | PacketTooShort

definition build_nonce :: "bytes \<Rightarrow> u64 \<Rightarrow> bytes" where
  "build_nonce prefix seqno = prefix @ u64_to_le_bytes seqno"

definition build_aad :: "u64 \<Rightarrow> bytes" where
  "build_aad seqno = AAD_PREFIX @ u64_to_le_bytes seqno"

subsection \<open>Encrypter and decrypter\<close>

record encrypter =
  en_aead_key :: bytes
  en_nonce_prefix :: bytes
  en_seqno :: u64

record decrypter =
  de_aead_key :: bytes
  de_nonce_prefix :: bytes

definition new_encrypter :: "bytes \<Rightarrow> bytes \<Rightarrow> encrypter" where
  "new_encrypter aead_key nonce_prefix =
     \<lparr>en_aead_key = aead_key, en_nonce_prefix = nonce_prefix, en_seqno = 0\<rparr>"

definition new_decrypter :: "bytes \<Rightarrow> bytes \<Rightarrow> decrypter" where
  "new_decrypter aead_key nonce_prefix =
     \<lparr>de_aead_key = aead_key, de_nonce_prefix = nonce_prefix\<rparr>"

definition encrypter_encrypt ::
  "prims \<Rightarrow> encrypter \<Rightarrow> bytes \<Rightarrow> (bytes, encryption_error) result \<times> encrypter"
where
  "encrypter_encrypt P e plaintext =
     (let seqno = en_seqno e; e' = e\<lparr>en_seqno := seqno + 1\<rparr> in
      (case aes_encrypt P (en_aead_key e) (build_nonce (en_nonce_prefix e) seqno)
              (build_aad seqno) plaintext of
         None \<Rightarrow> (Err EncryptError, e')
       | Some ciphertext \<Rightarrow> (Ok (u64_to_le_bytes seqno @ ciphertext), e')))"

definition decrypter_decrypt ::
  "prims \<Rightarrow> decrypter \<Rightarrow> bytes \<Rightarrow> (bytes, encryption_error) result"
where
  "decrypter_decrypt P d packet =
     (if length packet < 8 then Err PacketTooShort
      else let seqno = u64_from_le_bytes (take 8 packet); ciphertext = drop 8 packet in
        ok_or DecryptError (aes_decrypt P (de_aead_key d)
          (build_nonce (de_nonce_prefix d) seqno) (build_aad seqno) ciphertext))"

subsection \<open>A connection's cipher\<close>

record p2p_cipher =
  pc_encrypter :: encrypter
  pc_decrypter :: decrypter

definition derive_direction_keys ::
  "prims \<Rightarrow> bytes \<Rightarrow> bytes \<Rightarrow> bytes \<Rightarrow> (bytes \<times> bytes, encryption_error) result"
where
  "derive_direction_keys P shared_secret connection_id direction_info =
     rbind (ok_or HkdfError (hkdf_sha256 P connection_id shared_secret direction_info 32)) (\<lambda>aead_key.
     rbind (ok_or HkdfError (hkdf_sha256 P connection_id shared_secret
       (NONCE_PREFIX_INFO @ direction_info) 4)) (\<lambda>nonce_prefix.
     Ok (aead_key, nonce_prefix)))"

definition new_cipher ::
  "prims \<Rightarrow> bytes \<Rightarrow> i64 \<Rightarrow> bytes \<Rightarrow> bytes \<Rightarrow> (p2p_cipher, encryption_error) result"
where
  "new_cipher P shared_secret connection_id send_info recv_info =
     (let connection_id_bytes = u64_to_le_bytes connection_id in
     rbind (derive_direction_keys P shared_secret connection_id_bytes send_info) (\<lambda>(send_key, send_np).
     rbind (derive_direction_keys P shared_secret connection_id_bytes recv_info) (\<lambda>(recv_key, recv_np).
     Ok \<lparr>pc_encrypter = new_encrypter send_key send_np,
         pc_decrypter = new_decrypter recv_key recv_np\<rparr>)))"

definition new_caller :: "prims \<Rightarrow> bytes \<Rightarrow> i64 \<Rightarrow> (p2p_cipher, encryption_error) result" where
  "new_caller P shared_secret connection_id =
     new_cipher P shared_secret connection_id PRK_INFO_CALLER_TO_ANSWERER PRK_INFO_ANSWERER_TO_CALLER"

definition new_answerer :: "prims \<Rightarrow> bytes \<Rightarrow> i64 \<Rightarrow> (p2p_cipher, encryption_error) result" where
  "new_answerer P shared_secret connection_id =
     new_cipher P shared_secret connection_id PRK_INFO_ANSWERER_TO_CALLER PRK_INFO_CALLER_TO_ANSWERER"

definition encrypt :: "prims \<Rightarrow> p2p_cipher \<Rightarrow> bytes \<Rightarrow> (bytes, encryption_error) result \<times> p2p_cipher" where
  "encrypt P c plaintext =
     (case encrypter_encrypt P (pc_encrypter c) plaintext of
        (r, e) \<Rightarrow> (r, c\<lparr>pc_encrypter := e\<rparr>))"

definition decrypt :: "prims \<Rightarrow> p2p_cipher \<Rightarrow> bytes \<Rightarrow> (bytes, encryption_error) result" where
  "decrypt P c packet = decrypter_decrypt P (pc_decrypter c) packet"

subsection \<open>The contract of a packet channel\<close>

text \<open>Every message of a list through a stateful sender: the outcomes in order.\<close>

fun send_all :: "('s \<Rightarrow> 'm \<Rightarrow> 'o \<times> 's) \<Rightarrow> 's \<Rightarrow> 'm list \<Rightarrow> 'o list \<times> 's" where
  "send_all send s [] = ([], s)"
| "send_all send s (m # ms) =
     (case send s m of (o1, s1) \<Rightarrow> case send_all send s1 ms of (os, s2) \<Rightarrow> (o1 # os, s2))"

lemma length_send_all: "send_all send s ms = (os, s') \<Longrightarrow> length os = length ms"
  by (induction ms arbitrary: s os) (auto split: prod.splits)

text \<open>
  A sender and a receiver that belong together: sending keeps them together, and every
  packet sent is read back.  Nothing is said about the order in which packets arrive, so
  the channel must not depend on it.
\<close>

locale packet_cipher =
  fixes paired :: "'s \<Rightarrow> 'r \<Rightarrow> bool"
    and send :: "'s \<Rightarrow> bytes \<Rightarrow> (bytes, 'e) result \<times> 's"
    and recv :: "'r \<Rightarrow> bytes \<Rightarrow> (bytes, 'e) result"
  assumes paired_send: "paired s r \<Longrightarrow> send s m = (res, s') \<Longrightarrow> paired s' r"
    and recv_send: "paired s r \<Longrightarrow> send s m = (Ok pkt, s') \<Longrightarrow> recv r pkt = Ok m"
begin

lemma send_all_paired: "paired s r \<Longrightarrow> send_all send s ms = (os, s') \<Longrightarrow> paired s' r"
  by (induction ms arbitrary: s os) (auto split: prod.splits dest: paired_send)

lemma any_order:
  assumes "paired s r" and "send_all send s ms = (os, s')" and "i < length ms" and "os ! i = Ok pkt"
  shows "recv r pkt = Ok (ms ! i)"
  using assms
proof (induction ms arbitrary: s os i)
  case (Cons m ms)
  obtain o1 s1 where 1: "send s m = (o1, s1)" by fastforce
  obtain os1 s2 where 2: "send_all send s1 ms = (os1, s2)" by fastforce
  have os: "os = o1 # os1" "s' = s2" using Cons.prems(2) 1 2 by simp_all
  show ?case
  proof (cases i)
    case 0
    then show ?thesis using Cons.prems 1 os recv_send by auto
  next
    case (Suc j)
    with Cons.prems 1 2 os show ?thesis
      using Cons.IH [OF paired_send [OF Cons.prems(1) 1] 2 [folded os(2)]] by simp
  qed
qed simp

end

text \<open>Two ciphers paired in one direction: same key and nonce prefix, a correct AEAD.\<close>

definition ciphers_paired :: "prims \<Rightarrow> p2p_cipher \<Rightarrow> p2p_cipher \<Rightarrow> bool" where
  "ciphers_paired P s r \<longleftrightarrow> aead_correct P \<and>
     en_aead_key (pc_encrypter s) = de_aead_key (pc_decrypter r) \<and>
     en_nonce_prefix (pc_encrypter s) = de_nonce_prefix (pc_decrypter r)"

lemma encrypt_Ok_iff:
  "encrypt P c m = (Ok pkt, c') \<longleftrightarrow>
     (\<exists>ct. aes_encrypt P (en_aead_key (pc_encrypter c))
         (build_nonce (en_nonce_prefix (pc_encrypter c)) (en_seqno (pc_encrypter c)))
         (build_aad (en_seqno (pc_encrypter c))) m = Some ct \<and>
       pkt = u64_to_le_bytes (en_seqno (pc_encrypter c)) @ ct \<and>
       c' = c\<lparr>pc_encrypter := (pc_encrypter c)\<lparr>en_seqno := en_seqno (pc_encrypter c) + 1\<rparr>\<rparr>)"
  by (auto simp: encrypt_def encrypter_encrypt_def Let_def split: option.splits)

lemma encrypt_state:
  "snd (encrypt P c m) =
     c\<lparr>pc_encrypter := (pc_encrypter c)\<lparr>en_seqno := en_seqno (pc_encrypter c) + 1\<rparr>\<rparr>"
  by (simp add: encrypt_def encrypter_encrypt_def Let_def split: option.splits)

lemma decrypt_packet:
  "decrypt P c (u64_to_le_bytes n @ ct) =
     ok_or DecryptError (aes_decrypt P (de_aead_key (pc_decrypter c))
       (build_nonce (de_nonce_prefix (pc_decrypter c)) n) (build_aad n) ct)"
  by (simp add: decrypt_def decrypter_decrypt_def Let_def)

interpretation pk: packet_cipher "ciphers_paired P" "encrypt P" "decrypt P" for P
proof
  fix s r m res s'
  assume "ciphers_paired P s r" "encrypt P s m = (res, s')"
  then show "ciphers_paired P s' r"
    using encrypt_state [of P s m] by (simp add: ciphers_paired_def)
next
  fix s r m pkt s'
  assume "ciphers_paired P s r" "encrypt P s m = (Ok pkt, s')"
  then show "decrypt P r pkt = Ok m"
    by (auto simp: encrypt_Ok_iff decrypt_packet ciphers_paired_def aead_correct_def)
qed

lemma caller_answerer_paired:
  assumes "aead_correct P" and "new_caller P ss cid = Ok c" and "new_answerer P ss cid = Ok a"
  shows "ciphers_paired P c a" and "ciphers_paired P a c"
  using assms by (auto simp: new_caller_def new_answerer_def new_cipher_def rust_simps Let_def
      ciphers_paired_def new_encrypter_def new_decrypter_def)

subsection \<open>Nonces\<close>

lemma build_nonce_inj: "build_nonce np m = build_nonce np n \<longleftrightarrow> m = n"
  by (simp add: build_nonce_def)

text \<open>The nonces that a run of encryptions uses.\<close>

fun nonces_used :: "prims \<Rightarrow> p2p_cipher \<Rightarrow> bytes list \<Rightarrow> bytes list" where
  "nonces_used P c [] = []"
| "nonces_used P c (m # ms) =
     build_nonce (en_nonce_prefix (pc_encrypter c)) (en_seqno (pc_encrypter c)) #
     nonces_used P (snd (encrypt P c m)) ms"

lemma nonces_used_eq:
  "nonces_used P c ms = map (\<lambda>i. build_nonce (en_nonce_prefix (pc_encrypter c))
     (en_seqno (pc_encrypter c) + of_nat i)) [0..<length ms]"
proof (induction ms arbitrary: c)
  case (Cons m ms)
  have "[0..<Suc k] = 0 # map Suc [0..<k]" for k
    by (simp add: map_Suc_upt upt_conv_Cons del: upt_Suc)
  then show ?case
    by (simp only: length_Cons nonces_used.simps Cons.IH)
      (simp add: encrypt_state add.assoc comp_def)
qed simp

lemma last_nonce:
  "last (nonces_used P c (replicate k m @ [m'])) =
     build_nonce (en_nonce_prefix (pc_encrypter c)) (en_seqno (pc_encrypter c) + of_nat k)"
  by (simp add: nonces_used_eq)

lemma of_nat_u64_inj: "i < 2 ^ 64 \<Longrightarrow> j < 2 ^ 64 \<Longrightarrow> (of_nat i :: u64) = of_nat j \<Longrightarrow> i = j"
proof -
  assume a: "i < 2 ^ 64" "j < 2 ^ 64" "(of_nat i :: u64) = of_nat j"
  then have "unat (of_nat i :: u64) = unat (of_nat j :: u64)" by simp
  then have "i mod 2 ^ 64 = j mod 2 ^ 64"
    by (simp only: unat_of_nat) simp
  with a show "i = j" by simp
qed

subsection \<open>Properties\<close>




text \<open>
  Decryption is total and stateless.  A packet of fewer than eight bytes is reported
  as too short, any other packet is either decrypted under the nonce and associated data of
  the counter it carries or reported as undecryptable; nothing panics.
\<close>

theorem decrypt_is_total:
  "decrypt P c pkt =
    (if length pkt < 8 then Err PacketTooShort
     else case aes_decrypt P (de_aead_key (pc_decrypter c))
            (de_nonce_prefix (pc_decrypter c) @ take 8 pkt) (AAD_PREFIX @ take 8 pkt)
            (drop 8 pkt) of
       None \<Rightarrow> Err DecryptError | Some m \<Rightarrow> Ok m)"
proof -
  have "u64_to_le_bytes (u64_from_le_bytes (take 8 pkt)) = take 8 pkt" if "\<not> length pkt < 8"
  proof -
    have "length (take 8 pkt) = 8" using that by simp
    then show ?thesis
      using nat_to_le_le_nat [of "take 8 pkt"] le_nat_bound [of "take 8 pkt"]
      by (simp add: u64_to_le_bytes_def u64_from_le_bytes_def unat_of_nat)
  qed
  then show ?thesis
    by (simp add: decrypt_def decrypter_decrypt_def Let_def build_nonce_def build_aad_def
        split: option.splits)
qed

end
