(* ===== verification/P2p_Signing.thy ===== *)
theory P2p_Signing
  imports Pairing
begin

text \<open>
  \<open>wispers-connect/src/p2p_signing.rs\<close>: the signed envelopes of the P2P handshake.  The
  locale \<open>signed_envelope\<close> states what the two ends of the handshake use of them; it is
  interpreted on the caller's and on the answerer's functions.
\<close>

definition CALLER_SIG_DOMAIN :: bytes where
  "CALLER_SIG_DOMAIN = str_bytes ''wispers-connect/p2p-sig/caller/v1'' @ [0]"

definition ANSWERER_SIG_DOMAIN :: bytes where
  "ANSWERER_SIG_DOMAIN = str_bytes ''wispers-connect/p2p-sig/answerer/v1'' @ [0]"

datatype sig_verify_error = InvalidKey | SignatureMismatch | PayloadDecode

definition build_caller_signing_input :: "bytes \<Rightarrow> bytes" where
  "build_caller_signing_input payload = CALLER_SIG_DOMAIN @ payload"

definition build_answerer_signing_input :: "bytes \<Rightarrow> bytes" where
  "build_answerer_signing_input payload = ANSWERER_SIG_DOMAIN @ payload"

definition parse_signature :: "bytes \<Rightarrow> (bytes, sig_verify_error) result" where
  "parse_signature bs = (if length bs = 64 then Ok bs else Err SignatureMismatch)"

definition build_signed_request ::
  "prims \<Rightarrow> signing_seed \<Rightarrow> request_payload \<Rightarrow> start_connection_request"
where
  "build_signed_request P signing_key payload =
     (let payload_bytes = encode_request P payload in
      \<lparr>sq_signed_payload = payload_bytes,
       sq_signature = sign P signing_key (build_caller_signing_input payload_bytes)\<rparr>)"

definition build_signed_response ::
  "prims \<Rightarrow> signing_seed \<Rightarrow> response_payload \<Rightarrow> start_connection_response"
where
  "build_signed_response P signing_key payload =
     (let payload_bytes = encode_response P payload in
      \<lparr>ss_signed_payload = payload_bytes,
       ss_signature = sign P signing_key (build_answerer_signing_input payload_bytes)\<rparr>)"

definition decode_sig_key :: "prims \<Rightarrow> bytes \<Rightarrow> (verifying_key, sig_verify_error) result" where
  "decode_sig_key P spki = (case vk_from_der P spki of Inl _ \<Rightarrow> Err InvalidKey | Inr k \<Rightarrow> Ok k)"

definition verify_request ::
  "prims \<Rightarrow> start_connection_request \<Rightarrow> bytes \<Rightarrow> (request_payload, sig_verify_error) result"
where
  "verify_request P request caller_public_key_spki =
     rbind (decode_sig_key P caller_public_key_spki) (\<lambda>key.
     rbind (parse_signature (sq_signature request)) (\<lambda>sig.
     rbind (check (ed_verify P key (build_caller_signing_input (sq_signed_payload request)) sig)
             SignatureMismatch) (\<lambda>_.
     ok_or PayloadDecode (decode_request P (sq_signed_payload request)))))"

definition verify_response ::
  "prims \<Rightarrow> start_connection_response \<Rightarrow> bytes \<Rightarrow> (response_payload, sig_verify_error) result"
where
  "verify_response P response answerer_public_key_spki =
     rbind (decode_sig_key P answerer_public_key_spki) (\<lambda>key.
     rbind (parse_signature (ss_signature response)) (\<lambda>sig.
     rbind (check (ed_verify P key (build_answerer_signing_input (ss_signed_payload response)) sig)
             SignatureMismatch) (\<lambda>_.
     ok_or PayloadDecode (decode_response P (ss_signed_payload response)))))"

subsection \<open>The contract of an envelope\<close>

text \<open>
  \<open>signed_by env spki\<close>: the key decodes and the envelope carries its signature, over the
  wire bytes \<open>wire env\<close>.  Verification decides exactly that and then decodes the very bytes
  that were signed; an honest envelope whose payload decodes is accepted.
\<close>

locale signed_envelope =
  fixes signed_by :: "'env \<Rightarrow> bytes \<Rightarrow> bool"
    and wire :: "'env \<Rightarrow> bytes"
    and decode :: "bytes \<Rightarrow> 'p option"
    and verify :: "'env \<Rightarrow> bytes \<Rightarrow> ('p, 'e) result"
    and honest :: "'k \<Rightarrow> bytes \<Rightarrow> bool"
    and encode :: "'p \<Rightarrow> bytes"
    and build :: "'k \<Rightarrow> 'p \<Rightarrow> 'env"
  assumes verify_iff: "verify env spki = Ok p \<longleftrightarrow> signed_by env spki \<and> decode (wire env) = Some p"
    and verify_total: "verify env spki \<noteq> Panic"
    and wire_build: "wire (build k p) = encode p"
    and signed_build: "honest k spki \<Longrightarrow> signed_by (build k p) spki"
begin

lemma honest_accepted:
  "honest k spki \<Longrightarrow> decode (encode p) = Some p \<Longrightarrow> verify (build k p) spki = Ok p"
  by (simp add: verify_iff wire_build signed_build)

text \<open>The payload does not depend on who verifies.\<close>

lemma same_payload:
  "verify env spki = Ok p \<Longrightarrow> verify env spki' = Ok p' \<Longrightarrow> p = p'"
  by (auto simp: verify_iff)

lemma tampered_payload_needs_signature:
  "verify env spki = Ok p \<Longrightarrow> p \<noteq> q \<Longrightarrow> decode (encode q) = Some q \<Longrightarrow> wire env \<noteq> encode q"
  by (auto simp: verify_iff)

lemma rejected_iff:
  "(\<exists>e. verify env spki = Err e) \<longleftrightarrow> \<not> signed_by env spki \<or> decode (wire env) = None"
proof (cases "verify env spki")
  case (Ok p)
  then show ?thesis using verify_iff [of env spki p] by auto
next
  case (Err e)
  then have "decode (wire env) \<noteq> Some p" if "signed_by env spki" for p
    using that verify_iff [of env spki p] by simp
  with Err show ?thesis by (cases "decode (wire env)") auto
qed (simp add: verify_total)

end

definition request_signed_by :: "prims \<Rightarrow> start_connection_request \<Rightarrow> bytes \<Rightarrow> bool" where
  "request_signed_by P env spki \<longleftrightarrow> (case vk_from_der P spki of Inl _ \<Rightarrow> False | Inr key \<Rightarrow>
     length (sq_signature env) = 64 \<and>
     ed_verify P key (CALLER_SIG_DOMAIN @ sq_signed_payload env) (sq_signature env))"

definition response_signed_by :: "prims \<Rightarrow> start_connection_response \<Rightarrow> bytes \<Rightarrow> bool" where
  "response_signed_by P env spki \<longleftrightarrow> (case vk_from_der P spki of Inl _ \<Rightarrow> False | Inr key \<Rightarrow>
     length (ss_signature env) = 64 \<and>
     ed_verify P key (ANSWERER_SIG_DOMAIN @ ss_signed_payload env) (ss_signature env))"

definition honest_key :: "prims \<Rightarrow> signing_seed \<Rightarrow> bytes \<Rightarrow> bool" where
  "honest_key P sk spki \<longleftrightarrow> ed25519_correct P \<and> spki = public_key_spki P sk"

lemmas signing_defs = verify_request_def verify_response_def request_signed_by_def
  response_signed_by_def decode_sig_key_def parse_signature_def build_caller_signing_input_def
  build_answerer_signing_input_def build_signed_request_def build_signed_response_def
  sign_def Let_def

interpretation req: signed_envelope "request_signed_by P" sq_signed_payload "decode_request P"
  "verify_request P" "honest_key P" "encode_request P" "build_signed_request P" for P
  by unfold_locales
    (auto simp: signing_defs rust_simps honest_key_def public_key_spki_def ed25519_correctD
      split: sum.splits)

interpretation resp: signed_envelope "response_signed_by P" ss_signed_payload "decode_response P"
  "verify_response P" "honest_key P" "encode_response P" "build_signed_response P" for P
  by unfold_locales
    (auto simp: signing_defs rust_simps honest_key_def public_key_spki_def ed25519_correctD
      split: sum.splits)

lemma honest_own_key: "ed25519_correct P \<Longrightarrow> honest_key P sk (public_key_spki P sk)"
  by (simp add: honest_key_def)

subsection \<open>Properties\<close>

text \<open>
  An honest handshake message is accepted.  What a node signs with its key verifies
  under that key and yields the payload signed, for the request and for the response.
\<close>

theorem signed_envelopes_roundtrip:
  assumes "ed25519_correct P" and "decode_request P (encode_request P p) = Some p"
    and "decode_response P (encode_response P q) = Some q"
  shows "verify_request P (build_signed_request P sk p) (public_key_spki P sk) = Ok p \<and>
    verify_response P (build_signed_response P sk q) (public_key_spki P sk) = Ok q"
  using req.honest_accepted resp.honest_accepted honest_own_key assms by blast

definition sample_request :: request_payload where
  "sample_request = \<lparr>rq_answerer_node_number = 2, rq_caller_x25519_public_key = replicate 32 7,
     rq_caller_sdp = ''v=0'', rq_transport = 1, rq_stun_turn_config = None,
     rq_caller_hub_rtt_usec = 40, rq_caller_ice_start_delay_usec = 50000\<rparr>"

definition sample_response :: response_payload where
  "sample_response = \<lparr>rs_connection_id = 77, rs_answerer_x25519_public_key = replicate 32 9,
     rs_answerer_sdp = ''v=0''\<rparr>"

theorem signed_envelopes_roundtrip_witness:
  "verify_request ref_prims (build_signed_request ref_prims [3] sample_request)
     (public_key_spki ref_prims [3]) = Ok sample_request \<and>
   verify_response ref_prims (build_signed_response ref_prims [3] sample_response)
     (public_key_spki ref_prims [3]) = Ok sample_response"
  using signed_envelopes_roundtrip [OF ref_ed25519_correct, of sample_request sample_response "[3]"]
  by simp

text \<open>
  Verification of a request is exact and never panics.  A payload is returned if and
  only if the public key decodes, the signature has 64 bytes and verifies over the caller's
  domain tag followed by the very bytes received, and those bytes decode to the payload; in
  every other case an error is returned.
\<close>

theorem verify_request_exact:
  "(verify_request P env spki = Ok p \<longleftrightarrow>
     (\<exists>key. vk_from_der P spki = Inr key \<and> length (sq_signature env) = 64 \<and>
        ed_verify P key (CALLER_SIG_DOMAIN @ sq_signed_payload env) (sq_signature env) \<and>
        decode_request P (sq_signed_payload env) = Some p)) \<and>
   verify_request P env spki \<noteq> Panic"
  using req.verify_iff req.verify_total
  by (auto simp: request_signed_by_def split: sum.splits)

lemma domain_tags_differ:
  "CALLER_SIG_DOMAIN @ x \<noteq> ANSWERER_SIG_DOMAIN @ y"
  by (simp add: CALLER_SIG_DOMAIN_def ANSWERER_SIG_DOMAIN_def str_bytes_def)

text \<open>
  Signatures cannot be moved between protocols.  The byte strings that a node's key
  signs as a caller, as an answerer and as a roster cosigner (a 32-byte digest) are
  pairwise different, whatever the payloads.
\<close>

theorem signing_inputs_are_separated:
  assumes "length d = 32"
  shows "build_caller_signing_input x \<noteq> build_answerer_signing_input y \<and>
    build_caller_signing_input x \<noteq> d \<and> build_answerer_signing_input y \<noteq> d"
proof -
  have "length (build_caller_signing_input x) \<noteq> 32" "length (build_answerer_signing_input y) \<noteq> 32"
    by (simp_all add: build_caller_signing_input_def build_answerer_signing_input_def
        CALLER_SIG_DOMAIN_def ANSWERER_SIG_DOMAIN_def)
  with assms domain_tags_differ show ?thesis
    by (auto simp: build_caller_signing_input_def build_answerer_signing_input_def)
qed

theorem signing_inputs_are_separated_witness:
  "build_caller_signing_input [1, 2] \<noteq> build_answerer_signing_input [1, 2] \<and>
   build_caller_signing_input [] \<noteq> replicate 32 0"
  using signing_inputs_are_separated [of "replicate 32 0" "[1, 2]" "[1, 2]"]
    signing_inputs_are_separated [of "replicate 32 0" "[]" "[1, 2]"] by simp

end
