(* ===== verification/Ice.thy ===== *)
theory Ice
  imports Hub Encryption P2p_Signing
begin

text \<open>
  \<open>wispers-connect/src/ice.rs\<close>, the enums of \<open>juice.rs\<close> that it uses, and \<open>UdpConnection\<close>
  with the error and state enums of \<open>p2p.rs\<close>.  The C library behind \<open>JuiceAgent\<close> is the
  parameter \<open>J\<close>, one program per call over a state \<open>'w\<close> of its own.
\<close>

subsection \<open>juice.rs\<close>

datatype juice_error =
    JuiceInvalid | JuiceFailed | JuiceNotAvailable | JuiceIgnored | JuiceAgain | JuiceTooLarge
  | JuiceClosed | JuiceCreationFailed | JuiceInteriorNul | JuiceUnknown i32

datatype juice_state =
    JDisconnected | JGathering | JConnecting | JConnected | JCompleted | JFailed | JUnknown i32

record turn_server_config =
  ts_host :: string
  ts_port :: u16
  ts_username :: "string option"
  ts_password :: "string option"

record ice_servers_config =
  is_stun_host :: string
  is_stun_port :: u16
  is_turn_servers :: "turn_server_config list"

type_synonym agent = nat

record 'w juice =
  j_new :: "ice_servers_config \<Rightarrow> ('w, agent, juice_error) prog"
  j_gather_candidates :: "agent \<Rightarrow> ('w, unit, juice_error) prog"
  \<comment> \<open>whether the gathering-done callback fires before the agent is gone\<close>
  j_gathering_done :: "agent \<Rightarrow> ('w, bool, juice_error) prog"
  j_get_local_description :: "agent \<Rightarrow> ('w, string, juice_error) prog"
  j_set_remote_description :: "agent \<Rightarrow> string \<Rightarrow> ('w, unit, juice_error) prog"
  j_add_remote_candidate :: "agent \<Rightarrow> string \<Rightarrow> ('w, unit, juice_error) prog"
  j_set_remote_gathering_done :: "agent \<Rightarrow> ('w, unit, juice_error) prog"
  \<comment> \<open>the states that the state callback reports from now on\<close>
  j_states :: "agent \<Rightarrow> 'w \<Rightarrow> juice_state list"
  j_get_state :: "agent \<Rightarrow> 'w \<Rightarrow> juice_state"
  j_send :: "agent \<Rightarrow> bytes \<Rightarrow> ('w, unit, juice_error) prog"
  \<comment> \<open>the next packet received, unless the channel closed\<close>
  j_recv :: "agent \<Rightarrow> 'w \<Rightarrow> bytes option \<times> 'w"

subsection \<open>ice.rs\<close>

datatype ice_error = IceJuice juice_error | IceChannelClosed | IceConnectionFailed | IceInvalidPort

definition is_would_block :: "ice_error \<Rightarrow> bool" where
  "is_would_block e \<longleftrightarrow> e = IceJuice JuiceAgain"

definition parse_host_port :: "string \<Rightarrow> u16 \<Rightarrow> (string \<times> u16, ice_error) result" where
  "parse_host_port addr default_port =
     (case rsplit_once (CHR '':'') addr of
        Some (host, port_str) \<Rightarrow>
          rbind (ok_or IceInvalidPort (parse_u16 port_str)) (\<lambda>port. Ok (host, port))
      | None \<Rightarrow> Ok (addr, default_port))"

definition build_ice_servers_config ::
  "stun_turn_config \<Rightarrow> (ice_servers_config, ice_error) result"
where
  "build_ice_servers_config config =
     rbind (parse_host_port (st_stun_server config) 3478) (\<lambda>(stun_host, stun_port).
     let ice_config = \<lparr>is_stun_host = stun_host, is_stun_port = stun_port, is_turn_servers = []\<rparr> in
     if st_turn_server config = [] then Ok ice_config
     else
       rbind (parse_host_port (st_turn_server config) 3478) (\<lambda>(turn_host, turn_port).
       let nonempty = (\<lambda>s. if s = [] then None else Some s) in
       Ok (ice_config\<lparr>is_turn_servers := is_turn_servers ice_config @
         [\<lparr>ts_host = turn_host, ts_port = turn_port,
           ts_username = nonempty (st_turn_username config),
           ts_password = nonempty (st_turn_password config)\<rparr>]\<rparr>)))"

definition CALLER_ICE_START_DELAY :: duration where
  "CALLER_ICE_START_DELAY = from_millis 50"

text \<open>
  \<open>str::lines\<close> with \<open>trim_end\<close> and the empty lines dropped, as the code chains them; the
  white space is ASCII's.
\<close>

definition is_space :: "char \<Rightarrow> bool" where
  "is_space c \<longleftrightarrow> (let n = (of_char c :: nat) in n = 32 \<or> 9 \<le> n \<and> n \<le> 13)"

definition trim_end :: "string \<Rightarrow> string" where
  "trim_end s = rev (dropWhile is_space (rev s))"

definition newline :: char where "newline = char_of (10 :: nat)"
definition crlf :: string where "crlf = [char_of (13 :: nat), newline]"

definition sdp_lines :: "string \<Rightarrow> string list" where
  "sdp_lines sdp = filter (\<lambda>l. l \<noteq> []) (map trim_end (split_on newline sdp))"

definition is_candidate :: "string \<Rightarrow> bool" where
  "is_candidate l = starts_with l ''a=candidate:''"

definition is_end_of_candidates :: "string \<Rightarrow> bool" where
  "is_end_of_candidates l = starts_with l ''a=end-of-candidates''"

definition split_remote_description :: "string \<Rightarrow> string \<times> string list" where
  "split_remote_description sdp =
     foldl (\<lambda>(credentials, candidates) line.
        if is_candidate line then (credentials, candidates @ [line])
        else if is_end_of_candidates line then (credentials, candidates)
        else (credentials @ line @ crlf, candidates)) ([], []) (sdp_lines sdp)"

fun wait_for_connect :: "juice_state list \<Rightarrow> (unit, ice_error) result" where
  "wait_for_connect [] = Err IceChannelClosed"
| "wait_for_connect (s # ss) =
     (if s = JConnected \<or> s = JCompleted then Ok ()
      else if s = JFailed then Err IceConnectionFailed
      else wait_for_connect ss)"

record ice_caller =
  ic_agent :: agent
  ic_local_desc :: string

record ice_answerer =
  ia_agent :: agent
  ia_local_desc :: string
  ia_remote_candidates :: "string list"

definition gather :: "'w juice \<Rightarrow> agent \<Rightarrow> ('w, string, ice_error) prog" where
  "gather J agent =
     pbind (perr IceJuice (j_gather_candidates J agent)) (\<lambda>_.
     pbind (perr IceJuice (j_gathering_done J agent)) (\<lambda>done.
     if \<not> done then fail IceChannelClosed
     else perr IceJuice (j_get_local_description J agent)))"

definition ice_caller_new :: "'w juice \<Rightarrow> stun_turn_config \<Rightarrow> ('w, ice_caller, ice_error) prog" where
  "ice_caller_new J config =
     pbind (lift (build_ice_servers_config config)) (\<lambda>ice_servers_config.
     pbind (perr IceJuice (j_new J ice_servers_config)) (\<lambda>agent.
     pbind (gather J agent) (\<lambda>local_desc.
     ret \<lparr>ic_agent = agent, ic_local_desc = local_desc\<rparr>)))"

definition ice_wait :: "'w juice \<Rightarrow> agent \<Rightarrow> ('w, unit, ice_error) prog" where
  "ice_wait J agent = pbind (gets (j_states J agent)) (\<lambda>states. lift (wait_for_connect states))"

definition ice_caller_connect :: "'w juice \<Rightarrow> ice_caller \<Rightarrow> string \<Rightarrow> ('w, unit, ice_error) prog" where
  "ice_caller_connect J ice remote_desc =
     pbind (perr IceJuice (j_set_remote_description J (ic_agent ice) remote_desc)) (\<lambda>_.
     pbind (perr IceJuice (j_set_remote_gathering_done J (ic_agent ice))) (\<lambda>_.
     ice_wait J (ic_agent ice)))"

definition ice_answerer_new ::
  "'w juice \<Rightarrow> string \<Rightarrow> stun_turn_config \<Rightarrow> ('w, ice_answerer, ice_error) prog"
where
  "ice_answerer_new J remote_desc config =
     pbind (lift (build_ice_servers_config config)) (\<lambda>ice_servers_config.
     pbind (perr IceJuice (j_new J ice_servers_config)) (\<lambda>agent.
     case split_remote_description remote_desc of (credentials, remote_candidates) \<Rightarrow>
     pbind (perr IceJuice (j_set_remote_description J agent credentials)) (\<lambda>_.
     pbind (gather J agent) (\<lambda>local_desc.
     ret \<lparr>ia_agent = agent, ia_local_desc = local_desc,
          ia_remote_candidates = remote_candidates\<rparr>))))"

fun feed_candidates :: "'w juice \<Rightarrow> agent \<Rightarrow> string list \<Rightarrow> ('w, unit, ice_error) prog" where
  "feed_candidates J agent [] = ret ()"
| "feed_candidates J agent (c # cs) =
     pbind (pcatch (j_add_remote_candidate J agent c) (\<lambda>_. ret ())
       (\<lambda>e. if e = JuiceIgnored then ret () else fail (IceJuice e))) (\<lambda>_.
     feed_candidates J agent cs)"

definition ice_answerer_connect :: "'w juice \<Rightarrow> ice_answerer \<Rightarrow> ('w, unit, ice_error) prog" where
  "ice_answerer_connect J ice =
     pbind (feed_candidates J (ia_agent ice) (ia_remote_candidates ice)) (\<lambda>_.
     pbind (perr IceJuice (j_set_remote_gathering_done J (ia_agent ice))) (\<lambda>_.
     ice_wait J (ia_agent ice)))"

definition ice_send :: "'w juice \<Rightarrow> agent \<Rightarrow> bytes \<Rightarrow> ('w, unit, ice_error) prog" where
  "ice_send J agent data = perr IceJuice (j_send J agent data)"

definition ice_recv :: "'w juice \<Rightarrow> agent \<Rightarrow> ('w, bytes, ice_error) prog" where
  "ice_recv J agent = (\<lambda>s. case j_recv J agent s of
     (None, s') \<Rightarrow> (Err IceChannelClosed, s') | (Some b, s') \<Rightarrow> (Ok b, s'))"

subsection \<open>p2p.rs\<close>

datatype connection_state =
    StateGathering | StateConnecting | StateConnected | StateDisconnected | StateFailed

definition from_ice_state :: "juice_state \<Rightarrow> connection_state" where
  "from_ice_state s = (case s of
     JDisconnected \<Rightarrow> StateDisconnected | JGathering \<Rightarrow> StateGathering
   | JConnecting \<Rightarrow> StateConnecting | JConnected \<Rightarrow> StateConnected
   | JCompleted \<Rightarrow> StateConnected | JFailed \<Rightarrow> StateFailed | JUnknown _ \<Rightarrow> StateFailed)"

definition state_is_connected :: "connection_state \<Rightarrow> bool" where
  "state_is_connected s \<longleftrightarrow> s = StateConnected"

definition state_is_disconnected :: "connection_state \<Rightarrow> bool" where
  "state_is_disconnected s \<longleftrightarrow> s = StateDisconnected \<or> s = StateFailed"

text \<open>
  The errors of \<open>quic.rs\<close>; of \<open>quiche::Error\<close> the code tells only \<open>Done\<close> from the rest.
\<close>

datatype quiche_error = QuicheDone | QuicheFailed string

datatype quic_config_error = ConfigTls string | ConfigQuic quiche_error

datatype quic_error =
    QuicConfig quic_config_error | QuicProtocol quiche_error | QuicIce ice_error
  | HandshakeFailed | ConnectionClosed | StreamError string | QuicTimeout | InvalidErrorCode u64

datatype p2p_error =
    P2pHub hub_error | P2pIce ice_error | P2pEncryption encryption_error | P2pQuic quic_error
  | P2pPeerRejected string | P2pSignatureVerificationFailed | P2pDisconnected
  | P2pNotActivated | P2pRevoked | P2pTimeout

record udp_connection =
  udp_peer_node_number :: i32
  udp_connection_id :: i64
  udp_agent :: agent
  udp_cipher :: p2p_cipher

definition udp_new_caller ::
  "prims \<Rightarrow> i32 \<Rightarrow> i64 \<Rightarrow> ice_caller \<Rightarrow> bytes \<Rightarrow> (udp_connection, p2p_error) result"
where
  "udp_new_caller P peer_node_number connection_id ice shared_secret =
     rbind (map_err P2pEncryption (new_caller P shared_secret connection_id)) (\<lambda>cipher.
     Ok \<lparr>udp_peer_node_number = peer_node_number, udp_connection_id = connection_id,
         udp_agent = ic_agent ice, udp_cipher = cipher\<rparr>)"

definition udp_connect_answerer ::
  "prims \<Rightarrow> 'w juice \<Rightarrow> i32 \<Rightarrow> i64 \<Rightarrow> ice_answerer \<Rightarrow> bytes \<Rightarrow> ('w, udp_connection, p2p_error) prog"
where
  "udp_connect_answerer P J peer_node_number connection_id ice shared_secret =
     pbind (perr P2pIce (ice_answerer_connect J ice)) (\<lambda>_.
     pbind (lift (map_err P2pEncryption (new_answerer P shared_secret connection_id))) (\<lambda>cipher.
     ret \<lparr>udp_peer_node_number = peer_node_number, udp_connection_id = connection_id,
         udp_agent = ia_agent ice, udp_cipher = cipher\<rparr>))"

definition udp_state :: "'w juice \<Rightarrow> udp_connection \<Rightarrow> 'w \<Rightarrow> connection_state" where
  "udp_state J c w = from_ice_state (j_get_state J (udp_agent c) w)"

text \<open>Sending and receiving run over the connection, whose cipher counts, and the agent.\<close>

definition udp_send :: "prims \<Rightarrow> 'w juice \<Rightarrow> bytes \<Rightarrow> (udp_connection \<times> 'w, unit, p2p_error) prog" where
  "udp_send P J data = (\<lambda>(c, w).
     if state_is_disconnected (udp_state J c w) then (Err P2pDisconnected, (c, w))
     else case encrypt P (udp_cipher c) data of (r, cipher) \<Rightarrow>
       let c' = c\<lparr>udp_cipher := cipher\<rparr> in
       (case r of
          Ok packet \<Rightarrow> (case perr P2pIce (ice_send J (udp_agent c) packet) w of (r', w') \<Rightarrow> (r', (c', w')))
        | Err e \<Rightarrow> (Err (P2pEncryption e), (c', w))
        | Panic \<Rightarrow> (Panic, (c', w))))"

definition udp_recv :: "prims \<Rightarrow> 'w juice \<Rightarrow> (udp_connection \<times> 'w, bytes, p2p_error) prog" where
  "udp_recv P J = (\<lambda>(c, w).
     if state_is_disconnected (udp_state J c w) then (Err P2pDisconnected, (c, w))
     else case perr P2pIce (ice_recv J (udp_agent c)) w of
        (Ok packet, w') \<Rightarrow> (map_err P2pEncryption (decrypt P (udp_cipher c) packet), (c, w'))
      | (Err e, w') \<Rightarrow> (Err e, (c, w'))
      | (Panic, w') \<Rightarrow> (Panic, (c, w')))"

subsection \<open>Splitting a session description\<close>

lemma split_fold:
  "foldl (\<lambda>(credentials, candidates) line.
        if is_candidate line then (credentials, candidates @ [line])
        else if is_end_of_candidates line then (credentials, candidates)
        else (credentials @ line @ crlf, candidates)) (c, k) ls =
   (c @ concat (map (\<lambda>l. l @ crlf) (filter (\<lambda>l. \<not> is_candidate l \<and> \<not> is_end_of_candidates l) ls)),
    k @ filter is_candidate ls)"
  by (induction ls arbitrary: c k) auto

lemma split_remote_description_eq:
  "split_remote_description sdp =
   (concat (map (\<lambda>l. l @ crlf) (filter (\<lambda>l. \<not> is_candidate l \<and> \<not> is_end_of_candidates l) (sdp_lines sdp))),
    filter is_candidate (sdp_lines sdp))"
  by (simp add: split_remote_description_def split_fold)

lemma trim_end_idem [simp]: "trim_end (trim_end s) = trim_end s"
  by (simp add: trim_end_def)

lemma trim_end_snoc: "trim_end (s @ [c]) = (if is_space c then trim_end s else s @ [c])"
  by (simp add: trim_end_def)

lemma set_trim_end: "set (trim_end s) \<subseteq> set s"
  by (auto simp: trim_end_def dest: set_dropWhileD)

lemma split_on_pieces: "p \<in> set (split_on c s) \<Longrightarrow> c \<notin> set p"
  by (induction s arbitrary: p) (auto split: list.splits if_splits)

lemma sdp_lines_props: "l \<in> set (sdp_lines s) \<Longrightarrow> l \<noteq> [] \<and> newline \<notin> set l \<and> trim_end l = l"
  by (auto simp: sdp_lines_def dest: split_on_pieces) (metis in_mono set_trim_end split_on_pieces)

lemma space_cr: "is_space (char_of (13 :: nat))"
  by (simp add: is_space_def)

lemma sdp_lines_concat:
  assumes "\<forall>l \<in> set ls. l \<noteq> [] \<and> newline \<notin> set l \<and> trim_end l = l"
  shows "sdp_lines (concat (map (\<lambda>l. l @ crlf) ls)) = ls"
  using assms
proof (induction ls)
  case Nil
  then show ?case by (simp add: sdp_lines_def trim_end_def)
next
  case (Cons l ls)
  let ?r = "concat (map (\<lambda>l. l @ crlf) ls)"
  have "newline \<notin> set (l @ [char_of (13 :: nat)])"
    using Cons.prems by (simp add: newline_def)
  then have "split_on newline ((l @ [char_of (13 :: nat)]) @ newline # ?r)
      = (l @ [char_of (13 :: nat)]) # split_on newline ?r"
    by (rule split_on_append)
  then have "split_on newline (concat (map (\<lambda>l. l @ crlf) (l # ls)))
      = (l @ [char_of (13 :: nat)]) # split_on newline ?r"
    by (simp add: crlf_def)
  then show ?case
    using Cons by (simp add: sdp_lines_def trim_end_snoc space_cr)
qed

text \<open>
  An answerer withholds exactly the caller's candidates.  Splitting a session
  description puts the candidate lines, in order, aside; the description handed to the ICE
  library up front reads back as all other lines, in order and unchanged, without the
  end-of-candidates marker.
\<close>

theorem split_remote_description_partitions:
  "snd (split_remote_description sdp) = filter is_candidate (sdp_lines sdp) \<and>
   sdp_lines (fst (split_remote_description sdp)) =
     filter (\<lambda>l. \<not> is_candidate l \<and> \<not> is_end_of_candidates l) (sdp_lines sdp)"
  by (auto simp: split_remote_description_eq dest: sdp_lines_props intro!: sdp_lines_concat)

end
