(* ===== verification/Node.thy ===== *)
theory Node
  imports Hub Storage Endorsing Ice
begin

text \<open>
  \<open>wispers-connect/src/node.rs\<close>: the node's state machine and its operations, each as a
  program over the node, its store and the hub.  The hub \<open>H\<close> and the store \<open>S\<close> may answer
  anything; \<open>rand\<close> is the randomness an operation draws.  An operation runs to its end: a
  future that is dropped half way, and the races between operations on a shared node, are
  not modelled.
\<close>

subsection \<open>State\<close>

datatype inner_state =
    InnerPending
  | InnerRegistered node_registration
  | InnerActivated node_registration roster
  | InnerRevoked node_registration

record node =
  nd_inner :: inner_state
  nd_persisted :: persisted_node_state
  nd_hub_addr :: string
  nd_signing_key :: signing_seed

text \<open>A \<open>SharedStore\<close>: the operations of one of the stores.\<close>

record 's store_ops =
  so_load :: "('s, persisted_node_state option, storage_error) prog"
  so_save :: "persisted_node_state \<Rightarrow> ('s, unit, storage_error) prog"
  so_delete :: "('s, unit, storage_error) prog"

record ('w, 's) host = "'w env" +
  ho_store :: 's

record ('w, 's) sys = "('w, 's) host" +
  sy_node :: node

definition on_store ::
  "('s, 'a, storage_error) prog \<Rightarrow> (('w, 's, 'z) host_scheme, 'a, node_state_error) prog"
where
  "on_store m = (\<lambda>s. case m (ho_store s) of (r, st) \<Rightarrow> (map_err Store r, s\<lparr>ho_store := st\<rparr>))"

definition DEFAULT_HUB_ADDR :: string where
  "DEFAULT_HUB_ADDR = ''https://hub.connect.wispers.dev''"

subsection \<open>Constructors and accessors\<close>

definition make_node ::
  "prims \<Rightarrow> inner_state \<Rightarrow> persisted_node_state \<Rightarrow> string \<Rightarrow> (node, 'e) result"
where
  "make_node P inner persisted hub_addr =
     rbind (derive_from_root_key P (ps_root_key persisted)) (\<lambda>sk.
     Ok \<lparr>nd_inner = inner, nd_persisted = persisted, nd_hub_addr = hub_addr, nd_signing_key = sk\<rparr>)"

definition new_pending :: "prims \<Rightarrow> persisted_node_state \<Rightarrow> string \<Rightarrow> (node, 'e) result" where
  "new_pending P persisted hub_addr = make_node P InnerPending persisted hub_addr"

definition new_registered ::
  "prims \<Rightarrow> persisted_node_state \<Rightarrow> string \<Rightarrow> (node, node_state_error) result"
where
  "new_registered P persisted hub_addr =
     rbind (ok_or NotRegistered (ps_registration persisted)) (\<lambda>registration.
     make_node P (InnerRegistered registration) persisted hub_addr)"

definition new_activated ::
  "prims \<Rightarrow> persisted_node_state \<Rightarrow> string \<Rightarrow> roster \<Rightarrow> (node, 'e) result"
where
  "new_activated P persisted hub_addr r =
     rbind (expect (ps_registration persisted)) (\<lambda>registration.
     make_node P (InnerActivated registration r) persisted hub_addr)"

definition new_revoked :: "prims \<Rightarrow> persisted_node_state \<Rightarrow> string \<Rightarrow> (node, 'e) result" where
  "new_revoked P persisted hub_addr =
     rbind (expect (ps_registration persisted)) (\<lambda>registration.
     make_node P (InnerRevoked registration) persisted hub_addr)"

definition node_state_of :: "node \<Rightarrow> node_state" where
  "node_state_of n = (case nd_inner n of
     InnerPending \<Rightarrow> Pending | InnerRegistered _ \<Rightarrow> Registered
   | InnerActivated _ _ \<Rightarrow> Activated | InnerRevoked _ \<Rightarrow> Revoked)"

definition node_is_registered :: "node \<Rightarrow> bool" where
  "node_is_registered n = is_registered (nd_persisted n)"

definition registration_of :: "node \<Rightarrow> node_registration option" where
  "registration_of n = (case nd_inner n of
     InnerPending \<Rightarrow> None | InnerRegistered reg \<Rightarrow> Some reg
   | InnerActivated reg _ \<Rightarrow> Some reg | InnerRevoked reg \<Rightarrow> Some reg)"

definition node_number_of :: "node \<Rightarrow> i32 option" where
  "node_number_of n = map_option nr_node_number (registration_of n)"

definition connectivity_group_id_of :: "node \<Rightarrow> string option" where
  "connectivity_group_id_of n = map_option nr_connectivity_group_id (registration_of n)"

definition attestation_jwt_of :: "node \<Rightarrow> string option" where
  "attestation_jwt_of n = map_option nr_attestation_jwt (registration_of n)"

definition require_pending :: "node \<Rightarrow> (unit, node_state_error) result" where
  "require_pending n = (case nd_inner n of
     InnerPending \<Rightarrow> Ok () | _ \<Rightarrow> Err (InvalidState (node_state_of n) ''Pending''))"

definition require_registered :: "node \<Rightarrow> (node_registration, node_state_error) result" where
  "require_registered n = (case nd_inner n of
     InnerRegistered reg \<Rightarrow> Ok reg | _ \<Rightarrow> Err (InvalidState (node_state_of n) ''Registered''))"

definition require_at_least_registered :: "node \<Rightarrow> (node_registration, node_state_error) result" where
  "require_at_least_registered n = (case nd_inner n of
     InnerRegistered reg \<Rightarrow> Ok reg | InnerActivated reg _ \<Rightarrow> Ok reg | InnerRevoked reg \<Rightarrow> Ok reg
   | InnerPending \<Rightarrow> Err (InvalidState Pending ''Registered or Activated''))"

definition require_registered_or_activated :: "node \<Rightarrow> (node_registration, node_state_error) result" where
  "require_registered_or_activated n = (case nd_inner n of
     InnerRegistered reg \<Rightarrow> Ok reg | InnerActivated reg _ \<Rightarrow> Ok reg
   | InnerRevoked _ \<Rightarrow> Err NodeRevoked
   | InnerPending \<Rightarrow> Err (InvalidState Pending ''Registered or Activated''))"

definition require_activated :: "node \<Rightarrow> (unit, node_state_error) result" where
  "require_activated n = (case nd_inner n of
     InnerActivated _ _ \<Rightarrow> Ok () | _ \<Rightarrow> Err (InvalidState (node_state_of n) ''Activated''))"

definition set_inner :: "inner_state \<Rightarrow> (('w, 's) sys, unit, 'e) prog" where
  "set_inner inner = modify (\<lambda>s. s\<lparr>sy_node := (sy_node s)\<lparr>nd_inner := inner\<rparr>\<rparr>)"

definition set_persisted_registration :: "node_registration option \<Rightarrow> (('w, 's) sys, unit, 'e) prog" where
  "set_persisted_registration reg = modify (\<lambda>s. s\<lparr>sy_node := (sy_node s)
     \<lparr>nd_persisted := (nd_persisted (sy_node s))\<lparr>ps_registration := reg\<rparr>\<rparr>\<rparr>)"

subsection \<open>NodeStorage\<close>

definition delete_state :: "'s store_ops \<Rightarrow> (('w, 's) host, unit, node_state_error) prog" where
  "delete_state S = on_store (so_delete S)"

definition read_registration ::
  "'s store_ops \<Rightarrow> (('w, 's) host, node_registration option, node_state_error) prog"
where
  "read_registration S = pbind (on_store (so_load S)) (\<lambda>state.
     ret (Option.bind state ps_registration))"

text \<open>The node that a registered state and the fetched roster give.\<close>

definition restored_node ::
  "prims \<Rightarrow> persisted_node_state \<Rightarrow> node_registration \<Rightarrow> string \<Rightarrow> roster \<Rightarrow> (node, node_state_error) result"
where
  "restored_node P state registration hub_addr r =
     (if \<exists>n \<in> set (ro_nodes r). rn_node_number n = nr_node_number registration
      then
        rbind (derive_from_root_key P (ps_root_key state)) (\<lambda>sk.
        case verify_roster P r (nr_node_number registration) (public_key_spki P sk) of
          Ok _ \<Rightarrow> new_activated P state hub_addr r
        | Err (VerifierRevoked _) \<Rightarrow> new_revoked P state hub_addr
        | Err e \<Rightarrow> Err (RosterVerificationFailed e)
        | Panic \<Rightarrow> Panic)
      else new_registered P state hub_addr)"

definition restore_or_init_node ::
  "prims \<Rightarrow> 'w hub \<Rightarrow> 's store_ops \<Rightarrow> string \<Rightarrow> (nat \<Rightarrow> u8) \<Rightarrow>
   (('w, 's) host, node, node_state_error) prog"
where
  "restore_or_init_node P H S hub_addr rand =
     pbind (on_store (so_load S)) (\<lambda>loaded.
     case loaded of
       None \<Rightarrow>
         (let state = new_persisted rand in
          pbind (on_store (so_save S state)) (\<lambda>_. lift (new_pending P state hub_addr)))
     | Some state \<Rightarrow>
         if \<not> is_registered state then lift (new_pending P state hub_addr)
         else
           pbind (lift (expect (ps_registration state))) (\<lambda>registration.
           pbind (modify (\<lambda>s. s\<lparr>ev_rtt := rtt_new\<rparr>)) (\<lambda>_.
           pbind (perr Hub (connect H hub_addr)) (\<lambda>_.
           pbind (perr Hub (get_unverified_roster H registration)) (\<lambda>r.
           pbind (modify (\<lambda>s. s\<lparr>ev_rtt := rtt_new\<rparr>)) (\<lambda>_.
           lift (restored_node P state registration hub_addr r)))))))"

subsection \<open>Registration\<close>

definition register :: "'w hub \<Rightarrow> 's store_ops \<Rightarrow> string \<Rightarrow> (('w, 's) sys, unit, node_state_error) prog" where
  "register H S token =
     pbind (gets sy_node) (\<lambda>n.
     pbind (lift (require_pending n)) (\<lambda>_.
     pbind (perr Hub (connect H (nd_hub_addr n))) (\<lambda>_.
     pbind (perr Hub (complete_registration H token)) (\<lambda>registration.
     pbind (set_persisted_registration (Some registration)) (\<lambda>_.
     pbind (gets sy_node) (\<lambda>n'.
     pbind (on_store (so_save S (nd_persisted n'))) (\<lambda>_.
     set_inner (InnerRegistered registration))))))))"

subsection \<open>Group status\<close>

definition analyze_group :: "hub_node list \<Rightarrow> roster \<Rightarrow> i32 \<Rightarrow> node_info list \<times> group_state" where
  "analyze_group hub_nodes r my_node_number =
     (let activated_set = rn_node_number ` set (active_nodes r);
          revoked_set = rn_node_number ` set (filter rn_revoked (ro_nodes r));
          hub_numbers = hn_node_number ` set hub_nodes;
          is_dead_roster = (0 < sint (ro_version r) \<and> activated_set \<inter> hub_numbers = {});
          self_activated = (my_node_number \<in> activated_set \<and> \<not> is_dead_roster);
          nodes = map (\<lambda>h. \<lparr>
              ni_node_number = hn_node_number h, ni_name = hn_name h, ni_metadata = hn_metadata h,
              ni_is_self = (hn_node_number h = my_node_number),
              ni_state = (if is_dead_roster then Registered
                else if hn_node_number h \<in> activated_set then Activated
                else if hn_node_number h \<in> revoked_set then Revoked
                else Registered),
              ni_last_seen_at_millis = hn_last_seen_at_millis h,
              ni_is_online = hn_is_online h\<rparr>) hub_nodes;
          non_revoked = length (filter (\<lambda>n. ni_state n \<noteq> Revoked) nodes);
          state = (if non_revoked \<le> 1 then Alone
            else if activated_set = {} \<or> is_dead_roster then Bootstrap
            else if \<not> self_activated then NeedActivation
            else if \<exists>n \<in> set nodes. ni_state n = Registered then CanEndorse
            else AllActivated)
      in (nodes, state))"

text \<open>The three RPCs of \<open>try_join!\<close> run one after the other; the first error wins.\<close>

definition get_group_info :: "'w hub \<Rightarrow> (('w, 's) sys, group_info, node_state_error) prog" where
  "get_group_info H =
     pbind (gets sy_node) (\<lambda>n.
     pbind (lift (require_at_least_registered n)) (\<lambda>registration.
     pbind (perr Hub (connect H (nd_hub_addr n))) (\<lambda>_.
     pbind (perr Hub (list_nodes H registration)) (\<lambda>hub_nodes.
     pbind (perr Hub (get_unverified_roster H registration)) (\<lambda>r.
     pbind (perr Hub (get_group_metadata H registration)) (\<lambda>metadata.
     case analyze_group hub_nodes r (nr_node_number registration) of (nodes, state) \<Rightarrow>
     ret \<lparr>gi_id = gm_id metadata,
          gi_name = (if gm_name metadata = [] then None else Some (gm_name metadata)),
          gi_created_at_millis = gm_created_at_millis metadata,
          gi_state = state, gi_nodes = nodes\<rparr>))))))"

subsection \<open>Activation\<close>

text \<open>
  \<open>activate\<close> in its parts: the exchange with the endorser, the check of the roster to build
  on, and the new roster with this node's signature.
\<close>

definition pairing_exchange ::
  "prims \<Rightarrow> 'w hub \<Rightarrow> (nat \<Rightarrow> u8) \<Rightarrow> node \<Rightarrow> node_registration \<Rightarrow> pairing_code \<Rightarrow>
   (('w, 's) sys, pair_payload, node_state_error) prog"
where
  "pairing_exchange P H rand n registration code =
     (let me = nr_node_number registration; nonce = generate_nonce rand;
          payload = \<lparr>pp_sender_node_number = me, pp_receiver_node_number = pc_node_number code,
            pp_public_key_spki = public_key_spki P (nd_signing_key n), pp_nonce = nonce,
            pp_reply_nonce = []\<rparr>;
          mac = compute_mac P (pc_secret code) (encode_pair_payload P payload) in
      pbind (perr Hub (connect H (nd_hub_addr n))) (\<lambda>_.
      pbind (perr Hub (hub_pair_nodes H registration \<lparr>pm_payload = Some payload, pm_mac = mac\<rparr>)) (\<lambda>response.
      pbind (lift (ok_or MissingEndorserResponse (pm_payload response))) (\<lambda>reply.
      pbind (lift (check (verify_mac P (pc_secret code) (encode_pair_payload P reply) (pm_mac response))
        MacVerificationFailed)) (\<lambda>_.
      pbind (lift (check (pp_receiver_node_number reply = me) MissingEndorserResponse)) (\<lambda>_.
      pbind (lift (check (pp_reply_nonce reply = nonce) MacVerificationFailed)) (\<lambda>_.
      ret reply)))))))"

definition check_base_roster ::
  "prims \<Rightarrow> roster \<Rightarrow> i32 \<Rightarrow> pair_payload \<Rightarrow> (unit, node_state_error) result"
where
  "check_base_roster P current endorser reply =
     (if 0 < sint (ro_version current)
      then rbind (map_err RosterVerificationFailed
        (verify_roster P current endorser (pp_public_key_spki reply))) (\<lambda>_. Ok ())
      else Ok ())"

definition propose_activation ::
  "prims \<Rightarrow> signing_seed \<Rightarrow> i32 \<Rightarrow> i32 \<Rightarrow> bytes \<Rightarrow> pair_payload \<Rightarrow> roster \<Rightarrow> (roster, 'e) result"
where
  "propose_activation P sk me endorser nonce reply current =
     (let ap = build_activation_payload current me endorser nonce (pp_nonce reply);
          unsigned = (if ro_version current = 0
            then create_bootstrap_roster ap (public_key_spki P sk) (pp_public_key_spki reply)
            else add_activation_to_roster current ap (public_key_spki P sk))
      in set_new_node_signature unsigned (sign P sk (compute_signing_hash P unsigned)))"

definition activate ::
  "prims \<Rightarrow> 'w hub \<Rightarrow> (nat \<Rightarrow> u8) \<Rightarrow> string \<Rightarrow> (('w, 's) sys, unit, node_state_error) prog"
where
  "activate P H rand activation_code =
     pbind (gets sy_node) (\<lambda>n.
     pbind (lift (require_registered n)) (\<lambda>registration.
     pbind (lift (map_err InvalidActivationCode (parse_code P activation_code))) (\<lambda>code.
     pbind (pairing_exchange P H rand n registration code) (\<lambda>reply.
     let me = nr_node_number registration; endorser = pc_node_number code; sk = nd_signing_key n in
     pbind (perr Hub (get_unverified_roster H registration)) (\<lambda>current.
     pbind (lift (check_base_roster P current endorser reply)) (\<lambda>_.
     pbind (lift (propose_activation P sk me endorser (generate_nonce rand) reply current)) (\<lambda>new_roster.
     pbind (perr Hub (update_roster H registration new_roster)) (\<lambda>cosigned.
     pbind (lift (map_err RosterVerificationFailed
       (verify_roster P cosigned me (public_key_spki P sk)))) (\<lambda>_.
     set_inner (InnerActivated registration cosigned))))))))))"

subsection \<open>Revocation, refresh, logout\<close>

definition submit_revocation ::
  "prims \<Rightarrow> 'w hub \<Rightarrow> node_registration \<Rightarrow> roster \<Rightarrow> i32 \<Rightarrow> (('w, 's) sys, roster, node_state_error) prog"
where
  "submit_revocation P H registration base_roster revoked =
     pbind (gets sy_node) (\<lambda>n.
     let payload = build_revocation_payload base_roster revoked (nr_node_number registration);
         unsigned = add_revocation_to_roster base_roster payload in
     pbind (lift (set_revoker_signature unsigned
       (sign P (nd_signing_key n) (compute_signing_hash P unsigned)))) (\<lambda>new_roster.
     pbind (perr Hub (update_roster H registration new_roster)) (\<lambda>_.
     ret new_roster)))"

definition revoke_node ::
  "prims \<Rightarrow> 'w hub \<Rightarrow> i32 \<Rightarrow> (('w, 's) sys, unit, node_state_error) prog"
where
  "revoke_node P H target =
     pbind (gets sy_node) (\<lambda>n.
     case nd_inner n of
       InnerActivated registration base_roster \<Rightarrow>
         pbind (lift (check (target \<noteq> nr_node_number registration) CannotRevokeSelf)) (\<lambda>_.
         pbind (lift (check (\<exists>x \<in> set (active_nodes base_roster). rn_node_number x = target)
           (NodeNotActive target))) (\<lambda>_.
         pbind (perr Hub (connect H (nd_hub_addr n))) (\<lambda>_.
         pbind (submit_revocation P H registration base_roster target) (\<lambda>new_roster.
         set_inner (InnerActivated registration new_roster)))))
     | InnerRevoked _ \<Rightarrow> fail NodeRevoked
     | _ \<Rightarrow> fail (InvalidState (node_state_of n) ''Activated''))"

text \<open>What the fetched roster says about this node.\<close>

definition judge_membership ::
  "prims \<Rightarrow> node_registration \<Rightarrow> roster \<Rightarrow> (('w, 's) sys, node_state, node_state_error) prog"
where
  "judge_membership P registration r =
     pbind (gets sy_node) (\<lambda>n.
     if \<not> (\<exists>x \<in> set (ro_nodes r). rn_node_number x = nr_node_number registration)
     then pbind (set_inner (InnerRegistered registration)) (\<lambda>_. ret Registered)
     else
       (case verify_roster P r (nr_node_number registration)
               (public_key_spki P (nd_signing_key n)) of
          Ok _ \<Rightarrow> pbind (set_inner (InnerActivated registration r)) (\<lambda>_. ret Activated)
        | Err (VerifierRevoked _) \<Rightarrow>
            pbind (set_inner (InnerRevoked registration)) (\<lambda>_. ret Revoked)
        | Err e \<Rightarrow> fail (RosterVerificationFailed e)
        | Panic \<Rightarrow> lift Panic))"

definition refresh_membership ::
  "prims \<Rightarrow> 'w hub \<Rightarrow> (('w, 's) sys, node_state, node_state_error) prog"
where
  "refresh_membership P H =
     pbind (gets sy_node) (\<lambda>n.
     case registration_of n of
       None \<Rightarrow> ret Pending
     | Some registration \<Rightarrow>
         pbind (perr Hub (connect H (nd_hub_addr n))) (\<lambda>_.
         pbind (perr Hub (get_unverified_roster H registration)) (\<lambda>r.
         judge_membership P registration r)))"

text \<open>Deregistration counts as done when the hub says that the node is already gone.\<close>

definition deregister_or_gone ::
  "'w hub \<Rightarrow> node_registration \<Rightarrow> (('w, 's) sys, unit, node_state_error) prog"
where
  "deregister_or_gone H registration =
     pcatch (deregister_node H registration) (\<lambda>_. ret ())
       (\<lambda>e. if hub_is_unauthenticated e \<or> hub_is_not_found e then ret () else fail (Hub e))"

definition logout_remote ::
  "prims \<Rightarrow> 'w hub \<Rightarrow> (('w, 's) sys, unit, node_state_error) prog"
where
  "logout_remote P H =
     pbind (gets sy_node) (\<lambda>n.
     case nd_inner n of
       InnerPending \<Rightarrow> ret ()
     | InnerActivated registration base_roster \<Rightarrow>
         if length (active_nodes base_roster) \<le> 1 then fail LastActiveNode
         else
           pbind (perr Hub (connect H (nd_hub_addr n))) (\<lambda>_.
           pcatch (submit_revocation P H registration base_roster (nr_node_number registration))
             (\<lambda>_. deregister_or_gone H registration)
             (\<lambda>e. if err_is_unauthenticated e \<or> err_is_not_found e then ret () else fail e))
     | _ \<Rightarrow>
         pbind (lift (expect (ps_registration (nd_persisted n)))) (\<lambda>registration.
         pbind (perr Hub (connect H (nd_hub_addr n))) (\<lambda>_.
         deregister_or_gone H registration)))"

definition logout ::
  "prims \<Rightarrow> 'w hub \<Rightarrow> 's store_ops \<Rightarrow> (('w, 's) sys, unit, node_state_error) prog"
where
  "logout P H S =
     pbind (logout_remote P H) (\<lambda>_.
     pbind (on_store (so_delete S)) (\<lambda>_.
     pbind (set_persisted_registration None) (\<lambda>_.
     set_inner InnerPending)))"

subsection \<open>Looking up a peer\<close>

definition find_active :: "i32 \<Rightarrow> roster \<Rightarrow> roster_node option" where
  "find_active peer r = find (\<lambda>n. rn_node_number n = peer \<and> \<not> rn_revoked n) (ro_nodes r)"

definition find_peer_in_roster ::
  "prims \<Rightarrow> 'w hub \<Rightarrow> i32 \<Rightarrow> (('w, 's) sys, roster_node, p2p_error) prog"
where
  "find_peer_in_roster P H peer =
     pbind (gets sy_node) (\<lambda>n.
     case nd_inner n of
       InnerActivated registration cached \<Rightarrow>
         (case find_active peer cached of
            Some node \<Rightarrow> ret node
          | None \<Rightarrow>
              pcatch (get_and_verify_roster P H registration (public_key_spki P (nd_signing_key n)))
                (\<lambda>fresh_roster.
                   pbind (lift (ok_or P2pSignatureVerificationFailed (find_active peer fresh_roster))) (\<lambda>node.
                   pbind (set_inner (InnerActivated registration fresh_roster)) (\<lambda>_.
                   ret node)))
                (\<lambda>e. case e of
                   RosterVerification (VerifierRevoked _) \<Rightarrow> fail P2pRevoked
                 | _ \<Rightarrow> fail (P2pHub e)))
     | _ \<Rightarrow> fail P2pNotActivated)"

end
