(* ===== verification/Quic.thy ===== *)
theory Quic
  imports Ice
begin

text \<open>
  \<open>wispers-connect/src/quic.rs\<close> with \<open>QuicConnection\<close> of \<open>p2p.rs\<close>: QUIC connections over an
  ICE path, authenticated by a key derived from the X25519 secret.  The \<open>quiche\<close> crate is
  the parameter \<open>Q\<close>, one function per call over its connection \<open>'q\<close>; the TLS context that
  \<open>boring\<close> builds is part of it.  A call runs over the crate's shared connection state
  together with the state \<open>'w\<close> of the ICE library.

  An operation that waits for the driver (\<open>notified().await\<close>) is given by the pass it makes
  between two notifications: \<open>None\<close> is "wait for the next one".  \<open>waiting\<close> repeats the pass
  after whatever the driver and other tasks do in between.  A loop over \<open>quiche\<close> that need
  not end is a partial function, and a program that does not return because of it has the
  outcome \<open>Panic\<close>, the outcome of calls that do not return.
\<close>

subsection \<open>Constants and configuration\<close>

definition PSK_IDENTITY :: bytes where "PSK_IDENTITY = str_bytes ''wispers-connect-v1''"
definition ALPN :: bytes where "ALPN = str_bytes ''wispers-connect''"
definition PSK_LEN :: nat where "PSK_LEN = 32"
definition MAX_IDLE_TIMEOUT_MS :: nat where "MAX_IDLE_TIMEOUT_MS = 30000"
definition KEEPALIVE_INTERVAL_MS :: nat where "KEEPALIVE_INTERVAL_MS = 15000"
definition INITIAL_MAX_DATA :: nat where "INITIAL_MAX_DATA = 10000000"
definition INITIAL_MAX_STREAM_DATA :: nat where "INITIAL_MAX_STREAM_DATA = 1000000"
definition INITIAL_MAX_STREAMS_BIDI :: nat where "INITIAL_MAX_STREAMS_BIDI = 256"
definition MAX_CLOSE_REASON_LEN :: nat where "MAX_CLOSE_REASON_LEN = 1024"
definition MAX_ERROR_CODE :: u64 where "MAX_ERROR_CODE = 2 ^ 62 - 1"

datatype quic_role = Client | Server

datatype quic_state = Handshaking | Established | Closing | Closed

definition derive_psk :: "prims \<Rightarrow> bytes \<Rightarrow> (bytes, 'e) result" where
  "derive_psk P shared_secret =
     expect (hkdf_sha256 P (str_bytes ''wispers-connect-quic-v1'') shared_secret
       (str_bytes ''tls13-psk'') PSK_LEN)"

text \<open>
  The two callbacks of the TLS context: what the client writes into the buffers it is given
  (by their sizes), and what the server answers to an identity.
\<close>

definition psk_client_callback :: "bytes \<Rightarrow> nat \<Rightarrow> nat \<Rightarrow> (bytes \<times> bytes) option" where
  "psk_client_callback psk identity_len psk_out_len =
     (if identity_len < length PSK_IDENTITY + 1 then None
      else if psk_out_len < PSK_LEN then None
      else Some (PSK_IDENTITY @ [0], psk))"

definition psk_server_callback :: "bytes \<Rightarrow> bytes option \<Rightarrow> nat \<Rightarrow> bytes option" where
  "psk_server_callback psk identity psk_out_len =
     (if identity \<noteq> Some PSK_IDENTITY then None
      else if psk_out_len < PSK_LEN then None
      else Some psk)"

record quic_config =
  cfg_psk :: bytes
  cfg_role :: quic_role
  cfg_alpn :: bytes
  cfg_verify_peer :: bool
  cfg_max_idle_timeout :: nat
  cfg_initial_max_data :: nat
  cfg_initial_max_stream_data :: nat
  cfg_initial_max_streams_bidi :: nat

record connection_error =
  ce_is_app :: bool
  ce_error_code :: u64
  ce_reason :: bytes

record 'q quiche =
  \<comment> \<open>building the TLS context and the configuration: the error, if any\<close>
  q_tls_context :: "quic_role \<Rightarrow> quic_config_error option"
  q_connect :: "bytes \<Rightarrow> quic_config \<Rightarrow> quiche_error + 'q"
  \<comment> \<open>source id, the client's destination id\<close>
  q_accept :: "bytes \<Rightarrow> bytes \<Rightarrow> quic_config \<Rightarrow> quiche_error + 'q"
  \<comment> \<open>the destination id in a packet's header\<close>
  q_header_dcid :: "bytes \<Rightarrow> quiche_error + bytes"
  \<comment> \<open>the next datagram and the instant it is paced for\<close>
  q_send :: "'q \<Rightarrow> (quiche_error + bytes \<times> nat) \<times> 'q"
  q_recv :: "bytes \<Rightarrow> 'q \<Rightarrow> quiche_error option \<times> 'q"
  q_on_timeout :: "'q \<Rightarrow> 'q"
  q_timeout :: "'q \<Rightarrow> duration option"
  q_is_established :: "'q \<Rightarrow> bool"
  q_is_closed :: "'q \<Rightarrow> bool"
  q_is_draining :: "'q \<Rightarrow> bool"
  q_send_ack_eliciting :: "'q \<Rightarrow> quiche_error option \<times> 'q"
  q_acked_bytes :: "'q \<Rightarrow> nat"
  \<comment> \<open>whether by the application, error code, reason\<close>
  q_close :: "bool \<Rightarrow> u64 \<Rightarrow> bytes \<Rightarrow> 'q \<Rightarrow> 'q"
  q_peer_error :: "'q \<Rightarrow> connection_error option"
  q_peer_streams_left_bidi :: "'q \<Rightarrow> nat"
  \<comment> \<open>stream, data, fin: the bytes taken\<close>
  q_stream_send :: "u64 \<Rightarrow> bytes \<Rightarrow> bool \<Rightarrow> 'q \<Rightarrow> (quiche_error + nat) \<times> 'q"
  \<comment> \<open>stream, size of the buffer: the bytes read and whether the stream has ended\<close>
  q_stream_recv :: "u64 \<Rightarrow> nat \<Rightarrow> 'q \<Rightarrow> (quiche_error + bytes \<times> bool) \<times> 'q"
  q_stream_readable_next :: "'q \<Rightarrow> u64 option \<times> 'q"
  q_stream_finished :: "u64 \<Rightarrow> 'q \<Rightarrow> bool"
  \<comment> \<open>stream, whether the receiving half (else the sending half)\<close>
  q_stream_shutdown :: "u64 \<Rightarrow> bool \<Rightarrow> 'q \<Rightarrow> 'q"

definition create_config :: "'q quiche \<Rightarrow> bytes \<Rightarrow> quic_role \<Rightarrow> (quic_config, quic_config_error) result" where
  "create_config Q psk role =
     (case q_tls_context Q role of
        Some e \<Rightarrow> Err e
      | None \<Rightarrow> Ok \<lparr>cfg_psk = psk, cfg_role = role, cfg_alpn = ALPN, cfg_verify_peer = False,
          cfg_max_idle_timeout = MAX_IDLE_TIMEOUT_MS, cfg_initial_max_data = INITIAL_MAX_DATA,
          cfg_initial_max_stream_data = INITIAL_MAX_STREAM_DATA,
          cfg_initial_max_streams_bidi = INITIAL_MAX_STREAMS_BIDI\<rparr>)"

subsection \<open>The shared state\<close>

record 'q qconn =
  qc_conn :: 'q
  qc_agent :: agent
  qc_role :: quic_role
  qc_now :: nat
  qc_shutdown :: bool
  qc_accepted_streams :: "u64 set"
  qc_next_stream_index :: u64
  \<comment> \<open>stream, \<open>sent_fin\<close>, \<open>recv_fin\<close>\<close>
  qc_pending_shutdown :: "(u64 \<times> bool \<times> bool) list"
  qc_driver_exited :: bool
  qc_peer_error :: "connection_error option"
  \<comment> \<open>whether the driver task is still there to run\<close>
  qc_driver_running :: bool

type_synonym ('q, 'w, 'a) qprog = "('q qconn \<times> 'w, 'a, quic_error) prog"

definition new_inner :: "'q \<Rightarrow> agent \<Rightarrow> quic_role \<Rightarrow> nat \<Rightarrow> 'q qconn" where
  "new_inner conn ag role now =
     \<lparr>qc_conn = conn, qc_agent = ag, qc_role = role, qc_now = now, qc_shutdown = False,
      qc_accepted_streams = {}, qc_next_stream_index = 0, qc_pending_shutdown = [],
      qc_driver_exited = False, qc_peer_error = None, qc_driver_running = False\<rparr>"

definition qmodify :: "('q qconn \<Rightarrow> 'q qconn) \<Rightarrow> ('q, 'w, unit) qprog" where
  "qmodify f = modify (apfst f)"

definition qgets :: "('q qconn \<Rightarrow> 'a) \<Rightarrow> ('q, 'w, 'a) qprog" where
  "qgets f = gets (\<lambda>s. f (fst s))"

text \<open>A call into \<open>quiche\<close> that changes its connection.\<close>

definition qcall :: "('q \<Rightarrow> 'a \<times> 'q) \<Rightarrow> ('q, 'w, 'a) qprog" where
  "qcall f = (\<lambda>(c, w). case f (qc_conn c) of (x, q) \<Rightarrow> (Ok x, (c\<lparr>qc_conn := q\<rparr>, w)))"

definition over_ice :: "(agent \<Rightarrow> ('w, 'a, ice_error) prog) \<Rightarrow> ('q, 'w, 'a) qprog" where
  "over_ice m = (\<lambda>(c, w). case m (qc_agent c) w of (r, w') \<Rightarrow> (map_err QuicIce r, (c, w')))"

subsection \<open>Sending\<close>

text \<open>
  One datagram into the ICE path.  A full send buffer is retried after 250 us, doubling as
  long as the delay is at most 8 ms; \<open>False\<close> is giving up.
\<close>

definition retry_delay :: "nat \<Rightarrow> duration" where
  "retry_delay k = from_micros 250 * 2 ^ k"

function send_datagram :: "'w juice \<Rightarrow> bytes \<Rightarrow> nat \<Rightarrow> ('q, 'w, bool) qprog" where
  "send_datagram J pkt k s =
     (case over_ice (\<lambda>ag. ice_send J ag pkt) s of
        (Ok _, s') \<Rightarrow> (Ok True, s')
      | (Err e, (c, w)) \<Rightarrow>
          (if \<exists>ie. e = QuicIce ie \<and> is_would_block ie
           then if retry_delay k > from_millis 8 then (Ok False, (c, w))
                else send_datagram J pkt (Suc k) (c\<lparr>qc_now := qc_now c + retry_delay k\<rparr>, w)
           else (Err e, (c, w)))
      | (Panic, s') \<Rightarrow> (Panic, s'))"
  by pat_completeness auto
termination
proof (relation "measure (\<lambda>(J, pkt, k, s). 6 - k)", simp)
  fix k :: nat
  assume "\<not> from_millis 8 < retry_delay k"
  then have "2 ^ k < (2 :: nat) ^ 6"
    by (simp add: retry_delay_def from_millis_def from_micros_def)
  then have "k < 6" by (simp only: power_strict_increasing_iff)
  then show "((J, pkt, Suc k, s'), J, pkt, k, s) \<in> measure (\<lambda>(J, pkt, k, s). 6 - k)" for J pkt s s'
    by simp
qed

text \<open>
  \<open>flush_send\<close>: until \<open>quiche\<close> has nothing to send.  The result of the loop is the outcome
  with the state; a datagram paced for later than 1 ms from now is waited for.
\<close>

partial_function (option) flush_loop ::
  "'q quiche \<Rightarrow> 'w juice \<Rightarrow> 'q qconn \<times> 'w \<Rightarrow> ((unit, quic_error) result \<times> ('q qconn \<times> 'w)) option"
where
  "flush_loop Q J s =
     (case q_send Q (qc_conn (fst s)) of
        (Inl e, q) \<Rightarrow>
          Some (if e = QuicheDone then Ok () else Err (QuicProtocol e), ((fst s)\<lparr>qc_conn := q\<rparr>, snd s))
      | (Inr (pkt, at), q) \<Rightarrow>
          (let c = fst s;
               now = (if at > qc_now c + from_millis 1 then at else qc_now c)
           in case send_datagram J pkt 0 (c\<lparr>qc_conn := q, qc_now := now\<rparr>, snd s) of
                (Ok sent, s') \<Rightarrow> (if sent then flush_loop Q J s' else Some (Ok (), s'))
              | (Err e, s') \<Rightarrow> Some (Err e, s')
              | (Panic, s') \<Rightarrow> Some (Panic, s')))"

definition flush_send :: "'q quiche \<Rightarrow> 'w juice \<Rightarrow> ('q, 'w, unit) qprog" where
  "flush_send Q J = (\<lambda>s. case flush_loop Q J s of Some r \<Rightarrow> r | None \<Rightarrow> (Panic, s))"

text \<open>\<open>flush_ready\<close>: the same without waiting, for the poll-based calls.\<close>

partial_function (option) flush_ready_loop ::
  "'q quiche \<Rightarrow> 'w juice \<Rightarrow> 'q qconn \<times> 'w \<Rightarrow> ((unit, quic_error) result \<times> ('q qconn \<times> 'w)) option"
where
  "flush_ready_loop Q J s =
     (case q_send Q (qc_conn (fst s)) of
        (Inl e, q) \<Rightarrow>
          Some (if e = QuicheDone then Ok () else Err (QuicProtocol e), ((fst s)\<lparr>qc_conn := q\<rparr>, snd s))
      | (Inr (pkt, at), q) \<Rightarrow>
          (let c = (fst s)\<lparr>qc_conn := q\<rparr>
           in if at > qc_now c + from_millis 1 then Some (Ok (), (c, snd s))
              else case over_ice (\<lambda>ag. ice_send J ag pkt) (c, snd s) of
                (Ok _, s') \<Rightarrow> flush_ready_loop Q J s'
              | (Err e, s') \<Rightarrow>
                  Some (if \<exists>ie. e = QuicIce ie \<and> is_would_block ie then Ok () else Err e, s')
              | (Panic, s') \<Rightarrow> Some (Panic, s')))"

definition flush_ready :: "'q quiche \<Rightarrow> 'w juice \<Rightarrow> ('q, 'w, unit) qprog" where
  "flush_ready Q J = (\<lambda>s. case flush_ready_loop Q J s of Some r \<Rightarrow> r | None \<Rightarrow> (Panic, s))"

subsection \<open>Receiving, timeouts, keepalive\<close>

definition process_packet :: "'q quiche \<Rightarrow> bytes \<Rightarrow> ('q, 'w, unit) qprog" where
  "process_packet Q packet =
     pbind (qcall (q_recv Q packet)) (\<lambda>result.
     pbind (qmodify (\<lambda>c. c\<lparr>qc_peer_error :=
       (case qc_peer_error c of None \<Rightarrow> q_peer_error Q (qc_conn c) | Some e \<Rightarrow> Some e)\<rparr>)) (\<lambda>_.
     case result of
       None \<Rightarrow> ret ()
     | Some e \<Rightarrow> if e = QuicheDone then ret () else fail (QuicProtocol e)))"

definition handle_timeout :: "'q quiche \<Rightarrow> ('q, 'w, unit) qprog" where
  "handle_timeout Q = qcall (\<lambda>q. ((), q_on_timeout Q q))"

definition send_ack_eliciting :: "'q quiche \<Rightarrow> ('q, 'w, unit) qprog" where
  "send_ack_eliciting Q = pbind (qcall (q_send_ack_eliciting Q)) (\<lambda>r.
     case r of None \<Rightarrow> ret () | Some e \<Rightarrow> fail (QuicProtocol e))"

definition send_keepalive :: "'q quiche \<Rightarrow> 'w juice \<Rightarrow> ('q, 'w, unit) qprog" where
  "send_keepalive Q J =
     pbind (qgets (\<lambda>c. q_is_established Q (qc_conn c))) (\<lambda>established.
     pbind (if established then send_ack_eliciting Q else ret ()) (\<lambda>_.
     flush_send Q J))"

text \<open>The halves of the queued streams that are still open are shut down.\<close>

definition drain_one :: "'q quiche \<Rightarrow> u64 \<times> bool \<times> bool \<Rightarrow> 'q \<Rightarrow> 'q" where
  "drain_one Q = (\<lambda>(sid, sent_fin, recv_fin) q.
     let q1 = (if recv_fin then q else q_stream_shutdown Q sid True q)
     in if sent_fin then q1 else q_stream_shutdown Q sid False q1)"

definition drain_pending_shutdown :: "'q quiche \<Rightarrow> ('q, 'w, unit) qprog" where
  "drain_pending_shutdown Q = qmodify (\<lambda>c. c\<lparr>
     qc_conn := foldl (\<lambda>q e. drain_one Q e q) (qc_conn c) (qc_pending_shutdown c),
     qc_pending_shutdown := []\<rparr>)"

subsection \<open>The driver\<close>

text \<open>
  One turn of \<open>driver_loop\<close>: what is checked before the wait, and then the event that the
  \<open>select!\<close> picked.  A turn that breaks ends the driver for good.
\<close>

datatype driver_event = PacketArrives | TimerFires | KeepaliveTick

definition driver_exit :: "'q qconn \<Rightarrow> 'q qconn" where
  "driver_exit c = c\<lparr>qc_driver_exited := True, qc_driver_running := False\<rparr>"

definition driver_event :: "'q quiche \<Rightarrow> 'w juice \<Rightarrow> driver_event \<Rightarrow> ('q, 'w, unit) qprog" where
  "driver_event Q J ev = (case ev of
     PacketArrives \<Rightarrow> pbind (over_ice (ice_recv J)) (process_packet Q)
   | TimerFires \<Rightarrow> handle_timeout Q
   | KeepaliveTick \<Rightarrow> send_keepalive Q J)"

text \<open>Whether the loop goes on.\<close>

definition driver_turn :: "'q quiche \<Rightarrow> 'w juice \<Rightarrow> driver_event \<Rightarrow> ('q, 'w, bool) qprog" where
  "driver_turn Q J ev =
     pbind (qgets qc_shutdown) (\<lambda>shutdown.
     if shutdown then ret False
     else pcatch (flush_send Q J)
       (\<lambda>_. pbind (qgets (\<lambda>c. q_is_closed Q (qc_conn c))) (\<lambda>closed.
          if closed then ret False
          else pcatch (driver_event Q J ev) (\<lambda>_. ret True) (\<lambda>_. ret False)))
       (\<lambda>_. ret False))"

definition driver_step :: "'q quiche \<Rightarrow> 'w juice \<Rightarrow> driver_event \<Rightarrow> 'q qconn \<times> 'w \<Rightarrow> 'q qconn \<times> 'w" where
  "driver_step Q J ev s =
     (if qc_driver_running (fst s)
      then case driver_turn Q J ev s of
        (Ok True, s') \<Rightarrow> s'
      | (Ok False, s') \<Rightarrow> apfst driver_exit s'
      | (_, s') \<Rightarrow> apfst (\<lambda>c. c\<lparr>qc_driver_running := False\<rparr>) s'
      else s)"

subsection \<open>Connections\<close>

definition conn_id_from_i64 :: "i64 \<Rightarrow> bytes" where
  "conn_id_from_i64 connection_id = u64_to_be_bytes connection_id"

definition quiche_result :: "quiche_error + 'a \<Rightarrow> ('a, quic_error) result" where
  "quiche_result r = (case r of Inl e \<Rightarrow> Err (QuicProtocol e) | Inr x \<Rightarrow> Ok x)"

text \<open>A program of a connection that is being made, run over the ICE state alone.\<close>

definition with_conn :: "'q qconn \<Rightarrow> ('q, 'w, unit) qprog \<Rightarrow> ('w, 'q qconn, quic_error) prog" where
  "with_conn c m = (\<lambda>w. case m (c, w) of
     (Ok _, (c', w')) \<Rightarrow> (Ok c', w') | (Err e, (c', w')) \<Rightarrow> (Err e, w') | (Panic, (c', w')) \<Rightarrow> (Panic, w'))"

definition spawn_driver :: "('q, 'w, unit) qprog" where
  "spawn_driver = qmodify (\<lambda>c. c\<lparr>qc_driver_running := True\<rparr>)"

definition quic_new_caller ::
  "'q quiche \<Rightarrow> 'w juice \<Rightarrow> agent \<Rightarrow> bytes \<Rightarrow> i64 \<Rightarrow> nat \<Rightarrow> ('w, 'q qconn, quic_error) prog"
where
  "quic_new_caller Q J ag psk connection_id now =
     pbind (lift (map_err QuicConfig (create_config Q psk Client))) (\<lambda>config.
     pbind (lift (quiche_result (q_connect Q (conn_id_from_i64 connection_id) config))) (\<lambda>conn.
     with_conn (new_inner conn ag Client now)
       (pbind (flush_send Q J) (\<lambda>_. spawn_driver))))"

definition quic_new_answerer ::
  "'q quiche \<Rightarrow> 'w juice \<Rightarrow> agent \<Rightarrow> bytes \<Rightarrow> i64 \<Rightarrow> nat \<Rightarrow> ('w, 'q qconn, quic_error) prog"
where
  "quic_new_answerer Q J ag psk connection_id now =
     pbind (lift (map_err QuicConfig (create_config Q psk Server))) (\<lambda>config.
     pbind (perr QuicIce (ice_recv J ag)) (\<lambda>initial_packet.
     pbind (lift (quiche_result (q_header_dcid Q initial_packet))) (\<lambda>dcid.
     pbind (lift (quiche_result (q_accept Q (conn_id_from_i64 connection_id) dcid config))) (\<lambda>conn.
     with_conn (new_inner conn ag Server now)
       (pbind (process_packet Q initial_packet) (\<lambda>_.
        pbind (flush_send Q J) (\<lambda>_. spawn_driver)))))))"

definition quic_state_of :: "'q quiche \<Rightarrow> 'q qconn \<Rightarrow> quic_state" where
  "quic_state_of Q c =
     (if q_is_closed Q (qc_conn c) then Closed
      else if q_is_draining Q (qc_conn c) then Closing
      else if q_is_established Q (qc_conn c) then Established
      else Handshaking)"

definition quic_is_established :: "'q quiche \<Rightarrow> 'q qconn \<Rightarrow> bool" where
  "quic_is_established Q c \<longleftrightarrow> quic_state_of Q c = Established"

text \<open>
  A pass of an operation that waits, and the operation: passes with what happens in between,
  until one gives an answer.  \<open>None\<close> at the end is an operation that still waits.
\<close>

fun waiting :: "('s, 'a option, 'e) prog \<Rightarrow> ('s \<Rightarrow> 's) list \<Rightarrow> ('s, 'a option, 'e) prog" where
  "waiting pass [] s = pass s"
| "waiting pass (ev # evs) s = (case pass s of
     (Ok None, s') \<Rightarrow> waiting pass evs (ev s') | (r, s') \<Rightarrow> (r, s'))"

definition handshake_pass :: "'q quiche \<Rightarrow> ('q, 'w, unit option) qprog" where
  "handshake_pass Q =
     pbind (qgets id) (\<lambda>c.
     if q_is_established Q (qc_conn c) then ret (Some ())
     else if q_is_closed Q (qc_conn c) then fail HandshakeFailed
     else if qc_driver_exited c then fail HandshakeFailed
     else ret None)"

definition ping_start :: "'q quiche \<Rightarrow> 'w juice \<Rightarrow> ('q, 'w, nat) qprog" where
  "ping_start Q J =
     pbind (qgets id) (\<lambda>c.
     if q_is_closed Q (qc_conn c) \<or> q_is_draining Q (qc_conn c) then fail ConnectionClosed
     else
       pbind (send_ack_eliciting Q) (\<lambda>_.
       pbind (qgets (\<lambda>c. q_acked_bytes Q (qc_conn c))) (\<lambda>acked_before.
       pbind (flush_send Q J) (\<lambda>_. ret acked_before))))"

definition ping_pass :: "'q quiche \<Rightarrow> nat \<Rightarrow> nat \<Rightarrow> ('q, 'w, duration option) qprog" where
  "ping_pass Q start acked_before =
     pbind (qgets id) (\<lambda>c.
     if acked_before < q_acked_bytes Q (qc_conn c) then ret (Some (qc_now c - start))
     else if q_is_closed Q (qc_conn c) \<or> q_is_draining Q (qc_conn c) then fail ConnectionClosed
     else if qc_driver_exited c then fail ConnectionClosed
     else ret None)"

definition quic_ping ::
  "'q quiche \<Rightarrow> 'w juice \<Rightarrow> ('q qconn \<times> 'w \<Rightarrow> 'q qconn \<times> 'w) list \<Rightarrow> ('q, 'w, duration option) qprog"
where
  "quic_ping Q J evs =
     pbind (qgets qc_now) (\<lambda>start.
     pbind (ping_start Q J) (\<lambda>acked_before.
     waiting (ping_pass Q start acked_before) evs))"

text \<open>
  \<open>is_char_boundary\<close> of a UTF-8 string given by its bytes, and the loop that moves back to
  one.  Byte 0 is a boundary, so the loop stops there.
\<close>

definition is_char_boundary :: "bytes \<Rightarrow> nat \<Rightarrow> bool" where
  "is_char_boundary s i \<longleftrightarrow> i = 0 \<or> i = length s \<or> (i < length s \<and> (s ! i < 128 \<or> 192 \<le> s ! i))"

fun floor_boundary :: "bytes \<Rightarrow> nat \<Rightarrow> nat" where
  "floor_boundary s 0 = 0"
| "floor_boundary s (Suc e) = (if is_char_boundary s (Suc e) then Suc e else floor_boundary s e)"

definition close_reason :: "bytes \<Rightarrow> bytes" where
  "close_reason reason = take (floor_boundary reason (min (length reason) MAX_CLOSE_REASON_LEN)) reason"

definition quic_close_with_error ::
  "'q quiche \<Rightarrow> 'w juice \<Rightarrow> u64 \<Rightarrow> bytes \<Rightarrow> ('q, 'w, unit) qprog"
where
  "quic_close_with_error Q J error_code reason =
     (if error_code > MAX_ERROR_CODE then fail (InvalidErrorCode error_code)
      else
        pbind (qcall (\<lambda>q. ((), q_close Q True error_code (close_reason reason) q))) (\<lambda>_.
        pbind (flush_send Q J) (\<lambda>_.
        qmodify (\<lambda>c. c\<lparr>qc_shutdown := True\<rparr>))))"

text \<open>Dropping the connection aborts the driver task.\<close>

definition drop_connection :: "'q qconn \<Rightarrow> 'q qconn" where
  "drop_connection c = c\<lparr>qc_shutdown := True, qc_driver_running := False\<rparr>"

subsection \<open>Streams\<close>

record quic_stream =
  st_id :: u64
  st_recv_fin :: bool
  st_sent_fin :: bool

definition new_stream :: "u64 \<Rightarrow> quic_stream" where
  "new_stream stream_id = \<lparr>st_id = stream_id, st_recv_fin = False, st_sent_fin = False\<rparr>"

definition stream_base :: "quic_role \<Rightarrow> u64" where
  "stream_base role = (case role of Client \<Rightarrow> 0 | Server \<Rightarrow> 1)"

text \<open>Allocating the next id and opening it by sending nothing on it.\<close>

definition allocate_stream :: "'q quiche \<Rightarrow> ('q, 'w, u64) qprog" where
  "allocate_stream Q =
     pbind (qgets (\<lambda>c. stream_base (qc_role c) + 4 * qc_next_stream_index c)) (\<lambda>sid.
     pbind (qmodify (\<lambda>c. c\<lparr>qc_next_stream_index := qc_next_stream_index c + 1\<rparr>)) (\<lambda>_.
     pbind (qcall (q_stream_send Q sid [] False)) (\<lambda>r.
     case r of
       Inl e \<Rightarrow> if e = QuicheDone then ret sid else fail (QuicProtocol e)
     | Inr _ \<Rightarrow> ret sid)))"

definition open_pass :: "'q quiche \<Rightarrow> 'w juice \<Rightarrow> ('q, 'w, quic_stream option) qprog" where
  "open_pass Q J =
     pbind (drain_pending_shutdown Q) (\<lambda>_.
     pbind (qgets id) (\<lambda>c.
     if q_is_closed Q (qc_conn c) then fail ConnectionClosed
     else if qc_driver_exited c then fail ConnectionClosed
     else
       pbind (if q_peer_streams_left_bidi Q (qc_conn c) = 0 then ret None
              else pbind (allocate_stream Q) (\<lambda>sid. ret (Some sid))) (\<lambda>opened.
       pbind (flush_send Q J) (\<lambda>_.
       ret (map_option new_stream opened)))))"

text \<open>The search of \<open>accept_stream\<close> for a readable stream that was not accepted before.\<close>

partial_function (option) next_unaccepted ::
  "'q quiche \<Rightarrow> u64 set \<Rightarrow> 'q \<Rightarrow> (u64 option \<times> 'q) option"
where
  "next_unaccepted Q accepted q =
     (case q_stream_readable_next Q q of
        (None, q') \<Rightarrow> Some (None, q')
      | (Some sid, q') \<Rightarrow> if sid \<in> accepted then next_unaccepted Q accepted q' else Some (Some sid, q'))"

definition accept_scan :: "'q quiche \<Rightarrow> ('q, 'w, u64 option) qprog" where
  "accept_scan Q = (\<lambda>(c, w). case next_unaccepted Q (qc_accepted_streams c) (qc_conn c) of
     None \<Rightarrow> (Panic, (c, w))
   | Some (None, q) \<Rightarrow> (Ok None, (c\<lparr>qc_conn := q\<rparr>, w))
   | Some (Some sid, q) \<Rightarrow>
       (Ok (Some sid), (c\<lparr>qc_conn := q, qc_accepted_streams := insert sid (qc_accepted_streams c)\<rparr>, w)))"

definition accept_pass :: "'q quiche \<Rightarrow> 'w juice \<Rightarrow> ('q, 'w, quic_stream option) qprog" where
  "accept_pass Q J =
     pbind (drain_pending_shutdown Q) (\<lambda>_.
     pbind (accept_scan Q) (\<lambda>found.
     case found of
       Some sid \<Rightarrow> ret (Some (new_stream sid))
     | None \<Rightarrow>
         pbind (qgets id) (\<lambda>c.
         if q_is_closed Q (qc_conn c) then fail ConnectionClosed
         else if qc_driver_exited c then fail ConnectionClosed
         else pbind (flush_send Q J) (\<lambda>_. ret None))))"

text \<open>The calls on a stream run over the stream's two flags and the connection.\<close>

type_synonym ('q, 'w, 'a) sprog = "(quic_stream \<times> 'q qconn \<times> 'w, 'a, quic_error) prog"

definition on_conn :: "('q, 'w, 'a) qprog \<Rightarrow> ('q, 'w, 'a) sprog" where
  "on_conn m = (\<lambda>(st, s). case m s of (r, s') \<Rightarrow> (r, (st, s')))"

definition set_recv_fin :: "('q, 'w, unit) sprog" where
  "set_recv_fin = modify (apfst (\<lambda>st. st\<lparr>st_recv_fin := True\<rparr>))"

definition set_sent_fin :: "('q, 'w, unit) sprog" where
  "set_sent_fin = modify (apfst (\<lambda>st. st\<lparr>st_sent_fin := True\<rparr>))"

text \<open>\<open>stream_send\<close> with \<open>Done\<close> read as no byte taken.\<close>

definition send_bytes :: "'q quiche \<Rightarrow> bytes \<Rightarrow> bool \<Rightarrow> ('q, 'w, nat) sprog" where
  "send_bytes Q data fin =
     pbind (gets fst) (\<lambda>st.
     pbind (on_conn (qcall (q_stream_send Q (st_id st) data fin))) (\<lambda>r.
     case r of
       Inr n \<Rightarrow> ret n
     | Inl e \<Rightarrow> if e = QuicheDone then ret 0 else fail (QuicProtocol e)))"

definition stream_write :: "'q quiche \<Rightarrow> 'w juice \<Rightarrow> bytes \<Rightarrow> ('q, 'w, nat) sprog" where
  "stream_write Q J data =
     pbind (send_bytes Q data False) (\<lambda>written.
     pbind (on_conn (flush_send Q J)) (\<lambda>_. ret written))"

text \<open>
  \<open>write_all\<close>: the loop until everything is taken or no byte is, in which case it waits
  with the rest, which is the result.
\<close>

function write_some :: "'q quiche \<Rightarrow> 'w juice \<Rightarrow> bytes \<Rightarrow> ('q, 'w, bytes) sprog" where
  "write_some Q J data s =
     (if data = [] then (Ok [], s)
      else case send_bytes Q data False s of
        (Ok written, s') \<Rightarrow>
          (if 0 < written
           then case on_conn (flush_send Q J) s' of
               (Ok _, s'') \<Rightarrow> write_some Q J (drop written data) s''
             | (Err e, s'') \<Rightarrow> (Err e, s'')
             | (Panic, s'') \<Rightarrow> (Panic, s'')
           else (Ok data, s'))
      | (Err e, s') \<Rightarrow> (Err e, s')
      | (Panic, s') \<Rightarrow> (Panic, s'))"
  by pat_completeness auto
termination by (relation "measure (\<lambda>(Q, J, data, s). length data)") auto

fun stream_write_all ::
  "'q quiche \<Rightarrow> 'w juice \<Rightarrow> bytes \<Rightarrow>
   ((quic_stream \<times> 'q qconn \<times> 'w) \<Rightarrow> (quic_stream \<times> 'q qconn \<times> 'w)) list \<Rightarrow> ('q, 'w, unit option) sprog"
where
  "stream_write_all Q J data [] s = (case write_some Q J data s of
     (Ok rest, s') \<Rightarrow> (Ok (if rest = [] then Some () else None), s')
   | (Err e, s') \<Rightarrow> (Err e, s')
   | (Panic, s') \<Rightarrow> (Panic, s'))"
| "stream_write_all Q J data (ev # evs) s = (case write_some Q J data s of
     (Ok rest, s') \<Rightarrow>
       (if rest = [] then (Ok (Some ()), s') else stream_write_all Q J rest evs (ev s'))
   | (Err e, s') \<Rightarrow> (Err e, s')
   | (Panic, s') \<Rightarrow> (Panic, s'))"

text \<open>What a read does when there is nothing to read, and one pass of a read.\<close>

definition read_idle :: "'q quiche \<Rightarrow> ('q, 'w, bytes option) sprog" where
  "read_idle Q =
     pbind (gets (fst \<circ> snd)) (\<lambda>c.
     if q_is_closed Q (qc_conn c) then fail ConnectionClosed
     else if qc_driver_exited c then fail ConnectionClosed
     else ret None)"

definition read_pass :: "'q quiche \<Rightarrow> nat \<Rightarrow> ('q, 'w, bytes option) sprog" where
  "read_pass Q len =
     pbind (gets fst) (\<lambda>st.
     if st_recv_fin st then ret (Some [])
     else
       pbind (on_conn (qcall (q_stream_recv Q (st_id st) len))) (\<lambda>r.
       case r of
         Inr (data, fin) \<Rightarrow> pbind (if fin then set_recv_fin else ret ()) (\<lambda>_. ret (Some data))
       | Inl e \<Rightarrow>
           if e \<noteq> QuicheDone then fail (QuicProtocol e)
           else
             pbind (gets (fst \<circ> snd)) (\<lambda>c.
             if q_stream_finished Q (st_id st) (qc_conn c)
             then pbind set_recv_fin (\<lambda>_. ret (Some []))
             else read_idle Q)))"

definition stream_finish :: "'q quiche \<Rightarrow> 'w juice \<Rightarrow> ('q, 'w, unit) sprog" where
  "stream_finish Q J =
     pbind (send_bytes Q [] True) (\<lambda>_.
     pbind set_sent_fin (\<lambda>_.
     on_conn (flush_send Q J)))"

definition stream_shutdown :: "'q quiche \<Rightarrow> 'w juice \<Rightarrow> ('q, 'w, unit) sprog" where
  "stream_shutdown Q J =
     pbind (gets fst) (\<lambda>st.
     pbind (on_conn (qmodify (\<lambda>c. c\<lparr>qc_conn :=
       q_stream_shutdown Q (st_id st) False (q_stream_shutdown Q (st_id st) True (qc_conn c))\<rparr>))) (\<lambda>_.
     on_conn (flush_send Q J)))"

text \<open>\<open>Drop\<close>: a stream that did not close cleanly is queued.\<close>

definition drop_stream :: "quic_stream \<Rightarrow> 'q qconn \<Rightarrow> 'q qconn" where
  "drop_stream st c =
     (if st_sent_fin st \<and> st_recv_fin st then c
      else c\<lparr>qc_pending_shutdown :=
        qc_pending_shutdown c @ [(st_id st, st_sent_fin st, st_recv_fin st)]\<rparr>)"

subsection \<open>Poll-based calls\<close>

text \<open>
  \<open>contended\<close> says that another task holds the connection lock, so that \<open>try_lock\<close> fails.
  The outcome of a poll is \<open>None\<close> when it is pending.
\<close>

datatype io_error = ConnectionAborted | IoOther quic_error

definition io_other :: "(quic_stream \<times> 'q qconn \<times> 'w, 'a, quic_error) prog \<Rightarrow>
    (quic_stream \<times> 'q qconn \<times> 'w, 'a, io_error) prog" where
  "io_other m = perr IoOther m"

definition poll_read :: "'q quiche \<Rightarrow> bool \<Rightarrow> nat \<Rightarrow> (quic_stream \<times> 'q qconn \<times> 'w, bytes option, io_error) prog" where
  "poll_read Q contended len =
     pbind (gets fst) (\<lambda>st.
     if st_recv_fin st then ret (Some [])
     else if contended then ret None
     else
       pbind (io_other (on_conn (qcall (q_stream_recv Q (st_id st) len)))) (\<lambda>r.
       case r of
         Inr (data, fin) \<Rightarrow>
           pbind (if fin then io_other set_recv_fin else ret ()) (\<lambda>_.
           if data = [] \<and> \<not> fin then ret None else ret (Some data))
       | Inl e \<Rightarrow>
           if e \<noteq> QuicheDone then fail (IoOther (QuicProtocol e))
           else
             pbind (gets (fst \<circ> snd)) (\<lambda>c.
             if q_stream_finished Q (st_id st) (qc_conn c)
             then pbind (io_other set_recv_fin) (\<lambda>_. ret (Some []))
             else if q_is_closed Q (qc_conn c) \<or> qc_driver_exited c then fail ConnectionAborted
             else ret None)))"

definition poll_write ::
  "'q quiche \<Rightarrow> 'w juice \<Rightarrow> bool \<Rightarrow> bytes \<Rightarrow> (quic_stream \<times> 'q qconn \<times> 'w, nat option, io_error) prog"
where
  "poll_write Q J contended data =
     (if contended then ret None
      else
        pbind (io_other (send_bytes Q data False)) (\<lambda>n.
        if n = 0
        then pbind (gets (qc_driver_exited \<circ> fst \<circ> snd)) (\<lambda>exited.
               if exited then fail ConnectionAborted else ret None)
        else pbind (io_other (on_conn (flush_ready Q J))) (\<lambda>_. ret (Some n))))"

definition poll_flush ::
  "'q quiche \<Rightarrow> 'w juice \<Rightarrow> bool \<Rightarrow> (quic_stream \<times> 'q qconn \<times> 'w, unit option, io_error) prog"
where
  "poll_flush Q J contended =
     (if contended then ret (Some ())
      else pbind (io_other (on_conn (flush_ready Q J))) (\<lambda>_. ret (Some ())))"

definition poll_shutdown ::
  "'q quiche \<Rightarrow> 'w juice \<Rightarrow> bool \<Rightarrow> (quic_stream \<times> 'q qconn \<times> 'w, unit option, io_error) prog"
where
  "poll_shutdown Q J contended =
     (if contended then ret None
      else
        pbind (io_other (send_bytes Q [] True)) (\<lambda>_.
        pbind (io_other set_sent_fin) (\<lambda>_.
        pcatch (on_conn (flush_ready Q J)) (\<lambda>_. ret (Some ())) (\<lambda>_. ret (Some ())))))"

subsection \<open>QuicConnection of p2p.rs\<close>

record 'q quic_connection =
  qn_peer_node_number :: i32
  qn_connection_id :: i64
  qn_inner :: "'q qconn"

text \<open>
  A connection is handed out once its handshake is over; \<open>evs\<close> is what the driver does
  meanwhile, and a handshake that still waits after it has not returned.
\<close>

definition established ::
  "'q quiche \<Rightarrow> ('q qconn \<times> 'w \<Rightarrow> 'q qconn \<times> 'w) list \<Rightarrow> i32 \<Rightarrow> i64 \<Rightarrow> 'q qconn \<Rightarrow>
   ('w, 'q quic_connection option, p2p_error) prog"
where
  "established Q evs peer connection_id quic = (\<lambda>w.
     case waiting (handshake_pass Q) evs (quic, w) of
       (Ok (Some _), (c, w')) \<Rightarrow>
         (Ok (Some \<lparr>qn_peer_node_number = peer, qn_connection_id = connection_id, qn_inner = c\<rparr>), w')
     | (Ok None, (c, w')) \<Rightarrow> (Ok None, w')
     | (Err e, (c, w')) \<Rightarrow> (Err (P2pQuic e), w')
     | (Panic, (c, w')) \<Rightarrow> (Panic, w'))"

definition quic_connect_caller ::
  "prims \<Rightarrow> 'q quiche \<Rightarrow> 'w juice \<Rightarrow> ('q qconn \<times> 'w \<Rightarrow> 'q qconn \<times> 'w) list \<Rightarrow> nat \<Rightarrow>
   i32 \<Rightarrow> i64 \<Rightarrow> ice_caller \<Rightarrow> bytes \<Rightarrow> ('w, 'q quic_connection option, p2p_error) prog"
where
  "quic_connect_caller P Q J evs now peer connection_id ice shared_secret =
     pbind (lift (derive_psk P shared_secret)) (\<lambda>psk.
     pbind (perr P2pQuic (quic_new_caller Q J (ic_agent ice) psk connection_id now)) (\<lambda>quic.
     established Q evs peer connection_id quic))"

definition quic_connect_answerer ::
  "prims \<Rightarrow> 'q quiche \<Rightarrow> 'w juice \<Rightarrow> ('q qconn \<times> 'w \<Rightarrow> 'q qconn \<times> 'w) list \<Rightarrow> nat \<Rightarrow>
   i32 \<Rightarrow> i64 \<Rightarrow> ice_answerer \<Rightarrow> bytes \<Rightarrow> ('w, 'q quic_connection option, p2p_error) prog"
where
  "quic_connect_answerer P Q J evs now peer connection_id ice shared_secret =
     pbind (perr P2pIce (ice_answerer_connect J ice)) (\<lambda>_.
     pbind (lift (derive_psk P shared_secret)) (\<lambda>psk.
     pbind (perr P2pQuic (quic_new_answerer Q J (ia_agent ice) psk connection_id now)) (\<lambda>quic.
     established Q evs peer connection_id quic)))"

text \<open>The ping of a connection, given up after the \<open>timeout\<close>.\<close>

definition conn_ping ::
  "'q quiche \<Rightarrow> 'w juice \<Rightarrow> ('q qconn \<times> 'w \<Rightarrow> 'q qconn \<times> 'w) list \<Rightarrow>
   ('q qconn \<times> 'w, duration, p2p_error) prog"
where
  "conn_ping Q J evs =
     pbind (perr P2pQuic (quic_ping Q J evs)) (\<lambda>r.
     lift (ok_or P2pTimeout r))"

definition conn_close_with_error ::
  "'q quiche \<Rightarrow> 'w juice \<Rightarrow> u64 \<Rightarrow> bytes \<Rightarrow> 'q quic_connection \<Rightarrow> ('w, 'q qconn, p2p_error) prog"
where
  "conn_close_with_error Q J error_code reason c =
     pbind (perr P2pQuic (with_conn (qn_inner c) (quic_close_with_error Q J error_code reason))) (\<lambda>inner.
     ret (drop_connection inner))"

definition conn_close :: "'q quiche \<Rightarrow> 'w juice \<Rightarrow> 'q quic_connection \<Rightarrow> ('w, 'q qconn, p2p_error) prog" where
  "conn_close Q J c = conn_close_with_error Q J 0 [] c"
declare send_datagram.simps [simp del] write_some.simps [simp del]

end
