(* ===== verification/Connect.thy ===== *)
theory Connect
  imports Node Quic
begin

text \<open>
  \<open>connect_udp\<close> and \<open>connect_quic\<close> of \<open>wispers-connect/src/node.rs\<close>: how a caller
  negotiates a connection through the hub.  The two functions share all but the transport
  they ask for and the connection they build at the end.  The ICE library \<open>J\<close> runs in the
  world of the hub, so that both may depend on each other.
\<close>

text \<open>A program of the ICE library, run in the world of an environment.\<close>

definition on_world :: "('w, 'a, 'e) prog \<Rightarrow> (('w, 'z) env_scheme, 'a, 'e) prog" where
  "on_world m = (\<lambda>s. case m (ev_world s) of (r, w) \<Rightarrow> (r, s\<lparr>ev_world := w\<rparr>))"

definition sleep_until :: "nat \<Rightarrow> (('w, 'z) env_scheme, unit, 'e) prog" where
  "sleep_until t = modify (\<lambda>s. s\<lparr>ev_now := max (ev_now s) t\<rparr>)"

text \<open>The round trip in microseconds; one that does not fit 64 bits is sent as unknown.\<close>

definition rtt_usec :: "('w, 'z) env_scheme \<Rightarrow> i64" where
  "rtt_usec s =
     (let usec = (case rtt_estimate (ev_now s) (ev_rtt s) of None \<Rightarrow> 0 | Some d \<Rightarrow> d div 1000)
      in if usec < 2 ^ 63 then of_nat usec else 0)"

definition caller_payload ::
  "prims \<Rightarrow> bytes \<Rightarrow> transport \<Rightarrow> i32 \<Rightarrow> string \<Rightarrow> stun_turn_config \<Rightarrow> i64 \<Rightarrow> request_payload"
where
  "caller_payload P key transport peer sdp stun_turn rtt =
     \<lparr>rq_answerer_node_number = peer, rq_caller_x25519_public_key = x_public_key P key,
      rq_caller_sdp = sdp, rq_transport = transport_to_i32 transport,
      rq_stun_turn_config = Some stun_turn, rq_caller_hub_rtt_usec = rtt,
      rq_caller_ice_start_delay_usec = of_nat (CALLER_ICE_START_DELAY div 1000)\<rparr>"

text \<open>What the caller makes of the answer: the verified payload and the shared secret.\<close>

definition accept_answer ::
  "prims \<Rightarrow> bytes \<Rightarrow> bytes \<Rightarrow> start_connection_response \<Rightarrow> (response_payload \<times> bytes, p2p_error) result"
where
  "accept_answer P key peer_spki response =
     rbind (map_err (\<lambda>_. P2pSignatureVerificationFailed) (verify_response P response peer_spki)) (\<lambda>payload.
     rbind (check (length (rs_answerer_x25519_public_key payload) = 32) P2pSignatureVerificationFailed) (\<lambda>_.
     Ok (payload, diffie_hellman P key (rs_answerer_x25519_public_key payload))))"

definition negotiate ::
  "prims \<Rightarrow> 'w hub \<Rightarrow> 'w juice \<Rightarrow> (nat \<Rightarrow> u8) \<Rightarrow> transport \<Rightarrow> i32 \<Rightarrow>
   (('w, 's) sys, i64 \<times> ice_caller \<times> bytes, p2p_error) prog"
where
  "negotiate P H J rand transport peer =
     pbind (gets sy_node) (\<lambda>n.
     pbind (lift (check (node_state_of n = Activated) P2pNotActivated)) (\<lambda>_.
     pbind (lift (expect (ps_registration (nd_persisted n)))) (\<lambda>registration.
     pbind (perr P2pHub (connect H (nd_hub_addr n))) (\<lambda>_.
     pbind (find_peer_in_roster P H peer) (\<lambda>peer_node.
     pbind (perr P2pHub (get_stun_turn_config H registration)) (\<lambda>stun_turn.
     pbind (perr P2pIce (on_world (ice_caller_new J stun_turn))) (\<lambda>ice.
     let key = generate_ephemeral rand in
     pbind (gets rtt_usec) (\<lambda>rtt.
     let request = build_signed_request P (nd_signing_key n)
       (caller_payload P key transport peer (ic_local_desc ice) stun_turn rtt) in
     pbind (perr P2pHub (start_connection H registration request)) (\<lambda>response.
     pbind (gets ev_now) (\<lambda>answer_received.
     pbind (lift (accept_answer P key (rn_public_key_spki peer_node) response)) (\<lambda>(payload, shared_secret).
     pbind (sleep_until (answer_received + CALLER_ICE_START_DELAY)) (\<lambda>_.
     pbind (perr P2pIce (on_world (ice_caller_connect J ice (rs_answerer_sdp payload)))) (\<lambda>_.
     ret (rs_connection_id payload, ice, shared_secret))))))))))))))"

definition connect_udp ::
  "prims \<Rightarrow> 'w hub \<Rightarrow> 'w juice \<Rightarrow> (nat \<Rightarrow> u8) \<Rightarrow> i32 \<Rightarrow> (('w, 's) sys, udp_connection, p2p_error) prog"
where
  "connect_udp P H J rand peer =
     pbind (negotiate P H J rand Datagram peer) (\<lambda>(connection_id, ice, shared_secret).
     lift (udp_new_caller P peer connection_id ice shared_secret))"

text \<open>
  For QUIC, \<open>evs\<close> is what the new connection's driver does while the handshake waits; \<open>None\<close>
  is a handshake that has not come to an end after it.
\<close>

definition connect_quic ::
  "prims \<Rightarrow> 'w hub \<Rightarrow> 'w juice \<Rightarrow> 'q quiche \<Rightarrow> ('q qconn \<times> 'w \<Rightarrow> 'q qconn \<times> 'w) list \<Rightarrow>
   (nat \<Rightarrow> u8) \<Rightarrow> i32 \<Rightarrow> (('w, 's) sys, 'q quic_connection option, p2p_error) prog"
where
  "connect_quic P H J Q evs rand peer =
     pbind (negotiate P H J rand Stream peer) (\<lambda>(connection_id, ice, shared_secret).
     pbind (gets ev_now) (\<lambda>now.
     on_world (quic_connect_caller P Q J evs now peer connection_id ice shared_secret)))"

end
