(* ===== verification/Session.thy ===== *)
theory Session
  imports Connect
begin

text \<open>
  The serving session of \<open>wispers-connect/src/serving.rs\<close> and \<open>start_serving\<close> of \<open>node.rs\<close>: a
  task that answers the hub's requests and the application's commands, reconnects when the
  stream drops, and accepts connections.  \<open>run\<close> is the machine \<open>session_step\<close>: one event is
  one branch of the \<open>select!\<close> that the session is waiting in.  The capacity of the channels,
  and what a channel delays because it is full, are not modelled.
\<close>

subsection \<open>State\<close>

record p2p_config =
  pcf_hub_addr :: string
  pcf_registration :: node_registration

record serving_status =
  sst_connected :: bool
  sst_connectivity_group_id :: string
  sst_node_number :: i32
  sst_endorsing :: "endorsing_status option"

datatype command = CmdStatus | CmdGenerateActivationCode ttl_profile | CmdShutdown

text \<open>What a command's sender gets back on its \<open>oneshot\<close> channel.\<close>

datatype reply = NoReply | StatusReply serving_status | CodeReply "(pairing_code, serving_error) result"

text \<open>An accepted request: the spawned task that brings the connection up.\<close>

record answer_task =
  at_transport :: transport
  at_caller :: i32
  at_connection_id :: i64
  at_ice :: ice_answerer
  at_secret :: bytes
  at_start :: nat

text \<open>
  Where the session is: in \<open>serve\<close>, in \<open>reconnect\<close> racing an attempt, in \<open>reconnect\<close> waiting
  for the next one, or gone.  The duration is the backoff's \<open>current\<close>.
\<close>

datatype phase =
    Serving
  | Connecting duration
  | BackingOff duration nat
  | Ended "(unit, serving_error) result"

record ('w, 'q) session = "'w env" +
  se_signing_key :: signing_seed
  se_node_number :: i32
  se_connectivity_group_id :: string
  se_endorsing :: endorsing_state
  se_connected :: bool
  se_config :: p2p_config
  se_connection_id_counter :: i64
  \<comment> \<open>the current stream: when it was opened, whether it still takes responses, and what was sent\<close>
  se_opened_at :: nat
  se_stream_open :: bool
  se_sent :: "serving_response list"
  se_tasks :: "answer_task list"
  \<comment> \<open>whether the application still holds the receivers, and what they were given\<close>
  se_receivers :: bool
  se_incoming_udp :: "(udp_connection, p2p_error) result list"
  se_incoming_quic :: "('q quic_connection, p2p_error) result list"
  se_phase :: phase

subsection \<open>Reconnect backoff\<close>

definition BACKOFF_BASE :: duration where "BACKOFF_BASE = from_secs 1"
definition BACKOFF_CAP :: duration where "BACKOFF_CAP = from_secs 30"

text \<open>
  \<open>next_delay\<close>: the jittered delay and the advanced schedule.  \<open>jitter\<close> is the product with
  the factor drawn, between 0.8 and 1.2.
\<close>

definition next_delay :: "(duration \<Rightarrow> duration) \<Rightarrow> duration \<Rightarrow> duration \<times> duration" where
  "next_delay jitter current = (jitter current, min (current * 2) BACKOFF_CAP)"

definition jitter_ok :: "(duration \<Rightarrow> duration) \<Rightarrow> bool" where
  "jitter_ok jitter \<longleftrightarrow> (\<forall>d. 4 * d \<le> 5 * jitter d \<and> 5 * jitter d \<le> 6 * d)"

subsection \<open>Opening\<close>

definition open_serving_connection ::
  "'w hub \<Rightarrow> string \<Rightarrow> node_registration \<Rightarrow> (('w, 'z) env_scheme, nat, hub_error) prog"
where
  "open_serving_connection H hub_addr registration =
     pbind (connect H hub_addr) (\<lambda>_. hub_start_serving H registration)"

text \<open>\<open>ServingSession::new\<close>, with the node's environment shared; \<open>run\<close> starts in \<open>serve\<close>.\<close>

definition session_new ::
  "nat \<Rightarrow> signing_seed \<Rightarrow> string \<Rightarrow> i32 \<Rightarrow> p2p_config \<Rightarrow> ('w, 'z) env_scheme \<Rightarrow> ('w, 'q) session"
where
  "session_new opened_at signing_key group_id node_number config s =
     \<lparr>ev_world = ev_world s, ev_rtt = ev_rtt s, ev_now = ev_now s,
      se_signing_key = signing_key, se_node_number = node_number, se_connectivity_group_id = group_id,
      se_endorsing = endorsing_new, se_connected = True, se_config = config,
      se_connection_id_counter = 1, se_opened_at = opened_at, se_stream_open = True, se_sent = [],
      se_tasks = [], se_receivers = True, se_incoming_udp = [], se_incoming_quic = [],
      se_phase = Serving\<rparr>"

definition start_serving ::
  "'w hub \<Rightarrow> (('w, 's) sys, ('w, 'q) session, node_state_error) prog"
where
  "start_serving H =
     pbind (gets sy_node) (\<lambda>n.
     pbind (lift (require_registered_or_activated n)) (\<lambda>registration.
     let config = \<lparr>pcf_hub_addr = nd_hub_addr n, pcf_registration = registration\<rparr> in
     pbind (perr Hub (open_serving_connection H (nd_hub_addr n) registration)) (\<lambda>opened_at.
     gets (session_new opened_at (nd_signing_key n) (nr_connectivity_group_id registration)
       (nr_node_number registration) config))))"

subsection \<open>Responses\<close>

text \<open>Whether the response could be sent.\<close>

definition send_response :: "serving_response \<Rightarrow> (('w, 'q) session, bool, 'e) prog" where
  "send_response r = (\<lambda>s. if se_stream_open s then (Ok True, s\<lparr>se_sent := se_sent s @ [r]\<rparr>)
     else (Ok False, s))"

definition send_error_response :: "i64 \<Rightarrow> string \<Rightarrow> (('w, 'q) session, unit, 'e) prog" where
  "send_error_response request_id message =
     pbind (send_response \<lparr>sp_request_id = request_id, sp_error = message, sp_kind = None\<rparr>) (\<lambda>_. ret ())"

definition send_answer :: "i64 \<Rightarrow> serving_response_kind \<Rightarrow> (('w, 'q) session, bool, 'e) prog" where
  "send_answer request_id kind =
     send_response \<lparr>sp_request_id = request_id, sp_error = [], sp_kind = Some kind\<rparr>"

definition send_check_in :: "(('w, 'q) session, unit, 'e) prog" where
  "send_check_in = pbind (send_answer 0 CheckIn) (\<lambda>_. ret ())"

subsection \<open>Commands\<close>

definition build_status :: "('w, 'q) session \<Rightarrow> serving_status" where
  "build_status s = \<lparr>sst_connected = se_connected s,
     sst_connectivity_group_id = se_connectivity_group_id s, sst_node_number = se_node_number s,
     sst_endorsing = endorsing_status_of (ev_now s) (se_endorsing s)\<rparr>"

text \<open>The reply and whether the session shuts down; \<open>None\<close> is a closed command channel.\<close>

definition dispatch_command ::
  "(nat \<Rightarrow> u8) \<Rightarrow> command option \<Rightarrow> (('w, 'q) session, reply \<times> bool, 'e) prog"
where
  "dispatch_command rand cmd = (\<lambda>s. case cmd of
     Some CmdStatus \<Rightarrow> (Ok (StatusReply (build_status s), False), s)
   | Some (CmdGenerateActivationCode profile) \<Rightarrow>
       (case generate_activation_code_with_ttl (ev_now s) (ev_now s) rand (se_node_number s) profile
               (se_endorsing s) of
          (result, es) \<Rightarrow> (Ok (CodeReply result, False), s\<lparr>se_endorsing := es\<rparr>))
   | Some CmdShutdown \<Rightarrow> (Ok (NoReply, True), s)
   | None \<Rightarrow> (Ok (NoReply, True), s))"

subsection \<open>Connection requests\<close>

fun juice_error_text :: "juice_error \<Rightarrow> string" where
  "juice_error_text JuiceInvalid = ''juice: invalid argument''"
| "juice_error_text JuiceFailed = ''juice: runtime failure''"
| "juice_error_text JuiceNotAvailable = ''juice: element not available''"
| "juice_error_text JuiceIgnored = ''juice: ignored''"
| "juice_error_text JuiceAgain = ''juice: buffer full (try again)''"
| "juice_error_text JuiceTooLarge = ''juice: datagram too large''"
| "juice_error_text JuiceClosed = ''juice: agent already closed''"
| "juice_error_text JuiceCreationFailed = ''juice: failed to create agent''"
| "juice_error_text JuiceInteriorNul = ''juice: string contains interior NUL byte''"
| "juice_error_text (JuiceUnknown code) = ''juice: error code '' @ int_to_string (sint code)"

fun ice_error_text :: "ice_error \<Rightarrow> string" where
  "ice_error_text (IceJuice e) = ''juice error: '' @ juice_error_text e"
| "ice_error_text IceChannelClosed = ''channel closed''"
| "ice_error_text IceConnectionFailed = ''connection failed''"
| "ice_error_text IceInvalidPort = ''invalid port number''"

text \<open>
  \<open>handle_start_connection_request\<close> in its parts; the error of each is the text of the error
  response.  First the fresh roster:
\<close>

definition roster_refusal :: "hub_error \<Rightarrow> string" where
  "roster_refusal e = (case e of
     RosterVerification (VerifierNotInRoster _) \<Rightarrow> ''node not yet activated''
   | RosterVerification (VerifierRevoked _) \<Rightarrow> ''node has been revoked''
   | _ \<Rightarrow> ''internal error'')"

definition fetch_serving_roster ::
  "prims \<Rightarrow> 'w hub \<Rightarrow> (('w, 'q) session, roster, string) prog"
where
  "fetch_serving_roster P H =
     pbind (gets se_config) (\<lambda>config.
     pbind (perr (\<lambda>_. ''internal error'') (connect H (pcf_hub_addr config))) (\<lambda>_.
     pbind (gets se_signing_key) (\<lambda>sk.
     perr roster_refusal (get_and_verify_roster P H (pcf_registration config) (public_key_spki P sk)))))"

text \<open>Then who is calling:\<close>

definition admit_caller ::
  "prims \<Rightarrow> roster \<Rightarrow> i32 \<Rightarrow> start_connection_request \<Rightarrow> (request_payload, string) result"
where
  "admit_caller P r caller req =
     rbind (ok_or ''caller not in roster'' (find_node caller (ro_nodes r))) (\<lambda>node.
     rbind (check (\<not> rn_revoked node) ''caller has been revoked'') (\<lambda>_.
     rbind (map_err (\<lambda>_. ''signature verification failed'')
       (verify_request P req (rn_public_key_spki node))) (\<lambda>payload.
     rbind (check (length (rq_caller_x25519_public_key payload) = 32) ''invalid X25519 public key'') (\<lambda>_.
     Ok payload))))"

text \<open>And the answer, with the task it leads to:\<close>

definition answer_connection ::
  "prims \<Rightarrow> 'w juice \<Rightarrow> (nat \<Rightarrow> u8) \<Rightarrow> i32 \<Rightarrow> request_payload \<Rightarrow>
   (('w, 'q) session, start_connection_response \<times> answer_task, string) prog"
where
  "answer_connection P J rand caller payload =
     pbind (gets se_connection_id_counter) (\<lambda>connection_id.
     pbind (modify (\<lambda>s. s\<lparr>se_connection_id_counter := connection_id + 1\<rparr>)) (\<lambda>_.
     pbind (lift (ok_or ''missing STUN/TURN config'' (rq_stun_turn_config payload))) (\<lambda>stun_turn.
     pbind (perr (\<lambda>e. ''ICE error: '' @ ice_error_text e)
       (on_world (ice_answerer_new J (rq_caller_sdp payload) stun_turn))) (\<lambda>ice.
     pbind (gets se_signing_key) (\<lambda>sk.
     let key = generate_ephemeral rand;
         signed = build_signed_response P sk
           \<lparr>rs_connection_id = connection_id, rs_answerer_x25519_public_key = x_public_key P key,
            rs_answerer_sdp = ia_local_desc ice\<rparr>
     in ret (signed, \<lparr>at_transport = transport_of payload, at_caller = caller,
          at_connection_id = connection_id, at_ice = ice,
          at_secret = diffie_hellman P key (rq_caller_x25519_public_key payload), at_start = 0\<rparr>))))))"

definition micros_of :: "i64 \<Rightarrow> duration option" where
  "micros_of v = (if sint v < 0 then None else Some (from_micros (unat v)))"

definition compute_check_start_delay :: "i64 \<Rightarrow> i64 \<Rightarrow> ('w, 'z) env_scheme \<Rightarrow> duration" where
  "compute_check_start_delay caller_hub_rtt_usec caller_ice_start_delay_usec s =
     (let their_rtt = (case micros_of caller_hub_rtt_usec of None \<Rightarrow> None
            | Some d \<Rightarrow> if 0 < d then Some d else None);
          own_rtt = rtt_estimate (ev_now s) (ev_rtt s);
          caller_wait = (case micros_of caller_ice_start_delay_usec of None \<Rightarrow> 0 | Some d \<Rightarrow> d);
          signaling = (case (their_rtt, own_rtt) of
              (Some d1, Some d2) \<Rightarrow> (d1 + d2) div 2
            | (Some d1, None) \<Rightarrow> d1
            | (None, Some d2) \<Rightarrow> d2
            | (None, None) \<Rightarrow> 0)
      in signaling + caller_wait)"

definition spawn_answer :: "request_payload \<Rightarrow> answer_task \<Rightarrow> (('w, 'q) session, unit, 'e) prog" where
  "spawn_answer payload task = modify (\<lambda>s. s\<lparr>se_tasks := se_tasks s @
     [task\<lparr>at_start := ev_now s + compute_check_start_delay (rq_caller_hub_rtt_usec payload)
        (rq_caller_ice_start_delay_usec payload) s\<rparr>]\<rparr>)"

definition handle_start_connection_request ::
  "prims \<Rightarrow> 'w hub \<Rightarrow> 'w juice \<Rightarrow> (nat \<Rightarrow> u8) \<Rightarrow> i64 \<Rightarrow> i32 \<Rightarrow> start_connection_request \<Rightarrow>
   (('w, 'q) session, unit, 'e) prog"
where
  "handle_start_connection_request P H J rand request_id caller req =
     pcatch
       (pbind (fetch_serving_roster P H) (\<lambda>r.
        pbind (lift (admit_caller P r caller req)) (\<lambda>payload.
        pbind (answer_connection P J rand caller payload) (\<lambda>(signed, task).
        ret (payload, signed, task)))))
       (\<lambda>(payload, signed, task).
          pbind (send_answer request_id (StartConnectionResp signed)) (\<lambda>sent.
          if sent then spawn_answer payload task else ret ()))
       (send_error_response request_id)"

subsection \<open>Hub requests\<close>

text \<open>The answer of one of the two endorsing handlers, or its error.\<close>

definition respond ::
  "i64 \<Rightarrow> ('a \<Rightarrow> serving_response_kind) \<Rightarrow> ('a, string) result \<Rightarrow> (('w, 'q) session, unit, 'e) prog"
where
  "respond request_id kind result =
     pcatch (lift result) (\<lambda>x. pbind (send_answer request_id (kind x)) (\<lambda>_. ret ()))
       (send_error_response request_id)"

definition handle_welcome :: "i64 \<Rightarrow> (('w, 'q) session, unit, 'e) prog" where
  "handle_welcome latency_usec =
     pbind (gets id) (\<lambda>s.
     let server = (case micros_of latency_usec of None \<Rightarrow> 0 | Some d \<Rightarrow> d)
     in observe_rtt (ev_now s - se_opened_at s - server))"

definition handle_hub_request ::
  "prims \<Rightarrow> 'w hub \<Rightarrow> 'w juice \<Rightarrow> (nat \<Rightarrow> u8) \<Rightarrow> serving_request \<Rightarrow> (('w, 'q) session, unit, 'e) prog"
where
  "handle_hub_request P H J rand request =
     (case sr_kind request of
        Some (Welcome latency_usec) \<Rightarrow> handle_welcome latency_usec
      | Some (PairNodesReq msg) \<Rightarrow>
          pbind (gets id) (\<lambda>s.
          case pair_nodes P (ev_now s) rand msg (se_node_number s) (se_signing_key s) (se_endorsing s) of
            (result, es) \<Rightarrow>
              pbind (modify (\<lambda>s. s\<lparr>se_endorsing := es\<rparr>)) (\<lambda>_.
              respond (sr_request_id request) PairNodesResp result))
      | Some (RosterCosignReq req) \<Rightarrow>
          pbind (gets id) (\<lambda>s.
          case roster_cosign P req (se_node_number s) (se_signing_key s) (se_endorsing s) of
            (result, es) \<Rightarrow>
              pbind (modify (\<lambda>s. s\<lparr>se_endorsing := es\<rparr>)) (\<lambda>_.
              respond (sr_request_id request) RosterCosignResp result))
      | Some (StartConnectionReq req) \<Rightarrow>
          handle_start_connection_request P H J rand (sr_request_id request) (sr_source_node_number request) req
      | None \<Rightarrow> ret ())"

subsection \<open>Spawned tasks\<close>

text \<open>
  A task sleeps until its start, brings the connection up and delivers the outcome, unless
  the application has dropped the receivers.  A task that panics delivers nothing; so does a
  QUIC handshake that has not ended after \<open>evs\<close>.
\<close>

definition run_udp_task ::
  "prims \<Rightarrow> 'w juice \<Rightarrow> answer_task \<Rightarrow> ('w, 'q) session \<Rightarrow> ('w, 'q) session"
where
  "run_udp_task P J task s =
     (case on_world (udp_connect_answerer P J (at_caller task) (at_connection_id task) (at_ice task)
             (at_secret task)) s of
        (Panic, s') \<Rightarrow> s'
      | (r, s') \<Rightarrow> if se_receivers s' then s'\<lparr>se_incoming_udp := se_incoming_udp s' @ [r]\<rparr> else s')"

definition run_quic_task ::
  "prims \<Rightarrow> 'w juice \<Rightarrow> 'q quiche \<Rightarrow> ('q qconn \<times> 'w \<Rightarrow> 'q qconn \<times> 'w) list \<Rightarrow> answer_task \<Rightarrow>
   ('w, 'q) session \<Rightarrow> ('w, 'q) session"
where
  "run_quic_task P J Q evs task s =
     (case on_world (quic_connect_answerer P Q J evs (ev_now s) (at_caller task) (at_connection_id task)
             (at_ice task) (at_secret task)) s of
        (Ok (Some c), s') \<Rightarrow>
          (if se_receivers s' then s'\<lparr>se_incoming_quic := se_incoming_quic s' @ [Ok c]\<rparr> else s')
      | (Err e, s') \<Rightarrow>
          (if se_receivers s' then s'\<lparr>se_incoming_quic := se_incoming_quic s' @ [Err e]\<rparr> else s')
      | (_, s') \<Rightarrow> s')"

definition run_task ::
  "prims \<Rightarrow> 'w juice \<Rightarrow> 'q quiche \<Rightarrow> ('q qconn \<times> 'w \<Rightarrow> 'q qconn \<times> 'w) list \<Rightarrow> nat \<Rightarrow>
   ('w, 'q) session \<Rightarrow> ('w, 'q) session"
where
  "run_task P J Q evs i s =
     (if i < length (se_tasks s)
      then let task = se_tasks s ! i;
               s' = s\<lparr>se_tasks := take i (se_tasks s) @ drop (Suc i) (se_tasks s),
                      ev_now := max (ev_now s) (at_start task)\<rparr>
           in (case at_transport task of
                 Datagram \<Rightarrow> run_udp_task P J task s'
               | Stream \<Rightarrow> run_quic_task P J Q evs task s')
      else s)"

subsection \<open>The session's loop\<close>

text \<open>
  What may happen next.  The loop hears of commands, its check-in timer, the stream's
  messages, end and errors, the outcome of a connection attempt and the end of the backoff;
  time passes, the hub drops the response channel, a spawned task runs and the application
  drops its receivers without it.
\<close>

datatype ('w, 'q) session_event =
    SvCommand "command option" "nat \<Rightarrow> u8"
  | SvCheckIn
  | SvRequest serving_request "nat \<Rightarrow> u8"
  | SvStreamEnd
  | SvStreamError grpc_status
  | SvAttempt "duration \<Rightarrow> duration"
  | SvBackoffOver
  | SvTime duration
  | SvResponsesClosed
  | SvTask nat "('q qconn \<times> 'w \<Rightarrow> 'q qconn \<times> 'w) list"
  | SvReceiversDropped

fun running :: "phase \<Rightarrow> bool" where
  "running (Ended _) = False"
| "running _ = True"

definition disconnected :: "('w, 'q) session \<Rightarrow> ('w, 'q) session" where
  "disconnected s = s\<lparr>se_connected := False, se_phase := Connecting BACKOFF_BASE\<rparr>"

definition ended :: "(unit, serving_error) result \<Rightarrow> ('w, 'q) session \<Rightarrow> ('w, 'q) session" where
  "ended r s = s\<lparr>se_phase := Ended r\<rparr>"

definition on_command :: "(nat \<Rightarrow> u8) \<Rightarrow> command option \<Rightarrow> ('w, 'q) session \<Rightarrow> ('w, 'q) session" where
  "on_command rand cmd s = (case dispatch_command rand cmd s of
     (Ok (_, True), s') \<Rightarrow> ended (Ok ()) s'
   | (Ok (_, False), s') \<Rightarrow> s'
   | (Err e, s') \<Rightarrow> ended (Err e) s'
   | (Panic, s') \<Rightarrow> ended Panic s')"

text \<open>A handler run by the loop; its panic is the loop's.\<close>

definition handled :: "(('w, 'q) session, unit, serving_error) prog \<Rightarrow> ('w, 'q) session \<Rightarrow> ('w, 'q) session" where
  "handled m s = (case m s of (Panic, s') \<Rightarrow> ended Panic s' | (_, s') \<Rightarrow> s')"

text \<open>The outcome of an attempt to reconnect.\<close>

definition on_attempt :: "'w hub \<Rightarrow> (duration \<Rightarrow> duration) \<Rightarrow> duration \<Rightarrow> ('w, 'q) session \<Rightarrow> ('w, 'q) session" where
  "on_attempt H jitter current s =
     (case open_serving_connection H (pcf_hub_addr (se_config s)) (pcf_registration (se_config s)) s of
        (Ok opened_at, s') \<Rightarrow>
          s'\<lparr>se_opened_at := opened_at, se_stream_open := True, se_sent := [],
             se_connected := True, se_phase := Serving\<rparr>
      | (Err e, s') \<Rightarrow>
          (if hub_is_unauthenticated e then ended (Err (ServingHub e)) s'
           else case next_delay jitter current of
             (wait, next) \<Rightarrow> s'\<lparr>se_phase := BackingOff next (ev_now s' + wait)\<rparr>)
      | (Panic, s') \<Rightarrow> ended Panic s')"

definition on_stream_error :: "grpc_status \<Rightarrow> ('w, 'q) session \<Rightarrow> ('w, 'q) session" where
  "on_stream_error e s =
     (if hub_is_unauthenticated (Rpc e) then ended (Err (ServingHub (Rpc e))) s else disconnected s)"

fun session_step ::
  "prims \<Rightarrow> 'w hub \<Rightarrow> 'w juice \<Rightarrow> 'q quiche \<Rightarrow> ('w, 'q) session_event \<Rightarrow> ('w, 'q) session \<Rightarrow> ('w, 'q) session"
where
  "session_step P H J Q (SvCommand cmd rand) s =
     (if running (se_phase s) then on_command rand cmd s else s)"
| "session_step P H J Q SvCheckIn s = (if se_phase s = Serving then handled send_check_in s else s)"
| "session_step P H J Q (SvRequest request rand) s =
     (if se_phase s = Serving then handled (handle_hub_request P H J rand request) s else s)"
| "session_step P H J Q SvStreamEnd s = (if se_phase s = Serving then disconnected s else s)"
| "session_step P H J Q (SvStreamError e) s = (if se_phase s = Serving then on_stream_error e s else s)"
| "session_step P H J Q (SvAttempt jitter) s =
     (case se_phase s of Connecting current \<Rightarrow> on_attempt H jitter current s | _ \<Rightarrow> s)"
| "session_step P H J Q SvBackoffOver s =
     (case se_phase s of
        BackingOff current deadline \<Rightarrow>
          (if deadline \<le> ev_now s then s\<lparr>se_phase := Connecting current\<rparr> else s)
      | _ \<Rightarrow> s)"
| "session_step P H J Q (SvTime d) s = s\<lparr>ev_now := ev_now s + d\<rparr>"
| "session_step P H J Q SvResponsesClosed s = s\<lparr>se_stream_open := False\<rparr>"
| "session_step P H J Q (SvTask i evs) s = run_task P J Q evs i s"
| "session_step P H J Q SvReceiversDropped s = s\<lparr>se_receivers := False\<rparr>"

subsection \<open>ServingHandle\<close>

text \<open>A call of the handle: the session answers in its turn, or it is gone.\<close>

definition call_session :: "(nat \<Rightarrow> u8) \<Rightarrow> command \<Rightarrow> (('w, 'q) session, reply, serving_error) prog" where
  "call_session rand cmd = (\<lambda>s.
     if running (se_phase s)
     then (map_err id (rbind (fst (dispatch_command rand (Some cmd) s)) (\<lambda>(reply, _). Ok reply)),
           on_command rand (Some cmd) s)
     else (Err SessionShutdown, s))"

definition handle_status :: "(('w, 'q) session, serving_status, serving_error) prog" where
  "handle_status = pbind (call_session (\<lambda>_. 0) CmdStatus) (\<lambda>reply.
     case reply of StatusReply status \<Rightarrow> ret status | _ \<Rightarrow> fail SessionShutdown)"

definition handle_generate_activation_code ::
  "(nat \<Rightarrow> u8) \<Rightarrow> ttl_profile \<Rightarrow> (('w, 'q) session, pairing_code, serving_error) prog"
where
  "handle_generate_activation_code rand profile =
     pbind (call_session rand (CmdGenerateActivationCode profile)) (\<lambda>reply.
     case reply of CodeReply result \<Rightarrow> lift result | _ \<Rightarrow> fail SessionShutdown)"

definition handle_shutdown :: "(('w, 'q) session, unit, serving_error) prog" where
  "handle_shutdown = pbind (call_session (\<lambda>_. 0) CmdShutdown) (\<lambda>_. ret ())"

end
