(* ===== verification/Node_Inv.thy ===== *)
theory Node_Inv
  imports Node
begin

text \<open>
  What the operations of \<open>node.rs\<close> do to a node: one case lemma per operation, the
  invariant that ties a node's state to what it has verified with its preservation by every
  operation, what restoring a node gives, and the concrete group, hub and node that the
  witnesses run on.
\<close>

subsection \<open>What a call leaves alone\<close>

definition same_node :: "('w, 's) sys \<Rightarrow> ('w, 's) sys \<Rightarrow> bool" where
  "same_node s t \<longleftrightarrow> sy_node t = sy_node s"

definition same_host :: "('w, 's) sys \<Rightarrow> ('w, 's) sys \<Rightarrow> bool" where
  "same_host s t \<longleftrightarrow> sy_node t = sy_node s \<and> ho_store t = ho_store s"

lemma same_host_node: "same_host s t \<Longrightarrow> same_node s t"
  by (simp add: same_host_def same_node_def)

lemma env_blind_same_host: "env_blind (same_host s)"
  by (simp add: env_blind_def same_host_def)

lemma same_host_refl [simp]: "same_host s s"
  by (simp add: same_host_def)

lemma same_host_trans: "same_host s t \<Longrightarrow> same_host t u \<Longrightarrow> same_host s u"
  by (simp add: same_host_def)

text \<open>Every call of the client is silent: it changes neither the node nor its store.\<close>

definition silent :: "(('w, 's) sys, 'a, 'e) prog \<Rightarrow> bool" where
  "silent m \<longleftrightarrow> (\<forall>s. same_host s (snd (m s)))"

lemma silentD: "silent m \<Longrightarrow> m s = (r, t) \<Longrightarrow> same_host s t"
  by (metis silent_def snd_conv)

lemma silent_of_keeps: "(\<And>I. env_blind I \<Longrightarrow> keeps I m) \<Longrightarrow> silent m"
proof -
  assume "\<And>I. env_blind I \<Longrightarrow> keeps I m"
  then have "keeps (same_host s) m" for s by (simp add: env_blind_same_host)
  then show ?thesis by (simp add: silent_def keeps_def)
qed

lemma client_silent:
  "silent (connect H a)" "silent (complete_registration H token)" "silent (list_nodes H reg)"
  "silent (hub_pair_nodes H reg msg)" "silent (get_unverified_roster H reg)"
  "silent (get_group_metadata H reg)" "silent (get_and_verify_roster P H reg spki)"
  "silent (update_roster H reg r)" "silent (get_stun_turn_config H reg)"
  "silent (start_connection H reg rq)" "silent (deregister_node H reg)"
  by (rule silent_of_keeps, auto intro: keeps_rules)+

lemmas client_silentD = client_silent [THEN silentD]

lemma same_hostD: "same_host s t \<Longrightarrow> sy_node t = sy_node s \<and> ho_store t = ho_store s"
  by (simp add: same_host_def)

lemmas client_quiet = client_silentD [THEN same_hostD]

lemma complete_registration_Ok:
  "complete_registration H token s = (Ok reg, t :: ('w, 's) sys) \<Longrightarrow>
     sy_node t = sy_node s \<and> ho_store t = ho_store s \<and> (\<exists>tk. nr_auth_token reg = Some tk)"
  by (frule client_quiet(2)) (auto simp: complete_registration_def rust_simps new_registration_def)

lemma on_store_quiet:
  "on_store m s = (r, t) \<Longrightarrow> sy_node (t :: ('w, 's) sys) = sy_node s"
  by (auto simp: on_store_def split: prod.splits)

lemma on_store_iff:
  "on_store m s = (Ok x, t) \<longleftrightarrow> (\<exists>st. m (ho_store s) = (Ok x, st) \<and> t = s\<lparr>ho_store := st\<rparr>)"
  "on_store m s = (Err e, t) \<longleftrightarrow> (\<exists>st d. m (ho_store s) = (Err d, st) \<and> e = Store d \<and> t = s\<lparr>ho_store := st\<rparr>)"
  "on_store m s = (Panic, t) \<longleftrightarrow> (\<exists>st. m (ho_store s) = (Panic, st) \<and> t = s\<lparr>ho_store := st\<rparr>)"
  by (auto simp: on_store_def rust_simps split: prod.splits)

subsection \<open>Programs that leave the node alone\<close>

text \<open>
  \<open>quiet\<close> programs never touch the node; \<open>atomic\<close> ones touch it only when they succeed.
\<close>

definition quiet :: "(('w, 's) sys, 'a, 'e) prog \<Rightarrow> bool" where
  "quiet m \<longleftrightarrow> (\<forall>s r t. m s = (r, t) \<longrightarrow> sy_node t = sy_node s)"

definition atomic :: "(('w, 's) sys, 'a, 'e) prog \<Rightarrow> bool" where
  "atomic m \<longleftrightarrow> (\<forall>s r t. m s = (r, t) \<longrightarrow> is_ok r \<or> sy_node t = sy_node s)"

named_theorems quiet_rules "introduction rules for quiet and atomic"

lemma quietD: "quiet m \<Longrightarrow> m s = (r, t) \<Longrightarrow> sy_node t = sy_node s"
  by (simp add: quiet_def)

lemma atomicD: "atomic m \<Longrightarrow> m s = (r, t) \<Longrightarrow> \<not> is_ok r \<Longrightarrow> sy_node t = sy_node s"
  by (auto simp: atomic_def)

lemma silent_quiet: "silent m \<Longrightarrow> quiet m"
  by (auto simp: quiet_def same_host_def dest: silentD)

lemma quiet_client [quiet_rules]:
  "quiet (connect H a)" "quiet (complete_registration H token)" "quiet (list_nodes H reg)"
  "quiet (hub_pair_nodes H reg msg)" "quiet (get_unverified_roster H reg)"
  "quiet (get_group_metadata H reg)" "quiet (get_and_verify_roster P H reg spki)"
  "quiet (update_roster H reg r)" "quiet (get_stun_turn_config H reg)"
  "quiet (start_connection H reg rq)" "quiet (deregister_node H reg)"
  by (rule silent_quiet, rule client_silent)+

lemma quiet_pure [quiet_rules]:
  "quiet (ret x)" "quiet (fail e)" "quiet (lift r)" "quiet (gets f)"
  by (auto simp: quiet_def)

lemma quiet_on_store [quiet_rules]: "quiet (on_store m)"
  by (auto simp: quiet_def on_store_def split: prod.splits)

lemma quiet_perr [quiet_rules]: "quiet m \<Longrightarrow> quiet (perr g m)"
  by (auto simp: quiet_def perr_def split: prod.splits)

lemma atomic_pbind:
  assumes "quiet m" and "\<And>x. atomic (k x)" shows "atomic (pbind m k)"
  unfolding atomic_def
proof (intro allI impI)
  fix s r t assume "pbind m k s = (r, t)"
  then show "is_ok r \<or> sy_node t = sy_node s"
    by (cases "is_ok r") (auto simp: pbind_def split: prod.splits result.splits
        dest!: quietD [OF assms(1)] atomicD [OF assms(2)])
qed

lemma atomic_pcatch:
  assumes "quiet m" and "\<And>x. atomic (k x)" and "\<And>e. atomic (h e)" shows "atomic (pcatch m k h)"
  unfolding atomic_def
proof (intro allI impI)
  fix s r t assume "pcatch m k h s = (r, t)"
  then show "is_ok r \<or> sy_node t = sy_node s"
    by (cases "is_ok r") (auto simp: pcatch_def split: prod.splits result.splits
        dest!: quietD [OF assms(1)] atomicD [OF assms(2)] atomicD [OF assms(3)])
qed

lemma quiet_pbind [quiet_rules]:
  assumes "quiet m" and "\<And>x. quiet (k x)" shows "quiet (pbind m k)"
  unfolding quiet_def
proof (intro allI impI)
  fix s r t assume "pbind m k s = (r, t)"
  then show "sy_node t = sy_node s"
    using assms by (auto simp: pbind_def quiet_def split: prod.splits result.splits)
qed

lemma quiet_pcatch [quiet_rules]:
  assumes "quiet m" and "\<And>x. quiet (k x)" and "\<And>e. quiet (h e)" shows "quiet (pcatch m k h)"
  unfolding quiet_def
proof (intro allI impI)
  fix s r t assume "pcatch m k h s = (r, t)"
  then show "sy_node t = sy_node s"
    using assms by (auto simp: pcatch_def quiet_def split: prod.splits result.splits)
qed

lemma quiet_atomic: "quiet m \<Longrightarrow> atomic m"
  by (simp add: quiet_def atomic_def)

lemma atomic_set_inner: "atomic (set_inner i)"
  by (simp add: atomic_def set_inner_def)

lemma atomic_done: "atomic (pbind (set_inner i) (\<lambda>_. ret x))"
  by (simp add: atomic_def set_inner_def pbind_def)

lemma atomic_pure: "atomic (ret x)" "atomic (fail e)" "atomic (lift r)"
  by (simp_all add: atomic_def)

lemmas atomic_rules = atomic_pure atomic_set_inner atomic_pbind atomic_pcatch quiet_rules

subsection \<open>The effect of each operation on the node\<close>

text \<open>An operation that does not succeed leaves the node as it was, with one exception.\<close>

lemma register_cases:
  assumes "register H S token s = (res, t)"
  obtains (failed) "sy_node t = sy_node s" "res \<noteq> Ok ()"
  | (unsaved) reg where "res \<noteq> Ok ()" "nd_inner (sy_node s) = InnerPending"
      "sy_node t = (sy_node s)\<lparr>nd_persisted := set_registration reg (nd_persisted (sy_node s))\<rparr>"
      "nr_auth_token reg \<noteq> None"
      "fst (so_save S (set_registration reg (nd_persisted (sy_node s))) (ho_store s)) \<noteq> Ok ()"
  | (registered) reg where "res = Ok ()" "nd_inner (sy_node s) = InnerPending"
      "sy_node t = (sy_node s)\<lparr>nd_inner := InnerRegistered reg,
         nd_persisted := set_registration reg (nd_persisted (sy_node s))\<rparr>"
      "nr_auth_token reg \<noteq> None"
      "so_save S (set_registration reg (nd_persisted (sy_node s))) (ho_store s) = (Ok (), ho_store t)"
proof -
  show ?thesis
  proof (cases res)
    case (Ok x)
    with assms show ?thesis
      by (auto simp: register_def rust_simps require_pending_def on_store_iff set_inner_def
          set_persisted_registration_def set_registration_def dest!: client_quiet complete_registration_Ok
          intro!: registered split: inner_state.splits)
  next
    case (Err e)
    with assms show ?thesis
      by (auto simp: register_def rust_simps require_pending_def on_store_iff set_inner_def
          set_persisted_registration_def set_registration_def dest!: client_quiet complete_registration_Ok
          intro: failed unsaved split: inner_state.splits)
  next
    case Panic
    with assms show ?thesis
      by (auto simp: register_def rust_simps require_pending_def on_store_iff set_inner_def
          set_persisted_registration_def set_registration_def dest!: client_quiet complete_registration_Ok
          intro: failed unsaved split: inner_state.splits)
  qed
qed

lemmas node_op_simps = rust_simps on_store_iff set_inner_def set_persisted_registration_def

lemma pairing_exchange_quiet [quiet_rules]: "quiet (pairing_exchange P H rand n reg pc)"
  unfolding pairing_exchange_def Let_def by (intro quiet_rules)

lemma atomic_activate: "atomic (activate P H rand code)"
  unfolding activate_def Let_def by (intro atomic_rules) (auto intro: quiet_rules)

lemma activate_cases:
  assumes "activate P H rand code s = (res, t)"
  obtains (failed) "sy_node t = sy_node s" "res \<noteq> Ok ()"
  | (activated) reg r keys where "res = Ok ()" "nd_inner (sy_node s) = InnerRegistered reg"
      "verify_roster P r (nr_node_number reg) (public_key_spki P (nd_signing_key (sy_node s))) = Ok keys"
      "sy_node t = (sy_node s)\<lparr>nd_inner := InnerActivated reg r\<rparr>"
proof (cases "res = Ok ()")
  case True
  with assms show ?thesis
    by (auto simp: activate_def node_op_simps Let_def require_registered_def
        dest!: client_quiet quietD [OF pairing_exchange_quiet] intro!: activated
        split: inner_state.splits if_splits)
next
  case False
  then show ?thesis
    using atomicD [OF atomic_activate assms] failed by (cases res) auto
qed

lemma atomic_simple [quiet_rules]:
  "quiet (submit_revocation P H reg r0 n)" "quiet (deregister_or_gone H reg)"
  "quiet (get_group_info H)"
proof -
  show "quiet (submit_revocation P H reg r0 n)"
    unfolding submit_revocation_def Let_def by (intro quiet_rules)
  show "quiet (deregister_or_gone H reg)"
    unfolding deregister_or_gone_def by (intro quiet_rules) (auto intro: quiet_rules)
  show "quiet (get_group_info H)"
    unfolding get_group_info_def by (intro quiet_rules) (auto intro!: quiet_rules split: prod.split)
qed

lemma atomic_revoke_node: "atomic (revoke_node P H target)"
  unfolding revoke_node_def
  by (rule atomic_pbind) (auto intro!: atomic_rules atomic_simple split: inner_state.split)

lemma set_revoker_signature_new:
  "set_revoker_signature (add_revocation_to_roster r0 p) sig =
     Ok (with_last (add_revocation_to_roster r0 p) (signed_revocation p sig))"
  by (rule set_revoker_signature_on_last [of _ "ro_addenda r0" _ "[]"])
    (simp add: unsigned_is_signed)

text \<open>The roster that revokes \<open>n\<close> from \<open>r0\<close>, signed by the node \<open>me\<close>.\<close>

definition revocation_by :: "prims \<Rightarrow> signing_seed \<Rightarrow> i32 \<Rightarrow> roster \<Rightarrow> i32 \<Rightarrow> roster" where
  "revocation_by P sk me r0 n =
     (let p = build_revocation_payload r0 n me; u = add_revocation_to_roster r0 p
      in with_last u (signed_revocation p (ed_sign P sk (compute_signing_hash P u))))"

lemma revocation_by_history:
  assumes "ed25519_correct P" and "valid_history P r0"
    and "active_keys P r0 me = Some (ed_verifying_key P sk)" and "active_keys P r0 n \<noteq> None"
  shows "valid_history P (revocation_by P sk me r0 n)"
    and "active_keys P (revocation_by P sk me r0 n) = (active_keys P r0)(n := None)"
  using revocation_history [OF assms refl refl refl] by (simp_all add: revocation_by_def Let_def)

lemma submit_revocation_result:
  assumes "submit_revocation P H reg r0 n s = (Ok r1, t)"
  shows "r1 = revocation_by P (nd_signing_key (sy_node s)) (nr_node_number reg) r0 n \<and>
    sy_node t = sy_node s \<and> ho_store t = ho_store s"
  using assms by (auto simp: submit_revocation_def Let_def rust_simps set_revoker_signature_new sign_def
      revocation_by_def dest!: client_quiet)

lemma revoke_node_cases:
  assumes "revoke_node P H target s = (res, t)"
  obtains (failed) "sy_node t = sy_node s" "res \<noteq> Ok ()"
  | (revoked) reg r0 where "res = Ok ()" "nd_inner (sy_node s) = InnerActivated reg r0"
      "target \<noteq> nr_node_number reg" "\<exists>x \<in> set (active_nodes r0). rn_node_number x = target"
      "sy_node t = (sy_node s)\<lparr>nd_inner := InnerActivated reg
         (revocation_by P (nd_signing_key (sy_node s)) (nr_node_number reg) r0 target)\<rparr>"
proof (cases "res = Ok ()")
  case True
  with assms show ?thesis
    by (auto simp: revoke_node_def node_op_simps
        dest!: client_quiet submit_revocation_result intro!: revoked split: inner_state.splits)
next
  case False
  then show ?thesis
    using atomicD [OF atomic_revoke_node assms] failed by (cases res) auto
qed

lemma judge_membership_cases:
  "judge_membership P reg r s =
     (let n = sy_node s; v = verify_roster P r (nr_node_number reg) (public_key_spki P (nd_signing_key n)) in
      if \<not> (\<exists>x \<in> set (ro_nodes r). rn_node_number x = nr_node_number reg)
      then (Ok Registered, s\<lparr>sy_node := n\<lparr>nd_inner := InnerRegistered reg\<rparr>\<rparr>)
      else case v of Ok _ \<Rightarrow> (Ok Activated, s\<lparr>sy_node := n\<lparr>nd_inner := InnerActivated reg r\<rparr>\<rparr>)
        | Panic \<Rightarrow> (Panic, s)
        | Err e \<Rightarrow> if (\<exists>k. e = VerifierRevoked k)
            then (Ok Revoked, s\<lparr>sy_node := n\<lparr>nd_inner := InnerRevoked reg\<rparr>\<rparr>)
            else (Err (RosterVerificationFailed e), s))"
  by (auto simp: judge_membership_def pbind_def set_inner_def Let_def
      split: result.splits roster_error.splits)

lemma atomic_judge: "atomic (judge_membership P reg r)"
  by (auto simp: atomic_def judge_membership_cases Let_def split: result.splits if_splits)

lemma atomic_refresh: "atomic (refresh_membership P H)"
  unfolding refresh_membership_def
  by (rule atomic_pbind) (auto intro!: atomic_rules atomic_judge split: option.split)

lemma refresh_cases:
  assumes "refresh_membership P H s = (res, t)"
  obtains (failed) "sy_node t = sy_node s" "\<not> is_ok res"
  | (pending) "registration_of (sy_node s) = None" "sy_node t = sy_node s" "res = Ok Pending"
  | (absent) reg where "registration_of (sy_node s) = Some reg" "res = Ok Registered"
      "sy_node t = (sy_node s)\<lparr>nd_inner := InnerRegistered reg\<rparr>"
  | (active) reg r keys where "registration_of (sy_node s) = Some reg" "res = Ok Activated"
      "verify_roster P r (nr_node_number reg) (public_key_spki P (nd_signing_key (sy_node s))) = Ok keys"
      "sy_node t = (sy_node s)\<lparr>nd_inner := InnerActivated reg r\<rparr>"
  | (revoked) reg r n where "registration_of (sy_node s) = Some reg" "res = Ok Revoked"
      "verify_roster P r (nr_node_number reg) (public_key_spki P (nd_signing_key (sy_node s)))
         = Err (VerifierRevoked n)"
      "sy_node t = (sy_node s)\<lparr>nd_inner := InnerRevoked reg\<rparr>"
proof (cases "is_ok res")
  case True
  then obtain v where v: "res = Ok v" by (cases res) auto
  show ?thesis
  proof (cases "registration_of (sy_node s)")
    case None
    then have "sy_node t = sy_node s" "v = Pending"
      using assms v by (simp_all add: refresh_membership_def rust_simps)
    with None v show ?thesis by (intro pending) simp_all
  next
    case (Some reg)
    obtain u r where u: "sy_node u = sy_node s" and k: "judge_membership P reg r u = (Ok v, t)"
      using assms Some unfolding v refresh_membership_def
      by (auto simp: rust_simps dest!: client_quiet)
    let ?v = "verify_roster P r (nr_node_number reg) (public_key_spki P (nd_signing_key (sy_node s)))"
    consider (out) "v = Registered" "t = u\<lparr>sy_node := (sy_node s)\<lparr>nd_inner := InnerRegistered reg\<rparr>\<rparr>"
      | (act) keys where "?v = Ok keys" "v = Activated"
          "t = u\<lparr>sy_node := (sy_node s)\<lparr>nd_inner := InnerActivated reg r\<rparr>\<rparr>"
      | (rev) n where "?v = Err (VerifierRevoked n)" "v = Revoked"
          "t = u\<lparr>sy_node := (sy_node s)\<lparr>nd_inner := InnerRevoked reg\<rparr>\<rparr>"
      using k by (auto simp: judge_membership_cases Let_def u split: if_splits result.splits)
    then show ?thesis
    proof cases
      case out then show ?thesis by (intro absent [OF Some]) (simp_all add: v)
    next
      case act then show ?thesis by (intro active [OF Some]) (simp_all add: v)
    next
      case rev then show ?thesis by (intro revoked [OF Some]) (simp_all add: v)
    qed
  qed
next
  case False
  then show ?thesis
    using atomicD [OF atomic_refresh assms] failed by auto
qed

lemma logout_remote_quiet [quiet_rules]: "quiet (logout_remote P H)"
  unfolding logout_remote_def
  by (rule quiet_pbind) (auto intro!: quiet_rules split: inner_state.split)

lemma silent_revocation:
  "submit_revocation P H reg r0 n s = (r, t) \<Longrightarrow> ho_store t = ho_store (s :: ('w, 's) sys)"
  "deregister_or_gone H reg s = (r', t) \<Longrightarrow> ho_store t = ho_store s"
proof -
  have k: "keeps (same_host s) (submit_revocation P H reg r0 n)"
      "keeps (same_host s) (deregister_or_gone H reg)" for s :: "('w, 's) sys"
    unfolding submit_revocation_def deregister_or_gone_def Let_def
    by (auto intro!: keeps_rules env_blind_same_host)
  show "ho_store t = ho_store s" if "submit_revocation P H reg r0 n s = (r, t)"
    using keepsD [OF k(1) same_host_refl that] by (simp add: same_host_def)
  show "ho_store t = ho_store s" if "deregister_or_gone H reg s = (r', t)"
    using keepsD [OF k(2) same_host_refl that] by (simp add: same_host_def)
qed

lemma keeps_logout_remote: "keeps (same_host s) (logout_remote P H)"
  unfolding logout_remote_def submit_revocation_def deregister_or_gone_def Let_def
  by (rule keeps_pbind) (auto intro!: keeps_rules env_blind_same_host split: inner_state.split)

lemma logout_cases:
  assumes "logout P H S s = (res, t)"
  obtains (failed) "sy_node t = sy_node s" "res \<noteq> Ok ()"
      "ho_store t = ho_store s \<or> fst (so_delete S (ho_store s)) \<noteq> Ok ()"
  | (left) "res = Ok ()" "so_delete S (ho_store s) = (Ok (), ho_store t)"
      "sy_node t = (sy_node s)\<lparr>nd_persisted := (nd_persisted (sy_node s))\<lparr>ps_registration := None\<rparr>,
         nd_inner := InnerPending\<rparr>"
      "fst (logout_remote P H s) = Ok ()"
proof -
  obtain r u where lr: "logout_remote P H s = (r, u)" by (cases "logout_remote P H s")
  then have u: "sy_node u = sy_node s" "ho_store u = ho_store s"
    using keepsD [OF keeps_logout_remote same_host_refl lr] by (simp_all add: same_host_def)
  show ?thesis
  proof (cases "is_ok r")
    case True
    then have r: "r = Ok ()" by (cases r) auto
    obtain d st where d: "so_delete S (ho_store s) = (d, st)" by (cases "so_delete S (ho_store s)")
    show ?thesis
      using assms failed left lr u r d
      by (cases d) (auto simp: logout_def pbind_def on_store_def set_inner_def
          set_persisted_registration_def)
  next
    case False
    then have "t = u" "res \<noteq> Ok ()"
      using assms lr by (cases r; auto simp: logout_def pbind_def)+
    then show ?thesis using u failed by simp
  qed
qed

lemma find_peer_cases:
  assumes "find_peer_in_roster P H peer s = (res, t)"
  obtains (failed) "sy_node t = sy_node s" "\<not> is_ok res"
  | (cached) reg r x where "nd_inner (sy_node s) = InnerActivated reg r" "find_active peer r = Some x"
      "res = Ok x" "t = s"
  | (fetched) reg r0 r x keys where "nd_inner (sy_node s) = InnerActivated reg r0"
      "verify_roster P r (nr_node_number reg) (public_key_spki P (nd_signing_key (sy_node s))) = Ok keys"
      "find_active peer r = Some x" "res = Ok x"
      "sy_node t = (sy_node s)\<lparr>nd_inner := InnerActivated reg r\<rparr>"
proof (cases "nd_inner (sy_node s)")
  case (InnerActivated reg r0)
  let ?spki = "public_key_spki P (nd_signing_key (sy_node s))"
  show ?thesis
  proof (cases "find_active peer r0")
    case None
    obtain g u where g: "get_and_verify_roster P H reg ?spki s = (g, u)"
      by (cases "get_and_verify_roster P H reg ?spki s")
    then have u: "sy_node u = sy_node s" using client_quiet(7) by blast
    show ?thesis
    proof (cases "\<exists>r x. g = Ok r \<and> find_active peer r = Some x")
      case True
      then obtain r x where r: "g = Ok r" "find_active peer r = Some x" by blast
      obtain keys where "verify_roster P r (nr_node_number reg) ?spki = Ok keys"
        using g r(1) by (auto simp: get_and_verify_roster_def rust_simps)
      with InnerActivated r show ?thesis
        using assms None g u by (intro fetched [of reg r0 r keys x])
          (auto simp: find_peer_in_roster_def pbind_def pcatch_def set_inner_def)
    next
      case False
      then have "sy_node t = sy_node s \<and> \<not> is_ok res"
        using assms None g u InnerActivated
        by (cases g; cases "find_active peer (case g of Ok r \<Rightarrow> r | _ \<Rightarrow> r0)")
          (auto simp: find_peer_in_roster_def pbind_def pcatch_def
            split: hub_error.splits roster_error.splits)
      then show ?thesis using failed by blast
    qed
  next
    case (Some x)
    with assms InnerActivated have "res = Ok x" "t = s"
      by (simp_all add: find_peer_in_roster_def pbind_def)
    with InnerActivated Some show ?thesis by (intro cached)
  qed
qed (use assms in \<open>auto simp: find_peer_in_roster_def pbind_def intro!: failed\<close>)

subsection \<open>The invariant\<close>

text \<open>
  What a node knows is what it has verified: the registration it uses is the persisted one
  and carries a token, its signing key is the one derived from the persisted root key, and
  an activated node holds a roster with a valid history in which it is active under that
  key.
\<close>

definition member_in :: "prims \<Rightarrow> node \<Rightarrow> node_registration \<Rightarrow> roster \<Rightarrow> bool" where
  "member_in P n reg r \<longleftrightarrow> valid_history P r \<and>
     active_keys P r (nr_node_number reg) = Some (ed_verifying_key P (nd_signing_key n))"

definition node_ok :: "prims \<Rightarrow> node \<Rightarrow> bool" where
  "node_ok P n \<longleftrightarrow>
     hkdf_sha256 P (str_bytes ''wispers-connect-v1'') (ps_root_key (nd_persisted n))
       (str_bytes ''signing-key'') 32 = Some (nd_signing_key n) \<and>
     (\<forall>reg. registration_of n = Some reg \<longrightarrow>
        ps_registration (nd_persisted n) = Some reg \<and> nr_auth_token reg \<noteq> None) \<and>
     (\<forall>reg r. nd_inner n = InnerActivated reg r \<longrightarrow> member_in P n reg r)"

datatype node_event =
    EvRegister string | EvActivate "nat \<Rightarrow> u8" string | EvRevoke i32 | EvRefresh | EvLogout
  | EvGroupInfo | EvFindPeer i32

fun node_step ::
  "prims \<Rightarrow> 'w hub \<Rightarrow> 's store_ops \<Rightarrow> node_event \<Rightarrow> ('w, 's) sys \<Rightarrow> ('w, 's) sys"
where
  "node_step P H S (EvRegister token) s = snd (register H S token s)"
| "node_step P H S (EvActivate rand code) s = snd (activate P H rand code s)"
| "node_step P H S (EvRevoke n) s = snd (revoke_node P H n s)"
| "node_step P H S EvRefresh s = snd (refresh_membership P H s)"
| "node_step P H S EvLogout s = snd (logout P H S s)"
| "node_step P H S EvGroupInfo s = snd (get_group_info H s)"
| "node_step P H S (EvFindPeer n) s = snd (find_peer_in_roster P H n s)"

lemma own_spki_decodes:
  "ed25519_correct P \<Longrightarrow> vk_from_der P (public_key_spki P sk) = Inr (ed_verifying_key P sk)"
  by (simp add: public_key_spki_def ed25519_correctD)

lemma verified_member:
  assumes "ed25519_correct P"
    and "verify_roster P r (nr_node_number reg) (public_key_spki P (nd_signing_key n)) = Ok keys"
  shows "member_in P n reg r"
  using assms own_spki_decodes [OF assms(1)] by (auto simp: member_in_def verify_roster_Ok_iff)

lemmas node_okI = node_ok_def registration_of_def member_in_def set_registration_def

lemma register_ok:
  assumes "node_ok P (sy_node s)" and "register H S token s = (res, t)"
  shows "node_ok P (sy_node t)"
  using assms(2) by (rule register_cases) (use assms(1) in \<open>auto simp: node_okI\<close>)

lemma activate_ok:
  assumes P: "ed25519_correct P" and "node_ok P (sy_node s)" and "activate P H rand code s = (res, t)"
  shows "node_ok P (sy_node t)"
  using assms(3)
proof (rule activate_cases)
  fix reg :: node_registration and r keys
  assume a: "nd_inner (sy_node s) = InnerRegistered reg"
    "verify_roster P r (nr_node_number reg) (public_key_spki P (nd_signing_key (sy_node s))) = Ok keys"
    "sy_node t = (sy_node s)\<lparr>nd_inner := InnerActivated reg r\<rparr>"
  show ?thesis using assms(2) verified_member [OF P a(2)] a by (auto simp: node_okI)
qed (use assms(2) in simp)

lemma active_number:
  assumes "valid_history P r" and "\<exists>x \<in> set (active_nodes r). rn_node_number x = n"
  shows "active_keys P r n \<noteq> None"
  using assms active_keys_None_iff [OF assms(1)] by (auto simp: active_nodes_def)

lemma revoke_node_ok:
  assumes P: "ed25519_correct P" and ok: "node_ok P (sy_node s)" and "revoke_node P H target s = (res, t)"
  shows "node_ok P (sy_node t)"
  using assms(3)
proof (rule revoke_node_cases)
  fix reg :: node_registration and r0
  let ?r = "revocation_by P (nd_signing_key (sy_node s)) (nr_node_number reg) r0 target"
  assume a: "nd_inner (sy_node s) = InnerActivated reg r0" "target \<noteq> nr_node_number reg"
    "\<exists>x \<in> set (active_nodes r0). rn_node_number x = target"
    "sy_node t = (sy_node s)\<lparr>nd_inner := InnerActivated reg ?r\<rparr>"
  have m: "member_in P (sy_node s) reg r0" using ok a(1) by (simp add: node_ok_def)
  then have "member_in P (sy_node s) reg ?r"
    using revocation_by_history [OF P, of r0 "nr_node_number reg" "nd_signing_key (sy_node s)" target]
      active_number [of P r0 target] a(2,3) by (simp add: member_in_def)
  then show ?thesis using ok a by (auto simp: node_okI)
qed (use ok in simp)

lemma refresh_ok:
  assumes P: "ed25519_correct P" and ok: "node_ok P (sy_node s)"
    and "refresh_membership P H s = (res, t)"
  shows "node_ok P (sy_node t)"
  using assms(3)
proof (rule refresh_cases)
  fix reg :: node_registration and r keys
  assume a: "registration_of (sy_node s) = Some reg"
    "verify_roster P r (nr_node_number reg) (public_key_spki P (nd_signing_key (sy_node s))) = Ok keys"
    "sy_node t = (sy_node s)\<lparr>nd_inner := InnerActivated reg r\<rparr>"
  show ?thesis using ok verified_member [OF P a(2)] a by (auto simp: node_okI)
qed (use ok in \<open>auto simp: node_okI\<close>)

lemma logout_ok:
  assumes "node_ok P (sy_node s)" and "logout P H S s = (res, t)"
  shows "node_ok P (sy_node t)"
  using assms(2) by (rule logout_cases) (use assms(1) in \<open>auto simp: node_okI\<close>)

lemma find_peer_ok:
  assumes P: "ed25519_correct P" and ok: "node_ok P (sy_node s)"
    and "find_peer_in_roster P H peer s = (res, t)"
  shows "node_ok P (sy_node t)"
  using assms(3)
proof (rule find_peer_cases)
  fix reg :: node_registration and r0 r keys
  assume a: "nd_inner (sy_node s) = InnerActivated reg r0"
    "verify_roster P r (nr_node_number reg) (public_key_spki P (nd_signing_key (sy_node s))) = Ok keys"
    "sy_node t = (sy_node s)\<lparr>nd_inner := InnerActivated reg r\<rparr>"
  show ?thesis using ok verified_member [OF P a(2)] a by (auto simp: node_okI)
qed (use ok in simp_all)

lemma node_step_ok:
  assumes P: "ed25519_correct P" and ok: "node_ok P (sy_node s)"
  shows "node_ok P (sy_node (node_step P H S e s))"
  using ok quietD [OF atomic_simple(3) surjective_pairing, of H s]
  by (cases e) (auto intro: register_ok [OF ok surjective_pairing] activate_ok [OF P ok surjective_pairing]
      revoke_node_ok [OF P ok surjective_pairing] refresh_ok [OF P ok surjective_pairing]
      logout_ok [OF ok surjective_pairing] find_peer_ok [OF P ok surjective_pairing])

interpretation node: event_machine
  "\<lambda>s :: ('w, 's) sys. ed25519_correct P \<and> node_ok P (sy_node s)" "node_step P H S" for P H S
  by unfold_locales (simp add: node_step_ok)

subsection \<open>A concrete group and hub\<close>

text \<open>The bootstrap of two nodes, and a hub that answers every call with what it was given:
  what the witnesses run against.\<close>

definition pair_group :: "prims \<Rightarrow> i32 \<Rightarrow> signing_seed \<Rightarrow> i32 \<Rightarrow> signing_seed \<Rightarrow> roster" where
  "pair_group P e esk n nsk =
     (let p = build_activation_payload default_roster n e [7] [8];
          u = create_bootstrap_roster p (spki_of P nsk) (spki_of P esk);
          h = compute_signing_hash P u
      in with_last u (signed_activation p (ed_sign P nsk h) (ed_sign P esk h)))"

lemma pair_group:
  assumes "ed25519_correct P" and "n \<noteq> e"
  shows "valid_history P (pair_group P e esk n nsk)"
    and "active_keys P (pair_group P e esk n nsk) =
      [e \<mapsto> ed_verifying_key P esk, n \<mapsto> ed_verifying_key P nsk]"
    and "ro_nodes (pair_group P e esk n nsk) = [fresh_node e (spki_of P esk), fresh_node n (spki_of P nsk)]"
    and "length (ro_addenda (pair_group P e esk n nsk)) = 1"
    and "ro_version (pair_group P e esk n nsk) = 1"
  using bootstrap_history [OF assms refl _ refl refl, of default_roster "[7]" "[8]" nsk esk]
  by (simp_all add: pair_group_def Let_def default_roster_def build_activation_payload_def)

definition answer :: "'a \<Rightarrow> (unit, 'a) rpc" where
  "answer x = (\<lambda>w. (Inr \<lparr>resp_body = x, resp_server_time = None\<rparr>, 0, w))"

definition static_hub :: "proto_registration \<Rightarrow> pair_nodes_message \<Rightarrow> roster \<Rightarrow> roster \<Rightarrow> unit hub" where
  "static_hub reg reply r r' = \<lparr>
     net_connect = (\<lambda>_ _ w. (None, w)), metadata_value = (\<lambda>_. True),
     rpc_complete_node_registration = (\<lambda>_. answer reg),
     rpc_list_nodes = (\<lambda>_. answer []),
     rpc_pair_nodes = (\<lambda>_ _ _. answer reply),
     rpc_get_roster = (\<lambda>_. answer r),
     rpc_get_group_metadata = (\<lambda>_. answer \<lparr>gm_id = [], gm_name = [], gm_created_at_millis = 0\<rparr>),
     rpc_update_roster = (\<lambda>_ _. answer (Some r')),
     rpc_start_serving = (\<lambda>_. answer ()),
     rpc_get_stun_turn_config = (\<lambda>_. answer \<lparr>st_stun_server = [], st_turn_server = [],
       st_turn_username = [], st_turn_password = [], st_expires_at_millis = 0\<rparr>),
     rpc_start_connection = (\<lambda>_ _. answer \<lparr>ss_signed_payload = [], ss_signature = []\<rparr>),
     rpc_deregister_node = (\<lambda>_. answer ())\<rparr>"

lemma static_authed:
  assumes "nr_auth_token reg = Some tk" and "metadata_value H = (\<lambda>_. True)"
  shows "authed H reg (\<lambda>_. answer x) s = (Ok x, s)"
  using assms by (simp add: authed_def add_auth_metadata_def Let_def timed_def call_rpc_def
      answer_def server_time_def pbind_def perr_def)

lemma static_hub_answers:
  assumes "nr_auth_token reg = Some tk"
  shows "connect (static_hub pr reply r r') a s = (Ok (), s)"
    and "get_unverified_roster (static_hub pr reply r r') reg s = (Ok r, s)"
    and "update_roster (static_hub pr reply r r') reg q s = (Ok r', s)"
    and "hub_pair_nodes (static_hub pr reply r r') reg m s = (Ok reply, s)"
    and "deregister_node (static_hub pr reply r r') reg s = (Ok (), s)"
  by (simp_all add: static_authed [OF assms] connect_def get_unverified_roster_def update_roster_def hub_pair_nodes_def
      deregister_node_def static_hub_def pbind_def)

text \<open>A node with number 2 whose root key is thirty-two fives.\<close>

definition sample_seed :: signing_seed where
  "sample_seed = rev (str_bytes ''signing-key'') @ replicate 21 5"

definition sample_reg :: node_registration where
  "sample_reg = new_registration ''group'' 2 ''token'' ''jwt''"

definition sample_node :: "inner_state \<Rightarrow> node" where
  "sample_node inner = \<lparr>nd_inner = inner,
     nd_persisted = \<lparr>ps_root_key = replicate 32 5, ps_registration = Some sample_reg\<rparr>,
     nd_hub_addr = ''hub'', nd_signing_key = sample_seed\<rparr>"

definition sample_sys :: "inner_state \<Rightarrow> (unit, mem_store) sys" where
  "sample_sys inner = \<lparr>ev_world = (), ev_rtt = rtt_new, ev_now = 0, ho_store = mem_new,
     sy_node = sample_node inner\<rparr>"

definition mem_ops :: "mem_store store_ops" where
  "mem_ops = \<lparr>so_load = mem_load, so_save = mem_save, so_delete = mem_delete\<rparr>"

definition sample_pair :: roster where
  "sample_pair = pair_group ref_prims 1 [1] 2 sample_seed"

definition sample_hub :: "roster \<Rightarrow> unit hub" where
  "sample_hub r = static_hub \<lparr>pr_connectivity_group_id = ''group'', pr_node_number = 2,
     pr_auth_token = ''token'', pr_attestation_jwt = ''jwt''\<rparr> \<lparr>pm_payload = None, pm_mac = []\<rparr> r r"

lemma sample_reg_simps [simp]: "nr_auth_token sample_reg = Some ''token''" "nr_node_number sample_reg = 2"
  by (simp_all add: sample_reg_def new_registration_def)

lemma sample_node_ok:
  assumes "inner = InnerRegistered sample_reg \<or> inner = InnerActivated sample_reg sample_pair"
  shows "node_ok ref_prims (sample_node inner)"
proof -
  have "hkdf_sha256 ref_prims (str_bytes ''wispers-connect-v1'') (replicate 32 5)
      (str_bytes ''signing-key'') 32 = Some sample_seed"
    by (simp add: ref_prims_def sample_seed_def)
  moreover have "member_in ref_prims (sample_node inner) sample_reg sample_pair"
    using pair_group [OF ref_ed25519_correct, of 2 1 "[1]" sample_seed]
    by (simp add: member_in_def sample_pair_def sample_node_def)
  ultimately show ?thesis
    using assms by (auto simp: node_ok_def sample_node_def registration_of_def)
qed

subsection \<open>Restoring a node\<close>

lemma authed_token: "authed H reg rpc s = (Ok x, t) \<Longrightarrow> \<exists>tk. nr_auth_token reg = Some tk"
  by (auto simp: authed_def rust_simps add_auth_metadata_def)

lemma make_node_Ok:
  "make_node P inner persisted addr = Ok n \<longleftrightarrow>
     (\<exists>sk. hkdf_sha256 P (str_bytes ''wispers-connect-v1'') (ps_root_key persisted)
         (str_bytes ''signing-key'') 32 = Some sk \<and>
       n = \<lparr>nd_inner = inner, nd_persisted = persisted, nd_hub_addr = addr, nd_signing_key = sk\<rparr>)"
  by (auto simp: make_node_def derive_from_root_key_def rust_simps)

lemmas node_simps = make_node_Ok new_pending_def new_registered_def new_activated_def new_revoked_def

lemma restored_node_Ok:
  assumes "restored_node P state reg addr r = Ok n" and "ps_registration state = Some reg"
  shows "\<exists>sk. hkdf_sha256 P (str_bytes ''wispers-connect-v1'') (ps_root_key state)
      (str_bytes ''signing-key'') 32 = Some sk \<and>
    nd_persisted n = state \<and> nd_signing_key n = sk \<and>
    (nd_inner n = InnerRegistered reg \<or> nd_inner n = InnerRevoked reg \<or>
     nd_inner n = InnerActivated reg r \<and>
       is_ok (verify_roster P r (nr_node_number reg) (public_key_spki P sk)))"
proof (cases "\<exists>x \<in> set (ro_nodes r). rn_node_number x = nr_node_number reg")
  case True
  then obtain sk where sk: "derive_from_root_key P (ps_root_key state) =
      (Ok sk :: (signing_seed, node_state_error) result)"
    using assms by (auto simp: restored_node_def rust_simps)
  with True assms show ?thesis
    by (cases "verify_roster P r (nr_node_number reg) (public_key_spki P sk)")
      (auto simp: restored_node_def node_simps derive_from_root_key_def rust_simps
        split: roster_error.splits)
next
  case False
  with assms show ?thesis by (auto simp: restored_node_def node_simps rust_simps)
qed

lemma restored_ok:
  fixes s :: "('w, 's) host"
  assumes P: "ed25519_correct P" and r: "restore_or_init_node P H S addr rand s = (Ok n, t)"
  shows "node_ok P n"
proof -
  obtain loaded u where l: "on_store (so_load S) s = (Ok loaded, u)"
    using r by (auto simp: restore_or_init_node_def rust_simps)
  consider (fresh) state where "new_pending P state addr = (Ok n :: (node, node_state_error) result)"
    | (known) state reg q and v w :: "('w, 's) host" where "ps_registration state = Some reg"
        "get_unverified_roster H reg v = (Ok q, w)" "restored_node P state reg addr q = Ok n"
    using r l by (cases loaded)
      (auto simp: restore_or_init_node_def rust_simps is_registered_def Let_def split: if_splits)
  then show ?thesis
  proof cases
    case fresh then show ?thesis by (auto simp: node_simps node_okI)
  next
    case known
    obtain tk where "nr_auth_token reg = Some tk"
      using known(2) by (auto simp: get_unverified_roster_def dest!: authed_token)
    then show ?thesis
      using restored_node_Ok [OF known(3,1)] known(1) verified_member [OF P, of q reg n]
      by (auto simp: node_ok_def registration_of_def is_ok_iff)
  qed
qed

end
