(* ===== verification/Node_Props.thy ===== *)
theory Node_Props
  imports Node_Inv
begin

text \<open>
  The properties of \<open>node.rs\<close>: the state is always what was verified, what each operation
  does on success and on failure, and when an operation can panic.  The hub's answers are
  arbitrary throughout.
\<close>

subsection \<open>Properties\<close>


lemma sample_hub_answers [simp]:
  "connect (sample_hub r) a s = (Ok (), s)"
  "get_unverified_roster (sample_hub r) sample_reg s = (Ok r, s)"
  "update_roster (sample_hub r) sample_reg q s = (Ok r, s)"
  "deregister_node (sample_hub r) sample_reg s = (Ok (), s)"
  unfolding sample_hub_def by (rule static_hub_answers, rule sample_reg_simps)+

lemma sample_pair_accepted:
  "verify_roster ref_prims sample_pair 2 (public_key_spki ref_prims sample_seed)
     = Ok (active_keys ref_prims sample_pair)"
  "ro_nodes sample_pair = [fresh_node 1 [48, 1], fresh_node 2 (48 # sample_seed)]"
  using pair_group [OF ref_ed25519_correct, of 2 1 "[1]" sample_seed, folded sample_pair_def]
    own_spki_decodes [OF ref_ed25519_correct, of sample_seed]
  by (auto simp: verify_roster_Ok_iff)

lemma sample_restores:
  "restore_or_init_node ref_prims (sample_hub sample_pair) mem_ops ''hub'' rand
     \<lparr>ev_world = (), ev_rtt = rtt_new, ev_now = 0, ho_store = mem_new\<lparr>ms_state := Some
       \<lparr>ps_root_key = replicate 32 5, ps_registration = Some sample_reg\<rparr>\<rparr>\<rparr> =
   (Ok (sample_node (InnerActivated sample_reg sample_pair)),
     \<lparr>ev_world = (), ev_rtt = rtt_new, ev_now = 0, ho_store = mem_new\<lparr>ms_state := Some
       \<lparr>ps_root_key = replicate 32 5, ps_registration = Some sample_reg\<rparr>\<rparr>\<rparr>)"
proof -
  have sk: "derive_from_root_key ref_prims (replicate 32 5) =
      (Ok sample_seed :: (signing_seed, 'e) result)"
    by (simp add: derive_from_root_key_def ref_prims_def sample_seed_def)
  show ?thesis
    by (simp add: restore_or_init_node_def pbind_def perr_def on_store_def mem_ops_def mem_load_def
        mem_new_def is_registered_def restored_node_def sk sample_pair_accepted
        new_activated_def make_node_def sample_node_def)
qed

lemma sample_pair_active: "\<exists>x \<in> set (active_nodes sample_pair). rn_node_number x = 1"
  by (simp add: active_nodes_def sample_pair_accepted(2) fresh_node_def)

lemma sample_revokes:
  "revoke_node ref_prims (sample_hub sample_pair) 1 (sample_sys (InnerActivated sample_reg sample_pair))
   = (Ok (), sample_sys (InnerActivated sample_reg (revocation_by ref_prims sample_seed 2 sample_pair 1)))"
  by (simp add: revoke_node_def pbind_def perr_def sample_sys_def sample_node_def
      sample_pair_active submit_revocation_def Let_def set_revoker_signature_new set_inner_def
      revocation_by_def sign_def)


text \<open>
  An operation that fails leaves the node as it was.  Activation, revocation, refresh,
  logout and peer lookup change the node only when they succeed; registration is the
  exception that the next property describes.
\<close>

theorem failed_operations_change_nothing:
  "(is_ok (fst (activate P H rand code s)) \<or> sy_node (snd (activate P H rand code s)) = sy_node s) \<and>
   (is_ok (fst (revoke_node P H target s)) \<or> sy_node (snd (revoke_node P H target s)) = sy_node s) \<and>
   (is_ok (fst (refresh_membership P H s)) \<or> sy_node (snd (refresh_membership P H s)) = sy_node s) \<and>
   (is_ok (fst (logout P H S s)) \<or> sy_node (snd (logout P H S s)) = sy_node s) \<and>
   (is_ok (fst (find_peer_in_roster P H target s)) \<or>
      sy_node (snd (find_peer_in_roster P H target s)) = sy_node s)"
  using atomicD [OF atomic_activate surjective_pairing] atomicD [OF atomic_revoke_node surjective_pairing]
    atomicD [OF atomic_refresh surjective_pairing]
    logout_cases [OF surjective_pairing, of P H S s] find_peer_cases [OF surjective_pairing, of P H target s]
  by (metis is_ok.simps(1))

fun node_edge :: "node_event \<Rightarrow> node_state \<Rightarrow> node_state \<Rightarrow> bool" where
  "node_edge (EvRegister _) a b = (b = a \<or> a = Pending \<and> b = Registered)"
| "node_edge (EvActivate _ _) a b = (b = a \<or> a = Registered \<and> b = Activated)"
| "node_edge EvRefresh a b = (b = a \<or> a \<noteq> Pending \<and> b \<noteq> Pending)"
| "node_edge EvLogout a b = (b = a \<or> b = Pending)"
| "node_edge _ a b = (b = a)"

text \<open>
  The life cycle.  The edges of the node's state machine: only registration leaves
  Pending, only activation and refresh lead to Activated, only refresh to Revoked, and
  logout is the only way back to Pending; what every operation may do is listed here for
  all hubs and stores.
\<close>

theorem node_life_cycle:
  "node_edge e (node_state_of (sy_node s)) (node_state_of (sy_node (node_step P H S e s)))"
proof (cases e)
  case (EvRegister token)
  then show ?thesis
    by (cases rule: register_cases [OF surjective_pairing, of H S token s])
      (auto simp: node_state_of_def)
next
  case (EvActivate rand code)
  then show ?thesis
    by (cases rule: activate_cases [OF surjective_pairing, of P H rand code s])
      (auto simp: node_state_of_def)
next
  case (EvRevoke n)
  then show ?thesis
    by (cases rule: revoke_node_cases [OF surjective_pairing, of P H n s])
      (auto simp: node_state_of_def)
next
  case EvRefresh
  then show ?thesis
    by (cases rule: refresh_cases [OF surjective_pairing, of P H s])
      (auto simp: node_state_of_def registration_of_def split: inner_state.splits)
next
  case EvLogout
  then show ?thesis
    by (cases rule: logout_cases [OF surjective_pairing, of P H S s])
      (auto simp: node_state_of_def)
next
  case EvGroupInfo
  then show ?thesis
    using quietD [OF atomic_simple(3) surjective_pairing, of H s] by simp
next
  case (EvFindPeer n)
  then show ?thesis
    by (cases rule: find_peer_cases [OF surjective_pairing, of P H n s])
      (auto simp: node_state_of_def)
qed

text \<open>
  Revocation revokes.  When revoking a node succeeds, it was another node that the
  verified roster listed as active, and the roster now held is the old one extended by a
  revocation of exactly that node, signed by this one: the history stays valid, the target
  is active no more and every other node's key is unchanged.
\<close>

theorem revoke_node_revokes:
  assumes "ed25519_correct P" and "node_ok P (sy_node s)" and "revoke_node P H target s = (Ok (), t)"
  shows "\<exists>reg r0 r. nd_inner (sy_node s) = InnerActivated reg r0 \<and>
    nd_inner (sy_node t) = InnerActivated reg r \<and> target \<noteq> nr_node_number reg \<and>
    active_keys P r0 target \<noteq> None \<and> valid_history P r \<and>
    active_keys P r = (active_keys P r0)(target := None)"
  using assms(3)
proof (cases rule: revoke_node_cases)
  case (revoked reg r0)
  let ?r = "revocation_by P (nd_signing_key (sy_node s)) (nr_node_number reg) r0 target"
  have "member_in P (sy_node s) reg r0" using assms(2) revoked(2) by (simp add: node_ok_def)
  then show ?thesis
    using revocation_by_history [OF assms(1)] active_number [OF _ revoked(4)] revoked
    by (auto simp: member_in_def)
qed simp

theorem revoke_node_revokes_witness:
  "active_keys ref_prims (revocation_by ref_prims sample_seed 2 sample_pair 1) 1 = None"
  using revoke_node_revokes [OF ref_ed25519_correct _ sample_revokes] sample_node_ok
  by (auto simp: sample_sys_def) (simp add: sample_node_def)

text \<open>
  Refreshing tells the truth.  The state that a refresh reports is the one it leaves the
  node in; Activated is reported only for a roster that verifies under the node's own key,
  and Revoked only for a valid history in which the node was enrolled and has been revoked.
\<close>

theorem refresh_is_truthful:
  assumes "ed25519_correct P" and "refresh_membership P H s = (Ok st, t)"
  shows "st = node_state_of (sy_node t) \<and>
    (case nd_inner (sy_node t) of
       InnerActivated reg r \<Rightarrow> registration_of (sy_node s) = Some reg \<and> member_in P (sy_node s) reg r
     | InnerRevoked reg \<Rightarrow> (\<exists>r. valid_history P r \<and> nr_node_number reg \<in> set (node_numbers r) \<and>
         active_keys P r (nr_node_number reg) = None)
     | _ \<Rightarrow> True)"
  using assms(2)
proof (cases rule: refresh_cases)
  case pending
  then show ?thesis
    by (auto simp: node_state_of_def registration_of_def split: inner_state.splits)
next
  case (active reg r keys)
  then show ?thesis using verified_member [OF assms(1) active(3)] by (simp add: node_state_of_def)
next
  case (revoked reg r n)
  then show ?thesis by (auto simp: node_state_of_def verify_roster_Revoked_iff)
qed (auto simp: node_state_of_def)

theorem refresh_is_truthful_witness:
  "\<exists>t. refresh_membership ref_prims (sample_hub sample_pair) (sample_sys (InnerRegistered sample_reg)) =
     (Ok Activated, t) \<and> node_state_of (sy_node t) = Activated"
proof -
  have r: "refresh_membership ref_prims (sample_hub sample_pair) (sample_sys (InnerRegistered sample_reg)) =
      (Ok Activated, sample_sys (InnerActivated sample_reg sample_pair))"
    by (simp add: refresh_membership_def pbind_def perr_def sample_sys_def sample_node_def
        registration_of_def judge_membership_cases Let_def sample_pair_accepted)
  show ?thesis
    using refresh_is_truthful [OF ref_ed25519_correct r] r by auto
qed

text \<open>
  Logging out erases.  When it succeeds, the node is Pending, no registration is left in
  memory, the store's delete has succeeded, and a node that was the last active one has
  not logged out; when it fails, nothing was deleted unless the store's delete itself failed.
\<close>

theorem logout_erases:
  "case logout P H S s of
     (Ok _, t) \<Rightarrow> nd_inner (sy_node t) = InnerPending \<and> ps_registration (nd_persisted (sy_node t)) = None \<and>
       ps_root_key (nd_persisted (sy_node t)) = ps_root_key (nd_persisted (sy_node s)) \<and>
       so_delete S (ho_store s) = (Ok (), ho_store t) \<and>
       (case nd_inner (sy_node s) of InnerActivated reg r \<Rightarrow> 1 < length (active_nodes r) | _ \<Rightarrow> True)
   | (_, t) \<Rightarrow> sy_node t = sy_node s \<and>
       (ho_store t = ho_store s \<or> fst (so_delete S (ho_store s)) \<noteq> Ok ())"
proof -
  obtain res t where l: "logout P H S s = (res, t)" by (cases "logout P H S s")
  show ?thesis
  proof (cases rule: logout_cases [OF l])
    case 1
    then show ?thesis using l by (cases res) auto
  next
    case 2
    have "case nd_inner (sy_node s) of InnerActivated reg r \<Rightarrow> 1 < length (active_nodes r) | _ \<Rightarrow> True"
      using 2(4) by (auto simp: logout_remote_def pbind_def split: inner_state.splits if_splits)
    with 2 l show ?thesis by simp
  qed
qed

theorem logout_erases_witness:
  "nd_inner (sy_node (snd (logout ref_prims (sample_hub sample_pair) mem_ops
     (sample_sys (InnerRegistered sample_reg))))) = InnerPending"
proof -
  obtain t where l: "logout ref_prims (sample_hub sample_pair) mem_ops
      (sample_sys (InnerRegistered sample_reg)) = (Ok (), t)"
    by (simp add: logout_def logout_remote_def deregister_or_gone_def pbind_def perr_def pcatch_def
        sample_sys_def sample_node_def on_store_def mem_ops_def mem_delete_def mem_new_def
        set_persisted_registration_def set_inner_def)
  have "nd_inner (sy_node t) = InnerPending"
    using logout_erases [where P = ref_prims and H = "sample_hub sample_pair" and S = mem_ops
        and s = "sample_sys (InnerRegistered sample_reg)"] unfolding l by simp
  then show ?thesis by (simp add: l)
qed

text \<open>
  A peer is looked up in verified rosters only.  The node that a lookup returns has the
  number asked for and is not revoked, and its key is the one that the group's history,
  valid and including this node, establishes for that number.
\<close>

theorem find_peer_returns_verified_peer:
  assumes "ed25519_correct P" and "node_ok P (sy_node s)"
    and "find_peer_in_roster P H peer s = (Ok x, t)"
  shows "rn_node_number x = peer \<and> \<not> rn_revoked x \<and>
    (\<exists>reg r k. nd_inner (sy_node t) = InnerActivated reg r \<and> member_in P (sy_node t) reg r \<and>
       vk_from_der P (rn_public_key_spki x) = Inr k \<and> active_keys P r peer = Some k)"
proof -
  have key: "rn_node_number x = peer \<and> \<not> rn_revoked x \<and>
      (\<exists>k. vk_from_der P (rn_public_key_spki x) = Inr k \<and> active_keys P r peer = Some k)"
    if "find_active peer r = Some x" "valid_history P r" for r
    using that valid_history_wf [OF that(2)]
    by (auto simp: find_active_def active_keys_def keys_of_def wf_roster_def split: sum.splits
        dest!: find_SomeD)
  have ok: "node_ok P (sy_node t)" by (rule find_peer_ok [OF assms])
  from assms(3) show ?thesis
  proof (cases rule: find_peer_cases)
    case (cached reg r y)
    then have "member_in P (sy_node t) reg r" using ok by (simp add: node_ok_def)
    then show ?thesis using key [of r] cached by (auto simp: member_in_def)
  next
    case (fetched reg r0 r y keys)
    then have "member_in P (sy_node t) reg r" using ok by (simp add: node_ok_def)
    then show ?thesis using key [of r] fetched by (auto simp: member_in_def)
  qed simp
qed

theorem find_peer_returns_verified_peer_witness:
  "find_peer_in_roster ref_prims (sample_hub sample_pair) 1 (sample_sys (InnerActivated sample_reg sample_pair)) =
     (Ok (fresh_node 1 [48, 1]), sample_sys (InnerActivated sample_reg sample_pair)) \<and>
   active_keys ref_prims sample_pair 1 = Some [1]"
proof -
  have f: "find_peer_in_roster ref_prims (sample_hub sample_pair) 1
      (sample_sys (InnerActivated sample_reg sample_pair)) =
     (Ok (fresh_node 1 [48, 1]), sample_sys (InnerActivated sample_reg sample_pair))"
    by (simp add: find_peer_in_roster_def pbind_def sample_sys_def sample_node_def find_active_def
        sample_pair_accepted(2))
  show ?thesis
    using find_peer_returns_verified_peer [OF ref_ed25519_correct _ f] sample_node_ok f
    by (auto simp: sample_sys_def) (simp add: sample_node_def)
qed

subsection \<open>Panics\<close>

named_theorems calm "introduction rules for no_panic"

lemma no_panicI: "(\<And>s t. m s \<noteq> (Panic, t)) \<Longrightarrow> no_panic m"
  unfolding no_panic_def by (metis prod.collapse)

lemma calm_pbind [calm]: "no_panic m \<Longrightarrow> (\<And>x. no_panic (k x)) \<Longrightarrow> no_panic (pbind m k)"
  by (intro no_panicI) (auto simp: rust_simps dest: no_panicD)

lemma calm_perr [calm]: "no_panic m \<Longrightarrow> no_panic (perr g m)"
  by (intro no_panicI) (auto simp: rust_simps dest: no_panicD)

lemma calm_pcatch [calm]:
  assumes "no_panic m" "\<And>x. no_panic (k x)" "\<And>e. no_panic (h e)"
  shows "no_panic (pcatch m k h)"
  by (intro no_panicI) (auto simp: pcatch_def split: prod.splits result.splits
      simp: no_panicD [OF assms(1)] no_panicD [OF assms(2)] no_panicD [OF assms(3)])

lemma calm_pure [calm]:
  "no_panic (ret x)" "no_panic (fail e)" "no_panic (gets f)" "no_panic (modify g)"
  "no_panic (set_inner i)" "no_panic (set_persisted_registration r)"
  "no_panic (lift (check b e))" "no_panic (lift (ok_or e opt))"
  by (auto simp: no_panic_def set_inner_def set_persisted_registration_def check_iff ok_or_iff)

lemma calm_lift: "r \<noteq> Panic \<Longrightarrow> no_panic (lift r)"
  by (simp add: no_panic_def)

lemma calm_client:
  assumes "nr_auth_token reg = Some tk"
  shows "no_panic (list_nodes H reg)" "no_panic (hub_pair_nodes H reg msg)"
    "no_panic (get_unverified_roster H reg)" "no_panic (get_group_metadata H reg)"
    "no_panic (update_roster H reg r)" "no_panic (deregister_node H reg)"
    "no_panic (get_stun_turn_config H reg)" "no_panic (start_connection H reg rq)"
    "no_panic (submit_revocation P H reg r0 n)"
  unfolding list_nodes_def hub_pair_nodes_def get_unverified_roster_def get_group_metadata_def
    update_roster_def deregister_node_def submit_revocation_def Let_def set_revoker_signature_new
    get_stun_turn_config_def start_connection_def
  using assms by (auto intro!: calm authed_no_panic calm_lift)

lemmas calm_connect [calm] = connect_no_panic complete_registration_no_panic

definition store_total :: "'s store_ops \<Rightarrow> bool" where
  "store_total S \<longleftrightarrow> (\<forall>p s. fst (so_load S s) \<noteq> Panic \<and> fst (so_save S p s) \<noteq> Panic \<and>
     fst (so_delete S s) \<noteq> Panic)"

lemma calm_store:
  assumes "store_total S"
  shows "no_panic (on_store (so_save S p))" "no_panic (on_store (so_delete S))"
  using assms by (auto simp: no_panic_def store_total_def on_store_def split: prod.splits)
    (metis fst_conv map_err_iff(3))+

lemma verify_own_total:
  "ed25519_correct P \<Longrightarrow> verify_roster P r me (public_key_spki P sk) \<noteq> Panic"
  using own_spki_decodes [of P sk] verify_roster_Panic_iff [of P r me] by simp

lemma calm_at: "no_panic m \<Longrightarrow> fst (m s) \<noteq> Panic"
  by (simp add: no_panic_def)

lemma calm_gets: "no_panic (k (f s)) \<Longrightarrow> fst (pbind (gets f) k s) \<noteq> Panic"
  by (simp add: no_panic_def pbind_def)

lemma calm_bind_Ok: "no_panic (k x) \<Longrightarrow> no_panic (pbind (lift (Ok x)) k)"
  by (simp add: no_panic_def pbind_def)

lemma calm_deregister: "nr_auth_token reg = Some tk \<Longrightarrow> no_panic (deregister_or_gone H reg)"
  unfolding deregister_or_gone_def by (auto intro!: calm calm_client)

lemma register_calm:
  assumes "store_total S" shows "fst (register H S token s) \<noteq> Panic"
proof -
  have "lift (require_pending (sy_node s)) u \<noteq> (Panic, t)" for u t
    by (simp add: require_pending_def split: inner_state.split)
  then have "no_panic (lift (require_pending (sy_node s)))" by (intro no_panicI)
  then show ?thesis
    unfolding register_def using assms by (intro calm_gets calm calm_store)
qed

lemma revoke_calm:
  assumes "node_ok P (sy_node s)" shows "fst (revoke_node P H target s) \<noteq> Panic"
proof (cases "nd_inner (sy_node s)")
  case (InnerActivated reg r0)
  then obtain tk where "nr_auth_token reg = Some tk"
    using assms by (auto simp: node_ok_def registration_of_def)
  with InnerActivated show ?thesis
    unfolding revoke_node_def by (intro calm_gets) (auto intro!: calm calm_client)
qed (simp_all add: revoke_node_def pbind_def)

lemma refresh_calm:
  assumes "ed25519_correct P" and "node_ok P (sy_node s)"
  shows "fst (refresh_membership P H s) \<noteq> Panic"
proof (cases "registration_of (sy_node s)")
  case (Some reg)
  then obtain tk where "nr_auth_token reg = Some tk"
    using assms by (auto simp: node_ok_def)
  moreover have "no_panic (judge_membership P reg r)" for r
    using verify_own_total [OF assms(1)]
    by (auto simp: no_panic_def judge_membership_cases Let_def split: result.splits)
  ultimately show ?thesis
    using Some unfolding refresh_membership_def by (intro calm_gets) (auto intro!: calm calm_client)
qed (simp add: refresh_membership_def pbind_def)

lemma logout_calm:
  assumes "node_ok P (sy_node s)" and "store_total S"
  shows "fst (logout P H S s) \<noteq> Panic"
proof -
  have "fst (logout_remote P H s) \<noteq> Panic"
  proof (cases "registration_of (sy_node s)")
    case None
    then show ?thesis
      by (simp add: logout_remote_def pbind_def registration_of_def split: inner_state.splits)
  next
    case (Some reg)
    then obtain tk where "nr_auth_token reg = Some tk" "ps_registration (nd_persisted (sy_node s)) = Some reg"
      using assms by (auto simp: node_ok_def)
    with Some show ?thesis
      unfolding logout_remote_def by (intro calm_gets, cases "nd_inner (sy_node s)")
        (auto simp: registration_of_def intro!: calm_bind_Ok calm calm_client calm_deregister)
  qed
  moreover have "no_panic (pbind (on_store (so_delete S)) (\<lambda>_. pbind (set_persisted_registration None)
      (\<lambda>_. set_inner InnerPending)))"
    using assms(2) by (intro calm calm_store)
  ultimately show ?thesis
    by (cases "logout_remote P H s") (auto simp: logout_def pbind_def [of "logout_remote P H"]
        no_panic_def split: result.splits)
qed

lemma group_info_calm:
  assumes "node_ok P (sy_node s)" shows "fst (get_group_info H s) \<noteq> Panic"
proof (cases "registration_of (sy_node s)")
  case None
  then show ?thesis
    by (simp add: get_group_info_def require_at_least_registered_def registration_of_def pbind_def
        split: inner_state.splits)
next
  case (Some reg)
  then obtain tk where "nr_auth_token reg = Some tk" using assms by (auto simp: node_ok_def)
  moreover have "require_at_least_registered (sy_node s) =
      (Ok reg :: (node_registration, node_state_error) result)"
    using Some by (simp add: require_at_least_registered_def registration_of_def split: inner_state.splits)
  ultimately show ?thesis
    unfolding get_group_info_def
    by (intro calm_gets) (simp, intro calm_bind_Ok, auto intro!: calm calm_client split: prod.split)
qed

lemma find_peer_calm:
  assumes "ed25519_correct P" and "node_ok P (sy_node s)"
  shows "fst (find_peer_in_roster P H target s) \<noteq> Panic"
proof (cases "nd_inner (sy_node s)")
  case (InnerActivated reg r0)
  then obtain tk where "nr_auth_token reg = Some tk"
    using assms by (auto simp: node_ok_def registration_of_def)
  then have "no_panic (get_and_verify_roster P H reg (public_key_spki P (nd_signing_key (sy_node s))))"
    unfolding get_and_verify_roster_def using verify_own_total [OF assms(1)]
    by (auto intro!: calm calm_client calm_lift simp: map_err_iff)
  then show ?thesis
    using InnerActivated unfolding find_peer_in_roster_def
    by (intro calm_gets)
      (auto intro!: calm split: option.split hub_error.split roster_error.split)
qed (simp_all add: find_peer_in_roster_def pbind_def)

text \<open>
  No hub can crash a node.  Under the invariant, with a store that does not panic,
  registration, revocation, refresh, logout, the group query and the peer lookup never
  panic, whatever the hub answers.
\<close>

theorem node_operations_do_not_panic:
  assumes "ed25519_correct P" and "node_ok P (sy_node s)" and "store_total S"
  shows "fst (register H S token s) \<noteq> Panic \<and> fst (revoke_node P H target s) \<noteq> Panic \<and>
    fst (refresh_membership P H s) \<noteq> Panic \<and> fst (logout P H S s) \<noteq> Panic \<and>
    fst (get_group_info H s) \<noteq> Panic \<and> fst (find_peer_in_roster P H target s) \<noteq> Panic"
  by (intro conjI register_calm revoke_calm refresh_calm logout_calm find_peer_calm
      group_info_calm [OF assms(2)] assms)

lemma mem_ops_total: "store_total mem_ops"
  by (simp add: store_total_def mem_ops_def mem_load_def mem_save_def mem_delete_def pbind_def)

theorem node_operations_do_not_panic_witness:
  "fst (logout ref_prims (sample_hub sample_pair) mem_ops
     (sample_sys (InnerActivated sample_reg sample_pair))) \<noteq> Panic"
proof -
  have "node_ok ref_prims (sy_node (sample_sys (InnerActivated sample_reg sample_pair)))"
    using sample_node_ok by (simp add: sample_sys_def)
  from node_operations_do_not_panic [OF ref_ed25519_correct this mem_ops_total]
  show ?thesis by blast
qed

subsection \<open>Activation\<close>

text \<open>The roster that a new node signs and submits.\<close>

definition proposed_roster ::
  "prims \<Rightarrow> signing_seed \<Rightarrow> i32 \<Rightarrow> bytes \<Rightarrow> roster \<Rightarrow> i32 \<Rightarrow> pair_payload \<Rightarrow> roster"
where
  "proposed_roster P sk me nonce current endorser reply =
     (let ap = build_activation_payload current me endorser nonce (pp_nonce reply);
          u = (if ro_version current = 0
            then create_bootstrap_roster ap (public_key_spki P sk) (pp_public_key_spki reply)
            else add_activation_to_roster current ap (public_key_spki P sk))
      in with_last u (signed_activation ap (ed_sign P sk (compute_signing_hash P u)) []))"

lemma require_registered_iff:
  "require_registered n = Ok reg \<longleftrightarrow> nd_inner n = InnerRegistered reg"
  by (simp add: require_registered_def split: inner_state.split)

lemma set_new_node_signature_new:
  "set_new_node_signature (create_bootstrap_roster p a b) sig =
     Ok (with_last (create_bootstrap_roster p a b) (signed_activation p sig []))"
  "set_new_node_signature (add_activation_to_roster r p a) sig =
     Ok (with_last (add_activation_to_roster r p a) (signed_activation p sig []))"
  using set_signature_on_last(1) [of "create_bootstrap_roster p a b" "[]" p "[]" "[]" sig]
    set_signature_on_last(1) [of "add_activation_to_roster r p a" "ro_addenda r" p "[]" "[]" sig]
  by (simp_all add: unsigned_is_signed)

lemma propose_activation_Ok:
  "propose_activation P sk me e nonce reply current = Ok (proposed_roster P sk me nonce current e reply)"
  by (simp add: propose_activation_def proposed_roster_def Let_def set_new_node_signature_new sign_def)

lemma check_base_roster_Ok:
  "check_base_roster P current e reply = Ok u \<longleftrightarrow>
     \<not> 0 < sint (ro_version current) \<or> is_ok (verify_roster P current e (pp_public_key_spki reply))"
  by (auto simp: check_base_roster_def rust_simps is_ok_iff)

lemma check_base_roster_Panic:
  "check_base_roster P current e reply = Panic \<longleftrightarrow>
     0 < sint (ro_version current) \<and> verify_roster P current e (pp_public_key_spki reply) = Panic"
  by (auto simp: check_base_roster_def rust_simps)

text \<open>The authenticated part of a run: the code, the endorser's reply and the base roster.\<close>

definition reply_accepted ::
  "prims \<Rightarrow> (nat \<Rightarrow> u8) \<Rightarrow> string \<Rightarrow> node_registration \<Rightarrow> pairing_code \<Rightarrow> pair_nodes_message \<Rightarrow>
   pair_payload \<Rightarrow> bool"
where
  "reply_accepted P rand code reg pc m reply \<longleftrightarrow>
     parse_code P code = Ok pc \<and> pm_payload m = Some reply \<and>
     pm_mac m = compute_mac P (pc_secret pc) (encode_pair_payload P reply) \<and>
     pp_receiver_node_number reply = nr_node_number reg \<and> pp_reply_nonce reply = generate_nonce rand"

lemma pairing_exchange_Ok:
  assumes "pairing_exchange P H rand n reg pc s = (Ok reply, t)" and "parse_code P code = Ok pc"
  shows "\<exists>m. reply_accepted P rand code reg pc m reply"
  using assms by (auto simp: pairing_exchange_def Let_def rust_simps reply_accepted_def)

lemma pairing_exchange_calm:
  "nr_auth_token reg = Some tk \<Longrightarrow> no_panic (pairing_exchange P H rand n reg pc)"
  unfolding pairing_exchange_def Let_def by (auto intro!: calm calm_client)

lemma activate_opened:
  fixes s :: "('w, 's) sys"
  assumes "activate P H rand code s = (Ok (), t)"
  shows "\<exists>reg pc m reply current cosigned keys (u :: ('w, 's) sys) v.
    nd_inner (sy_node s) = InnerRegistered reg \<and> reply_accepted P rand code reg pc m reply \<and>
    (0 < sint (ro_version current) \<longrightarrow>
       is_ok (verify_roster P current (pc_node_number pc) (pp_public_key_spki reply))) \<and>
    update_roster H reg (proposed_roster P (nd_signing_key (sy_node s)) (nr_node_number reg)
      (generate_nonce rand) current (pc_node_number pc) reply) u = (Ok cosigned, v) \<and>
    verify_roster P cosigned (nr_node_number reg) (public_key_spki P (nd_signing_key (sy_node s))) = Ok keys \<and>
    sy_node t = (sy_node s)\<lparr>nd_inner := InnerActivated reg cosigned\<rparr>"
proof -
  from assms obtain reg pc reply current cosigned keys and u1 u2 u3 :: "('w, 's) sys" where
    a: "nd_inner (sy_node s) = InnerRegistered reg" "parse_code P code = Ok pc"
      "pairing_exchange P H rand (sy_node s) reg pc s = (Ok reply, u1)"
    and g: "get_unverified_roster H reg u1 = (Ok current, u2)"
    and c: "check_base_roster P current (pc_node_number pc) reply = Ok ()"
    and u: "update_roster H reg (proposed_roster P (nd_signing_key (sy_node s)) (nr_node_number reg)
        (generate_nonce rand) current (pc_node_number pc) reply) u2 = (Ok cosigned, u3)"
    and v: "verify_roster P cosigned (nr_node_number reg) (public_key_spki P (nd_signing_key (sy_node s))) = Ok keys"
    and t: "t = u3\<lparr>sy_node := (sy_node u3)\<lparr>nd_inner := InnerActivated reg cosigned\<rparr>\<rparr>"
    unfolding activate_def Let_def
    by (auto simp: rust_simps require_registered_iff propose_activation_Ok set_inner_def)
  have "sy_node u3 = sy_node s"
    using quietD [OF pairing_exchange_quiet a(3)] g u by (auto dest!: client_quiet)
  with t have "sy_node t = (sy_node s)\<lparr>nd_inner := InnerActivated reg cosigned\<rparr>" by simp
  with a u v c pairing_exchange_Ok [OF a(3,2)] show ?thesis
    by (auto simp: check_base_roster_Ok) blast+
qed

lemma parse_code_total: "parse_code P code \<noteq> Panic"
  by (auto simp: parse_code_def from_base36_def decode_base36_def rust_simps Let_def
      split: list.splits option.splits)

lemma activate_panics:
  assumes P: "ed25519_correct P" and n: "node_ok P (sy_node s)"
    and p: "fst (activate P H rand code s) = Panic"
  shows "\<exists>reg pc m reply current. nd_inner (sy_node s) = InnerRegistered reg \<and>
    reply_accepted P rand code reg pc m reply \<and> 0 < sint (ro_version current) \<and>
    verify_roster P current (pc_node_number pc) (pp_public_key_spki reply) = Panic"
proof -
  obtain t where p: "activate P H rand code s = (Panic, t)" using p by (cases "activate P H rand code s") simp
  have reg_total: "require_registered (sy_node s) \<noteq> Panic"
    by (simp add: require_registered_def split: inner_state.split)
  obtain reg where r: "nd_inner (sy_node s) = InnerRegistered reg"
    using p reg_total by (auto simp: activate_def rust_simps require_registered_iff)
  then obtain tk where tk: "nr_auth_token reg = Some tk"
    using n by (auto simp: node_ok_def registration_of_def)
  note calm = no_panicD [OF calm_client(3) [OF tk]] no_panicD [OF calm_client(5) [OF tk]]
    no_panicD [OF pairing_exchange_calm [OF tk]]
  obtain pc reply current u v where a: "parse_code P code = Ok pc"
      "pairing_exchange P H rand (sy_node s) reg pc s = (Ok reply, u)"
      "check_base_roster P current (pc_node_number pc) reply = Panic"
    using p unfolding activate_def Let_def
    by (auto simp: rust_simps require_registered_iff reg_total parse_code_total r calm
        propose_activation_Ok set_inner_def verify_own_total [OF P])
  then show ?thesis
    using r pairing_exchange_Ok [OF a(2,1)] by (auto simp: check_base_roster_Panic)
qed

text \<open>A concrete exchange: the code of node 1, and its reply with a key of choice.\<close>

definition sample_code :: string where
  "sample_code = ''1-00000000001''"

definition sample_reply :: "bytes \<Rightarrow> pair_payload" where
  "sample_reply spki = \<lparr>pp_sender_node_number = 1, pp_receiver_node_number = 2,
     pp_public_key_spki = spki, pp_nonce = [8], pp_reply_nonce = generate_nonce (\<lambda>_. 7)\<rparr>"

definition sample_pairing_hub :: "bytes \<Rightarrow> roster \<Rightarrow> roster \<Rightarrow> unit hub" where
  "sample_pairing_hub spki = static_hub \<lparr>pr_connectivity_group_id = ''group'', pr_node_number = 2,
       pr_auth_token = ''token'', pr_attestation_jwt = ''jwt''\<rparr>
     \<lparr>pm_payload = Some (sample_reply spki),
      pm_mac = compute_mac ref_prims [0, 0, 0, 0, 0, 0, 1] (encode_pair_payload ref_prims (sample_reply spki))\<rparr>"

lemma sample_code_parses:
  "parse_code ref_prims sample_code = Ok \<lparr>pc_node_number = 1, pc_secret = [0, 0, 0, 0, 0, 0, 1]\<rparr>"
  unfolding sample_code_def by code_simp

lemma sample_pairing_hub_answers [simp]:
  "connect (sample_pairing_hub spki r r') a s = (Ok (), s)"
  "get_unverified_roster (sample_pairing_hub spki r r') sample_reg s = (Ok r, s)"
  "update_roster (sample_pairing_hub spki r r') sample_reg q s = (Ok r', s)"
  "hub_pair_nodes (sample_pairing_hub spki r r') sample_reg msg s =
     (Ok \<lparr>pm_payload = Some (sample_reply spki), pm_mac = compute_mac ref_prims [0, 0, 0, 0, 0, 0, 1]
       (encode_pair_payload ref_prims (sample_reply spki))\<rparr>, s)"
  unfolding sample_pairing_hub_def by (rule static_hub_answers, rule sample_reg_simps)+

lemma sample_exchange:
  "pairing_exchange ref_prims (sample_pairing_hub spki r r') (\<lambda>_. 7) n sample_reg
     \<lparr>pc_node_number = 1, pc_secret = [0, 0, 0, 0, 0, 0, 1]\<rparr> s = (Ok (sample_reply spki), s)"
  by (simp add: pairing_exchange_def Let_def pbind_def perr_def) (simp add: sample_reply_def)

lemma sample_activation:
  "activate ref_prims (sample_pairing_hub [48, 1] default_roster sample_pair) (\<lambda>_. 7) sample_code
     (sample_sys (InnerRegistered sample_reg)) = (Ok (), sample_sys (InnerActivated sample_reg sample_pair))"
  by (simp add: activate_def pbind_def perr_def Let_def sample_code_parses sample_exchange
      require_registered_def sample_sys_def sample_node_def check_base_roster_def default_roster_def
      propose_activation_Ok sample_pair_accepted set_inner_def)

lemma sample_activation_panic:
  "activate ref_prims (sample_pairing_hub [] sample_pair sample_pair) (\<lambda>_. 7) sample_code
     (sample_sys (InnerRegistered sample_reg)) = (Panic, sample_sys (InnerRegistered sample_reg))"
proof -
  have "ro_version sample_pair = 1"
    using pair_group(5) [OF ref_ed25519_correct] by (simp add: sample_pair_def)
  moreover have "verify_roster ref_prims sample_pair 1 [] = Panic"
    by (simp add: verify_roster_Panic_iff)
  ultimately show ?thesis
    by (simp add: activate_def pbind_def perr_def Let_def sample_code_parses sample_exchange
      require_registered_def sample_sys_def sample_node_def check_base_roster_def sample_reply_def)
qed



text \<open>
  What can crash an activation.  Under the invariant, activation panics only when the
  reply, authenticated by whoever knows the code's secret, carries a public key that does
  not decode while the group has a roster: the verifier expects the key it is given to be
  the caller's own.
\<close>

theorem activate_panics_only_on_endorser_key:
  assumes "ed25519_correct P" and "node_ok P (sy_node s)"
    and "fst (activate P H rand code s) = Panic"
  shows "\<exists>reg pc m reply current e. nd_inner (sy_node s) = InnerRegistered reg \<and>
    reply_accepted P rand code reg pc m reply \<and> 0 < sint (ro_version (current :: roster)) \<and>
    vk_from_der P (pp_public_key_spki reply) = Inl e"
  using activate_panics [OF assms] by (auto simp: verify_roster_Panic_iff)

theorem activate_panics_only_on_endorser_key_witness:
  "fst (activate ref_prims (sample_pairing_hub [] sample_pair sample_pair) (\<lambda>_. 7) sample_code
     (sample_sys (InnerRegistered sample_reg))) = Panic \<and>
   (\<exists>m reply e. reply_accepted ref_prims (\<lambda>_. 7) sample_code sample_reg
     \<lparr>pc_node_number = 1, pc_secret = [0, 0, 0, 0, 0, 0, 1]\<rparr> m reply \<and>
     vk_from_der ref_prims (pp_public_key_spki reply) = Inl e)"
proof -
  have "node_ok ref_prims (sy_node (sample_sys (InnerRegistered sample_reg)))"
    using sample_node_ok by (simp add: sample_sys_def)
  from activate_panics_only_on_endorser_key [OF ref_ed25519_correct this, of
      "sample_pairing_hub [] sample_pair sample_pair" "\<lambda>_. 7" sample_code]
  show ?thesis
    using sample_code_parses sample_activation_panic
    by (auto simp: sample_sys_def sample_node_def reply_accepted_def)
qed

subsection \<open>Registration and restarts\<close>

text \<open>
  A registration that could not be saved leaves the node in two minds.  When the hub has
  completed the registration but the store fails, the call reports the store's error and
  the state is still Pending, yet the node counts as registered, with a registration that
  no store holds.
\<close>

theorem unsaved_registration_is_half_done:
  assumes "nd_inner (sy_node s) = InnerPending"
    and "connect H (nd_hub_addr (sy_node s)) s = (Ok (), u)"
    and "complete_registration H token u = (Ok reg, v)"
    and "so_save S (set_registration reg (nd_persisted (sy_node s))) (ho_store s) = (Err e, st)"
  shows "\<exists>t. register H S token s = (Err (Store e), t) \<and> node_state_of (sy_node t) = Pending \<and>
    registration_of (sy_node t) = None \<and> node_is_registered (sy_node t) \<and> ho_store t = st"
proof -
  have "sy_node v = sy_node s" "ho_store v = ho_store s"
    using assms(2,3) by (auto dest!: client_quiet)
  then show ?thesis
    using assms by (simp add: register_def pbind_def perr_def require_pending_def on_store_def
        set_persisted_registration_def set_registration_def node_state_of_def registration_of_def
        node_is_registered_def is_registered_def)
qed

definition sample_pending :: "mem_store \<Rightarrow> (unit, mem_store) sys" where
  "sample_pending st = \<lparr>ev_world = (), ev_rtt = rtt_new, ev_now = 0, ho_store = st,
     sy_node = (sample_node InnerPending)\<lparr>nd_persisted := \<lparr>ps_root_key = replicate 32 5,
       ps_registration = None\<rparr>\<rparr>\<rparr>"

lemma sample_registration_call:
  "complete_registration (sample_hub r) token s = (Ok sample_reg, s)"
  by (simp add: complete_registration_def sample_hub_def static_hub_def timed_def call_rpc_def
      answer_def server_time_def pbind_def perr_def sample_reg_def)

theorem unsaved_registration_is_half_done_witness:
  "\<exists>t. register (sample_hub sample_pair) mem_ops ''tok'' (sample_pending (mem_new\<lparr>ms_poisoned := True\<rparr>))
     = (Err (Store Poisoned), t) \<and> node_state_of (sy_node t) = Pending \<and> node_is_registered (sy_node t)"
proof -
  let ?s = "sample_pending (mem_new\<lparr>ms_poisoned := True\<rparr>)"
  have i: "nd_inner (sy_node ?s) = InnerPending" by (simp add: sample_pending_def sample_node_def)
  have sv: "so_save mem_ops p (ho_store ?s) = (Err Poisoned, ho_store ?s)" for p
    by (simp add: mem_ops_def mem_save_def sample_pending_def pbind_def)
  show ?thesis
    using unsaved_registration_is_half_done [OF i sample_hub_answers(1) sample_registration_call sv]
    by blast
qed

text \<open>What a store that keeps its laws gives its client.\<close>

context node_store
begin

lemma restart_reads_back:
  assumes "healthy (ho_store s)" and "good (nd_persisted (sy_node t))"
    and "register H \<lparr>so_load = load, so_save = save, so_delete = delete\<rparr> token s = (Ok (), t)"
  shows "\<exists>reg. nd_inner (sy_node t) = InnerRegistered reg \<and> ps_registration (nd_persisted (sy_node t)) = Some reg \<and>
    nd_signing_key (sy_node t) = nd_signing_key (sy_node s) \<and>
    fst (load (ho_store t)) = Ok (Some (nd_persisted (sy_node t)))"
  using assms(3)
proof (cases rule: register_cases)
  case (registered reg)
  then have "ho_store t = snd (save (nd_persisted (sy_node t)) (ho_store s))" by simp
  then show ?thesis
    using save_content [OF assms(1,2)] load_content [of "ho_store t"] registered
    by (simp add: set_registration_def)
qed simp_all

end

definition file_ops :: "prims \<Rightarrow> fs_oracle \<Rightarrow> fs store_ops" where
  "file_ops P io = \<lparr>so_load = file_load P io, so_save = file_save P io, so_delete = file_delete io\<rparr>"

lemma restored_from_load:
  assumes "restore_or_init_node P H S addr rand h = (Ok n, h')"
    and "fst (so_load S (ho_store h)) = Ok (Some state)" and "ps_registration state = Some reg"
  shows "nd_persisted n = state \<and> registration_of n = Some reg \<and>
    hkdf_sha256 P (str_bytes ''wispers-connect-v1'') (ps_root_key state)
      (str_bytes ''signing-key'') 32 = Some (nd_signing_key n)"
proof -
  obtain st where "so_load S (ho_store h) = (Ok (Some state), st)"
    using assms(2) by (cases "so_load S (ho_store h)") simp
  then have "\<exists>q. restored_node P state reg addr q = Ok n"
    using assms(1,3) by (auto simp: restore_or_init_node_def rust_simps on_store_iff is_registered_def)
  then show ?thesis
    using restored_node_Ok [OF _ assms(3)] by (fastforce simp: registration_of_def)
qed

text \<open>
  A registration survives a restart.  After a successful registration on a file store
  that works, a node restored from the same directory, whatever the hub says then, has the
  same registration, the same persisted state and the same signing key.
\<close>

theorem registration_survives_restart:
  assumes "node_ok P (sy_node s)" and "fs_healthy io (ho_store s)"
    and "register H (file_ops P io) token s = (Ok (), t)" and "storable P (nd_persisted (sy_node t))"
    and "ho_store h = ho_store t" and "restore_or_init_node P H' (file_ops P io) addr rand h = (Ok n, h')"
  shows "nd_persisted n = nd_persisted (sy_node t) \<and>
    registration_of n = registration_of (sy_node t) \<and> nd_signing_key n = nd_signing_key (sy_node t)"
proof -
  obtain reg where r: "nd_inner (sy_node t) = InnerRegistered reg"
      "ps_registration (nd_persisted (sy_node t)) = Some reg"
      "fst (file_load P io (ho_store t)) = Ok (Some (nd_persisted (sy_node t)))"
    using fstore.restart_reads_back [OF assms(2,4) assms(3) [unfolded file_ops_def]] by blast
  have "node_ok P (sy_node t)" by (rule register_ok [OF assms(1,3)])
  then show ?thesis
    using restored_from_load [OF assms(6) _ r(2)] r assms(5)
    by (simp add: file_ops_def node_ok_def registration_of_def)
qed

definition empty_fs :: fs where
  "empty_fs = \<lparr>fs_dir = False, fs_root_key = None, fs_registration = None, fs_legacy = False\<rparr>"

definition fs_pending :: "(unit, fs) sys" where
  "fs_pending = \<lparr>ev_world = (), ev_rtt = rtt_new, ev_now = 0, ho_store = empty_fs,
     sy_node = (sample_node InnerPending)\<lparr>nd_persisted := \<lparr>ps_root_key = replicate 32 5,
       ps_registration = None\<rparr>\<rparr>\<rparr>"

definition registering_hub :: "unit hub" where
  "registering_hub = static_hub \<lparr>pr_connectivity_group_id = ''group-123'', pr_node_number = 7,
     pr_auth_token = ''token'', pr_attestation_jwt = ''jwt''\<rparr> \<lparr>pm_payload = None, pm_mac = []\<rparr>
     default_roster default_roster"

theorem registration_survives_restart_witness:
  "\<exists>t n h'. register registering_hub (file_ops ref_prims (\<lambda>_. None)) ''tok'' fs_pending = (Ok (), t) \<and>
     restore_or_init_node ref_prims registering_hub (file_ops ref_prims (\<lambda>_. None)) ''hub'' (\<lambda>_. 0)
       \<lparr>ev_world = (), ev_rtt = rtt_new, ev_now = 0, ho_store = ho_store t\<rparr> = (Ok n, h') \<and>
     nd_persisted n = nd_persisted (sy_node t) \<and> nd_signing_key n = sample_seed"
proof -
  have reg: "set_registration sample_registration \<lparr>ps_root_key = replicate 32 5, ps_registration = None\<rparr>
      = sample_persisted"
    by (simp add: set_registration_def sample_persisted_def from_stored_def)
  have healthy: "fs_healthy (\<lambda>_. None) empty_fs" by (simp add: fs_healthy_def empty_fs_def)
  obtain st where st: "file_save ref_prims (\<lambda>_. None) sample_persisted empty_fs = (Ok (), st)"
      "fs_healthy (\<lambda>_. None) st" "fs_content ref_prims st = Some sample_persisted"
    using fstore.save_content [OF healthy sample_storable]
    by (cases "file_save ref_prims (\<lambda>_. None) sample_persisted empty_fs") auto
  define t where "t = fs_pending\<lparr>ho_store := st, sy_node := (sample_node (InnerRegistered sample_registration))
      \<lparr>nd_persisted := sample_persisted\<rparr>\<rparr>"
  have cr: "complete_registration registering_hub tok s = (Ok sample_registration, s)" for tok and s :: "(unit, fs) sys"
    by (simp add: complete_registration_def registering_hub_def static_hub_def timed_def call_rpc_def
      answer_def server_time_def pbind_def perr_def sample_registration_def)
  have r: "register registering_hub (file_ops ref_prims (\<lambda>_. None)) ''tok'' fs_pending = (Ok (), t)"
    using st(1) reg by (simp add: register_def pbind_def perr_def fs_pending_def sample_node_def require_pending_def
        connect_def registering_hub_def [THEN arg_cong, of net_connect] static_hub_def cr on_store_def file_ops_def
        set_persisted_registration_def set_registration_def set_inner_def t_def)
  let ?h = "\<lparr>ev_world = (), ev_rtt = rtt_new, ev_now = 0, ho_store = st\<rparr> :: (unit, fs) host"
  let ?n = "\<lparr>nd_inner = InnerRegistered sample_registration, nd_persisted = sample_persisted,
    nd_hub_addr = ''hub'', nd_signing_key = sample_seed\<rparr>"
  obtain st' where l: "file_load ref_prims (\<lambda>_. None) st = (Ok (Some sample_persisted), st')"
    using fstore.load_content [OF st(2), of ref_prims] st(3)
    by (cases "file_load ref_prims (\<lambda>_. None) st") auto
  have tok: "nr_auth_token sample_registration = Some ''token''"
    by (simp add: sample_registration_def new_registration_def)
  have "restored_node ref_prims sample_persisted sample_registration ''hub'' default_roster = Ok ?n"
    by (simp add: restored_node_def default_roster_def new_registered_def make_node_def
        sample_persisted_def from_stored_def derive_from_root_key_def ref_prims_def sample_seed_def)
  then obtain h' where b: "restore_or_init_node ref_prims registering_hub (file_ops ref_prims (\<lambda>_. None))
      ''hub'' (\<lambda>_. 0) ?h = (Ok ?n, h')"
    using l by (simp add: static_hub_answers(1,2) [OF tok] restore_or_init_node_def pbind_def perr_def on_store_def file_ops_def
        is_registered_def registering_hub_def sample_persisted_def from_stored_def)
  have ok: "node_ok ref_prims (sy_node fs_pending)"
    by (simp add: node_ok_def fs_pending_def sample_node_def registration_of_def ref_prims_def sample_seed_def)
  have t: "nd_persisted (sy_node t) = sample_persisted" "ho_store t = st" "nd_signing_key (sy_node t) = sample_seed"
    by (simp_all add: t_def sample_node_def)
  have "nd_persisted ?n = nd_persisted (sy_node t) \<and> nd_signing_key ?n = nd_signing_key (sy_node t)"
    using registration_survives_restart [OF ok _ r, of ?h registering_hub "''hub''" "\<lambda>_. 0" ?n h'] healthy b
      sample_storable t by (simp add: fs_pending_def)
  with r b t show ?thesis by auto
qed

subsection \<open>Group status\<close>

text \<open>
  The group's status is read off the roster.  When the roster has a valid history and
  one of its active nodes is still registered, the query lists the hub's nodes in order,
  each as Activated, Revoked or Registered exactly as the roster has it active, retired or
  not at all; the group's state says whether this node needs activation, and that all are
  activated only when no listed node is left to endorse.
\<close>

theorem group_status_matches_the_roster:
  assumes "valid_history P r" and "h \<in> set hub_nodes" and "active_keys P r (hn_node_number h) \<noteq> None"
    and "analyze_group hub_nodes r me = (nodes, st)"
  shows "map ni_node_number nodes = map hn_node_number hub_nodes \<and>
    (\<forall>n \<in> set nodes. ni_is_self n = (ni_node_number n = me) \<and>
      (ni_state n = Activated) = (active_keys P r (ni_node_number n) \<noteq> None) \<and>
      (ni_state n = Revoked) = (ni_node_number n \<in> set (node_numbers r) \<and>
         active_keys P r (ni_node_number n) = None) \<and>
      (ni_state n = Registered) = (ni_node_number n \<notin> set (node_numbers r))) \<and>
    (st = Alone) = (length (filter (\<lambda>n. ni_state n \<noteq> Revoked) nodes) \<le> 1) \<and>
    (st = NeedActivation) = (1 < length (filter (\<lambda>n. ni_state n \<noteq> Revoked) nodes) \<and> active_keys P r me = None) \<and>
    (st = AllActivated) = (1 < length (filter (\<lambda>n. ni_state n \<noteq> Revoked) nodes) \<and>
       active_keys P r me \<noteq> None \<and> (\<forall>n \<in> set nodes. ni_state n \<noteq> Registered))"
proof -
  let ?act = "rn_node_number ` set (active_nodes r)"
  let ?rev = "rn_node_number ` set (filter rn_revoked (ro_nodes r))"
  have act: "n \<in> ?act \<longleftrightarrow> active_keys P r n \<noteq> None" for n
    using active_keys_None_iff [OF assms(1), of n] by (auto simp: active_nodes_def)
  have num: "n \<in> set (node_numbers r) \<longleftrightarrow> n \<in> ?act \<or> n \<in> ?rev" for n
    by (auto simp: node_numbers_def active_nodes_def)
  have live: "?act \<inter> hn_node_number ` set hub_nodes \<noteq> {}"
    using act assms(2,3) by auto
  then have nonempty: "?act \<noteq> {}" by auto
  let ?state = "\<lambda>k. if k \<in> ?act then Activated else if k \<in> ?rev then Revoked else Registered"
  define N where "N = map (\<lambda>h. \<lparr>ni_node_number = hn_node_number h, ni_name = hn_name h,
      ni_metadata = hn_metadata h, ni_is_self = (hn_node_number h = me), ni_state = ?state (hn_node_number h),
      ni_last_seen_at_millis = hn_last_seen_at_millis h, ni_is_online = hn_is_online h\<rparr>) hub_nodes"
  have "analyze_group hub_nodes r me = (N, if length (filter (\<lambda>n. ni_state n \<noteq> Revoked) N) \<le> 1 then Alone
      else if me \<notin> ?act then NeedActivation
      else if \<exists>n \<in> set N. ni_state n = Registered then CanEndorse else AllActivated)"
    unfolding analyze_group_def Let_def N_def by (simp only: live nonempty simp_thms if_False if_True)
  then have nodes: "nodes = N"
    and st: "st = (if length (filter (\<lambda>n. ni_state n \<noteq> Revoked) nodes) \<le> 1 then Alone
      else if me \<notin> ?act then NeedActivation
      else if \<exists>n \<in> set nodes. ni_state n = Registered then CanEndorse else AllActivated)"
    using assms(4) by simp_all
  have "map ni_node_number nodes = map hn_node_number hub_nodes"
    unfolding nodes N_def by (simp add: comp_def)
  moreover have "\<forall>n \<in> set nodes. ni_is_self n = (ni_node_number n = me) \<and> ni_state n = ?state (ni_node_number n)"
    unfolding nodes N_def by simp
  moreover have "ni_is_self n = (ni_node_number n = me) \<and>
      (ni_state n = Activated) = (active_keys P r (ni_node_number n) \<noteq> None) \<and>
      (ni_state n = Revoked) = (ni_node_number n \<in> set (node_numbers r) \<and>
         active_keys P r (ni_node_number n) = None) \<and>
      (ni_state n = Registered) = (ni_node_number n \<notin> set (node_numbers r))" if "n \<in> set nodes" for n
  proof -
    have "ni_is_self n = (ni_node_number n = me)" "ni_state n = ?state (ni_node_number n)"
      using calculation(2) that by blast+
    then show ?thesis using act [of "ni_node_number n"] num [of "ni_node_number n"]
      by (cases "ni_node_number n \<in> ?act"; cases "ni_node_number n \<in> ?rev") simp_all
  qed
  moreover have "(st = Alone) = (length (filter (\<lambda>n. ni_state n \<noteq> Revoked) nodes) \<le> 1) \<and>
    (st = NeedActivation) = (1 < length (filter (\<lambda>n. ni_state n \<noteq> Revoked) nodes) \<and> active_keys P r me = None) \<and>
    (st = AllActivated) = (1 < length (filter (\<lambda>n. ni_state n \<noteq> Revoked) nodes) \<and>
       active_keys P r me \<noteq> None \<and> (\<forall>n \<in> set nodes. ni_state n \<noteq> Registered))"
    unfolding st act by (cases "\<exists>n \<in> set nodes. ni_state n = Registered") auto
  ultimately show ?thesis by blast
qed

theorem group_status_matches_the_roster_witness:
  "\<exists>nodes. analyze_group (map (\<lambda>k. \<lparr>hn_node_number = k, hn_name = [], hn_last_seen_at_millis = 0,
     hn_metadata = [], hn_is_online = True\<rparr>) [1, 2]) sample_pair 2 = (nodes, AllActivated) \<and>
     (\<forall>n \<in> set nodes. ni_state n \<noteq> Registered)"
proof -
  let ?hub = "map (\<lambda>k. \<lparr>hn_node_number = k, hn_name = [], hn_last_seen_at_millis = 0,
     hn_metadata = [], hn_is_online = True\<rparr>) [1, 2]"
  note g = pair_group [OF ref_ed25519_correct, of 2 1 "[1]" sample_seed, folded sample_pair_def]
  have "snd (analyze_group ?hub sample_pair 2) = AllActivated"
    by (simp add: analyze_group_def Let_def active_nodes_def sample_pair_accepted(2))
  then obtain nodes where a: "analyze_group ?hub sample_pair 2 = (nodes, AllActivated)"
    by (cases "analyze_group ?hub sample_pair 2") auto
  have v: "valid_history ref_prims sample_pair" "active_keys ref_prims sample_pair (hn_node_number (hd ?hub)) \<noteq> None"
    using g by simp_all
  show ?thesis
    using group_status_matches_the_roster [OF v(1) _ v(2) a] a by auto
qed

end
