(* ===== verification/Quic_Props.thy ===== *)
theory Quic_Props
  imports Quic
begin

text \<open>
  What \<open>quic.rs\<close> promises: when an operation that waits comes back, that stream ids are never
  handed out twice, what a dropped stream leaves behind, what a close tells the peer, and that
  sending ends.  \<open>quiche\<close> and the ICE library are arbitrary throughout.
\<close>

subsection \<open>What sending changes\<close>

text \<open>
  Sending touches the \<open>quiche\<close> connection, the clock and the world, nothing else of the
  shared state.
\<close>

definition bookkeeping :: "'q qconn \<Rightarrow> quic_role \<times> bool \<times> u64 set \<times> u64 \<times> (u64 \<times> bool \<times> bool) list \<times>
    bool \<times> connection_error option \<times> bool" where
  "bookkeeping c = (qc_role c, qc_shutdown c, qc_accepted_streams c, qc_next_stream_index c,
     qc_pending_shutdown c, qc_driver_exited c, qc_peer_error c, qc_driver_running c)"

definition same_books :: "'q qconn \<times> 'w \<Rightarrow> 'q qconn \<times> 'w \<Rightarrow> bool" where
  "same_books s t \<longleftrightarrow> bookkeeping (fst s) = bookkeeping (fst t)"

lemma same_books_trans: "same_books s t \<Longrightarrow> same_books t u \<Longrightarrow> same_books s u"
  by (simp add: same_books_def)

lemma bookkeeping_update [simp]:
  "bookkeeping (c\<lparr>qc_conn := q\<rparr>) = bookkeeping c" "bookkeeping (c\<lparr>qc_now := n\<rparr>) = bookkeeping c"
  by (simp_all add: bookkeeping_def)

lemma over_ice_books: "over_ice m s = (r, t) \<Longrightarrow> fst t = fst s"
  by (auto simp: over_ice_def split: prod.splits)

lemma send_datagram_books: "send_datagram J pkt k s = (r, t) \<Longrightarrow> same_books s t"
proof (induction J pkt k s rule: send_datagram.induct)
  case (1 J pkt k s)
  obtain r1 c w where s1: "over_ice (\<lambda>ag. ice_send J ag pkt) s = (r1, (c, w))"
    by (metis prod.exhaust)
  have c: "c = fst s" using over_ice_books [OF s1] by simp
  show ?case
  proof (cases "\<exists>ie. r1 = Err (QuicIce ie) \<and> is_would_block ie \<and> \<not> retry_delay k > from_millis 8")
    case True
    then obtain ie where e: "r1 = Err (QuicIce ie)" "is_would_block ie" "\<not> retry_delay k > from_millis 8"
      by blast
    have "send_datagram J pkt (Suc k) (c\<lparr>qc_now := qc_now c + retry_delay k\<rparr>, w) = (r, t)"
      using 1(2) e s1 by (subst (asm) send_datagram.simps) simp
    from 1(1) [OF s1 [unfolded e(1), symmetric] refl refl _ e(3) this] e(2)
    have "same_books (c\<lparr>qc_now := qc_now c + retry_delay k\<rparr>, w) t" by blast
    then show ?thesis by (simp add: same_books_def c)
  next
    case False
    then show ?thesis
      using 1(2) s1 c by (subst (asm) send_datagram.simps)
        (auto simp: same_books_def split: result.splits if_splits)
  qed
qed

lemma flush_loop_books: "flush_loop Q J s = Some y \<Longrightarrow> same_books s (snd y)"
proof -
  assume ret: "flush_loop Q J s = Some y"
  show ?thesis
  proof (rule flush_loop.raw_induct [where P = "\<lambda>Q J s y. same_books s (snd y)", OF _ ret])
    fix f Q J s y
    assume IH: "\<And>Q J s y. f Q J s = Some y \<Longrightarrow> same_books s (snd y)"
      and eq: "(case q_send Q (qc_conn (fst s)) of
        (Inl e, q) \<Rightarrow>
          Some (if e = QuicheDone then Ok () else Err (QuicProtocol e), (fst s)\<lparr>qc_conn := q\<rparr>, snd s)
      | (Inr (pkt, at), q) \<Rightarrow>
          let c = fst s; now = if qc_now c + from_millis 1 < at then at else qc_now c
          in case send_datagram J pkt 0 (c\<lparr>qc_conn := q, qc_now := now\<rparr>, snd s) of
               (Ok sent, s') \<Rightarrow> if sent then f Q J s' else Some (Ok (), s')
             | (Err e, s') \<Rightarrow> Some (Err e, s')
             | (Panic, s') \<Rightarrow> Some (Panic, s')) = Some y"
    obtain r q where q: "q_send Q (qc_conn (fst s)) = (r, q)" by fastforce
    show "same_books s (snd y)"
    proof (cases r)
      case (Inl e)
      then show ?thesis using eq q by (auto simp: same_books_def)
    next
      case (Inr p)
      obtain pkt at where p: "p = (pkt, at)" by fastforce
      let ?c = "(fst s)\<lparr>qc_conn := q, qc_now := if qc_now (fst s) + from_millis 1 < at then at else qc_now (fst s)\<rparr>"
      obtain r2 t where d: "send_datagram J pkt 0 (?c, snd s) = (r2, t)"
        by (cases "send_datagram J pkt 0 (?c, snd s)")
      have "same_books s t"
        using send_datagram_books [OF d] by (simp add: same_books_def)
      then show ?thesis
        using eq q d Inr p same_books_trans [of s t] IH [of Q J t y]
        by (auto split: result.splits if_splits)
    qed
  qed
qed

lemma flush_send_books: "flush_send Q J s = (r, t) \<Longrightarrow> same_books s t"
  by (auto simp: flush_send_def same_books_def split: option.splits dest!: flush_loop_books)

subsection \<open>Sending ends\<close>

lemma send_datagram_progress:
  assumes "send_datagram J pkt k s = (r, t)" and "k \<le> 6"
  shows "qc_conn (fst t) = qc_conn (fst s) \<and> qc_now (fst s) \<le> qc_now (fst t) \<and>
    qc_now (fst t) + from_micros 250 * 2 ^ k \<le> qc_now (fst s) + from_micros 250 * 2 ^ 6"
  using assms
proof (induction J pkt k s rule: send_datagram.induct)
  case (1 J pkt k s)
  obtain r1 c w where s1: "over_ice (\<lambda>ag. ice_send J ag pkt) s = (r1, (c, w))"
    by (metis prod.exhaust)
  have c: "c = fst s" using over_ice_books [OF s1] by simp
  have pow: "(2::nat) ^ k \<le> 2 ^ 6" using 1(3) by (intro power_increasing) simp_all
  show ?case
  proof (cases "\<exists>ie. r1 = Err (QuicIce ie) \<and> is_would_block ie \<and> \<not> retry_delay k > from_millis 8")
    case True
    then obtain ie where e: "r1 = Err (QuicIce ie)" "is_would_block ie" "\<not> retry_delay k > from_millis 8"
      by blast
    then have "2 ^ k < (2 :: nat) ^ 6"
      by (simp add: retry_delay_def from_millis_def from_micros_def)
    then have "k < 6" by (simp only: power_strict_increasing_iff)
    then have k: "Suc k \<le> 6" by simp
    have "send_datagram J pkt (Suc k) (c\<lparr>qc_now := qc_now c + retry_delay k\<rparr>, w) = (r, t)"
      using 1(2) e s1 by (subst (asm) send_datagram.simps) simp
    from 1(1) [OF s1 [unfolded e(1), symmetric] refl refl _ e(3) this k] e(2)
    show ?thesis by (auto simp: c retry_delay_def mult.commute add.commute)
  next
    case False
    then have "fst t = fst s"
      using 1(2) s1 c by (subst (asm) send_datagram.simps) (auto split: result.splits if_splits)
    then show ?thesis using pow by (simp add: from_micros_def)
  qed
qed

text \<open>The transport answers every send.\<close>

definition ice_total :: "'w juice \<Rightarrow> bool" where
  "ice_total J \<longleftrightarrow> (\<forall>ag pkt w. fst (j_send J ag pkt w) \<noteq> Panic)"

lemma ice_send_total:
  assumes "ice_total J"
  shows "fst (over_ice (\<lambda>ag. ice_send J ag pkt) s) \<noteq> Panic"
proof -
  have "fst (j_send J (qc_agent (fst s)) pkt (snd s)) \<noteq> Panic"
    using assms by (simp add: ice_total_def)
  then show ?thesis
    by (cases s) (auto simp: over_ice_def ice_send_def perr_def rust_simps split: prod.splits)
qed

lemma send_datagram_no_panic: "ice_total J \<Longrightarrow> send_datagram J pkt k s \<noteq> (Panic, t)"
proof (induction J pkt k s rule: send_datagram.induct)
  case (1 J pkt k s)
  obtain r1 c w where s1: "over_ice (\<lambda>ag. ice_send J ag pkt) s = (r1, (c, w))"
    by (metis prod.exhaust)
  then have "r1 \<noteq> Panic" using ice_send_total [OF 1(2), of pkt s] by simp
  then show ?case
    using 1(1) [OF s1 [symmetric] _ refl] 1(2) s1
    by (subst send_datagram.simps) (auto split: result.splits)
qed

lemma flush_loop_returns:
  fixes size :: "'q \<Rightarrow> nat"
  assumes "ice_total J"
    and queue: "\<And>q pkt at q'. q_send Q q = (Inr (pkt, at), q') \<Longrightarrow> size q' < size q"
  shows "\<exists>r t. flush_loop Q J s = Some (r, t) \<and> r \<noteq> Panic"
proof (induction "size (qc_conn (fst s))" arbitrary: s rule: less_induct)
  case less
  obtain r q where q: "q_send Q (qc_conn (fst s)) = (r, q)" by fastforce
  show ?case
  proof (cases r)
    case (Inl e)
    with q show ?thesis by (subst flush_loop.simps) simp
  next
    case (Inr p)
    obtain pkt at where p: "p = (pkt, at)" by fastforce
    let ?c = "(fst s)\<lparr>qc_conn := q, qc_now := if qc_now (fst s) + from_millis 1 < at then at else qc_now (fst s)\<rparr>"
    obtain r2 t where d: "send_datagram J pkt 0 (?c, snd s) = (r2, t)"
      by (cases "send_datagram J pkt 0 (?c, snd s)")
    have "qc_conn (fst t) = q" using send_datagram_progress [OF d] by simp
    then have "size (qc_conn (fst t)) < size (qc_conn (fst s))"
      using queue q Inr p by simp
    from less [OF this] obtain r' t' where "flush_loop Q J t = Some (r', t')" "r' \<noteq> Panic" by blast
    moreover have "r2 \<noteq> Panic" using send_datagram_no_panic [OF assms(1), of pkt 0] d by metis
    ultimately show ?thesis
      using q Inr p d by (subst flush_loop.simps) (auto split: result.splits)
  qed
qed

text \<open>
  C31: sending ends.  When the datagrams that \<open>quiche\<close> has queued run out and the ICE library
  answers, flushing returns, whatever the state of the path; and a path that takes nothing
  holds one datagram up for at most 15.75 ms.
\<close>

theorem flush_send_terminates:
  fixes size :: "'q \<Rightarrow> nat"
  assumes "ice_total J"
    and "\<And>q pkt at q'. q_send Q q = (Inr (pkt, at), q') \<Longrightarrow> size q' < size q"
  shows "fst (flush_send Q J s) \<noteq> Panic \<and>
    (send_datagram J pkt 0 u = (r, t) \<longrightarrow>
       qc_now (fst u) \<le> qc_now (fst t) \<and> qc_now (fst t) \<le> qc_now (fst u) + from_micros 15750)"
proof -
  obtain r' t' where "flush_loop Q J s = Some (r', t')" "r' \<noteq> Panic"
    using flush_loop_returns [of J Q size s] assms by blast
  then show ?thesis
    using send_datagram_progress [of J pkt 0 u r t] by (auto simp: flush_send_def from_micros_def)
qed

text \<open>
  A small \<open>quiche\<close> for the witnesses: datagrams to send, what is readable, the credit for new
  streams, whether stream data is taken, and a log of the halves that were shut down.
\<close>

record toy =
  ty_out :: "bytes list"
  ty_readable :: "u64 list"
  ty_credit :: nat
  ty_blocked :: bool
  ty_log :: "(u64 \<times> bool) list"

definition idle_toy :: toy where
  "idle_toy = \<lparr>ty_out = [], ty_readable = [], ty_credit = 4, ty_blocked = False, ty_log = []\<rparr>"

definition toy_quiche :: "toy quiche" where
  "toy_quiche = \<lparr>q_tls_context = (\<lambda>_. None), q_connect = (\<lambda>_ _. Inr idle_toy),
     q_accept = (\<lambda>_ _ _. Inr idle_toy), q_header_dcid = Inr,
     q_send = (\<lambda>q. case ty_out q of [] \<Rightarrow> (Inl QuicheDone, q) | d # ds \<Rightarrow> (Inr (d, 0), q\<lparr>ty_out := ds\<rparr>)),
     q_recv = (\<lambda>_ q. (None, q)), q_on_timeout = id, q_timeout = (\<lambda>_. None),
     q_is_established = (\<lambda>_. True), q_is_closed = (\<lambda>_. False), q_is_draining = (\<lambda>_. False),
     q_send_ack_eliciting = (\<lambda>q. (None, q)), q_acked_bytes = (\<lambda>_. 0),
     q_close = (\<lambda>_ _ _ q. q), q_peer_error = (\<lambda>_. None), q_peer_streams_left_bidi = ty_credit,
     q_stream_send = (\<lambda>_ data _ q. if ty_blocked q then (Inl QuicheDone, q) else (Inr (length data), q)),
     q_stream_recv = (\<lambda>_ _ q. (Inl QuicheDone, q)),
     q_stream_readable_next = (\<lambda>q. case ty_readable q of
        [] \<Rightarrow> (None, q) | i # is \<Rightarrow> (Some i, q\<lparr>ty_readable := is\<rparr>)),
     q_stream_finished = (\<lambda>_ _. False),
     q_stream_shutdown = (\<lambda>i half q. q\<lparr>ty_log := ty_log q @ [(i, half)]\<rparr>)\<rparr>"

definition quiet_juice :: "unit juice" where
  "quiet_juice = \<lparr>j_new = (\<lambda>_. ret 0), j_gather_candidates = (\<lambda>_. ret ()), j_gathering_done = (\<lambda>_. ret True),
     j_get_local_description = (\<lambda>_. ret ''v=0''), j_set_remote_description = (\<lambda>_ _. ret ()),
     j_add_remote_candidate = (\<lambda>_ _. ret ()), j_set_remote_gathering_done = (\<lambda>_. ret ()),
     j_states = (\<lambda>_ _. [JConnected]), j_get_state = (\<lambda>_ _. JConnected), j_send = (\<lambda>_ _. ret ()),
     j_recv = (\<lambda>_ w. (None, w))\<rparr>"

definition toy_conn :: "toy \<Rightarrow> toy qconn" where
  "toy_conn q = new_inner q 0 Client 0"

theorem flush_send_terminates_witness:
  "fst (flush_send toy_quiche quiet_juice (toy_conn (idle_toy\<lparr>ty_out := [[1], [2]]\<rparr>), ())) \<noteq> Panic"
proof -
  have "ice_total quiet_juice" by (simp add: ice_total_def quiet_juice_def)
  moreover have "length (ty_out q') < length (ty_out q)"
    if "q_send toy_quiche q = (Inr (pkt, at), q')" for q pkt at q'
    using that by (auto simp: toy_quiche_def split: list.splits)
  ultimately show ?thesis
    using flush_send_terminates [of quiet_juice toy_quiche "\<lambda>q. length (ty_out q)"] by blast
qed

subsection \<open>Waiting for the driver\<close>

text \<open>
  The contract of an operation that waits: a pass made when nothing will wake it any more
  gives an answer.  Then the operation comes back once that is so.
\<close>

locale waiter =
  fixes stranded :: "'s \<Rightarrow> bool"
    and pass :: "('s, 'a option, 'e) prog"
  assumes stranded_answers: "stranded s \<Longrightarrow> fst (pass s) \<noteq> Ok None"
begin

lemma answered: "fst (pass s) \<noteq> Ok None \<Longrightarrow> waiting pass evs s = pass s"
  by (cases evs; cases "pass s") (auto split: result.splits option.splits)

lemma stranded_now: "stranded s \<Longrightarrow> fst (waiting pass evs s) \<noteq> Ok None"
  using stranded_answers [of s] answered [of s evs] by simp

lemma comes_back:
  assumes "\<And>s. stranded (ev s)"
  shows "fst (waiting pass (evs @ ev # evs') s) \<noteq> Ok None"
proof (induction evs arbitrary: s)
  case Nil
  show ?case
    using stranded_now [OF assms] by (cases "pass s") (auto split: result.splits option.splits)
next
  case (Cons e evs)
  then show ?case by (cases "pass s") (auto split: result.splits option.splits)
qed

end

definition driver_gone :: "'q qconn \<times> 'w \<Rightarrow> bool" where
  "driver_gone s \<longleftrightarrow> qc_driver_exited (fst s)"

definition stream_driver_gone :: "quic_stream \<times> 'q qconn \<times> 'w \<Rightarrow> bool" where
  "stream_driver_gone s \<longleftrightarrow> qc_driver_exited (fst (snd s))"

lemma qprog_simps [simp]:
  "qgets f s = (Ok (f (fst s)), s)" "qmodify g s = (Ok (), apfst g s)"
  "drain_pending_shutdown Q s = (Ok (), apfst (\<lambda>c. c\<lparr>
     qc_conn := foldl (\<lambda>q e. drain_one Q e q) (qc_conn c) (qc_pending_shutdown c),
     qc_pending_shutdown := []\<rparr>) s)"
  by (simp_all add: qgets_def qmodify_def drain_pending_shutdown_def)

interpretation w_handshake: waiter driver_gone "handshake_pass Q" for Q
  by unfold_locales (auto simp: handshake_pass_def pbind_def driver_gone_def)

interpretation w_ping: waiter driver_gone "ping_pass Q start acked" for Q start acked
  by unfold_locales (auto simp: ping_pass_def pbind_def driver_gone_def)

interpretation w_open: waiter driver_gone "open_pass Q J" for Q J
  by unfold_locales (auto simp: open_pass_def pbind_def driver_gone_def)

interpretation w_accept: waiter driver_gone "accept_pass Q J" for Q J
  by unfold_locales (auto simp: accept_pass_def accept_scan_def pbind_def driver_gone_def
      split: option.splits prod.splits)

interpretation w_read: waiter stream_driver_gone "read_pass Q len" for Q len
  by unfold_locales (auto simp: read_pass_def read_idle_def pbind_def stream_driver_gone_def on_conn_def
      qcall_def set_recv_fin_def apfst_def map_prod_def split: option.splits prod.splits sum.splits)

lemma driver_leaves:
  "qc_driver_running (fst s) \<Longrightarrow> driver_turn Q J e s = (Ok False, t) \<Longrightarrow> driver_gone (driver_step Q J e s)"
  by (simp add: driver_step_def driver_gone_def driver_exit_def)

text \<open>
  C30: nobody waits for a driver that has ended.  A driver whose loop breaks leaves the flag
  behind; and once the flag is set, a handshake, a ping, an open, an accept and a read
  answer, whether they were called before or after and whatever else happens while they
  wait.
\<close>

theorem waiters_end_with_the_driver:
  assumes "\<And>s. driver_gone (ev s)" and "\<And>s. stream_driver_gone (ev' s)"
  shows "fst (waiting (handshake_pass Q) (evs @ ev # evs2) s) \<noteq> Ok None \<and>
    fst (waiting (ping_pass Q start acked) (evs @ ev # evs2) s) \<noteq> Ok None \<and>
    fst (waiting (open_pass Q J) (evs @ ev # evs2) s) \<noteq> Ok None \<and>
    fst (waiting (accept_pass Q J) (evs @ ev # evs2) s) \<noteq> Ok None \<and>
    fst (waiting (read_pass Q len) (evs' @ ev' # evs2') s') \<noteq> Ok None \<and>
    (qc_driver_running (fst s) \<longrightarrow> driver_turn Q J e s = (Ok False, t) \<longrightarrow>
       driver_gone (driver_step Q J e s))"
  by (intro conjI impI w_handshake.comes_back w_ping.comes_back w_open.comes_back
      w_accept.comes_back w_read.comes_back driver_leaves assms)

theorem waiters_end_with_the_driver_witness:
  "fst (waiting (open_pass toy_quiche quiet_juice) [id, apfst driver_exit]
     (toy_conn (idle_toy\<lparr>ty_credit := 0\<rparr>), ())) \<noteq> Ok None"
proof -
  have g: "driver_gone (apfst driver_exit s)" for s :: "toy qconn \<times> unit"
    by (simp add: driver_gone_def driver_exit_def)
  have sg: "stream_driver_gone (apsnd (apfst driver_exit) s)" for s :: "quic_stream \<times> toy qconn \<times> unit"
    by (simp add: stream_driver_gone_def driver_exit_def)
  note h = waiters_end_with_the_driver [of "apfst driver_exit" "apsnd (apfst driver_exit)", OF g sg,
      where Q = toy_quiche and J = quiet_juice
      and evs = "[id]" and ?evs2.0 = "[]" and s = "(toy_conn (idle_toy\<lparr>ty_credit := 0\<rparr>), ())"]
  have "fst (waiting (open_pass toy_quiche quiet_juice) ([id] @ [apfst driver_exit])
     (toy_conn (idle_toy\<lparr>ty_credit := 0\<rparr>), ())) \<noteq> Ok None"
    by (rule h [THEN conjunct2, THEN conjunct2, THEN conjunct1])
  then show ?thesis unfolding append.simps by assumption
qed



subsection \<open>Everything that happens to a connection\<close>

text \<open>One pass or call of the application, or a turn of the driver.\<close>

datatype quic_event =
    EvDriver driver_event | EvOpen | EvAccept | EvHandshake | EvPing | EvClose u64 bytes
  | EvWrite quic_stream bytes | EvWriteAll quic_stream bytes | EvRead quic_stream nat
  | EvFinish quic_stream | EvShutdown quic_stream | EvPollRead quic_stream bool nat
  | EvPollWrite quic_stream bool bytes | EvPollFlush quic_stream bool | EvPollShutdown quic_stream bool
  | EvDropStream quic_stream | EvDropConnection

text \<open>The state that an event leaves.\<close>

definition after :: "('s, 'a, 'e) prog \<Rightarrow> 's \<Rightarrow> 's" where
  "after m s = snd (m s)"

fun quic_event_step :: "'q quiche \<Rightarrow> 'w juice \<Rightarrow> quic_event \<Rightarrow> 'q qconn \<times> 'w \<Rightarrow> 'q qconn \<times> 'w" where
  "quic_event_step Q J (EvDriver e) s = driver_step Q J e s"
| "quic_event_step Q J EvOpen s = after (open_pass Q J) s"
| "quic_event_step Q J EvAccept s = after (accept_pass Q J) s"
| "quic_event_step Q J EvHandshake s = after (handshake_pass Q) s"
| "quic_event_step Q J EvPing s = after (ping_start Q J) s"
| "quic_event_step Q J (EvClose code reason) s = after (quic_close_with_error Q J code reason) s"
| "quic_event_step Q J (EvWrite st data) s = snd (after (stream_write Q J data) (st, s))"
| "quic_event_step Q J (EvWriteAll st data) s = snd (after (write_some Q J data) (st, s))"
| "quic_event_step Q J (EvRead st len) s = snd (after (read_pass Q len) (st, s))"
| "quic_event_step Q J (EvFinish st) s = snd (after (stream_finish Q J) (st, s))"
| "quic_event_step Q J (EvShutdown st) s = snd (after (stream_shutdown Q J) (st, s))"
| "quic_event_step Q J (EvPollRead st con len) s = snd (after (poll_read Q con len) (st, s))"
| "quic_event_step Q J (EvPollWrite st con data) s = snd (after (poll_write Q J con data) (st, s))"
| "quic_event_step Q J (EvPollFlush st con) s = snd (after (poll_flush Q J con) (st, s))"
| "quic_event_step Q J (EvPollShutdown st con) s = snd (after (poll_shutdown Q J con) (st, s))"
| "quic_event_step Q J (EvDropStream st) s = apfst (drop_stream st) s"
| "quic_event_step Q J EvDropConnection s = apfst drop_connection s"

text \<open>The ids that the opens of a run hand out.\<close>

fun opened_ids :: "'q quiche \<Rightarrow> 'w juice \<Rightarrow> quic_event list \<Rightarrow> 'q qconn \<times> 'w \<Rightarrow> u64 list" where
  "opened_ids Q J [] s = []"
| "opened_ids Q J (ev # evs) s =
     (case (ev, fst (open_pass Q J s)) of (EvOpen, Ok (Some st)) \<Rightarrow> [st_id st] | _ \<Rightarrow> []) @
     opened_ids Q J evs (quic_event_step Q J ev s)"

subsection \<open>Stream ids\<close>

definition id_source :: "'q qconn \<times> 'w \<Rightarrow> quic_role \<times> u64" where
  "id_source s = (qc_role (fst s), qc_next_stream_index (fst s))"

abbreviation keeps_ids :: "('q qconn \<times> 'w, 'a, 'e) prog \<Rightarrow> bool" where
  "keeps_ids m \<equiv> preserves id_source m"

abbreviation keeps_ids_st :: "(quic_stream \<times> 'q qconn \<times> 'w, 'a, 'e) prog \<Rightarrow> bool" where
  "keeps_ids_st m \<equiv> preserves (\<lambda>s. id_source (snd s)) m"

lemma keeps_ids_after: "keeps_ids m \<Longrightarrow> id_source (after m s) = id_source s"
  by (simp add: after_def preserves_snd)

lemma keeps_ids_st_after: "keeps_ids_st m \<Longrightarrow> id_source (snd (after m s)) = id_source (snd s)"
  using preserves_snd [of "\<lambda>s. id_source (snd s)" m s] by (simp add: after_def)

lemma keeps_ids_calls [preserves_rules]:
  "keeps_ids (qcall f)" "keeps_ids (qgets g)" "keeps_ids (over_ice i)"
  by (auto simp: preserves_def qcall_def id_source_def over_ice_def split: prod.splits)

lemma keeps_ids_qmodify [preserves_rules]:
  "(\<And>c. qc_role (f c) = qc_role c \<and> qc_next_stream_index (f c) = qc_next_stream_index c) \<Longrightarrow>
     keeps_ids (qmodify f)"
  by (simp add: preserves_def id_source_def)

lemma books_ids: "same_books s t \<Longrightarrow> id_source t = id_source s"
  by (simp add: same_books_def bookkeeping_def id_source_def)

lemma keeps_ids_flush_send [preserves_rules]: "keeps_ids (flush_send Q J)"
  by (rule preservesI) (rule books_ids [OF flush_send_books])

lemma keeps_ids_on_conn [preserves_rules]: "keeps_ids m \<Longrightarrow> keeps_ids_st (on_conn m)"
  by (rule preservesI) (auto simp: on_conn_def split: prod.splits dest: preservesD)

lemma keeps_ids_flags [preserves_rules]: "keeps_ids_st set_recv_fin" "keeps_ids_st set_sent_fin"
  by (simp_all add: preserves_def set_recv_fin_def set_sent_fin_def)

lemma keeps_ids_flush_ready [preserves_rules]: "keeps_ids (flush_ready Q J)"
proof -
  have "id_source (snd y) = id_source s" if ret: "flush_ready_loop Q J s = Some y" for s y
  proof (rule flush_ready_loop.raw_induct [where P = "\<lambda>Q J s y. id_source (snd y) = id_source s", OF _ ret])
    fix f Q J s y
    assume IH: "\<And>Q J s y. f Q J s = Some y \<Longrightarrow> id_source (snd y) = id_source s"
      and eq: "(case q_send Q (qc_conn (fst s)) of
        (Inl e, q) \<Rightarrow>
          Some (if e = QuicheDone then Ok () else Err (QuicProtocol e), (fst s)\<lparr>qc_conn := q\<rparr>, snd s)
      | (Inr (pkt, at), q) \<Rightarrow>
          let c = (fst s)\<lparr>qc_conn := q\<rparr>
          in if qc_now c + from_millis 1 < at then Some (Ok (), c, snd s)
             else case over_ice (\<lambda>ag. ice_send J ag pkt) (c, snd s) of
               (Ok _, s') \<Rightarrow> f Q J s'
             | (Err e, s') \<Rightarrow> Some (if \<exists>ie. e = QuicIce ie \<and> is_would_block ie then Ok () else Err e, s')
             | (Panic, s') \<Rightarrow> Some (Panic, s')) = Some y"
    obtain r q where q: "q_send Q (qc_conn (fst s)) = (r, q)" by fastforce
    show "id_source (snd y) = id_source s"
    proof (cases r)
      case (Inl e)
      then show ?thesis using eq q by (auto simp: id_source_def)
    next
      case (Inr p)
      obtain pkt at where p: "p = (pkt, at)" by fastforce
      obtain r2 t where d: "over_ice (\<lambda>ag. ice_send J ag pkt) ((fst s)\<lparr>qc_conn := q\<rparr>, snd s) = (r2, t)"
        by (cases "over_ice (\<lambda>ag. ice_send J ag pkt) ((fst s)\<lparr>qc_conn := q\<rparr>, snd s)")
      have "id_source t = id_source s" using over_ice_books [OF d] by (simp add: id_source_def)
      then show ?thesis
        using eq q Inr p d IH [of Q J t y]
        by (cases y; cases r2) (auto simp: id_source_def Let_def split: if_splits)
    qed
  qed
  then show ?thesis
    by (auto simp: preserves_def flush_ready_def split: option.splits)
qed

lemma keeps_ids_accept_scan [preserves_rules]: "keeps_ids (accept_scan Q)"
  by (auto simp: preserves_def accept_scan_def id_source_def split: option.splits prod.splits)

lemma keeps_ids_send_bytes [preserves_rules]: "keeps_ids_st (send_bytes Q data fin)"
  unfolding send_bytes_def by (auto intro!: preserves_rules split: sum.splits)

lemma keeps_ids_write_some [preserves_rules]: "keeps_ids_st (write_some Q J data)"
proof -
  have "id_source (snd (snd (write_some Q J data s))) = id_source (snd s)" for s
  proof (induction Q J data s rule: write_some.induct)
    case (1 Q J data s)
    obtain r1 s1 where 1: "send_bytes Q data False s = (r1, s1)"
      by (cases "send_bytes Q data False s")
    obtain r2 s2 where 2: "on_conn (flush_send Q J) s1 = (r2, s2)"
      by (cases "on_conn (flush_send Q J) s1")
    have i1: "id_source (snd s1) = id_source (snd s)"
      using keeps_ids_st_after [OF keeps_ids_send_bytes, of Q data False s] 1 by (simp add: after_def)
    have i2: "id_source (snd s2) = id_source (snd s1)"
      using keeps_ids_st_after [OF keeps_ids_on_conn [OF keeps_ids_flush_send], of Q J s1] 2
      by (simp add: after_def)
    show ?case
      using "1.IH" [OF _ 1 [symmetric] _ _ 2 [symmetric]] 1 2 i1 i2
      by (subst write_some.simps) (auto split: result.splits)
  qed
  then show ?thesis unfolding preserves_def by blast
qed

lemma keeps_ids_parts [preserves_rules]:
  "keeps_ids (drain_pending_shutdown Q)" "keeps_ids (process_packet Q pkt)"
  "keeps_ids (handle_timeout Q)" "keeps_ids (send_ack_eliciting Q)" "keeps_ids (send_keepalive Q J)"
  unfolding drain_pending_shutdown_def process_packet_def handle_timeout_def send_ack_eliciting_def
    send_keepalive_def
  by (auto intro!: preserves_rules split: option.splits)

lemma keeps_ids_driver_turn [preserves_rules]: "keeps_ids (driver_turn Q J e)"
  unfolding driver_turn_def driver_event_def by (auto intro!: preserves_rules split: driver_event.splits)

lemma keeps_ids_ops [preserves_rules]:
  "keeps_ids (accept_pass Q J)" "keeps_ids (handshake_pass Q)" "keeps_ids (ping_start Q J)"
  "keeps_ids (quic_close_with_error Q J code reason)"
  unfolding accept_pass_def handshake_pass_def ping_start_def quic_close_with_error_def
  by (auto intro!: preserves_rules split: option.splits)

lemma keeps_ids_stream_ops [preserves_rules]:
  "keeps_ids_st (stream_write Q J data)" "keeps_ids_st (read_pass Q len)"
  "keeps_ids_st (stream_finish Q J)" "keeps_ids_st (stream_shutdown Q J)"
  "keeps_ids_st (poll_read Q con len)" "keeps_ids_st (poll_write Q J con data)"
  "keeps_ids_st (poll_flush Q J con)" "keeps_ids_st (poll_shutdown Q J con)"
  unfolding stream_write_def read_pass_def read_idle_def stream_finish_def stream_shutdown_def
    poll_read_def poll_write_def poll_flush_def poll_shutdown_def io_other_def
  by (auto intro!: preserves_rules split: sum.splits)

lemma driver_step_ids: "id_source (driver_step Q J e s) = id_source s"
  using keeps_ids_after [OF keeps_ids_driver_turn, of Q J e s]
  by (auto simp: driver_step_def after_def id_source_def driver_exit_def
      split: prod.splits result.splits bool.splits)

text \<open>An open advances the index by one, if it gets as far as allocating.\<close>

lemma allocate_ids:
  assumes "allocate_stream Q s = (r, t)"
  shows "qc_role (fst t) = qc_role (fst s) \<and> qc_next_stream_index (fst t) = qc_next_stream_index (fst s) + 1 \<and>
    (\<forall>sid. r = Ok sid \<longrightarrow> sid = stream_base (qc_role (fst s)) + 4 * qc_next_stream_index (fst s))"
  using assms by (cases s) (auto simp: allocate_stream_def pbind_def qcall_def split: prod.splits sum.splits if_splits)

lemma open_ids:
  assumes "open_pass Q J s = (r, t)"
  shows "qc_role (fst t) = qc_role (fst s) \<and>
    (case r of
       Ok (Some st) \<Rightarrow> st_id st = stream_base (qc_role (fst s)) + 4 * qc_next_stream_index (fst s) \<and>
         qc_next_stream_index (fst t) = qc_next_stream_index (fst s) + 1
     | _ \<Rightarrow> qc_next_stream_index (fst t) = qc_next_stream_index (fst s) \<or>
         qc_next_stream_index (fst t) = qc_next_stream_index (fst s) + 1)"
proof -
  obtain u where u: "drain_pending_shutdown Q s = (Ok (), u)" by simp
  have iu: "id_source u = id_source s"
    using keeps_ids_after [OF keeps_ids_parts(1), of Q s] u by (simp add: after_def)
  show ?thesis
  proof (cases "q_is_closed Q (qc_conn (fst u)) \<or> qc_driver_exited (fst u) \<or>
      q_peer_streams_left_bidi Q (qc_conn (fst u)) = 0")
    case True
    then have "id_source t = id_source u"
      using assms u keeps_ids_after [OF keeps_ids_flush_send, of Q J u]
      by (auto simp del: qprog_simps(3) simp: open_pass_def pbind_def after_def split: prod.splits result.splits if_splits)
    then have "id_source t = id_source s" using iu by simp
    moreover have "\<nexists>st. r = Ok (Some st)"
      using assms u True by (auto simp del: qprog_simps(3) simp: open_pass_def pbind_def split: prod.splits result.splits if_splits)
    ultimately show ?thesis by (auto simp: id_source_def split: result.splits option.splits)
  next
    case False
    obtain r1 v where v: "allocate_stream Q u = (r1, v)" by (cases "allocate_stream Q u")
    obtain r2 x where x: "flush_send Q J v = (r2, x)" by (cases "flush_send Q J v")
    have ix: "id_source x = id_source v"
      using keeps_ids_after [OF keeps_ids_flush_send, of Q J v] x by (simp add: after_def)
    have "r = (case r1 of Ok sid \<Rightarrow> (case r2 of Ok _ \<Rightarrow> Ok (Some (new_stream sid)) | Err e \<Rightarrow> Err e | Panic \<Rightarrow> Panic)
         | Err e \<Rightarrow> Err e | Panic \<Rightarrow> Panic) \<and> t = (case r1 of Ok _ \<Rightarrow> x | _ \<Rightarrow> v)"
      using assms u v x False
      by (simp del: qprog_simps(3) add: open_pass_def pbind_def split: result.splits)
    then show ?thesis
      using allocate_ids [OF v] ix iu by (auto simp: id_source_def new_stream_def split: result.splits)
  qed
qed

lemma quic_step_ids:
  "qc_role (fst (quic_event_step Q J ev s)) = qc_role (fst s) \<and>
   (qc_next_stream_index (fst (quic_event_step Q J ev s)) = qc_next_stream_index (fst s) \<or>
    qc_next_stream_index (fst (quic_event_step Q J ev s)) = qc_next_stream_index (fst s) + 1)"
proof (cases "ev = EvOpen")
  case True
  then show ?thesis
    using open_ids [of Q J s "fst (open_pass Q J s)" "snd (open_pass Q J s)"]
    by (auto simp: after_def split: result.splits option.splits)
next
  case False
  then have "id_source (quic_event_step Q J ev s) = id_source s"
    by (cases ev) (simp_all add: keeps_ids_after keeps_ids_st_after preserves_rules driver_step_ids,
        simp_all add: id_source_def drop_stream_def drop_connection_def)
  then show ?thesis by (simp add: id_source_def)
qed

lemma unat_of_stream: 
  assumes "k < 2 ^ 62"
  shows "unat (stream_base role + 4 * of_nat k :: u64) = (case role of Client \<Rightarrow> 0 | Server \<Rightarrow> 1) + 4 * k"
proof -
  have k: "unat (of_nat k :: u64) = k" using assms by (simp add: unat_of_nat)
  have b: "unat (stream_base role) = (case role of Client \<Rightarrow> 0 | Server \<Rightarrow> 1)"
    by (cases role) (simp_all add: stream_base_def)
  have m: "unat (4 * of_nat k :: u64) = 4 * k"
    using assms k by (subst unat_mult_lem [THEN iffD1]) simp_all
  show ?thesis
    using assms m b by (subst unat_add_lem [THEN iffD1]) (cases role; simp)+
qed

text \<open>The ids of a run are those of consecutive positions, each at most once.\<close>

lemma opened_ids_positions:
  assumes "unat (qc_next_stream_index (fst s)) + length evs \<le> 2 ^ 62"
  shows "\<exists>ks. opened_ids Q J evs s = map (\<lambda>k. stream_base (qc_role (fst s)) + 4 * of_nat k) ks \<and>
    sorted_wrt (<) ks \<and>
    (\<forall>k \<in> set ks. unat (qc_next_stream_index (fst s)) \<le> k \<and> k < unat (qc_next_stream_index (fst s)) + length evs)"
  using assms
proof (induction evs arbitrary: s)
  case (Cons ev evs)
  let ?t = "quic_event_step Q J ev s" and ?i = "unat (qc_next_stream_index (fst s))"
  have i: "?i < 2 ^ 62" using Cons.prems by simp
  have suc: "unat (qc_next_stream_index (fst s) + 1) = Suc ?i"
    using i by (simp add: unat_word_ariths)
  have t: "qc_role (fst ?t) = qc_role (fst s)"
      "unat (qc_next_stream_index (fst ?t)) = ?i \<or> unat (qc_next_stream_index (fst ?t)) = Suc ?i"
    using quic_step_ids [of Q J ev s] suc by auto
  then have "unat (qc_next_stream_index (fst ?t)) + length evs \<le> 2 ^ 62"
    using Cons.prems by auto
  from Cons.IH [OF this] t(1) obtain ks where ks:
      "opened_ids Q J evs ?t = map (\<lambda>k. stream_base (qc_role (fst s)) + 4 * of_nat k) ks"
      "sorted_wrt (<) ks" "\<forall>k \<in> set ks. unat (qc_next_stream_index (fst ?t)) \<le> k \<and>
        k < unat (qc_next_stream_index (fst ?t)) + length evs"
    by auto
  show ?case
  proof (cases "\<exists>st. ev = EvOpen \<and> fst (open_pass Q J s) = Ok (Some st)")
    case True
    then obtain st where st: "ev = EvOpen" "fst (open_pass Q J s) = Ok (Some st)" by blast
    then obtain u where "open_pass Q J s = (Ok (Some st), u)" by (cases "open_pass Q J s") simp
    from open_ids [OF this] this st(1)
    have o: "st_id st = stream_base (qc_role (fst s)) + 4 * qc_next_stream_index (fst s)"
        "unat (qc_next_stream_index (fst ?t)) = Suc ?i"
      using suc by (simp_all add: after_def)
    show ?thesis
      by (rule exI [where x = "?i # ks"]) (use o ks st in auto)
  next
    case False
    then have "opened_ids Q J (ev # evs) s = opened_ids Q J evs ?t"
      by (auto split: quic_event.splits result.splits option.splits)
    with ks t(2) show ?thesis by (intro exI [where x = ks]) auto
  qed
qed simp

text \<open>
  Stream ids are never reused and the two sides never clash.  Whatever happens to a
  connection, the streams it opens have pairwise different ids, congruent modulo 4 to 0 on
  the caller's side and to 1 on the answerer's, up to the 2^62 streams that QUIC can number.
\<close>

theorem stream_ids_are_unique:
  assumes "unat (qc_next_stream_index (fst s)) + length evs \<le> 2 ^ 62"
  shows "distinct (opened_ids Q J evs s) \<and>
    (\<forall>i \<in> set (opened_ids Q J evs s).
       unat i mod 4 = (case qc_role (fst s) of Client \<Rightarrow> 0 | Server \<Rightarrow> 1))"
proof -
  from opened_ids_positions [OF assms] obtain ks where
    ks: "opened_ids Q J evs s = map (\<lambda>k. stream_base (qc_role (fst s)) + 4 * of_nat k) ks"
      "sorted_wrt (<) ks" "\<forall>k \<in> set ks. k < 2 ^ 62"
    using assms by fastforce
  have "inj_on (\<lambda>k. stream_base (qc_role (fst s)) + 4 * of_nat k :: u64) (set ks)"
  proof (rule inj_onI)
    fix k l
    assume kl: "k \<in> set ks" "l \<in> set ks"
      and "stream_base (qc_role (fst s)) + 4 * of_nat k = (stream_base (qc_role (fst s)) + 4 * of_nat l :: u64)"
    then have "unat (stream_base (qc_role (fst s)) + 4 * of_nat k :: u64) =
        unat (stream_base (qc_role (fst s)) + 4 * of_nat l :: u64)" by (simp only:)
    moreover have "k < 2 ^ 62" "l < 2 ^ 62" using kl ks(3) by blast+
    ultimately show "k = l" by (simp only: unat_of_stream)
  qed
  moreover have "distinct ks" using ks(2) strict_sorted_iff by blast
  moreover have "\<forall>k \<in> set ks. unat (stream_base (qc_role (fst s)) + 4 * of_nat k :: u64) mod 4
      = (case qc_role (fst s) of Client \<Rightarrow> 0 | Server \<Rightarrow> 1)"
  proof
    fix k assume "k \<in> set ks"
    then have "k < 2 ^ 62" using ks(3) by blast
    then show "unat (stream_base (qc_role (fst s)) + 4 * of_nat k :: u64) mod 4
        = (case qc_role (fst s) of Client \<Rightarrow> 0 | Server \<Rightarrow> 1)"
      by (simp only: unat_of_stream) (cases "qc_role (fst s)"; simp)
  qed
  ultimately show ?thesis by (simp add: ks(1) distinct_map)
qed

theorem stream_ids_are_unique_witness:
  "distinct (opened_ids toy_quiche quiet_juice [EvOpen, EvDriver TimerFires, EvOpen] (toy_conn idle_toy, ()))"
  using stream_ids_are_unique [of "(toy_conn idle_toy, ())" "[EvOpen, EvDriver TimerFires, EvOpen]"
      toy_quiche quiet_juice]
  by (simp add: toy_conn_def new_inner_def del: opened_ids.simps)

text \<open>
  A stream that this side opened can be accepted as one of the peer's.  The acceptor
  asks \<open>quiche\<close> for any readable stream and leaves out only those it has returned before, so
  an answer to a stream of our own comes back as a new incoming stream with its id.
\<close>

theorem accept_returns_our_own_stream:
  assumes "open_pass Q J s = (Ok (Some st), (c, w))" and "unat (qc_next_stream_index (fst s)) < 2 ^ 62"
    and "c' = c\<lparr>qc_conn := q\<rparr>" and "qc_pending_shutdown c = []"
    and "st_id st \<notin> qc_accepted_streams c" and "q_stream_readable_next Q q = (Some (st_id st), q')"
  shows "fst (accept_pass Q J (c', w')) = Ok (Some (new_stream (st_id st))) \<and>
    unat (st_id st) mod 4 = (case qc_role c' of Client \<Rightarrow> 0 | Server \<Rightarrow> 1)"
proof -
  let ?n = "unat (qc_next_stream_index (fst s))"
  have o: "st_id st = stream_base (qc_role c) + 4 * of_nat ?n" "qc_role c = qc_role (fst s)"
    using open_ids [OF assms(1)] by simp_all
  have "unat (st_id st) mod 4 = (case qc_role c of Client \<Rightarrow> 0 | Server \<Rightarrow> 1)"
    by (simp only: o(1) unat_of_stream [OF assms(2)]) (cases "qc_role c"; simp)
  moreover have "next_unaccepted Q (qc_accepted_streams c) q = Some (Some (st_id st), q')"
    using assms(5,6) by (subst next_unaccepted.simps) simp
  ultimately show ?thesis
    using assms(3,4) by (simp add: accept_pass_def pbind_def accept_scan_def)
qed

theorem accept_returns_our_own_stream_witness:
  "\<exists>c. open_pass toy_quiche quiet_juice (toy_conn idle_toy, ()) = (Ok (Some (new_stream 0)), (c, ())) \<and>
     fst (accept_pass toy_quiche quiet_juice (c\<lparr>qc_conn := idle_toy\<lparr>ty_readable := [0]\<rparr>\<rparr>, ())) =
       Ok (Some (new_stream 0))"
proof -
  have o: "open_pass toy_quiche quiet_juice (toy_conn idle_toy, ()) =
      (Ok (Some (new_stream 0)), ((toy_conn idle_toy)\<lparr>qc_next_stream_index := 1\<rparr>, ()))"
    by (simp add: open_pass_def pbind_def allocate_stream_def qcall_def toy_quiche_def toy_conn_def
        new_inner_def idle_toy_def stream_base_def flush_send_def flush_loop.simps)
  show ?thesis
    using accept_returns_our_own_stream [OF o _ refl, of "idle_toy\<lparr>ty_readable := [0]\<rparr>" "idle_toy" "()"] o
    by (auto simp: toy_conn_def new_inner_def new_stream_def toy_quiche_def idle_toy_def)
qed

subsection \<open>Dropped streams\<close>

text \<open>The halves of a dropped stream that are still open: receiving (\<open>True\<close>) and sending.\<close>

definition open_halves :: "quic_stream \<Rightarrow> (u64 \<times> bool) list" where
  "open_halves st = (if st_recv_fin st then [] else [(st_id st, True)]) @
     (if st_sent_fin st then [] else [(st_id st, False)])"

definition shut :: "'q quiche \<Rightarrow> 'q \<Rightarrow> u64 \<times> bool \<Rightarrow> 'q" where
  "shut Q q h = q_stream_shutdown Q (fst h) (snd h) q"

lemma drain_one_halves: "drain_one Q (st_id st, st_sent_fin st, st_recv_fin st) q = foldl (shut Q) q (open_halves st)"
  by (simp add: drain_one_def open_halves_def shut_def)

lemma drain_dropped:
  "foldl (\<lambda>q e. drain_one Q e q) q
     (qc_pending_shutdown (fold drop_stream sts c)) =
   foldl (shut Q) (foldl (\<lambda>q e. drain_one Q e q) q (qc_pending_shutdown c)) (concat (map open_halves sts))"
proof (induction sts arbitrary: c)
  case (Cons st sts)
  have "foldl (\<lambda>q e. drain_one Q e q) q (qc_pending_shutdown (drop_stream st c)) =
      foldl (shut Q) (foldl (\<lambda>q e. drain_one Q e q) q (qc_pending_shutdown c)) (open_halves st)"
    by (simp add: drop_stream_def drain_one_halves [symmetric]) (simp add: open_halves_def drain_one_def)
  then show ?case by (simp add: Cons.IH)
qed simp

lemma drop_stream_rest: "qc_conn (drop_stream st c) = qc_conn c" "qc_driver_exited (drop_stream st c) = qc_driver_exited c"
  by (simp_all add: drop_stream_def)

lemma fold_drop_rest: "qc_conn (fold drop_stream sts c) = qc_conn c"
  by (induction sts arbitrary: c) (simp_all add: drop_stream_rest)

text \<open>
  A dropped stream gives back what it still holds, and nothing else.  The next open or
  accept first shuts down, in the order of the drops, exactly the halves of the dropped
  streams that are still open: a half whose end was sent or seen is left alone, so a
  response that the peer is still reading is not cut short; and each half is shut down once.
\<close>

theorem dropped_streams_are_reclaimed:
  assumes "qc_pending_shutdown c = []"
  shows "\<exists>c'. drain_pending_shutdown Q (fold drop_stream sts c, w) = (Ok (), (c', w)) \<and>
      qc_conn c' = foldl (shut Q) (qc_conn c) (concat (map open_halves sts)) \<and>
      qc_pending_shutdown c' = [] \<and>
      drain_pending_shutdown Q (c', w) = (Ok (), (c', w)) \<and>
      open_pass Q J (fold drop_stream sts c, w) = open_pass Q J (c', w) \<and>
      accept_pass Q J (fold drop_stream sts c, w) = accept_pass Q J (c', w)"
proof -
  let ?c = "(fold drop_stream sts c)\<lparr>qc_conn := foldl (shut Q) (qc_conn c) (concat (map open_halves sts)),
    qc_pending_shutdown := []\<rparr>"
  have d: "drain_pending_shutdown Q (fold drop_stream sts c, w) = (Ok (), (?c, w))"
    using drain_dropped [of Q "qc_conn c" sts c] assms by (simp add: fold_drop_rest)
  have d': "drain_pending_shutdown Q (?c, w) = (Ok (), (?c, w))" by simp
  show ?thesis
    by (rule exI [where x = ?c]) (simp add: d d' open_pass_def accept_pass_def pbind_def del: qprog_simps(3))
qed

theorem dropped_streams_are_reclaimed_witness:
  "ty_log (qc_conn (fst (snd (drain_pending_shutdown toy_quiche (fold drop_stream
      [new_stream 0, (new_stream 4)\<lparr>st_sent_fin := True\<rparr>,
       (new_stream 8)\<lparr>st_sent_fin := True, st_recv_fin := True\<rparr>] (toy_conn idle_toy), ()))))) =
    [(0, True), (0, False), (4, True)]"
proof -
  have p: "qc_pending_shutdown (toy_conn idle_toy) = []" by (simp add: toy_conn_def new_inner_def)
  from dropped_streams_are_reclaimed [OF p, of toy_quiche "[new_stream 0, (new_stream 4)\<lparr>st_sent_fin := True\<rparr>,
       (new_stream 8)\<lparr>st_sent_fin := True, st_recv_fin := True\<rparr>]" "()" quiet_juice]
  show ?thesis
    by (auto simp del: qprog_simps(3) simp: open_halves_def new_stream_def shut_def toy_quiche_def
        toy_conn_def new_inner_def idle_toy_def)
qed

subsection \<open>Closing\<close>

lemma floor_boundary_props:
  "floor_boundary s e \<le> e" "is_char_boundary s (floor_boundary s e)"
  "is_char_boundary s i \<Longrightarrow> i \<le> e \<Longrightarrow> i \<le> floor_boundary s e"
proof -
  show "floor_boundary s e \<le> e" by (induction e) simp_all
  show "is_char_boundary s (floor_boundary s e)"
    by (induction e) (simp_all add: is_char_boundary_def)
  show "is_char_boundary s i \<Longrightarrow> i \<le> e \<Longrightarrow> i \<le> floor_boundary s e"
    by (induction e) (auto simp: le_Suc_eq)
qed

text \<open>
  What a close tells the peer.  A code that QUIC cannot encode is refused and changes
  nothing.  Otherwise the peer is given the longest prefix of the reason that ends between
  characters and has at most 1024 bytes, the whole reason when it is that short, and the
  driver is told to stop when the close could be sent.
\<close>

theorem close_tells_the_peer:
  "(error_code > MAX_ERROR_CODE \<longrightarrow>
      quic_close_with_error Q J error_code reason s = (Err (InvalidErrorCode error_code), s)) \<and>
   (error_code \<le> MAX_ERROR_CODE \<longrightarrow>
      quic_close_with_error Q J error_code reason s =
        pbind (flush_send Q J) (\<lambda>_. qmodify (\<lambda>c. c\<lparr>qc_shutdown := True\<rparr>))
          (apfst (\<lambda>c. c\<lparr>qc_conn := q_close Q True error_code (close_reason reason) (qc_conn c)\<rparr>) s)) \<and>
   length (close_reason reason) \<le> 1024 \<and>
   take (length (close_reason reason)) reason = close_reason reason \<and>
   is_char_boundary reason (length (close_reason reason)) \<and>
   (\<forall>i. is_char_boundary reason i \<and> i \<le> 1024 \<and> i \<le> length reason \<longrightarrow> i \<le> length (close_reason reason)) \<and>
   (length reason \<le> 1024 \<longrightarrow> close_reason reason = reason)"
proof -
  let ?e = "floor_boundary reason (min (length reason) MAX_CLOSE_REASON_LEN)"
  have le: "?e \<le> length reason" "?e \<le> 1024"
    using floor_boundary_props(1) [of reason "min (length reason) MAX_CLOSE_REASON_LEN"]
    by (simp_all add: MAX_CLOSE_REASON_LEN_def)
  then have len: "length (close_reason reason) = ?e" by (simp add: close_reason_def)
  have max: "i \<le> ?e" if "is_char_boundary reason i" "i \<le> 1024" "i \<le> length reason" for i
    using floor_boundary_props(3) [OF that(1), of "min (length reason) MAX_CLOSE_REASON_LEN"] that
    by (simp add: MAX_CLOSE_REASON_LEN_def)
  have whole: "close_reason reason = reason" if "length reason \<le> 1024"
    using max [of "length reason"] that le by (simp add: is_char_boundary_def close_reason_def)
  have "quic_close_with_error Q J error_code reason s = (Err (InvalidErrorCode error_code), s)"
    if "error_code > MAX_ERROR_CODE" using that by (simp add: quic_close_with_error_def)
  moreover have "quic_close_with_error Q J error_code reason s =
        pbind (flush_send Q J) (\<lambda>_. qmodify (\<lambda>c. c\<lparr>qc_shutdown := True\<rparr>))
          (apfst (\<lambda>c. c\<lparr>qc_conn := q_close Q True error_code (close_reason reason) (qc_conn c)\<rparr>) s)"
    if "error_code \<le> MAX_ERROR_CODE"
    using that [folded linorder_not_less]
    by (cases s) (simp add: quic_close_with_error_def pbind_def qcall_def)
  moreover have "is_char_boundary reason (length (close_reason reason))"
    by (simp only: len floor_boundary_props(2))
  moreover have "take (length (close_reason reason)) reason = close_reason reason"
    unfolding len by (simp add: close_reason_def)
  ultimately show ?thesis using le max whole by (simp only: len) blast
qed

theorem close_tells_the_peer_witness:
  "quic_close_with_error toy_quiche quiet_juice (2 ^ 62) [72, 105] (toy_conn idle_toy, ()) =
     (Err (InvalidErrorCode (2 ^ 62)), (toy_conn idle_toy, ())) \<and>
   close_reason [72, 105] = [72, 105]"
  using close_tells_the_peer [of "2 ^ 62" toy_quiche quiet_juice "[72, 105]" "(toy_conn idle_toy, ())"]
  by (simp add: MAX_ERROR_CODE_def word_less_nat_alt)

end
