(* ===== verification/Session_Inv.thy ===== *)
theory Session_Inv
  imports Session Node_Props Quic_Props
begin

text \<open>
  What a serving session keeps: what each of its programs leaves alone, whom it admits, the
  invariant of its tasks and deliveries, its identity and its phases.  The hub and the ICE
  library are arbitrary throughout.
\<close>

subsection \<open>What the calls leave alone\<close>

text \<open>The session's own fields, all but the shared environment, are \<open>env.more\<close>.\<close>

lemma env_blind_core: "env_blind (\<lambda>s. env.more s = x)"
  by (simp add: env_blind_def)

lemma client_core [preserves_rules]:
  "preserves env.more (connect H a)" "preserves env.more (get_and_verify_roster P H reg spki)"
  "preserves env.more (hub_start_serving H reg)"
  by (rule preserves_of_keeps, auto intro!: keeps_rules env_blind_core)+

lemma on_world_core [preserves_rules]: "preserves env.more (on_world m)"
  by (rule preservesI) (auto simp: on_world_def split: prod.splits)

lemma fetch_core [preserves_rules]: "preserves env.more (fetch_serving_roster P H)"
  unfolding fetch_serving_roster_def by (auto intro!: preserves_rules)

lemma open_core [preserves_rules]: "preserves env.more (open_serving_connection H a reg)"
  unfolding open_serving_connection_def by (auto intro!: preserves_rules)

text \<open>
  What only tasks and phase changes touch: the identity, the configuration, the tasks, the
  deliveries and the phase.
\<close>

definition standing :: "('w, 'q) session \<Rightarrow> _" where
  "standing s = (se_signing_key s, se_node_number s, se_connectivity_group_id s, se_config s, se_tasks s, se_incoming_udp s,
     se_incoming_quic s, se_phase s, se_connected s)"

lemma more_env: "env.more s = env.more t \<Longrightarrow> t = s\<lparr>ev_world := ev_world t, ev_rtt := ev_rtt t, ev_now := ev_now t\<rparr>"
  by (cases s rule: env.cases_scheme; cases t rule: env.cases_scheme) simp

lemma more_eq:
  fixes s t :: "('w, 'q) session"
  assumes "env.more s = env.more t"
  shows "standing s = standing t" "se_connection_id_counter s = se_connection_id_counter t"
    "se_sent s = se_sent t" "se_stream_open s = se_stream_open t" "se_endorsing s = se_endorsing t"
    "se_receivers s = se_receivers t" "se_opened_at s = se_opened_at t"
proof -
  obtain w r n where t: "t = s\<lparr>ev_world := w, ev_rtt := r, ev_now := n\<rparr>"
    using more_env [OF assms] by blast
  show "standing s = standing t" "se_connection_id_counter s = se_connection_id_counter t"
    "se_sent s = se_sent t" "se_stream_open s = se_stream_open t" "se_endorsing s = se_endorsing t"
    "se_receivers s = se_receivers t" "se_opened_at s = se_opened_at t"
    by (simp_all add: t standing_def)
qed

lemma preserves_more:
  fixes m :: "(('w, 'q) session, 'a, 'e) prog"
  assumes "preserves env.more m" and "\<And>s t :: ('w, 'q) session. env.more s = env.more t \<Longrightarrow> f s = f t"
  shows "preserves f m"
proof (rule preservesI)
  fix s r t assume "m s = (r, t)"
  then show "f t = f s" by (rule assms(2) [OF preservesD [OF assms(1)]])
qed

lemma standing_calls [preserves_rules]:
  "preserves standing (connect H a)" "preserves standing (fetch_serving_roster P H)"
  "preserves standing (on_world m)" "preserves standing (open_serving_connection H a reg)"
  by (rule preserves_more, rule preserves_rules, erule more_eq)+

lemma standing_sending [preserves_rules]:
  "preserves standing (send_response r)" "preserves standing (send_answer i k)"
  "preserves standing (send_error_response i msg)" "preserves standing send_check_in"
  "preserves standing (observe_rtt d)"
proof -
  show r: "preserves standing (send_response r)" for r
    by (simp add: preserves_def send_response_def standing_def)
  show "preserves standing (send_answer i k)" "preserves standing (send_error_response i msg)"
      "preserves standing send_check_in"
    unfolding send_answer_def send_error_response_def send_check_in_def
    by (auto intro!: preserves_rules r)
  show "preserves standing (observe_rtt d)"
    unfolding observe_rtt_def by (rule preserves_modify) (simp add: standing_def)
qed

lemma standing_handlers [preserves_rules]:
  "preserves standing (respond i k result)" "preserves standing (handle_welcome usec)"
  "preserves standing (dispatch_command rand cmd)" "preserves standing (answer_connection P J rand caller p)"
proof -
  show "preserves standing (respond i k result)" "preserves standing (handle_welcome usec)"
    unfolding respond_def handle_welcome_def by (auto intro!: preserves_rules simp: Let_def)
  show "preserves standing (dispatch_command rand cmd)"
    by (rule preservesI) (auto simp: dispatch_command_def standing_def split: option.splits command.splits prod.splits)
  have "preserves standing (modify (\<lambda>s. s\<lparr>se_connection_id_counter := n\<rparr>))" for n
    by (rule preserves_modify) (simp add: standing_def)
  then show "preserves standing (answer_connection P J rand caller p)"
    unfolding answer_connection_def by (auto intro!: preserves_rules simp: Let_def)
qed

subsection \<open>Who is admitted\<close>

lemma fetched_roster:
  fixes s t :: "('w, 'q) session"
  assumes "ed25519_correct P" and "fetch_serving_roster P H s = (Ok r, t)"
  shows "valid_history P r \<and> active_keys P r (nr_node_number (pcf_registration (se_config s))) =
    Some (ed_verifying_key P (se_signing_key s))"
proof -
  obtain u v and keys where "connect H (pcf_hub_addr (se_config s)) s = (Ok (), u :: ('w, 'q) session)"
      and v: "verify_roster P r (nr_node_number (pcf_registration (se_config s)))
        (public_key_spki P (se_signing_key u)) = Ok keys"
    using assms(2) by (auto simp: fetch_serving_roster_def get_and_verify_roster_def rust_simps)
  moreover have "standing u = standing s" using calculation(1) standing_calls(1) by (blast dest: preservesD)
  ultimately show ?thesis
    using own_spki_decodes [OF assms(1)] by (auto simp: verify_roster_Ok_iff standing_def)
qed

lemma active_node_key:
  assumes "valid_history P r" and "find_node n (ro_nodes r) = Some x" and "\<not> rn_revoked x"
  shows "\<exists>k. vk_from_der P (rn_public_key_spki x) = Inr k \<and> active_keys P r n = Some k"
proof -
  have x: "x \<in> set (ro_nodes r)" "rn_node_number x = n"
    using assms(2) by (auto simp: find_node_def dest!: find_SomeD)
  have d: "distinct (map rn_node_number (ro_nodes r))"
    using valid_history_wf [OF assms(1)] by (simp add: wf_roster_def node_numbers_def)
  have "find (\<lambda>y. rn_node_number y = n \<and> \<not> rn_revoked y) (ro_nodes r) = Some x"
  proof -
    have "find (\<lambda>y. rn_node_number y = n \<and> \<not> rn_revoked y) xs = Some x"
      if "distinct (map rn_node_number xs)" "x \<in> set xs" for xs
      using that x(2) assms(3) by (induction xs) auto
    with d x(1) show ?thesis by blast
  qed
  then show ?thesis
    using valid_history_wf [OF assms(1)] x(1)
    by (auto simp: active_keys_def keys_of_def wf_roster_def split: sum.splits)
qed

text \<open>
  \<open>authorised P me sk caller secret\<close>: some roster with a valid history has this node and the
  caller as active members, and the caller signed a request under the key it has there from
  whose X25519 key the secret was made.
\<close>

definition authorised :: "prims \<Rightarrow> i32 \<Rightarrow> signing_seed \<Rightarrow> i32 \<Rightarrow> bytes \<Rightarrow> bool" where
  "authorised P me sk caller secret \<longleftrightarrow> (\<exists>r (req :: start_connection_request) payload key k.
     valid_history P r \<and> active_keys P r me = Some (ed_verifying_key P sk) \<and>
     active_keys P r caller = Some k \<and>
     ed_verify P k (CALLER_SIG_DOMAIN @ sq_signed_payload req) (sq_signature req) \<and>
     decode_request P (sq_signed_payload req) = Some payload \<and>
     secret = x25519_dh P key (rq_caller_x25519_public_key payload))"

lemma authorisedI:
  fixes req :: start_connection_request
  assumes "valid_history P r" and "active_keys P r me = Some (ed_verifying_key P sk)"
    and "active_keys P r caller = Some k"
    and "ed_verify P k (CALLER_SIG_DOMAIN @ sq_signed_payload req) (sq_signature req)"
    and "decode_request P (sq_signed_payload req) = Some payload"
  shows "authorised P me sk caller (x25519_dh P key (rq_caller_x25519_public_key payload))"
  using assms unfolding authorised_def by blast

lemma admitted_caller:
  assumes "admit_caller P r caller req = Ok payload" and "valid_history P r"
  shows "\<exists>k. active_keys P r caller = Some k \<and>
    ed_verify P k (CALLER_SIG_DOMAIN @ sq_signed_payload req) (sq_signature req) \<and>
    decode_request P (sq_signed_payload req) = Some payload"
proof -
  obtain x where x: "find_node caller (ro_nodes r) = Some x" "\<not> rn_revoked x"
      "verify_request P req (rn_public_key_spki x) = Ok payload"
    using assms(1) by (auto simp: admit_caller_def rust_simps)
  from active_node_key [OF assms(2) x(1,2)] x(3) show ?thesis
    by (auto simp: req.verify_iff request_signed_by_def)
qed

lemma start_connection_cases:
  fixes s t :: "('w, 'q) session"
  assumes "handle_start_connection_request P H J rand i caller req s = (res, t)"
  obtains (refused) "standing t = standing s"
  | (accepted) r payload signed task u v where
      "fetch_serving_roster P H s = (Ok r, u)" "admit_caller P r caller req = Ok payload"
      "answer_connection P J rand caller payload u = (Ok (signed, task), v)"
      "standing u = standing s" "standing v = standing s"
      "t = (let w = v\<lparr>se_sent := se_sent v @ [\<lparr>sp_request_id = i, sp_error = [],
              sp_kind = Some (StartConnectionResp signed)\<rparr>]\<rparr>
            in w\<lparr>se_tasks := se_tasks w @ [task\<lparr>at_start := ev_now w + compute_check_start_delay
              (rq_caller_hub_rtt_usec payload) (rq_caller_ice_start_delay_usec payload) w\<rparr>]\<rparr>)"
      "res = Ok ()" "se_stream_open v"
proof -
  define m :: "(('w, 'q) session, _, string) prog" where
    "m = pbind (fetch_serving_roster P H) (\<lambda>r.
        pbind (lift (admit_caller P r caller req)) (\<lambda>payload.
        pbind (answer_connection P J rand caller payload) (\<lambda>(signed, task).
        ret (payload, signed, task))))"
  have m: "preserves standing m" unfolding m_def by (auto intro!: preserves_rules)
  have h: "(res, t) = pcatch m
       (\<lambda>(payload, signed, task).
          pbind (send_answer i (StartConnectionResp signed)) (\<lambda>sent.
          if sent then spawn_answer payload task else ret ()))
       (send_error_response i) s"
    using assms by (simp add: handle_start_connection_request_def m_def)
  obtain r1 v where v: "m s = (r1, v)" by fastforce
  have sv: "standing v = standing s" by (rule preservesD [OF m v])
  show thesis
  proof (cases r1)
    case (Ok x)
    obtain payload signed task where x: "x = (payload, signed, task)" by (cases x)
    from v Ok x obtain r u where ru: "fetch_serving_roster P H s = (Ok r, u)"
        "admit_caller P r caller req = Ok payload"
        "answer_connection P J rand caller payload u = (Ok (signed, task), v)"
      by (auto simp: m_def rust_simps)
    have su: "standing u = standing s" by (rule preservesD [OF standing_calls(2) ru(1)])
    have t: "(res, t) = pbind (send_answer i (StartConnectionResp signed)) (\<lambda>sent.
          if sent then spawn_answer payload task else ret ()) v"
      using h v Ok x by (simp add: pcatch_def)
    show thesis
    proof (cases "se_stream_open v")
      case True
      then show thesis
        using accepted [OF ru su sv] t
        by (simp add: pbind_def send_answer_def send_response_def spawn_answer_def Let_def)
    next
      case False
      then show thesis
        using refused t sv by (simp add: pbind_def send_answer_def send_response_def)
    qed
  next
    case (Err e)
    then have "send_error_response i e v = (res, t)" using h v by (simp add: pcatch_def)
    then have "standing t = standing v" by (rule preservesD [OF standing_sending(3)])
    then show thesis using refused sv by simp
  next
    case Panic
    then have "t = v" using h v by (simp add: pcatch_def)
    then show thesis using refused sv by blast
  qed
qed

subsection \<open>Deliveries\<close>

text \<open>What the acceptance of connections reads and writes of a session.\<close>

definition books :: "('w, 'q) session \<Rightarrow> _" where
  "books s = (se_signing_key s, se_config s, se_tasks s, se_incoming_udp s, se_incoming_quic s)"

lemma standing_books: "standing t = standing s \<Longrightarrow> books t = books s"
  by (simp add: standing_def books_def)

lemma books_simps [simp]:
  "books (s\<lparr>se_phase := p\<rparr>) = books s" "books (s\<lparr>se_connected := b\<rparr>) = books s"
  "books (s\<lparr>se_receivers := b\<rparr>) = books s" "books (s\<lparr>se_stream_open := b\<rparr>) = books s"
  "books (s\<lparr>se_sent := x\<rparr>) = books s" "books (s\<lparr>se_opened_at := n\<rparr>) = books s"
  "books (s\<lparr>se_endorsing := es\<rparr>) = books s" "books (s\<lparr>ev_now := n\<rparr>) = books s"
  "books (ended r s) = books s" "books (disconnected s) = books s"
  by (simp_all add: books_def ended_def disconnected_def)

definition session_ok :: "prims \<Rightarrow> ('w, 'q) session \<Rightarrow> bool" where
  "session_ok P s \<longleftrightarrow>
     (let ok = authorised P (nr_node_number (pcf_registration (se_config s))) (se_signing_key s) in
      (\<forall>t \<in> set (se_tasks s). ok (at_caller t) (at_secret t)) \<and>
      (\<forall>c. Ok c \<in> set (se_incoming_udp s) \<longrightarrow> (\<exists>secret. ok (udp_peer_node_number c) secret \<and>
         new_answerer P secret (udp_connection_id c) = Ok (udp_cipher c))) \<and>
      (\<forall>c. Ok c \<in> set (se_incoming_quic s) \<longrightarrow> (\<exists>secret. ok (qn_peer_node_number c) secret)))"

lemma session_ok_books: "books t = books s \<Longrightarrow> session_ok P t = session_ok P s"
  by (simp add: session_ok_def books_def)

lemma udp_answered:
  "udp_connect_answerer P J peer cid ice secret w = (Ok c, w') \<Longrightarrow>
     udp_peer_node_number c = peer \<and> udp_connection_id c = cid \<and>
     new_answerer P secret cid = Ok (udp_cipher c)"
  by (auto simp: udp_connect_answerer_def rust_simps)

lemma established_Some:
  "established Q evs peer cid quic w = (Ok (Some c), w') \<Longrightarrow>
     qn_peer_node_number c = peer \<and> qn_connection_id c = cid"
  by (auto simp: established_def split: prod.splits result.splits option.splits)

lemma quic_answered:
  "quic_connect_answerer P Q J evs now peer cid ice secret w = (Ok (Some c), w') \<Longrightarrow>
     qn_peer_node_number c = peer \<and> qn_connection_id c = cid"
  by (auto simp: quic_connect_answerer_def rust_simps dest: established_Some)

lemma on_world_iff: "on_world m s = (r, t) \<longleftrightarrow> (\<exists>w. m (ev_world s) = (r, w) \<and> t = s\<lparr>ev_world := w\<rparr>)"
  by (auto simp: on_world_def split: prod.splits)

lemma answered_task:
  assumes "answer_connection P J rand caller payload s = (Ok (sr, task), t)"
  shows "at_caller task = caller \<and> at_connection_id task = se_connection_id_counter s \<and>
    se_connection_id_counter t = se_connection_id_counter s + 1 \<and>
    at_transport task = transport_of payload \<and>
    at_secret task = x25519_dh P (generate_ephemeral rand) (rq_caller_x25519_public_key payload) \<and>
    sr = build_signed_response P (se_signing_key s)
      \<lparr>rs_connection_id = se_connection_id_counter s,
       rs_answerer_x25519_public_key = x_public_key P (generate_ephemeral rand),
       rs_answerer_sdp = ia_local_desc (at_ice task)\<rparr>"
  using assms by (auto simp: answer_connection_def rust_simps on_world_iff Let_def diffie_hellman_def)

text \<open>One step, by what it does to tasks and deliveries.\<close>

lemma handled_books:
  assumes "preserves standing m" shows "books (handled m s) = books s"
proof -
  obtain r t where "m s = (r, t)" by fastforce
  then show ?thesis
    using standing_books [OF preservesD [OF assms]] by (auto simp: handled_def split: result.splits)
qed

lemma on_command_books: "books (on_command rand cmd s) = books s"
proof -
  obtain r t where r: "dispatch_command rand cmd s = (r :: (reply \<times> bool, serving_error) result, t)"
    by fastforce
  then have "books t = books s"
    by (intro standing_books preservesD [OF standing_handlers(3)])
  with r show ?thesis by (auto simp: on_command_def split: result.splits bool.splits)
qed

lemma on_attempt_books: "books (on_attempt H jitter d s) = books s"
proof -
  obtain r t where r: "open_serving_connection H (pcf_hub_addr (se_config s))
      (pcf_registration (se_config s)) s = (r, t)" by fastforce
  have "books t = books s" by (rule standing_books [OF preservesD [OF standing_calls(4) r]])
  with r show ?thesis by (auto simp: on_attempt_def split: result.splits prod.splits)
qed

lemma request_books:
  assumes "\<And>req. sr_kind request \<noteq> Some (StartConnectionReq req)"
  shows "preserves standing (handle_hub_request P H J rand request)"
proof -
  have "preserves standing (modify (\<lambda>s. s\<lparr>se_endorsing := es\<rparr>))" for es
    by (rule preserves_modify) (simp add: standing_def)
  then show ?thesis
    using assms unfolding handle_hub_request_def
    by (auto intro!: preserves_rules split: option.splits serving_request_kind.splits prod.splits)
qed

lemma step_ok:
  fixes s :: "('w, 'q) session"
  assumes P: "ed25519_correct P" and s: "session_ok P s"
  shows "session_ok P (session_step P H J Q ev s)"
proof (cases ev)
  case (SvRequest request rand)
  show ?thesis
  proof (cases "\<exists>req. sr_kind request = Some (StartConnectionReq req)")
    case False
    then have "books (handled (handle_hub_request P H J rand request) s) = books s"
      by (intro handled_books request_books) auto
    then show ?thesis
      using s session_ok_books SvRequest by auto
  next
    case True
    then obtain req where req: "sr_kind request = Some (StartConnectionReq req)" by blast
    obtain res t where t: "handle_start_connection_request P H J rand (sr_request_id request)
        (sr_source_node_number request) req s = ((res :: (unit, serving_error) result), t)" by fastforce
    have "session_ok P t"
    proof (cases rule: start_connection_cases [OF t])
      case 1
      then show ?thesis using s session_ok_books [OF standing_books] by blast
    next
      case (2 r payload sr task u v)
      have hist: "valid_history P r" "active_keys P r (nr_node_number (pcf_registration (se_config s))) =
          Some (ed_verifying_key P (se_signing_key s))"
        using fetched_roster [OF P 2(1)] by blast+
      obtain k where k: "active_keys P r (sr_source_node_number request) = Some k"
          "ed_verify P k (CALLER_SIG_DOMAIN @ sq_signed_payload req) (sq_signature req)"
          "decode_request P (sq_signed_payload req) = Some payload"
        using admitted_caller [OF 2(2) hist(1)] by blast
      have "authorised P (nr_node_number (pcf_registration (se_config s))) (se_signing_key s)
          (at_caller task) (at_secret task)"
        using answered_task [OF 2(3)] authorisedI [OF hist k] by simp
      moreover have "books v = books s" by (rule standing_books [OF 2(5)])
      ultimately show ?thesis
        using s by (auto simp: session_ok_def books_def 2(6) Let_def)
    qed
    then have "session_ok P (handled (handle_hub_request P H J rand request) s)"
      using t req by (auto simp: handled_def handle_hub_request_def session_ok_books [OF books_simps(9)]
          split: result.splits)
    then show ?thesis using s SvRequest by simp
  qed
next
  case (SvTask i evs)
  show ?thesis
  proof (cases "i < length (se_tasks s)")
    case True
    let ?task = "se_tasks s ! i"
    define s' where "s' = s\<lparr>se_tasks := take i (se_tasks s) @ drop (Suc i) (se_tasks s),
      ev_now := max (ev_now s) (at_start ?task)\<rparr>"
    have s': "session_ok P s'"
      using s by (auto simp: session_ok_def s'_def Let_def dest: in_set_takeD in_set_dropD)
    have a: "authorised P (nr_node_number (pcf_registration (se_config s'))) (se_signing_key s')
        (at_caller ?task) (at_secret ?task)"
      using s True by (auto simp: session_ok_def s'_def Let_def)
    have "session_ok P (run_udp_task P J ?task s')"
      using s' a by (auto simp: run_udp_task_def on_world_iff session_ok_def Let_def
          split: prod.splits result.splits) (metis udp_answered)
    moreover have "session_ok P (run_quic_task P J Q evs ?task s')"
      using s' a by (auto simp: run_quic_task_def on_world_iff session_ok_def Let_def
          split: prod.splits result.splits option.splits) (metis quic_answered)
    ultimately show ?thesis
      by (simp add: SvTask run_task_def True s'_def Let_def split: transport.splits)
  qed (use s in \<open>simp add: SvTask run_task_def\<close>)
qed (use s in \<open>auto simp: on_stream_error_def session_ok_books [OF on_command_books]
      session_ok_books [OF handled_books [OF standing_sending(4)]] session_ok_books [OF on_attempt_books]
      session_ok_books [OF books_simps(1)] session_ok_books [OF books_simps(3)]
      session_ok_books [OF books_simps(4)] session_ok_books [OF books_simps(8)]
      session_ok_books [OF books_simps(9)] session_ok_books [OF books_simps(10)] split: phase.splits\<close>)

text \<open>Who the session is never changes.\<close>

definition identity :: "('w, 'q) session \<Rightarrow> _" where
  "identity s = (se_signing_key s, se_node_number s, se_connectivity_group_id s, se_config s)"

lemma standing_identity: "standing t = standing s \<Longrightarrow> identity t = identity s"
  by (simp add: standing_def identity_def)

lemma identity_simps [simp]:
  "identity (s\<lparr>se_phase := p\<rparr>) = identity s" "identity (s\<lparr>se_connected := b\<rparr>) = identity s"
  "identity (s\<lparr>se_receivers := b\<rparr>) = identity s" "identity (s\<lparr>se_stream_open := b\<rparr>) = identity s"
  "identity (s\<lparr>se_sent := x\<rparr>) = identity s" "identity (s\<lparr>se_opened_at := n\<rparr>) = identity s"
  "identity (s\<lparr>ev_now := n\<rparr>) = identity s" "identity (s\<lparr>ev_world := w\<rparr>) = identity s"
  "identity (s\<lparr>se_tasks := ts\<rparr>) = identity s" "identity (s\<lparr>se_incoming_udp := us\<rparr>) = identity s"
  "identity (s\<lparr>se_incoming_quic := qs\<rparr>) = identity s"
  "identity (ended r s) = identity s" "identity (disconnected s) = identity s"
  by (simp_all add: identity_def ended_def disconnected_def)

lemma preserves_identity: "preserves standing m \<Longrightarrow> preserves identity m"
  by (rule preservesI) (blast dest: preservesD intro: standing_identity)

lemma handled_identity: "preserves identity m \<Longrightarrow> identity (handled m s) = identity s"
  by (cases "m s") (auto simp: handled_def split: result.splits dest: preservesD)

lemma request_identity: "preserves identity (handle_hub_request P H J rand request)"
proof (cases "\<exists>req. sr_kind request = Some (StartConnectionReq req)")
  case False
  then show ?thesis by (intro preserves_identity request_books) auto
next
  case True
  then obtain req where req: "sr_kind request = Some (StartConnectionReq req)" by blast
  show ?thesis
  proof (rule preservesI)
    fix s r t assume "handle_hub_request P H J rand request s = (r, t)"
    then have "handle_start_connection_request P H J rand (sr_request_id request)
        (sr_source_node_number request) req s = (r, t)"
      using req by (simp add: handle_hub_request_def)
    then show "identity t = identity s"
      by (rule start_connection_cases)
        (auto simp: Let_def dest!: standing_identity)
  qed
qed

lemma step_identity: "identity (session_step P H J Q ev s) = identity s"
proof (cases ev)
  case (SvCommand cmd rand)
  obtain r t where r: "dispatch_command rand cmd s = (r :: (reply \<times> bool, serving_error) result, t)"
    by fastforce
  have "identity t = identity s" by (rule standing_identity [OF preservesD [OF standing_handlers(3) r]])
  then show ?thesis using r SvCommand by (auto simp: on_command_def split: result.splits bool.splits)
next
  case (SvAttempt jitter)
  obtain r t where r: "open_serving_connection H (pcf_hub_addr (se_config s))
      (pcf_registration (se_config s)) s = (r, t)" by fastforce
  have "identity t = identity s" by (rule standing_identity [OF preservesD [OF standing_calls(4) r]])
  then show ?thesis
    using r SvAttempt by (auto simp: on_attempt_def split: result.splits prod.splits phase.splits)
next
  case (SvTask i evs)
  then show ?thesis
    by (auto simp: run_task_def run_udp_task_def run_quic_task_def on_world_iff Let_def
        split: transport.splits prod.splits result.splits option.splits)
qed (simp_all add: handled_identity request_identity preserves_identity standing_sending on_stream_error_def
    split: phase.splits)

interpretation session: event_machine "\<lambda>s. ed25519_correct P \<and> session_ok P s" "session_step P H J Q" for P H J Q
  by unfold_locales (auto intro: step_ok)

lemma run_identity: "identity (run_events (session_step P H J Q) evs s) = identity s"
  by (induction evs arbitrary: s) (simp_all add: step_identity)

lemma started:
  fixes s :: "('w, 'q) session"
  assumes "start_serving H n = (Ok s, n')"
  shows "\<exists>reg. require_registered_or_activated (sy_node n) = Ok reg \<and>
    s = session_new (se_opened_at s) (nd_signing_key (sy_node n)) (nr_connectivity_group_id reg)
      (nr_node_number reg) \<lparr>pcf_hub_addr = nd_hub_addr (sy_node n), pcf_registration = reg\<rparr> n'"
  using assms by (auto simp: start_serving_def rust_simps Let_def) (auto simp: session_new_def)

lemma new_session_ok: "session_ok P (session_new o1 sk g n c e)"
  by (simp add: session_ok_def session_new_def Let_def)

subsection \<open>Phases\<close>

text \<open>The flag that the status reports follows the phase.\<close>

definition connected_ok :: "('w, 'q) session \<Rightarrow> bool" where
  "connected_ok s \<longleftrightarrow> running (se_phase s) \<longrightarrow> (se_connected s \<longleftrightarrow> se_phase s = Serving)"

definition phase_of :: "('w, 'q) session \<Rightarrow> _" where
  "phase_of s = (se_phase s, se_connected s)"

lemma standing_phase: "standing t = standing s \<Longrightarrow> phase_of t = phase_of s"
  by (simp add: standing_def phase_of_def)

lemma preserves_phase: "preserves standing m \<Longrightarrow> preserves phase_of m"
  by (rule preservesI) (blast dest: preservesD intro: standing_phase)

lemma phase_simps [simp]:
  "phase_of (s\<lparr>se_sent := x\<rparr>) = phase_of s" "phase_of (s\<lparr>se_tasks := ts\<rparr>) = phase_of s"
  "phase_of (s\<lparr>se_incoming_udp := us\<rparr>) = phase_of s" "phase_of (s\<lparr>se_incoming_quic := qs\<rparr>) = phase_of s"
  "phase_of (s\<lparr>ev_now := n\<rparr>) = phase_of s" "phase_of (s\<lparr>ev_world := w\<rparr>) = phase_of s"
  by (simp_all add: phase_of_def)

lemma request_phase: "preserves phase_of (handle_hub_request P H J rand request)"
proof (cases "\<exists>req. sr_kind request = Some (StartConnectionReq req)")
  case False
  then show ?thesis by (intro preserves_phase request_books) auto
next
  case True
  then obtain req where req: "sr_kind request = Some (StartConnectionReq req)" by blast
  show ?thesis
  proof (rule preservesI)
    fix s r t assume "handle_hub_request P H J rand request s = (r, t)"
    then have "handle_start_connection_request P H J rand (sr_request_id request)
        (sr_source_node_number request) req s = (r, t)"
      using req by (simp add: handle_hub_request_def)
    then show "phase_of t = phase_of s"
      by (rule start_connection_cases) (auto simp: Let_def dest!: standing_phase)
  qed
qed

lemma task_phase: "phase_of (run_task P J Q evs i s) = phase_of s"
  by (auto simp: run_task_def run_udp_task_def run_quic_task_def on_world_iff Let_def
      split: transport.splits prod.splits result.splits option.splits)

lemma handled_phase:
  assumes "preserves phase_of m"
  shows "phase_of (handled m s) = phase_of s \<or> (fst (m s) = Panic \<and> handled m s = ended Panic (snd (m s)))"
  using preservesD [OF assms] by (cases "m s") (auto simp: handled_def split: result.splits)

text \<open>What a step does to the phase, event by event.\<close>

lemma command_phase:
  "(\<exists>t. on_command rand cmd s = ended (Ok ()) t \<and> (cmd = None \<or> cmd = Some CmdShutdown)) \<or>
   phase_of (on_command rand cmd s) = phase_of s \<and> cmd \<noteq> None \<and> cmd \<noteq> Some CmdShutdown"
  by (auto simp: on_command_def dispatch_command_def phase_of_def split: option.splits command.splits prod.splits)

lemma attempt_phase:
  "(\<exists>t. on_attempt H jitter d s = t\<lparr>se_connected := True, se_phase := Serving\<rparr>) \<or>
   (\<exists>t e. on_attempt H jitter d s = ended (Err (ServingHub e)) t \<and> hub_is_unauthenticated e) \<or>
   (\<exists>t b u. on_attempt H jitter d s = t\<lparr>se_phase := BackingOff b u\<rparr> \<and> phase_of t = phase_of s) \<or>
   (fst (open_serving_connection H (pcf_hub_addr (se_config s)) (pcf_registration (se_config s)) s) = Panic \<and>
    (\<exists>t. on_attempt H jitter d s = ended Panic t))"
proof -
  obtain r t where r: "open_serving_connection H (pcf_hub_addr (se_config s))
      (pcf_registration (se_config s)) s = (r, t)" by fastforce
  have p: "phase_of t = phase_of s" by (rule standing_phase [OF preservesD [OF standing_calls(4) r]])
  show ?thesis
  proof (cases r)
    case (Err e)
    show ?thesis
    proof (cases "hub_is_unauthenticated e")
      case False
      then have "on_attempt H jitter d s =
          t\<lparr>se_phase := BackingOff (snd (next_delay jitter d)) (ev_now t + fst (next_delay jitter d))\<rparr>"
        using r Err by (simp add: on_attempt_def split: prod.splits)
      with p show ?thesis by blast
    qed (use r Err in \<open>auto simp: on_attempt_def\<close>)
  qed (use r in \<open>auto simp: on_attempt_def\<close>)
qed

lemma connected_kept:
  assumes "connected_ok s" and "(\<exists>r u. t = ended r u) \<or> phase_of t = phase_of s"
  shows "connected_ok t"
  using assms by (auto simp: phase_of_def connected_ok_def ended_def)

lemma step_connected:
  assumes "connected_ok s" shows "connected_ok (session_step P H J Q ev s)"
proof (cases ev)
  case (SvCommand cmd rand)
  have "connected_ok (on_command rand cmd s)"
    using command_phase [of rand cmd s] by (intro connected_kept [OF assms]) blast
  with assms show ?thesis by (simp add: SvCommand)
next
  case (SvAttempt jitter)
  show ?thesis
  proof (cases "\<exists>d. se_phase s = Connecting d")
    case True
    then obtain d where d: "se_phase s = Connecting d" by blast
    with assms have "\<not> se_connected s" by (simp add: connected_ok_def)
    then have "connected_ok (on_attempt H jitter d s)"
      using attempt_phase [of H jitter d s]
      by (elim disjE exE conjE) (simp_all add: connected_ok_def phase_of_def ended_def)
    with d show ?thesis by (simp add: SvAttempt)
  qed (use assms in \<open>auto simp: SvAttempt split: phase.splits\<close>)
next
  case (SvRequest request rand)
  have "connected_ok (handled (handle_hub_request P H J rand request) s)"
    using handled_phase [OF request_phase, of P H J rand request s]
    by (intro connected_kept [OF assms]) blast
  with assms show ?thesis by (simp add: SvRequest)
next
  case SvCheckIn
  have "connected_ok (handled send_check_in s)"
    using handled_phase [OF preserves_phase [OF standing_sending(4)], of s]
    by (intro connected_kept [OF assms]) blast
  with assms show ?thesis by (simp add: SvCheckIn)
next
  case (SvTask i evs)
  show ?thesis
    unfolding SvTask session_step.simps by (rule connected_kept [OF assms disjI2 [OF task_phase]])
qed (use assms in \<open>auto simp: connected_ok_def disconnected_def on_stream_error_def ended_def split: phase.splits\<close>)

interpretation phases: event_machine connected_ok "session_step P H J Q" for P H J Q
  by unfold_locales (rule step_connected)

text \<open>An ended session stays ended.\<close>

lemma step_ended:
  assumes "\<not> running (se_phase s)"
  shows "se_phase (session_step P H J Q ev s) = se_phase s"
  using assms
proof (cases ev)
  case (SvTask i evs)
  then show ?thesis using task_phase [of P J Q evs i s] by (simp add: phase_of_def)
qed (auto split: phase.splits)

lemma run_ended: "\<not> running (se_phase s) \<Longrightarrow> se_phase (run_events (session_step P H J Q) evs s) = se_phase s"
  by (induction evs arbitrary: s) (simp_all add: step_ended)

end
