(* ===== verification/Session_Props.thy ===== *)
theory Session_Props
  imports Session_Inv
begin

text \<open>
  What a serving session promises: whom it accepts connections from, that every request is
  answered once and under its own id, when it ends, what its handle tells and how it
  reconnects.
\<close>

subsection \<open>Honest requests\<close>

lemma answer_connection_Ok:
  fixes u :: "('w, 'q) session" and rand :: "nat \<Rightarrow> u8"
  assumes "rq_stun_turn_config payload = Some stun"
    and "ice_answerer_new J (rq_caller_sdp payload) stun (ev_world u) = (Ok ice, w)"
  defines "key \<equiv> generate_ephemeral rand" and "cid \<equiv> se_connection_id_counter u"
  shows "answer_connection P J rand caller payload u =
    (Ok (build_signed_response P (se_signing_key u)
           \<lparr>rs_connection_id = cid, rs_answerer_x25519_public_key = x_public_key P key,
            rs_answerer_sdp = ia_local_desc ice\<rparr>,
         \<lparr>at_transport = transport_of payload, at_caller = caller, at_connection_id = cid, at_ice = ice,
          at_secret = diffie_hellman P key (rq_caller_x25519_public_key payload), at_start = 0\<rparr>),
     u\<lparr>se_connection_id_counter := cid + 1, ev_world := w\<rparr>)"
  using assms by (simp add: answer_connection_def pbind_def perr_def on_world_def Let_def)

lemma accepted_request:
  fixes s u :: "('w, 'q) session"
  assumes r: "fetch_serving_roster P H s = (Ok r, u)" "admit_caller P r caller req = Ok payload"
    and a: "answer_connection P J rand caller payload u = (Ok (resp, task), v)"
    and "se_stream_open v"
  shows "handle_start_connection_request P H J rand i caller req s =
    (Ok (), v\<lparr>se_sent := se_sent v @ [\<lparr>sp_request_id = i, sp_error = [],
        sp_kind = Some (StartConnectionResp resp)\<rparr>],
      se_tasks := se_tasks v @ [task\<lparr>at_start := ev_now v + compute_check_start_delay
        (rq_caller_hub_rtt_usec payload) (rq_caller_ice_start_delay_usec payload) v\<rparr>]\<rparr>)"
  using assms by (simp add: handle_start_connection_request_def pbind_def pcatch_def send_answer_def
      send_response_def spawn_answer_def compute_check_start_delay_def Let_def split: option.splits)

lemma honest_caller_admitted:
  assumes "ed25519_correct P" and "find_node caller (ro_nodes r) = Some x" and "\<not> rn_revoked x"
    and "rn_public_key_spki x = public_key_spki P csk"
    and "decode_request P (encode_request P p) = Some p"
    and "length (rq_caller_x25519_public_key p) = 32"
  shows "admit_caller P r caller (build_signed_request P csk p) = Ok p"
  using req.honest_accepted [OF honest_own_key assms(5), of csk] assms
  by (simp add: admit_caller_def)

lemma transport_back [simp]: "transport_of (caller_payload P key tr peer sdp stun rtt) = tr"
  by (cases tr) (simp_all add: caller_payload_def transport_of_def transport_to_i32_def)


subsection \<open>A concrete session\<close>

text \<open>Node 2 of the sample group serves; node 1 asks it for a datagram connection.\<close>

definition sample_session :: "(unit, toy) session" where
  "sample_session = session_new 0 sample_seed ''group'' 2
     \<lparr>pcf_hub_addr = ''hub'', pcf_registration = sample_reg\<rparr>
     \<lparr>ev_world = (), ev_rtt = rtt_new, ev_now = 0\<rparr>"

definition sample_stun :: stun_turn_config where
  "sample_stun = \<lparr>st_stun_server = ''stun'', st_turn_server = [], st_turn_username = [],
     st_turn_password = [], st_expires_at_millis = 0\<rparr>"

definition sample_call :: request_payload where
  "sample_call = caller_payload ref_prims (replicate 32 3) Datagram 2 ''v=0'' sample_stun 40"

definition sample_request_msg :: serving_request where
  "sample_request_msg = \<lparr>sr_dest_node_number = 2, sr_source_node_number = 1, sr_request_id = 9,
     sr_kind = Some (StartConnectionReq (build_signed_request ref_prims [1] sample_call))\<rparr>"

definition sample_secret :: bytes where
  "sample_secret = replicate 32 7"

lemma sample_stream [simp]:
  "hub_start_serving (sample_hub r) sample_reg s = (Ok (ev_now s), s)"
  by (simp add: hub_start_serving_def add_auth_metadata_def Let_def call_rpc_def answer_def
      sample_hub_def static_hub_def pbind_def perr_def)

lemma sample_serving:
  "start_serving (sample_hub sample_pair) (sample_sys (InnerActivated sample_reg sample_pair)) =
     (Ok sample_session, sample_sys (InnerActivated sample_reg sample_pair))"
  by (simp add: start_serving_def sample_sys_def sample_node_def pbind_def perr_def
      open_serving_connection_def require_registered_or_activated_def sample_session_def
      session_new_def)
    (simp add: sample_reg_def new_registration_def)

lemma sample_fetch:
  "fetch_serving_roster ref_prims (sample_hub sample_pair) sample_session = (Ok sample_pair, sample_session)"
proof -
  have "se_config sample_session = \<lparr>pcf_hub_addr = ''hub'', pcf_registration = sample_reg\<rparr>"
      "se_signing_key sample_session = sample_seed"
    by (simp_all add: sample_session_def session_new_def)
  then show ?thesis
    by (simp add: fetch_serving_roster_def get_and_verify_roster_def pbind_def perr_def sample_pair_accepted)
qed

lemma sample_ice:
  "ice_answerer_new quiet_juice ''v=0'' sample_stun () =
     (Ok \<lparr>ia_agent = 0, ia_local_desc = ''v=0'', ia_remote_candidates = []\<rparr>, ())"
proof -
  have "build_ice_servers_config sample_stun =
      Ok \<lparr>is_stun_host = ''stun'', is_stun_port = 3478, is_turn_servers = []\<rparr>"
    by (simp add: build_ice_servers_config_def sample_stun_def parse_host_port_def rsplit_once_def)
  moreover have "split_remote_description ''v=0'' = (''v=0'' @ crlf, [])"
    by code_simp
  ultimately show ?thesis
    by (simp add: ice_answerer_new_def pbind_def perr_def quiet_juice_def gather_def)
qed

subsection \<open>Accepted connections\<close>

text \<open>
  C2: connections are accepted from authorised members only.  Whatever the hub sends and the
  application does, each connection that a session delivers comes from a caller that was,
  together with this node, an active member in a roster with a valid history, and that
  signed its request under the key it has there; and its keys are derived from the X25519
  key in that request.
\<close>

theorem accepted_connections_are_authorised:
  fixes s :: "('w, 'q) session"
  assumes "ed25519_correct P" and "start_serving H n = (Ok s, n')"
    and "require_registered_or_activated (sy_node n) = Ok reg"
  shows "(\<forall>c. Ok c \<in> set (se_incoming_udp (run_events (session_step P H' J Q) evs s)) \<longrightarrow>
      (\<exists>secret. authorised P (nr_node_number reg) (nd_signing_key (sy_node n)) (udp_peer_node_number c) secret \<and>
         new_answerer P secret (udp_connection_id c) = Ok (udp_cipher c))) \<and>
    (\<forall>c. Ok c \<in> set (se_incoming_quic (run_events (session_step P H' J Q) evs s)) \<longrightarrow>
      (\<exists>secret. authorised P (nr_node_number reg) (nd_signing_key (sy_node n)) (qn_peer_node_number c) secret))"
proof -
  obtain reg' where s: "require_registered_or_activated (sy_node n) = Ok reg'"
    "s = session_new (se_opened_at s) (nd_signing_key (sy_node n)) (nr_connectivity_group_id reg')
      (nr_node_number reg') \<lparr>pcf_hub_addr = nd_hub_addr (sy_node n), pcf_registration = reg'\<rparr> n'"
    using started [OF assms(2)] by blast
  have "session_ok P s" by (subst s(2)) (rule new_session_ok)
  then have "session_ok P (run_events (session_step P H' J Q) evs s)"
    using session.run_inv [of P s H' J Q evs] assms(1) by simp
  moreover have "identity (run_events (session_step P H' J Q) evs s) = identity s" by (rule run_identity)
  moreover have "identity s = (nd_signing_key (sy_node n), nr_node_number reg, nr_connectivity_group_id reg,
      \<lparr>pcf_hub_addr = nd_hub_addr (sy_node n), pcf_registration = reg\<rparr>)"
    using s(1) assms(3) by (subst s(2)) (simp add: identity_def session_new_def)
  ultimately show ?thesis
    by (simp add: session_ok_def identity_def Let_def)
qed

definition sample_task :: answer_task where
  "sample_task = \<lparr>at_transport = Datagram, at_caller = 1, at_connection_id = 1,
     at_ice = \<lparr>ia_agent = 0, ia_local_desc = ''v=0'', ia_remote_candidates = []\<rparr>,
     at_secret = replicate 32 7, at_start = from_micros 50040\<rparr>"

lemma sample_task_spawned:
  "se_tasks (session_step ref_prims (sample_hub sample_pair) quiet_juice toy_quiche
     (SvRequest sample_request_msg (\<lambda>_. 4)) sample_session) = [sample_task]"
  "se_receivers (session_step ref_prims (sample_hub sample_pair) quiet_juice toy_quiche
     (SvRequest sample_request_msg (\<lambda>_. 4)) sample_session)"
proof -
  have eph: "generate_ephemeral (\<lambda>_. 4) = replicate 32 4"
    by (simp add: generate_ephemeral_def fill_bytes_def map_replicate_const)
  have p: "rq_stun_turn_config sample_call = Some sample_stun" "rq_caller_sdp sample_call = ''v=0''"
      "rq_caller_hub_rtt_usec sample_call = 40" "rq_caller_ice_start_delay_usec sample_call = 50000"
      "rq_caller_x25519_public_key sample_call = replicate 32 3" "transport_of sample_call = Datagram"
    by (simp_all add: sample_call_def) (simp_all add: caller_payload_def x_public_key_def
        CALLER_ICE_START_DELAY_def from_millis_def)
  have admit: "admit_caller ref_prims sample_pair 1 (build_signed_request ref_prims [1] sample_call) = Ok sample_call"
    by (rule honest_caller_admitted [where x = "fresh_node 1 [48, 1]"])
      (simp_all add: ref_ed25519_correct find_node_def sample_pair_accepted(2) fresh_node_def public_key_spki_def p)
  have s: "ev_world sample_session = ()" "se_connection_id_counter sample_session = 1"
      "se_phase sample_session = Serving" "se_stream_open sample_session" "ev_now sample_session = 0"
      "ev_rtt sample_session = rtt_new" "se_tasks sample_session = []" "se_receivers sample_session"
    by (simp_all add: sample_session_def session_new_def)
  note a = answer_connection_Ok [of sample_call sample_stun quiet_juice sample_session _ "()" ref_prims "\<lambda>_. 4" 1,
      unfolded p s eph, OF refl sample_ice]
  have "map2 (+) (replicate 32 (4 :: u8)) (replicate 32 3) = replicate 32 7"
    by code_simp
  then have secret: "diffie_hellman ref_prims (replicate 32 4) (replicate 32 3) = replicate 32 7"
    by (simp add: diffie_hellman_def)
  have start: "compute_check_start_delay 40 50000 (x :: (unit, toy) session) = from_micros 50040"
    if "ev_rtt x = rtt_new" for x
    using that by (simp add: compute_check_start_delay_def micros_of_def from_micros_def rtt_estimate_def rtt_new_def iter_min_def Let_def)
  have m: "sr_kind sample_request_msg = Some (StartConnectionReq (build_signed_request ref_prims [1] sample_call))"
      "sr_request_id sample_request_msg = 9" "sr_source_node_number sample_request_msg = 1"
    by (simp_all add: sample_request_msg_def)
  show "se_tasks (session_step ref_prims (sample_hub sample_pair) quiet_juice toy_quiche
      (SvRequest sample_request_msg (\<lambda>_. 4)) sample_session) = [sample_task]"
    "se_receivers (session_step ref_prims (sample_hub sample_pair) quiet_juice toy_quiche
      (SvRequest sample_request_msg (\<lambda>_. 4)) sample_session)"
    using s by (simp_all add: m handled_def handle_hub_request_def accepted_request [OF sample_fetch admit a]
        p secret start sample_task_def)
qed

theorem accepted_connections_are_authorised_witness:
  "\<exists>secret. authorised ref_prims 2 sample_seed 1 secret"
proof -
  let ?step = "session_step ref_prims (sample_hub sample_pair) quiet_juice toy_quiche"
  define s1 where "s1 = ?step (SvRequest sample_request_msg (\<lambda>_. 4)) sample_session"
  have t: "se_tasks s1 = [sample_task]" by (simp add: s1_def sample_task_spawned del: session_step.simps)
  have r: "se_receivers s1" by (simp add: s1_def sample_task_spawned del: session_step.simps)
  obtain cipher where c: "new_answerer ref_prims (replicate 32 7) 1 = Ok cipher"
    by (simp add: new_answerer_def new_cipher_def derive_direction_keys_def ref_prims_def Let_def)
  have "Ok \<lparr>udp_peer_node_number = 1, udp_connection_id = 1, udp_agent = 0, udp_cipher = cipher\<rparr> \<in>
      set (se_incoming_udp (?step (SvTask 0 []) s1))"
    using r by (simp add: run_task_def t) (simp add: sample_task_def run_udp_task_def on_world_def
        udp_connect_answerer_def ice_answerer_connect_def quiet_juice_def ice_wait_def pbind_def perr_def c)
  then have d: "Ok \<lparr>udp_peer_node_number = 1, udp_connection_id = 1, udp_agent = 0, udp_cipher = cipher\<rparr> \<in>
      set (se_incoming_udp (run_events ?step [SvRequest sample_request_msg (\<lambda>_. 4), SvTask 0 []] sample_session))"
    by (simp add: s1_def del: session_step.simps)
  have reg: "require_registered_or_activated (sy_node (sample_sys (InnerActivated sample_reg sample_pair)))
      = Ok sample_reg"
    by (simp add: sample_sys_def sample_node_def require_registered_or_activated_def)
  have "nd_signing_key (sy_node (sample_sys (InnerActivated sample_reg sample_pair))) = sample_seed"
    by (simp add: sample_sys_def sample_node_def)
  then show ?thesis
    using accepted_connections_are_authorised [OF ref_ed25519_correct sample_serving reg] d by fastforce
qed


subsection \<open>Answers\<close>

text \<open>An ICE library none of whose calls panics.\<close>

definition juice_total :: "'w juice \<Rightarrow> bool" where
  "juice_total J \<longleftrightarrow> (\<forall>c. no_panic (j_new J c)) \<and> (\<forall>a. no_panic (j_gather_candidates J a) \<and>
     no_panic (j_gathering_done J a) \<and> no_panic (j_get_local_description J a) \<and>
     (\<forall>d. no_panic (j_set_remote_description J a d)))"

lemma calm_gets_bind [calm]: "(\<And>x. no_panic (k x)) \<Longrightarrow> no_panic (pbind (gets f) k)"
  by (simp add: no_panic_def pbind_def)

lemma calm_on_world [calm]: "no_panic m \<Longrightarrow> no_panic (on_world m)"
  by (auto simp: no_panic_def on_world_def split: prod.splits) (metis fst_conv)

lemma parse_host_port_total: "parse_host_port a d \<noteq> Panic"
  by (auto simp: parse_host_port_def rust_simps split: option.splits)

lemma ice_config_total: "build_ice_servers_config c \<noteq> Panic"
  by (auto simp: build_ice_servers_config_def rust_simps Let_def parse_host_port_total)

lemma calm_ice_answerer:
  assumes "juice_total J" shows "no_panic (ice_answerer_new J d c)"
  using assms ice_config_total unfolding ice_answerer_new_def gather_def
  by (auto intro!: calm calm_lift simp: juice_total_def split: prod.split)

lemma calm_answer_connection:
  assumes "juice_total J" shows "no_panic (answer_connection P J rand caller p)"
  unfolding answer_connection_def Let_def by (auto intro!: calm calm_ice_answerer assms)

lemma admit_total: "admit_caller P r caller req \<noteq> Panic"
  by (auto simp: admit_caller_def rust_simps req.verify_total)

lemma fetch_total:
  assumes "ed25519_correct P" and "nr_auth_token (pcf_registration (se_config s)) = Some tk"
  shows "fst (fetch_serving_roster P H s) \<noteq> Panic"
proof -
  have "no_panic (get_and_verify_roster P H (pcf_registration (se_config s)) (public_key_spki P sk))" for sk
    unfolding get_and_verify_roster_def using verify_own_total [OF assms(1)]
    by (auto intro!: calm calm_client(3) [OF assms(2)] calm_lift simp: map_err_iff)
  then show ?thesis
    unfolding fetch_serving_roster_def by (intro calm_gets) (auto intro!: calm)
qed

text \<open>What is sent, and whether the stream takes it.\<close>

definition outbox :: "('w, 'q) session \<Rightarrow> _" where
  "outbox s = (se_sent s, se_stream_open s)"

lemma more_outbox:
  fixes s t :: "('w, 'q) session"
  shows "env.more s = env.more t \<Longrightarrow> outbox s = outbox t"
  unfolding outbox_def using more_eq(3,4) [of s t] by simp

lemma outbox_calls [preserves_rules]:
  "preserves outbox (fetch_serving_roster P H)" "preserves outbox (on_world m)"
  "preserves outbox (answer_connection P J rand caller p)"
proof -
  show f: "preserves outbox (fetch_serving_roster P H)" and w: "preserves outbox (on_world m)" for m
    by (rule preserves_more, rule preserves_rules, erule more_outbox)+
  have "preserves outbox (modify (\<lambda>s. s\<lparr>se_connection_id_counter := n\<rparr>))" for n
    by (rule preserves_modify) (simp add: outbox_def)
  then show "preserves outbox (answer_connection P J rand caller p)"
    unfolding answer_connection_def by (auto intro!: preserves_rules w simp: Let_def)
qed

text \<open>The answer to a request: of its kind, or an error text.\<close>

fun answers :: "serving_request_kind \<Rightarrow> serving_response_kind \<Rightarrow> bool" where
  "answers (PairNodesReq _) (PairNodesResp _) = True"
| "answers (RosterCosignReq _) (RosterCosignResp _) = True"
| "answers (StartConnectionReq _) (StartConnectionResp _) = True"
| "answers _ _ = False"

definition answer_ok :: "i64 \<Rightarrow> serving_request_kind \<Rightarrow> serving_response \<Rightarrow> bool" where
  "answer_ok i k resp \<longleftrightarrow> sp_request_id resp = i \<and>
     (case sp_kind resp of None \<Rightarrow> sp_error resp \<noteq> [] | Some rk \<Rightarrow> sp_error resp = [] \<and> answers k rk)"

lemma respond_sends:
  assumes "se_stream_open s" and "result \<notin> {Panic, Err []}" and "\<And>x. answers k (kind x)"
    and "respond i kind result s = (r, t)"
  shows "r = Ok () \<and> (\<exists>resp. se_sent t = se_sent s @ [resp] \<and> answer_ok i k resp)"
proof (cases result)
  case (Ok x)
  with assms(1,3,4) show ?thesis
    by (auto simp: respond_def pcatch_def pbind_def send_answer_def send_response_def answer_ok_def)
next
  case (Err e)
  with assms(1,2,4) show ?thesis
    by (auto simp: respond_def pcatch_def pbind_def send_error_response_def send_response_def answer_ok_def)
qed (use assms(2) in simp)

lemma pair_nodes_results: "fst (pair_nodes P now rand msg n sk es) \<notin> {Panic, Err []}"
proof (cases "pm_payload msg")
  case (Some payload)
  then show ?thesis
    by (cases "position (\<lambda>ts. verify_mac P (ts_secret ts) (encode_pair_payload P payload) (pm_mac msg))
        (es_pairing_secrets (prune_expired now es))")
      (simp_all add: pair_nodes_def Let_def del: verify_mac_iff prune_simps)
qed (simp add: pair_nodes_def)

lemma roster_cosign_results: "fst (roster_cosign P req n sk es) \<notin> {Panic, Err []}"
  by (auto simp: roster_cosign_def cosign_answer_def Let_def rust_simps)

text \<open>The part of a connection request that may fail.\<close>

definition open_answer ::
  "prims \<Rightarrow> 'w hub \<Rightarrow> 'w juice \<Rightarrow> (nat \<Rightarrow> u8) \<Rightarrow> i32 \<Rightarrow> start_connection_request \<Rightarrow>
   (('w, 'q) session, request_payload \<times> start_connection_response \<times> answer_task, string) prog"
where
  "open_answer P H J rand caller req =
     pbind (fetch_serving_roster P H) (\<lambda>r.
     pbind (lift (admit_caller P r caller req)) (\<lambda>payload.
     pbind (answer_connection P J rand caller payload) (\<lambda>(resp, task).
     ret (payload, resp, task))))"

lemma open_answer_outbox: "preserves outbox (open_answer P H J rand caller req)"
  unfolding open_answer_def by (auto intro!: preserves_rules)

lemma open_answer_total:
  assumes "ed25519_correct P" and "juice_total J"
    and "nr_auth_token (pcf_registration (se_config s)) = Some tk"
  shows "open_answer P H J rand caller req s \<noteq> (Panic, t)"
proof -
  have "fetch_serving_roster P H s \<noteq> (Panic, u)" for u
    using fetch_total [OF assms(1,3), of H] by (metis fst_conv)
  moreover have "answer_connection P J rand caller p u \<noteq> (Panic, v)" for p u v
    by (rule no_panicD [OF calm_answer_connection [OF assms(2)]])
  ultimately show ?thesis
    by (auto simp: open_answer_def rust_simps admit_total)
qed

lemma open_answer_text: "open_answer P H J rand caller req s \<noteq> (Err [], t)"
proof -
  have "fetch_serving_roster P H s \<noteq> (Err [], u)" for u
    by (auto simp: fetch_serving_roster_def rust_simps roster_refusal_def
        split: hub_error.splits roster_error.splits)
  moreover have "answer_connection P J rand caller p u \<noteq> (Err [], v)" for p u v
    by (auto simp: answer_connection_def rust_simps Let_def)
  ultimately show ?thesis
    by (auto simp: open_answer_def rust_simps admit_caller_def)
qed


lemma start_connection_eq:
  "handle_start_connection_request P H J rand i caller req =
     pcatch (open_answer P H J rand caller req)
       (\<lambda>(payload, resp, task).
         pbind (send_answer i (StartConnectionResp resp)) (\<lambda>sent.
         if sent then spawn_answer payload task else ret ()))
       (send_error_response i)"
  by (simp add: handle_start_connection_request_def open_answer_def)

lemma start_connection_answer:
  assumes "ed25519_correct P" and "juice_total J"
    and "nr_auth_token (pcf_registration (se_config s)) = Some tk"
    and h: "handle_start_connection_request P H J rand i caller req s = (res, t)"
  shows "res = Ok () \<and> (se_stream_open s \<longrightarrow>
    (\<exists>resp. se_sent t = se_sent s @ [resp] \<and> answer_ok i (StartConnectionReq req) resp))"
proof -
  obtain r v where v: "open_answer P H J rand caller req s = (r, v)" by fastforce
  have o: "se_sent v = se_sent s" "se_stream_open v = se_stream_open s"
    using preservesD [OF open_answer_outbox v] by (simp_all add: outbox_def)
  have r: "r \<noteq> Panic" "r \<noteq> Err []"
    using v open_answer_total [OF assms(1-3)] open_answer_text by metis+
  show ?thesis
    using h v r o unfolding start_connection_eq
    by (cases r) (auto simp: pcatch_def pbind_def send_answer_def send_error_response_def send_response_def
        spawn_answer_def answer_ok_def split: if_splits)
qed

lemma endorsing_answer:
  fixes s :: "('w, 'q) session"
  assumes "\<And>x. answers k (kind x)" and "fst (f s) \<notin> {Panic, Err []}"
    and "pbind (gets id) (\<lambda>s. case f s of (result, es) \<Rightarrow>
      pbind (modify (\<lambda>s. s\<lparr>se_endorsing := es\<rparr>)) (\<lambda>_. respond i kind result)) s = (res, t)"
  shows "res = Ok () \<and> (se_stream_open s \<longrightarrow>
    (\<exists>resp. se_sent t = se_sent s @ [resp] \<and> answer_ok i k resp))"
proof -
  obtain result es where f: "f s = (result, es)" by fastforce
  then have r: "result \<notin> {Panic, Err []}" using assms(2) by simp
  have h: "respond i kind result (s\<lparr>se_endorsing := es\<rparr>) = (res, t)"
    using assms(3) f by (simp add: pbind_def)
  show ?thesis
  proof (cases "se_stream_open s")
    case True
    then show ?thesis using respond_sends [OF _ r assms(1) h] by simp
  next
    case False
    then show ?thesis
      using r h by (cases result) (auto simp: respond_def pcatch_def pbind_def send_answer_def
          send_error_response_def send_response_def)
  qed
qed

lemma request_answer:
  assumes "ed25519_correct P" and "juice_total J"
    and "nr_auth_token (pcf_registration (se_config s)) = Some tk"
    and h: "handle_hub_request P H J rand request s = (res, t)"
  shows "res = Ok () \<and> (\<forall>k. sr_kind request = Some k \<and> (\<forall>usec. k \<noteq> Welcome usec) \<and> se_stream_open s \<longrightarrow>
    (\<exists>resp. se_sent t = se_sent s @ [resp] \<and> answer_ok (sr_request_id request) k resp))"
proof (cases "sr_kind request")
  case (Some k)
  show ?thesis
  proof (cases k)
    case (PairNodesReq m)
    have "res = Ok () \<and> (se_stream_open s \<longrightarrow>
        (\<exists>resp. se_sent t = se_sent s @ [resp] \<and> answer_ok (sr_request_id request) k resp))"
      by (rule endorsing_answer [where kind = PairNodesResp and f = "\<lambda>s. pair_nodes P (ev_now s) rand m
            (se_node_number s) (se_signing_key s) (se_endorsing s)"])
        (use h Some in \<open>auto simp: PairNodesReq handle_hub_request_def pair_nodes_results simp del: insert_iff\<close>)
    then show ?thesis using Some by simp
  next
    case (RosterCosignReq m)
    have "res = Ok () \<and> (se_stream_open s \<longrightarrow>
        (\<exists>resp. se_sent t = se_sent s @ [resp] \<and> answer_ok (sr_request_id request) k resp))"
      by (rule endorsing_answer [where kind = RosterCosignResp and f = "\<lambda>s. roster_cosign P m
            (se_node_number s) (se_signing_key s) (se_endorsing s)"])
        (use h Some in \<open>auto simp: RosterCosignReq handle_hub_request_def roster_cosign_results simp del: insert_iff\<close>)
    then show ?thesis using Some by simp
  next
    case (StartConnectionReq req)
    then show ?thesis
      using start_connection_answer [OF assms(1-3), of H rand "sr_request_id request"
          "sr_source_node_number request" req res t] h Some by (simp add: handle_hub_request_def)
  next
    case (Welcome usec)
    then show ?thesis
      using h Some by (auto simp: handle_hub_request_def handle_welcome_def pbind_def observe_rtt_def Let_def)
  qed
qed (use h in \<open>simp add: handle_hub_request_def\<close>)

text \<open>
  Every request is answered, once and under its own id.  While the stream takes
  responses, the handling of a pairing, cosigning or connection request never fails or
  panics and sends exactly one response, which carries the id of the request and either an
  answer of the request's kind and no error or a non-empty error text and no answer.
\<close>

theorem requests_are_answered_once:
  fixes s :: "('w, 'q) session"
  assumes "ed25519_correct P" and "juice_total J"
    and "nr_auth_token (pcf_registration (se_config s)) = Some tk" and "se_stream_open s"
    and "sr_kind request = Some k" and "\<And>usec. k \<noteq> Welcome usec"
    and "handle_hub_request P H J rand request s = (res, t)"
  shows "res = Ok () \<and> (\<exists>resp. se_sent t = se_sent s @ [resp] \<and>
    sp_request_id resp = sr_request_id request \<and>
    (case sp_kind resp of
       None \<Rightarrow> sp_error resp \<noteq> []
     | Some rk \<Rightarrow> sp_error resp = [] \<and> answers k rk))"
  using request_answer [OF assms(1-3,7)] assms(4-6) by (simp add: answer_ok_def)

lemma quiet_juice_total: "juice_total quiet_juice"
  by (simp add: juice_total_def quiet_juice_def no_panic_def)

theorem requests_are_answered_once_witness:
  "\<exists>resp. se_sent (snd (handle_hub_request ref_prims (sample_hub sample_pair) quiet_juice (\<lambda>_. 4)
      sample_request_msg sample_session :: (unit, serving_error) result \<times> _)) = [resp] \<and>
    sp_request_id resp = 9"
proof -
  obtain res t where t: "handle_hub_request ref_prims (sample_hub sample_pair) quiet_juice (\<lambda>_. 4)
      sample_request_msg sample_session = ((res :: (unit, serving_error) result), t)" by fastforce
  have s: "nr_auth_token (pcf_registration (se_config sample_session)) = Some ''token''"
      "se_stream_open sample_session" "se_sent sample_session = []"
    by (simp_all add: sample_session_def session_new_def)
  show ?thesis
    using requests_are_answered_once [OF ref_ed25519_correct quiet_juice_total s(1,2) _ _ t] s(3) t
    by (auto simp: sample_request_msg_def)
qed


subsection \<open>The end of a session\<close>

lemma open_total:
  assumes "nr_auth_token reg = Some tk"
  shows "no_panic (open_serving_connection H a reg)"
proof -
  have "add_auth_metadata H reg \<noteq> Panic"
    using assms by (simp add: add_auth_metadata_def rust_simps Let_def)
  then show ?thesis
    unfolding open_serving_connection_def hub_start_serving_def
    by (auto intro!: calm calm_lift no_panic_call_rpc)
qed

definition told :: "('w, 'q) session_event \<Rightarrow> (unit, serving_error) result \<Rightarrow> bool" where
  "told ev r \<longleftrightarrow>
     (\<exists>cmd rand. ev = SvCommand cmd rand \<and> (cmd = None \<or> cmd = Some CmdShutdown) \<and> r = Ok ()) \<or>
     (\<exists>e. r = Err (ServingHub e) \<and> hub_is_unauthenticated e \<and>
       (\<exists>status. ev = SvStreamError status \<or> (\<exists>jitter. ev = SvAttempt jitter)))"

lemma handled_runs:
  assumes "preserves phase_of m" and "fst (m s) \<noteq> Panic"
  shows "se_phase (handled m s) = se_phase s"
  using handled_phase [OF assms(1), of s] assms(2) by (simp add: phase_of_def)

lemma step_end:
  assumes "ed25519_correct P" and "juice_total J"
    and tk: "nr_auth_token (pcf_registration (se_config s)) = Some tk"
    and run: "running (se_phase s)" and fin: "se_phase (session_step P H J Q ev s) = Ended r"
  shows "told ev r"
proof -
  have run: "running (se_phase s)" "\<And>q. Ended q \<noteq> se_phase s"
    using run by (simp, cases "se_phase s") auto
  show ?thesis
  proof (cases ev)
    case (SvCommand cmd rand)
    then show ?thesis
      using command_phase [of rand cmd s] run fin by (auto simp: phase_of_def told_def ended_def)
  next
    case (SvCheckIn)
    have "fst (send_check_in s :: (unit, serving_error) result \<times> _) \<noteq> Panic"
      by (simp add: send_check_in_def send_answer_def send_response_def pbind_def)
    then have "se_phase (handled send_check_in s) = se_phase s"
      by (rule handled_runs [OF preserves_phase [OF standing_sending(4)]])
    then show ?thesis using run fin by (auto simp: SvCheckIn split: if_splits)
  next
    case (SvRequest request rand)
    have "fst (handle_hub_request P H J rand request s :: (unit, serving_error) result \<times> _) \<noteq> Panic"
      using request_answer [OF assms(1,2) tk, of H rand request]
      by (cases "handle_hub_request P H J rand request s :: (unit, serving_error) result \<times> _") fastforce
    then have "se_phase (handled (handle_hub_request P H J rand request) s) = se_phase s"
      by (rule handled_runs [OF request_phase])
    then show ?thesis using run fin by (auto simp: SvRequest split: if_splits)
  next
    case (SvStreamError e)
    then show ?thesis
      using run fin by (auto simp: on_stream_error_def told_def ended_def disconnected_def split: if_splits)
  next
    case (SvAttempt jitter)
    have "fst (open_serving_connection H (pcf_hub_addr (se_config s)) (pcf_registration (se_config s)) s) \<noteq> Panic"
      by (rule calm_at [OF open_total [OF tk]])
    moreover from run(1) fin obtain d where d: "se_phase s = Connecting d"
        "se_phase (on_attempt H jitter d s) = Ended r"
      using run(2) [of r] by (auto simp: SvAttempt split: phase.splits)
    ultimately have "\<exists>e. r = Err (ServingHub e) \<and> hub_is_unauthenticated e"
      using attempt_phase [of H jitter d s] by (auto simp: ended_def)
    then show ?thesis by (auto simp: SvAttempt told_def)
  next
    case (SvTask i evs)
    then show ?thesis using task_phase [of P J Q evs i s] run fin by (simp add: phase_of_def)
  qed (use run fin in \<open>auto simp: disconnected_def split: phase.splits if_splits\<close>)
qed

lemma identity_token: "identity t = identity s \<Longrightarrow> se_config t = se_config s"
  by (simp add: identity_def)

lemma run_end:
  assumes "ed25519_correct P" and "juice_total J"
    and "nr_auth_token (pcf_registration (se_config s)) = Some tk" and "running (se_phase s)"
    and "se_phase (run_events (session_step P H J Q) evs s) = Ended r"
  shows "\<exists>ev \<in> set evs. told ev r"
  using assms(3-5)
proof (induction evs arbitrary: s)
  case (Cons ev evs)
  show ?case
  proof (cases "running (se_phase (session_step P H J Q ev s))")
    case True
    then show ?thesis
      using Cons.IH [OF _ True] Cons.prems identity_token [OF step_identity [of P H J Q ev s]] by auto
  next
    case False
    then obtain r' where r': "se_phase (session_step P H J Q ev s) = Ended r'"
      by (cases "se_phase (session_step P H J Q ev s)") auto
    then have "r' = r" using Cons.prems(3) run_ended [OF False] by auto
    then show ?thesis using step_end [OF assms(1,2) Cons.prems(1,2)] r' by auto
  qed
qed auto

lemma started_token:
  assumes "start_serving H n = (Ok s, n')"
  shows "\<exists>tk. nr_auth_token (pcf_registration (se_config s)) = Some tk"
proof -
  obtain reg where "nr_auth_token reg \<noteq> None" "se_config s = \<lparr>pcf_hub_addr = nd_hub_addr (sy_node n),
      pcf_registration = reg\<rparr>"
    using assms by (auto simp: start_serving_def open_serving_connection_def hub_start_serving_def
        rust_simps Let_def add_auth_metadata_def) (auto simp: session_new_def)
  then show ?thesis by auto
qed

lemma session_new_phase:
  "se_phase (session_new o1 sk g n c e) = Serving \<and> se_connected (session_new o1 sk g n c e)"
  by (simp add: session_new_def)

lemma started_phase:
  assumes "start_serving H n = (Ok s, n')"
  shows "se_phase s = Serving" "connected_ok s"
proof -
  obtain reg where "s = session_new (se_opened_at s) (nd_signing_key (sy_node n)) (nr_connectivity_group_id reg)
      (nr_node_number reg) \<lparr>pcf_hub_addr = nd_hub_addr (sy_node n), pcf_registration = reg\<rparr> n'"
    using started [OF assms] by blast
  then have s: "se_phase s = Serving \<and> se_connected s"
    by (metis session_new_phase)
  then show "se_phase s = Serving" "connected_ok s" by (simp_all add: connected_ok_def)
qed

text \<open>
  C29: a session ends only when it is told to.  Whatever the hub does, and however often the
  stream drops, a session that was started ends only by a shutdown command or the loss of
  its last handle, and then with success, or because the hub answers that the node's
  credentials are not valid, and then with that error; it never panics.
\<close>

theorem session_ends_only_when_told:
  assumes "ed25519_correct P" and "juice_total J" and "start_serving H n = (Ok s, n')"
    and "se_phase (run_events (session_step P H' J Q) evs s) = Ended r"
  shows "r = Ok () \<and> (\<exists>cmd rand. SvCommand cmd rand \<in> set evs \<and> (cmd = None \<or> cmd = Some CmdShutdown)) \<or>
    (\<exists>e. r = Err (ServingHub e) \<and> hub_is_unauthenticated e)"
proof -
  obtain tk where "nr_auth_token (pcf_registration (se_config s)) = Some tk"
    using started_token [OF assms(3)] by blast
  from run_end [OF assms(1,2) this _ assms(4)] started_phase [OF assms(3)]
  show ?thesis by (auto simp: told_def)
qed

theorem session_ends_only_when_told_witness:
  "se_phase (run_events (session_step ref_prims (sample_hub sample_pair) quiet_juice toy_quiche)
     [SvStreamEnd, SvCommand (Some CmdShutdown) (\<lambda>_. 0)] sample_session) = Ended (Ok ()) \<and>
   (\<exists>cmd rand. SvCommand cmd rand \<in> set [SvStreamEnd :: (unit, toy) session_event,
      SvCommand (Some CmdShutdown) (\<lambda>_. 0)] \<and> (cmd = None \<or> cmd = Some CmdShutdown))"
proof -
  have e: "se_phase (run_events (session_step ref_prims (sample_hub sample_pair) quiet_juice toy_quiche)
     [SvStreamEnd, SvCommand (Some CmdShutdown) (\<lambda>_. 0)] sample_session) = Ended (Ok ())"
    by (simp add: sample_session_def session_new_def disconnected_def on_command_def dispatch_command_def ended_def)
  from session_ends_only_when_told [OF ref_ed25519_correct quiet_juice_total sample_serving e] e
  show ?thesis by blast
qed


subsection \<open>The handle\<close>

text \<open>
  A handle's answers are true, and there always is one.  While the session runs, the
  status names the node and group it was started for and says that it is connected exactly
  when it is serving, and a shutdown ends it with success.  Once the session has ended, for
  whatever reason, every call is refused as shut down.
\<close>

theorem handle_tells_the_truth:
  fixes s :: "('w, 'q) session"
  assumes "start_serving H n = (Ok s, n')"
    and "require_registered_or_activated (sy_node n) = Ok reg"
    and "t = run_events (session_step P H' J Q) evs s"
  shows "if running (se_phase t)
    then handle_status t = (Ok \<lparr>sst_connected = (se_phase t = Serving),
           sst_connectivity_group_id = nr_connectivity_group_id reg,
           sst_node_number = nr_node_number reg,
           sst_endorsing = endorsing_status_of (ev_now t) (se_endorsing t)\<rparr>, t) \<and>
         handle_shutdown t = (Ok (), t\<lparr>se_phase := Ended (Ok ())\<rparr>)
    else handle_status t = (Err SessionShutdown, t) \<and>
         handle_generate_activation_code rand profile t = (Err SessionShutdown, t) \<and>
         handle_shutdown t = (Err SessionShutdown, t)"
proof -
  obtain reg' where s: "require_registered_or_activated (sy_node n) = Ok reg'"
    "s = session_new (se_opened_at s) (nd_signing_key (sy_node n)) (nr_connectivity_group_id reg')
      (nr_node_number reg') \<lparr>pcf_hub_addr = nd_hub_addr (sy_node n), pcf_registration = reg'\<rparr> n'"
    using started [OF assms(1)] by blast
  have "identity s = (nd_signing_key (sy_node n), nr_node_number reg, nr_connectivity_group_id reg,
      \<lparr>pcf_hub_addr = nd_hub_addr (sy_node n), pcf_registration = reg\<rparr>)"
    using s(1) assms(2) by (subst s(2)) (simp add: identity_def session_new_def)
  then have t: "se_connectivity_group_id t = nr_connectivity_group_id reg" "se_node_number t = nr_node_number reg"
    using run_identity [of P H' J Q evs s] by (simp_all add: assms(3) identity_def)
  have c: "connected_ok t"
    unfolding assms(3) by (rule phases.run_inv [OF started_phase(2) [OF assms(1)]])
  show ?thesis
  proof (cases "running (se_phase t)")
    case True
    then have "se_connected t = (se_phase t = Serving)" using c by (simp add: connected_ok_def)
    with True t show ?thesis
      by (simp add: handle_status_def handle_shutdown_def call_session_def pbind_def dispatch_command_def
          on_command_def build_status_def ended_def)
  qed (simp add: handle_status_def handle_shutdown_def handle_generate_activation_code_def
      call_session_def pbind_def)
qed

theorem handle_tells_the_truth_witness:
  "sst_node_number (case fst (handle_status sample_session) of Ok st \<Rightarrow> st) = 2 \<and>
   sst_connected (case fst (handle_status sample_session) of Ok st \<Rightarrow> st)"
proof -
  have reg: "require_registered_or_activated (sy_node (sample_sys (InnerActivated sample_reg sample_pair)))
      = Ok sample_reg"
    by (simp add: sample_sys_def sample_node_def require_registered_or_activated_def)
  have "se_phase sample_session = Serving" by (simp add: sample_session_def session_new_def)
  then show ?thesis
    using handle_tells_the_truth [OF sample_serving reg, of sample_session ref_prims "sample_hub sample_pair"
        quiet_juice toy_quiche "[]" "\<lambda>_. 0" "undefined"] by simp
qed

subsection \<open>Reconnecting\<close>

definition doubling :: "duration \<Rightarrow> bool" where
  "doubling d \<longleftrightarrow> (\<exists>k. d = min (2 ^ k * BACKOFF_BASE) BACKOFF_CAP)"

definition backoff_ok :: "('w, 'q) session \<Rightarrow> bool" where
  "backoff_ok s \<longleftrightarrow> (case se_phase s of
     Connecting d \<Rightarrow> doubling d | BackingOff d _ \<Rightarrow> doubling d | _ \<Rightarrow> True)"

lemma doubling_next: "doubling d \<Longrightarrow> doubling (snd (next_delay jitter d))"
proof -
  assume "doubling d"
  then obtain k where "d = min (2 ^ k * BACKOFF_BASE) BACKOFF_CAP" by (auto simp: doubling_def)
  then have "snd (next_delay jitter d) = min (2 ^ Suc k * BACKOFF_BASE) BACKOFF_CAP"
    by (simp add: next_delay_def BACKOFF_BASE_def BACKOFF_CAP_def from_secs_def min_def)
  then show ?thesis unfolding doubling_def by blast
qed

lemma doubling_base: "doubling BACKOFF_BASE"
  by (auto simp: doubling_def BACKOFF_BASE_def BACKOFF_CAP_def from_secs_def intro: exI [of _ 0])

lemma doubling_bounds: "doubling d \<Longrightarrow> BACKOFF_BASE \<le> d \<and> d \<le> BACKOFF_CAP"
  by (auto simp: doubling_def BACKOFF_BASE_def BACKOFF_CAP_def from_secs_def min_def)

lemma backoff_phase: "se_phase t = se_phase s \<Longrightarrow> backoff_ok t = backoff_ok s"
  by (simp add: backoff_ok_def)

lemma failed_attempt:
  assumes "on_attempt H jitter d s = t" and "se_phase t = BackingOff d' u"
    and "se_phase s = Connecting d"
  shows "d' = snd (next_delay jitter d) \<and> u = ev_now t + fst (next_delay jitter d)"
proof -
  obtain r v where "open_serving_connection H (pcf_hub_addr (se_config s))
      (pcf_registration (se_config s)) s = (r, v)" by fastforce
  then show ?thesis
    using assms by (cases r) (auto simp: on_attempt_def ended_def split: if_splits prod.splits)
qed

text \<open>What a step makes of the phase, apart from attempts.\<close>

lemma step_phase:
  assumes "\<And>jitter. ev \<noteq> SvAttempt jitter"
  shows "se_phase (session_step P H J Q ev s) = se_phase s \<or>
    (\<exists>r. se_phase (session_step P H J Q ev s) = Ended r) \<or>
    se_phase (session_step P H J Q ev s) = Connecting BACKOFF_BASE \<or>
    (\<exists>d u. ev = SvBackoffOver \<and> se_phase s = BackingOff d u \<and> u \<le> ev_now s \<and>
      se_phase (session_step P H J Q ev s) = Connecting d)"
proof (cases ev)
  case (SvCommand cmd rand)
  then show ?thesis using command_phase [of rand cmd s] by (auto simp: phase_of_def ended_def)
next
  case SvCheckIn
  then show ?thesis
    using handled_phase [OF preserves_phase [OF standing_sending(4)], of s]
    by (auto simp: phase_of_def ended_def)
next
  case (SvRequest request rand)
  then show ?thesis
    using handled_phase [OF request_phase, of P H J rand request s] by (auto simp: phase_of_def ended_def)
next
  case (SvTask i evs)
  then show ?thesis using task_phase [of P J Q evs i s] by (simp add: phase_of_def)
qed (use assms in \<open>auto simp: disconnected_def on_stream_error_def ended_def split: phase.splits\<close>)

lemma step_backoff:
  assumes "backoff_ok s" shows "backoff_ok (session_step P H J Q ev s)"
proof (cases "\<exists>jitter. ev = SvAttempt jitter")
  case False
  then show ?thesis
    using step_phase [of ev P H J Q s] assms by (auto simp: backoff_ok_def doubling_base)
next
  case True
  then obtain jitter where ev: "ev = SvAttempt jitter" by blast
  show ?thesis
  proof (cases "\<exists>d. se_phase s = Connecting d")
    case True
    then obtain d where d: "se_phase s = Connecting d" by blast
    have "backoff_ok (on_attempt H jitter d s)"
    proof (cases "se_phase (on_attempt H jitter d s)")
      case (BackingOff d' u)
      then show ?thesis
        using failed_attempt [OF refl BackingOff d] assms d
        by (simp add: backoff_ok_def doubling_next)
    next
      case (Connecting d')
      then show ?thesis using attempt_phase [of H jitter d s] by (auto simp: ended_def)
    qed (simp_all add: backoff_ok_def)
    then show ?thesis by (simp add: ev d)
  qed (use assms in \<open>auto simp: ev split: phase.splits\<close>)
qed

interpretation backoff: event_machine backoff_ok "session_step P H J Q" for P H J Q
  by unfold_locales (rule step_backoff)

text \<open>
  Reconnecting backs off.  In every reachable state the schedule of a session that lost
  its stream stands at one second doubled some number of times, up to thirty seconds; an
  attempt that fails advances it by one doubling and sets a deadline between 0.8 and 36
  seconds away, and the next attempt is not made before that deadline.
\<close>

theorem reconnects_back_off:
  fixes s :: "('w, 'q) session"
  assumes "start_serving H n = (Ok s, n')" and "jitter_ok jitter"
    and "t = run_events (session_step P H' J Q) evs s" and "se_phase t = Connecting d"
    and "u = session_step P H' J Q (SvAttempt jitter) t" and "se_phase u = BackingOff d' deadline"
  shows "(\<exists>k. d = min (2 ^ k * from_secs 1) (from_secs 30) \<and>
      d' = min (2 ^ Suc k * from_secs 1) (from_secs 30)) \<and>
    ev_now u + from_millis 800 \<le> deadline \<and> deadline \<le> ev_now u + from_secs 36 \<and>
    (ev_now u + passed < deadline \<longrightarrow>
      se_phase (run_events (session_step P H' J Q) [SvTime passed, SvBackoffOver, SvAttempt jitter] u) =
        BackingOff d' deadline)"
proof -
  have "backoff_ok s" using started_phase(1) [OF assms(1)] by (simp add: backoff_ok_def)
  then have "backoff_ok t" unfolding assms(3) by (rule backoff.run_inv)
  then have d: "doubling d" using assms(4) by (simp add: backoff_ok_def)
  have "se_phase (on_attempt H' jitter d t) = BackingOff d' deadline" "u = on_attempt H' jitter d t"
    using assms(4-6) by simp_all
  with failed_attempt [OF refl _ assms(4)] have f: "d' = snd (next_delay jitter d)"
      "deadline = ev_now u + jitter d" by (auto simp: next_delay_def)
  obtain k where k: "d = min (2 ^ k * from_secs 1) (from_secs 30)"
    using d by (auto simp: doubling_def BACKOFF_BASE_def BACKOFF_CAP_def)
  then have "d' = min (2 ^ Suc k * from_secs 1) (from_secs 30)"
    by (simp add: f next_delay_def BACKOFF_CAP_def from_secs_def min_def)
  moreover have "4 * d \<le> 5 * jitter d \<and> 5 * jitter d \<le> 6 * d"
    using assms(2) by (simp add: jitter_ok_def)
  then have "from_millis 800 \<le> jitter d \<and> jitter d \<le> from_secs 36"
    using doubling_bounds [OF d] by (simp add: BACKOFF_BASE_def BACKOFF_CAP_def from_secs_def from_millis_def)
  ultimately show ?thesis
    using k assms(6) f(2) by auto
qed

text \<open>A hub that is down.\<close>

definition down_hub :: "unit hub" where
  "down_hub = (sample_hub sample_pair)\<lparr>net_connect := \<lambda>_ _ w. (Some (Connection ''down''), w)\<rparr>"

theorem reconnects_back_off_witness:
  "se_phase (run_events (session_step ref_prims down_hub quiet_juice toy_quiche)
     [SvStreamEnd, SvAttempt id, SvTime (from_millis 900), SvBackoffOver, SvAttempt id] sample_session) =
   BackingOff (from_secs 2) (from_secs 1)"
proof -
  let ?run = "run_events (session_step ref_prims down_hub quiet_juice toy_quiche)"
  have s: "se_phase sample_session = Serving" "ev_now sample_session = 0"
      "se_config sample_session = \<lparr>pcf_hub_addr = ''hub'', pcf_registration = sample_reg\<rparr>"
    by (simp_all add: sample_session_def session_new_def)
  have c: "connect down_hub a x = (Err (Connection ''down''), x)" for a and x :: "(unit, toy) session"
    by (simp add: connect_def down_hub_def)
  have j: "jitter_ok id" by (simp add: jitter_ok_def)
  have t: "se_phase (?run [SvStreamEnd] sample_session) = Connecting BACKOFF_BASE"
    by (simp add: s disconnected_def)
  have u: "se_phase (session_step ref_prims down_hub quiet_juice toy_quiche (SvAttempt id)
      (?run [SvStreamEnd] sample_session)) = BackingOff (from_secs 2) (from_secs 1)"
    by (simp add: s disconnected_def on_attempt_def open_serving_connection_def pbind_def c
        hub_is_unauthenticated_def rpc_code_is_def next_delay_def BACKOFF_BASE_def BACKOFF_CAP_def from_secs_def)
  have n: "ev_now (session_step ref_prims down_hub quiet_juice toy_quiche (SvAttempt id)
      (?run [SvStreamEnd] sample_session)) = 0"
    by (simp add: s disconnected_def on_attempt_def open_serving_connection_def pbind_def c
        hub_is_unauthenticated_def rpc_code_is_def next_delay_def)
  show ?thesis
    using reconnects_back_off [OF sample_serving j refl t refl u, of "from_millis 900"] n
    by (simp add: from_secs_def from_millis_def del: session_step.simps)
qed

end
