(* ===== verification/Connect_Props.thy ===== *)
theory Connect_Props
  imports Connect Session_Props
begin

text \<open>
  The two ends of a connection together: an honest handshake gives both the same keys, a
  call reaches the peer it names or fails, both ends start their checks at the same time,
  and what a replayed datagram does.
\<close>

subsection \<open>The two ends of a connection\<close>

text \<open>X25519 public keys have 32 bytes.\<close>

definition x25519_sized :: "prims \<Rightarrow> bool" where
  "x25519_sized P \<longleftrightarrow> (\<forall>k. length k = 32 \<longrightarrow> length (x25519_public P k) = 32)"

lemma ephemeral_sized: "x25519_sized P \<Longrightarrow> length (x_public_key P (generate_ephemeral rand)) = 32"
  by (simp add: x25519_sized_def x_public_key_def generate_ephemeral_def fill_bytes_def)

text \<open>
  C7: an honest handshake completes and both ends derive the same keys.  A caller that is an
  unrevoked node of the roster the session fetched, signs its request under its key there
  and offers a usable ICE description is answered, once and under the id of its request.
  From that answer the caller computes the very secret, connection id and transport that
  the session's new task works with, so that the packet ciphers of the two ends, when they
  can be made, are paired in both directions.
\<close>

theorem both_ends_derive_the_same_keys:
  fixes s u :: "('w, 'q) session"
  assumes "ed25519_correct P" and "x25519_correct P" and "x25519_sized P" and "aead_correct P"
    and "fetch_serving_roster P H s = (Ok r, u)" and "se_stream_open s"
    and "find_node caller (ro_nodes r) = Some x" and "\<not> rn_revoked x"
    and "rn_public_key_spki x = public_key_spki P csk"
    and "key = generate_ephemeral rand" and "p = caller_payload P key tr me sdp stun rtt"
    and "decode_request P (encode_request P p) = Some p"
    and "\<And>q. decode_response P (encode_response P q) = Some q"
    and "ice_answerer_new J sdp stun (ev_world u) = (Ok ice, w)"
    and "handle_start_connection_request P H J rand' i caller (build_signed_request P csk p) s = (res, t)"
  shows "\<exists>resp task payload. res = Ok () \<and>
    se_sent t = se_sent s @ [\<lparr>sp_request_id = i, sp_error = [], sp_kind = Some (StartConnectionResp resp)\<rparr>] \<and>
    se_tasks t = se_tasks s @ [task] \<and> at_caller task = caller \<and> at_transport task = tr \<and>
    accept_answer P key (public_key_spki P (se_signing_key s)) resp = Ok (payload, at_secret task) \<and>
    rs_connection_id payload = at_connection_id task \<and> rs_answerer_sdp payload = ia_local_desc ice \<and>
    (\<forall>c a. new_caller P (at_secret task) (rs_connection_id payload) = Ok c \<and>
       new_answerer P (at_secret task) (at_connection_id task) = Ok a \<longrightarrow>
       ciphers_paired P c a \<and> ciphers_paired P a c)"
proof -
  define cid where "cid = se_connection_id_counter u"
  define akey where "akey = generate_ephemeral rand'"
  define q where "q = \<lparr>rs_connection_id = cid, rs_answerer_x25519_public_key = x_public_key P akey,
    rs_answerer_sdp = ia_local_desc ice\<rparr>"
  have p: "rq_stun_turn_config p = Some stun" "rq_caller_sdp p = sdp" "transport_of p = tr"
      "rq_caller_x25519_public_key p = x_public_key P key"
    by (simp_all add: assms(11)) (simp_all add: caller_payload_def)
  have core: "env.more u = env.more s" by (rule preservesD [OF fetch_core assms(5)])
  have u: "standing u = standing s" "se_sent u = se_sent s" "se_stream_open u"
    using more_eq [OF core] assms(6) by auto
  have admit: "admit_caller P r caller (build_signed_request P csk p) = Ok p"
    by (rule honest_caller_admitted [OF assms(1,7,8,9,12)]) (simp add: p assms(10) ephemeral_sized [OF assms(3)])
  note answer = answer_connection_Ok [of p stun J u ice w P rand' caller, unfolded p, OF refl assms(14),
      folded cid_def akey_def, folded q_def]
  have secret: "diffie_hellman P key (x_public_key P akey) = diffie_hellman P akey (x_public_key P key)"
    using assms(2) by (simp add: x25519_correct_def diffie_hellman_def x_public_key_def)
  have accept: "accept_answer P key (public_key_spki P (se_signing_key s))
      (build_signed_response P (se_signing_key u) q) = Ok (q, diffie_hellman P akey (x_public_key P key))"
    using resp.honest_accepted [OF honest_own_key [OF assms(1)] assms(13)] u(1) ephemeral_sized [OF assms(3), of rand', folded akey_def]
    by (simp add: accept_answer_def q_def secret standing_def)
  have open_v: "se_stream_open (u\<lparr>se_connection_id_counter := cid + 1, ev_world := w\<rparr>)"
    using u(3) by simp
  define n where "n = at_start (last (se_tasks t))"
  have t: "res = Ok ()" "se_sent t = se_sent s @ [\<lparr>sp_request_id = i, sp_error = [],
        sp_kind = Some (StartConnectionResp (build_signed_response P (se_signing_key u) q))\<rparr>]"
      "se_tasks t = se_tasks s @ [\<lparr>at_transport = tr, at_caller = caller, at_connection_id = cid,
        at_ice = ice, at_secret = diffie_hellman P akey (x_public_key P key), at_start = n\<rparr>]"
    using assms(15) u(2) u(1) [unfolded standing_def] unfolding accepted_request [OF assms(5) admit answer open_v] n_def
    by auto
  then show ?thesis
    using accept caller_answerer_paired [OF assms(4)]
    by (intro exI [of _ "build_signed_response P (se_signing_key u) q"]
        exI [of _ "\<lparr>at_transport = tr, at_caller = caller, at_connection_id = cid,
          at_ice = ice, at_secret = diffie_hellman P akey (x_public_key P key), at_start = n\<rparr>"]
        exI [of _ q]) (simp add: q_def, blast)
qed

lemma ref_x25519_sized: "x25519_sized ref_prims"
  by (simp add: x25519_sized_def)

theorem both_ends_derive_the_same_keys_witness:
  "\<exists>resp task payload. se_tasks (snd (handle_start_connection_request ref_prims (sample_hub sample_pair)
      quiet_juice (\<lambda>_. 4) 9 1 (build_signed_request ref_prims [1] sample_call) sample_session ::
        (unit, serving_error) result \<times> _)) = [task] \<and>
    accept_answer ref_prims (replicate 32 3) (public_key_spki ref_prims sample_seed) resp =
      Ok (payload, at_secret task) \<and> rs_connection_id payload = at_connection_id task"
proof -
  obtain res t where t: "handle_start_connection_request ref_prims (sample_hub sample_pair)
      quiet_juice (\<lambda>_. 4) 9 1 (build_signed_request ref_prims [1] sample_call) sample_session =
        ((res :: (unit, serving_error) result), t)"
    by fastforce
  have s: "se_stream_open sample_session" "se_tasks sample_session = []"
      "se_signing_key sample_session = sample_seed" "ev_world sample_session = ()"
    by (simp_all add: sample_session_def session_new_def)
  have x: "find_node 1 (ro_nodes sample_pair) = Some (fresh_node 1 [48, 1])"
      "\<not> rn_revoked (fresh_node 1 [48, 1])"
      "rn_public_key_spki (fresh_node 1 [48, 1]) = public_key_spki ref_prims [1]"
    by (simp_all add: find_node_def sample_pair_accepted(2) fresh_node_def public_key_spki_def)
  have k: "replicate 32 3 = generate_ephemeral (\<lambda>_. 3)"
    by (simp add: generate_ephemeral_def fill_bytes_def map_replicate_const)
  from both_ends_derive_the_same_keys [OF ref_ed25519_correct ref_x25519_correct ref_x25519_sized
      ref_aead_correct sample_fetch s(1) x k sample_call_def _ _ _ t] sample_ice s t
  show ?thesis by auto
qed


subsection \<open>Calls\<close>

text \<open>
  \<open>answered_by P me sk peer key cid secret\<close>: some roster with a valid history has this node
  and the peer as active members, and the peer signed, under the key it has there, the
  answer that the connection id and the secret come from.
\<close>

definition answered_by :: "prims \<Rightarrow> i32 \<Rightarrow> signing_seed \<Rightarrow> i32 \<Rightarrow> bytes \<Rightarrow> i64 \<Rightarrow> bytes \<Rightarrow> bool" where
  "answered_by P me sk peer key cid secret \<longleftrightarrow> (\<exists>r k (resp :: start_connection_response) payload.
     valid_history P r \<and> active_keys P r me = Some (ed_verifying_key P sk) \<and>
     active_keys P r peer = Some k \<and>
     ed_verify P k (ANSWERER_SIG_DOMAIN @ ss_signed_payload resp) (ss_signature resp) \<and>
     decode_response P (ss_signed_payload resp) = Some payload \<and>
     cid = rs_connection_id payload \<and>
     secret = x25519_dh P key (rs_answerer_x25519_public_key payload))"

lemma answered_byI:
  fixes resp :: start_connection_response
  assumes "valid_history P r" and "active_keys P r me = Some (ed_verifying_key P sk)"
    and "active_keys P r peer = Some k"
    and "ed_verify P k (ANSWERER_SIG_DOMAIN @ ss_signed_payload resp) (ss_signature resp)"
    and "decode_response P (ss_signed_payload resp) = Some payload"
  shows "answered_by P me sk peer key (rs_connection_id payload)
    (x25519_dh P key (rs_answerer_x25519_public_key payload))"
  using assms unfolding answered_by_def by blast

lemma accept_answer_Ok:
  assumes "accept_answer P key spki resp = Ok (payload, secret)" and "vk_from_der P spki = Inr k"
  shows "ed_verify P k (ANSWERER_SIG_DOMAIN @ ss_signed_payload resp) (ss_signature resp) \<and>
    decode_response P (ss_signed_payload resp) = Some payload \<and>
    secret = x25519_dh P key (rs_answerer_x25519_public_key payload)"
  using assms by (auto simp: accept_answer_def rust_simps resp.verify_iff response_signed_by_def
      diffie_hellman_def)

lemma connect_node: "connect H a s = (r, t) \<Longrightarrow> sy_node t = sy_node s"
  by (auto simp: connect_def split: prod.splits option.splits)

lemma negotiate_Ok:
  fixes s t :: "('w, 's) sys"
  assumes "ed25519_correct P" and "node_ok P (sy_node s)"
    and "negotiate P H J rand tr peer s = (Ok (cid, ice, secret), t)"
  shows "node_state_of (sy_node s) = Activated \<and> (\<exists>reg.
    ps_registration (nd_persisted (sy_node s)) = Some reg \<and>
    answered_by P (nr_node_number reg) (nd_signing_key (sy_node s)) peer (generate_ephemeral rand) cid secret)"
proof -
  let ?n = "sy_node s" and ?key = "generate_ephemeral rand"
  obtain reg u x v resp payload where n: "node_state_of ?n = Activated"
      "ps_registration (nd_persisted ?n) = Some reg" "connect H (nd_hub_addr ?n) s = (Ok (), u)"
      "find_peer_in_roster P H peer u = (Ok x, v)"
      "accept_answer P ?key (rn_public_key_spki x) resp = Ok (payload, secret)" "cid = rs_connection_id payload"
    using assms(3) unfolding negotiate_def Let_def by (auto simp: rust_simps)
  have u: "sy_node u = ?n" by (rule connect_node [OF n(3)])
  obtain reg' r k where v: "nd_inner (sy_node v) = InnerActivated reg' r" "member_in P (sy_node v) reg' r"
      "vk_from_der P (rn_public_key_spki x) = Inr k" "active_keys P r peer = Some k"
    using find_peer_returns_verified_peer [OF assms(1) _ n(4)] assms(2) u by auto
  have "nd_persisted (sy_node v) = nd_persisted ?n \<and> nd_signing_key (sy_node v) = nd_signing_key ?n"
    by (cases rule: find_peer_cases [OF n(4)]) (auto simp: u)
  moreover have "node_ok P (sy_node v)"
    using find_peer_ok [OF assms(1) _ n(4)] assms(2) u by simp
  ultimately have "reg' = reg" "nd_signing_key (sy_node v) = nd_signing_key ?n"
    using v(1) n(2) by (auto simp: node_ok_def registration_of_def)
  then show ?thesis
    using n(1,2,6) v(2,4) accept_answer_Ok [OF n(5) v(3)]
    by (auto simp: member_in_def intro!: answered_byI)
qed


definition answering_hub :: "unit hub" where
  "answering_hub = (sample_hub sample_pair)\<lparr>rpc_start_connection := \<lambda>_ _. answer
     (build_signed_response ref_prims [1] \<lparr>rs_connection_id = 5,
        rs_answerer_x25519_public_key = replicate 32 9, rs_answerer_sdp = ''v=0''\<rparr>)\<rparr>"


subsection \<open>Timing\<close>

text \<open>
  Both ends start their connectivity checks together.  The answerer delays its checks,
  from the instant of its answer, by half of the two hub round trips and the caller's wait;
  when the answer takes half of each round trip to arrive, that is when the caller, which
  waits 50 ms after the arrival, starts its own, up to the half microsecond that the
  request's unit loses.
\<close>

theorem checks_start_together:
  assumes "rtt_estimate (ev_now c) (ev_rtt c) = Some r1" and "0 < r1 div 1000" and "r1 div 1000 < 2 ^ 63"
    and "rtt_estimate (ev_now s) (ev_rtt s) = Some r2"
  shows "compute_check_start_delay (rtt_usec c) (of_nat (CALLER_ICE_START_DELAY div 1000)) s
      \<le> (r1 + r2) div 2 + CALLER_ICE_START_DELAY \<and>
    (r1 + r2) div 2 + CALLER_ICE_START_DELAY
      \<le> compute_check_start_delay (rtt_usec c) (of_nat (CALLER_ICE_START_DELAY div 1000)) s + 500"
proof -
  have "sint (of_nat n :: i64) = int n \<and> unat (of_nat n :: i64) = n" if "n < 2 ^ 63" for n
  proof -
    have "sint (word_of_int (int n) :: i64) = int n"
      unfolding sint_sbintrunc' using that by (intro signed_take_bit_int_eq_self) simp_all
    moreover have "unat (of_nat n :: i64) = n"
      using that by (simp add: unat_of_nat)
    ultimately show ?thesis by simp
  qed
  then have m: "micros_of (of_nat n) = Some (from_micros n)" if "n < 2 ^ 63" for n
    using that by (simp add: micros_of_def)
  have usec: "micros_of (rtt_usec c) = Some (from_micros (r1 div 1000))"
    using assms(1,3) m by (simp add: rtt_usec_def Let_def)
  have wait: "micros_of (of_nat (CALLER_ICE_START_DELAY div 1000)) = Some CALLER_ICE_START_DELAY"
    using m [of "CALLER_ICE_START_DELAY div 1000"]
    by (simp add: CALLER_ICE_START_DELAY_def from_millis_def from_micros_def)
  have "0 < from_micros (r1 div 1000)" using assms(2) by (simp add: from_micros_def)
  then have "compute_check_start_delay (rtt_usec c) (of_nat (CALLER_ICE_START_DELAY div 1000)) s =
      (from_micros (r1 div 1000) + r2) div 2 + CALLER_ICE_START_DELAY"
    by (simp add: compute_check_start_delay_def usec wait assms(4) Let_def)
  moreover have "from_micros (r1 div 1000) \<le> r1 \<and> r1 \<le> from_micros (r1 div 1000) + 999"
    using mod_less_divisor [of 1000 r1] div_mult_mod_eq [of r1 1000] by (simp add: from_micros_def)
  ultimately show ?thesis by linarith
qed

definition timed_env :: "duration \<Rightarrow> unit env" where
  "timed_env d = \<lparr>ev_world = (), ev_rtt = rtt_observe 0 d rtt_new, ev_now = 0\<rparr>"

theorem checks_start_together_witness:
  "compute_check_start_delay (rtt_usec (timed_env 40000700)) (of_nat (CALLER_ICE_START_DELAY div 1000))
     (timed_env 60000000) \<le> 100000350"
proof -
  have e: "rtt_estimate (ev_now (timed_env d)) (ev_rtt (timed_env d)) = Some d" for d
    by (simp add: timed_env_def rtt_observe_def rtt_new_def Let_def rtt_estimate_def iter_min_def fresh_at_def
        MAX_AGE_def MAX_SAMPLES_def from_secs_def)
  show ?thesis
    using checks_start_together [OF e _ _ e, of 40000700 60000000]
    by (simp add: CALLER_ICE_START_DELAY_def from_millis_def)
qed

subsection \<open>Replays\<close>

text \<open>
  A datagram that is replayed is delivered again.  A received packet changes nothing of
  the connection, so the same packet, read again while the link is up, yields the same
  message again; the sequence number it carries is not compared with any seen before.
\<close>

theorem replayed_datagrams_are_delivered:
  assumes "udp_recv P J (c, w) = (Ok m, (c', w'))"
    and "fst (j_recv J (udp_agent c) w') = fst (j_recv J (udp_agent c) w)"
    and "\<not> state_is_disconnected (udp_state J c w')"
  shows "c' = c \<and> fst (udp_recv P J (c', w')) = Ok m"
proof -
  obtain pkt v where r: "j_recv J (udp_agent c) w = (Some pkt, v)"
    using assms(1) by (cases "j_recv J (udp_agent c) w")
      (auto simp: udp_recv_def ice_recv_def perr_def split: if_splits option.splits)
  then have w: "c' = c" "w' = v" "decrypt P (udp_cipher c) pkt = Ok m"
    using assms(1) by (auto simp: udp_recv_def ice_recv_def perr_def rust_simps split: if_splits)
  obtain v' where "j_recv J (udp_agent c) w' = (Some pkt, v')"
    using assms(2) r by (cases "j_recv J (udp_agent c) w'") auto
  with w assms(3) show ?thesis by (simp add: udp_recv_def ice_recv_def perr_def)
qed

theorem replayed_datagrams_are_delivered_witness:
  "\<exists>c. fst (udp_recv ref_prims (quiet_juice\<lparr>j_recv := \<lambda>_ w. (Some (u64_to_le_bytes 0 @
       the (aes_encrypt ref_prims (de_aead_key (pc_decrypter (udp_cipher c)))
         (build_nonce (de_nonce_prefix (pc_decrypter (udp_cipher c))) 0) (build_aad 0) [9])), w)\<rparr>) (c, ())) = Ok [9]"
proof -
  define c where "c = \<lparr>udp_peer_node_number = 1, udp_connection_id = 5, udp_agent = 0,
    udp_cipher = \<lparr>pc_encrypter = new_encrypter [1] [2], pc_decrypter = new_decrypter [3] [4]\<rparr>\<rparr>"
  define J where "J = quiet_juice\<lparr>j_recv := \<lambda>_ w. (Some (u64_to_le_bytes 0 @
       the (aes_encrypt ref_prims (de_aead_key (pc_decrypter (udp_cipher c)))
         (build_nonce (de_nonce_prefix (pc_decrypter (udp_cipher c))) 0) (build_aad 0) [9])), w)\<rparr>"
  have d: "\<not> state_is_disconnected (udp_state J c ())"
    by (simp add: J_def udp_state_def quiet_juice_def from_ice_state_def state_is_disconnected_def)
  have "decrypt ref_prims (udp_cipher c) (u64_to_le_bytes 0 @
       the (aes_encrypt ref_prims (de_aead_key (pc_decrypter (udp_cipher c)))
         (build_nonce (de_nonce_prefix (pc_decrypter (udp_cipher c))) 0) (build_aad 0) [9])) = Ok [9]"
    by (simp add: decrypt_packet ref_prims_def)
  then have "udp_recv ref_prims J (c, ()) = (Ok [9], (c, ()))"
    using d by (simp add: udp_recv_def ice_recv_def perr_def) (simp add: J_def)
  from replayed_datagrams_are_delivered [OF this refl d] show ?thesis
    unfolding J_def by blast
qed

end
