(* ===== verification/Rust_Text.thy ===== *)
theory Rust_Text
  imports Rust_Std "HOL-Library.Sublist"
begin

text \<open>
  Text as Rust's standard library handles it, for the code that reads commands and
  addresses off the network: a \<open>str\<close> is its UTF-8 bytes, \<open>String::from_utf8\<close> and
  \<open>from_utf8_lossy\<close> decide which byte strings are text, \<open>trim\<close> removes Unicode white space
  at both ends, and \<open>strip_prefix\<close>, \<open>strip_suffix\<close> and \<open>contains\<close> look for substrings.
  \<open>Ipv4Addr\<close> and \<open>Ipv6Addr\<close> print as the library documents.
\<close>

subsection \<open>Bytes and text\<close>

definition bytes_str :: "bytes \<Rightarrow> string" where
  "bytes_str bs = map (\<lambda>b. char_of (unat b)) bs"

lemma bytes_str_of_str [simp]: "bytes_str (str_bytes s) = s"
proof -
  have "char_of (unat (of_nat (of_char c) :: u8)) = c" for c
    by (simp add: unat_of_nat)
  then show ?thesis by (simp add: bytes_str_def str_bytes_def comp_def)
qed

lemma str_bytes_bytes_str [simp]: "str_bytes (bytes_str bs) = bs"
proof -
  have "unat b < 256" for b :: u8
    using unsigned_less [of b, where 'a = nat] by simp
  then show ?thesis by (simp add: bytes_str_def str_bytes_def comp_def)
qed

lemma str_bytes_append [simp]: "str_bytes (a @ b) = str_bytes a @ str_bytes b"
  by (simp add: str_bytes_def)

lemma bytes_str_append [simp]: "bytes_str (a @ b) = bytes_str a @ bytes_str b"
  by (simp add: bytes_str_def)

lemma str_bytes_inj [simp]: "str_bytes a = str_bytes b \<longleftrightarrow> a = b"
  by (metis bytes_str_of_str)

lemma length_bytes_str [simp]: "length (bytes_str bs) = length bs"
  by (simp add: bytes_str_def)

lemma str_bytes_Nil [simp]: "str_bytes [] = []" "str_bytes s = [] \<longleftrightarrow> s = []"
  by (simp_all add: str_bytes_def)

subsection \<open>UTF-8\<close>

text \<open>
  The length of a character by its first byte (0: no character starts so), and the range
  of its second byte, which excludes overlong forms, surrogates and code points beyond
  \<open>0x10FFFF\<close>.
\<close>

definition utf8_width :: "u8 \<Rightarrow> nat" where
  "utf8_width b =
     (if b < 0x80 then 1 else if b < 0xC2 then 0 else if b < 0xE0 then 2
      else if b < 0xF0 then 3 else if b < 0xF5 then 4 else 0)"

definition utf8_cont :: "u8 \<Rightarrow> bool" where
  "utf8_cont b \<longleftrightarrow> 0x80 \<le> b \<and> b \<le> 0xBF"

definition utf8_second :: "u8 \<Rightarrow> u8 \<Rightarrow> bool" where
  "utf8_second a b \<longleftrightarrow>
     (if a = 0xE0 then 0xA0 \<le> b \<and> b \<le> 0xBF
      else if a = 0xED then 0x80 \<le> b \<and> b \<le> 0x9F
      else if a = 0xF0 then 0x90 \<le> b \<and> b \<le> 0xBF
      else if a = 0xF4 then 0x80 \<le> b \<and> b \<le> 0x8F
      else utf8_cont b)"

text \<open>The first character of a nonempty byte string, or the longest prefix of one that is
  cut short or goes wrong: its length and whether it is a character.\<close>

fun utf8_head :: "bytes \<Rightarrow> nat \<times> bool" where
  "utf8_head [] = (1, True)"
| "utf8_head (a # r) =
     (if utf8_width a = 0 then (1, False)
      else if utf8_width a = 1 then (1, True)
      else (case r of
              [] \<Rightarrow> (1, False)
            | b # r' \<Rightarrow>
                if \<not> utf8_second a b then (1, False)
                else if utf8_width a = 2 then (2, True)
                else (case r' of
                        [] \<Rightarrow> (2, False)
                      | c # r'' \<Rightarrow>
                          if \<not> utf8_cont c then (2, False)
                          else if utf8_width a = 3 then (3, True)
                          else (case r'' of
                                  [] \<Rightarrow> (3, False)
                                | d # _ \<Rightarrow> if utf8_cont d then (4, True) else (3, False)))))"

lemma utf8_head_pos: "0 < fst (utf8_head bs)"
  by (cases bs) (auto split: list.splits)

function utf8_valid :: "bytes \<Rightarrow> bool" where
  "utf8_valid bs \<longleftrightarrow>
     (if bs = [] then True
      else if snd (utf8_head bs) then utf8_valid (drop (fst (utf8_head bs)) bs) else False)"
  by auto
termination
  by (relation "measure length") (simp_all add: utf8_head_pos)

text \<open>The replacement character U+FFFD stands for each ill-formed piece.\<close>

function utf8_lossy :: "bytes \<Rightarrow> bytes" where
  "utf8_lossy bs =
     (if bs = [] then []
      else (if snd (utf8_head bs) then take (fst (utf8_head bs)) bs else [0xEF, 0xBF, 0xBD]) @
           utf8_lossy (drop (fst (utf8_head bs)) bs))"
  by auto
termination
  by (relation "measure length") (simp_all add: utf8_head_pos)

declare utf8_valid.simps [simp del] utf8_lossy.simps [simp del]

definition from_utf8 :: "bytes \<Rightarrow> string option" where
  "from_utf8 bs = (if utf8_valid bs then Some (bytes_str bs) else None)"

definition from_utf8_lossy :: "bytes \<Rightarrow> string" where
  "from_utf8_lossy bs = bytes_str (utf8_lossy bs)"

definition ascii :: "string \<Rightarrow> bool" where
  "ascii s \<longleftrightarrow> (\<forall>c\<in>set s. (of_char c :: nat) < 128)"

lemma utf8_lossy_valid: "utf8_valid bs \<Longrightarrow> utf8_lossy bs = bs"
proof (induction bs rule: utf8_valid.induct)
  case (1 bs)
  show ?case
  proof (cases "bs = []")
    case True
    then show ?thesis by (simp add: utf8_lossy.simps [of "[]"])
  next
    case False
    then have "snd (utf8_head bs)" "utf8_valid (drop (fst (utf8_head bs)) bs)"
      using "1.prems" utf8_valid.simps [of bs] by (simp_all split: if_splits)
    with 1 False show ?thesis by (subst utf8_lossy.simps) simp
  qed
qed

lemma utf8_head_append:
  "a \<noteq> [] \<Longrightarrow> snd (utf8_head a) \<Longrightarrow>
     utf8_head (a @ b) = utf8_head a \<and> fst (utf8_head a) \<le> length a"
  by (cases a) (auto split: list.splits if_splits)

lemma utf8_valid_append: "utf8_valid a \<Longrightarrow> utf8_valid (a @ b) \<longleftrightarrow> utf8_valid b"
proof (induction a rule: utf8_valid.induct)
  case (1 a)
  show ?case
  proof (cases "a = []")
    case False
    then have v: "snd (utf8_head a)" "utf8_valid (drop (fst (utf8_head a)) a)"
      using "1.prems" utf8_valid.simps [of a] by (simp_all split: if_splits)
    then have "utf8_valid (a @ b) \<longleftrightarrow> utf8_valid (drop (fst (utf8_head a)) a @ b)"
      using utf8_head_append [OF False] False by (subst utf8_valid.simps) simp
    with 1 False v show ?thesis by simp
  qed simp
qed

lemma utf8_valid_ascii_append:
  assumes "\<forall>b\<in>set as. b < 0x80"
  shows "utf8_valid (as @ bs) \<longleftrightarrow> utf8_valid bs"
  using assms
proof (induction as)
  case (Cons a as)
  then have "utf8_head (a # as @ bs) = (1, True)"
    by (simp add: utf8_width_def)
  with Cons show ?case
    by (subst utf8_valid.simps) simp
qed simp

lemma utf8_valid_Nil [simp]: "utf8_valid []"
  by (simp add: utf8_valid.simps)

lemma ascii_bytes: "ascii s \<longleftrightarrow> (\<forall>b\<in>set (str_bytes s). b < 0x80)"
proof -
  have "(of_nat (of_char c) :: u8) < 0x80 \<longleftrightarrow> (of_char c :: nat) < 128" for c
  proof -
    have "(of_char c :: nat) < 256" by simp
    then show ?thesis by (simp add: word_less_nat_alt unat_of_nat)
  qed
  then show ?thesis by (simp add: ascii_def str_bytes_def)
qed

lemma utf8_valid_ascii: "ascii s \<Longrightarrow> utf8_valid (str_bytes s)"
  using utf8_valid_ascii_append [of "str_bytes s" "[]"] by (simp add: ascii_bytes)

lemma ascii_append [simp]: "ascii (a @ b) \<longleftrightarrow> ascii a \<and> ascii b"
  by (auto simp: ascii_def)

lemma ascii_Cons [simp]: "ascii (c # s) \<longleftrightarrow> (of_char c :: nat) < 128 \<and> ascii s"
  by (auto simp: ascii_def)

lemma ascii_Nil [simp]: "ascii []"
  by (simp add: ascii_def)

lemma from_utf8_lossy_text [simp]:
  "utf8_valid (str_bytes s) \<Longrightarrow> from_utf8_lossy (str_bytes s) = s"
  by (simp add: from_utf8_lossy_def utf8_lossy_valid)

lemma from_utf8_iff: "from_utf8 bs = Some s \<longleftrightarrow> bs = str_bytes s \<and> utf8_valid bs"
  by (auto simp: from_utf8_def)

subsection \<open>Trimming\<close>

text \<open>The characters with the Unicode property \<open>White_Space\<close>, in UTF-8.\<close>

definition white_space :: "string list" where
  "white_space = map (map char_of)
     ([[9], [10], [11], [12], [13], [32], [0xC2, 0x85], [0xC2, 0xA0], [0xE1, 0x9A, 0x80]] @
      map (\<lambda>k. [0xE2, 0x80, k]) [0x80 ..< 0x8B] @
      [[0xE2, 0x80, 0xA8], [0xE2, 0x80, 0xA9], [0xE2, 0x80, 0xAF], [0xE2, 0x81, 0x9F],
       [0xE3, 0x80, 0x80 :: nat]])"

definition starting_with :: "'a list \<Rightarrow> 'a list \<Rightarrow> bool" where
  "starting_with s w \<longleftrightarrow> take (length w) s = w"

text \<open>Remove words from the front as long as one of them is there.\<close>

function strip_words :: "'a list list \<Rightarrow> 'a list \<Rightarrow> 'a list" where
  "strip_words ws s = (case find (\<lambda>w. w \<noteq> [] \<and> starting_with s w) ws of
     None \<Rightarrow> s
   | Some w \<Rightarrow> strip_words ws (drop (length w) s))"
  by auto
termination
proof (relation "measure (\<lambda>(ws, s). length s)")
  fix ws :: "'a list list" and s w
  assume "find (\<lambda>w. w \<noteq> [] \<and> starting_with s w) ws = Some w"
  then have "w \<noteq> []" "starting_with s w" using find_SomeD by fastforce+
  then have "s \<noteq> []" by (auto simp: starting_with_def)
  with \<open>w \<noteq> []\<close> show "((ws, drop (length w) s), (ws, s)) \<in> measure (\<lambda>(ws, s). length s)"
    by simp
qed simp

declare strip_words.simps [simp del]

definition trim :: "string \<Rightarrow> string" where
  "trim s = rev (strip_words (map rev white_space) (rev (strip_words white_space s)))"

lemma strip_words_suffix: "suffix (strip_words ws s) s"
proof (induction ws s rule: strip_words.induct)
  case (1 ws s)
  show ?case
  proof (cases "find (\<lambda>w. w \<noteq> [] \<and> starting_with s w) ws")
    case None
    then show ?thesis by (subst strip_words.simps) simp
  next
    case (Some w)
    then have "suffix (strip_words ws (drop (length w) s)) s"
      using "1.IH" suffix_drop suffix_order.trans by blast
    with Some show ?thesis by (subst strip_words.simps) simp
  qed
qed

lemma strip_words_none:
  "(\<And>w. w \<in> set ws \<Longrightarrow> \<not> starting_with s w) \<Longrightarrow> strip_words ws s = s"
  by (subst strip_words.simps) (auto simp: find_None split: option.splits dest: find_SomeD)

text \<open>What \<open>trim\<close> leaves is a contiguous piece of its argument.\<close>

lemma trim_infix: "\<exists>a b. s = a @ trim s @ b"
proof -
  obtain a where a: "s = a @ strip_words white_space s"
    using strip_words_suffix suffix_def by metis
  obtain b where "rev (strip_words white_space s) = b @ rev (trim s)"
    using strip_words_suffix suffix_def unfolding trim_def by (metis rev_rev_ident)
  then have "strip_words white_space s = trim s @ rev b"
    by (metis rev_append rev_rev_ident)
  with a show ?thesis by metis
qed

text \<open>A printable ASCII character neither begins nor ends white space.\<close>

definition visible :: "char \<Rightarrow> bool" where
  "visible c \<longleftrightarrow> 32 < (of_char c :: nat) \<and> (of_char c :: nat) < 127"

lemma white_space_ends:
  "w \<in> set white_space \<Longrightarrow> w \<noteq> [] \<and> \<not> visible (hd w) \<and> \<not> visible (last w)"
  by (auto simp: white_space_def visible_def upt_conv_Cons)

lemma newline_white_space:
  "[CHR 0x0A] \<in> set white_space"
  "w \<in> set white_space \<Longrightarrow> last w = CHR 0x0A \<Longrightarrow> w = [CHR 0x0A]"
proof -
  have nl: "char_of (10 :: nat) = CHR 0x0A" by code_simp
  show "[CHR 0x0A] \<in> set white_space"
    by (simp add: white_space_def nl)
  have "(of_char (last w) :: nat) = 10 \<Longrightarrow> w = [CHR 0x0A]" if "w \<in> set white_space"
    using that by (auto simp: white_space_def upt_conv_Cons nl)
  then show "w \<in> set white_space \<Longrightarrow> last w = CHR 0x0A \<Longrightarrow> w = [CHR 0x0A]" by simp
qed

lemma trim_visible:
  assumes "s \<noteq> []" and "visible (hd s)" and "visible (last s)"
  shows "trim s = s"
proof -
  have start: "\<not> starting_with t w" if "t \<noteq> []" "w \<noteq> []" "\<not> visible (hd w)" "visible (hd t)" for t w
    using that by (cases t; cases w) (auto simp: starting_with_def)
  have 1: "strip_words white_space s = s"
    using start [OF assms(1)] white_space_ends assms by (intro strip_words_none) blast
  have "strip_words (map rev white_space) (rev s) = rev s"
  proof (rule strip_words_none)
    fix w
    assume "w \<in> set (map rev white_space)"
    then obtain v where "v \<in> set white_space" "w = rev v" by auto
    then have "w \<noteq> []" "\<not> visible (hd w)"
      using white_space_ends by (auto simp: hd_rev)
    then show "\<not> starting_with (rev s) w"
      using start [of "rev s" w] assms by (simp add: hd_rev)
  qed
  with 1 show ?thesis by (simp add: trim_def)
qed

lemma trim_newline:
  assumes "s \<noteq> []" and "visible (hd s)" and "visible (last s)"
  shows "trim (s @ [CHR 0x0A]) = s"
proof -
  have start: "\<not> starting_with t w" if "t \<noteq> []" "w \<noteq> []" "\<not> visible (hd w)" "visible (hd t)" for t w
    using that by (cases t; cases w) (auto simp: starting_with_def)
  have 1: "strip_words white_space (s @ [CHR 0x0A]) = s @ [CHR 0x0A]"
  proof (rule strip_words_none)
    fix w assume "w \<in> set white_space"
    then show "\<not> starting_with (s @ [CHR 0x0A]) w"
      using start [of "s @ [CHR 0x0A]" w] white_space_ends assms by simp
  qed
  have tr: "trim s = s" "strip_words (map rev white_space) (rev s) = rev s"
  proof -
    show "trim s = s" using trim_visible [OF assms] .
    moreover have "strip_words white_space s = s"
      using start [OF assms(1)] white_space_ends assms by (intro strip_words_none) blast
    ultimately show "strip_words (map rev white_space) (rev s) = rev s"
      by (simp add: trim_def) (metis rev_rev_ident)
  qed
  have "strip_words (map rev white_space) (CHR 0x0A # rev s) = rev s"
  proof (cases "find (\<lambda>w. w \<noteq> [] \<and> starting_with (CHR 0x0A # rev s) w) (map rev white_space)")
    case None
    then have "\<not> starting_with (CHR 0x0A # rev s) [CHR 0x0A]"
      using newline_white_space(1) by (auto simp: find_None)
    then show ?thesis by (simp add: starting_with_def)
  next
    case (Some w)
    then obtain v where v: "v \<in> set white_space" "w = rev v" "w \<noteq> []"
        "starting_with (CHR 0x0A # rev s) w"
      using find_SomeD by fastforce
    then have "hd (rev v) = CHR 0x0A"
      by (cases "rev v") (auto simp: starting_with_def)
    with v have "last v = CHR 0x0A" by (simp add: hd_rev)
    with v newline_white_space(2) [of v] have "w = [CHR 0x0A]" by simp
    with Some show ?thesis by (subst strip_words.simps) (simp add: tr)
  qed
  with 1 show ?thesis by (simp add: trim_def)
qed


subsection \<open>Substrings\<close>

definition strip_prefix :: "string \<Rightarrow> string \<Rightarrow> string option" where
  "strip_prefix p s = (if starting_with s p then Some (drop (length p) s) else None)"

definition strip_suffix :: "string \<Rightarrow> string \<Rightarrow> string option" where
  "strip_suffix p s =
     (if length p \<le> length s \<and> drop (length s - length p) s = p
      then Some (take (length s - length p) s) else None)"

fun contains :: "'a list \<Rightarrow> 'a list \<Rightarrow> bool" where
  "contains [] w \<longleftrightarrow> w = []"
| "contains (x # xs) w \<longleftrightarrow> starting_with (x # xs) w \<or> contains xs w"

lemma starting_with_append [simp]: "starting_with (w @ s) w"
  by (simp add: starting_with_def)

lemma starting_with_iff: "starting_with s w \<longleftrightarrow> (\<exists>r. s = w @ r)"
  by (auto simp: starting_with_def) (metis append_take_drop_id)

lemma strip_prefix_iff: "strip_prefix p s = Some r \<longleftrightarrow> s = p @ r"
  by (auto simp: strip_prefix_def starting_with_def split: if_splits) (metis append_take_drop_id)

lemma strip_suffix_iff: "strip_suffix p s = Some r \<longleftrightarrow> s = r @ p"
  by (auto simp: strip_suffix_def split: if_splits) (metis append_take_drop_id)

lemma strip_suffix_append [simp]: "strip_suffix p (s @ p) = Some s"
  by (simp add: strip_suffix_iff)

lemma strip_suffix_None: "strip_suffix p s = None \<longleftrightarrow> \<not> suffix p s"
  by (cases "strip_suffix p s") (auto simp: suffix_def strip_suffix_iff)

lemma contains_iff: "contains s w \<longleftrightarrow> sublist w s"
proof (induction s)
  case (Cons x s)
  have "starting_with (x # s) w \<longleftrightarrow> prefix w (x # s)"
    by (auto simp: starting_with_iff prefix_def)
  with Cons show ?case by (simp add: sublist_Cons_right)
qed auto

subsection \<open>Numbers and addresses as text\<close>

definition nat_to_string :: "nat \<Rightarrow> string" where
  "nat_to_string n = to_radix 10 n"

definition u16_to_string :: "u16 \<Rightarrow> string" where
  "u16_to_string w = nat_to_string (unat w)"

definition i32_to_string :: "i32 \<Rightarrow> string" where
  "i32_to_string w = int_to_string (sint w)"

text \<open>\<open>Ipv4Addr\<close>: dotted decimals.\<close>

definition ipv4_text :: "bytes \<Rightarrow> string" where
  "ipv4_text bs = concat (map (\<lambda>i. (if i = 0 then [] else ''.'') @ nat_to_string (unat (bs ! i)))
     [0 ..< length bs])"

text \<open>
  \<open>Ipv6Addr\<close>: an address that maps an IPv4 address prints it as such; otherwise the first
  longest run of at least two zero segments is written \<open>::\<close> and the other segments in
  lower-case hexadecimal without leading zeros.
\<close>

fun ipv6_segments :: "bytes \<Rightarrow> nat list" where
  "ipv6_segments (a # b # r) = (256 * unat a + unat b) # ipv6_segments r"
| "ipv6_segments _ = []"

text \<open>The longest run of zeros, the first of that length: its start and its length.\<close>

fun longest_zeros :: "nat list \<Rightarrow> nat \<Rightarrow> nat \<times> nat \<Rightarrow> nat \<times> nat \<Rightarrow> nat \<times> nat" where
  "longest_zeros [] i cur best = best"
| "longest_zeros (s # r) i cur best =
     (if s = 0
      then let cur' = (if snd cur = 0 then (i, 1) else (fst cur, snd cur + 1))
           in longest_zeros r (i + 1) cur' (if snd best < snd cur' then cur' else best)
      else longest_zeros r (i + 1) (0, 0) best)"

definition join_with :: "string \<Rightarrow> string list \<Rightarrow> string" where
  "join_with sep ps = (case ps of [] \<Rightarrow> [] | p # r \<Rightarrow> p @ concat (map (\<lambda>x. sep @ x) r))"

definition hex_segments :: "nat list \<Rightarrow> string" where
  "hex_segments ss = join_with '':'' (map (to_radix 16) ss)"

definition ipv6_text :: "bytes \<Rightarrow> string" where
  "ipv6_text bs = (let ss = ipv6_segments bs in
     if take 6 ss = [0, 0, 0, 0, 0, 0xFFFF] then ''::ffff:'' @ ipv4_text (drop 12 bs)
     else let (start, len) = longest_zeros ss 0 (0, 0) (0, 0)
          in if 1 < len then hex_segments (take start ss) @ ''::'' @ hex_segments (drop (start + len) ss)
             else hex_segments ss)"

lemma to_radix_10_char:
  assumes "c \<in> set (to_radix 10 n)"
  shows "48 \<le> (of_char c :: nat)" and "(of_char c :: nat) \<le> 57"
proof -
  obtain d where d: "d \<in> set (digits 10 n)" "c = digit_char d"
    using assms by (auto simp: to_radix_def)
  then have "d < 10" using digits_less [of 10 d n] by simp
  with d show "48 \<le> (of_char c :: nat)" "(of_char c :: nat) \<le> 57"
    by (simp_all add: of_char_digit_char)
qed

lemma to_radix_16_char:
  assumes "c \<in> set (to_radix 16 n)"
  shows "48 \<le> (of_char c :: nat) \<and> (of_char c :: nat) \<le> 57 \<or>
    97 \<le> (of_char c :: nat) \<and> (of_char c :: nat) \<le> 102"
proof -
  obtain d where d: "d \<in> set (digits 16 n)" "c = digit_char d"
    using assms by (auto simp: to_radix_def)
  then have "d < 16" using digits_less [of 16 d n] by simp
  with d show ?thesis by (simp add: of_char_digit_char)
qed

lemma parse_u16_to_string [simp]: "parse_u16 (u16_to_string w) = Some w"
proof -
  have b: "unat w < 65536" using unsigned_less [of w, where 'a = nat] by simp
  obtain c cs where s: "to_radix 10 (unat w) = c # cs"
    by (cases "to_radix 10 (unat w)") auto
  have "c \<noteq> CHR ''+''"
    using to_radix_digits(2) [of 10 c "unat w"] s by auto
  with s b parse_to_decimal [of "unat w"] show ?thesis
    by (simp add: parse_u16_def parse_unsigned_def u16_to_string_def nat_to_string_def)
qed

lemma u16_to_string_visible:
  "u16_to_string w \<noteq> []" "c \<in> set (u16_to_string w) \<Longrightarrow> visible c"
  "c \<in> set (u16_to_string w) \<Longrightarrow> (of_char c :: nat) < 128"
  "c \<in> set (u16_to_string w) \<Longrightarrow> c \<noteq> CHR '':''"
  using to_radix_10_char [of c "unat w"]
  by (auto simp: u16_to_string_def nat_to_string_def visible_def)

end
