(* ===== verification/Stream_Io.thy ===== *)
theory Stream_Io
  imports Rust_Text
begin

text \<open>
  A byte stream as the program sees it through tokio's \<open>AsyncRead\<close> and \<open>AsyncWrite\<close>, TCP
  sockets and \<open>QuicStream\<close>s alike, and the relay between two of them, which the proxies
  and the daemon copy bytes with (the loops of \<open>relay\<close> in \<open>proxy_socks.rs\<close>, \<open>handle_tunnel\<close>
  in \<open>proxy_http.rs\<close>, \<open>handle_forward_stream\<close> and \<open>handle_connect_stream\<close> in
  \<open>serving.rs\<close> and \<open>handle_forward_connection\<close> in \<open>p2p.rs\<close>).

  What the other side will do is part of the state: the pieces in which its bytes will
  arrive, the errors reads will meet, and how each coming write ends.
\<close>

lemma pcatch_Ok_iff [rust_simps]:
  "pcatch m k h s = (Ok y, t) \<longleftrightarrow>
     (\<exists>x u. m s = (Ok x, u) \<and> k x u = (Ok y, t)) \<or> (\<exists>e u. m s = (Err e, u) \<and> h e u = (Ok y, t))"
  by (auto simp: pcatch_def split: prod.splits result.splits)

lemma pcatch_Err_iff [rust_simps]:
  "pcatch m k h s = (Err y, t) \<longleftrightarrow>
     (\<exists>x u. m s = (Ok x, u) \<and> k x u = (Err y, t)) \<or> (\<exists>e u. m s = (Err e, u) \<and> h e u = (Err y, t))"
  by (auto simp: pcatch_def split: prod.splits result.splits)

lemma pcatch_Panic_iff [rust_simps]:
  "pcatch m k h s = (Panic, t) \<longleftrightarrow> m s = (Panic, t) \<or>
     (\<exists>x u. m s = (Ok x, u) \<and> k x u = (Panic, t)) \<or> (\<exists>e u. m s = (Err e, u) \<and> h e u = (Panic, t))"
  by (auto simp: pcatch_def split: prod.splits result.splits)

subsection \<open>Endpoints\<close>

text \<open>A piece that arrives, or a read that fails; after the last the stream is at its end.\<close>

datatype arrival = Got bytes | Fails string

text \<open>A write goes through, or fails after the first bytes have been taken.\<close>

datatype write_outcome = Written | Broken nat string

record endpoint =
  ep_in :: "arrival list"
  ep_writes :: "write_outcome list"
  ep_finish :: "string option"
  ep_out :: bytes
  ep_closed :: bool

text \<open>\<open>read(&mut buf)\<close> with a buffer of \<open>k\<close> bytes: no byte means the end of the stream.\<close>

definition ep_read :: "nat \<Rightarrow> (endpoint, bytes, string) prog" where
  "ep_read k = (\<lambda>ep. case ep_in ep of
     [] \<Rightarrow> (Ok [], ep)
   | Got bs # r \<Rightarrow>
       if length bs \<le> k then (Ok bs, ep\<lparr>ep_in := r\<rparr>)
       else (Ok (take k bs), ep\<lparr>ep_in := Got (drop k bs) # r\<rparr>)
   | Fails e # r \<Rightarrow> (Err e, ep\<lparr>ep_in := r\<rparr>))"

text \<open>\<open>read_exact\<close>: read until the buffer is full; the end of the stream is an error.\<close>

fun exactly :: "nat \<Rightarrow> arrival list \<Rightarrow> (bytes, string) result \<times> arrival list" where
  "exactly 0 evs = (Ok [], evs)"
| "exactly (Suc n) [] = (Err ''early eof'', [])"
| "exactly (Suc n) (Fails e # r) = (Err e, r)"
| "exactly (Suc n) (Got bs # r) =
     (if bs = [] then (Err ''early eof'', r)
      else if length bs \<le> Suc n then
        (case exactly (Suc n - length bs) r of (res, r') \<Rightarrow>
           (rbind res (\<lambda>cs. Ok (bs @ cs)), r'))
      else (Ok (take (Suc n) bs), Got (drop (Suc n) bs) # r))"

definition ep_read_exact :: "nat \<Rightarrow> (endpoint, bytes, string) prog" where
  "ep_read_exact n = (\<lambda>ep. case exactly n (ep_in ep) of (res, evs) \<Rightarrow> (res, ep\<lparr>ep_in := evs\<rparr>))"

definition ep_write_all :: "bytes \<Rightarrow> (endpoint, unit, string) prog" where
  "ep_write_all bs = (\<lambda>ep. case ep_writes ep of
     [] \<Rightarrow> (Ok (), ep\<lparr>ep_out := ep_out ep @ bs\<rparr>)
   | Written # ws \<Rightarrow> (Ok (), ep\<lparr>ep_out := ep_out ep @ bs, ep_writes := ws\<rparr>)
   | Broken k e # ws \<Rightarrow> (Err e, ep\<lparr>ep_out := ep_out ep @ take k bs, ep_writes := ws\<rparr>))"

text \<open>\<open>finish\<close> of a QUIC stream, \<open>shutdown\<close> of a TCP socket: no more bytes will follow.\<close>

definition ep_finish_send :: "(endpoint, unit, string) prog" where
  "ep_finish_send = (\<lambda>ep. case ep_finish ep of
     None \<Rightarrow> (Ok (), ep\<lparr>ep_closed := True\<rparr>)
   | Some e \<Rightarrow> (Err e, ep))"

text \<open>A call whose outcome is thrown away (\<open>let _ = \<dots>\<close>).\<close>

definition ignoring :: "('s, 'a, 'e) prog \<Rightarrow> ('s, unit, 'f) prog" where
  "ignoring m = (\<lambda>s. (Ok (), snd (m s)))"

lemma ignoring_Ok [simp]:
  "ignoring m s = (r, t) \<longleftrightarrow> r = Ok () \<and> t = snd (m s)"
  by (auto simp: ignoring_def)

text \<open>The bytes still to come before the first error, and whether there is one.\<close>

fun arriving :: "arrival list \<Rightarrow> bytes" where
  "arriving [] = []"
| "arriving (Got bs # r) = (if bs = [] then [] else bs @ arriving r)"
| "arriving (Fails e # r) = []"

fun unbroken :: "arrival list \<Rightarrow> bool" where
  "unbroken [] \<longleftrightarrow> True"
| "unbroken (Got bs # r) \<longleftrightarrow> bs \<noteq> [] \<and> unbroken r"
| "unbroken (Fails e # r) \<longleftrightarrow> False"

text \<open>\<open>exactly\<close> takes the first bytes that arrive, in whatever pieces.\<close>

lemma exactly_Ok:
  "exactly n evs = (Ok bs, evs') \<Longrightarrow>
     length bs = n \<and> arriving evs = bs @ arriving evs' \<and> (unbroken evs \<longrightarrow> unbroken evs')"
proof (induction n evs arbitrary: bs evs' rule: exactly.induct)
  case (4 n cs r)
  show ?case
  proof (cases "cs = [] \<or> Suc n < length cs")
    case True
    with 4 show ?thesis by (auto split: if_splits)
  next
    case False
    then obtain ds where ds: "exactly (Suc n - length cs) r = (Ok ds, evs')" "bs = cs @ ds"
      using "4.prems" by (auto simp: rust_simps split: prod.splits)
    then have "length ds = Suc n - length cs \<and> arriving r = ds @ arriving evs' \<and>
      (unbroken r \<longrightarrow> unbroken evs')"
      using "4.IH" False by auto
    with False ds show ?thesis by auto
  qed
qed auto

lemma exactly_enough:
  assumes "unbroken evs" and "n \<le> length (arriving evs)"
  shows "\<exists>evs'. exactly n evs = (Ok (take n (arriving evs)), evs') \<and> unbroken evs' \<and>
    arriving evs' = drop n (arriving evs)"
  using assms
proof (induction n evs rule: exactly.induct)
  case (4 n cs r)
  show ?case
  proof (cases "length cs \<le> Suc n")
    case True
    have "Suc n - length cs \<le> length (arriving r)" "unbroken r"
      using "4.prems" by auto
    with 4 True obtain evs' where
      "exactly (Suc n - length cs) r = (Ok (take (Suc n - length cs) (arriving r)), evs')"
      "unbroken evs'" "arriving evs' = drop (Suc n - length cs) (arriving r)"
      by auto
    with True "4.prems" show ?thesis by simp
  next
    case False
    with "4.prems" show ?thesis by auto
  qed
qed auto

lemma exactly_short:
  assumes "unbroken evs" and "length (arriving evs) < n"
  shows "exactly n evs = (Err ''early eof'', [])"
  using assms
proof (induction n evs rule: exactly.induct)
  case (4 n cs r)
  then have "exactly (Suc n - length cs) r = (Err ''early eof'', [])" by auto
  with "4.prems" show ?case by auto
qed auto

lemma ep_read_exact_enough:
  assumes "unbroken (ep_in ep)" and "n \<le> length (arriving (ep_in ep))"
  obtains evs where "ep_read_exact n ep = (Ok (take n (arriving (ep_in ep))), ep\<lparr>ep_in := evs\<rparr>)"
    "unbroken evs" "arriving evs = drop n (arriving (ep_in ep))"
  using exactly_enough [OF assms] by (auto simp: ep_read_exact_def)

lemma ep_read_exact_short:
  assumes "unbroken (ep_in ep)" and "length (arriving (ep_in ep)) < n"
  shows "ep_read_exact n ep = (Err ''early eof'', ep\<lparr>ep_in := []\<rparr>)"
  using exactly_short [OF assms] by (simp add: ep_read_exact_def)

lemma ep_write_all_quiet:
  "ep_writes ep = [] \<Longrightarrow> ep_write_all bs ep = (Ok (), ep\<lparr>ep_out := ep_out ep @ bs\<rparr>)"
  by (simp add: ep_write_all_def)


subsection \<open>The relay\<close>

definition RELAY_BUF :: nat where
  "RELAY_BUF = 8192"

text \<open>One round of a copying loop: whether it goes on, and the two endpoints.\<close>

definition pump_once :: "endpoint \<Rightarrow> endpoint \<Rightarrow> bool \<times> endpoint \<times> endpoint" where
  "pump_once src dst = (case ep_read RELAY_BUF src of
     (Ok bs, src') \<Rightarrow>
       if bs = [] then (False, src', dst)
       else (case ep_write_all bs dst of
               (Ok _, dst') \<Rightarrow> (True, src', dst')
             | (_, dst') \<Rightarrow> (False, src', dst'))
   | (_, src') \<Rightarrow> (False, src', dst))"

fun arrival_size :: "arrival \<Rightarrow> nat" where
  "arrival_size (Got bs) = Suc (length bs)"
| "arrival_size (Fails e) = 1"

definition pending_size :: "endpoint \<Rightarrow> nat" where
  "pending_size ep = sum_list (map arrival_size (ep_in ep))"

text \<open>The whole loop, and the end of the bytes it announces when it is over.\<close>

lemma pump_once_less: "pump_once src dst = (True, src', dst') \<Longrightarrow> pending_size src' < pending_size src"
  by (auto simp: pump_once_def ep_read_def RELAY_BUF_def pending_size_def
      split: list.splits arrival.splits if_splits prod.splits result.splits)

function pump :: "endpoint \<Rightarrow> endpoint \<Rightarrow> endpoint \<times> endpoint" where
  "pump src dst = (case pump_once src dst of
     (True, src', dst') \<Rightarrow> pump src' dst'
   | (False, src', dst') \<Rightarrow> (src', snd (ep_finish_send dst')))"
  by auto
termination
  by (relation "measure (\<lambda>(src, dst). pending_size src)") (auto dest!: pump_once_less [OF sym])

declare pump.simps [simp del]

text \<open>\<open>tokio::join!\<close> runs the two loops side by side; each round ends at an \<open>await\<close>.\<close>

datatype direction = Outward | Inward

record relay_state =
  rl_near :: endpoint
  rl_far :: endpoint
  rl_outward :: bool
  rl_inward :: bool

definition relay_start :: "endpoint \<Rightarrow> endpoint \<Rightarrow> relay_state" where
  "relay_start near far = \<lparr>rl_near = near, rl_far = far, rl_outward = True, rl_inward = True\<rparr>"

fun relay_round :: "direction \<Rightarrow> relay_state \<Rightarrow> relay_state" where
  "relay_round Outward s =
     (if \<not> rl_outward s then s
      else (case pump_once (rl_near s) (rl_far s) of
              (True, near, far) \<Rightarrow> s\<lparr>rl_near := near, rl_far := far\<rparr>
            | (False, near, far) \<Rightarrow>
                s\<lparr>rl_near := near, rl_far := snd (ep_finish_send far), rl_outward := False\<rparr>))"
| "relay_round Inward s =
     (if \<not> rl_inward s then s
      else (case pump_once (rl_far s) (rl_near s) of
              (True, far, near) \<Rightarrow> s\<lparr>rl_far := far, rl_near := near\<rparr>
            | (False, far, near) \<Rightarrow>
                s\<lparr>rl_far := far, rl_near := snd (ep_finish_send near), rl_inward := False\<rparr>))"

definition relay_rounds :: "direction list \<Rightarrow> relay_state \<Rightarrow> relay_state" where
  "relay_rounds ds s = foldl (\<lambda>s d. relay_round d s) s ds"

definition relay_over :: "relay_state \<Rightarrow> bool" where
  "relay_over s \<longleftrightarrow> \<not> rl_outward s \<and> \<not> rl_inward s"

text \<open>The reference: one loop after the other.\<close>

definition relay :: "endpoint \<Rightarrow> endpoint \<Rightarrow> endpoint \<times> endpoint" where
  "relay near far = (let (near1, far1) = pump near far; (far2, near2) = pump far1 near1
     in (near2, far2))"

text \<open>What a round reads and what it writes are separate parts of the two endpoints.\<close>

fun copy_round :: "arrival list \<Rightarrow> write_outcome list \<Rightarrow> bytes \<Rightarrow>
    bool \<times> arrival list \<times> write_outcome list \<times> bytes" where
  "copy_round evs ws out = (case ep_read RELAY_BUF \<lparr>ep_in = evs, ep_writes = [], ep_finish = None,
        ep_out = [], ep_closed = False\<rparr> of
     (Ok bs, e) \<Rightarrow> (if bs = [] then (False, ep_in e, ws, out)
        else (case ws of
                [] \<Rightarrow> (True, ep_in e, [], out @ bs)
              | Written # ws' \<Rightarrow> (True, ep_in e, ws', out @ bs)
              | Broken k _ # ws' \<Rightarrow> (False, ep_in e, ws', out @ take k bs)))
   | (_, e) \<Rightarrow> (False, ep_in e, ws, out))"

lemma pump_once_copy:
  "pump_once src dst = (case copy_round (ep_in src) (ep_writes dst) (ep_out dst) of
     (b, evs, ws, out) \<Rightarrow> (b, src\<lparr>ep_in := evs\<rparr>, dst\<lparr>ep_writes := ws, ep_out := out\<rparr>))"
  by (auto simp: pump_once_def ep_read_def ep_write_all_def
      split: list.splits arrival.splits write_outcome.splits)

lemma finish_send_closed:
  "snd (ep_finish_send ep) = ep\<lparr>ep_closed := (ep_finish ep = None \<or> ep_closed ep)\<rparr>"
  by (auto simp: ep_finish_send_def split: option.splits)

declare copy_round.simps [simp del] relay_round.simps [simp del]

text \<open>Rounds of the two loops commute, so only their numbers count.\<close>

lemma rounds_commute: "relay_round Outward (relay_round Inward s) = relay_round Inward (relay_round Outward s)"
  by (cases "copy_round (ep_in (rl_near s)) (ep_writes (rl_far s)) (ep_out (rl_far s))";
      cases "copy_round (ep_in (rl_far s)) (ep_writes (rl_near s)) (ep_out (rl_near s))")
    (auto simp: relay_round.simps pump_once_copy finish_send_closed split: bool.splits)

lemma rounds_count:
  "relay_rounds ds s = (relay_round Outward ^^ count_list ds Outward)
     ((relay_round Inward ^^ count_list ds Inward) s)"
proof (induction ds arbitrary: s)
  case (Cons d ds)
  have swap: "(relay_round Inward ^^ n) (relay_round Outward s) =
      relay_round Outward ((relay_round Inward ^^ n) s)" for n s
    by (induction n) (simp_all add: rounds_commute)
  have "relay_rounds (d # ds) s = relay_rounds ds (relay_round d s)"
    by (simp add: relay_rounds_def)
  with Cons swap show ?case
    by (cases d) (simp_all add: funpow_swap1)
qed (simp add: relay_rounds_def)

lemma outward_rounds_stop: "\<not> rl_outward s \<Longrightarrow> (relay_round Outward ^^ n) s = s"
  by (induction n) (simp_all add: relay_round.simps)

lemma inward_rounds_stop: "\<not> rl_inward s \<Longrightarrow> (relay_round Inward ^^ n) s = s"
  by (induction n) (simp_all add: relay_round.simps)

lemma outward_rounds:
  assumes "rl_outward s" and "pending_size (rl_near s) < n"
  shows "(relay_round Outward ^^ n) s =
    (let (near, far) = pump (rl_near s) (rl_far s)
     in s\<lparr>rl_near := near, rl_far := far, rl_outward := False\<rparr>)"
  using assms
proof (induction n arbitrary: s)
  case (Suc n)
  obtain b near far where p: "pump_once (rl_near s) (rl_far s) = (b, near, far)"
    by (cases "pump_once (rl_near s) (rl_far s)")
  show ?case
  proof (cases b)
    case True
    let ?t = "s\<lparr>rl_near := near, rl_far := far\<rparr>"
    have "pending_size near < n"
      using p True pump_once_less Suc.prems by fastforce
    then have "(relay_round Outward ^^ n) ?t = (let (near, far) = pump near far
        in s\<lparr>rl_near := near, rl_far := far, rl_outward := False\<rparr>)"
      using Suc.IH [of ?t] Suc.prems by (simp add: Let_def split: prod.splits)
    with p True Suc.prems show ?thesis
      by (subst pump.simps) (simp del: funpow.simps add: funpow_Suc_right relay_round.simps [of s])
  next
    case False
    with p Suc.prems show ?thesis
      by (subst pump.simps) (simp del: funpow.simps add: funpow_Suc_right relay_round.simps [of s] outward_rounds_stop)
  qed
qed simp

lemma inward_rounds:
  assumes "rl_inward s" and "pending_size (rl_far s) < n"
  shows "(relay_round Inward ^^ n) s =
    (let (far, near) = pump (rl_far s) (rl_near s)
     in s\<lparr>rl_near := near, rl_far := far, rl_inward := False\<rparr>)"
  using assms
proof (induction n arbitrary: s)
  case (Suc n)
  obtain b far near where p: "pump_once (rl_far s) (rl_near s) = (b, far, near)"
    by (cases "pump_once (rl_far s) (rl_near s)")
  show ?case
  proof (cases b)
    case True
    let ?t = "s\<lparr>rl_far := far, rl_near := near\<rparr>"
    have "pending_size far < n"
      using p True pump_once_less Suc.prems by fastforce
    then have "(relay_round Inward ^^ n) ?t = (let (far, near) = pump far near
        in s\<lparr>rl_near := near, rl_far := far, rl_inward := False\<rparr>)"
      using Suc.IH [of ?t] Suc.prems by (simp add: Let_def split: prod.splits)
    with p True Suc.prems show ?thesis
      by (subst pump.simps) (simp del: funpow.simps add: funpow_Suc_right relay_round.simps [of s])
  next
    case False
    with p Suc.prems show ?thesis
      by (subst pump.simps) (simp del: funpow.simps add: funpow_Suc_right relay_round.simps [of s] inward_rounds_stop)
  qed
qed simp

text \<open>A loop leaves alone what the other one uses.\<close>

lemma pump_once_frame:
  assumes "pump_once src dst = (b, src', dst')"
  shows "\<exists>evs. src' = src\<lparr>ep_in := evs\<rparr>"
    and "\<exists>ws out. dst' = dst\<lparr>ep_writes := ws, ep_out := out\<rparr>"
  using assms by (auto simp: pump_once_copy split: prod.splits)

lemma pump_induct [case_names once]:
  assumes "\<And>src dst b src' dst'. pump_once src dst = (b, src', dst') \<Longrightarrow> (b \<Longrightarrow> P src' dst') \<Longrightarrow> P src dst"
  shows "P src dst"
proof (induction src dst rule: pump.induct)
  case (1 src dst)
  then show ?case
    using assms [of src dst] by (cases "pump_once src dst") auto
qed

lemma pump_rec:
  "pump_once src dst = (b, src', dst') \<Longrightarrow>
     pump src dst = (if b then pump src' dst' else (src', snd (ep_finish_send dst')))"
  by (subst pump.simps) simp

lemma pump_frame:
  "\<exists>evs ws out c. pump src dst =
     (src\<lparr>ep_in := evs\<rparr>, dst\<lparr>ep_writes := ws, ep_out := out, ep_closed := c\<rparr>)"
proof (induction src dst rule: pump_induct)
  case (once src dst b src' dst')
  obtain evs ws out where f: "src' = src\<lparr>ep_in := evs\<rparr>" "dst' = dst\<lparr>ep_writes := ws, ep_out := out\<rparr>"
    using pump_once_frame [OF once(1)] by blast
  show ?case
  proof (cases b)
    case True
    with once(2) pump_rec [OF once(1)] f show ?thesis by fastforce
  next
    case False
    then have "pump src dst = (src', snd (ep_finish_send dst'))" using pump_rec [OF once(1)] by simp
    then show ?thesis
      unfolding f finish_send_closed by (intro exI, simp)
  qed
qed

text \<open>
  Every schedule that gives both loops enough rounds ends with both loops over, in the
  state the sequential reference computes.
\<close>

lemma relay_rounds_enough:
  assumes "pending_size near < count_list ds Outward" and "pending_size far < count_list ds Inward"
  shows "relay_rounds ds (relay_start near far) =
    (let (near', far') = relay near far
     in \<lparr>rl_near = near', rl_far = far', rl_outward = False, rl_inward = False\<rparr>)"
proof -
  have swap: "(relay_round Outward ^^ m) ((relay_round Inward ^^ n) s) =
      (relay_round Inward ^^ n) ((relay_round Outward ^^ m) s)" for m n s
  proof (induction m)
    case (Suc m)
    have "relay_round Outward ((relay_round Inward ^^ n) s) = (relay_round Inward ^^ n) (relay_round Outward s)" for s
      by (induction n) (simp_all add: rounds_commute)
    with Suc show ?case by simp
  qed simp
  obtain near1 far1 where p1: "pump near far = (near1, far1)" by (cases "pump near far")
  obtain far2 near2 where p2: "pump far1 near1 = (far2, near2)" by (cases "pump far1 near1")
  have out: "(relay_round Outward ^^ count_list ds Outward) (relay_start near far) =
      \<lparr>rl_near = near1, rl_far = far1, rl_outward = False, rl_inward = True\<rparr>"
    using outward_rounds [of "relay_start near far"] assms p1 by (simp add: relay_start_def)
  have "pending_size far1 = pending_size far"
    using p1 pump_frame [of near far] by (auto simp: pending_size_def)
  then have "(relay_round Inward ^^ count_list ds Inward)
      \<lparr>rl_near = near1, rl_far = far1, rl_outward = False, rl_inward = True\<rparr> =
      \<lparr>rl_near = near2, rl_far = far2, rl_outward = False, rl_inward = False\<rparr>"
    using inward_rounds [of "\<lparr>rl_near = near1, rl_far = far1, rl_outward = False, rl_inward = True\<rparr>"]
      assms p2 by simp
  with out show ?thesis
    by (simp add: rounds_count swap relay_def p1 p2)
qed

lemma relay_rounds_append: "relay_rounds (ds @ ds') s = relay_rounds ds' (relay_rounds ds s)"
  by (simp add: relay_rounds_def)

lemma relay_rounds_over: "relay_over s \<Longrightarrow> relay_rounds ds s = s"
  by (simp add: rounds_count relay_over_def outward_rounds_stop inward_rounds_stop)

text \<open>Whenever both loops are over, the endpoints are the reference's.\<close>

lemma relay_over_reference:
  assumes "relay_over (relay_rounds ds (relay_start near far))"
  shows "(rl_near (relay_rounds ds (relay_start near far)),
          rl_far (relay_rounds ds (relay_start near far))) = relay near far"
proof -
  let ?more = "replicate (Suc (pending_size near)) Outward @ replicate (Suc (pending_size far)) Inward"
  have c: "count_list (replicate n d) e = (if d = e then n else 0)" for n and d e :: direction
    by (induction n) auto
  have "relay_rounds (ds @ ?more) (relay_start near far) = relay_rounds ds (relay_start near far)"
    using assms by (simp add: relay_rounds_append relay_rounds_over)
  moreover have "relay_rounds (ds @ ?more) (relay_start near far) = (let (near', far') = relay near far
     in \<lparr>rl_near = near', rl_far = far', rl_outward = False, rl_inward = False\<rparr>)"
    by (rule relay_rounds_enough) (simp_all add: c)
  ultimately show ?thesis by (simp add: Let_def split: prod.splits)
qed

subsection \<open>What a loop carries over\<close>

lemma pump_once_out:
  assumes "pump_once src dst = (b, src', dst')"
  shows "\<exists>bs. ep_out dst' = ep_out dst @ bs \<and> prefix bs (arriving (ep_in src)) \<and>
    (b \<longrightarrow> arriving (ep_in src) = bs @ arriving (ep_in src')) \<and>
    (ep_writes dst = [] \<longrightarrow>
       arriving (ep_in src) = bs @ (if b then arriving (ep_in src') else []) \<and> ep_writes dst' = [])"
proof (cases "ep_in src")
  case Nil
  with assms show ?thesis
    by (auto simp: pump_once_copy copy_round.simps ep_read_def)
next
  case (Cons ev r)
  show ?thesis
  proof (cases ev)
    case (Fails e)
    with Cons assms show ?thesis
      by (auto simp: pump_once_copy copy_round.simps ep_read_def)
  next
    case (Got cs)
    show ?thesis
    proof (cases "cs = []")
      case True
      with Got Cons assms show ?thesis
        by (auto simp: pump_once_copy copy_round.simps ep_read_def)
    next
      case False
      have len: "take RELAY_BUF cs \<noteq> []" using False by (simp add: RELAY_BUF_def)
      have arr: "arriving (ep_in src) = take RELAY_BUF cs @ (if length cs \<le> RELAY_BUF then arriving r
          else arriving (Got (drop RELAY_BUF cs) # r))"
        using False Got Cons by simp
      have "\<exists>k. b = (\<forall>n e ws. ep_writes dst \<noteq> Broken n e # ws) \<and>
          ep_out dst' = ep_out dst @ take k (take RELAY_BUF cs) \<and>
          (b \<longrightarrow> RELAY_BUF \<le> k) \<and> (ep_writes dst = [] \<longrightarrow> ep_writes dst' = []) \<and>
          ep_in src' = (if length cs \<le> RELAY_BUF then r else Got (drop RELAY_BUF cs) # r)"
      proof (cases "ep_writes dst")
        case Nil
        with assms Cons Got len show ?thesis
          by (intro exI [of _ RELAY_BUF]) (auto simp: pump_once_copy copy_round.simps ep_read_def)
      next
        case (Cons w ws)
        with assms \<open>ep_in src = ev # r\<close> Got len show ?thesis
          by (intro exI [of _ "case w of Written \<Rightarrow> RELAY_BUF | Broken n _ \<Rightarrow> n"])
            (auto simp: pump_once_copy copy_round.simps ep_read_def min_def split: write_outcome.splits)
      qed
      then obtain k where k: "b = (\<forall>n e ws. ep_writes dst \<noteq> Broken n e # ws)"
          "ep_out dst' = ep_out dst @ take k (take RELAY_BUF cs)" "b \<Longrightarrow> RELAY_BUF \<le> k"
          "ep_writes dst = [] \<Longrightarrow> ep_writes dst' = []"
          "ep_in src' = (if length cs \<le> RELAY_BUF then r else Got (drop RELAY_BUF cs) # r)"
        by blast
      have pre: "prefix (take k (take RELAY_BUF cs)) (arriving (ep_in src))"
        unfolding arr by (metis prefix_prefix take_is_prefix)
      have go: "arriving (ep_in src) = take k (take RELAY_BUF cs) @ arriving (ep_in src')" if b
        using arr k(3) [OF that] k(5) by (simp add: min_absorb2)
      show ?thesis
        by (rule exI [of _ "take k (take RELAY_BUF cs)"]) (use k pre go in simp)
    qed
  qed
qed

lemma pump_out:
  "\<exists>bs. ep_out (snd (pump src dst)) = ep_out dst @ bs \<and> prefix bs (arriving (ep_in src)) \<and>
     (ep_writes dst = [] \<longrightarrow> bs = arriving (ep_in src))"
proof (induction src dst rule: pump_induct)
  case (once src dst b src' dst')
  obtain bs where bs: "ep_out dst' = ep_out dst @ bs" "prefix bs (arriving (ep_in src))"
    "b \<Longrightarrow> arriving (ep_in src) = bs @ arriving (ep_in src')"
    "ep_writes dst = [] \<Longrightarrow> arriving (ep_in src) = bs @ (if b then arriving (ep_in src') else [])"
    "ep_writes dst = [] \<Longrightarrow> ep_writes dst' = []"
    using pump_once_out [OF once(1)] by blast
  show ?case
  proof (cases b)
    case True
    then obtain cs where cs: "ep_out (snd (pump src' dst')) = ep_out dst' @ cs"
        "prefix cs (arriving (ep_in src'))" "ep_writes dst' = [] \<longrightarrow> cs = arriving (ep_in src')"
      using once(2) by blast
    with True bs show ?thesis
      unfolding pump_rec [OF once(1)] by (intro exI [of _ "bs @ cs"]) simp
  next
    case False
    with bs show ?thesis
      unfolding pump_rec [OF once(1)] by (intro exI [of _ bs]) (simp add: finish_send_closed)
  qed
qed

lemma pump_closes: "ep_finish dst = None \<Longrightarrow> ep_closed (snd (pump src dst))"
proof (induction src dst rule: pump_induct)
  case (once src dst b src' dst')
  have "ep_finish dst' = None"
    using pump_once_frame(2) [OF once(1)] once(3) by auto
  with once show ?case
    unfolding pump_rec [OF once(1)] by (simp add: finish_send_closed)
qed

lemma relay_out:
  assumes "relay near far = (near', far')"
  shows "\<exists>bs. ep_out far' = ep_out far @ bs \<and> prefix bs (arriving (ep_in near)) \<and>
      (ep_writes far = [] \<longrightarrow> bs = arriving (ep_in near))"
    and "\<exists>bs. ep_out near' = ep_out near @ bs \<and> prefix bs (arriving (ep_in far)) \<and>
      (ep_writes near = [] \<longrightarrow> bs = arriving (ep_in far))"
    and "ep_finish far = None \<Longrightarrow> ep_closed far'" and "ep_finish near = None \<Longrightarrow> ep_closed near'"
proof -
  obtain near1 far1 where p1: "pump near far = (near1, far1)" by (cases "pump near far")
  have p2: "pump far1 near1 = (far', near')"
    using assms p1 by (auto simp: relay_def split: prod.splits)
  obtain e1 w1 o1 c1 where f1: "near1 = near\<lparr>ep_in := e1\<rparr>"
      "far1 = far\<lparr>ep_writes := w1, ep_out := o1, ep_closed := c1\<rparr>"
    using pump_frame [of near far] p1 by auto
  obtain e2 w2 o2 c2 where f2: "far' = far1\<lparr>ep_in := e2\<rparr>"
      "near' = near1\<lparr>ep_writes := w2, ep_out := o2, ep_closed := c2\<rparr>"
    using pump_frame [of far1 near1] p2 by auto
  show "\<exists>bs. ep_out far' = ep_out far @ bs \<and> prefix bs (arriving (ep_in near)) \<and>
      (ep_writes far = [] \<longrightarrow> bs = arriving (ep_in near))"
    using pump_out [of near far] p1 f2 by simp
  show "\<exists>bs. ep_out near' = ep_out near @ bs \<and> prefix bs (arriving (ep_in far)) \<and>
      (ep_writes near = [] \<longrightarrow> bs = arriving (ep_in far))"
    using pump_out [of far1 near1] p2 f1 by simp
  show "ep_finish far = None \<Longrightarrow> ep_closed far'"
    using pump_closes [of far near] p1 f2 by simp
  show "ep_finish near = None \<Longrightarrow> ep_closed near'"
    using pump_closes [of near1 far1] p2 f1 by simp
qed

end
