(* ===== verification/Ipc.thy ===== *)
theory Ipc
  imports Session Stream_Io
begin

text \<open>
  \<open>wconnect/src/ipc.rs\<close>: how the command line talks to a running daemon.  A client sends
  requests, one line of JSON each; the server answers each with a line, from the handle of
  the serving session once there is one.  What \<open>serde_json\<close> makes of the types is the
  parameter \<open>js\<close>; the part that only Windows has is modelled too.
\<close>

subsection \<open>Messages\<close>

datatype ipc_ttl_profile = IpcInteractive | IpcAsynchronous

fun to_lib :: "ipc_ttl_profile \<Rightarrow> ttl_profile" where
  "to_lib IpcInteractive = Interactive"
| "to_lib IpcAsynchronous = Asynchronous"

datatype ipc_request = RqStatus | RqGetActivationCode ipc_ttl_profile | RqShutdown

record endorsing_data =
  ed_codes_outstanding :: nat
  ed_nodes_awaiting_cosign :: "i32 list"

record status_data =
  sd_connected :: bool
  sd_node_number :: i32
  sd_cg_id :: string
  sd_endorsing :: "endorsing_data option"

datatype activation_code_data = ActivationCodeData string

datatype response_data =
    StatusResponse status_data
  | ActivationCodeResponse activation_code_data
  | EmptyResponse

datatype ipc_response = SuccessResponse bool response_data | ErrorResponse bool string

definition response_success :: "response_data \<Rightarrow> ipc_response" where
  "response_success data = SuccessResponse True data"

definition response_error :: "string \<Rightarrow> ipc_response" where
  "response_error msg = ErrorResponse False msg"

text \<open>\<open>serde_json\<close> on these types, and how the hub's errors print.\<close>

record json =
  js_request :: "ipc_request \<Rightarrow> (string, string) result"
  js_parse_request :: "string \<Rightarrow> (ipc_request, string) result"
  js_response :: "ipc_response \<Rightarrow> (string, string) result"
  js_parse_response :: "string \<Rightarrow> (ipc_response, string) result"
  js_hub_error :: "hub_error \<Rightarrow> string"

definition serving_error_text :: "json \<Rightarrow> serving_error \<Rightarrow> string" where
  "serving_error_text js e = (case e of
     ServingHub h \<Rightarrow> ''hub connection error: '' @ js_hub_error js h
   | SessionShutdown \<Rightarrow> ''session shut down''
   | TooManyActivationSessions \<Rightarrow>
       ''too many active activation sessions (max '' @ nat_to_string MAX_ACTIVE_ACTIVATIONS @ '')'')"

definition ipc_path :: "string \<Rightarrow> string \<Rightarrow> i32 \<Rightarrow> string" where
  "ipc_path home connectivity_group_id node_number =
     home @ ''/.wconnect/sockets/'' @ connectivity_group_id @ ''-'' @ i32_to_string node_number @ ''.sock''"

subsection \<open>Requests\<close>

definition status_data_of :: "serving_status \<Rightarrow> status_data" where
  "status_data_of st =
     \<lparr>sd_connected = sst_connected st, sd_node_number = sst_node_number st,
      sd_cg_id = sst_connectivity_group_id st,
      sd_endorsing = map_option (\<lambda>e. \<lparr>ed_codes_outstanding = et_codes_outstanding e,
        ed_nodes_awaiting_cosign = et_nodes_awaiting_cosign e\<rparr>) (sst_endorsing st)\<rparr>"

definition process_request ::
  "prims \<Rightarrow> json \<Rightarrow> (nat \<Rightarrow> u8) \<Rightarrow> string \<Rightarrow> (('w, 'q) session, ipc_response, string) prog"
where
  "process_request P js rand line = (case js_parse_request js line of
     Err e \<Rightarrow> ret (response_error (''invalid request: '' @ e))
   | Panic \<Rightarrow> lift Panic
   | Ok request \<Rightarrow> (case request of
        RqStatus \<Rightarrow> pcatch handle_status
          (\<lambda>status. ret (response_success (StatusResponse (status_data_of status))))
          (\<lambda>e. ret (response_error (''status failed: '' @ serving_error_text js e)))
      | RqGetActivationCode profile \<Rightarrow> pcatch (handle_generate_activation_code rand (to_lib profile))
          (\<lambda>code. pbind (lift (format_code P code)) (\<lambda>text.
             ret (response_success (ActivationCodeResponse (ActivationCodeData text)))))
          (\<lambda>e. ret (response_error (serving_error_text js e)))
      | RqShutdown \<Rightarrow> pbind (ignoring handle_shutdown) (\<lambda>_. ret (response_success EmptyResponse))))"

text \<open>Without a handle.\<close>

definition process_unconnected :: "json \<Rightarrow> string \<Rightarrow> (ipc_response, string) result" where
  "process_unconnected js line = (case js_parse_request js line of
     Ok RqStatus \<Rightarrow> Ok (response_success (StatusResponse
       \<lparr>sd_connected = False, sd_node_number = 0, sd_cg_id = [], sd_endorsing = None\<rparr>))
   | Ok _ \<Rightarrow> Ok (response_error ''hub not connected yet'')
   | Err e \<Rightarrow> Ok (response_error (''invalid request: '' @ e))
   | Panic \<Rightarrow> Panic)"

definition response_json :: "json \<Rightarrow> ipc_response \<Rightarrow> (string, string) result" where
  "response_json js response = (case js_response js response of
     Err e \<Rightarrow> (case js_response js (response_error (''serialization error: '' @ e)) of
        Ok text \<Rightarrow> Ok text | _ \<Rightarrow> Panic)
   | r \<Rightarrow> r)"

subsection \<open>Lines\<close>

text \<open>
  \<open>BufReader::read_line\<close>: the bytes up to a newline, or to the end, from the buffer and from
  as many reads as that takes; an error if they are not UTF-8.
\<close>

function read_until_newline :: "bytes \<Rightarrow> endpoint \<Rightarrow> (bytes, string) result \<times> bytes \<times> endpoint" where
  "read_until_newline buf ep =
     (if 0x0A \<in> set buf
      then (Ok (takeWhile (\<lambda>b. b \<noteq> 0x0A) buf @ [0x0A]), tl (dropWhile (\<lambda>b. b \<noteq> 0x0A) buf), ep)
      else (case ep_read 8192 ep of
          (Ok bs, ep') \<Rightarrow> if bs = [] then (Ok buf, [], ep') else read_until_newline (buf @ bs) ep'
        | (Err e, ep') \<Rightarrow> (Err e, buf, ep')
        | (Panic, ep') \<Rightarrow> (Panic, buf, ep')))"
  by auto

lemma ep_read_pending: "ep_read k q = (Ok bs, q') \<Longrightarrow> bs \<noteq> [] \<Longrightarrow> pending_size q' < pending_size q"
  by (auto simp: ep_read_def pending_size_def split: list.splits arrival.splits if_splits)

termination read_until_newline
  by (relation "measure (\<lambda>(buf, ep). pending_size ep)") (auto dest!: ep_read_pending [OF sym])

declare read_until_newline.simps [simp del]

definition read_line :: "bytes \<Rightarrow> endpoint \<Rightarrow> (string, string) result \<times> bytes \<times> endpoint" where
  "read_line buf ep = (case read_until_newline buf ep of (r, buf', ep') \<Rightarrow>
     (rbind r (\<lambda>bs. if utf8_valid bs then Ok (bytes_str bs)
        else Err ''stream did not contain valid UTF-8''), buf', ep'))"


lemma ep_read_size: "ep_read k q = (Ok bs, q') \<Longrightarrow> pending_size q' + length bs \<le> pending_size q"
  by (auto simp: ep_read_def pending_size_def split: list.splits arrival.splits if_splits)

lemma read_until_newline_size:
  "read_until_newline buf ep = (Ok line, buf', ep') \<Longrightarrow>
     length line + length buf' + pending_size ep' \<le> length buf + pending_size ep"
proof (induction buf ep rule: read_until_newline.induct)
  case (1 buf ep)
  note eq = read_until_newline.simps [of buf ep]
  show ?case
  proof (cases "0x0A \<in> set buf")
    case True
    then have "dropWhile (\<lambda>b. b \<noteq> 0x0A) buf \<noteq> []" by (auto simp: dropWhile_eq_Nil_conv)
    then obtain y ys where d: "dropWhile (\<lambda>b. b \<noteq> 0x0A) buf = y # ys"
      by (metis list.exhaust)
    have "length (takeWhile (\<lambda>b. b \<noteq> 0x0A) buf) + length (dropWhile (\<lambda>b. b \<noteq> 0x0A) buf) = length buf"
      by (metis length_append takeWhile_dropWhile_id)
    with d have "length (takeWhile (\<lambda>b. b \<noteq> 0x0A) buf) + Suc (length ys) = length buf" by simp
    with "1.prems" eq True d show ?thesis by auto
  next
    case False
    obtain rd ep1 where rd: "ep_read 8192 ep = (rd, ep1)" by (cases "ep_read 8192 ep")
    show ?thesis
    proof (cases rd)
      case (Ok bs)
      note size = ep_read_size [OF rd [unfolded Ok]]
      show ?thesis
      proof (cases "bs = []")
        case True
        then show ?thesis using "1.prems" eq False rd Ok size by auto
      next
        case ne: False
        then have "read_until_newline (buf @ bs) ep1 = (result.Ok line, buf', ep')"
          using "1.prems" eq False rd Ok by simp
        from "1.IH" [OF False rd [symmetric, unfolded Ok] refl ne this] size show ?thesis by simp
      qed
    qed (use "1.prems" eq False rd in auto)
  qed
qed

lemma read_line_size:
  assumes "read_line buf ep = (Ok line, buf', ep')"
  shows "length line + length buf' + pending_size ep' \<le> length buf + pending_size ep"
proof -
  obtain r where "read_until_newline buf ep = (r, buf', ep')"
      "rbind r (\<lambda>bs. if utf8_valid bs then Ok (bytes_str bs)
        else Err ''stream did not contain valid UTF-8'') = Ok line"
    using assms by (auto simp: read_line_def split: prod.splits)
  then show ?thesis
    using read_until_newline_size by (cases r) (fastforce split: if_splits)+
qed

subsection \<open>The server\<close>

text \<open>
  One answer, and what it does to the session behind the handle, if there is one.
\<close>

definition ipc_answer ::
  "prims \<Rightarrow> json \<Rightarrow> (nat \<Rightarrow> u8) \<Rightarrow> string \<Rightarrow> ('w, 'q) session option \<Rightarrow>
    (string, string) result \<times> ('w, 'q) session option"
where
  "ipc_answer P js rand line handle_state = (case handle_state of
     Some s \<Rightarrow> (case process_request P js rand line s of
        (r, s') \<Rightarrow> (rbind r (response_json js), Some s'))
   | None \<Rightarrow> (rbind (process_unconnected js line) (response_json js), None))"

text \<open>
  A client's connection.  Between two requests the session goes its own way and the handle
  may be set: \<open>meanwhile n\<close> is what happens to them before the \<open>n\<close>-th request.
\<close>

function handle_client_with_optional_handle ::
  "prims \<Rightarrow> json \<Rightarrow> (nat \<Rightarrow> nat \<Rightarrow> u8) \<Rightarrow>
   (nat \<Rightarrow> ('w, 'q) session option \<Rightarrow> ('w, 'q) session option) \<Rightarrow> nat \<Rightarrow> bytes \<Rightarrow> endpoint \<Rightarrow>
   ('w, 'q) session option \<Rightarrow> (unit, string) result \<times> endpoint \<times> ('w, 'q) session option"
where
  "handle_client_with_optional_handle P js rand meanwhile n buf ep h =
     (case read_line buf ep of
        (Ok line, buf', ep') \<Rightarrow>
          if line = [] then (Ok (), ep', h)
          else (case ipc_answer P js (rand n) line (meanwhile n h) of
              (Ok text, h') \<Rightarrow>
                (case ep_write_all (str_bytes text) ep' of
                   (Ok _, ep1) \<Rightarrow>
                     (case ep_write_all [0x0A] ep1 of
                        (Ok _, ep2) \<Rightarrow>
                          if js_parse_request js line = Ok RqShutdown then (Ok (), ep2, h')
                          else handle_client_with_optional_handle P js rand meanwhile (n + 1) buf' ep2 h'
                      | (_, ep2) \<Rightarrow> (Ok (), ep2, h'))
                 | (_, ep1) \<Rightarrow> (Ok (), ep1, h'))
            | (_, h') \<Rightarrow> (Panic, ep', h'))
      | (_, buf', ep') \<Rightarrow> (Ok (), ep', h))"
  by auto

lemma ep_write_all_pending: "ep_write_all bs ep = (r, ep') \<Longrightarrow> pending_size ep' = pending_size ep"
  by (auto simp: ep_write_all_def pending_size_def split: list.splits write_outcome.splits)

lemma ipc_turn_less:
  assumes "read_line buf ep = (Ok line, buf', ep')" and "line \<noteq> []"
    and "ep_write_all bs ep' = (x, ep1)" and "ep_write_all cs ep1 = (y, ep2)"
  shows "length buf' + pending_size ep2 < length buf + pending_size ep"
proof -
  have "0 < length line" using assms(2) by simp
  with read_line_size [OF assms(1)] show ?thesis
    unfolding ep_write_all_pending [OF assms(4)] ep_write_all_pending [OF assms(3)] by linarith
qed

termination handle_client_with_optional_handle
  by (relation "measure (\<lambda>(P, js, rand, meanwhile, n, buf, ep, h). length buf + pending_size ep)")
    (auto dest: ipc_turn_less [OF sym _ sym sym])

declare handle_client_with_optional_handle.simps [simp del]

text \<open>\<open>handle_client\<close>: with a handle from the start.\<close>

definition handle_client ::
  "prims \<Rightarrow> json \<Rightarrow> (nat \<Rightarrow> nat \<Rightarrow> u8) \<Rightarrow> (nat \<Rightarrow> ('w, 'q) session \<Rightarrow> ('w, 'q) session) \<Rightarrow>
   endpoint \<Rightarrow> ('w, 'q) session \<Rightarrow> (unit, string) result \<times> endpoint \<times> ('w, 'q) session option"
where
  "handle_client P js rand meanwhile ep s =
     handle_client_with_optional_handle P js rand (\<lambda>n. map_option (meanwhile n)) 0 [] ep (Some s)"


subsection \<open>Binding\<close>

text \<open>
  What is at the socket's path when a server starts: nothing, a socket that nobody listens on,
  or a running server's; and how the calls of the file system and of \<open>bind\<close> end.
\<close>

datatype socket_file = NoSocket | StaleSocket | LiveSocket

definition server_bind ::
  "socket_file \<Rightarrow> (unit, string) result \<Rightarrow> (unit, string) result \<Rightarrow> (unit, string) result \<Rightarrow>
    (unit, string) result \<times> socket_file"
where
  "server_bind file create_dir remove_file bind_socket =
     (case create_dir of
        Ok _ \<Rightarrow>
          (case file of
             LiveSocket \<Rightarrow> (Err ''server already running'', LiveSocket)
           | StaleSocket \<Rightarrow> (case remove_file of
                Ok _ \<Rightarrow> (case bind_socket of
                   Ok _ \<Rightarrow> (Ok (), LiveSocket) | _ \<Rightarrow> (Err ''failed to bind socket'', NoSocket))
              | _ \<Rightarrow> (Err ''failed to remove stale socket'', StaleSocket))
           | NoSocket \<Rightarrow> (case bind_socket of
                Ok _ \<Rightarrow> (Ok (), LiveSocket) | _ \<Rightarrow> (Err ''failed to bind socket'', NoSocket)))
      | _ \<Rightarrow> (Err ''failed to create socket directory'', file))"

text \<open>
  On Windows the server listens on a port, and a connection counts once its first line is the
  password of the port file.  Each connection that comes is an endpoint, or an error of
  \<open>accept\<close>; the result is the stream that is handed on - without what the reader of the
  password still had in its buffer, which \<open>into_inner\<close> drops.
\<close>

fun accept_windows :: "string \<Rightarrow> (endpoint + string) list \<Rightarrow> (endpoint, string) result option" where
  "accept_windows password [] = None"
| "accept_windows password (Inr e # rest) = Some (Err e)"
| "accept_windows password (Inl ep # rest) =
     (case read_line [] ep of
        (Ok line, buffered, ep') \<Rightarrow>
          if line = [] then accept_windows password rest
          else if trim line = password then Some (Ok ep')
          else accept_windows password rest
      | _ \<Rightarrow> accept_windows password rest)"

definition parse_port_file :: "string \<Rightarrow> (u16 \<times> string) option" where
  "parse_port_file raw = (let contents = trim raw in
     if CHR '':'' \<in> set contents
     then (case parse_u16 (takeWhile (\<lambda>c. c \<noteq> CHR '':'') contents) of
             Some port \<Rightarrow> Some (port, tl (dropWhile (\<lambda>c. c \<noteq> CHR '':'') contents))
           | None \<Rightarrow> None)
     else None)"

definition port_file :: "u16 \<Rightarrow> string \<Rightarrow> string" where
  "port_file port password = u16_to_string port @ CHR '':'' # password"

subsection \<open>The client\<close>

text \<open>A request and the line that answers it; \<open>buf\<close> is what the client's reader has buffered.\<close>

definition client_request :: "json \<Rightarrow> ipc_request \<Rightarrow> bytes \<Rightarrow> endpoint \<Rightarrow>
    (ipc_response, string) result \<times> bytes \<times> endpoint" where
  "client_request js req buf ep = (case js_request js req of
     Ok text \<Rightarrow>
       (case pbind (ep_write_all (str_bytes text)) (\<lambda>_. ep_write_all [0x0A]) ep of
          (Ok _, ep') \<Rightarrow> (case read_line buf ep' of
             (r, buf', ep'') \<Rightarrow> (rbind r (js_parse_response js), buf', ep''))
        | (Err e, ep') \<Rightarrow> (Err e, buf, ep')
        | (Panic, ep') \<Rightarrow> (Panic, buf, ep'))
   | Err e \<Rightarrow> (Err e, buf, ep)
   | Panic \<Rightarrow> (Panic, buf, ep))"

text \<open>What the Windows client sends first.\<close>

definition send_password :: "string \<Rightarrow> (endpoint, unit, string) prog" where
  "send_password password = pbind (ep_write_all (str_bytes password)) (\<lambda>_. ep_write_all [0x0A])"

end
