(* ===== verification/Proxy_Common.thy ===== *)
theory Proxy_Common
  imports Stream_Io
begin

text \<open>
  \<open>wconnect/src/proxy_common.rs\<close>: what the HTTP and the SOCKS5 proxy share.  The error type
  with its status codes, the names under which nodes are reached, the commands that open a
  forwarding on a stream, and the pool of QUIC connections.

  The pool is used by many tasks at once.  Its operations are given as the sections of code
  that run without an \<open>await\<close> between them; \<open>pool_step\<close> interleaves them, one event at a
  time, with a table of the tasks inside \<open>open_stream\<close>; \<open>open_stream\<close> composes the same
  sections for a caller that is alone.
\<close>

subsection \<open>Constants and errors\<close>

text \<open>Durations in milliseconds.\<close>

definition IDLE_TIMEOUT :: nat where "IDLE_TIMEOUT = 60000"
definition CLEANUP_INTERVAL :: nat where "CLEANUP_INTERVAL = 15000"
definition REQUEST_TIMEOUT :: nat where "REQUEST_TIMEOUT = 30000"

datatype proxy_error =
    BadRequest string | Forbidden string | BadGateway string | GatewayTimeout string

fun proxy_error_text :: "proxy_error \<Rightarrow> string" where
  "proxy_error_text (BadRequest msg) = msg"
| "proxy_error_text (Forbidden msg) = msg"
| "proxy_error_text (BadGateway msg) = msg"
| "proxy_error_text (GatewayTimeout msg) = msg"

fun status_code :: "proxy_error \<Rightarrow> u16" where
  "status_code (BadRequest _) = 400"
| "status_code (Forbidden _) = 403"
| "status_code (BadGateway _) = 502"
| "status_code (GatewayTimeout _) = 504"

subsection \<open>Host names of nodes\<close>

text \<open>\<open>Err None\<close>: not one of our names; \<open>Err (Some e)\<close>: one that is malformed.\<close>

definition parse_wispers_host :: "string \<Rightarrow> (i32, proxy_error option) result" where
  "parse_wispers_host host = (case strip_suffix ''.wispers.link'' host of
     None \<Rightarrow> Err None
   | Some node_str \<Rightarrow> (case parse_i32 node_str of
        None \<Rightarrow> Err (Some (BadRequest (''invalid node number in hostname: '' @ node_str)))
      | Some n \<Rightarrow>
          if sint n \<le> 0
          then Err (Some (BadRequest (''node number must be positive, got: '' @ i32_to_string n)))
          else Ok n))"

definition wispers_host :: "i32 \<Rightarrow> string" where
  "wispers_host n = i32_to_string n @ ''.wispers.link''"

lemma parse_wispers_host_not_panic [simp]: "parse_wispers_host h \<noteq> Panic"
  by (auto simp: parse_wispers_host_def split: option.splits)

lemma parse_wispers_host_none: "parse_wispers_host h = Err None \<longleftrightarrow> \<not> suffix ''.wispers.link'' h"
  by (auto simp: parse_wispers_host_def strip_suffix_None [symmetric] split: option.splits)

lemma parse_wispers_host_positive: "parse_wispers_host h = Ok n \<Longrightarrow> 0 < sint n"
  by (auto simp: parse_wispers_host_def split: option.splits if_splits)

lemma parse_wispers_host_prints: "0 < sint n \<Longrightarrow> parse_wispers_host (wispers_host n) = Ok n"
  by (simp add: parse_wispers_host_def wispers_host_def i32_to_string_def)

lemma parse_wispers_host_Ok:
  "parse_wispers_host h = Ok n \<longleftrightarrow>
     (\<exists>t. h = t @ ''.wispers.link'' \<and> parse_i32 t = Some n \<and> 0 < sint n)"
proof (cases "strip_suffix ''.wispers.link'' h")
  case None
  then have "\<not> suffix ''.wispers.link'' h" by (simp add: strip_suffix_None)
  with None show ?thesis by (auto simp: parse_wispers_host_def suffix_def)
next
  case (Some t)
  then show ?thesis
    by (auto simp: parse_wispers_host_def strip_suffix_iff split: option.splits)
qed

subsection \<open>Commands\<close>

datatype command_error = CommandIo string | Rejected string | Protocol string

fun command_error_text :: "command_error \<Rightarrow> string" where
  "command_error_text (CommandIo e) = ''stream I/O failed: '' @ e"
| "command_error_text (Rejected msg) = ''remote rejected: '' @ msg"
| "command_error_text (Protocol msg) = ''unexpected response: '' @ msg"

text \<open>The first read's bytes are taken for the whole response.\<close>

definition command_response :: "bytes \<Rightarrow> (unit, command_error) result" where
  "command_response buf = (let response = trim (from_utf8_lossy buf) in
     case strip_prefix ''ERROR '' response of
       Some msg \<Rightarrow> Err (Rejected msg)
     | None \<Rightarrow> if response \<noteq> ''OK'' then Err (Protocol response) else Ok ())"

definition send_command :: "string \<Rightarrow> (endpoint, unit, command_error) prog" where
  "send_command command =
     pbind (perr CommandIo (ep_write_all (str_bytes command))) (\<lambda>_.
     pbind (perr CommandIo (ep_read 256)) (\<lambda>buf.
     lift (command_response buf)))"

definition forward_command :: "u16 \<Rightarrow> string" where
  "forward_command port = ''FORWARD '' @ u16_to_string port @ [CHR 0x0A]"

definition connect_command :: "string \<Rightarrow> u16 \<Rightarrow> string" where
  "connect_command host port = ''CONNECT '' @ host @ '':'' @ u16_to_string port @ [CHR 0x0A]"

lemma command_response_OK: "command_response (str_bytes (''OK'' @ [CHR 0x0A])) = Ok ()"
proof -
  have "trim (''OK'' @ [CHR 0x0A]) = ''OK''"
    by (rule trim_newline) (simp_all add: visible_def)
  moreover have "utf8_valid (str_bytes (''OK'' @ [CHR 0x0A]))"
    by (rule utf8_valid_ascii) simp
  ultimately show ?thesis
    by (simp add: command_response_def Let_def strip_prefix_def starting_with_def)
qed

text \<open>A rejection carries the remote's message, without white space at the end.\<close>

lemma command_response_ERROR:
  assumes "msg \<noteq> []" and "visible (last msg)" and "utf8_valid (str_bytes msg)"
  shows "command_response (str_bytes (''ERROR '' @ msg @ [CHR 0x0A])) = Err (Rejected msg)"
proof -
  have "trim ((''ERROR '' @ msg) @ [CHR 0x0A]) = ''ERROR '' @ msg"
    using assms by (intro trim_newline) (simp_all add: visible_def)
  moreover have "utf8_valid (str_bytes (''ERROR '' @ msg @ [CHR 0x0A]))"
    using assms(3) utf8_valid_ascii
    by (simp add: utf8_valid_append del: append_Cons)
  ultimately show ?thesis
    by (simp add: command_response_def Let_def strip_prefix_def starting_with_def)
qed


subsection \<open>The connection pool\<close>

text \<open>A connection as \<open>Node::connect_quic\<close> returns it: which one it is, and its peer.\<close>

record conn =
  cn_handle :: nat
  cn_peer :: i32

text \<open>
  A \<open>OnceCell\<close>: empty, being initialised by the task that holds its permit, or set.  Cells
  are shared (\<open>Arc\<close>) and compared by identity, here their number.
\<close>

datatype cell = Vacant | Initialising nat | Ready conn

record pooled_entry =
  pe_cell :: nat
  pe_last_used :: nat

record pool =
  pl_connections :: "i32 \<Rightarrow> pooled_entry option"
  pl_cells :: "nat \<Rightarrow> cell"
  pl_next :: nat

definition pool_new :: pool where
  "pool_new = \<lparr>pl_connections = (\<lambda>_. None), pl_cells = (\<lambda>_. Vacant), pl_next = 0\<rparr>"

text \<open>The first locked section: get or insert the entry, note its use, share its cell.\<close>

definition pool_lookup :: "i32 \<Rightarrow> nat \<Rightarrow> pool \<Rightarrow> nat \<times> pool" where
  "pool_lookup target_node now p = (case pl_connections p target_node of
     Some entry \<Rightarrow>
       (pe_cell entry,
        p\<lparr>pl_connections := (pl_connections p)(target_node \<mapsto> entry\<lparr>pe_last_used := now\<rparr>)\<rparr>)
   | None \<Rightarrow>
       (pl_next p,
        p\<lparr>pl_connections := (pl_connections p)
            (target_node \<mapsto> \<lparr>pe_cell = pl_next p, pe_last_used = now\<rparr>),
          pl_next := pl_next p + 1\<rparr>))"

text \<open>The second: drop the entry if it still has the cell whose connection is dead.\<close>

definition pool_evict :: "i32 \<Rightarrow> nat \<Rightarrow> pool \<Rightarrow> pool" where
  "pool_evict target_node cell p = (case pl_connections p target_node of
     Some entry \<Rightarrow>
       if pe_cell entry = cell
       then p\<lparr>pl_connections := (pl_connections p)(target_node := None)\<rparr>
       else p
   | None \<Rightarrow> p)"

text \<open>\<open>cleanup_idle\<close>: \<open>duration_since\<close> saturates at zero.\<close>

definition keep_entry :: "nat \<Rightarrow> (nat \<Rightarrow> cell) \<Rightarrow> pooled_entry \<Rightarrow> bool" where
  "keep_entry now cells entry \<longleftrightarrow>
     (if now - pe_last_used entry < IDLE_TIMEOUT then True
      else (case cells (pe_cell entry) of Ready _ \<Rightarrow> False | _ \<Rightarrow> True))"

definition cleanup_idle :: "nat \<Rightarrow> pool \<Rightarrow> pool" where
  "cleanup_idle now p = p\<lparr>pl_connections := (\<lambda>n. case pl_connections p n of
     Some entry \<Rightarrow> if keep_entry now (pl_cells p) entry then Some entry else None
   | None \<Rightarrow> None)\<rparr>"

definition set_cell :: "nat \<Rightarrow> cell \<Rightarrow> pool \<Rightarrow> pool" where
  "set_cell c v p = p\<lparr>pl_cells := (pl_cells p)(c := v)\<rparr>"

datatype open_stream_error = Connect string | Stream string

fun open_stream_error_text :: "open_stream_error \<Rightarrow> string" where
  "open_stream_error_text (Connect e) = ''failed to connect to peer: '' @ e"
| "open_stream_error_text (Stream e) = ''failed to open stream: '' @ e"

subsection \<open>Tasks inside \<open>open_stream\<close>\<close>

text \<open>
  Where a task stands: before the lookup, waiting on the cell it shares, connecting as the
  cell's initialiser, opening a stream on the connection, about to evict, or finished with
  the connection its stream is on.  \<open>tk_round\<close> counts the rounds of the \<open>for\<close> loop begun.
\<close>

datatype task_point =
    AtLookup
  | AtCell nat
  | Connecting nat
  | Opening nat conn
  | Evicting nat string
  | Finished "(conn, open_stream_error) result"
  | Cancelled

record task =
  tk_node :: i32
  tk_round :: nat
  tk_stream_err :: "string option"
  tk_at :: task_point

record pool_sys =
  py_pool :: pool
  py_tasks :: "nat \<Rightarrow> task option"

text \<open>
  What can happen: a task enters \<open>open_stream\<close> or runs to its next \<open>await\<close>; an awaited call
  is answered; a task is dropped because its timeout fired; the cleaner runs.
\<close>

datatype pool_event =
    Enter nat i32
  | Lookup nat nat
  | PollCell nat
  | Dialled nat "nat + string"
  | Opened nat "string option"
  | Evict nat
  | Drop nat
  | Cleanup nat

definition set_task :: "nat \<Rightarrow> task \<Rightarrow> pool_sys \<Rightarrow> pool_sys" where
  "set_task t tk s = s\<lparr>py_tasks := (py_tasks s)(t \<mapsto> tk)\<rparr>"

definition set_pool :: "pool \<Rightarrow> pool_sys \<Rightarrow> pool_sys" where
  "set_pool p s = s\<lparr>py_pool := p\<rparr>"

text \<open>The loop's end: another round, or the last error, which \<open>expect\<close> takes to be there.\<close>

definition next_round :: "task \<Rightarrow> task" where
  "next_round tk =
     (if tk_round tk < 2 then tk\<lparr>tk_round := tk_round tk + 1, tk_at := AtLookup\<rparr>
      else (case tk_stream_err tk of
              Some e \<Rightarrow> tk\<lparr>tk_at := Finished (Err (Stream e))\<rparr>
            | None \<Rightarrow> tk\<lparr>tk_at := Finished Panic\<rparr>))"

definition enter_task :: "i32 \<Rightarrow> task" where
  "enter_task node = next_round \<lparr>tk_node = node, tk_round = 0, tk_stream_err = None, tk_at = AtLookup\<rparr>"

fun task_step :: "pool_event \<Rightarrow> nat \<Rightarrow> task \<Rightarrow> pool \<Rightarrow> task \<times> pool" where
  "task_step (Lookup _ now) t tk p =
     (case tk_at tk of
        AtLookup \<Rightarrow> (case pool_lookup (tk_node tk) now p of (c, p') \<Rightarrow> (tk\<lparr>tk_at := AtCell c\<rparr>, p'))
      | _ \<Rightarrow> (tk, p))"
| "task_step (PollCell _) t tk p =
     (case tk_at tk of
        AtCell c \<Rightarrow> (case pl_cells p c of
            Ready cn \<Rightarrow> (tk\<lparr>tk_at := Opening c cn\<rparr>, p)
          | Vacant \<Rightarrow> (tk\<lparr>tk_at := Connecting c\<rparr>, set_cell c (Initialising t) p)
          | Initialising _ \<Rightarrow> (tk, p))
      | _ \<Rightarrow> (tk, p))"
| "task_step (Dialled _ r) t tk p =
     (case tk_at tk of
        Connecting c \<Rightarrow> (case r of
            Inl h \<Rightarrow> (let cn = \<lparr>cn_handle = h, cn_peer = tk_node tk\<rparr>
                      in (tk\<lparr>tk_at := Opening c cn\<rparr>, set_cell c (Ready cn) p))
          | Inr e \<Rightarrow> (tk\<lparr>tk_at := Finished (Err (Connect e))\<rparr>, set_cell c Vacant p))
      | _ \<Rightarrow> (tk, p))"
| "task_step (Opened _ r) t tk p =
     (case tk_at tk of
        Opening c cn \<Rightarrow> (case r of
            None \<Rightarrow> (tk\<lparr>tk_at := Finished (Ok cn)\<rparr>, p)
          | Some e \<Rightarrow> (tk\<lparr>tk_at := Evicting c e\<rparr>, p))
      | _ \<Rightarrow> (tk, p))"
| "task_step (Evict _) t tk p =
     (case tk_at tk of
        Evicting c e \<Rightarrow> (next_round (tk\<lparr>tk_stream_err := Some e\<rparr>), pool_evict (tk_node tk) c p)
      | _ \<Rightarrow> (tk, p))"
| "task_step (Drop _) t tk p =
     (case tk_at tk of
        Connecting c \<Rightarrow> (tk\<lparr>tk_at := Cancelled\<rparr>, set_cell c Vacant p)
      | Finished _ \<Rightarrow> (tk, p)
      | _ \<Rightarrow> (tk\<lparr>tk_at := Cancelled\<rparr>, p))"
| "task_step _ t tk p = (tk, p)"

fun event_task :: "pool_event \<Rightarrow> nat option" where
  "event_task (Enter t _) = None"
| "event_task (Lookup t _) = Some t"
| "event_task (PollCell t) = Some t"
| "event_task (Dialled t _) = Some t"
| "event_task (Opened t _) = Some t"
| "event_task (Evict t) = Some t"
| "event_task (Drop t) = Some t"
| "event_task (Cleanup _) = None"

definition pool_step :: "pool_event \<Rightarrow> pool_sys \<Rightarrow> pool_sys" where
  "pool_step ev s = (case ev of
     Enter t node \<Rightarrow> (if py_tasks s t = None then set_task t (enter_task node) s else s)
   | Cleanup now \<Rightarrow> set_pool (cleanup_idle now (py_pool s)) s
   | _ \<Rightarrow> (case event_task ev of
        None \<Rightarrow> s
      | Some t \<Rightarrow> (case py_tasks s t of
            None \<Rightarrow> s
          | Some tk \<Rightarrow> (case task_step ev t tk (py_pool s) of
                (tk', p') \<Rightarrow> set_task t tk' (set_pool p' s)))))"

definition pool_sys_start :: pool_sys where
  "pool_sys_start = \<lparr>py_pool = pool_new, py_tasks = (\<lambda>_. None)\<rparr>"

end
