(* ===== verification/Daemon.thy ===== *)
theory Daemon
  imports Stream_Io Proxy_Common
begin

text \<open>
  \<open>wconnect/src/serving.rs\<close>: the daemon that other nodes reach.  Its port policy, the handlers
  of incoming UDP connections, QUIC connections and streams with their commands PING, FORWARD
  and CONNECT, and the loop of \<open>serve\<close> that ties the hub session, the incoming connections
  and the local IPC clients together.
\<close>

subsection \<open>Port policy\<close>

datatype allowed_ports = AllPorts | Whitelist "u16 set"

fun parse_ports :: "string list \<Rightarrow> u16 set \<Rightarrow> (u16 set, string) result" where
  "parse_ports [] ports = Ok ports"
| "parse_ports (raw # rest) ports = (let part = trim raw in
     if part = [] then parse_ports rest ports
     else (case parse_u16 part of
             None \<Rightarrow> Err (''invalid port number: '' @ part)
           | Some port \<Rightarrow> parse_ports rest (insert port ports)))"

definition allowed_ports_parse :: "string \<Rightarrow> (allowed_ports, string) result" where
  "allowed_ports_parse s =
     (if s = [] then Ok AllPorts
      else rbind (parse_ports (split_on (CHR '','') s) {}) (\<lambda>ports.
        if ports = {} then Ok AllPorts else Ok (Whitelist ports)))"

definition is_allowed :: "allowed_ports \<Rightarrow> u16 \<Rightarrow> bool" where
  "is_allowed ports port = (case ports of AllPorts \<Rightarrow> True | Whitelist ps \<Rightarrow> port \<in> ps)"

definition parse_host_port :: "string \<Rightarrow> (string \<times> u16) option" where
  "parse_host_port target = (case rsplit_once (CHR '':'') target of
     None \<Rightarrow> None
   | Some (host, port_str) \<Rightarrow>
       if host = [] then None
       else (case parse_u16 port_str of None \<Rightarrow> None | Some port \<Rightarrow> Some (host, port)))"

subsection \<open>A stream's task\<close>

text \<open>
  What \<open>TcpStream::connect\<close> is called with, the world of a task that serves one stream (the
  stream, the socket it opened, the connects it tried), and the policy the daemon was
  started with.
\<close>

datatype tcp_target = SocketAddr string | HostPort string u16

record stream_world =
  sw_stream :: endpoint
  sw_tcp :: "endpoint option"
  sw_connects :: "tcp_target list"

record policy =
  po_allowed_ports :: "allowed_ports option"
  po_allow_egress :: bool

type_synonym tcp_connect = "tcp_target \<Rightarrow> endpoint + string"

definition on_quic :: "(endpoint, 'a, 'e) prog \<Rightarrow> (stream_world, 'a, 'e) prog" where
  "on_quic m = (\<lambda>s. case m (sw_stream s) of (r, q) \<Rightarrow> (r, s\<lparr>sw_stream := q\<rparr>))"

definition tcp_open :: "tcp_connect \<Rightarrow> tcp_target \<Rightarrow> (stream_world, endpoint, string) prog" where
  "tcp_open connect target = (\<lambda>s.
     (case connect target of Inl tcp \<Rightarrow> Ok tcp | Inr e \<Rightarrow> Err e,
      s\<lparr>sw_connects := sw_connects s @ [target]\<rparr>))"

text \<open>An answer that ends the stream; failures to send it are ignored.\<close>

definition answer_line :: "string \<Rightarrow> (stream_world, unit, string) prog" where
  "answer_line line =
     pbind (ignoring (on_quic (ep_write_all (str_bytes (line @ [CHR 0x0A]))))) (\<lambda>_.
     ignoring (on_quic ep_finish_send))"

definition relay_tcp :: "endpoint \<Rightarrow> (stream_world, unit, string) prog" where
  "relay_tcp tcp = (\<lambda>s. case relay tcp (sw_stream s) of (tcp', q) \<Rightarrow>
     (Ok (), s\<lparr>sw_stream := q, sw_tcp := Some tcp'\<rparr>))"

text \<open>From the connect on, \<open>handle_forward_stream\<close> and \<open>handle_connect_stream\<close> are the same.\<close>

definition connect_and_relay :: "tcp_connect \<Rightarrow> tcp_target \<Rightarrow> (stream_world, unit, string) prog" where
  "connect_and_relay connect target =
     pcatch (tcp_open connect target)
       (\<lambda>tcp. pcatch (on_quic (ep_write_all (str_bytes (''OK'' @ [CHR 0x0A]))))
          (\<lambda>_. relay_tcp tcp)
          (\<lambda>_. modify (\<lambda>s. s\<lparr>sw_tcp := Some tcp\<rparr>)))
       (\<lambda>e. answer_line (''ERROR '' @ e))"

definition local_target :: "u16 \<Rightarrow> tcp_target" where
  "local_target port = SocketAddr (''127.0.0.1:'' @ u16_to_string port)"

definition port_allowed :: "allowed_ports option \<Rightarrow> u16 \<Rightarrow> bool" where
  "port_allowed allowed port = (case allowed of None \<Rightarrow> False | Some ports \<Rightarrow> is_allowed ports port)"

definition handle_forward_stream ::
  "tcp_connect \<Rightarrow> allowed_ports option \<Rightarrow> u16 \<Rightarrow> (stream_world, unit, string) prog"
where
  "handle_forward_stream connect allowed port =
     (if \<not> port_allowed allowed port then answer_line ''ERROR port not allowed''
      else connect_and_relay connect (local_target port))"

definition handle_connect_stream ::
  "tcp_connect \<Rightarrow> bool \<Rightarrow> string \<Rightarrow> (stream_world, unit, string) prog"
where
  "handle_connect_stream connect allow_egress target =
     (if \<not> allow_egress then answer_line ''ERROR egress not allowed''
      else (case parse_host_port target of
              None \<Rightarrow> answer_line ''ERROR invalid target format''
            | Some (host, port) \<Rightarrow> connect_and_relay connect (HostPort host port)))"

text \<open>The command is the first line of what the first read returns.\<close>

definition command_line :: "bytes \<Rightarrow> bytes" where
  "command_line data = takeWhile (\<lambda>b. b \<noteq> 0x0A) data"

definition handle_command :: "tcp_connect \<Rightarrow> policy \<Rightarrow> bytes \<Rightarrow> (stream_world, unit, string) prog" where
  "handle_command connect policy line =
     (if line = str_bytes ''PING'' then answer_line ''PONG''
      else if starting_with line (str_bytes ''FORWARD '') then
        (case parse_u16 (trim (from_utf8_lossy (drop 8 line))) of
           Some port \<Rightarrow> handle_forward_stream connect (po_allowed_ports policy) port
         | None \<Rightarrow> answer_line ''ERROR invalid port'')
      else if starting_with line (str_bytes ''CONNECT '') then
        handle_connect_stream connect (po_allow_egress policy) (trim (from_utf8_lossy (drop 8 line)))
      else answer_line ''ERROR unknown command'')"

definition handle_quic_stream :: "tcp_connect \<Rightarrow> policy \<Rightarrow> (stream_world, unit, string) prog" where
  "handle_quic_stream connect policy =
     pcatch (on_quic (ep_read 1024))
       (\<lambda>buf. if buf = [] then ret () else handle_command connect policy (command_line buf))
       (\<lambda>_. ret ())"

definition serve_stream :: "tcp_connect \<Rightarrow> policy \<Rightarrow> endpoint \<Rightarrow> stream_world" where
  "serve_stream connect policy q =
     snd (handle_quic_stream connect policy \<lparr>sw_stream = q, sw_tcp = None, sw_connects = []\<rparr>)"

subsection \<open>A peer's connections\<close>

text \<open>
  \<open>handle_quic_connection\<close>: every stream accepted gets a task of its own, until accepting
  fails; the tasks share nothing but the policy.
\<close>

fun handle_quic_connection ::
  "tcp_connect \<Rightarrow> policy \<Rightarrow> (endpoint + string) list \<Rightarrow> stream_world list"
where
  "handle_quic_connection connect policy [] = []"
| "handle_quic_connection connect policy (Inl q # rest) =
     serve_stream connect policy q # handle_quic_connection connect policy rest"
| "handle_quic_connection connect policy (Inr e # rest) = []"

text \<open>
  \<open>handle_udp_connection\<close>: the datagrams sent in answer to those received (or the error that
  ends the connection), given how each send ends.
\<close>

fun handle_udp_connection :: "(bytes + string) list \<Rightarrow> string option list \<Rightarrow> bytes list" where
  "handle_udp_connection [] sends = []"
| "handle_udp_connection (Inr e # rest) sends = []"
| "handle_udp_connection (Inl data # rest) sends =
     (if data = str_bytes ''ping'' then
        (case sends of
           Some e # _ \<Rightarrow> []
         | _ \<Rightarrow> str_bytes ''pong'' # handle_udp_connection rest (tl sends))
      else handle_udp_connection rest sends)"

subsection \<open>serve\<close>

text \<open>
  The loop's state: whether the connect task is still awaited, the session task, the shared
  handle the IPC clients read, and the tasks spawned so far.  \<open>'h\<close> is the serving handle.
\<close>

datatype spawned = UdpTask nat | QuicTask nat policy | IpcTask nat

record 'h serve_state =
  sv_handle :: "'h option"
  sv_session :: bool
  sv_spawned :: "spawned list"
  sv_returned :: "(unit, string) result option"

text \<open>A spawned task's result: its own, or that it panicked.\<close>

datatype 'a join = Joined 'a | TaskPanicked string

datatype 'h serve_event =
    HandleReady 'h
  | ConnectDone "('h, string) result join"
  | SessionDone "(unit, string) result join"
  | UdpIncoming "(nat, string) result"
  | QuicIncoming "(nat, string) result"
  | IpcAccepted "(nat, string) result"

definition serve_start :: "'h serve_state" where
  "serve_start = \<lparr>sv_handle = None, sv_session = False, sv_spawned = [], sv_returned = None\<rparr>"

definition spawn_task :: "spawned \<Rightarrow> 'h serve_state \<Rightarrow> 'h serve_state" where
  "spawn_task t s = s\<lparr>sv_spawned := sv_spawned s @ [t]\<rparr>"

definition serve_return :: "(unit, string) result \<Rightarrow> 'h serve_state \<Rightarrow> 'h serve_state" where
  "serve_return r s = s\<lparr>sv_returned := Some r\<rparr>"

text \<open>
  One event; \<open>HandleReady\<close> is the connect task's own write of the handle.  The connect task is
  only awaited while there is no session, the session only once there is one, and the
  incoming queues only exist from then on.
\<close>

fun serve_on :: "policy \<Rightarrow> 'h serve_event \<Rightarrow> 'h serve_state \<Rightarrow> 'h serve_state" where
  "serve_on policy ev s =
     (if sv_returned s \<noteq> None then s
      else (case ev of
          HandleReady h \<Rightarrow> if sv_session s then s else s\<lparr>sv_handle := Some h\<rparr>
        | ConnectDone r \<Rightarrow>
            if sv_session s then s
            else (case r of
                Joined (Ok h) \<Rightarrow> s\<lparr>sv_handle := Some h, sv_session := True\<rparr>
              | Joined (Err e) \<Rightarrow> serve_return (Err e) s
              | Joined Panic \<Rightarrow> s
              | TaskPanicked e \<Rightarrow> serve_return (Err (''Connect task panicked: '' @ e)) s)
        | SessionDone r \<Rightarrow>
            if \<not> sv_session s then s
            else (case r of
                Joined (Ok _) \<Rightarrow> serve_return (Ok ()) s
              | Joined (Err e) \<Rightarrow> serve_return (Err (''Session error: '' @ e)) s
              | Joined Panic \<Rightarrow> s
              | TaskPanicked e \<Rightarrow> serve_return (Err (''Session task panicked: '' @ e)) s)
        | UdpIncoming r \<Rightarrow>
            if \<not> sv_session s then s
            else (case r of Ok c \<Rightarrow> spawn_task (UdpTask c) s | _ \<Rightarrow> s)
        | QuicIncoming r \<Rightarrow>
            if \<not> sv_session s then s
            else (case r of Ok c \<Rightarrow> spawn_task (QuicTask c policy) s | _ \<Rightarrow> s)
        | IpcAccepted r \<Rightarrow> (case r of Ok c \<Rightarrow> spawn_task (IpcTask c) s | _ \<Rightarrow> s)))"

end
