(* ===== verification/Commands.thy ===== *)
theory Commands
  imports Connect Ipc Proxy_Common Daemon "HOL-Library.Signed_Division"
begin

text \<open>
  The command line: \<open>wconnect/src/main.rs\<close> and \<open>wconnect/src/p2p.rs\<close>.  Every command loads
  the node from the profile's store, looks at its state, and calls the operations of
  \<open>Node\<close> and \<open>Connect\<close>, the running daemon's socket, or a peer.  The argument
  parser, the file mode mask, the logging set-up and forking into the background are not
  modelled, nor are the durations that are printed.
\<close>

subsection \<open>The shell\<close>

text \<open>A command's process: the host it runs on and the texts it has printed, line ends left out.\<close>

record ('w, 's) shell =
  sh_host :: "('w, 's) host"
  sh_out :: "string list"

text \<open>
  What a command is given: the libraries, the hub, the store at a directory, the directories
  that the platform names, the options, and how connecting to a daemon's socket ends.
\<close>

record ('w, 's) cli =
  cl_prims :: prims
  cl_hub :: "'w hub"
  cl_store :: "string \<Rightarrow> 's store_ops"
  cl_config_dir :: "string option"
  cl_hub_override :: "string option"
  cl_profile :: string
  cl_rand :: "nat \<Rightarrow> u8"
  cl_json :: json
  cl_server :: "string \<Rightarrow> i32 \<Rightarrow> endpoint + string"

datatype cli_error =
    Bail string
  | NodeFailed string node_state_error
  | P2pFailed string p2p_error
  | ClientFailed string string

definition println :: "string \<Rightarrow> (('w, 's) shell, unit, 'e) prog" where
  "println line = modify (\<lambda>sh. sh\<lparr>sh_out := sh_out sh @ [line]\<rparr>)"

definition on_host :: "(('w, 's) host, 'a, 'e) prog \<Rightarrow> (('w, 's) shell, 'a, 'e) prog" where
  "on_host m = (\<lambda>sh. case m (sh_host sh) of (r, h) \<Rightarrow> (r, sh\<lparr>sh_host := h\<rparr>))"

text \<open>An operation of a node that the command holds: its result and the node it leaves.\<close>

definition with_node :: "(('w, 's) sys, 'a, 'e) prog \<Rightarrow> node \<Rightarrow> (('w, 's) shell, 'a \<times> node, 'e) prog" where
  "with_node m n = (\<lambda>sh. case m (host.extend (sh_host sh) (sys.fields n)) of
     (r, s) \<Rightarrow> (rbind r (\<lambda>x. Ok (x, sy_node s)), sh\<lparr>sh_host := host.truncate s\<rparr>))"

definition store_dir :: "string \<Rightarrow> string \<Rightarrow> string" where
  "store_dir config_dir profile = config_dir @ ''/wconnect/'' @ profile"

definition get_storage :: "('w, 's) cli \<Rightarrow> ('s store_ops \<times> string, cli_error) result" where
  "get_storage E = (case cl_config_dir E of
     None \<Rightarrow> Err (Bail ''could not determine config directory'')
   | Some dir \<Rightarrow> Ok (cl_store E (store_dir dir (cl_profile E)),
       case cl_hub_override E of Some addr \<Rightarrow> addr | None \<Rightarrow> DEFAULT_HUB_ADDR))"

definition auth_failed :: string where
  "auth_failed = ''Authentication with the hub failed. If your node was removed remotely, run `wconnect logout` to clear local state.''"

definition load_node ::
  "('w, 's) cli \<Rightarrow> 's store_ops \<Rightarrow> string \<Rightarrow> (('w, 's) shell, node, cli_error) prog"
where
  "load_node E S addr =
     pcatch (on_host (restore_or_init_node (cl_prims E) (cl_hub E) S addr (cl_rand E))) ret
       (\<lambda>e. if err_is_unauthenticated e \<or> err_is_not_found e then fail (Bail auth_failed)
         else fail (NodeFailed ''failed to load node state'' e))"

text \<open>Storage and node, as nearly every command begins.\<close>

definition open_node ::
  "('w, 's) cli \<Rightarrow> (('w, 's) shell, 's store_ops \<times> node, cli_error) prog"
where
  "open_node E =
     pbind (lift (get_storage E)) (\<lambda>(S, addr).
     pbind (load_node E S addr) (\<lambda>n. ret (S, n)))"

text \<open>The two \<open>unwrap\<close>s of a registered node's group and number.\<close>

definition identity_of :: "node \<Rightarrow> (('w, 's) shell, string \<times> i32, 'e) prog" where
  "identity_of n =
     pbind (lift (expect (connectivity_group_id_of n))) (\<lambda>cg.
     pbind (lift (expect (node_number_of n))) (\<lambda>num. ret (cg, num)))"

definition print_identity :: "node \<Rightarrow> (('w, 's) shell, unit, 'e) prog" where
  "print_identity n =
     pbind (identity_of n) (\<lambda>(cg, num).
     pbind (println (''  Connectivity group: '' @ cg)) (\<lambda>_.
     println (''  Node number: '' @ i32_to_string num)))"

definition not_registered :: string where
  "not_registered = ''Not registered. Use 'wconnect register <token>' first.''"

definition already :: "string \<Rightarrow> node \<Rightarrow> string \<Rightarrow> (('w, 's) shell, 'a, cli_error) prog" where
  "already what n advice =
     pbind (identity_of n) (\<lambda>(cg, num).
     fail (Bail (''Already '' @ what @ '' as node '' @ i32_to_string num @ '' in group '' @ cg @ advice)))"

subsection \<open>Node life cycle\<close>

definition register_command :: "('w, 's) cli \<Rightarrow> string \<Rightarrow> (('w, 's) shell, unit, cli_error) prog" where
  "register_command E token =
     pbind (open_node E) (\<lambda>(S, n).
     if node_state_of n = Registered \<or> node_state_of n = Activated
     then already ''registered'' n ''. Use 'wconnect logout' to clear.''
     else
       pbind (println (''Registering with token '' @ token @ ''...'')) (\<lambda>_.
       pbind (perr (NodeFailed ''registration failed'') (with_node (register (cl_hub E) S token) n)) (\<lambda>(_, n').
       pbind (println ''Registration successful!'') (\<lambda>_.
       print_identity n'))))"

text \<open>The check for self-endorsement: what stands before the first dash.\<close>

definition names_node :: "string \<Rightarrow> i32 option \<Rightarrow> bool" where
  "names_node activation_code num =
     (case parse_i32 (takeWhile (\<lambda>c. c \<noteq> CHR ''-'') activation_code) of
        Some peer \<Rightarrow> num = Some peer | None \<Rightarrow> False)"

definition activate_command :: "('w, 's) cli \<Rightarrow> string \<Rightarrow> (('w, 's) shell, unit, cli_error) prog" where
  "activate_command E activation_code =
     pbind (open_node E) (\<lambda>(S, n).
     case node_state_of n of
       Pending \<Rightarrow> fail (Bail not_registered)
     | Activated \<Rightarrow> already ''activated'' n ''.''
     | Revoked \<Rightarrow> fail (Bail ''This node has been revoked from its group and cannot re-activate (a revoked node number is permanently retired). Use 'wconnect logout' to clean up, then register for a fresh node number.'')
     | Registered \<Rightarrow>
         if names_node activation_code (node_number_of n)
         then fail (Bail ''Cannot activate using your own activation code (self-endorsement). You need an activation code from a different node.'')
         else
           pbind (println (''Activating with activation code '' @ activation_code @ ''...'')) (\<lambda>_.
           pbind (perr (NodeFailed ''activation failed'')
             (with_node (activate (cl_prims E) (cl_hub E) (cl_rand E) activation_code) n)) (\<lambda>(_, n').
           pbind (println ''Activation successful!'') (\<lambda>_.
           print_identity n'))))"

definition logout_command :: "('w, 's) cli \<Rightarrow> (('w, 's) shell, unit, cli_error) prog" where
  "logout_command E =
     pbind (lift (get_storage E)) (\<lambda>(S, addr).
     pbind
       (pcatch (on_host (restore_or_init_node (cl_prims E) (cl_hub E) S addr (cl_rand E)))
         (\<lambda>n. pbind (perr (NodeFailed ''failed to logout'')
            (with_node (logout (cl_prims E) (cl_hub E) S) n)) (\<lambda>_. ret ()))
         (\<lambda>e. if err_is_unauthenticated e \<or> err_is_not_found e
           then perr (NodeFailed ''failed to delete local state'') (on_host (delete_state S))
           else fail (NodeFailed ''failed to load node state'' e))) (\<lambda>_.
     println ''Logged out.''))"


subsection \<open>Inspection\<close>

text \<open>A request to the daemon of a node, over a fresh connection to its socket.\<close>

definition ask_server ::
  "('w, 's) cli \<Rightarrow> string \<Rightarrow> i32 \<Rightarrow> ipc_request \<Rightarrow> (ipc_response, string) result option"
where
  "ask_server E cg num req = (case cl_server E cg num of
     Inr e \<Rightarrow> None
   | Inl ep \<Rightarrow> Some (fst (client_request (cl_json E) req [] ep)))"

definition get_activation_code_command ::
  "('w, 's) cli \<Rightarrow> ipc_ttl_profile \<Rightarrow> (('w, 's) shell, unit, cli_error) prog"
where
  "get_activation_code_command E profile =
     pbind (open_node E) (\<lambda>(S, n).
     if node_state_of n = Pending then fail (Bail not_registered)
     else
       pbind (identity_of n) (\<lambda>(cg, num).
       case ask_server E cg num (RqGetActivationCode profile) of
         None \<Rightarrow> fail (Bail ''Server not running. Start it with 'wconnect serve' first.'')
       | Some (Ok (SuccessResponse _ (ActivationCodeResponse (ActivationCodeData code)))) \<Rightarrow> println code
       | Some (Ok (ErrorResponse _ e)) \<Rightarrow> fail (Bail e)
       | Some (Ok _) \<Rightarrow> fail (Bail ''unexpected response from server'')
       | Some (Err e) \<Rightarrow> fail (ClientFailed ''failed to communicate with server'' e)
       | Some Panic \<Rightarrow> lift Panic))"

text \<open>\<open>now\<close> and \<open>millis\<close> in milliseconds; division goes towards zero.\<close>

definition format_last_seen :: "i64 \<Rightarrow> i64 \<Rightarrow> string" where
  "format_last_seen now millis =
     (if millis = 0 then ''never connected''
      else let s = sint (now - millis) sdiv 1000 in
        if s < 60 then ''connected just now''
        else if s < 3600 then ''connected '' @ int_to_string (s sdiv 60) @ ''m ago''
        else if s < 86400 then ''connected '' @ int_to_string (s sdiv 3600) @ ''h ago''
        else ''connected '' @ int_to_string (s sdiv 86400) @ ''d ago'')"

definition node_tags :: "node_info \<Rightarrow> string list" where
  "node_tags info =
     (if ni_is_self info then [''you''] else []) @
     (case ni_state info of
        Activated \<Rightarrow> [''activated''] | Registered \<Rightarrow> [''not activated'']
      | Revoked \<Rightarrow> [''revoked''] | Pending \<Rightarrow> [])"

definition node_line :: "i64 \<Rightarrow> node_info \<Rightarrow> string" where
  "node_line now info =
     ''  '' @ i32_to_string (ni_node_number info) @ '': '' @
     (if ni_name info = [] then ''(unnamed)'' else ni_name info) @
     (if node_tags info = [] then [] else '' ('' @ join_with '', '' (node_tags info) @ '')'') @ '' - '' @
     (if ni_is_online info then ''online'' else format_last_seen now (ni_last_seen_at_millis info))"

fun group_state_text :: "group_state \<Rightarrow> string" where
  "group_state_text Alone = ''Alone''"
| "group_state_text Bootstrap = ''Bootstrap''"
| "group_state_text NeedActivation = ''NeedActivation''"
| "group_state_text CanEndorse = ''CanEndorse''"
| "group_state_text AllActivated = ''AllActivated''"

fun println_all :: "string list \<Rightarrow> (('w, 's) shell, unit, 'e) prog" where
  "println_all [] = ret ()"
| "println_all (l # ls) = pbind (println l) (\<lambda>_. println_all ls)"

definition nodes_command :: "('w, 's) cli \<Rightarrow> i64 \<Rightarrow> (('w, 's) shell, unit, cli_error) prog" where
  "nodes_command E now =
     pbind (open_node E) (\<lambda>(S, n).
     if node_state_of n = Pending then fail (Bail not_registered)
     else
       pbind (lift (expect (connectivity_group_id_of n))) (\<lambda>cg.
       pbind (perr (NodeFailed ''failed to get group info'') (with_node (get_group_info (cl_hub E)) n))
         (\<lambda>(info, n').
       if gi_nodes info = [] then println ''No nodes in connectivity group.''
       else
         pbind (println (''Nodes in connectivity group '' @ cg @ '' (state: '' @
           group_state_text (gi_state info) @ ''):'')) (\<lambda>_.
         println_all (map (node_line now) (gi_nodes info))))))"

definition bool_text :: "bool \<Rightarrow> string" where
  "bool_text b = (if b then ''true'' else ''false'')"

definition i32_list_text :: "i32 list \<Rightarrow> string" where
  "i32_list_text ns = ''['' @ join_with '', '' (map i32_to_string ns) @ '']''"

definition endorsing_lines :: "endorsing_data \<Rightarrow> string list" where
  "endorsing_lines e =
     (if 0 < ed_codes_outstanding e
      then [''  Endorsing: '' @ nat_to_string (ed_codes_outstanding e) @ '' activation code(s) outstanding'']
      else []) @
     (if ed_nodes_awaiting_cosign e \<noteq> []
      then [''  Endorsing: awaiting cosign for node(s) '' @ i32_list_text (ed_nodes_awaiting_cosign e)]
      else [])"

definition print_server_status ::
  "('w, 's) cli \<Rightarrow> string \<Rightarrow> i32 \<Rightarrow> (('w, 's) shell, unit, 'e) prog"
where
  "print_server_status E cg num = (case ask_server E cg num RqStatus of
     None \<Rightarrow> println ''  Server: not running''
   | Some (Ok (SuccessResponse _ (StatusResponse s))) \<Rightarrow>
       pbind (println (''  Server: running (connected: '' @ bool_text (sd_connected s) @ '')'')) (\<lambda>_.
       println_all (case sd_endorsing s of Some e \<Rightarrow> endorsing_lines e | None \<Rightarrow> []))
   | Some Panic \<Rightarrow> lift Panic
   | Some _ \<Rightarrow> println ''  Server: running (status unavailable)'')"

definition status_command :: "('w, 's) cli \<Rightarrow> (('w, 's) shell, unit, cli_error) prog" where
  "status_command E =
     pbind (open_node E) (\<lambda>(S, n).
     if node_state_of n = Pending then println ''Not registered.''
     else
       pbind (identity_of n) (\<lambda>(cg, num).
       pbind (println ((if node_state_of n = Activated then ''Activated''
         else ''Registered (not yet activated)'') @ '':'')) (\<lambda>_.
       pbind (print_identity n) (\<lambda>_.
       print_server_status E cg num))))"

subsection \<open>The daemon's life cycle\<close>

definition read_registration_sync :: "('w, 's) cli \<Rightarrow> (('w, 's) shell, string \<times> i32, cli_error) prog" where
  "read_registration_sync E =
     pbind (lift (get_storage E)) (\<lambda>(S, addr).
     pbind (perr (NodeFailed ''failed to read registration'') (on_host (read_registration S))) (\<lambda>reg.
     pbind (lift (ok_or (Bail ''not registered'') reg)) (\<lambda>reg.
     ret (nr_connectivity_group_id reg, nr_node_number reg))))"

text \<open>The shutdown request is written out, not serialized; the answer is searched, not parsed.\<close>

definition shutdown_json :: string where
  "shutdown_json = ''{'' @ [CHR 0x22] @ ''cmd'' @ [CHR 0x22] @ '':'' @ [CHR 0x22] @ ''shutdown'' @ [CHR 0x22] @ ''}''"

definition ok_true :: string where
  "ok_true = [CHR 0x22] @ ''ok'' @ [CHR 0x22] @ '':true''"

definition stop_server :: "('w, 's) cli \<Rightarrow> (('w, 's) shell, unit, cli_error) prog" where
  "stop_server E =
     pbind (read_registration_sync E) (\<lambda>(cg, num).
     case cl_server E cg num of
       Inr e \<Rightarrow> fail (Bail ''server not running'')
     | Inl ep \<Rightarrow> (case ep_write_all (str_bytes (shutdown_json @ [CHR 0x0A])) ep of
           (Ok _, ep') \<Rightarrow> (case fst (read_line [] ep') of
               Ok response \<Rightarrow>
                 if contains response ok_true then println ''Server stopped.''
                 else fail (Bail (''Failed to stop server: '' @ trim response))
             | Err e \<Rightarrow> fail (ClientFailed ''failed to read'' e)
             | Panic \<Rightarrow> lift Panic)
         | _ \<Rightarrow> fail (ClientFailed ''failed to write'' [])))"


text \<open>
  How \<open>serve\<close> begins: it needs a registered node and the node's socket; \<open>bound\<close> is how
  binding it ends, with the socket's path as it is printed.  \<open>Daemon.serve_on\<close> is what it
  does from then on.
\<close>

definition policy_lines :: "policy \<Rightarrow> string list" where
  "policy_lines policy =
     [(case po_allowed_ports policy of
         Some AllPorts \<Rightarrow> ''  Port forwarding: all ports allowed''
       | Some (Whitelist ports) \<Rightarrow>
           ''  Port forwarding: allowed ports ['' @
             join_with '', '' (map u16_to_string (sorted_list_of_set ports)) @ '']''
       | None \<Rightarrow> ''  Port forwarding: disabled''),
      (if po_allow_egress policy then ''  Internet egress: enabled''
       else ''  Internet egress: disabled'')]"

definition start_serve_command ::
  "('w, 's) cli \<Rightarrow> policy \<Rightarrow> (string \<Rightarrow> i32 \<Rightarrow> (string, string) result) \<Rightarrow>
    (('w, 's) shell, node, cli_error) prog"
where
  "start_serve_command E policy bound =
     pbind (open_node E) (\<lambda>(S, n).
     if node_state_of n = Pending then fail (Bail not_registered)
     else
       pbind (identity_of n) (\<lambda>(cg, num).
       pbind (lift (map_err (ClientFailed ''failed to start IPC server'') (bound cg num))) (\<lambda>path.
       pbind (println (''Serving node '' @ i32_to_string num @ '' in group '' @ cg @
         '' (socket: '' @ path @ '')'')) (\<lambda>_.
       pbind (println_all (policy_lines policy)) (\<lambda>_.
       ret n)))))"

text \<open>
  How the two proxies begin; \<open>bound\<close> is how binding the address ends.  From then on they
  accept connections, each a task of its own (\<open>handle_client_connection\<close>,
  \<open>handle_http_connection\<close>) that shares the pool, and the cleaner's task runs
  \<open>cleanup_idle\<close> every \<open>CLEANUP_INTERVAL\<close>.
\<close>

fun state_text :: "node_state \<Rightarrow> string" where
  "state_text Pending = ''Pending''"
| "state_text Registered = ''Registered''"
| "state_text Activated = ''Activated''"
| "state_text Revoked = ''Revoked''"

definition start_proxy ::
  "('w, 's) cli \<Rightarrow> string \<Rightarrow> string \<Rightarrow> (unit, string) result \<Rightarrow> (string \<Rightarrow> string list) \<Rightarrow>
    (('w, 's) shell, node, cli_error) prog"
where
  "start_proxy E kind bind_addr bound banner =
     pbind (open_node E) (\<lambda>(S, n).
     if node_state_of n \<noteq> Activated
     then fail (Bail (''Node must be activated to use '' @ kind @ '' proxy. Current state: '' @
       state_text (node_state_of n)))
     else
       pbind (lift (map_err (ClientFailed (''failed to bind to '' @ bind_addr)) bound)) (\<lambda>_.
       pbind (println (kind @ '' proxy listening on '' @ bind_addr)) (\<lambda>_.
       pbind (println_all (banner bind_addr)) (\<lambda>_.
       ret n))))"

definition egress_line :: "i32 option \<Rightarrow> string" where
  "egress_line egress_node = (case egress_node of
     Some egress \<Rightarrow> ''  Internet egress: enabled via node '' @ i32_to_string egress
   | None \<Rightarrow> ''  Internet egress: disabled (wispers.link only)'')"

definition start_http_proxy ::
  "('w, 's) cli \<Rightarrow> string \<Rightarrow> (unit, string) result \<Rightarrow> i32 option \<Rightarrow> (('w, 's) shell, node, cli_error) prog"
where
  "start_http_proxy E bind_addr bound egress_node =
     start_proxy E ''HTTP'' bind_addr bound (\<lambda>addr.
       [egress_line egress_node,
        ''Example: curl --proxy http://'' @ addr @
          (if egress_node \<noteq> None then '' https://example.com/'' else '' http://3.wispers.link/'')])"

definition start_socks_proxy ::
  "('w, 's) cli \<Rightarrow> string \<Rightarrow> (unit, string) result \<Rightarrow> i32 option \<Rightarrow> (('w, 's) shell, node, cli_error) prog"
where
  "start_socks_proxy E bind_addr bound egress_node =
     start_proxy E ''SOCKS5'' bind_addr bound (\<lambda>addr.
       [egress_line egress_node,
        ''Example: curl --proxy socks5h://'' @ addr @
          (if egress_node \<noteq> None then '' https://example.com/'' else '' http://3.wispers.link/''),
        ''  (Use socks5h:// so the proxy resolves hostnames, not curl)''])"

text \<open>The accept loop of a proxy: a task for each client, whatever \<open>accept\<close> fails between.\<close>

fun accept_clients :: "(endpoint + string) list \<Rightarrow> endpoint list" where
  "accept_clients [] = []"
| "accept_clients (Inl client # rest) = client # accept_clients rest"
| "accept_clients (Inr e # rest) = accept_clients rest"

subsection \<open>Peers\<close>

text \<open>What \<open>ping\<close> and \<open>forward\<close> want of the node and of the target.\<close>

definition require_peer ::
  "node \<Rightarrow> i32 \<Rightarrow> string \<Rightarrow> (('w, 's) shell, unit, cli_error) prog"
where
  "require_peer n target_node what = (case node_state_of n of
     Pending \<Rightarrow> fail (Bail not_registered)
   | Registered \<Rightarrow> fail (Bail ''Not activated. Use 'wconnect activate <activation_code>' first.'')
   | Revoked \<Rightarrow> fail (Bail ''This node has been revoked. Use 'wconnect logout' to clean up.'')
   | Activated \<Rightarrow>
       pbind (lift (expect (node_number_of n))) (\<lambda>our_node.
       if target_node = our_node
       then fail (Bail (''Cannot '' @ what @ '' yourself (node '' @ i32_to_string our_node @ '').''))
       else ret ()))"

text \<open>A call on a UDP connection, whose agent lives in the host's world.\<close>

definition on_udp ::
  "(udp_connection \<times> 'w, 'a, p2p_error) prog \<Rightarrow> udp_connection \<Rightarrow>
    (('w, 's) shell, 'a \<times> udp_connection, p2p_error) prog"
where
  "on_udp m c = (\<lambda>sh. case m (c, ev_world (sh_host sh)) of
     (r, (c', w)) \<Rightarrow> (rbind r (\<lambda>x. Ok (x, c')), sh\<lparr>sh_host := (sh_host sh)\<lparr>ev_world := w\<rparr>\<rparr>))"

text \<open>\<open>meanwhile\<close> is what happens before the answer is read, \<open>expires\<close> whether five seconds
  pass first.\<close>

definition ping_udp ::
  "('w, 's) cli \<Rightarrow> 'w juice \<Rightarrow> ('w \<Rightarrow> 'w) \<Rightarrow> bool \<Rightarrow> node \<Rightarrow> i32 \<Rightarrow> (('w, 's) shell, unit, cli_error) prog"
where
  "ping_udp E J meanwhile expires n target_node =
     pbind (perr (P2pFailed ''failed to connect'')
       (with_node (connect_udp (cl_prims E) (cl_hub E) J (cl_rand E) target_node) n)) (\<lambda>(conn, n').
     pbind (println ''  Connected'') (\<lambda>_.
     pbind (perr (P2pFailed ''failed to send ping'')
       (on_udp (udp_send (cl_prims E) J (str_bytes ''ping'')) conn)) (\<lambda>(_, conn').
     pbind (modify (\<lambda>sh. sh\<lparr>sh_host := (sh_host sh)\<lparr>ev_world := meanwhile (ev_world (sh_host sh))\<rparr>\<rparr>)) (\<lambda>_.
     if expires then fail (Bail ''timeout waiting for pong'')
     else
       pbind (perr (P2pFailed ''failed to receive pong'') (on_udp (udp_recv (cl_prims E) J) conn'))
         (\<lambda>(response, _).
       println (if response = str_bytes ''pong'' then ''Ping successful!''
         else ''  Unexpected response: '' @ from_utf8_lossy response))))))"

text \<open>\<open>ping_quic\<close> on the stream it opened: the answer's bytes.\<close>

definition ping_stream :: "bool \<Rightarrow> (endpoint, bytes, string) prog" where
  "ping_stream expires =
     pbind (perr (\<lambda>_. ''failed to send PING'') (ep_write_all (str_bytes (''PING'' @ [CHR 0x0A])))) (\<lambda>_.
     pbind (perr (\<lambda>_. ''failed to finish stream'') ep_finish_send) (\<lambda>_.
     if expires then fail ''timeout waiting for PONG''
     else perr (\<lambda>_. ''failed to receive PONG'') (ep_read 1024)))"

definition ping_verdict :: "bytes \<Rightarrow> string" where
  "ping_verdict response =
     (if response = str_bytes (''PONG'' @ [CHR 0x0A]) then ''Ping successful!''
      else ''  Unexpected response: '' @ from_utf8_lossy response)"

text \<open>\<open>connected\<close> and \<open>opened\<close> are how connecting and opening the stream end.\<close>

definition ping_quic ::
  "(unit, p2p_error) result \<Rightarrow> endpoint + p2p_error \<Rightarrow> bool \<Rightarrow> (('w, 's) shell, unit, cli_error) prog"
where
  "ping_quic connected opened expires =
     pbind (lift (map_err (P2pFailed ''failed to connect'') connected)) (\<lambda>_.
     pbind (println ''  Connected'') (\<lambda>_.
     case opened of
       Inr e \<Rightarrow> fail (P2pFailed ''failed to open stream'' e)
     | Inl q \<Rightarrow>
         pbind (println ''  Stream opened'') (\<lambda>_.
         pbind (lift (map_err Bail (fst (ping_stream expires q)))) (\<lambda>response.
         println (ping_verdict response)))))"

text \<open>\<open>ping\<close>, up to the transport's own part.\<close>

definition ping_command ::
  "('w, 's) cli \<Rightarrow> i32 \<Rightarrow> bool \<Rightarrow> (node \<Rightarrow> (('w, 's) shell, unit, cli_error) prog) \<Rightarrow>
    (('w, 's) shell, unit, cli_error) prog"
where
  "ping_command E target_node use_quic transport =
     pbind (open_node E) (\<lambda>(S, n).
     pbind (require_peer n target_node ''ping'') (\<lambda>_.
     pbind (println (''Pinging node '' @ i32_to_string target_node @ '' via '' @
       (if use_quic then ''QUIC'' else ''UDP'') @ ''...'')) (\<lambda>_.
     transport n)))"

text \<open>One local connection that \<open>forward\<close> has accepted, and the stream opened for it.\<close>

definition handle_forward_connection ::
  "u16 \<Rightarrow> endpoint + string \<Rightarrow> endpoint \<Rightarrow> (unit, string) result \<times> endpoint \<times> endpoint option"
where
  "handle_forward_connection remote_port opened tcp = (case opened of
     Inr e \<Rightarrow> (Err ''failed to open QUIC stream'', tcp, None)
   | Inl stream \<Rightarrow>
       (case pbind (perr (\<lambda>_. ''failed to send FORWARD command'')
               (ep_write_all (str_bytes (forward_command remote_port))))
             (\<lambda>_. perr (\<lambda>_. ''failed to read response'') (ep_read 256)) stream of
          (Ok buf, q) \<Rightarrow>
            (let response = trim (from_utf8_lossy buf) in
             if response = ''OK'' then (case relay tcp q of (tcp', q') \<Rightarrow> (Ok (), tcp', Some q'))
             else (case strip_prefix ''ERROR '' response of
                     Some msg \<Rightarrow> (Err (''Remote error: '' @ msg), tcp, Some q)
                   | None \<Rightarrow> (Err (''Unexpected response: '' @ response), tcp, Some q)))
        | (Err e, q) \<Rightarrow> (Err e, tcp, Some q)
        | (Panic, q) \<Rightarrow> (Panic, tcp, Some q)))"

text \<open>
  The accept loop of \<open>forward\<close>: a task for each connection, with its number, until
  \<open>accept\<close> fails or Ctrl-C comes; the result, the connections handed on and what is printed.
\<close>

datatype forward_event = AcceptedLocal endpoint string | AcceptFailed string | CtrlC

fun forward_loop ::
  "nat \<Rightarrow> forward_event list \<Rightarrow> ((unit, string) result option) \<times> (nat \<times> endpoint) list \<times> string list"
where
  "forward_loop k [] = (None, [], [])"
| "forward_loop k (AcceptedLocal tcp peer # evs) =
     (case forward_loop (k + 1) evs of (r, tasks, out) \<Rightarrow>
        (r, (k + 1, tcp) # tasks,
         (''['' @ nat_to_string (k + 1) @ ''] Accepted connection from '' @ peer) # out))"
| "forward_loop k (AcceptFailed e # evs) = (Some (Err ''failed to accept connection''), [], [])"
| "forward_loop k (CtrlC # evs) =
     (Some (Ok ()), [], [''Stopping. Total connections forwarded: '' @ nat_to_string k])"

definition start_forward_command ::
  "('w, 's) cli \<Rightarrow> u16 \<Rightarrow> i32 \<Rightarrow> u16 \<Rightarrow> (unit, string) result \<Rightarrow> (unit, p2p_error) result \<Rightarrow>
    (('w, 's) shell, unit, cli_error) prog"
where
  "start_forward_command E local_port target_node remote_port bound connected =
     (if local_port = 0 then fail (Bail ''Local port cannot be 0'')
      else if remote_port = 0 then fail (Bail ''Remote port cannot be 0'')
      else
        pbind (open_node E) (\<lambda>(S, n).
        pbind (require_peer n target_node ''forward to'') (\<lambda>_.
        pbind (println (''Forwarding localhost:'' @ u16_to_string local_port @ '' -> node '' @
          i32_to_string target_node @ '':localhost:'' @ u16_to_string remote_port)) (\<lambda>_.
        pbind (lift (map_err (ClientFailed (''failed to bind to port '' @ u16_to_string local_port)) bound)) (\<lambda>_.
        pbind (println (''Listening on 127.0.0.1:'' @ u16_to_string local_port)) (\<lambda>_.
        pbind (println (''Connecting to node '' @ i32_to_string target_node @ ''...'')) (\<lambda>_.
        pbind (lift (map_err (P2pFailed ''failed to connect to target node'') connected)) (\<lambda>_.
        pbind (println '' connected'') (\<lambda>_.
        println ''Press Ctrl+C to stop'')))))))))"

subsection \<open>The commands\<close>

text \<open>\<open>enum Command\<close>; \<open>CmdServe\<close> has the options daemon, stop, allow-port-forwarding and
  allow-egress.\<close>

datatype cli_command =
    CmdRegister string
  | CmdActivate string
  | CmdGetActivationCode ipc_ttl_profile
  | CmdLogout
  | CmdNodes
  | CmdStatus
  | CmdServe bool bool "string option" bool
  | CmdPing i32 bool
  | CmdForward u16 i32 u16
  | CmdProxyHttp string "i32 option"
  | CmdProxySocks string "i32 option"

text \<open>What the commands meet outside: the clock, sockets to bind, peers, and how long they take.\<close>

record 'w outside =
  ou_now :: i64
  ou_socket :: "string \<Rightarrow> i32 \<Rightarrow> (string, string) result"
  ou_bind :: "string \<Rightarrow> (unit, string) result"
  ou_connected :: "i32 \<Rightarrow> (unit, p2p_error) result"
  ou_opened :: "i32 \<Rightarrow> endpoint + p2p_error"
  ou_juice :: "'w juice"
  ou_meanwhile :: "'w \<Rightarrow> 'w"
  ou_expires :: bool
  ou_daemonized :: "string \<Rightarrow> i32 \<Rightarrow> (unit, string) result"

definition async_main ::
  "('w, 's) cli \<Rightarrow> 'w outside \<Rightarrow> policy \<Rightarrow> cli_command \<Rightarrow> (('w, 's) shell, unit, cli_error) prog"
where
  "async_main E out policy command = (case command of
     CmdRegister token \<Rightarrow> register_command E token
   | CmdActivate activation_code \<Rightarrow> activate_command E activation_code
   | CmdGetActivationCode profile \<Rightarrow> get_activation_code_command E profile
   | CmdLogout \<Rightarrow> logout_command E
   | CmdNodes \<Rightarrow> nodes_command E (ou_now out)
   | CmdStatus \<Rightarrow> status_command E
   | CmdServe _ _ _ _ \<Rightarrow> pbind (start_serve_command E policy (ou_socket out)) (\<lambda>_. ret ())
   | CmdPing target use_quic \<Rightarrow> ping_command E target use_quic (\<lambda>n.
       if use_quic then ping_quic (ou_connected out target) (ou_opened out target) (ou_expires out)
       else ping_udp E (ou_juice out) (ou_meanwhile out) (ou_expires out) n target)
   | CmdForward local_port target remote_port \<Rightarrow>
       start_forward_command E local_port target remote_port
         (ou_bind out (''127.0.0.1:'' @ u16_to_string local_port)) (ou_connected out target)
   | CmdProxyHttp bind_addr egress \<Rightarrow>
       pbind (start_http_proxy E bind_addr (ou_bind out bind_addr) egress) (\<lambda>_. ret ())
   | CmdProxySocks bind_addr egress \<Rightarrow>
       pbind (start_socks_proxy E bind_addr (ou_bind out bind_addr) egress) (\<lambda>_. ret ()))"

text \<open>The options of \<open>serve\<close>, read before anything else is done.\<close>

definition serve_options :: "cli_command \<Rightarrow> (policy, string) result" where
  "serve_options command = (case command of
     CmdServe _ _ ports egress \<Rightarrow> (case ports of
        Some value \<Rightarrow> rbind (allowed_ports_parse value) (\<lambda>allowed.
          Ok \<lparr>po_allowed_ports = Some allowed, po_allow_egress = egress\<rparr>)
      | None \<Rightarrow> Ok \<lparr>po_allowed_ports = None, po_allow_egress = egress\<rparr>)
   | _ \<Rightarrow> Ok \<lparr>po_allowed_ports = None, po_allow_egress = False\<rparr>)"

text \<open>\<open>main\<close> once the arguments are parsed; \<open>ou_daemonized\<close> is how forking away ends.\<close>

definition main_command ::
  "('w, 's) cli \<Rightarrow> 'w outside \<Rightarrow> cli_command \<Rightarrow> (('w, 's) shell, unit, cli_error) prog"
where
  "main_command E out command =
     pbind (lift (map_err Bail (serve_options command))) (\<lambda>policy.
     case command of
       CmdServe _ True _ _ \<Rightarrow> stop_server E
     | CmdServe True False _ _ \<Rightarrow>
         pbind (read_registration_sync E) (\<lambda>(cg, num).
         pbind (lift (map_err (ClientFailed ''failed to daemonize'') (ou_daemonized out cg num))) (\<lambda>_.
         async_main E out policy command))
     | _ \<Rightarrow> async_main E out policy command)"

lemma bad_ports_stop_first:
  assumes "allowed_ports_parse value = Err e"
  shows "main_command E out (CmdServe daemon stop (Some value) egress) sh = (Err (Bail e), sh)"
  using assms by (simp add: main_command_def serve_options_def pbind_def)

end
