(* ===== verification/Daemon_Props.thy ===== *)
theory Daemon_Props
  imports Daemon
begin

text \<open>
  What the daemon does with the commands it is sent: which connects it tries under which
  policy, how it answers, and how its reading of a command and the proxies' reading of its
  answer depend on the pieces in which they arrive.
\<close>

subsection \<open>The calls\<close>

lemma answer_line_run:
  "answer_line line s = (Ok (), s\<lparr>sw_stream :=
     snd (ep_finish_send (snd (ep_write_all (str_bytes (line @ [CHR 0x0A])) (sw_stream s))))\<rparr>)"
  by (auto simp: answer_line_def pbind_def ignoring_def on_quic_def split: prod.splits)

lemma ep_calls_out:
  "ep_writes ep = [] \<Longrightarrow> snd (ep_write_all bs ep) = ep\<lparr>ep_out := ep_out ep @ bs\<rparr>"
  "ep_finish ep = None \<Longrightarrow> snd (ep_finish_send ep) = ep\<lparr>ep_closed := True\<rparr>"
  by (simp_all add: ep_write_all_def ep_finish_send_def)

lemma connect_and_relay_connects:
  "sw_connects (snd (connect_and_relay connect target s)) = sw_connects s @ [target]"
proof (cases "connect target")
  case (Inr e)
  then show ?thesis by (simp add: connect_and_relay_def tcp_open_def pcatch_def answer_line_run)
next
  case (Inl tcp)
  obtain r q where w: "ep_write_all (str_bytes (''OK'' @ [CHR 0x0A])) (sw_stream s) = (r, q)"
    by (cases "ep_write_all (str_bytes (''OK'' @ [CHR 0x0A])) (sw_stream s)")
  with Inl show ?thesis
    by (cases r) (simp_all add: connect_and_relay_def tcp_open_def pcatch_def on_quic_def relay_tcp_def
        split: prod.splits)
qed

lemma answer_line_connects [simp]: "sw_connects (snd (answer_line line s)) = sw_connects s"
  by (simp add: answer_line_run)

text \<open>The connects a command can lead to.\<close>

definition permitted :: "policy \<Rightarrow> tcp_target \<Rightarrow> bool" where
  "permitted policy target \<longleftrightarrow>
     (\<exists>port. target = local_target port \<and> port_allowed (po_allowed_ports policy) port) \<or>
     (\<exists>host port. target = HostPort host port \<and> host \<noteq> [] \<and> po_allow_egress policy)"

lemma handle_command_connects:
  "sw_connects (snd (handle_command connect policy line s)) = sw_connects s \<or>
     (\<exists>target. permitted policy target \<and>
        sw_connects (snd (handle_command connect policy line s)) = sw_connects s @ [target])"
proof -
  have forward: "?thesis" if "handle_command connect policy line =
      handle_forward_stream connect (po_allowed_ports policy) port" for port
    using that connect_and_relay_connects
    by (cases "port_allowed (po_allowed_ports policy) port")
      (auto simp: handle_forward_stream_def permitted_def)
  have egress: "?thesis" if "handle_command connect policy line =
      handle_connect_stream connect (po_allow_egress policy) target" for target
  proof (cases "po_allow_egress policy")
    case False
    with that show ?thesis by (simp add: handle_connect_stream_def)
  next
    case True
    show ?thesis
    proof (cases "parse_host_port target")
      case None
      with True that show ?thesis by (simp add: handle_connect_stream_def)
    next
      case (Some hp)
      moreover have "fst hp \<noteq> []"
        using Some by (auto simp: parse_host_port_def split: option.splits if_splits)
      ultimately show ?thesis
        using True that connect_and_relay_connects
        by (cases hp) (auto simp: handle_connect_stream_def permitted_def)
    qed
  qed
  show ?thesis
  proof (cases "line = str_bytes ''PING'' \<or> \<not> (starting_with line (str_bytes ''FORWARD '') \<or>
      starting_with line (str_bytes ''CONNECT ''))")
    case True
    then show ?thesis by (auto simp: handle_command_def)
  next
    case False
    show ?thesis
    proof (cases "starting_with line (str_bytes ''FORWARD '')")
      case True
      with False forward show ?thesis
        by (cases "parse_u16 (trim (from_utf8_lossy (drop 8 line)))") (auto simp: handle_command_def)
    next
      case f: False
      with False show ?thesis by (intro egress [of "trim (from_utf8_lossy (drop 8 line))"])
          (simp add: handle_command_def)
    qed
  qed
qed

lemma serve_stream_connects:
  "sw_connects (serve_stream connect policy q) = [] \<or>
     (\<exists>target. permitted policy target \<and> sw_connects (serve_stream connect policy q) = [target])"
proof -
  obtain r q1 where r: "ep_read 1024 q = (r, q1)" by (cases "ep_read 1024 q")
  let ?s = "\<lparr>sw_stream = q1, sw_tcp = None, sw_connects = []\<rparr>"
  have "serve_stream connect policy q = ?s \<or>
      (\<exists>line. serve_stream connect policy q = snd (handle_command connect policy line ?s))"
    using r by (cases r) (auto simp: serve_stream_def handle_quic_stream_def pcatch_def on_quic_def)
  then show ?thesis
    using handle_command_connects [of connect policy _ ?s] by fastforce
qed

subsection \<open>Commands as the proxies send them\<close>

lemma newline_byte: "(of_nat (of_char (CHR 0x0A)) :: u8) = 0x0A"
  by simp

lemma newline_byte_iff: "(of_nat (of_char c) :: u8) = 0x0A \<longleftrightarrow> c = CHR 0x0A"
proof -
  have "str_bytes [c] = str_bytes [CHR 0x0A] \<longleftrightarrow> c = CHR 0x0A" by (simp del: str_bytes_Nil)
  then show ?thesis by (simp add: str_bytes_def)
qed

lemma command_line_str:
  assumes "CHR 0x0A \<notin> set s"
  shows "command_line (str_bytes (s @ CHR 0x0A # r)) = str_bytes s" and "command_line (str_bytes s) = str_bytes s"
proof -
  have "\<forall>b \<in> set (str_bytes s). b \<noteq> 0x0A"
    using assms by (auto simp: str_bytes_def newline_byte_iff)
  then have "takeWhile (\<lambda>b. b \<noteq> 0x0A) (str_bytes s @ bs) = str_bytes s @ takeWhile (\<lambda>b. b \<noteq> 0x0A) bs" for bs
    by (simp add: takeWhile_append2)
  note tw = this
  have "str_bytes (s @ CHR 0x0A # r) = str_bytes s @ 0x0A # str_bytes r"
    by (simp add: str_bytes_def)
  then show "command_line (str_bytes (s @ CHR 0x0A # r)) = str_bytes s"
    by (simp only: command_line_def tw) simp
  show "command_line (str_bytes s) = str_bytes s"
    using tw [of "[]"] by (simp add: command_line_def)
qed

text \<open>A stream whose first piece is a command (whole, or cut short), on a quiet connection.\<close>

definition commanded :: "endpoint \<Rightarrow> string \<Rightarrow> arrival list \<Rightarrow> bool" where
  "commanded q text rest \<longleftrightarrow> ep_in q = Got (str_bytes text) # rest \<and> text \<noteq> [] \<and> length text \<le> 1024 \<and>
     ep_writes q = [] \<and> ep_finish q = None \<and> ep_out q = []"

lemma serve_stream_commanded:
  assumes "commanded q text rest"
  shows "serve_stream connect policy q = snd (handle_command connect policy (command_line (str_bytes text))
    \<lparr>sw_stream = q\<lparr>ep_in := rest\<rparr>, sw_tcp = None, sw_connects = []\<rparr>)"
  using assms by (simp add: serve_stream_def handle_quic_stream_def pcatch_def on_quic_def ep_read_def commanded_def)

lemma handle_command_forward:
  assumes "trim text = u16_to_string port" and "utf8_valid (str_bytes text)"
  shows "handle_command connect policy (str_bytes (''FORWARD '' @ text)) =
    handle_forward_stream connect (po_allowed_ports policy) port"
proof -
  have "drop 8 (str_bytes (''FORWARD '' @ text)) = str_bytes text" by (simp add: str_bytes_def)
  moreover have "starting_with (str_bytes (''FORWARD '' @ text)) (str_bytes ''FORWARD '')"
    by (simp del: append_Cons)
  moreover have "str_bytes (''FORWARD '' @ text) \<noteq> str_bytes ''PING''" by (simp del: str_bytes_append)
  ultimately show ?thesis using assms by (simp add: handle_command_def)
qed

lemma trim_u16 [simp]: "trim (u16_to_string port) = u16_to_string port"
  using u16_to_string_visible(1) [of port] u16_to_string_visible(2) [of _ port] by (intro trim_visible) auto

lemma utf8_u16: "utf8_valid (str_bytes (u16_to_string port))"
  using u16_to_string_visible(3) by (intro utf8_valid_ascii) (auto simp: ascii_def)

lemma no_newline_u16: "CHR 0x0A \<notin> set (u16_to_string port)"
  using u16_to_string_visible(2) [of "CHR 0x0A" port] by (auto simp: visible_def)

text \<open>FORWARD, with what follows the port in the same piece, reaches the port it names.\<close>

lemma serve_forward:
  assumes "commanded q (''FORWARD '' @ u16_to_string port @ tail) rest"
    and "tail = [] \<or> hd tail = CHR 0x0A"
  shows "serve_stream connect policy q =
    snd (handle_forward_stream connect (po_allowed_ports policy) port
      \<lparr>sw_stream = q\<lparr>ep_in := rest\<rparr>, sw_tcp = None, sw_connects = []\<rparr>)"
proof -
  have "command_line (str_bytes (''FORWARD '' @ u16_to_string port @ tail)) =
      str_bytes (''FORWARD '' @ u16_to_string port)"
    using assms(2) no_newline_u16 command_line_str(1) [of "''FORWARD '' @ u16_to_string port" "tl tail"]
      command_line_str(2) [of "''FORWARD '' @ u16_to_string port"]
    by (cases tail) auto
  then show ?thesis
    using serve_stream_commanded [OF assms(1)] handle_command_forward [OF trim_u16 utf8_u16] by simp
qed

lemma serve_connect:
  assumes "commanded q (connect_command host port) rest"
    and "host \<noteq> []" and "visible (hd host)" and "CHR 0x0A \<notin> set host" and "utf8_valid (str_bytes host)"
  shows "serve_stream connect policy q =
    snd ((if po_allow_egress policy then connect_and_relay connect (HostPort host port)
          else answer_line ''ERROR egress not allowed'')
      \<lparr>sw_stream = q\<lparr>ep_in := rest\<rparr>, sw_tcp = None, sw_connects = []\<rparr>)"
proof -
  let ?t = "host @ '':'' @ u16_to_string port"
  have line: "command_line (str_bytes (connect_command host port)) = str_bytes (''CONNECT '' @ ?t)"
    using assms(4) no_newline_u16 command_line_str(1) [of "''CONNECT '' @ ?t" "[]"]
    by (simp add: connect_command_def)
  have "trim ?t = ?t"
    using assms(2,3) u16_to_string_visible(1) [of port] u16_to_string_visible(2) [of _ port] by (intro trim_visible) auto
  moreover have "utf8_valid (str_bytes '':'')" by (rule utf8_valid_ascii) simp
  then have "utf8_valid (str_bytes ?t)"
    using assms(5) utf8_u16 [of port] by (simp only: str_bytes_append utf8_valid_append)
  moreover have "drop 8 (str_bytes (''CONNECT '' @ ?t)) = str_bytes ?t" by (simp add: str_bytes_def)
  moreover have "starting_with (str_bytes (''CONNECT '' @ ?t)) (str_bytes ''CONNECT '')"
    by (simp del: append_Cons)
  moreover have "\<not> starting_with (str_bytes (''CONNECT '' @ ?t)) (str_bytes ''FORWARD '')"
    by (simp add: starting_with_def str_bytes_def)
  moreover have "str_bytes (''CONNECT '' @ ?t) \<noteq> str_bytes ''PING''" by (simp del: str_bytes_append)
  moreover have "CHR '':'' \<notin> set (u16_to_string port)"
    using u16_to_string_visible(4) [of "CHR '':''" port] by blast
  then have "parse_host_port ?t = Some (host, port)"
    using assms(2) by (simp add: parse_host_port_def rsplit_once_append)
  ultimately have "handle_command connect policy (command_line (str_bytes (connect_command host port))) =
      (if po_allow_egress policy then connect_and_relay connect (HostPort host port)
       else answer_line ''ERROR egress not allowed'')"
    unfolding line by (simp add: handle_command_def handle_connect_stream_def del: str_bytes_append append_Cons append_Nil)
  then show ?thesis using serve_stream_commanded [OF assms(1)] by simp
qed

subsection \<open>The port list\<close>

text \<open>The entries of a list that are not blank, as the parser sees them.\<close>

definition port_entries :: "string \<Rightarrow> string list" where
  "port_entries s = filter (\<lambda>p. p \<noteq> []) (map trim (split_on (CHR '','') s))"

lemma parse_ports_spec:
  "parse_ports raw ports = (let entries = filter (\<lambda>p. p \<noteq> []) (map trim raw) in
     case find (\<lambda>p. parse_u16 p = None) entries of
       Some p \<Rightarrow> Err (''invalid port number: '' @ p)
     | None \<Rightarrow> Ok (ports \<union> {w. \<exists>p \<in> set entries. parse_u16 p = Some w}))"
proof (induction raw ports rule: parse_ports.induct)
  case (2 raw rest ports)
  show ?case
  proof (cases "trim raw = []")
    case True
    with 2(1) show ?thesis by (simp add: Let_def)
  next
    case False
    show ?thesis
    proof (cases "parse_u16 (trim raw)")
      case None
      with False show ?thesis by (simp add: Let_def)
    next
      case (Some port)
      with 2(2) [OF refl False Some] False show ?thesis
        by (auto simp: Let_def split: option.splits)
    qed
  qed
qed (simp add: Let_def)

lemma allowed_ports_parse_spec:
  "allowed_ports_parse s = (case find (\<lambda>p. parse_u16 p = None) (port_entries s) of
     Some p \<Rightarrow> Err (''invalid port number: '' @ p)
   | None \<Rightarrow> if port_entries s = [] then Ok AllPorts
       else Ok (Whitelist {w. \<exists>p \<in> set (port_entries s). parse_u16 p = Some w}))"
proof (cases "s = []")
  case True
  have "trim [] = []" using trim_infix [of "[]"] by auto
  with True show ?thesis by (simp add: allowed_ports_parse_def port_entries_def)
next
  case False
  have nonempty: "\<exists>p \<in> set (port_entries s). \<exists>w. parse_u16 p = Some w"
    if "find (\<lambda>p. parse_u16 p = None) (port_entries s) = None" "port_entries s \<noteq> []"
    using that by (cases "port_entries s") (auto simp: find_None split: if_splits)
  show ?thesis
  proof (cases "find (\<lambda>p. parse_u16 p = None) (port_entries s)")
    case (Some p)
    with False show ?thesis
      by (simp add: allowed_ports_parse_def parse_ports_spec port_entries_def [symmetric])
  next
    case None
    with False nonempty [OF None] show ?thesis
      by (auto simp: allowed_ports_parse_def parse_ports_spec port_entries_def [symmetric])
  qed
qed

subsection \<open>Answers\<close>

text \<open>
  A forwarding that is allowed answers \<open>OK\<close> and relays; what the service sends follows the
  answer on the same stream.
\<close>

lemma connect_and_relay_ok:
  assumes "connect target = Inl tcp" and "ep_writes (sw_stream s) = []" and "ep_finish (sw_stream s) = None"
    and "ep_writes tcp = []"
  shows "\<exists>q t. snd (connect_and_relay connect target s) =
      s\<lparr>sw_connects := sw_connects s @ [target], sw_stream := q, sw_tcp := Some t\<rparr> \<and>
    ep_out q = ep_out (sw_stream s) @ str_bytes (''OK'' @ [CHR 0x0A]) @ arriving (ep_in tcp) \<and>
    ep_out t = ep_out tcp @ arriving (ep_in (sw_stream s)) \<and> ep_closed q"
proof -
  let ?q1 = "sw_stream s\<lparr>ep_out := ep_out (sw_stream s) @ str_bytes (''OK'' @ [CHR 0x0A])\<rparr>"
  obtain t q where rel: "relay tcp ?q1 = (t, q)" by (cases "relay tcp ?q1")
  have "snd (connect_and_relay connect target s) =
      s\<lparr>sw_connects := sw_connects s @ [target], sw_stream := q, sw_tcp := Some t\<rparr>"
    using assms rel
    by (simp add: connect_and_relay_def tcp_open_def pcatch_def on_quic_def relay_tcp_def ep_write_all_quiet)
  moreover have "ep_out q = ep_out (sw_stream s) @ str_bytes (''OK'' @ [CHR 0x0A]) @ arriving (ep_in tcp)"
    using relay_out(1) [OF rel] assms(2) by auto
  moreover have "ep_out t = ep_out tcp @ arriving (ep_in (sw_stream s))"
    using relay_out(2) [OF rel] assms(4) by auto
  moreover have "ep_closed q" using relay_out(3) [OF rel] assms(3) by simp
  ultimately show ?thesis by blast
qed

lemma handle_forward_denied:
  assumes "\<not> port_allowed allowed port" and "ep_writes (sw_stream s) = []" and "ep_finish (sw_stream s) = None"
  shows "snd (handle_forward_stream connect allowed port s) = s\<lparr>sw_stream := (sw_stream s)
    \<lparr>ep_out := ep_out (sw_stream s) @ str_bytes (''ERROR port not allowed'' @ [CHR 0x0A]), ep_closed := True\<rparr>\<rparr>"
  using assms by (simp add: handle_forward_stream_def answer_line_run ep_calls_out)

lemma port_denied_rejected:
  "command_response (str_bytes (''ERROR port not allowed'' @ [CHR 0x0A])) = Err (Rejected ''port not allowed'')"
proof -
  have "utf8_valid (str_bytes ''port not allowed'')" by (rule utf8_valid_ascii) simp
  then show ?thesis
    using command_response_ERROR [of "''port not allowed''"] by (simp add: visible_def)
qed

text \<open>An answer with anything after it in the same piece is not understood.\<close>

lemma command_response_banner:
  assumes "banner \<noteq> []" and "visible (last banner)" and "utf8_valid (str_bytes banner)"
  shows "command_response (str_bytes (''OK'' @ CHR 0x0A # banner)) = Err (Protocol (''OK'' @ CHR 0x0A # banner))"
proof -
  have v: "utf8_valid (str_bytes [CHR ''O'', CHR ''K'', CHR 0x0A])" by (rule utf8_valid_ascii) simp
  have "utf8_valid (str_bytes ([CHR ''O'', CHR ''K'', CHR 0x0A] @ banner))"
    using v assms(3) by (simp only: str_bytes_append utf8_valid_append)
  then have "from_utf8_lossy (str_bytes (''OK'' @ CHR 0x0A # banner)) = ''OK'' @ CHR 0x0A # banner"
    by (simp add: str_bytes_def [of "''OK''"])
  moreover have "trim (''OK'' @ CHR 0x0A # banner) = ''OK'' @ CHR 0x0A # banner"
    using assms(1,2) by (intro trim_visible) (auto simp: visible_def)
  ultimately show ?thesis
    by (simp add: command_response_def Let_def strip_prefix_def starting_with_def)
qed

end
