(* ===== verification/Ipc_Props.thy ===== *)
theory Ipc_Props
  imports Ipc Session_Props Daemon_Props
begin

text \<open>
  Properties of the local interface: a server answers the lines it is sent, one by one,
  however they arrive; what the answers say of the session; sockets of different nodes are
  different; and what is lost with the password on Windows.
\<close>

subsection \<open>Lines\<close>

lemma up_to_first:
  assumes "c \<notin> set a"
  shows "takeWhile (\<lambda>b. b \<noteq> c) (a @ c # r) = a" and "dropWhile (\<lambda>b. b \<noteq> c) (a @ c # r) = c # r"
  using assms by (induction a) auto

function lines_of :: "bytes \<Rightarrow> bytes list" where
  "lines_of bs =
     (if bs = [] then []
      else if 0x0A \<in> set bs
      then (takeWhile (\<lambda>b. b \<noteq> 0x0A) bs @ [0x0A]) # lines_of (tl (dropWhile (\<lambda>b. b \<noteq> 0x0A) bs))
      else [bs])"
  by auto
termination
proof (relation "measure length")
  fix bs :: bytes
  assume "bs \<noteq> []"
  moreover have "length (dropWhile (\<lambda>b. b \<noteq> 0x0A) bs) \<le> length bs" by (rule length_dropWhile_le)
  ultimately show "(tl (dropWhile (\<lambda>b. b \<noteq> 0x0A) bs), bs) \<in> measure length"
    by (cases "length bs") auto
qed simp

declare lines_of.simps [simp del]

lemma lines_of_Nil [simp]: "lines_of [] = []"
  by (simp add: lines_of.simps)

lemma lines_of_newline: "0x0A \<notin> set line \<Longrightarrow> lines_of (line @ 0x0A # rest) = (line @ [0x0A]) # lines_of rest"
proof -
  assume "0x0A \<notin> set line"
  from up_to_first [OF this, of rest] show ?thesis by (subst lines_of.simps) simp
qed

text \<open>A line is the first of those in the buffer and the bytes to come, in whatever pieces.\<close>

lemma read_until_newline_lines:
  assumes "unbroken (ep_in ep)"
  obtains line buf' evs where "read_until_newline buf ep = (Ok line, buf', ep\<lparr>ep_in := evs\<rparr>)" "unbroken evs"
    "line = [] \<longrightarrow> buf @ arriving (ep_in ep) = []"
    "line \<noteq> [] \<longrightarrow> lines_of (buf @ arriving (ep_in ep)) = line # lines_of (buf' @ arriving evs)"
proof -
  have "\<exists>line buf' evs. read_until_newline buf ep = (Ok line, buf', ep\<lparr>ep_in := evs\<rparr>) \<and> unbroken evs \<and>
    (line = [] \<longrightarrow> buf @ arriving (ep_in ep) = []) \<and>
    (line \<noteq> [] \<longrightarrow> lines_of (buf @ arriving (ep_in ep)) = line # lines_of (buf' @ arriving evs))"
    using assms
  proof (induction buf ep rule: read_until_newline.induct)
    case (1 buf ep)
    note eq = read_until_newline.simps [of buf ep]
    show ?case
    proof (cases "0x0A \<in> set buf")
      case True
      then obtain a b where ab: "buf = a @ 0x0A # b" "0x0A \<notin> set a" by (meson split_list_first)
      with eq True up_to_first [OF ab(2), of b] have "read_until_newline buf ep = (Ok (a @ [0x0A]), b, ep\<lparr>ep_in := ep_in ep\<rparr>)" by simp
      with "1.prems" ab(1) lines_of_newline [OF ab(2), of "b @ arriving (ep_in ep)"] show ?thesis
        by (intro exI [of _ "a @ [0x0A]"] exI [of _ b] exI [of _ "ep_in ep"]) simp
    next
      case False
      obtain rd ep1 where rd: "ep_read 8192 ep = (rd, ep1)" by (cases "ep_read 8192 ep")
      show ?thesis
      proof (cases "ep_in ep")
        case Nil
        with eq False have "read_until_newline buf ep = (Ok buf, [], ep\<lparr>ep_in := []\<rparr>)"
          by (simp add: ep_read_def)
        moreover have "buf \<noteq> [] \<longrightarrow> lines_of buf = [buf]"
          using False by (subst lines_of.simps) simp
        ultimately show ?thesis using Nil by (intro exI [of _ buf] exI [of _ "[]"] exI [of _ "[]"]) simp
      next
        case (Cons ev r)
        with "1.prems" obtain cs where cs: "ev = Got cs" "cs \<noteq> []" "unbroken r" by (cases ev) auto
        have "\<exists>bs evs. ep_read 8192 ep = (Ok bs, ep\<lparr>ep_in := evs\<rparr>) \<and> bs \<noteq> [] \<and> unbroken evs \<and>
          arriving (ep_in ep) = bs @ arriving evs"
        proof (cases "length cs \<le> 8192")
          case True
          with Cons cs show ?thesis
            by (intro exI [of _ cs] exI [of _ r]) (simp add: ep_read_def)
        next
          case False
          with Cons cs show ?thesis
            by (intro exI [of _ "take 8192 cs"] exI [of _ "Got (drop 8192 cs) # r"]) (simp add: ep_read_def)
        qed
        then obtain bs evs where bs: "ep_read 8192 ep = (Ok bs, ep\<lparr>ep_in := evs\<rparr>)" "bs \<noteq> []" "unbroken evs"
          "arriving (ep_in ep) = bs @ arriving evs" by blast
        with eq False have "read_until_newline buf ep = read_until_newline (buf @ bs) (ep\<lparr>ep_in := evs\<rparr>)"
          by simp
        with "1.IH" [OF False bs(1) [symmetric] refl bs(2)] bs(3,4) show ?thesis by simp
      qed
    qed
  qed
  with that show thesis by blast
qed

subsection \<open>Answers\<close>

text \<open>What the server sends for a list of lines.\<close>

fun ipc_script ::
  "prims \<Rightarrow> json \<Rightarrow> (nat \<Rightarrow> nat \<Rightarrow> u8) \<Rightarrow>
   (nat \<Rightarrow> ('w, 'q) session option \<Rightarrow> ('w, 'q) session option) \<Rightarrow> nat \<Rightarrow> bytes list \<Rightarrow>
   ('w, 'q) session option \<Rightarrow> (unit, string) result \<times> bytes \<times> ('w, 'q) session option"
where
  "ipc_script P js rand meanwhile n [] h = (Ok (), [], h)"
| "ipc_script P js rand meanwhile n (line # lines) h =
     (if \<not> utf8_valid line then (Ok (), [], h)
      else (case ipc_answer P js (rand n) (bytes_str line) (meanwhile n h) of
          (Ok text, h') \<Rightarrow>
            if js_parse_request js (bytes_str line) = Ok RqShutdown then (Ok (), str_bytes text @ [0x0A], h')
            else (case ipc_script P js rand meanwhile (n + 1) lines h' of
                (r, out, h'') \<Rightarrow> (r, str_bytes text @ 0x0A # out, h''))
        | (_, h') \<Rightarrow> (Panic, [], h')))"

lemma handle_client_script:
  assumes "unbroken (ep_in ep)" and "ep_writes ep = []"
    and "ipc_script P js rand meanwhile n (lines_of (buf @ arriving (ep_in ep))) h = (r, out, h')"
  shows "\<exists>evs. handle_client_with_optional_handle P js rand meanwhile n buf ep h =
    (r, ep\<lparr>ep_in := evs, ep_out := ep_out ep @ out\<rparr>, h')"
  using assms
proof (induction P js rand meanwhile n buf ep h arbitrary: r out h'
    rule: handle_client_with_optional_handle.induct)
  case (1 P js rand meanwhile n buf ep h)
  note eq = handle_client_with_optional_handle.simps [of P js rand meanwhile n buf ep h]
  obtain line buf' evs where l: "read_until_newline buf ep = (Ok line, buf', ep\<lparr>ep_in := evs\<rparr>)" "unbroken evs"
      "line = [] \<longrightarrow> buf @ arriving (ep_in ep) = []"
      "line \<noteq> [] \<longrightarrow> lines_of (buf @ arriving (ep_in ep)) = line # lines_of (buf' @ arriving evs)"
    by (rule read_until_newline_lines [OF "1.prems"(1), of buf])
  show ?case
  proof (cases "line = []")
    case True
    then have "read_line buf ep = (Ok [], buf', ep\<lparr>ep_in := evs\<rparr>)"
      using l(1) by (simp add: read_line_def bytes_str_def)
    then show ?thesis
      using eq l(3) True "1.prems"(3) by (intro exI [of _ evs]) simp
  next
    case ne: False
    note script = "1.prems"(3) [unfolded mp [OF l(4) ne]]
    show ?thesis
    proof (cases "utf8_valid line")
      case False
      then have "read_line buf ep = (Err ''stream did not contain valid UTF-8'', buf', ep\<lparr>ep_in := evs\<rparr>)"
        using l(1) by (simp add: read_line_def)
      then show ?thesis using eq script False by (intro exI [of _ evs]) simp
    next
      case True
      then have rd: "read_line buf ep = (Ok (bytes_str line), buf', ep\<lparr>ep_in := evs\<rparr>)"
        using l(1) by (simp add: read_line_def)
      have nonempty: "bytes_str line \<noteq> []" using ne by (simp add: bytes_str_def)
      obtain a h1 where a: "ipc_answer P js (rand n) (bytes_str line) (meanwhile n h) = (a, h1)"
        by (cases "ipc_answer P js (rand n) (bytes_str line) (meanwhile n h)")
      show ?thesis
      proof (cases a)
        case (Ok reply)
        let ?ep1 = "ep\<lparr>ep_in := evs, ep_out := ep_out ep @ str_bytes reply\<rparr>"
        let ?ep2 = "ep\<lparr>ep_in := evs, ep_out := ep_out ep @ str_bytes reply @ [0x0A]\<rparr>"
        have w: "ep_write_all (str_bytes reply) (ep\<lparr>ep_in := evs\<rparr>) = (Ok (), ?ep1)"
            "ep_write_all [0x0A] ?ep1 = (Ok (), ?ep2)"
          using "1.prems"(2) by (simp_all add: ep_write_all_def)
        show ?thesis
        proof (cases "js_parse_request js (bytes_str line) = Ok RqShutdown")
          case True
          then show ?thesis
            using eq rd nonempty a Ok w script \<open>utf8_valid line\<close>
            by (intro exI [of _ evs]) simp
        next
          case False
          obtain r' out' h2 where s: "ipc_script P js rand meanwhile (n + 1) (lines_of (buf' @ arriving evs)) h1 =
              (r', out', h2)" by (cases "ipc_script P js rand meanwhile (n + 1) (lines_of (buf' @ arriving evs)) h1")
          then have o: "r = r'" "out = str_bytes reply @ 0x0A # out'" "h' = h2"
            using script a Ok False \<open>utf8_valid line\<close> by auto
          have "\<exists>evs'. handle_client_with_optional_handle P js rand meanwhile (n + 1) buf' ?ep2 h1 =
              (r', ?ep2\<lparr>ep_in := evs', ep_out := ep_out ?ep2 @ out'\<rparr>, h2)"
            using "1.IH" [OF rd [symmetric] refl refl nonempty a [symmetric, unfolded Ok] refl
                w(1) [symmetric] refl w(2) [symmetric] refl False, of r' out' h2] l(2) "1.prems"(2) s by simp
          then show ?thesis
            using eq rd nonempty a Ok w False o by auto
        qed
      qed (use eq rd nonempty a script \<open>utf8_valid line\<close> in \<open>auto intro!: exI [of _ evs]\<close>)
    qed
  qed
qed


text \<open>
  C32: the server answers the lines it is sent.  For a client whose requests arrive without
  error, in whatever pieces, and whose socket takes the answers, what the server writes is the
  answer to each line of the whole input, in order and each as a line of its own, given by
  the session as it is at that time; it goes on to the end of the input, the first shutdown,
  or the first line that is not UTF-8, and leaves the session as these requests leave it.
\<close>

theorem ipc_answers_line_by_line:
  assumes "unbroken (ep_in ep)" and "ep_writes ep = []"
  shows "case ipc_script P js rand meanwhile 0 (lines_of (arriving (ep_in ep))) h of (r, out, h') \<Rightarrow>
    \<exists>evs. handle_client_with_optional_handle P js rand meanwhile 0 [] ep h =
      (r, ep\<lparr>ep_in := evs, ep_out := ep_out ep @ out\<rparr>, h')"
  using handle_client_script [OF assms, of P js rand meanwhile 0 "[]" h]
  by (auto split: prod.splits)

text \<open>A small stand-in for \<open>serde_json\<close>.\<close>

definition sample_json :: json where
  "sample_json = \<lparr>js_request = (\<lambda>r. Ok (case r of RqStatus \<Rightarrow> ''s'' | RqGetActivationCode _ \<Rightarrow> ''c'' | RqShutdown \<Rightarrow> ''q'')),
     js_parse_request = (\<lambda>l. if l = ''s'' @ [CHR 0x0A] then Ok RqStatus
        else if l = ''q'' @ [CHR 0x0A] then Ok RqShutdown else Err ''bad''),
     js_response = (\<lambda>r. Ok (case r of SuccessResponse _ _ \<Rightarrow> ''ok'' | ErrorResponse _ e \<Rightarrow> e)),
     js_parse_response = (\<lambda>l. Err l), js_hub_error = (\<lambda>_. [])\<rparr>"

definition sample_ipc :: endpoint where
  "sample_ipc = \<lparr>ep_in = [Got [115], Got [10, 120, 10, 113], Got [10]], ep_writes = [], ep_finish = None,
     ep_out = [], ep_closed = False\<rparr>"

lemma sample_ipc_lines: "lines_of (arriving (ep_in sample_ipc)) = [[115, 10], [120, 10], [113, 10]]"
proof -
  have "arriving (ep_in sample_ipc) = [115] @ 10 # [120] @ 10 # [113] @ 10 # []"
    by (simp add: sample_ipc_def)
  also have "lines_of \<dots> = [[115, 10], [120, 10], [113, 10]]"
    by (subst lines_of_newline, simp)+ simp
  finally show ?thesis .
qed

theorem ipc_answers_line_by_line_witness:
  "\<exists>evs. handle_client_with_optional_handle ref_prims sample_json (\<lambda>_ _. 0) (\<lambda>_ h. h) 0 [] sample_ipc
      (None :: (unit, unit) session option) =
    (Ok (), sample_ipc\<lparr>ep_in := evs, ep_out := str_bytes ''ok'' @ [10] @ str_bytes ''invalid request: bad'' @ [10] @
       str_bytes ''hub not connected yet'' @ [10]\<rparr>, None)"
proof -
  have v: "utf8_valid [115, 10]" "utf8_valid [120, 10]" "utf8_valid [113, 10]" by code_simp+
  have b: "bytes_str [115, 10] = ''s'' @ [CHR 0x0A]" "bytes_str [120, 10] = ''x'' @ [CHR 0x0A]"
      "bytes_str [113, 10] = ''q'' @ [CHR 0x0A]" by code_simp+
  have "ipc_script ref_prims sample_json (\<lambda>_ _. 0) (\<lambda>_ h. h) 0 [[115, 10], [120, 10], [113, 10]]
      (None :: (unit, unit) session option) =
    (Ok (), str_bytes ''ok'' @ [10] @ str_bytes ''invalid request: bad'' @ [10] @ str_bytes ''hub not connected yet'' @ [10], None)"
    by (simp add: v b ipc_answer_def process_unconnected_def response_json_def response_success_def
        response_error_def sample_json_def)
  with ipc_answers_line_by_line [of sample_ipc ref_prims sample_json "\<lambda>_ _. 0" "\<lambda>_ h. h"
      "None :: (unit, unit) session option"] sample_ipc_lines
  show ?thesis by (simp add: sample_ipc_def)
qed


text \<open>
  On Windows, what a client sends with the password is lost.  When the first piece of a
  connection holds the password's line and more, the server lets the client in and the stream
  it serves begins with the next piece: a request in the first one is never answered.
\<close>

theorem password_takes_the_request_along:
  assumes "ep_in ep = Got (str_bytes (password @ CHR 0x0A # request)) # rest"
    and "length password + length request < 8192" and "utf8_valid (str_bytes password)"
    and "password \<noteq> []" and "visible (hd password)" and "visible (last password)" and "CHR 0x0A \<notin> set password"
  shows "accept_windows password (Inl ep # more_conns) = Some (Ok (ep\<lparr>ep_in := rest\<rparr>))"
proof -
  have "str_bytes (password @ CHR 0x0A # request) = str_bytes password @ 0x0A # str_bytes request"
    by (simp add: str_bytes_def)
  note cut = this
  have n: "0x0A \<notin> set (str_bytes password)"
    using assms(7) by (auto simp: str_bytes_def newline_byte_iff)
  have "ep_read 8192 ep = (Ok (str_bytes password @ 0x0A # str_bytes request), ep\<lparr>ep_in := rest\<rparr>)"
    using assms(1,2) by (simp add: ep_read_def cut) (simp add: str_bytes_def)
  then have "read_until_newline [] ep = (Ok (str_bytes password @ [0x0A]), str_bytes request, ep\<lparr>ep_in := rest\<rparr>)"
    using up_to_first [OF n, of "str_bytes request"]
    by (simp add: read_until_newline.simps [of "[]"] read_until_newline.simps [of "str_bytes password @ 0x0A # str_bytes request"])
  moreover have "str_bytes password @ [0x0A] = str_bytes (password @ [CHR 0x0A])" by (simp add: str_bytes_def)
  moreover have "utf8_valid (str_bytes [CHR 0x0A])" by code_simp
  then have "utf8_valid (str_bytes (password @ [CHR 0x0A]))"
    using assms(3) by (simp only: str_bytes_append utf8_valid_append)
  ultimately have "read_line [] ep = (Ok (password @ [CHR 0x0A]), str_bytes request, ep\<lparr>ep_in := rest\<rparr>)"
    by (simp add: read_line_def del: str_bytes_append)
  then show ?thesis
    using trim_newline [OF assms(4-6)] by simp
qed


definition coalesced :: endpoint where
  "coalesced = \<lparr>ep_in = [Got (str_bytes (''pw'' @ CHR 0x0A # ''s''))], ep_writes = [], ep_finish = None,
     ep_out = [], ep_closed = False\<rparr>"

theorem password_takes_the_request_along_witness:
  "accept_windows ''pw'' [Inl coalesced] = Some (Ok (coalesced\<lparr>ep_in := []\<rparr>))"
proof -
  have 1: "ep_in coalesced = Got (str_bytes (''pw'' @ CHR 0x0A # ''s'')) # []"
    unfolding coalesced_def by (simp only: endpoint.simps)
  have 2: "length ''pw'' + length ''s'' < 8192" by simp
  have 3: "utf8_valid (str_bytes ''pw'')" by (rule utf8_valid_ascii) simp
  have 4: "''pw'' \<noteq> []" "visible (hd ''pw'')" "visible (last ''pw'')" "CHR 0x0A \<notin> set ''pw''"
    by (simp_all add: visible_def)
  show ?thesis by (rule password_takes_the_request_along [OF 1 2 3 4])
qed

text \<open>Nodes of different groups or numbers have different sockets.\<close>

lemma ipc_path_inj:
  assumes "ipc_path home a m = ipc_path home b n" and "0 \<le> sint m" and "0 \<le> sint n"
  shows "a = b \<and> m = n"
proof -
  have "rsplit_once (CHR ''-'') (a @ CHR ''-'' # i32_to_string m) = Some (a, i32_to_string m)"
      "rsplit_once (CHR ''-'') (b @ CHR ''-'' # i32_to_string n) = Some (b, i32_to_string n)"
    using assms(2,3) by (auto intro!: rsplit_once_append simp: i32_to_string_def int_to_string_no_dash)
  moreover have "a @ CHR ''-'' # i32_to_string m = b @ CHR ''-'' # i32_to_string n"
    using assms(1) by (simp add: ipc_path_def)
  ultimately have "a = b" "i32_to_string m = i32_to_string n"
    by (metis option.inject prod.inject)+
  moreover have "parse_i32 (i32_to_string m) = Some m" "parse_i32 (i32_to_string n) = Some n"
    by (simp_all add: i32_to_string_def)
  ultimately show ?thesis by (metis option.inject)
qed

end
