(* ===== verification/Proxy_Pool.thy ===== *)
theory Proxy_Pool
  imports Proxy_Common
begin

text \<open>
  What the connection pool guarantees to the tasks that share it: the invariant of its
  entries, cells and tasks, kept by every event in every order, and what follows from it -
  one connection attempt per node at a time, streams only on connections to the node asked
  for, at most two rounds, an eviction that never hits a replacement.
\<close>

subsection \<open>The invariant\<close>

text \<open>
  \<open>home\<close> says for which node each cell was made.  A cell that holds no connection is still
  the entry of its node: entries are only removed when their cell is set, and a set cell
  stays set.
\<close>

definition entries_ok :: "(nat \<Rightarrow> i32) \<Rightarrow> pool \<Rightarrow> bool" where
  "entries_ok home p \<longleftrightarrow>
     (\<forall>n e. pl_connections p n = Some e \<longrightarrow> pe_cell e < pl_next p \<and> home (pe_cell e) = n)"

definition cells_ok :: "(nat \<Rightarrow> i32) \<Rightarrow> pool \<Rightarrow> bool" where
  "cells_ok home p \<longleftrightarrow>
     (\<forall>c cn. pl_cells p c = Ready cn \<longrightarrow> cn_peer cn = home c) \<and>
     (\<forall>c \<ge> pl_next p. pl_cells p c = Vacant) \<and>
     (\<forall>c < pl_next p. (\<forall>cn. pl_cells p c \<noteq> Ready cn) \<longrightarrow>
        (\<exists>e. pl_connections p (home c) = Some e \<and> pe_cell e = c))"

fun point_ok :: "(nat \<Rightarrow> i32) \<Rightarrow> pool \<Rightarrow> nat \<Rightarrow> i32 \<Rightarrow> task_point \<Rightarrow> bool" where
  "point_ok home p t node (AtCell c) \<longleftrightarrow> c < pl_next p \<and> home c = node"
| "point_ok home p t node (Connecting c) \<longleftrightarrow>
     c < pl_next p \<and> home c = node \<and> pl_cells p c = Initialising t"
| "point_ok home p t node (Opening c cn) \<longleftrightarrow>
     c < pl_next p \<and> home c = node \<and> pl_cells p c = Ready cn"
| "point_ok home p t node (Evicting c e) \<longleftrightarrow>
     c < pl_next p \<and> home c = node \<and> (\<exists>cn. pl_cells p c = Ready cn)"
| "point_ok home p t node (Finished r) \<longleftrightarrow>
     r \<noteq> Panic \<and> (\<forall>cn. r = Ok cn \<longrightarrow> cn_peer cn = node)"
| "point_ok home p t node _ \<longleftrightarrow> True"

definition task_ok :: "(nat \<Rightarrow> i32) \<Rightarrow> pool \<Rightarrow> nat \<Rightarrow> task \<Rightarrow> bool" where
  "task_ok home p t tk \<longleftrightarrow>
     1 \<le> tk_round tk \<and> tk_round tk \<le> 2 \<and> (tk_round tk = 2 \<longrightarrow> tk_stream_err tk \<noteq> None) \<and>
     point_ok home p t (tk_node tk) (tk_at tk)"

definition pool_ok :: "(nat \<Rightarrow> i32) \<Rightarrow> pool_sys \<Rightarrow> bool" where
  "pool_ok home s \<longleftrightarrow>
     entries_ok home (py_pool s) \<and> cells_ok home (py_pool s) \<and>
     (\<forall>t tk. py_tasks s t = Some tk \<longrightarrow> task_ok home (py_pool s) t tk) \<and>
     (\<forall>c t. pl_cells (py_pool s) c = Initialising t \<longrightarrow>
        (\<exists>tk. py_tasks s t = Some tk \<and> tk_at tk = Connecting c))"

definition pool_inv :: "pool_sys \<Rightarrow> bool" where
  "pool_inv s \<longleftrightarrow> (\<exists>home. pool_ok home s)"

subsection \<open>Every event keeps it\<close>

text \<open>How a section of one task may change the pool under the others.\<close>

definition pool_grows :: "nat \<Rightarrow> pool \<Rightarrow> pool \<Rightarrow> bool" where
  "pool_grows t p p' \<longleftrightarrow> pl_next p \<le> pl_next p' \<and>
     (\<forall>c cn. pl_cells p c = Ready cn \<longrightarrow> pl_cells p' c = Ready cn) \<and>
     (\<forall>c u. u \<noteq> t \<longrightarrow> (pl_cells p' c = Initialising u \<longleftrightarrow> pl_cells p c = Initialising u))"

lemma task_ok_grows:
  assumes "task_ok home p u tk" and "pool_grows t p p'" and "u \<noteq> t"
    and "\<And>c. c < pl_next p \<Longrightarrow> home' c = home c"
  shows "task_ok home' p' u tk"
  using assms by (cases "tk_at tk") (auto simp: task_ok_def pool_grows_def)

text \<open>A section of task \<open>t\<close> keeps the invariant if it keeps the parts that concern it.\<close>

lemma section_ok:
  assumes ok: "pool_ok home s" and t: "py_tasks s t = Some tk"
    and grows: "pool_grows t (py_pool s) p'"
    and home: "\<And>c. c < pl_next (py_pool s) \<Longrightarrow> home' c = home c"
    and parts: "entries_ok home' p'" "cells_ok home' p'" "task_ok home' p' t tk'"
    and mine: "\<And>c. pl_cells p' c = Initialising t \<Longrightarrow> tk_at tk' = Connecting c"
  shows "pool_ok home' (set_task t tk' (set_pool p' s))"
proof -
  have "task_ok home' p' u v" if "py_tasks s u = Some v" "u \<noteq> t" for u v
    using task_ok_grows [OF _ grows that(2) home] that ok by (simp add: pool_ok_def)
  moreover have "\<exists>v. py_tasks s u = Some v \<and> tk_at v = Connecting c"
    if "pl_cells p' c = Initialising u" "u \<noteq> t" for c u
    using that ok grows by (auto simp: pool_ok_def pool_grows_def)
  ultimately show ?thesis
    using parts mine by (auto simp: pool_ok_def set_task_def set_pool_def)
qed

lemma pool_grows_refl: "pool_grows t p p"
  by (simp add: pool_grows_def)

lemma pool_okD:
  assumes "pool_ok home s"
  shows "entries_ok home (py_pool s)" and "cells_ok home (py_pool s)"
    and "py_tasks s t = Some tk \<Longrightarrow> task_ok home (py_pool s) t tk"
    and "pl_cells (py_pool s) c = Initialising t \<Longrightarrow>
      \<exists>tk. py_tasks s t = Some tk \<and> tk_at tk = Connecting c"
  using assms by (auto simp: pool_ok_def)

text \<open>A task that stops connecting or never did leaves no cell in its name.\<close>

lemma initialising_by:
  assumes "pool_ok home s" and "py_tasks s t = Some tk"
    and "pl_cells (py_pool s) c = Initialising t"
  shows "tk_at tk = Connecting c"
  using pool_okD(4) [OF assms(1,3)] assms(2) by simp

text \<open>Sections that only move the task.\<close>

lemma move_ok:
  assumes "pool_ok home s" and "py_tasks s t = Some tk" and "task_ok home (py_pool s) t tk'"
    and "\<And>c. tk_at tk = Connecting c \<Longrightarrow> tk_at tk' = Connecting c"
  shows "pool_ok home (set_task t tk' (set_pool (py_pool s) s))"
  using assms initialising_by [OF assms(1,2)] pool_okD [OF assms(1)]
  by (intro section_ok [OF assms(1,2) pool_grows_refl]) auto

lemma next_round_ok:
  assumes "1 \<le> tk_round tk" "tk_round tk \<le> 2" and "tk_stream_err tk \<noteq> None"
  shows "task_ok home p t (next_round tk)" and "tk_at (next_round tk) \<noteq> Connecting c"
    and "tk_node (next_round tk) = tk_node tk"
  using assms by (auto simp: next_round_def task_ok_def split: option.splits)

lemma lookup_ok:
  assumes ok: "pool_ok home s" and t: "py_tasks s t = Some tk" and at: "tk_at tk = AtLookup"
    and l: "pool_lookup (tk_node tk) now (py_pool s) = (c, p')"
  shows "\<exists>home'. pool_ok home' (set_task t (tk\<lparr>tk_at := AtCell c\<rparr>) (set_pool p' s))"
proof -
  let ?p = "py_pool s" and ?tk' = "tk\<lparr>tk_at := AtCell c\<rparr>"
  note parts = pool_okD [OF ok]
  have tk: "task_ok home ?p t tk" using parts(3) t .
  have mine: "pl_cells ?p d \<noteq> Initialising t" for d
    using initialising_by [OF ok t] at by fastforce
  show ?thesis
  proof (cases "pl_connections ?p (tk_node tk)")
    case (Some e)
    then have l': "c = pe_cell e"
        "p' = ?p\<lparr>pl_connections := (pl_connections ?p)(tk_node tk \<mapsto> e\<lparr>pe_last_used := now\<rparr>)\<rparr>"
      using l by (auto simp: pool_lookup_def)
    have "pool_ok home (set_task t ?tk' (set_pool p' s))"
    proof (rule section_ok [OF ok t])
      show "pool_grows t ?p p'" by (simp add: l' pool_grows_def)
      show "entries_ok home p'" using parts(1) Some by (auto simp: l' entries_ok_def)
      show "cells_ok home p'"
        using parts(1,2) Some by (fastforce simp: l' cells_ok_def entries_ok_def)
      show "task_ok home p' t ?tk'"
        using tk parts(1) Some by (auto simp: l' task_ok_def entries_ok_def)
    qed (use mine in \<open>auto simp: l'\<close>)
    then show ?thesis by blast
  next
    case None
    let ?home = "home(pl_next ?p := tk_node tk)"
    have l': "c = pl_next ?p"
        "p' = ?p\<lparr>pl_connections := (pl_connections ?p)
            (tk_node tk \<mapsto> \<lparr>pe_cell = pl_next ?p, pe_last_used = now\<rparr>), pl_next := pl_next ?p + 1\<rparr>"
      using l None by (auto simp: pool_lookup_def)
    have "pool_ok ?home (set_task t ?tk' (set_pool p' s))"
    proof (rule section_ok [OF ok t])
      show "pool_grows t ?p p'" by (simp add: l' pool_grows_def)
      show "entries_ok ?home p'" using parts(1) by (fastforce simp: l' entries_ok_def less_Suc_eq)
      show "cells_ok ?home p'"
        using parts(2) None by (auto simp: l' cells_ok_def less_Suc_eq)
      show "task_ok ?home p' t ?tk'" using tk by (simp add: l' task_ok_def)
    qed (use mine in \<open>auto simp: l'\<close>)
    then show ?thesis by blast
  qed
qed

text \<open>Sections that set one cell.\<close>

lemma set_cell_simps [simp]:
  "pl_connections (set_cell c v p) = pl_connections p" "pl_next (set_cell c v p) = pl_next p"
  "pl_cells (set_cell c v p) d = (if d = c then v else pl_cells p d)"
  by (auto simp: set_cell_def)

lemma cells_ok_set_cell:
  assumes "cells_ok home p" and "c < pl_next p"
    and "case v of Ready cn \<Rightarrow> cn_peer cn = home c | _ \<Rightarrow> (\<forall>cn. pl_cells p c \<noteq> Ready cn)"
  shows "cells_ok home (set_cell c v p)"
  using assms unfolding cells_ok_def set_cell_simps
  by (cases v) (intro conjI allI impI; force split: if_splits)+

lemma set_cell_ok:
  assumes ok: "pool_ok home s" and t: "py_tasks s t = Some tk"
    and at: "tk_at tk = AtCell c \<and> pl_cells (py_pool s) c = Vacant \<or> tk_at tk = Connecting c"
    and v: "case v of Ready cn \<Rightarrow> cn_peer cn = tk_node tk \<and> at = Opening c cn
      | Initialising u \<Rightarrow> u = t \<and> at = Connecting c
      | Vacant \<Rightarrow> point_ok home (set_cell c Vacant (py_pool s)) t (tk_node tk) at"
  shows "pool_ok home (set_task t (tk\<lparr>tk_at := at\<rparr>) (set_pool (set_cell c v (py_pool s)) s))"
proof -
  let ?p = "py_pool s"
  have tk: "task_ok home ?p t tk" using pool_okD(3) [OF ok t] .
  have c: "c < pl_next ?p" "home c = tk_node tk" "\<forall>cn. pl_cells ?p c \<noteq> Ready cn"
    "\<forall>u. u \<noteq> t \<longrightarrow> pl_cells ?p c \<noteq> Initialising u"
    using tk at by (auto simp: task_ok_def)
  have only: "d = c" if "pl_cells ?p d = Initialising t" for d
    using initialising_by [OF ok t that] at by auto
  show ?thesis
  proof (rule section_ok [OF ok t])
    show "pool_grows t ?p (set_cell c v ?p)"
      using c v by (cases v) (auto simp: pool_grows_def)
    show "entries_ok home (set_cell c v ?p)"
      using pool_okD(1) [OF ok] by (simp add: entries_ok_def)
    show "cells_ok home (set_cell c v ?p)"
      using c v by (intro cells_ok_set_cell [OF pool_okD(2) [OF ok]]) (auto split: cell.splits)
    show "task_ok home (set_cell c v ?p) t (tk\<lparr>tk_at := at\<rparr>)"
      using tk c v by (cases v) (auto simp: task_ok_def)
    show "tk_at (tk\<lparr>tk_at := at\<rparr>) = Connecting d" if "pl_cells (set_cell c v ?p) d = Initialising t" for d
      using that v only by (cases v) (auto split: if_splits)
  qed simp
qed

lemma evict_ok:
  assumes ok: "pool_ok home s" and t: "py_tasks s t = Some tk" and at: "tk_at tk = Evicting c e"
  shows "pool_ok home (set_task t (next_round (tk\<lparr>tk_stream_err := Some e\<rparr>))
    (set_pool (pool_evict (tk_node tk) c (py_pool s)) s))"
proof -
  let ?p = "py_pool s" and ?tk' = "next_round (tk\<lparr>tk_stream_err := Some e\<rparr>)"
  let ?p' = "pool_evict (tk_node tk) c ?p"
  have tk: "task_ok home ?p t tk" using pool_okD(3) [OF ok t] .
  then obtain cn where cn: "pl_cells ?p c = Ready cn" "home c = tk_node tk"
    using at by (auto simp: task_ok_def)
  have same: "pl_cells ?p' = pl_cells ?p" "pl_next ?p' = pl_next ?p"
    by (auto simp: pool_evict_def split: option.splits)
  have conns: "pl_connections ?p' n = Some x \<Longrightarrow> pl_connections ?p n = Some x" for n x
    by (auto simp: pool_evict_def split: option.splits if_splits)
  have kept: "pl_connections ?p' n = Some x" if "pl_connections ?p n = Some x" "pe_cell x \<noteq> c" for n x
    using that by (auto simp: pool_evict_def split: option.splits)
  show ?thesis
  proof (rule section_ok [OF ok t])
    show "pool_grows t ?p ?p'" by (simp add: pool_grows_def same)
    show "entries_ok home ?p'"
      using pool_okD(1) [OF ok] conns by (fastforce simp: entries_ok_def same)
    show "cells_ok home ?p'"
      using pool_okD(2) [OF ok] kept cn by (fastforce simp: cells_ok_def same)
    show "task_ok home ?p' t ?tk'"
      using tk by (intro next_round_ok) (auto simp: task_ok_def)
    show "tk_at ?tk' = Connecting d" if "pl_cells ?p' d = Initialising t" for d
      using initialising_by [OF ok t, of d] that at by (simp add: same)
  qed simp
qed

lemma cleanup_ok:
  assumes ok: "pool_ok home s"
  shows "pool_ok home (set_pool (cleanup_idle now (py_pool s)) s)"
proof -
  let ?p = "py_pool s" and ?p' = "cleanup_idle now (py_pool s)"
  have same: "pl_cells ?p' = pl_cells ?p" "pl_next ?p' = pl_next ?p"
    by (simp_all add: cleanup_idle_def)
  have conns: "pl_connections ?p' n = Some x \<Longrightarrow> pl_connections ?p n = Some x" for n x
    by (auto simp: cleanup_idle_def split: option.splits if_splits)
  have kept: "pl_connections ?p' n = Some x"
    if "pl_connections ?p n = Some x" "\<forall>cn. pl_cells ?p (pe_cell x) \<noteq> Ready cn" for n x
    using that by (auto simp: cleanup_idle_def keep_entry_def split: cell.splits)
  have "entries_ok home ?p'"
    using pool_okD(1) [OF ok] conns by (fastforce simp: entries_ok_def same)
  moreover have "cells_ok home ?p'"
    using pool_okD(2) [OF ok] kept by (fastforce simp: cells_ok_def same)
  moreover have "task_ok home ?p' t tk" if "task_ok home ?p t tk" for t tk
    using that by (cases "tk_at tk") (auto simp: task_ok_def same)
  ultimately show ?thesis
    using ok by (auto simp: pool_ok_def set_pool_def same)
qed

lemma enter_ok:
  assumes ok: "pool_ok home s" and new: "py_tasks s t = None"
  shows "pool_ok home (set_task t (enter_task node) s)"
proof -
  have "task_ok home (py_pool s) t (enter_task node)"
    by (simp add: enter_task_def next_round_def task_ok_def)
  moreover have "pl_cells (py_pool s) c \<noteq> Initialising t" for c
    using pool_okD(4) [OF ok] new by fastforce
  ultimately show ?thesis
    using ok by (auto simp: pool_ok_def set_task_def)
qed

lemma task_step_ok:
  assumes ok: "pool_ok home s" and t: "py_tasks s t = Some tk"
    and step: "task_step ev t tk (py_pool s) = (tk', p')"
  shows "\<exists>home'. pool_ok home' (set_task t tk' (set_pool p' s))"
proof -
  have tk: "task_ok home (py_pool s) t tk" using pool_okD(3) [OF ok t] .
  have stay: "pool_ok home (set_task t tk (set_pool (py_pool s) s))"
    by (rule move_ok [OF ok t tk])
  have go: "pool_ok home (set_task t (tk\<lparr>tk_at := at\<rparr>) (set_pool (py_pool s) s))"
    if "point_ok home (py_pool s) t (tk_node tk) at" "\<And>c. tk_at tk \<noteq> Connecting c" for at
    using move_ok [OF ok t, of "tk\<lparr>tk_at := at\<rparr>"] that tk by (simp add: task_ok_def)
  show ?thesis
  proof (cases ev)
    case (Lookup u now)
    with step stay lookup_ok [OF ok t] show ?thesis
      by (auto split: task_point.splits prod.splits)
  next
    case (PollCell u)
    show ?thesis
    proof (cases "tk_at tk")
      case (AtCell c)
      with PollCell step stay set_cell_ok [OF ok t, of c "Connecting c" "Initialising t"] go [of "Opening c cn" for cn] tk show ?thesis
        by (fastforce simp: task_ok_def split: cell.splits)
    qed (use PollCell step stay in auto)
  next
    case (Dialled u r)
    show ?thesis
    proof (cases "tk_at tk")
      case (Connecting c)
      show ?thesis
      proof (cases r)
        case (Inl h)
        let ?cn = "\<lparr>cn_handle = h, cn_peer = tk_node tk\<rparr>"
        from Inl Dialled Connecting step show ?thesis
          using set_cell_ok [OF ok t, of c "Opening c ?cn" "Ready ?cn"] by (auto simp: Let_def)
      next
        case (Inr e)
        with Dialled Connecting step show ?thesis
          using set_cell_ok [OF ok t, of c "Finished (Err (Connect e))" Vacant] by auto
      qed
    qed (use Dialled step stay in auto)
  next
    case (Opened u r)
    show ?thesis
    proof (cases "tk_at tk")
      case (Opening c cn)
      have "cn_peer cn = tk_node tk"
        using tk Opening pool_okD(2) [OF ok] by (auto simp: task_ok_def cells_ok_def)
      with Opened Opening step go [of "Finished (Ok cn)"] go [of "Evicting c e" for e] tk show ?thesis
        by (fastforce simp: task_ok_def split: option.splits)
    qed (use Opened step stay in auto)
  next
    case (Evict u)
    with step stay evict_ok [OF ok t] show ?thesis
      by (auto split: task_point.splits)
  next
    case (Drop u)
    show ?thesis
    proof (cases "tk_at tk")
      case (Connecting c)
      with Drop step show ?thesis
        using set_cell_ok [OF ok t, of c Cancelled Vacant] by auto
    qed (use Drop step stay go [of Cancelled] in auto)
  qed (use step stay in auto)
qed

lemma pool_step_inv: "pool_inv s \<Longrightarrow> pool_inv (pool_step ev s)"
proof -
  assume "pool_inv s"
  then obtain home where ok: "pool_ok home s" by (auto simp: pool_inv_def)
  have "pool_inv (case py_tasks s t of None \<Rightarrow> s
     | Some tk \<Rightarrow> (case task_step ev t tk (py_pool s) of (tk', p') \<Rightarrow> set_task t tk' (set_pool p' s)))" for t
    using ok task_step_ok [OF ok, of t] by (auto simp: pool_inv_def split: option.splits prod.splits)
  note task = this
  have at: "pool_step ev s = (case py_tasks s t of None \<Rightarrow> s
     | Some tk \<Rightarrow> (case task_step ev t tk (py_pool s) of (tk', p') \<Rightarrow> set_task t tk' (set_pool p' s)))"
    if "event_task ev = Some t" for t
    using that by (cases ev) (auto simp: pool_step_def)
  show ?thesis
  proof (cases "event_task ev")
    case (Some t)
    show ?thesis unfolding at [OF Some] by (rule task)
  next
    case None
    with ok enter_ok [OF ok] cleanup_ok [OF ok] show ?thesis
      by (cases ev) (auto simp: pool_step_def pool_inv_def simp del: task_step.simps)
  qed
qed

lemma pool_inv_start: "pool_inv pool_sys_start"
  by (auto simp: pool_inv_def pool_ok_def pool_sys_start_def pool_new_def entries_ok_def cells_ok_def)

interpretation pool_events: event_machine pool_inv pool_step
  by unfold_locales (rule pool_step_inv)

lemma reachable_pool_inv: "pool_inv (run_events pool_step evs pool_sys_start)"
  by (rule pool_events.run_inv [OF pool_inv_start])

end
