(* ===== verification/Proxy_World.thy ===== *)
theory Proxy_World
  imports Proxy_Pool
begin

text \<open>
  The world a proxy's task runs in - its client's socket, the pool, the QUIC streams it has
  opened - and \<open>ConnectionPool::open_stream\<close> as the task runs it when no other task comes
  between, with the timeout the proxies put around it.
\<close>

subsection \<open>The environment\<close>

text \<open>
  What the calls that leave the program answer.  They are numbered: \<open>ev_now\<close> is the clock,
  \<open>ev_dial\<close> is \<open>Node::connect_quic\<close> (its \<open>Node\<close> is fixed; the connection returned has the
  node asked for as its peer, which \<open>Connect_Props.calls_reach_the_named_peer\<close> shows of the
  crate), \<open>ev_open\<close> is \<open>QuicConnection::open_stream\<close>, \<open>ev_expires\<close> says whether the timer
  of an enclosing \<open>tokio::time::timeout\<close> fires before the call is answered, and
  \<open>ev_rounds\<close> after which rounds of a relay it does.
\<close>

record environ =
  ev_now :: "nat \<Rightarrow> nat"
  ev_dial :: "nat \<Rightarrow> i32 \<Rightarrow> nat + string"
  ev_open :: "nat \<Rightarrow> conn \<Rightarrow> endpoint + string"
  ev_expires :: "nat \<Rightarrow> bool"
  ev_rounds :: "nat \<Rightarrow> direction list option"

text \<open>A \<open>QuicStream\<close> is its place in the list of the streams opened.\<close>

record proxy_world =
  pw_client :: endpoint
  pw_pool :: pool
  pw_streams :: "(conn \<times> endpoint) list"
  pw_dialled :: "i32 list"
  pw_calls :: nat

datatype 'e timed = Elapsed | Inner 'e

definition on_client :: "(endpoint, 'a, 'e) prog \<Rightarrow> (proxy_world, 'a, 'e) prog" where
  "on_client m = (\<lambda>s. case m (pw_client s) of (r, ep) \<Rightarrow> (r, s\<lparr>pw_client := ep\<rparr>))"

definition on_stream :: "nat \<Rightarrow> (endpoint, 'a, 'e) prog \<Rightarrow> (proxy_world, 'a, 'e) prog" where
  "on_stream i m = (\<lambda>s. case pw_streams s ! i of (cn, q) \<Rightarrow>
     (case m q of (r, q') \<Rightarrow> (r, s\<lparr>pw_streams := (pw_streams s)[i := (cn, q')]\<rparr>)))"

definition on_pool :: "(pool \<Rightarrow> pool) \<Rightarrow> proxy_world \<Rightarrow> proxy_world" where
  "on_pool f s = s\<lparr>pw_pool := f (pw_pool s)\<rparr>"

text \<open>An \<open>await\<close>, at which a future under a timeout may be dropped.\<close>

definition awaiting ::
  "environ \<Rightarrow> bool \<Rightarrow> (nat \<Rightarrow> (proxy_world, 'a, 'e timed) prog) \<Rightarrow> (proxy_world, 'a, 'e timed) prog"
where
  "awaiting env under_timer m = (\<lambda>s. let n = pw_calls s; s' = s\<lparr>pw_calls := n + 1\<rparr> in
     if under_timer \<and> ev_expires env n then (Err Elapsed, s') else m n s')"

subsection \<open>open\_stream\<close>

definition connect_quic ::
  "environ \<Rightarrow> bool \<Rightarrow> i32 \<Rightarrow> (proxy_world, conn, open_stream_error timed) prog"
where
  "connect_quic env under_timer node =
     pbind (modify (\<lambda>s. s\<lparr>pw_dialled := pw_dialled s @ [node]\<rparr>)) (\<lambda>_.
     awaiting env under_timer (\<lambda>n. lift (case ev_dial env n node of
        Inl h \<Rightarrow> Ok \<lparr>cn_handle = h, cn_peer = node\<rparr>
      | Inr e \<Rightarrow> Err (Inner (Connect e)))))"

text \<open>
  \<open>get_or_try_init\<close> for a caller that is alone: a cell that is not set is initialised here,
  and left empty if that fails or is dropped.
\<close>

definition get_or_try_init ::
  "environ \<Rightarrow> bool \<Rightarrow> i32 \<Rightarrow> nat \<Rightarrow> (proxy_world, conn, open_stream_error timed) prog"
where
  "get_or_try_init env under_timer node c = (\<lambda>s. case pl_cells (pw_pool s) c of
     Ready cn \<Rightarrow> (Ok cn, s)
   | _ \<Rightarrow> (case connect_quic env under_timer node (on_pool (set_cell c (Initialising 0)) s) of
        (Ok cn, s') \<Rightarrow> (Ok cn, on_pool (set_cell c (Ready cn)) s')
      | (r, s') \<Rightarrow> (r, on_pool (set_cell c Vacant) s')))"

text \<open>\<open>conn.open_stream()\<close>: the new stream's place, or its error.\<close>

definition conn_open_stream ::
  "environ \<Rightarrow> bool \<Rightarrow> conn \<Rightarrow> (proxy_world, nat, string timed) prog"
where
  "conn_open_stream env under_timer cn = awaiting env under_timer (\<lambda>n s.
     case ev_open env n cn of
       Inl q \<Rightarrow> (Ok (length (pw_streams s)), s\<lparr>pw_streams := pw_streams s @ [(cn, q)]\<rparr>)
     | Inr e \<Rightarrow> (Err (Inner e), s))"

definition find_cell :: "environ \<Rightarrow> i32 \<Rightarrow> (proxy_world, nat, 'e) prog" where
  "find_cell env node = (\<lambda>s. case pool_lookup node (ev_now env (pw_calls s)) (pw_pool s) of
     (c, p) \<Rightarrow> (Ok c, s\<lparr>pw_pool := p\<rparr>))"

fun open_rounds :: "nat \<Rightarrow> string option \<Rightarrow> environ \<Rightarrow> bool \<Rightarrow> i32 \<Rightarrow>
    (proxy_world, nat, open_stream_error timed) prog" where
  "open_rounds 0 last_err env under_timer node =
     (case last_err of Some e \<Rightarrow> fail (Inner (Stream e)) | None \<Rightarrow> lift Panic)"
| "open_rounds (Suc k) last_err env under_timer node =
     pbind (find_cell env node) (\<lambda>c.
     pbind (get_or_try_init env under_timer node c) (\<lambda>cn.
     pcatch (conn_open_stream env under_timer cn) ret (\<lambda>e. case e of
        Elapsed \<Rightarrow> fail Elapsed
      | Inner e \<Rightarrow> pbind (modify (on_pool (pool_evict node c))) (\<lambda>_.
          open_rounds k (Some e) env under_timer node))))"

definition open_stream ::
  "environ \<Rightarrow> bool \<Rightarrow> i32 \<Rightarrow> (proxy_world, nat, open_stream_error timed) prog"
where
  "open_stream env under_timer node = open_rounds 2 None env under_timer node"

subsection \<open>It is a run of the pool's steps\<close>

text \<open>Where a task stands when \<open>open_stream\<close> has ended.\<close>

fun end_point :: "(nat, open_stream_error timed) result \<Rightarrow> (conn \<times> endpoint) list \<Rightarrow> task_point" where
  "end_point (Ok i) qs = Finished (Ok (fst (qs ! i)))"
| "end_point (Err Elapsed) qs = Cancelled"
| "end_point (Err (Inner e)) qs = Finished (Err e)"
| "end_point Panic qs = Finished Panic"

text \<open>One task with its pool.\<close>

definition alone :: "pool \<Rightarrow> task \<Rightarrow> pool_sys" where
  "alone p tk = \<lparr>py_pool = p, py_tasks = [0 \<mapsto> tk]\<rparr>"

definition settled :: "pool \<Rightarrow> bool" where
  "settled p \<longleftrightarrow> (\<forall>c t. pl_cells p c \<noteq> Initialising t)"

lemma pool_step_alone:
  "event_task ev = Some 0 \<Longrightarrow>
     pool_step ev (alone p tk) = (case task_step ev 0 tk p of (tk', p') \<Rightarrow> alone p' tk')"
  by (cases ev) (auto simp: pool_step_def alone_def set_task_def set_pool_def
      simp del: task_step.simps split: prod.splits)

lemma run_alone:
  "event_task ev = Some 0 \<Longrightarrow> task_step ev 0 tk p = (tk', p') \<Longrightarrow>
     run_events pool_step (ev # evs) (alone p tk) = run_events pool_step evs (alone p' tk')"
  by (simp add: pool_step_alone)

lemma settled_simps:
  "settled p \<Longrightarrow> settled (snd (pool_lookup n now p))"
  "settled p \<Longrightarrow> settled (pool_evict n c p)"
  "settled p \<Longrightarrow> (\<And>t. v \<noteq> Initialising t) \<Longrightarrow> settled (set_cell c v p)"
  by (auto simp: settled_def pool_lookup_def pool_evict_def split: option.splits)

lemma set_cell_twice [simp]: "set_cell c v (set_cell c w p) = set_cell c v p"
  by (simp add: set_cell_def)

text \<open>The events of one visit to the cell.\<close>

lemma get_or_try_init_run:
  assumes s: "settled (pw_pool s)" and at: "tk_at tk = AtCell c" and node: "tk_node tk = node"
    and g: "get_or_try_init env ut node c s = (r, s')"
  obtains evs at' where
    "\<And>more. run_events pool_step (evs @ more) (alone (pw_pool s) tk) =
      run_events pool_step more (alone (pw_pool s') (tk\<lparr>tk_at := at'\<rparr>))"
    "settled (pw_pool s')" "pw_streams s' = pw_streams s"
    "case r of Ok cn \<Rightarrow> at' = Opening c cn | Err Elapsed \<Rightarrow> at' = Cancelled
      | Err (Inner e) \<Rightarrow> at' = Finished (Err e) | Panic \<Rightarrow> False"
proof (cases "pl_cells (pw_pool s) c")
  case (Ready cn)
  then have r: "r = Ok cn" "s' = s" using g by (auto simp: get_or_try_init_def)
  show ?thesis
  proof (rule that [of "[PollCell 0]" "Opening c cn"])
    show "run_events pool_step ([PollCell 0] @ more) (alone (pw_pool s) tk) =
      run_events pool_step more (alone (pw_pool s') (tk\<lparr>tk_at := Opening c cn\<rparr>))" for more
      using Ready at r by (simp add: pool_step_alone)
  qed (use s r in auto)
next
  case (Initialising t)
  with s show ?thesis by (simp add: settled_def)
next
  case Vacant
  let ?n = "pw_calls s"
  let ?p = "set_cell c (Initialising 0) (pw_pool s)"
  have poll: "run_events pool_step (PollCell 0 # evs) (alone (pw_pool s) tk) =
      run_events pool_step evs (alone ?p (tk\<lparr>tk_at := Connecting c\<rparr>))" for evs
    using Vacant at by (simp add: pool_step_alone)
  consider (elapsed) "ut \<and> ev_expires env ?n"
    | (ok) h where "\<not> (ut \<and> ev_expires env ?n)" "ev_dial env ?n node = Inl h"
    | (err) e where "\<not> (ut \<and> ev_expires env ?n)" "ev_dial env ?n node = Inr e"
    by (cases "ev_dial env ?n node") auto
  then show ?thesis
  proof cases
    case elapsed
    then have r: "r = Err Elapsed" "pw_pool s' = set_cell c Vacant (pw_pool s)"
        "pw_streams s' = pw_streams s"
      using g Vacant by (auto simp: get_or_try_init_def connect_quic_def awaiting_def on_pool_def
          pbind_def Let_def)
    show ?thesis
    proof (rule that [of "[PollCell 0, Drop 0]" Cancelled])
      show "run_events pool_step ([PollCell 0, Drop 0] @ more) (alone (pw_pool s) tk) =
        run_events pool_step more (alone (pw_pool s') (tk\<lparr>tk_at := Cancelled\<rparr>))" for more
        unfolding append_Cons poll by (simp add: pool_step_alone r)
    qed (use s r settled_simps(3) in auto)
  next
    case (ok h)
    let ?cn = "\<lparr>cn_handle = h, cn_peer = node\<rparr>"
    from ok have r: "r = Ok ?cn" "pw_pool s' = set_cell c (Ready ?cn) (pw_pool s)"
        "pw_streams s' = pw_streams s"
      using g Vacant by (auto simp: get_or_try_init_def connect_quic_def awaiting_def on_pool_def
          pbind_def Let_def)
    show ?thesis
    proof (rule that [of "[PollCell 0, Dialled 0 (Inl h)]" "Opening c ?cn"])
      show "run_events pool_step ([PollCell 0, Dialled 0 (Inl h)] @ more) (alone (pw_pool s) tk) =
        run_events pool_step more (alone (pw_pool s') (tk\<lparr>tk_at := Opening c ?cn\<rparr>))" for more
        unfolding append_Cons poll by (simp add: pool_step_alone r node Let_def)
    qed (use s r settled_simps(3) in auto)
  next
    case (err e)
    then have r: "r = Err (Inner (Connect e))" "pw_pool s' = set_cell c Vacant (pw_pool s)"
        "pw_streams s' = pw_streams s"
      using g Vacant by (auto simp: get_or_try_init_def connect_quic_def awaiting_def on_pool_def
          pbind_def Let_def)
    show ?thesis
    proof (rule that [of "[PollCell 0, Dialled 0 (Inr e)]" "Finished (Err (Connect e))"])
      show "run_events pool_step ([PollCell 0, Dialled 0 (Inr e)] @ more) (alone (pw_pool s) tk) =
        run_events pool_step more (alone (pw_pool s') (tk\<lparr>tk_at := Finished (Err (Connect e))\<rparr>))" for more
        unfolding append_Cons poll by (simp add: pool_step_alone r)
    qed (use s r settled_simps(3) in auto)
  qed
qed

lemma open_rounds_run:
  assumes "settled (pw_pool s)" and "m \<le> 2" and "tk_round tk = 2 - m" and "tk_stream_err tk = err"
    and "tk_node tk = node" and "open_rounds m err env ut node s = (r, s')"
  shows "\<exists>evs tk'. run_events pool_step evs (alone (pw_pool s) (next_round tk)) = alone (pw_pool s') tk' \<and>
    tk_at tk' = end_point r (pw_streams s') \<and> tk_node tk' = node \<and> settled (pw_pool s')"
  using assms
proof (induction m arbitrary: s tk err)
  case 0
  then show ?case
    by (intro exI [of _ "[]"] exI [of _ "next_round tk"]) (auto simp: next_round_def split: option.splits)
next
  case (Suc m)
  let ?tk = "next_round tk"
  have tk: "?tk = tk\<lparr>tk_round := 2 - m, tk_at := AtLookup\<rparr>"
    using Suc.prems by (simp add: next_round_def)
  obtain c p where l: "pool_lookup node (ev_now env (pw_calls s)) (pw_pool s) = (c, p)"
    by (cases "pool_lookup node (ev_now env (pw_calls s)) (pw_pool s)")
  let ?s1 = "s\<lparr>pw_pool := p\<rparr>" and ?tk1 = "?tk\<lparr>tk_at := AtCell c\<rparr>"
  have s1: "settled (pw_pool ?s1)"
    using settled_simps(1) [OF Suc.prems(1), of node "ev_now env (pw_calls s)"] l by simp
  have lookup: "run_events pool_step (Lookup 0 (ev_now env (pw_calls s)) # evs) (alone (pw_pool s) ?tk) =
      run_events pool_step evs (alone p ?tk1)" for evs
    using l Suc.prems(5) by (simp add: pool_step_alone tk)
  obtain g s2 where g: "get_or_try_init env ut node c ?s1 = (g, s2)"
    by (cases "get_or_try_init env ut node c ?s1")
  obtain evs at where init:
      "\<And>more. run_events pool_step (evs @ more) (alone p ?tk1) =
        run_events pool_step more (alone (pw_pool s2) (?tk1\<lparr>tk_at := at\<rparr>))"
      "settled (pw_pool s2)" "pw_streams s2 = pw_streams s"
      "case g of Ok cn \<Rightarrow> at = Opening c cn | Err Elapsed \<Rightarrow> at = Cancelled
        | Err (Inner e) \<Rightarrow> at = Finished (Err e) | Panic \<Rightarrow> False"
    using get_or_try_init_run [OF s1 _ _ g, of ?tk1] Suc.prems(5) by (auto simp: tk)
  note run = lookup init(1)
  have fin: ?case
    if "run_events pool_step E (alone (pw_pool s) ?tk) = alone (pw_pool s') T"
      "tk_at T = end_point r (pw_streams s')" "tk_node T = node" "settled (pw_pool s')" for E T
    using that by blast
  show ?case
  proof (cases g)
    case Panic
    with init(4) show ?thesis by simp
  next
    case (Err e)
    then have r: "r = Err e" "s' = s2"
      using Suc.prems(6) l g by (auto simp: find_cell_def pbind_def)
    have "at = end_point r (pw_streams s')"
      using init(4) Err r by (cases e) auto
    note at = this
    have "run_events pool_step (Lookup 0 (ev_now env (pw_calls s)) # evs @ []) (alone (pw_pool s) ?tk) =
        alone (pw_pool s') (?tk1\<lparr>tk_at := at\<rparr>)"
      unfolding run r by simp
    then show ?thesis
      by (rule fin) (use at init(2) r Suc.prems(5) in \<open>simp_all add: tk\<close>)
  next
    case (Ok cn)
    let ?tk2 = "?tk1\<lparr>tk_at := Opening c cn\<rparr>" and ?n = "pw_calls s2"
    have at: "at = Opening c cn" using init(4) Ok by simp
    consider (elapsed) "ut \<and> ev_expires env ?n"
      | (ok) q where "\<not> (ut \<and> ev_expires env ?n)" "ev_open env ?n cn = Inl q"
      | (err) e where "\<not> (ut \<and> ev_expires env ?n)" "ev_open env ?n cn = Inr e"
      by (cases "ev_open env ?n cn") auto
    then show ?thesis
    proof cases
      case elapsed
      then have r: "r = Err Elapsed" "pw_pool s' = pw_pool s2"
        using Suc.prems(6) l g Ok
        by (auto simp: find_cell_def pbind_def pcatch_def conn_open_stream_def awaiting_def Let_def)
      have "run_events pool_step (Lookup 0 (ev_now env (pw_calls s)) # evs @ [Drop 0]) (alone (pw_pool s) ?tk) =
          alone (pw_pool s') (?tk2\<lparr>tk_at := Cancelled\<rparr>)"
        unfolding run r at by (simp add: pool_step_alone)
      then show ?thesis
        by (rule fin) (use init(2) r Suc.prems(5) in \<open>simp_all add: tk\<close>)
    next
      case (ok q)
      then have r: "r = result.Ok (length (pw_streams s2))" "pw_pool s' = pw_pool s2"
          "pw_streams s' = pw_streams s2 @ [(cn, q)]"
        using Suc.prems(6) l g Ok
        by (auto simp: find_cell_def pbind_def pcatch_def conn_open_stream_def awaiting_def Let_def)
      have "run_events pool_step (Lookup 0 (ev_now env (pw_calls s)) # evs @ [Opened 0 None]) (alone (pw_pool s) ?tk) =
          alone (pw_pool s') (?tk2\<lparr>tk_at := Finished (result.Ok cn)\<rparr>)"
        unfolding run r at by (simp add: pool_step_alone)
      then show ?thesis
        by (rule fin) (use init(2) r Suc.prems(5) in \<open>simp_all add: tk\<close>)
    next
      case (err e)
      let ?s3 = "on_pool (pool_evict node c) (s2\<lparr>pw_calls := ?n + 1\<rparr>)"
      let ?tk3 = "?tk2\<lparr>tk_at := Evicting c e, tk_stream_err := Some e\<rparr>"
      from err have r: "open_rounds m (Some e) env ut node ?s3 = (r, s')"
        using Suc.prems(6) l g Ok
        by (auto simp: find_cell_def pbind_def pcatch_def conn_open_stream_def awaiting_def Let_def)
      have "settled (pw_pool ?s3)"
        using settled_simps(2) [OF init(2)] by (simp add: on_pool_def)
      then obtain evs' tk' where IH:
          "run_events pool_step evs' (alone (pw_pool ?s3) (next_round ?tk3)) = alone (pw_pool s') tk'"
          "tk_at tk' = end_point r (pw_streams s')" "tk_node tk' = node" "settled (pw_pool s')"
        using Suc.IH [of ?s3 ?tk3 "Some e"] r Suc.prems by (auto simp: tk)
      have "run_events pool_step (Lookup 0 (ev_now env (pw_calls s)) # evs @ ([Opened 0 (Some e), Evict 0] @ evs'))
          (alone (pw_pool s) ?tk) = alone (pw_pool s') tk'"
        unfolding run at using IH(1) Suc.prems(5)
        by (simp add: pool_step_alone on_pool_def tk)
      with IH show ?thesis by blast
    qed
  qed
qed

lemma open_stream_run:
  assumes "settled (pw_pool s)" and "open_stream env ut node s = (r, s')"
  shows "\<exists>evs tk'. run_events pool_step evs (alone (pw_pool s) (enter_task node)) = alone (pw_pool s') tk' \<and>
    tk_at tk' = end_point r (pw_streams s') \<and> tk_node tk' = node \<and> settled (pw_pool s')"
  unfolding enter_task_def
  by (rule open_rounds_run [OF assms(1) _ _ _ _ assms(2) [unfolded open_stream_def]]) simp_all

subsection \<open>What it touches\<close>

text \<open>
  \<open>open_stream\<close> dials nothing but the node asked for, at most once a round, opens at most one
  stream, and leaves the client alone.
\<close>

definition stream_opened ::
  "environ \<Rightarrow> (nat, 'e) result \<Rightarrow> proxy_world \<Rightarrow> proxy_world \<Rightarrow> bool"
where
  "stream_opened env r s s' \<longleftrightarrow> (case r of
     Ok i \<Rightarrow> i = length (pw_streams s) \<and>
       (\<exists>cn q n. pw_streams s' = pw_streams s @ [(cn, q)] \<and> ev_open env n cn = Inl q)
   | _ \<Rightarrow> pw_streams s' = pw_streams s)"

lemma get_or_try_init_touches:
  assumes "get_or_try_init env ut node c s = (r, s')"
  shows "pw_client s' = pw_client s" and "pw_streams s' = pw_streams s"
    and "\<exists>k \<le> 1. pw_dialled s' = pw_dialled s @ replicate k node" and "r \<noteq> Panic"
proof -
  have c: "pw_client u = pw_client v \<and> pw_streams u = pw_streams v \<and>
      pw_dialled u = pw_dialled v @ [node] \<and> x \<noteq> Panic"
    if "connect_quic env ut node v = (x, u)" for x u v
    using that by (auto simp: connect_quic_def pbind_def awaiting_def Let_def split: if_splits sum.splits)
  have k: "\<exists>k \<le> 1. pw_dialled s @ [node] = pw_dialled s @ replicate k node"
    by (rule exI [of _ 1]) simp
  show "pw_client s' = pw_client s" "pw_streams s' = pw_streams s"
    "\<exists>k \<le> 1. pw_dialled s' = pw_dialled s @ replicate k node" "r \<noteq> Panic"
    using assms k by (auto simp: get_or_try_init_def on_pool_def dest!: c
        split: cell.splits result.splits prod.splits intro: exI [of _ "0 :: nat"])
qed

lemma open_rounds_touches:
  assumes "open_rounds m err env ut node s = (r, s')"
  shows "pw_client s' = pw_client s \<and> stream_opened env r s s' \<and>
    (\<exists>k \<le> m. pw_dialled s' = pw_dialled s @ replicate k node)"
  using assms
proof (induction m arbitrary: err s)
  case 0
  then show ?case by (auto simp: stream_opened_def split: option.splits)
next
  case (Suc m)
  obtain c p where l: "pool_lookup node (ev_now env (pw_calls s)) (pw_pool s) = (c, p)"
    by (cases "pool_lookup node (ev_now env (pw_calls s)) (pw_pool s)")
  obtain g s2 where g: "get_or_try_init env ut node c (s\<lparr>pw_pool := p\<rparr>) = (g, s2)"
    by (cases "get_or_try_init env ut node c (s\<lparr>pw_pool := p\<rparr>)")
  note t = get_or_try_init_touches [OF g, simplified]
  obtain k where k: "k \<le> 1" "pw_dialled s2 = pw_dialled s @ replicate k node" using t(3) by auto
  show ?case
  proof (cases g)
    case Panic
    with t show ?thesis by simp
  next
    case (Err e)
    then have "r = Err e" "s' = s2"
      using Suc.prems l g by (auto simp: find_cell_def pbind_def)
    with t k show ?thesis by (auto simp: stream_opened_def intro: exI [of _ k])
  next
    case (Ok cn)
    obtain x s3 where x: "conn_open_stream env ut cn s2 = (x, s3)"
      by (cases "conn_open_stream env ut cn s2")
    have x': "pw_client s3 = pw_client s2 \<and> pw_dialled s3 = pw_dialled s2 \<and> x \<noteq> Panic \<and>
        stream_opened env x s2 s3"
      using x by (auto simp: conn_open_stream_def awaiting_def Let_def stream_opened_def
          split: if_splits sum.splits)
    have kk: "\<exists>k \<le> Suc m. pw_dialled s2 = pw_dialled s @ replicate k node"
      using k by (intro exI [of _ k]) simp
    show ?thesis
    proof (cases x)
      case Panic
      with x' show ?thesis by simp
    next
      case (Ok i)
      then have "r = result.Ok i" "s' = s3"
        using Suc.prems l g \<open>g = result.Ok cn\<close> x by (auto simp: find_cell_def pbind_def pcatch_def)
      with x' Ok t kk show ?thesis by (simp add: stream_opened_def)
    next
      case (Err e)
      note x'' = x' [unfolded Err]
      show ?thesis
      proof (cases e)
        case Elapsed
        then have "r = result.Err Elapsed" "s' = s3"
          using Suc.prems l g \<open>g = result.Ok cn\<close> x Err by (auto simp: find_cell_def pbind_def pcatch_def)
        with x'' t kk show ?thesis by (simp add: stream_opened_def)
      next
        case (Inner e')
        then have "open_rounds m (Some e') env ut node (on_pool (pool_evict node c) s3) = (r, s')"
          using Suc.prems l g \<open>g = result.Ok cn\<close> x Err by (auto simp: find_cell_def pbind_def pcatch_def)
        from Suc.IH [OF this] obtain k' where IH: "pw_client s' = pw_client s3"
            "stream_opened env r (on_pool (pool_evict node c) s3) s'"
            "k' \<le> m" "pw_dialled s' = pw_dialled s3 @ replicate k' node"
          by (auto simp: on_pool_def)
        have "pw_dialled s' = pw_dialled s @ replicate (k + k') node"
          using IH x'' k by (simp add: replicate_add)
        moreover have "stream_opened env r s s'"
          using IH(2) x'' t by (simp add: stream_opened_def on_pool_def split: result.splits)
        ultimately show ?thesis
          using IH x'' t k by (auto intro!: exI [of _ "k + k'"])
      qed
    qed
  qed
qed

lemma open_stream_touches:
  assumes "open_stream env ut node s = (r, s')"
  shows "pw_client s' = pw_client s" and "stream_opened env r s s'"
    and "\<exists>k \<le> 2. pw_dialled s' = pw_dialled s @ replicate k node"
  using open_rounds_touches [OF assms [unfolded open_stream_def]] by auto

text \<open>A pool that tasks have left in order, and the node a stream leads to.\<close>

definition pool_fit :: "pool \<Rightarrow> bool" where
  "pool_fit p \<longleftrightarrow> settled p \<and> (\<exists>home. entries_ok home p \<and> cells_ok home p)"

lemma pool_fit_new: "pool_fit pool_new"
  by (simp add: pool_fit_def settled_def pool_new_def entries_ok_def cells_ok_def)

lemma open_stream_peer:
  assumes fit: "pool_fit (pw_pool s)" and o: "open_stream env ut node s = (r, s')"
  shows "pool_fit (pw_pool s')" and "r = Ok i \<Longrightarrow> cn_peer (fst (pw_streams s' ! i)) = node"
    and "r \<noteq> Panic"
proof -
  obtain home where home: "entries_ok home (pw_pool s)" "cells_ok home (pw_pool s)"
      "settled (pw_pool s)"
    using fit by (auto simp: pool_fit_def)
  have "task_ok home (pw_pool s) 0 (enter_task node)"
    by (simp add: enter_task_def next_round_def task_ok_def)
  then have "pool_ok home (alone (pw_pool s) (enter_task node))"
    using home by (auto simp: pool_ok_def alone_def settled_def)
  then have inv: "pool_inv (alone (pw_pool s) (enter_task node))" by (auto simp: pool_inv_def)
  obtain evs tk where run:
      "run_events pool_step evs (alone (pw_pool s) (enter_task node)) = alone (pw_pool s') tk"
      "tk_at tk = end_point r (pw_streams s')" "tk_node tk = node" "settled (pw_pool s')"
    using open_stream_run [OF home(3) o] by blast
  have "pool_inv (alone (pw_pool s') tk)"
    using pool_events.run_inv [OF inv, of evs] run(1) by simp
  then obtain home' where ok: "pool_ok home' (alone (pw_pool s') tk)" by (auto simp: pool_inv_def)
  then show "pool_fit (pw_pool s')"
    using run(4) by (auto simp: pool_fit_def pool_ok_def alone_def)
  have t: "point_ok home' (pw_pool s') 0 node (end_point r (pw_streams s'))"
    using pool_okD(3) [OF ok, of 0 tk] run(2,3) by (simp add: alone_def task_ok_def)
  then show "r = Ok i \<Longrightarrow> cn_peer (fst (pw_streams s' ! i)) = node" by simp
  show "r \<noteq> Panic" using t by auto
qed

text \<open>The first stream to a node, when nothing goes wrong.\<close>

lemma open_stream_first:
  assumes "pl_connections (pw_pool s) node = None" and "pl_cells (pw_pool s) (pl_next (pw_pool s)) = Vacant"
    and "\<And>n. \<not> ev_expires env n" and "\<And>n. ev_dial env n node = Inl h"
    and "\<And>n. ev_open env n \<lparr>cn_handle = h, cn_peer = node\<rparr> = Inl q"
  obtains s' where "open_stream env True node s = (Ok (length (pw_streams s)), s')"
    "pw_client s' = pw_client s"
    "pw_streams s' = pw_streams s @ [(\<lparr>cn_handle = h, cn_peer = node\<rparr>, q)]"
    "pw_dialled s' = pw_dialled s @ [node]"
  using assms
  by (simp add: open_stream_def numeral_2_eq_2 find_cell_def pool_lookup_def pbind_def
      get_or_try_init_def connect_quic_def awaiting_def on_pool_def set_cell_def pcatch_def
      conn_open_stream_def Let_def)

end
