(* ===== verification/Proxy_Socks.thy ===== *)
theory Proxy_Socks
  imports Proxy_World
begin

text \<open>
  \<open>wconnect/src/proxy_socks.rs\<close>: the SOCKS5 proxy.  A client's connection is greeted
  (\<open>handle_auth\<close>), its request is read (\<open>handle_connect_request\<close>) and routed: to a node of
  the group with a FORWARD command, or through the egress node with a CONNECT command; then
  bytes are relayed.
\<close>

definition SOCKS_VERSION :: u8 where "SOCKS_VERSION = 0x05"
definition AUTH_NOAUTH :: u8 where "AUTH_NOAUTH = 0x00"
definition CMD_CONNECT :: u8 where "CMD_CONNECT = 0x01"
definition ATYP_IPV4 :: u8 where "ATYP_IPV4 = 0x01"
definition ATYP_DOMAIN :: u8 where "ATYP_DOMAIN = 0x03"
definition ATYP_IPV6 :: u8 where "ATYP_IPV6 = 0x04"

definition REP_SUCCESS :: u8 where "REP_SUCCESS = 0x00"
definition REP_GENERAL_FAILURE :: u8 where "REP_GENERAL_FAILURE = 0x01"
definition REP_NOT_ALLOWED :: u8 where "REP_NOT_ALLOWED = 0x02"
definition REP_HOST_UNREACHABLE :: u8 where "REP_HOST_UNREACHABLE = 0x04"
definition REP_CONNECTION_REFUSED :: u8 where "REP_CONNECTION_REFUSED = 0x05"
definition REP_TTL_EXPIRED :: u8 where "REP_TTL_EXPIRED = 0x06"
definition REP_COMMAND_NOT_SUPPORTED :: u8 where "REP_COMMAND_NOT_SUPPORTED = 0x07"
definition REP_ADDRESS_TYPE_NOT_SUPPORTED :: u8 where "REP_ADDRESS_TYPE_NOT_SUPPORTED = 0x08"

lemmas socks_constants = SOCKS_VERSION_def AUTH_NOAUTH_def CMD_CONNECT_def ATYP_IPV4_def
  ATYP_DOMAIN_def ATYP_IPV6_def REP_SUCCESS_def REP_GENERAL_FAILURE_def REP_NOT_ALLOWED_def
  REP_HOST_UNREACHABLE_def REP_CONNECTION_REFUSED_def REP_TTL_EXPIRED_def
  REP_COMMAND_NOT_SUPPORTED_def REP_ADDRESS_TYPE_NOT_SUPPORTED_def

record connect_request =
  cr_host :: string
  cr_port :: u16

definition byte_text :: "u8 \<Rightarrow> string" where
  "byte_text b = nat_to_string (unat b)"

text \<open>The ten bytes of a reply, with \<open>0.0.0.0:0\<close> as the bound address.\<close>

definition reply_bytes :: "u8 \<Rightarrow> bytes" where
  "reply_bytes reply_code =
     [SOCKS_VERSION, reply_code, 0x00, ATYP_IPV4, 0, 0, 0, 0, 0, 0]"

definition send_reply :: "u8 \<Rightarrow> (endpoint, unit, 'e) prog" where
  "send_reply reply_code = ignoring (ep_write_all (reply_bytes reply_code))"

subsection \<open>The handshake\<close>

definition handle_auth :: "(endpoint, unit, proxy_error) prog" where
  "handle_auth =
     pbind (perr (\<lambda>e. BadRequest (''failed to read auth request: '' @ e)) (ep_read 258)) (\<lambda>buf.
     pbind (lift (check (2 \<le> length buf) (BadRequest ''auth request too short''))) (\<lambda>_.
     let version = buf ! 0; nmethods = unat (buf ! 1) in
     pbind (lift (check (version = SOCKS_VERSION)
        (BadRequest (''unsupported SOCKS version: '' @ byte_text version)))) (\<lambda>_.
     pbind (lift (check (2 + nmethods \<le> length buf) (BadRequest ''auth request truncated''))) (\<lambda>_.
     let methods = take nmethods (drop 2 buf) in
     if AUTH_NOAUTH \<notin> set methods then
       pbind (ignoring (ep_write_all [SOCKS_VERSION, 0xFF])) (\<lambda>_.
       fail (BadRequest ''client does not support NOAUTH''))
     else
       perr (\<lambda>e. BadRequest (''failed to send auth response: '' @ e))
         (ep_write_all [SOCKS_VERSION, AUTH_NOAUTH])))))"

definition read_field :: "string \<Rightarrow> nat \<Rightarrow> (endpoint, bytes, proxy_error) prog" where
  "read_field what n = perr (\<lambda>e. BadRequest (''failed to read '' @ what @ '': '' @ e)) (ep_read_exact n)"

text \<open>The destination, by the type of its address.\<close>

definition read_host :: "u8 \<Rightarrow> (endpoint, string, proxy_error) prog" where
  "read_host atyp =
     (if atyp = ATYP_IPV4 then
        pbind (read_field ''IPv4 address'' 4) (\<lambda>addr. ret (ipv4_text addr))
      else if atyp = ATYP_DOMAIN then
        pbind (read_field ''domain length'' 1) (\<lambda>len_buf.
        pbind (read_field ''domain'' (unat (len_buf ! 0))) (\<lambda>domain.
        lift (ok_or (BadRequest ''invalid domain name encoding'') (from_utf8 domain))))
      else if atyp = ATYP_IPV6 then
        pbind (read_field ''IPv6 address'' 16) (\<lambda>addr. ret (ipv6_text addr))
      else
        pbind (send_reply REP_ADDRESS_TYPE_NOT_SUPPORTED) (\<lambda>_.
        fail (BadRequest (''unsupported address type: '' @ byte_text atyp))))"

definition handle_connect_request :: "(endpoint, connect_request, proxy_error) prog" where
  "handle_connect_request =
     pbind (read_field ''request header'' 4) (\<lambda>header.
     let version = header ! 0; cmd = header ! 1; atyp = header ! 3 in
     pbind (lift (check (version = SOCKS_VERSION)
        (BadRequest (''unsupported SOCKS version: '' @ byte_text version)))) (\<lambda>_.
     if cmd \<noteq> CMD_CONNECT then
       pbind (send_reply REP_COMMAND_NOT_SUPPORTED) (\<lambda>_.
       fail (BadRequest (''unsupported command: '' @ byte_text cmd)))
     else
       pbind (read_host atyp) (\<lambda>host.
       pbind (read_field ''port'' 2) (\<lambda>port_buf.
       ret \<lparr>cr_host = host, cr_port = u16_from_be_bytes port_buf\<rparr>))))"

subsection \<open>Routing\<close>

definition relay_stream :: "nat \<Rightarrow> (proxy_world, unit, 'e) prog" where
  "relay_stream i = (\<lambda>s. case pw_streams s ! i of (cn, q) \<Rightarrow>
     (case relay (pw_client s) q of (client, q') \<Rightarrow>
        (Ok (), s\<lparr>pw_client := client, pw_streams := (pw_streams s)[i := (cn, q')]\<rparr>)))"

text \<open>The part \<open>forward_to_node\<close> and \<open>egress_to_node\<close> have in common.\<close>

definition tunnel_to_node :: "environ \<Rightarrow> i32 \<Rightarrow> string \<Rightarrow> (proxy_world, unit, string) prog" where
  "tunnel_to_node env target_node command =
     pcatch (open_stream env True target_node)
       (\<lambda>i. pcatch (on_stream i (send_command command))
          (\<lambda>_. pbind (on_client (send_reply REP_SUCCESS)) (\<lambda>_. relay_stream i))
          (\<lambda>e. pbind (on_client (send_reply REP_CONNECTION_REFUSED)) (\<lambda>_.
               fail (command_error_text e))))
       (\<lambda>e. case e of
          Inner e \<Rightarrow> pbind (on_client (send_reply REP_HOST_UNREACHABLE)) (\<lambda>_.
            fail (open_stream_error_text e))
        | Elapsed \<Rightarrow> pbind (on_client (send_reply REP_TTL_EXPIRED)) (\<lambda>_.
            fail ''open_stream timeout''))"

definition forward_to_node :: "environ \<Rightarrow> i32 \<Rightarrow> u16 \<Rightarrow> (proxy_world, unit, string) prog" where
  "forward_to_node env target_node port = tunnel_to_node env target_node (forward_command port)"

definition egress_to_node :: "environ \<Rightarrow> i32 \<Rightarrow> string \<Rightarrow> u16 \<Rightarrow> (proxy_world, unit, string) prog" where
  "egress_to_node env egress_node host port =
     tunnel_to_node env egress_node (connect_command host port)"

definition route_connection ::
  "environ \<Rightarrow> connect_request \<Rightarrow> i32 option \<Rightarrow> (proxy_world, unit, string) prog"
where
  "route_connection env request egress_node =
     (case parse_wispers_host (cr_host request) of
        Ok node_number \<Rightarrow> forward_to_node env node_number (cr_port request)
      | Err None \<Rightarrow> (case egress_node of
           Some egress \<Rightarrow> egress_to_node env egress (cr_host request) (cr_port request)
         | None \<Rightarrow> pbind (on_client (send_reply REP_NOT_ALLOWED)) (\<lambda>_. fail ''egress not enabled''))
      | Err (Some e) \<Rightarrow>
          pbind (on_client (send_reply REP_GENERAL_FAILURE)) (\<lambda>_. fail (proxy_error_text e))
      | Panic \<Rightarrow> lift Panic)"

text \<open>
  One client from accept to close.  \<open>peer_addr\<close> may fail; every later failure is logged and
  ends the connection.
\<close>

definition handle_client_connection ::
  "environ \<Rightarrow> (unit, string) result \<Rightarrow> i32 option \<Rightarrow> (proxy_world, unit, string) prog"
where
  "handle_client_connection env peer_addr egress_node =
     pbind (lift peer_addr) (\<lambda>_.
     pcatch (on_client handle_auth)
       (\<lambda>_. pcatch (on_client handle_connect_request)
          (\<lambda>request. pcatch (route_connection env request egress_node) ret (\<lambda>_. ret ()))
          (\<lambda>_. ret ()))
       (\<lambda>_. ret ()))"

text \<open>
  The start of \<open>run\<close>: only an activated node serves as a proxy.  What follows there binds
  the listener, spawns the cleaner (\<open>Cleanup\<close> every \<open>CLEANUP_INTERVAL\<close>) and spawns
  \<open>handle_client_connection\<close> for every client.
\<close>

subsection \<open>The requests of RFC 1928\<close>

text \<open>
  A CONNECT request as the RFC encodes it (the helpers \<open>build_connect_*\<close> of the tests): the
  reserved byte is not looked at, the port is in network order.
\<close>

datatype socks_address = V4 bytes | Name string | V6 bytes

fun address_ok :: "socks_address \<Rightarrow> bool" where
  "address_ok (V4 bs) \<longleftrightarrow> length bs = 4"
| "address_ok (Name s) \<longleftrightarrow> length s < 256 \<and> utf8_valid (str_bytes s)"
| "address_ok (V6 bs) \<longleftrightarrow> length bs = 16"

fun encode_address :: "socks_address \<Rightarrow> bytes" where
  "encode_address (V4 bs) = ATYP_IPV4 # bs"
| "encode_address (Name s) = ATYP_DOMAIN # of_nat (length s) # str_bytes s"
| "encode_address (V6 bs) = ATYP_IPV6 # bs"

fun address_text :: "socks_address \<Rightarrow> string" where
  "address_text (V4 bs) = ipv4_text bs"
| "address_text (Name s) = s"
| "address_text (V6 bs) = ipv6_text bs"

definition u16_to_be_bytes :: "u16 \<Rightarrow> bytes" where
  "u16_to_be_bytes w = rev (nat_to_le 2 (unat w))"

definition build_connect :: "u8 \<Rightarrow> socks_address \<Rightarrow> u16 \<Rightarrow> bytes" where
  "build_connect rsv addr port =
     [SOCKS_VERSION, CMD_CONNECT, rsv] @ encode_address addr @ u16_to_be_bytes port"

lemma length_u16_to_be_bytes [simp]: "length (u16_to_be_bytes w) = 2"
  by (simp add: u16_to_be_bytes_def)

lemma u16_be_roundtrip [simp]: "u16_from_be_bytes (u16_to_be_bytes w) = w"
proof -
  have "unat w < 256 ^ 2" using unsigned_less [of w, where 'a = nat] by simp
  then show ?thesis
    by (simp add: u16_from_be_bytes_def u16_to_be_bytes_def be_nat_def le_nat_to_le)
qed

lemma u16_be_bytes: "length bs = 2 \<Longrightarrow> u16_to_be_bytes (u16_from_be_bytes bs) = bs"
proof -
  assume len: "length bs = 2"
  then have "be_nat bs < 65536" using be_nat_bound [of bs] by simp
  then have "unat (u16_from_be_bytes bs) = le_nat (rev bs)"
    by (simp add: u16_from_be_bytes_def be_nat_def unat_of_nat)
  then show ?thesis
    using nat_to_le_le_nat [of "rev bs"] len by (simp add: u16_to_be_bytes_def)
qed

lemma read_field_Ok:
  assumes "read_field w n ep = (Ok bs, ep')"
  obtains evs where "length bs = n" "ep' = ep\<lparr>ep_in := evs\<rparr>" "arriving (ep_in ep) = bs @ arriving evs"
proof -
  obtain res evs where e: "exactly n (ep_in ep) = (res, evs)" by (cases "exactly n (ep_in ep)")
  then have "res = Ok bs" "ep' = ep\<lparr>ep_in := evs\<rparr>"
    using assms by (auto simp: read_field_def perr_iff ep_read_exact_def)
  with e exactly_Ok [of n "ep_in ep" bs evs] that show thesis by simp
qed

lemma read_field_take:
  assumes "unbroken (ep_in ep)" and "arriving (ep_in ep) = bs @ rest" and "length bs = n"
  obtains evs where "read_field w n ep = (Ok bs, ep\<lparr>ep_in := evs\<rparr>)" "unbroken evs" "arriving evs = rest"
proof (rule ep_read_exact_enough [OF assms(1), of n])
  show "n \<le> length (arriving (ep_in ep))" using assms by simp
  fix evs
  assume "ep_read_exact n ep = (Ok (take n (arriving (ep_in ep))), ep\<lparr>ep_in := evs\<rparr>)"
    "unbroken evs" "arriving evs = drop n (arriving (ep_in ep))"
  with assms that [of evs] show thesis by (simp add: read_field_def perr_iff)
qed

lemma list_of_length_4: "length xs = 4 \<longleftrightarrow> (\<exists>a b c d. xs = [a, b, c, d])"
  by (auto simp: length_Suc_conv numeral_eq_Suc)

lemma read_host_Ok:
  assumes "read_host atyp ep = (Ok host, ep')"
  obtains addr evs where "address_ok addr" "host = address_text addr" "ep' = ep\<lparr>ep_in := evs\<rparr>"
    "atyp # arriving (ep_in ep) = encode_address addr @ arriving evs"
proof -
  consider (v4) "atyp = ATYP_IPV4" | (name) "atyp = ATYP_DOMAIN" | (v6) "atyp = ATYP_IPV6"
    | (other) "atyp \<notin> {ATYP_IPV4, ATYP_DOMAIN, ATYP_IPV6}" by blast
  then show thesis
  proof cases
    case v4
    then obtain bs where "read_field ''IPv4 address'' 4 ep = (Ok bs, ep')" "host = ipv4_text bs"
      using assms by (auto simp: read_host_def rust_simps)
    moreover obtain evs where "length bs = 4" "ep' = ep\<lparr>ep_in := evs\<rparr>"
        "arriving (ep_in ep) = bs @ arriving evs"
      using calculation(1) by (rule read_field_Ok)
    ultimately show thesis using v4 by (intro that [of "V4 bs" evs]) simp_all
  next
    case v6
    then obtain bs where "read_field ''IPv6 address'' 16 ep = (Ok bs, ep')" "host = ipv6_text bs"
      using assms by (auto simp: read_host_def rust_simps socks_constants)
    moreover obtain evs where "length bs = 16" "ep' = ep\<lparr>ep_in := evs\<rparr>"
        "arriving (ep_in ep) = bs @ arriving evs"
      using calculation(1) by (rule read_field_Ok)
    ultimately show thesis using v6 by (intro that [of "V6 bs" evs]) simp_all
  next
    case name
    then obtain l u d where r: "read_field ''domain length'' 1 ep = (Ok l, u)"
        "read_field ''domain'' (unat (l ! 0)) u = (Ok d, ep')" "from_utf8 d = Some host"
      using assms by (auto simp: read_host_def rust_simps socks_constants)
    obtain e1 where e1: "length l = 1" "u = ep\<lparr>ep_in := e1\<rparr>" "arriving (ep_in ep) = l @ arriving e1"
      using r(1) by (rule read_field_Ok)
    obtain e2 where e2: "length d = unat (l ! 0)" "ep' = u\<lparr>ep_in := e2\<rparr>" "arriving (ep_in u) = d @ arriving e2"
      using r(2) by (rule read_field_Ok)
    have l: "l = [of_nat (length d)]"
      using e1(1) e2(1) by (cases l) auto
    have "length d < 256"
      unfolding e2(1) using unsigned_less [of "l ! 0", where 'a = nat] by simp
    moreover have d: "d = str_bytes host" "utf8_valid (str_bytes host)"
      using r(3) by (auto simp: from_utf8_iff)
    ultimately have ok: "address_ok (Name host)" by simp
    have "arriving (ep_in ep) = of_nat (length host) # d @ arriving e2"
      unfolding e1(3) using e2(2,3) e1(2) l d(1) by simp
    then show thesis
      using ok name e1(2) e2(2) d(1) by (intro that [of "Name host" e2]) simp_all
  next
    case other
    with assms show thesis by (auto simp: read_host_def rust_simps)
  qed
qed

lemma read_host_encoded:
  assumes "unbroken (ep_in ep)" and "atyp # arriving (ep_in ep) = encode_address addr @ rest"
    and "address_ok addr"
  obtains evs where "read_host atyp ep = (Ok (address_text addr), ep\<lparr>ep_in := evs\<rparr>)"
    "unbroken evs" "arriving evs = rest"
proof (cases addr)
  case (V4 bs)
  then have a: "atyp = ATYP_IPV4" "arriving (ep_in ep) = bs @ rest" "length bs = 4" using assms by simp_all
  obtain evs where "read_field ''IPv4 address'' 4 ep = (Ok bs, ep\<lparr>ep_in := evs\<rparr>)"
      "unbroken evs" "arriving evs = rest"
    using assms(1) a(2,3) by (rule read_field_take)
  then show thesis
    using V4 a by (intro that [of evs]) (simp_all add: read_host_def pbind_Ok_iff)
next
  case (V6 bs)
  then have a: "atyp = ATYP_IPV6" "arriving (ep_in ep) = bs @ rest" "length bs = 16" using assms by simp_all
  obtain evs where "read_field ''IPv6 address'' 16 ep = (Ok bs, ep\<lparr>ep_in := evs\<rparr>)"
      "unbroken evs" "arriving evs = rest"
    using assms(1) a(2,3) by (rule read_field_take)
  then show thesis
    using V6 a by (intro that [of evs]) (simp_all add: read_host_def pbind_Ok_iff socks_constants)
next
  case (Name s)
  let ?l = "[of_nat (length s)] :: bytes"
  have a: "atyp = ATYP_DOMAIN" "arriving (ep_in ep) = ?l @ str_bytes s @ rest" "length s < 256"
      "utf8_valid (str_bytes s)"
    using Name assms by simp_all
  obtain e1 where e1: "read_field ''domain length'' 1 ep = (Ok ?l, ep\<lparr>ep_in := e1\<rparr>)" "unbroken e1"
      "arriving e1 = str_bytes s @ rest"
    by (rule read_field_take [OF assms(1) a(2), of 1]) simp_all
  have len: "unat (?l ! 0) = length s" using a(3) by (simp add: unat_of_nat)
  obtain e2 where e2: "read_field ''domain'' (length s) (ep\<lparr>ep_in := e1\<rparr>) =
      (Ok (str_bytes s), ep\<lparr>ep_in := e1\<rparr>\<lparr>ep_in := e2\<rparr>)" "unbroken e2" "arriving e2 = rest"
    by (rule read_field_take [of "ep\<lparr>ep_in := e1\<rparr>" "str_bytes s" rest "length s"]) (use e1 in simp_all)
  have "read_host atyp ep = (Ok s, ep\<lparr>ep_in := e2\<rparr>)"
    using e1 e2 len a by (simp add: read_host_def pbind_Ok_iff ok_or_iff socks_constants from_utf8_def)
  then show thesis
    using Name e2 by (intro that [of e2]) simp_all
qed

text \<open>What \<open>handle_connect_request\<close> accepts are these requests and no others.\<close>

lemma connect_request_Ok:
  assumes "handle_connect_request ep = (Ok r, ep')"
  obtains rsv addr evs where "address_ok addr" "cr_host r = address_text addr"
    "ep' = ep\<lparr>ep_in := evs\<rparr>"
    "arriving (ep_in ep) = build_connect rsv addr (cr_port r) @ arriving evs"
proof -
  obtain h u host v p where r: "read_field ''request header'' 4 ep = (Ok h, u)"
      "h ! 0 = SOCKS_VERSION" "h ! 1 = CMD_CONNECT" "read_host (h ! 3) u = (Ok host, v)"
      "read_field ''port'' 2 v = (Ok p, ep')" "r = \<lparr>cr_host = host, cr_port = u16_from_be_bytes p\<rparr>"
    using assms
    by (auto simp: handle_connect_request_def rust_simps Let_def split: if_splits)
  obtain e1 where e1: "length h = 4" "u = ep\<lparr>ep_in := e1\<rparr>" "arriving (ep_in ep) = h @ arriving e1"
    using r(1) by (rule read_field_Ok)
  obtain addr e2 where e2: "address_ok addr" "host = address_text addr" "v = u\<lparr>ep_in := e2\<rparr>"
      "h ! 3 # arriving (ep_in u) = encode_address addr @ arriving e2"
    using r(4) by (rule read_host_Ok)
  obtain e3 where e3: "length p = 2" "ep' = v\<lparr>ep_in := e3\<rparr>" "arriving (ep_in v) = p @ arriving e3"
    using r(5) by (rule read_field_Ok)
  obtain b where h: "h = [SOCKS_VERSION, CMD_CONNECT, b, h ! 3]"
    using e1(1) r(2,3) by (auto simp: list_of_length_4)
  have "arriving (ep_in ep) = [SOCKS_VERSION, CMD_CONNECT, b] @ (h ! 3 # arriving e1)"
    using e1(3) h by (metis append_Cons append_Nil)
  also have "h ! 3 # arriving e1 = encode_address addr @ p @ arriving e3"
    using e1 e2 e3 by simp
  finally have "arriving (ep_in ep) = build_connect b addr (cr_port r) @ arriving e3"
    using e3(1) r(6) by (simp add: build_connect_def u16_be_bytes)
  then show thesis
    using that [of addr e3 b] e1 e2 e3 r(6) by simp
qed

lemma connect_request_encoded:
  assumes "unbroken (ep_in ep)" and "arriving (ep_in ep) = build_connect rsv addr port @ rest"
    and "address_ok addr"
  obtains evs where "handle_connect_request ep =
      (Ok \<lparr>cr_host = address_text addr, cr_port = port\<rparr>, ep\<lparr>ep_in := evs\<rparr>)"
    "unbroken evs" "arriving evs = rest"
proof -
  obtain atyp body where a: "encode_address addr = atyp # body" by (cases addr) auto
  let ?h = "[SOCKS_VERSION, CMD_CONNECT, rsv, atyp]"
  have arr: "arriving (ep_in ep) = ?h @ body @ u16_to_be_bytes port @ rest"
    using assms(2) a by (simp add: build_connect_def)
  obtain e1 where e1: "read_field ''request header'' 4 ep = (Ok ?h, ep\<lparr>ep_in := e1\<rparr>)" "unbroken e1"
      "arriving e1 = body @ u16_to_be_bytes port @ rest"
    by (rule read_field_take [OF assms(1) arr, of 4]) simp_all
  obtain e2 where e2: "read_host atyp (ep\<lparr>ep_in := e1\<rparr>) = (Ok (address_text addr), ep\<lparr>ep_in := e1\<rparr>\<lparr>ep_in := e2\<rparr>)"
      "unbroken e2" "arriving e2 = u16_to_be_bytes port @ rest"
    by (rule read_host_encoded [of "ep\<lparr>ep_in := e1\<rparr>" atyp addr "u16_to_be_bytes port @ rest"])
      (use e1 a assms(3) in simp_all)
  obtain e3 where e3: "read_field ''port'' 2 (ep\<lparr>ep_in := e2\<rparr>) = (Ok (u16_to_be_bytes port), ep\<lparr>ep_in := e2\<rparr>\<lparr>ep_in := e3\<rparr>)"
      "unbroken e3" "arriving e3 = rest"
    by (rule read_field_take [of "ep\<lparr>ep_in := e2\<rparr>" "u16_to_be_bytes port" rest 2]) (use e2 in simp_all)
  show thesis
    using e1 e2 e3 by (intro that [of e3]) (simp_all add: handle_connect_request_def pbind_Ok_iff)
qed

end
