(* ===== verification/Proxy_Http.thy ===== *)
theory Proxy_Http
  imports Proxy_Socks
begin

text \<open>
  \<open>wconnect/src/proxy_http.rs\<close>: the HTTP proxy.  A request is read up to its blank line,
  parsed (the crate \<open>httparse\<close> is a parameter), routed by its absolute URL or CONNECT target,
  and answered over a fresh QUIC stream; a connection may carry several requests.

  Header names and values are compared in lower case.  \<open>to_lowercase\<close> writes out the mapping
  of the letters whose lower case has an ASCII letter in it: A to Z, U+0130 and U+212A (the
  Kelvin sign).  The lower case of any other letter is not ASCII, and the code compares only
  with ASCII words.
\<close>

subsection \<open>Requests\<close>

datatype destination =
    WispersNode i32 u16
  | Internet string u16

datatype proxy_mode = HttpRequest string | Tunnel

record proxy_target =
  pt_destination :: destination
  pt_mode :: proxy_mode

record parsed_request =
  pr_target :: proxy_target
  pr_method :: string
  pr_version :: u8
  pr_headers :: "(string \<times> string) list"
  pr_keep_alive :: bool

text \<open>What \<open>httparse::Request::parse\<close> leaves behind.\<close>

record http_head =
  hh_method :: "string option"
  hh_path :: "string option"
  hh_version :: "u8 option"
  hh_headers :: "(string \<times> bytes) list"

datatype http_parse = ParseError string | ParsePartial | ParseComplete http_head

fun to_lowercase :: "string \<Rightarrow> string" where
  "to_lowercase [] = []"
| "to_lowercase (c # cs) = (let k = (of_char c :: nat) in
     if 65 \<le> k \<and> k \<le> 90 then char_of (k + 32) # to_lowercase cs
     else if starting_with (c # cs) (map char_of [0xC4, 0xB0 :: nat])
       then map char_of [0x69, 0xCC, 0x87 :: nat] @ to_lowercase (drop 1 cs)
     else if starting_with (c # cs) (map char_of [0xE2, 0x84, 0xAA :: nat])
       then CHR ''k'' # to_lowercase (drop 2 cs)
     else c # to_lowercase cs)"

definition hop_by_hop_headers :: "string list" where
  "hop_by_hop_headers = [''connection'', ''keep-alive'', ''proxy-authenticate'',
     ''proxy-authorization'', ''te'', ''trailers'', ''transfer-encoding'', ''upgrade'']"

definition is_hop_by_hop_header :: "string \<Rightarrow> bool" where
  "is_hop_by_hop_header name \<longleftrightarrow> name \<in> set hop_by_hop_headers"

subsection \<open>Targets\<close>

text \<open>The routing that \<open>parse_connect_target\<close> and \<open>parse_proxy_target\<close> end in.\<close>

definition route_host :: "string \<Rightarrow> u16 \<Rightarrow> proxy_mode \<Rightarrow> i32 option \<Rightarrow> string \<Rightarrow>
    (proxy_target, proxy_error) result" where
  "route_host host port mode egress_node refusal = (case parse_wispers_host host of
     Ok n \<Rightarrow> Ok \<lparr>pt_destination = WispersNode n port, pt_mode = mode\<rparr>
   | Err None \<Rightarrow>
       if egress_node \<noteq> None then Ok \<lparr>pt_destination = Internet host port, pt_mode = mode\<rparr>
       else Err (Forbidden (refusal @ host))
   | Err (Some e) \<Rightarrow> Err e
   | Panic \<Rightarrow> Panic)"

definition parse_connect_target :: "string \<Rightarrow> i32 option \<Rightarrow> (proxy_target, proxy_error) result" where
  "parse_connect_target target egress_node = (case rsplit_once (CHR '':'') target of
     Some (host, port_str) \<Rightarrow>
       rbind (ok_or (BadRequest (''invalid port in CONNECT: '' @ port_str)) (parse_u16 port_str)) (\<lambda>port.
       route_host host port Tunnel egress_node
         ''CONNECT to non-wispers.link hosts requires --egress-node, got: '')
   | None \<Rightarrow> Err (BadRequest ''CONNECT target must be host:port''))"

definition parse_proxy_target :: "string \<Rightarrow> i32 option \<Rightarrow> (proxy_target, proxy_error) result" where
  "parse_proxy_target url egress_node = (case strip_prefix ''http://'' url of
     None \<Rightarrow> Err (BadRequest ''proxy requests must use absolute URLs (http://...)'')
   | Some rest \<Rightarrow>
       let host_port = takeWhile (\<lambda>c. c \<noteq> CHR ''/'') rest;
           path = (if CHR ''/'' \<in> set rest then dropWhile (\<lambda>c. c \<noteq> CHR ''/'') rest else ''/'')
       in rbind (case rsplit_once (CHR '':'') host_port of
              Some (host, port_str) \<Rightarrow>
                rbind (ok_or (BadRequest (''invalid port: '' @ port_str)) (parse_u16 port_str)) (\<lambda>port.
                Ok (host, port))
            | None \<Rightarrow> Ok (host_port, 80)) (\<lambda>(host, port).
          route_host host port (HttpRequest path) egress_node
            ''only *.wispers.link hosts are allowed without --egress-node, got: ''))"

subsection \<open>Headers\<close>

text \<open>The loop over the headers: what is forwarded, \<open>keep_alive\<close>, the Host header seen.\<close>

fun collect_headers :: "(string \<times> bytes) list \<Rightarrow> (string \<times> string) list \<times> bool \<times> string option \<Rightarrow>
    (string \<times> string) list \<times> bool \<times> string option" where
  "collect_headers [] acc = acc"
| "collect_headers ((hname, hvalue) # hs) (parsed, keep_alive, host_header) =
     (let name = to_lowercase hname; value = from_utf8_lossy hvalue in
      if name = ''connection'' then
        collect_headers hs (parsed, contains (to_lowercase value) ''keep-alive'', host_header)
      else if is_hop_by_hop_header name then collect_headers hs (parsed, keep_alive, host_header)
      else collect_headers hs
        (parsed @ [(hname, value)], keep_alive, if name = ''host'' then Some value else host_header))"

definition target_host :: "destination \<Rightarrow> string" where
  "target_host d = (case d of
     WispersNode n port \<Rightarrow>
       if port = 80 then i32_to_string n @ ''.wispers.link''
       else i32_to_string n @ ''.wispers.link:'' @ u16_to_string port
   | Internet host port \<Rightarrow> if port = 80 then host else host @ '':'' @ u16_to_string port)"

definition parse_request ::
  "(bytes \<Rightarrow> http_parse) \<Rightarrow> bytes \<Rightarrow> i32 option \<Rightarrow> (parsed_request, proxy_error) result"
where
  "parse_request httparse buf egress_node = (case httparse buf of
     ParseError e \<Rightarrow> Err (BadRequest (''failed to parse HTTP request: '' @ e))
   | ParsePartial \<Rightarrow> Err (BadRequest ''incomplete HTTP request'')
   | ParseComplete h \<Rightarrow>
       rbind (ok_or (BadRequest ''missing method'') (hh_method h)) (\<lambda>method.
       rbind (ok_or (BadRequest ''missing path'') (hh_path h)) (\<lambda>path.
       rbind (ok_or (BadRequest ''missing version'') (hh_version h)) (\<lambda>version.
       if method = ''CONNECT'' then
         rbind (parse_connect_target path egress_node) (\<lambda>target.
         Ok \<lparr>pr_target = target, pr_method = method, pr_version = version, pr_headers = [],
             pr_keep_alive = False\<rparr>)
       else
         rbind (parse_proxy_target path egress_node) (\<lambda>target.
         let (parsed, keep_alive, host_header) = collect_headers (hh_headers h) ([], version = 1, None);
             headers = (if host_header = None \<and> pt_mode target \<noteq> Tunnel
                        then parsed @ [(''Host'', target_host (pt_destination target))]
                        else parsed)
         in Ok \<lparr>pr_target = target, pr_method = method, pr_version = version,
                pr_headers = headers, pr_keep_alive = keep_alive\<rparr>)))))"

definition crlf :: string where
  "crlf = [CHR 0x0D, CHR 0x0A]"

definition header_line :: "string \<times> string \<Rightarrow> string" where
  "header_line h = fst h @ '': '' @ snd h @ crlf"

definition build_http_request :: "parsed_request \<Rightarrow> string \<Rightarrow> string" where
  "build_http_request request path =
     pr_method request @ '' '' @ path @ '' HTTP/'' @
     (if pr_version request = 0 then ''1.0'' else ''1.1'') @ crlf @
     concat (map header_line (pr_headers request)) @
     ''Connection: close'' @ crlf @ crlf"

subsection \<open>The client's side\<close>

definition status_text :: "u16 \<Rightarrow> string" where
  "status_text status =
     (if status = 400 then ''Bad Request'' else if status = 403 then ''Forbidden''
      else if status = 502 then ''Bad Gateway'' else if status = 504 then ''Gateway Timeout''
      else ''Error'')"

definition error_response :: "u16 \<Rightarrow> string \<Rightarrow> string" where
  "error_response status message =
     ''HTTP/1.1 '' @ u16_to_string status @ '' '' @ status_text status @ crlf @
     ''Content-Type: text/plain'' @ crlf @ ''Connection: close'' @ crlf @ crlf @
     message @ [CHR 0x0A]"

definition send_error :: "u16 \<Rightarrow> string \<Rightarrow> (endpoint, unit, string) prog" where
  "send_error status message = ep_write_all (str_bytes (error_response status message))"

definition send_proxy_error :: "proxy_error \<Rightarrow> (endpoint, unit, string) prog" where
  "send_proxy_error e = send_error (status_code e) (proxy_error_text e)"

datatype read_result = Data bytes | Closed

definition REQUEST_LIMIT :: nat where
  "REQUEST_LIMIT = 8192"

definition blank_line :: bytes where
  "blank_line = str_bytes (crlf @ crlf)"

text \<open>\<open>buf\<close> is what has been read so far.\<close>

function read_request :: "bytes \<Rightarrow> (endpoint, read_result, proxy_error) prog" where
  "read_request buf ep =
     (if REQUEST_LIMIT \<le> length buf then (Err (BadRequest ''request too large''), ep)
      else (case ep_read (REQUEST_LIMIT - length buf) ep of
              (Ok bs, ep') \<Rightarrow>
                if bs = [] then
                  (if buf = [] then (Ok Closed, ep')
                   else (Err (BadRequest ''connection closed before complete request''), ep'))
                else if 4 \<le> length (buf @ bs) \<and> contains (buf @ bs) blank_line
                  then (Ok (Data (buf @ bs)), ep')
                else read_request (buf @ bs) ep'
            | (Err e, ep') \<Rightarrow> (Err (BadRequest (''failed to read request: '' @ e)), ep')
            | (Panic, ep') \<Rightarrow> (Panic, ep')))"
  by auto
termination
  by (relation "measure (\<lambda>(buf, ep). REQUEST_LIMIT - length buf)") (auto intro!: diff_less_mono2)

declare read_request.simps [simp del]

definition read_request_bytes :: "(endpoint, read_result, proxy_error) prog" where
  "read_request_bytes = read_request []"

subsection \<open>Forwarding\<close>

text \<open>A step of a future that runs under a timer: it may be dropped there instead.\<close>

definition timed_step ::
  "environ \<Rightarrow> (proxy_world, 'a, string) prog \<Rightarrow> (proxy_world, 'a, string timed) prog"
where
  "timed_step env m = awaiting env True (\<lambda>_. perr Inner m)"

definition context_of :: "string \<Rightarrow> ('s, 'a, string) prog \<Rightarrow> ('s, 'a, string) prog" where
  "context_of what m = perr (\<lambda>_. what) m"

text \<open>
  The response, copied from the stream to the client until the stream ends; \<open>n\<close> counts the
  environment's calls.
\<close>

function copy_response :: "environ \<Rightarrow> nat \<Rightarrow> endpoint \<Rightarrow> endpoint \<Rightarrow>
    (unit, string timed) result \<times> nat \<times> endpoint \<times> endpoint" where
  "copy_response env n q client =
     (if ev_expires env n then (Err Elapsed, n + 1, q, client)
      else (case ep_read 8192 q of
          (Ok buf, q') \<Rightarrow>
            if buf = [] then (Ok (), n + 1, q', client)
            else if ev_expires env (n + 1) then (Err Elapsed, n + 2, q', client)
            else (case ep_write_all buf client of
                (Ok _, client') \<Rightarrow> copy_response env (n + 2) q' client'
              | (_, client') \<Rightarrow> (Err (Inner ''failed to write to client''), n + 2, q', client'))
        | (_, q') \<Rightarrow> (Err (Inner ''failed to read from remote''), n + 1, q', client)))"
  by auto

lemma ep_read_less:
  "ep_read k q = (Ok bs, q') \<Longrightarrow> bs \<noteq> [] \<Longrightarrow> pending_size q' < pending_size q"
  by (auto simp: ep_read_def pending_size_def split: list.splits arrival.splits if_splits)

termination copy_response
  by (relation "measure (\<lambda>(env, n, q, client). pending_size q)") (auto dest!: ep_read_less [OF sym])

declare copy_response.simps [simp del]

definition relay_response :: "environ \<Rightarrow> nat \<Rightarrow> (proxy_world, unit, string timed) prog" where
  "relay_response env i = (\<lambda>s. case pw_streams s ! i of (cn, q) \<Rightarrow>
     (case copy_response env (pw_calls s) q (pw_client s) of (r, n, q', client) \<Rightarrow>
        (r, s\<lparr>pw_client := client, pw_calls := n, pw_streams := (pw_streams s)[i := (cn, q')]\<rparr>)))"

definition handle_http_request ::
  "environ \<Rightarrow> nat \<Rightarrow> parsed_request \<Rightarrow> string \<Rightarrow> (proxy_world, unit, string timed) prog"
where
  "handle_http_request env i request path =
     pbind (timed_step env (context_of ''failed to send HTTP request''
       (on_stream i (ep_write_all (str_bytes (build_http_request request path)))))) (\<lambda>_.
     pbind (timed_step env (context_of ''failed to finish request stream''
       (on_stream i ep_finish_send))) (\<lambda>_.
     relay_response env i))"

definition tunnel_established :: string where
  "tunnel_established = ''HTTP/1.1 200 Connection Established'' @ crlf @ crlf"

text \<open>The relay of a tunnel, to its end or up to the rounds after which the timer fires.\<close>

definition timed_relay :: "environ \<Rightarrow> nat \<Rightarrow> (proxy_world, unit, string timed) prog" where
  "timed_relay env i = awaiting env False (\<lambda>n s. case pw_streams s ! i of (cn, q) \<Rightarrow>
     (case ev_rounds env n of
        None \<Rightarrow> relay_stream i s
      | Some ds \<Rightarrow> (let st = relay_rounds ds (relay_start (pw_client s) q) in
          (if relay_over st then Ok () else Err Elapsed,
           s\<lparr>pw_client := rl_near st, pw_streams := (pw_streams s)[i := (cn, rl_far st)]\<rparr>))))"

definition handle_tunnel :: "environ \<Rightarrow> nat \<Rightarrow> (proxy_world, unit, string timed) prog" where
  "handle_tunnel env i =
     pbind (timed_step env (context_of ''failed to send 200 response''
       (on_client (ep_write_all (str_bytes tunnel_established))))) (\<lambda>_.
     timed_relay env i)"


subsection \<open>A client's connection\<close>

text \<open>Where a request goes: the node, the command that opens the way, whether by egress.\<close>

definition destination_command ::
  "i32 option \<Rightarrow> destination \<Rightarrow> (i32 \<times> string \<times> bool, 'e) result"
where
  "destination_command egress_node d = (case d of
     WispersNode n port \<Rightarrow> Ok (n, forward_command port, False)
   | Internet host port \<Rightarrow>
       rbind (expect egress_node) (\<lambda>egress. Ok (egress, connect_command host port, True)))"

text \<open>The mode-specific handler, under its timeout; the result says whether to go on.\<close>

definition dispatch_request ::
  "environ \<Rightarrow> nat \<Rightarrow> parsed_request \<Rightarrow> (proxy_world, bool, string) prog"
where
  "dispatch_request env i request = (case pt_mode (pr_target request) of
     HttpRequest path \<Rightarrow>
       pcatch (handle_http_request env i request path) (\<lambda>_. ret (pr_keep_alive request)) (\<lambda>e. case e of
           Inner _ \<Rightarrow> ret False
         | Elapsed \<Rightarrow> pbind (ignoring (on_client (send_proxy_error (GatewayTimeout ''request timed out''))))
             (\<lambda>_. ret False))
   | Tunnel \<Rightarrow>
       pcatch (handle_tunnel env i) (\<lambda>_. ret False) (\<lambda>e. case e of
           Inner _ \<Rightarrow> ret False
         | Elapsed \<Rightarrow> pbind (ignoring (on_client (send_proxy_error (GatewayTimeout ''tunnel setup timed out''))))
             (\<lambda>_. ret False)))"

definition refuse :: "proxy_error \<Rightarrow> (proxy_world, bool, string) prog" where
  "refuse e = pbind (on_client (send_proxy_error e)) (\<lambda>_. ret False)"

definition serve_request ::
  "environ \<Rightarrow> i32 option \<Rightarrow> parsed_request \<Rightarrow> (proxy_world, bool, string) prog"
where
  "serve_request env egress_node request =
     pbind (lift (destination_command egress_node (pt_destination (pr_target request))))
       (\<lambda>(target_node, command, via_egress).
     pcatch (open_stream env True target_node)
       (\<lambda>i. pcatch (on_stream i (send_command command))
          (\<lambda>_. dispatch_request env i request)
          (\<lambda>e. refuse (BadGateway (command_error_text e))))
       (\<lambda>e. case e of
          Inner e \<Rightarrow> refuse (BadGateway
            ((if via_egress then ''failed to open stream to egress node: ''
              else ''failed to open stream to node: '') @ open_stream_error_text e))
        | Elapsed \<Rightarrow> refuse (GatewayTimeout
            (if via_egress then ''open_stream to egress node timed out''
             else ''open_stream to node timed out''))))"

text \<open>One turn of the loop.\<close>

definition serve_next ::
  "environ \<Rightarrow> (bytes \<Rightarrow> http_parse) \<Rightarrow> i32 option \<Rightarrow> nat \<Rightarrow> (proxy_world, bool, string) prog"
where
  "serve_next env httparse egress_node request_count =
     pcatch (on_client read_request_bytes)
       (\<lambda>rd. case rd of
          Closed \<Rightarrow> ret False
        | Data buf \<Rightarrow> pcatch (lift (parse_request httparse buf egress_node))
            (\<lambda>request. serve_request env egress_node request) refuse)
       (\<lambda>e. if request_count = 0 then refuse e else ret False)"

text \<open>Only reading a request takes from what the client sends, as long as the loop goes on.\<close>

definition client_in :: "proxy_world \<Rightarrow> arrival list" where
  "client_in s = ep_in (pw_client s)"

lemma client_in_frames [preserves_rules]:
  "preserves client_in (on_stream i m)"
  "preserves client_in (find_cell env node)"
  "preserves client_in (on_client (ep_write_all bs))"
  "preserves client_in (modify (on_pool f))"
  by (auto simp: preserves_def client_in_def on_stream_def find_cell_def on_client_def ep_write_all_def
      on_pool_def split: prod.splits list.splits write_outcome.splits)

lemma preserves_awaiting: "(\<And>n. preserves client_in (m n)) \<Longrightarrow> preserves client_in (awaiting env ut m)"
proof (rule preservesI)
  fix s r t
  assume m: "\<And>n. preserves client_in (m n)" and "awaiting env ut m s = (r, t)"
  then have "t = s\<lparr>pw_calls := pw_calls s + 1\<rparr> \<or>
      m (pw_calls s) (s\<lparr>pw_calls := pw_calls s + 1\<rparr>) = (r, t)"
    by (auto simp: awaiting_def Let_def split: if_splits)
  then show "client_in t = client_in s"
    using preservesD [OF m, of "pw_calls s"] by (auto simp: client_in_def)
qed

lemma connect_quic_client_in [preserves_rules]: "preserves client_in (connect_quic env ut node)"
  unfolding connect_quic_def
  by (intro preserves_pbind preserves_modify preserves_awaiting preserves_pure) (simp add: client_in_def)

lemma get_or_try_init_client_in [preserves_rules]: "preserves client_in (get_or_try_init env ut node c)"
proof (rule preservesI)
  fix s r t
  assume g: "get_or_try_init env ut node c s = (r, t)"
  show "client_in t = client_in s"
  proof (cases "connect_quic env ut node (on_pool (set_cell c (Initialising 0)) s)")
    case (Pair r' s')
    then have "client_in s' = client_in s"
      using preservesD [OF connect_quic_client_in Pair] by (simp add: client_in_def on_pool_def)
    with g Pair show ?thesis
      by (auto simp: get_or_try_init_def client_in_def on_pool_def split: cell.splits result.splits)
  qed
qed

lemma conn_open_stream_client_in [preserves_rules]: "preserves client_in (conn_open_stream env ut cn)"
  unfolding conn_open_stream_def
  by (intro preserves_awaiting) (auto simp: preserves_def client_in_def split: sum.splits)

lemma open_rounds_client_in: "preserves client_in (open_rounds k err env ut node)"
proof (induction k arbitrary: err)
  case 0
  show ?case by (cases err) (simp_all add: preserves_def)
next
  case (Suc k)
  show ?case
    by (auto intro!: preserves_rules Suc split: timed.split)
qed

lemma open_stream_client_in [preserves_rules]: "preserves client_in (open_stream env ut node)"
  unfolding open_stream_def by (rule open_rounds_client_in)

lemma copy_response_in:
  "copy_response env n q client = (r, n', q', client') \<Longrightarrow> ep_in client' = ep_in client"
proof (induction env n q client rule: copy_response.induct)
  case (1 env n q client)
  have w: "ep_write_all buf client = (x, c) \<Longrightarrow> ep_in c = ep_in client" for buf x c
    by (auto simp: ep_write_all_def split: list.splits write_outcome.splits)
  note eq = copy_response.simps [of env n q client]
  show ?case
  proof (cases "ev_expires env n")
    case True
    with "1.prems" eq show ?thesis by simp
  next
    case False
    obtain rd q1 where rd: "ep_read 8192 q = (rd, q1)" by (cases "ep_read 8192 q")
    show ?thesis
    proof (cases "\<exists>buf. rd = Ok buf \<and> buf \<noteq> [] \<and> \<not> ev_expires env (n + 1)")
      case False
      with "1.prems" eq rd \<open>\<not> ev_expires env n\<close> show ?thesis
        by (cases rd) (auto split: if_splits)
    next
      case True
      then obtain buf where buf: "rd = Ok buf" "buf \<noteq> []" "\<not> ev_expires env (n + 1)" by blast
      obtain x c where x: "ep_write_all buf client = (x, c)" by (cases "ep_write_all buf client")
      show ?thesis
      proof (cases x)
        case (Ok u)
        then have "copy_response env (n + 2) q1 c = (r, n', q', client')"
          using "1.prems" eq rd buf x False by simp
        then have "ep_in client' = ep_in c"
          using "1.IH" [OF False rd [symmetric, unfolded buf]] buf x Ok by metis
        with w [OF x] show ?thesis by simp
      qed (use "1.prems" eq rd buf x False w in auto)
    qed
  qed
qed

lemma relay_response_client_in [preserves_rules]: "preserves client_in (relay_response env i)"
  by (auto simp: preserves_def relay_response_def client_in_def copy_response_in split: prod.splits)

lemma handle_http_request_client_in [preserves_rules]:
  "preserves client_in (handle_http_request env i request path)"
  unfolding handle_http_request_def timed_step_def context_of_def
  by (intro preserves_rules preserves_awaiting)

lemma refuse_client_in [preserves_rules]: "preserves client_in (refuse e)"
  unfolding refuse_def send_proxy_error_def send_error_def by (intro preserves_rules)

lemma pcatch_OkE:
  assumes "pcatch m k h s = (Ok y, t)"
  obtains x u where "m s = (Ok x, u)" "k x u = (Ok y, t)" | e u where "m s = (Err e, u)" "h e u = (Ok y, t)"
  using assms by (auto simp: pcatch_Ok_iff)

lemma pbind_OkE:
  assumes "pbind m k s = (Ok y, t)"
  obtains x u where "m s = (Ok x, u)" "k x u = (Ok y, t)"
  using assms by (auto simp: pbind_Ok_iff)

lemma dispatch_request_client_in:
  assumes "dispatch_request env i request s = (Ok True, t)"
  shows "client_in t = client_in s"
proof (cases "pt_mode (pr_target request)")
  case (HttpRequest path)
  from assms [unfolded dispatch_request_def HttpRequest proxy_mode.case] show ?thesis
  proof (rule pcatch_OkE)
    fix x u
    assume "handle_http_request env i request path s = (Ok x, u)" "ret (pr_keep_alive request) u = (Ok True, t)"
    then show ?thesis using preservesD [OF handle_http_request_client_in] by auto
  qed (auto simp: rust_simps split: timed.split_asm)
next
  case Tunnel
  from assms [unfolded dispatch_request_def Tunnel proxy_mode.case] show ?thesis
    by (rule pcatch_OkE) (auto simp: rust_simps split: timed.split_asm)
qed

lemma refuse_stops: "refuse e s \<noteq> (Ok True, t)"
  by (auto simp: refuse_def rust_simps)

lemma serve_request_client_in:
  assumes "serve_request env egress request s = (Ok True, t)"
  shows "client_in t = client_in s"
proof -
  obtain node command via where "pcatch (open_stream env True node)
       (\<lambda>i. pcatch (on_stream i (send_command command)) (\<lambda>_. dispatch_request env i request)
          (\<lambda>e. refuse (BadGateway (command_error_text e))))
       (\<lambda>e. case e of Inner e \<Rightarrow> refuse (BadGateway
            ((if via then ''failed to open stream to egress node: ''
              else ''failed to open stream to node: '') @ open_stream_error_text e))
        | Elapsed \<Rightarrow> refuse (GatewayTimeout
            (if via then ''open_stream to egress node timed out''
             else ''open_stream to node timed out''))) s = (Ok True, t)"
    using assms unfolding serve_request_def by (rule pbind_OkE) (auto split: prod.splits)
  then show ?thesis
  proof (rule pcatch_OkE)
    fix i u
    assume i: "open_stream env True node s = (Ok i, u)"
      and "pcatch (on_stream i (send_command command)) (\<lambda>_. dispatch_request env i request)
          (\<lambda>e. refuse (BadGateway (command_error_text e))) u = (Ok True, t)"
    from this(2) show ?thesis
    proof (rule pcatch_OkE)
      fix x v
      assume "on_stream i (send_command command) u = (Ok x, v)"
        "dispatch_request env i request v = (Ok True, t)"
      then show ?thesis
        using preservesD [OF open_stream_client_in i] preservesD [OF client_in_frames(1)]
          dispatch_request_client_in by metis
    qed (simp add: refuse_stops)
  qed (simp add: refuse_stops split: timed.split_asm)
qed

lemma read_request_less:
  "read_request buf ep = (Ok (Data b), ep') \<Longrightarrow> pending_size ep' < pending_size ep"
proof (induction buf ep rule: read_request.induct)
  case (1 buf ep)
  note eq = read_request.simps [of buf ep]
  have small: "\<not> REQUEST_LIMIT \<le> length buf"
    using "1.prems" eq by (auto split: if_splits)
  obtain rd q1 where rd: "ep_read (REQUEST_LIMIT - length buf) ep = (rd, q1)"
    by (cases "ep_read (REQUEST_LIMIT - length buf) ep")
  have "\<exists>bs. rd = Ok bs \<and> bs \<noteq> []"
    using "1.prems" eq small rd by (cases rd) (auto split: if_splits)
  then obtain bs where bs: "rd = Ok bs" "bs \<noteq> []" by blast
  have less: "pending_size q1 < pending_size ep"
    using ep_read_less rd bs by simp
  show ?case
  proof (cases "4 \<le> length (buf @ bs) \<and> contains (buf @ bs) blank_line")
    case True
    with "1.prems" eq small rd bs less show ?thesis by simp
  next
    case False
    then have "read_request (buf @ bs) q1 = (Ok (Data b), ep')"
      using "1.prems" eq small rd bs by (auto split: if_splits)
    then have "pending_size ep' < pending_size q1"
      using "1.IH" [OF small rd [symmetric] bs False] by simp
    with less show ?thesis by simp
  qed
qed

lemma serve_next_less:
  assumes "serve_next env httparse egress n s = (Ok True, t)"
  shows "pending_size (pw_client t) < pending_size (pw_client s)"
  using assms unfolding serve_next_def
proof (rule pcatch_OkE)
  fix rd u
  assume u: "on_client read_request_bytes s = (Ok rd, u)"
    and k: "(case rd of Closed \<Rightarrow> ret False
      | Data buf \<Rightarrow> pcatch (lift (parse_request httparse buf egress))
          (\<lambda>request. serve_request env egress request) refuse) u = (Ok True, t)"
  then obtain buf where rd: "rd = Data buf" by (cases rd) auto
  then have "pcatch (lift (parse_request httparse buf egress))
      (\<lambda>request. serve_request env egress request) refuse u = (Ok True, t)"
    using k by simp
  then obtain request where "serve_request env egress request u = (Ok True, t)"
    by (rule pcatch_OkE) (auto simp: refuse_stops)
  then have "ep_in (pw_client t) = ep_in (pw_client u)"
    using serve_request_client_in by (simp add: client_in_def)
  moreover have "pending_size (pw_client u) < pending_size (pw_client s)"
    using u read_request_less [of "[]" "pw_client s"] rd
    by (auto simp: on_client_def read_request_bytes_def split: prod.splits)
  ultimately show ?thesis by (simp add: pending_size_def)
qed (simp add: refuse_stops split: if_split_asm)

text \<open>
  The loop of \<open>handle_client_connection\<close>.  Every turn but the last reads a request, so the
  loop ends.
\<close>

function serve_requests ::
  "environ \<Rightarrow> (bytes \<Rightarrow> http_parse) \<Rightarrow> i32 option \<Rightarrow> nat \<Rightarrow> (proxy_world, unit, string) prog"
where
  "serve_requests env httparse egress_node request_count s =
     (case serve_next env httparse egress_node request_count s of
        (Ok True, s') \<Rightarrow> serve_requests env httparse egress_node (request_count + 1) s'
      | (Ok False, s') \<Rightarrow> (Ok (), s')
      | (Err e, s') \<Rightarrow> (Err e, s')
      | (Panic, s') \<Rightarrow> (Panic, s'))"
  by auto
termination
  by (relation "measure (\<lambda>(env, httparse, egress, n, s). pending_size (pw_client s))")
    (auto dest!: serve_next_less [OF sym])

declare serve_requests.simps [simp del]

definition handle_http_connection ::
  "environ \<Rightarrow> (bytes \<Rightarrow> http_parse) \<Rightarrow> (unit, string) result \<Rightarrow> i32 option \<Rightarrow>
    (proxy_world, unit, string) prog"
where
  "handle_http_connection env httparse peer_addr egress_node =
     pbind (lift peer_addr) (\<lambda>_. serve_requests env httparse egress_node 0)"

end
