(* ===== verification/Proxy_Props.thy ===== *)
theory Proxy_Props
  imports Proxy_Http Daemon
begin

text \<open>
  Properties of the data plane: the relay, the connection pool, the SOCKS5 and HTTP proxies
  and the daemon, and how a proxy's commands meet the daemon at the other end of a stream.
\<close>

subsection \<open>What a SOCKS connection touches\<close>

text \<open>A stream has been sent the command, or the beginning of it that went through.\<close>

definition sent_command :: "string \<Rightarrow> endpoint \<Rightarrow> endpoint \<Rightarrow> bool" where
  "sent_command command q q' \<longleftrightarrow> (\<exists>bs. ep_out q' = ep_out q @ bs \<and>
     (prefix bs (str_bytes command) \<or> prefix (str_bytes command) bs))"

definition went_to :: "environ \<Rightarrow> i32 \<Rightarrow> string \<Rightarrow> proxy_world \<Rightarrow> proxy_world \<Rightarrow> bool" where
  "went_to env node command s s' \<longleftrightarrow>
     (\<exists>k \<le> 2. pw_dialled s' = pw_dialled s @ replicate k node) \<and>
     (pw_streams s' = pw_streams s \<or>
      (\<exists>cn q q' n. pw_streams s' = pw_streams s @ [(cn, q')] \<and> cn_peer cn = node \<and>
         ev_open env n cn = Inl q \<and> sent_command command q q'))"

lemma ep_calls_return [simp]:
  "ep_read k ep \<noteq> (Panic, t)" "ep_write_all bs ep \<noteq> (Panic, t)" "command_response bs \<noteq> Panic"
  by (auto simp: ep_read_def ep_write_all_def command_response_def Let_def
      split: list.splits arrival.splits write_outcome.splits option.splits)

lemma ep_read_out: "ep_read k x = (rd, y) \<Longrightarrow> ep_out y = ep_out x"
  by (auto simp: ep_read_def split: list.splits arrival.splits if_splits)

lemma ep_write_all_out:
  assumes "ep_write_all bs x = (r, y)"
  shows "case r of Ok _ \<Rightarrow> ep_out y = ep_out x @ bs | _ \<Rightarrow> (\<exists>k. ep_out y = ep_out x @ take k bs)"
  using assms by (auto simp: ep_write_all_def split: list.splits write_outcome.splits)

lemma send_command_sends:
  assumes "send_command command q = (r, q')"
  shows "sent_command command q q'" and "r = Ok () \<Longrightarrow> ep_out q' = ep_out q @ str_bytes command"
    and "r \<noteq> Panic"
proof -
  obtain w q1 where w: "ep_write_all (str_bytes command) q = (w, q1)"
    by (cases "ep_write_all (str_bytes command) q")
  obtain rd q2 where rd: "ep_read 256 q1 = (rd, q2)" by (cases "ep_read 256 q1")
  note out = ep_write_all_out [OF w] and same = ep_read_out [OF rd]
  have eq: "(r, q') = (case w of
      Ok _ \<Rightarrow> (case rd of Ok buf \<Rightarrow> (command_response buf, q2) | Err e \<Rightarrow> (Err (CommandIo e), q2) | Panic \<Rightarrow> (Panic, q2))
    | Err e \<Rightarrow> (Err (CommandIo e), q1) | Panic \<Rightarrow> (Panic, q1))"
    using assms w rd by (auto simp: send_command_def pbind_def perr_def split: result.splits)
  have "w \<noteq> Panic" "rd \<noteq> Panic" using w rd ep_calls_return by metis+
  then show "r \<noteq> Panic" using eq by (auto split: result.splits)
  show "r = Ok () \<Longrightarrow> ep_out q' = ep_out q @ str_bytes command"
    using eq out same by (auto split: result.splits)
  show "sent_command command q q'"
  proof (cases w)
    case (Ok u)
    then have "ep_out q' = ep_out q @ str_bytes command" using eq out same by (auto split: result.splits)
    then show ?thesis by (auto simp: sent_command_def)
  next
    case (Err e)
    then obtain k where "ep_out q' = ep_out q @ take k (str_bytes command)" using eq out by auto
    then show ?thesis unfolding sent_command_def by (metis take_is_prefix)
  next
    case Panic
    with \<open>w \<noteq> Panic\<close> show ?thesis by simp
  qed
qed

lemma relay_keeps_sent:
  assumes "relay near q = (near', q')" and "ep_out q = ep_out p @ str_bytes command @ bs"
  shows "sent_command command p q'"
proof -
  obtain cs where "ep_out q' = ep_out q @ cs" using relay_out(1) [OF assms(1)] by auto
  with assms(2) show ?thesis by (auto simp: sent_command_def)
qed

lemma on_client_streams:
  assumes "on_client m s = (r, t)"
  shows "pw_streams t = pw_streams s" and "pw_dialled t = pw_dialled s" and "pw_pool t = pw_pool s"
  using assms by (auto simp: on_client_def split: prod.splits)

lemma client_reply:
  "on_client (send_reply c) s =
     (Ok (), s\<lparr>pw_client := snd (ep_write_all (reply_bytes c) (pw_client s))\<rparr>)"
  by (simp add: on_client_def send_reply_def ignoring_def)

lemma reply_and_fail:
  assumes "pbind (on_client (send_reply c)) (\<lambda>_. fail e) s = (r, s')"
  shows "r = Err e" and "pw_streams s' = pw_streams s" and "pw_dialled s' = pw_dialled s"
  using assms by (auto simp: pbind_def client_reply)

text \<open>The stream just opened, after the command.\<close>

lemma on_last_stream:
  assumes "pw_streams s = qs @ [(cn, q)]" and "on_stream (length qs) m s = (r, t)"
  obtains q' where "m q = (r, q')" "t = s\<lparr>pw_streams := qs @ [(cn, q')]\<rparr>"
  using assms by (auto simp: on_stream_def split: prod.splits)

lemma tunnel_to_node_went:
  assumes fit: "pool_fit (pw_pool s)" and t: "tunnel_to_node env node command s = (r, s')"
  shows "went_to env node command s s'" and "r \<noteq> Panic"
proof -
  obtain o1 s1 where o1: "open_stream env True node s = (o1, s1)" by (cases "open_stream env True node s")
  note touch = open_stream_touches [OF o1] and peer = open_stream_peer [OF fit o1]
  have "went_to env node command s s' \<and> r \<noteq> Panic"
  proof (cases o1)
    case Panic
    with peer show ?thesis by simp
  next
    case (Err e)
    have "pw_streams s' = pw_streams s1 \<and> pw_dialled s' = pw_dialled s1 \<and> r \<noteq> Panic"
    proof (cases e)
      case Elapsed
      then have "pbind (on_client (send_reply REP_TTL_EXPIRED)) (\<lambda>_. fail ''open_stream timeout'') s1 = (r, s')"
        using t o1 Err by (simp add: tunnel_to_node_def pcatch_def)
      from reply_and_fail [OF this] show ?thesis by simp
    next
      case (Inner x)
      then have "pbind (on_client (send_reply REP_HOST_UNREACHABLE)) (\<lambda>_. fail (open_stream_error_text x)) s1 = (r, s')"
        using t o1 Err by (simp add: tunnel_to_node_def pcatch_def)
      from reply_and_fail [OF this] show ?thesis by simp
    qed
    with touch Err show ?thesis by (auto simp: went_to_def stream_opened_def)
  next
    case (Ok i)
    then obtain cn q n where i: "i = length (pw_streams s)" "pw_streams s1 = pw_streams s @ [(cn, q)]"
        "ev_open env n cn = Inl q"
      using touch(2) unfolding stream_opened_def by auto
    have cn: "cn_peer cn = node" using peer(2) [OF Ok] i(1,2) by simp
    obtain c s2 where c: "on_stream i (send_command command) s1 = (c, s2)"
      by (cases "on_stream i (send_command command) s1")
    obtain q2 where q2: "send_command command q = (c, q2)" "s2 = s1\<lparr>pw_streams := pw_streams s @ [(cn, q2)]\<rparr>"
      using on_last_stream [OF i(2)] c i(1) by blast
    have "\<exists>q'. pw_streams s' = pw_streams s @ [(cn, q')] \<and> sent_command command q q' \<and>
        pw_dialled s' = pw_dialled s2 \<and> r \<noteq> Panic"
    proof (cases c)
      case (Ok u)
      have bs: "ep_out q2 = ep_out q @ str_bytes command @ []"
        using send_command_sends(2) [OF q2(1)] Ok by simp
      let ?s3 = "s2\<lparr>pw_client := snd (ep_write_all (reply_bytes REP_SUCCESS) (pw_client s2))\<rparr>"
      obtain s3 where s3: "s3 = ?s3" by blast
      then have v: "on_client (send_reply REP_SUCCESS) s2 = (result.Ok (), s3)"
          "pw_streams s3 = pw_streams s2" "pw_dialled s3 = pw_dialled s2"
        by (simp_all add: client_reply)
      obtain cl q3 where q3: "relay (pw_client s3) q2 = (cl, q3)" by (cases "relay (pw_client s3) q2")
      have "relay_stream i s3 = (r, s')"
        using t o1 \<open>o1 = result.Ok i\<close> c Ok by (simp add: tunnel_to_node_def pcatch_def pbind_def client_reply s3)
      then have "s' = s3\<lparr>pw_client := cl, pw_streams := pw_streams s @ [(cn, q3)]\<rparr>" "r = result.Ok ()"
        using v(2) q2(2) q3 i(1) by (simp_all add: relay_stream_def)
      with relay_keeps_sent [OF q3 bs] v show ?thesis by auto
    next
      case (Err e)
      then have "pbind (on_client (send_reply REP_CONNECTION_REFUSED)) (\<lambda>_. fail (command_error_text e)) s2 = (r, s')"
        using t o1 \<open>o1 = result.Ok i\<close> c by (simp add: tunnel_to_node_def pcatch_def)
      with reply_and_fail [OF this] send_command_sends(1) [OF q2(1)] q2(2) show ?thesis by auto
    next
      case Panic
      with send_command_sends(3) [OF q2(1)] show ?thesis by simp
    qed
    then show ?thesis
      using touch(3) i cn q2(2) by (auto simp: went_to_def)
  qed
  then show "went_to env node command s s'" "r \<noteq> Panic" by auto
qed

lemma route_connection_went:
  assumes fit: "pool_fit (pw_pool s)" and t: "route_connection env request egress s = (r, s')"
  shows "pw_dialled s' = pw_dialled s \<and> pw_streams s' = pw_streams s \<or>
    (\<exists>n. parse_wispers_host (cr_host request) = Ok n \<and>
       went_to env n (forward_command (cr_port request)) s s') \<or>
    (\<exists>n. parse_wispers_host (cr_host request) = Err None \<and> egress = Some n \<and>
       went_to env n (connect_command (cr_host request) (cr_port request)) s s')"
    and "r \<noteq> Panic"
proof -
  have refused: "pw_dialled s' = pw_dialled s \<and> pw_streams s' = pw_streams s \<and> r \<noteq> Panic"
    if "pbind (on_client (send_reply c)) (\<lambda>_. fail e) s = (r, s')" for c and e :: string
    using reply_and_fail [OF that] by simp
  note went = tunnel_to_node_went [OF fit]
  have "(pw_dialled s' = pw_dialled s \<and> pw_streams s' = pw_streams s \<or>
    (\<exists>n. parse_wispers_host (cr_host request) = Ok n \<and>
       went_to env n (forward_command (cr_port request)) s s') \<or>
    (\<exists>n. parse_wispers_host (cr_host request) = Err None \<and> egress = Some n \<and>
       went_to env n (connect_command (cr_host request) (cr_port request)) s s')) \<and> r \<noteq> Panic"
  proof (cases "parse_wispers_host (cr_host request)")
    case (Ok n)
    with t have "tunnel_to_node env n (forward_command (cr_port request)) s = (r, s')"
      by (simp add: route_connection_def forward_to_node_def)
    with went Ok show ?thesis by blast
  next
    case (Err x)
    show ?thesis
    proof (cases x)
      case (Some e)
      with Err t refused show ?thesis by (simp add: route_connection_def)
    next
      case None
      show ?thesis
      proof (cases egress)
        case (Some n)
        with Err None t have
          "tunnel_to_node env n (connect_command (cr_host request) (cr_port request)) s = (r, s')"
          by (simp add: route_connection_def egress_to_node_def)
        with went Err None Some show ?thesis by blast
      qed (use Err None t refused in \<open>simp add: route_connection_def\<close>)
    qed
  qed simp
  then show "pw_dialled s' = pw_dialled s \<and> pw_streams s' = pw_streams s \<or>
    (\<exists>n. parse_wispers_host (cr_host request) = Ok n \<and>
       went_to env n (forward_command (cr_port request)) s s') \<or>
    (\<exists>n. parse_wispers_host (cr_host request) = Err None \<and> egress = Some n \<and>
       went_to env n (connect_command (cr_host request) (cr_port request)) s s')"
    and "r \<noteq> Panic" by auto
qed

subsection \<open>A SOCKS client, start to end\<close>

lemma ep_read_arriving:
  assumes "ep_read k ep = (Ok bs, ep')" and "bs \<noteq> []" and "0 < k"
  obtains evs where "ep' = ep\<lparr>ep_in := evs\<rparr>" "arriving (ep_in ep) = bs @ arriving evs"
    "unbroken (ep_in ep) \<Longrightarrow> unbroken evs"
proof (cases "ep_in ep")
  case Nil
  with assms show thesis by (simp add: ep_read_def)
next
  case (Cons ev r)
  show thesis
  proof (cases ev)
    case (Got cs)
    show thesis
    proof (cases "length cs \<le> k")
      case True
      with assms Cons Got show thesis by (intro that [of r]) (auto simp: ep_read_def)
    next
      case False
      with assms Cons Got show thesis
        by (intro that [of "Got (drop k cs) # r"]) (auto simp: ep_read_def)
    qed
  qed (use assms Cons in \<open>simp add: ep_read_def\<close>)
qed

lemma handle_auth_Ok:
  assumes "handle_auth ep = (Ok u, ep')"
  obtains greeting where "arriving (ep_in ep) = greeting @ arriving (ep_in ep')" "2 \<le> length greeting"
proof -
  obtain buf ep1 where buf: "ep_read 258 ep = (Ok buf, ep1)" "2 \<le> length buf"
      "AUTH_NOAUTH \<in> set (take (unat (buf ! 1)) (drop 2 buf))"
      "ep_write_all [SOCKS_VERSION, AUTH_NOAUTH] ep1 = (Ok u, ep')"
    using assms
    by (auto simp: handle_auth_def Let_def pbind_Ok_iff perr_iff check_iff fail_def split: if_split_asm)
  have "buf \<noteq> []" using buf(2) by auto
  obtain evs where evs: "ep1 = ep\<lparr>ep_in := evs\<rparr>" "arriving (ep_in ep) = buf @ arriving evs"
    by (rule ep_read_arriving [OF buf(1) \<open>buf \<noteq> []\<close>]) simp_all
  have "ep_in ep' = ep_in ep1"
    using buf(4) by (auto simp: ep_write_all_def split: list.splits write_outcome.splits)
  with evs buf(2) that [of buf] show thesis by simp
qed

text \<open>Where a request goes, and with which command.\<close>

definition routed :: "i32 option \<Rightarrow> string \<Rightarrow> u16 \<Rightarrow> i32 \<Rightarrow> string \<Rightarrow> bool" where
  "routed egress host port node command \<longleftrightarrow>
     parse_wispers_host host = Ok node \<and> command = forward_command port \<or>
     parse_wispers_host host = Err None \<and> egress = Some node \<and> command = connect_command host port"

lemma socks_connection_went:
  assumes fit: "pool_fit (pw_pool s)" and h: "handle_client_connection env peer egress s = (r, s')"
  shows "pw_dialled s' = pw_dialled s \<and> pw_streams s' = pw_streams s \<or>
    (\<exists>greeting rsv addr port rest node command.
       arriving (ep_in (pw_client s)) = greeting @ build_connect rsv addr port @ rest \<and>
       address_ok addr \<and> routed egress (address_text addr) port node command \<and>
       went_to env node command s s')"
proof (cases "peer = Ok ()")
  case False
  with h show ?thesis
    by (cases peer) (auto simp: handle_client_connection_def pbind_def)
next
  case True
  obtain a s1 where a: "on_client handle_auth s = (a, s1)" by (cases "on_client handle_auth s")
  note a' = on_client_streams [OF a]
  show ?thesis
  proof (cases "\<exists>u. a = Ok u")
    case False
    then have "s' = s1" using h a True
      by (cases a) (auto simp: handle_client_connection_def pbind_def pcatch_def)
    with a' show ?thesis by simp
  next
    case aok: True
    obtain c s2 where c: "on_client handle_connect_request s1 = (c, s2)"
      by (cases "on_client handle_connect_request s1")
    note c' = on_client_streams [OF c]
    show ?thesis
    proof (cases c)
      case (Ok request)
      obtain x s3 where x: "route_connection env request egress s2 = (x, s3)"
        by (cases "route_connection env request egress s2")
      have "pool_fit (pw_pool s2)" using fit a' c' by simp
      note went = route_connection_went [OF this x]
      have "s' = s3"
        using h a aok c Ok x True
        by (cases x) (auto simp: handle_client_connection_def pbind_def pcatch_def)
      obtain u where u: "handle_auth (pw_client s) = (result.Ok u, pw_client s1)"
        using a aok by (auto simp: on_client_def split: prod.splits)
      have r: "handle_connect_request (pw_client s1) = (result.Ok request, pw_client s2)"
        using c Ok by (auto simp: on_client_def split: prod.splits)
      obtain g where g: "arriving (ep_in (pw_client s)) = g @ arriving (ep_in (pw_client s1))"
        using u by (rule handle_auth_Ok)
      obtain rsv addr evs where q: "address_ok addr" "cr_host request = address_text addr"
          "arriving (ep_in (pw_client s1)) = build_connect rsv addr (cr_port request) @ arriving evs"
        using r by (rule connect_request_Ok)
      have same: "went_to env node command s2 s3 \<longleftrightarrow> went_to env node command s s3" for node command
        using a' c' by (simp add: went_to_def)
      have arr: "arriving (ep_in (pw_client s)) = g @ build_connect rsv addr (cr_port request) @ arriving evs"
        using g q(3) by simp
      from went(1) consider (none) "pw_dialled s3 = pw_dialled s2 \<and> pw_streams s3 = pw_streams s2"
        | (went) node command where "routed egress (address_text addr) (cr_port request) node command"
            "went_to env node command s s3"
        by (auto simp: routed_def q(2) same)
      then show ?thesis
      proof cases
        case none
        with a' c' \<open>s' = s3\<close> show ?thesis by simp
      next
        case went
        with arr q(1) \<open>s' = s3\<close> show ?thesis by blast
      qed
    next
      case (Err e)
      then have "s' = s2" using h a aok c True
        by (auto simp: handle_client_connection_def pbind_def pcatch_def)
      with a' c' show ?thesis by simp
    next
      case Panic
      then have "s' = s2" using h a aok c True
        by (auto simp: handle_client_connection_def pbind_def pcatch_def)
      with a' c' show ?thesis by simp
    qed
  qed
qed

text \<open>A client whose greeting arrives in one piece and whose socket takes what is written.\<close>

definition polite_client :: "endpoint \<Rightarrow> bytes \<Rightarrow> bytes \<Rightarrow> bool" where
  "polite_client ep methods request \<longleftrightarrow>
     (\<exists>evs. ep_in ep = Got ([SOCKS_VERSION, of_nat (length methods)] @ methods) # evs \<and>
        unbroken evs \<and> arriving evs = request) \<and>
     length methods < 256 \<and> AUTH_NOAUTH \<in> set methods \<and> ep_writes ep = [] \<and> ep_finish ep = None"

lemma handle_auth_polite:
  assumes "polite_client ep methods request"
  obtains evs where "handle_auth ep =
      (Ok (), ep\<lparr>ep_in := evs, ep_out := ep_out ep @ [SOCKS_VERSION, AUTH_NOAUTH]\<rparr>)"
    "unbroken evs" "arriving evs = request"
proof -
  obtain evs where evs: "ep_in ep = Got ([SOCKS_VERSION, of_nat (length methods)] @ methods) # evs"
      "unbroken evs" "arriving evs = request"
    using assms by (auto simp: polite_client_def)
  have m: "length methods < 256" "AUTH_NOAUTH \<in> set methods" "ep_writes ep = []"
    using assms by (auto simp: polite_client_def)
  have n: "unat (of_nat (length methods) :: u8) = length methods"
    using m(1) by (simp add: unat_of_nat)
  have r: "ep_read 258 ep = (Ok ([SOCKS_VERSION, of_nat (length methods)] @ methods), ep\<lparr>ep_in := evs\<rparr>)"
    using evs(1) m(1) by (simp add: ep_read_def)
  have "handle_auth ep = (Ok (), ep\<lparr>ep_in := evs, ep_out := ep_out ep @ [SOCKS_VERSION, AUTH_NOAUTH]\<rparr>)"
    by (simp add: handle_auth_def pbind_def perr_def r n m ep_write_all_def)
  with evs show thesis by (intro that) auto
qed

text \<open>A stream whose remote accepts the command and then sends \<open>answer\<close>.\<close>

definition accepting_stream :: "endpoint \<Rightarrow> arrival list \<Rightarrow> bool" where
  "accepting_stream q answer \<longleftrightarrow>
     ep_in q = Got (str_bytes (''OK'' @ [CHR 0x0A])) # answer \<and> ep_writes q = [] \<and>
     ep_finish q = None \<and> ep_out q = []"

lemma send_command_accepted:
  assumes "accepting_stream q answer"
  shows "send_command command q = (Ok (), q\<lparr>ep_in := answer, ep_out := str_bytes command\<rparr>)"
  using assms command_response_OK
  by (simp add: send_command_def pbind_def perr_def ep_write_all_def ep_read_def accepting_stream_def)

lemma socks_connection_transparent:
  assumes client: "polite_client (pw_client s) methods (build_connect rsv addr port @ payload)"
    and addr: "address_ok addr" "routed egress (address_text addr) port node command"
    and pool: "pl_connections (pw_pool s) node = None" "pl_cells (pw_pool s) (pl_next (pw_pool s)) = Vacant"
    and env: "\<And>n. \<not> ev_expires env n" "\<And>n. ev_dial env n node = Inl h"
      "\<And>n. ev_open env n \<lparr>cn_handle = h, cn_peer = node\<rparr> = Inl q"
    and q: "accepting_stream q answer"
  shows "\<exists>s' q'. handle_client_connection env (Ok ()) egress s = (Ok (), s') \<and>
    ep_out (pw_client s') = ep_out (pw_client s) @ [SOCKS_VERSION, AUTH_NOAUTH] @
      reply_bytes REP_SUCCESS @ arriving answer \<and>
    pw_streams s' = pw_streams s @ [(\<lparr>cn_handle = h, cn_peer = node\<rparr>, q')] \<and>
    ep_out q' = str_bytes command @ payload \<and> ep_closed (pw_client s') \<and> ep_closed q'"
proof -
  let ?c = "pw_client s"
  obtain e1 where a: "handle_auth ?c =
      (Ok (), ?c\<lparr>ep_in := e1, ep_out := ep_out ?c @ [SOCKS_VERSION, AUTH_NOAUTH]\<rparr>)"
      "unbroken e1" "arriving e1 = build_connect rsv addr port @ payload"
    using client by (rule handle_auth_polite)
  let ?c1 = "?c\<lparr>ep_in := e1, ep_out := ep_out ?c @ [SOCKS_VERSION, AUTH_NOAUTH]\<rparr>"
  obtain e2 where r: "handle_connect_request ?c1 =
      (Ok \<lparr>cr_host = address_text addr, cr_port = port\<rparr>, ?c1\<lparr>ep_in := e2\<rparr>)"
      "unbroken e2" "arriving e2 = payload"
    by (rule connect_request_encoded [of ?c1 rsv addr port payload]) (use a addr in simp_all)
  let ?c2 = "?c1\<lparr>ep_in := e2\<rparr>" and ?request = "\<lparr>cr_host = address_text addr, cr_port = port\<rparr>"
  let ?s2 = "s\<lparr>pw_client := ?c2\<rparr>" and ?cn = "\<lparr>cn_handle = h, cn_peer = node\<rparr>"
  have quiet: "ep_writes ?c = []" "ep_finish ?c = None" using client by (auto simp: polite_client_def)
  obtain s3 where o: "open_stream env True node ?s2 = (Ok (length (pw_streams s)), s3)"
      "pw_client s3 = ?c2" "pw_streams s3 = pw_streams s @ [(?cn, q)]"
    by (rule open_stream_first [of ?s2 node env h q]) (use pool env in simp_all)
  let ?q2 = "q\<lparr>ep_in := answer, ep_out := str_bytes command\<rparr>"
  have k: "on_stream (length (pw_streams s)) (send_command command) s3 =
      (Ok (), s3\<lparr>pw_streams := pw_streams s @ [(?cn, ?q2)]\<rparr>)"
    using o(3) send_command_accepted [OF q] by (simp add: on_stream_def)
  let ?c3 = "?c2\<lparr>ep_out := ep_out ?c2 @ reply_bytes REP_SUCCESS\<rparr>"
  let ?s4 = "s3\<lparr>pw_streams := pw_streams s @ [(?cn, ?q2)], pw_client := ?c3\<rparr>"
  obtain c5 q5 where rel: "relay ?c3 ?q2 = (c5, q5)" by (cases "relay ?c3 ?q2")
  let ?s5 = "?s4\<lparr>pw_client := c5, pw_streams := pw_streams s @ [(?cn, q5)]\<rparr>"
  have t: "tunnel_to_node env node command ?s2 = (Ok (), ?s5)"
    using o(1,2) k rel quiet
    by (simp add: tunnel_to_node_def pcatch_def pbind_def relay_stream_def client_reply ep_write_all_quiet)
  have "route_connection env ?request egress ?s2 = (Ok (), ?s5)"
    using t addr(2) by (auto simp: route_connection_def routed_def forward_to_node_def egress_to_node_def)
  then have run: "handle_client_connection env (Ok ()) egress s = (Ok (), ?s5)"
    using a(1) r(1) by (simp add: handle_client_connection_def pbind_def pcatch_def on_client_def)
  have q2: "ep_writes ?q2 = []" "ep_finish ?q2 = None" "ep_out ?q2 = str_bytes command"
    using q by (simp_all add: accepting_stream_def)
  note ro = relay_out [OF rel]
  have "ep_out c5 = ep_out ?c @ [SOCKS_VERSION, AUTH_NOAUTH] @ reply_bytes REP_SUCCESS @ arriving answer"
    using ro(2) quiet by auto
  moreover have "ep_out q5 = str_bytes command @ payload"
    using ro(1) q2 r(3) by auto
  moreover have "ep_closed c5" "ep_closed q5" using ro(3,4) quiet q2 by auto
  ultimately show ?thesis
    using run by - (rule exI [of _ ?s5], rule exI [of _ q5], simp)
qed

end
