(* ===== verification/Http_Props.thy ===== *)
theory Http_Props
  imports Proxy_Props
begin

text \<open>
  What the HTTP proxy does with a client's requests: which requests it accepts and where it
  takes them, what it forwards of them, and how its timer and its limits show to the client.
\<close>

subsection \<open>Requests that are accepted\<close>

text \<open>
  A parsed request is well formed: a node it names has a positive number, an Internet host is
  none of our names and there is an egress node for it; a tunnel comes from CONNECT and from
  nothing else, carries no headers and ends the connection; a path starts with a slash; no
  hop-by-hop header is kept.
\<close>

fun destination_ok :: "i32 option \<Rightarrow> destination \<Rightarrow> bool" where
  "destination_ok egress (WispersNode n port) \<longleftrightarrow> 0 < sint n"
| "destination_ok egress (Internet host port) \<longleftrightarrow> egress \<noteq> None \<and> \<not> suffix ''.wispers.link'' host"

fun mode_ok :: "string \<Rightarrow> proxy_mode \<Rightarrow> bool" where
  "mode_ok verb Tunnel \<longleftrightarrow> verb = ''CONNECT''"
| "mode_ok verb (HttpRequest path) \<longleftrightarrow> verb \<noteq> ''CONNECT'' \<and> path \<noteq> [] \<and> hd path = CHR ''/''"

definition request_ok :: "i32 option \<Rightarrow> parsed_request \<Rightarrow> bool" where
  "request_ok egress r \<longleftrightarrow>
     destination_ok egress (pt_destination (pr_target r)) \<and>
     mode_ok (pr_method r) (pt_mode (pr_target r)) \<and>
     (pt_mode (pr_target r) = Tunnel \<longrightarrow> pr_headers r = [] \<and> \<not> pr_keep_alive r) \<and>
     (\<forall>h \<in> set (pr_headers r). \<not> is_hop_by_hop_header (to_lowercase (fst h)))"

lemma route_host_Ok:
  assumes "route_host host port mode egress refusal = Ok t"
  shows "destination_ok egress (pt_destination t)" and "pt_mode t = mode"
    and "case pt_destination t of WispersNode n p \<Rightarrow> parse_wispers_host host = Ok n \<and> p = port
      | Internet h p \<Rightarrow> parse_wispers_host host = Err None \<and> h = host \<and> p = port"
  using assms parse_wispers_host_positive
  by (auto simp: route_host_def parse_wispers_host_none split: result.splits option.splits if_splits)

lemma route_host_not_panic [simp]: "route_host host port mode egress refusal \<noteq> Panic"
  by (auto simp: route_host_def split: result.splits option.splits)

lemma parse_connect_target_Ok:
  assumes "parse_connect_target path egress = Ok t"
  shows "destination_ok egress (pt_destination t)" and "pt_mode t = Tunnel"
  using assms by (auto simp: parse_connect_target_def rust_simps split: option.splits dest: route_host_Ok)

lemma parse_proxy_target_Ok:
  assumes "parse_proxy_target url egress = Ok t"
  obtains path where "destination_ok egress (pt_destination t)" "pt_mode t = HttpRequest path"
    "path \<noteq> []" "hd path = CHR ''/''"
proof -
  have slash: "dropWhile (\<lambda>c. c \<noteq> CHR ''/'') rest \<noteq> [] \<and> hd (dropWhile (\<lambda>c. c \<noteq> CHR ''/'') rest) = CHR ''/''"
    if "CHR ''/'' \<in> set rest" for rest
  proof -
    have ne: "dropWhile (\<lambda>c. c \<noteq> CHR ''/'') rest \<noteq> []"
      using that by (auto simp: dropWhile_eq_Nil_conv)
    from hd_dropWhile [OF this] ne show ?thesis by simp
  qed
  obtain rest where rest: "strip_prefix ''http://'' url = Some rest"
    using assms by (cases "strip_prefix ''http://'' url") (auto simp: parse_proxy_target_def)
  let ?path = "if CHR ''/'' \<in> set rest then dropWhile (\<lambda>c. c \<noteq> CHR ''/'') rest else ''/''"
  obtain host port refusal where "route_host host port (HttpRequest ?path) egress refusal = Ok t"
    using assms rest by (auto simp: parse_proxy_target_def Let_def rbind_Ok_iff)
  note route_host_Ok(1,2) [OF this]
  with slash [of rest] show thesis by (intro that [of ?path]) auto
qed

lemma parse_targets_return [simp]:
  "parse_connect_target path egress \<noteq> Panic" "parse_proxy_target url egress \<noteq> Panic"
  by (auto simp: parse_connect_target_def parse_proxy_target_def Let_def rust_simps split: option.splits)

text \<open>The loop over the headers keeps what it has found and adds no hop-by-hop header.\<close>

lemma collect_headers_kept:
  assumes "collect_headers hs (parsed, keep, host) = (parsed', keep', host')"
    and "\<forall>h \<in> set parsed. \<not> is_hop_by_hop_header (to_lowercase (fst h))"
  shows "\<forall>h \<in> set parsed'. \<not> is_hop_by_hop_header (to_lowercase (fst h))"
  using assms
proof (induction hs arbitrary: parsed keep host)
  case (Cons h hs)
  obtain hname hvalue where h: "h = (hname, hvalue)" by (cases h)
  show ?case
    using Cons h by (auto simp: Let_def split: if_splits)
qed simp

text \<open>What is forwarded of the headers: in order, all that are not hop-by-hop.\<close>

lemma collect_headers_filter:
  "fst (collect_headers hs (parsed, keep, host)) =
     parsed @ map (\<lambda>h. (fst h, from_utf8_lossy (snd h)))
       (filter (\<lambda>h. \<not> is_hop_by_hop_header (to_lowercase (fst h))) hs)"
proof (induction hs arbitrary: parsed keep host)
  case (Cons h hs)
  have c: "is_hop_by_hop_header ''connection''" by (simp add: is_hop_by_hop_header_def hop_by_hop_headers_def)
  obtain hname hvalue where h: "h = (hname, hvalue)" by (cases h)
  show ?case
    using Cons h c by (auto simp: Let_def)
qed simp

lemma collect_headers_host:
  "snd (snd (collect_headers hs (parsed, keep, host))) = None \<longleftrightarrow>
     host = None \<and> (\<forall>h \<in> set hs. to_lowercase (fst h) \<noteq> ''host'')"
proof (induction hs arbitrary: parsed keep host)
  case (Cons h hs)
  have c: "\<not> is_hop_by_hop_header ''host''" by (simp add: is_hop_by_hop_header_def hop_by_hop_headers_def)
  obtain hname hvalue where h: "h = (hname, hvalue)" by (cases h)
  show ?case
    using Cons h c by (auto simp: Let_def)
qed simp

lemma host_not_hop: "\<not> is_hop_by_hop_header (to_lowercase ''Host'')"
  by (simp add: is_hop_by_hop_header_def hop_by_hop_headers_def Let_def starting_with_def)

lemma parse_request_Ok_cases:
  assumes "parse_request httparse buf egress = Ok r"
  obtains (tunnel) h path where "httparse buf = ParseComplete h" "hh_path h = Some path"
      "hh_method h = Some ''CONNECT''" "parse_connect_target path egress = Ok (pr_target r)"
      "pr_method r = ''CONNECT''" "pr_headers r = []" "\<not> pr_keep_alive r"
    | (plain) h verb path version parsed keep host where "httparse buf = ParseComplete h"
      "hh_method h = Some verb" "verb \<noteq> ''CONNECT''" "hh_path h = Some path"
      "hh_version h = Some version" "parse_proxy_target path egress = Ok (pr_target r)"
      "pr_method r = verb" "pr_version r = version"
      "collect_headers (hh_headers h) ([], version = 1, None) = (parsed, keep, host)"
      "pr_headers r = (if host = None then parsed @ [(''Host'', target_host (pt_destination (pr_target r)))]
         else parsed)" "pr_keep_alive r = keep"
proof -
  obtain h where h: "httparse buf = ParseComplete h"
    using assms by (cases "httparse buf") (auto simp: parse_request_def)
  obtain verb path version where m: "hh_method h = Some verb" "hh_path h = Some path"
      "hh_version h = Some version"
    using assms h by (cases "hh_method h"; cases "hh_path h"; cases "hh_version h")
      (auto simp: parse_request_def)
  show thesis
  proof (cases "verb = ''CONNECT''")
    case True
    with assms h m tunnel show thesis by (auto simp: parse_request_def rust_simps)
  next
    case False
    obtain parsed keep host where c:
        "collect_headers (hh_headers h) ([], version = 1, None) = (parsed, keep, host)"
      by (cases "collect_headers (hh_headers h) ([], version = 1, None)")
    obtain t where t: "parse_proxy_target path egress = Ok t"
        "r = \<lparr>pr_target = t, pr_method = verb, pr_version = version,
          pr_headers = (if host = None \<and> pt_mode t \<noteq> Tunnel
            then parsed @ [(''Host'', target_host (pt_destination t))] else parsed),
          pr_keep_alive = keep\<rparr>"
      using assms h m False c by (auto simp: parse_request_def rust_simps Let_def)
    moreover have "pt_mode t \<noteq> Tunnel" using t(1) by (auto elim: parse_proxy_target_Ok)
    ultimately show thesis
      using plain [OF h m(1) False m(2,3) _ _ _ c] by simp
  qed
qed

lemma parse_request_ok:
  assumes "parse_request httparse buf egress = Ok r"
  shows "request_ok egress r"
  using assms
proof (cases rule: parse_request_Ok_cases)
  case (tunnel h path)
  with parse_connect_target_Ok [OF tunnel(4)] show ?thesis by (simp add: request_ok_def)
next
  case (plain h verb path version parsed keep host)
  obtain p where p: "destination_ok egress (pt_destination (pr_target r))"
      "pt_mode (pr_target r) = HttpRequest p" "p \<noteq> []" "hd p = CHR ''/''"
    using plain(6) by (rule parse_proxy_target_Ok)
  have "\<forall>x \<in> set parsed. \<not> is_hop_by_hop_header (to_lowercase (fst x))"
    using collect_headers_kept [OF plain(9)] by simp
  then show ?thesis
    using p plain host_not_hop by (auto simp: request_ok_def)
qed

lemma parse_request_not_panic [simp]: "parse_request httparse buf egress \<noteq> Panic"
  by (auto simp: parse_request_def rust_simps Let_def split: http_parse.splits prod.splits)

subsection \<open>Where requests go\<close>

text \<open>
  \<open>uses_stream i m\<close>: running \<open>m\<close> returns, dials nothing, leaves the pool and every other
  stream alone, and only adds to what stream \<open>i\<close> has been sent.
\<close>

definition stream_grew :: "nat \<Rightarrow> proxy_world \<Rightarrow> proxy_world \<Rightarrow> bool" where
  "stream_grew i s s' \<longleftrightarrow> pw_dialled s' = pw_dialled s \<and> pw_pool s' = pw_pool s \<and>
     (\<exists>q'. pw_streams s' = (pw_streams s)[i := (fst (pw_streams s ! i), q')] \<and>
        prefix (ep_out (snd (pw_streams s ! i))) (ep_out q'))"

definition uses_stream :: "nat \<Rightarrow> (proxy_world, 'a, 'e) prog \<Rightarrow> bool" where
  "uses_stream i m \<longleftrightarrow> (\<forall>s. i < length (pw_streams s) \<longrightarrow>
     fst (m s) \<noteq> Panic \<and> stream_grew i s (snd (m s)))"

named_theorems uses_rules "introduction rules for uses_stream"

lemma stream_grew_refl: "i < length (pw_streams s) \<Longrightarrow> stream_grew i s s"
  by (auto simp: stream_grew_def intro!: exI [of _ "snd (pw_streams s ! i)"])

lemma stream_grewI:
  "pw_dialled t = pw_dialled s \<Longrightarrow> pw_pool t = pw_pool s \<Longrightarrow>
     pw_streams t = (pw_streams s)[i := (fst (pw_streams s ! i), q')] \<Longrightarrow>
     prefix (ep_out (snd (pw_streams s ! i))) (ep_out q') \<Longrightarrow> stream_grew i s t"
  by (auto simp: stream_grew_def)

lemma stream_grew_trans:
  assumes "stream_grew i s t" and "stream_grew i t u" and "i < length (pw_streams s)"
  shows "stream_grew i s u"
proof -
  obtain q where q: "pw_streams t = (pw_streams s)[i := (fst (pw_streams s ! i), q)]"
      "prefix (ep_out (snd (pw_streams s ! i))) (ep_out q)"
      "pw_dialled t = pw_dialled s" "pw_pool t = pw_pool s"
    using assms(1) by (auto simp: stream_grew_def)
  obtain q' where q': "pw_streams u = (pw_streams t)[i := (fst (pw_streams t ! i), q')]"
      "prefix (ep_out (snd (pw_streams t ! i))) (ep_out q')"
      "pw_dialled u = pw_dialled t" "pw_pool u = pw_pool t"
    using assms(2) by (auto simp: stream_grew_def)
  have "pw_streams t ! i = (fst (pw_streams s ! i), q)" using q(1) assms(3) by simp
  then show ?thesis
    using q q' by (auto simp: stream_grew_def intro!: exI [of _ q'] dest: prefix_order.trans)
qed

lemma stream_grew_length: "stream_grew i s t \<Longrightarrow> length (pw_streams t) = length (pw_streams s)"
  by (auto simp: stream_grew_def)

lemma uses_streamD:
  assumes "uses_stream i m" and "i < length (pw_streams s)" and "m s = (r, t)"
  shows "r \<noteq> Panic" and "stream_grew i s t" and "i < length (pw_streams t)"
  using assms stream_grew_length [of i s t] by (auto simp: uses_stream_def dest!: spec [of _ s])

lemma uses_streamI:
  assumes "\<And>s r t. i < length (pw_streams s) \<Longrightarrow> m s = (r, t) \<Longrightarrow> r \<noteq> Panic \<and> stream_grew i s t"
  shows "uses_stream i m"
  using assms unfolding uses_stream_def by (metis prod.collapse)

lemma uses_pure [uses_rules]: "uses_stream i (ret x)" "uses_stream i (fail e)"
  by (auto intro!: uses_streamI stream_grew_refl)

lemma uses_pbind [uses_rules]:
  assumes "uses_stream i m" and "\<And>x. uses_stream i (k x)"
  shows "uses_stream i (pbind m k)"
proof (rule uses_streamI)
  fix s r t
  assume i: "i < length (pw_streams s)" and "pbind m k s = (r, t)"
  obtain r1 u where 1: "m s = (r1, u)" by (cases "m s")
  note u = uses_streamD [OF assms(1) i 1]
  show "r \<noteq> Panic \<and> stream_grew i s t"
  proof (cases r1)
    case (Ok x)
    then have "k x u = (r, t)" using \<open>pbind m k s = (r, t)\<close> 1 by (simp add: pbind_def)
    from uses_streamD [OF assms(2) u(3) this] stream_grew_trans [OF u(2) _ i] show ?thesis by simp
  qed (use u 1 \<open>pbind m k s = (r, t)\<close> in \<open>auto simp: pbind_def\<close>)
qed

lemma uses_pcatch [uses_rules]:
  assumes "uses_stream i m" and "\<And>x. uses_stream i (k x)" and "\<And>e. uses_stream i (h e)"
  shows "uses_stream i (pcatch m k h)"
proof (rule uses_streamI)
  fix s r t
  assume i: "i < length (pw_streams s)" and p: "pcatch m k h s = (r, t)"
  obtain r1 u where 1: "m s = (r1, u)" by (cases "m s")
  note u = uses_streamD [OF assms(1) i 1]
  show "r \<noteq> Panic \<and> stream_grew i s t"
  proof (cases r1)
    case (Ok x)
    then have "k x u = (r, t)" using p 1 by (simp add: pcatch_def)
    from uses_streamD [OF assms(2) u(3) this] stream_grew_trans [OF u(2) _ i] show ?thesis by simp
  next
    case (Err e)
    then have "h e u = (r, t)" using p 1 by (simp add: pcatch_def)
    from uses_streamD [OF assms(3) u(3) this] stream_grew_trans [OF u(2) _ i] show ?thesis by simp
  qed (use u in simp)
qed

lemma uses_perr [uses_rules]: "uses_stream i m \<Longrightarrow> uses_stream i (perr g m)"
proof (rule uses_streamI)
  fix s r t
  assume m: "uses_stream i m" and i: "i < length (pw_streams s)" and p: "perr g m s = (r, t)"
  obtain r1 u where 1: "m s = (r1, u)" by (cases "m s")
  from uses_streamD [OF m i 1] p 1 show "r \<noteq> Panic \<and> stream_grew i s t"
    by (cases r1) (auto simp: perr_def)
qed

lemma uses_ignoring [uses_rules]: "uses_stream i m \<Longrightarrow> uses_stream i (ignoring m)"
  by (auto simp: uses_stream_def ignoring_def)

lemma uses_awaiting [uses_rules]:
  assumes "\<And>n. uses_stream i (m n)"
  shows "uses_stream i (awaiting env ut m)"
proof (rule uses_streamI)
  fix s r t
  assume i: "i < length (pw_streams s)" and a: "awaiting env ut m s = (r, t)"
  let ?s = "s\<lparr>pw_calls := pw_calls s + 1\<rparr>"
  have same: "stream_grew i ?s t \<longleftrightarrow> stream_grew i s t" by (simp add: stream_grew_def)
  have i': "i < length (pw_streams ?s)" using i by simp
  show "r \<noteq> Panic \<and> stream_grew i s t"
  proof (cases "ut \<and> ev_expires env (pw_calls s)")
    case True
    with a stream_grew_refl [OF i'] same show ?thesis by (auto simp: awaiting_def Let_def)
  next
    case False
    with a have "m (pw_calls s) ?s = (r, t)" by (simp add: awaiting_def Let_def)
    from uses_streamD [OF assms i' this] same show ?thesis by simp
  qed
qed

lemma uses_client_write [uses_rules]: "uses_stream i (on_client (ep_write_all bs))"
proof (rule uses_streamI)
  fix s r t
  assume i: "i < length (pw_streams s)" and w: "on_client (ep_write_all bs) s = (r, t)"
  then have "r \<noteq> Panic" using ep_calls_return(2) by (auto simp: on_client_def split: prod.splits)
  moreover have "stream_grew i s t"
    using stream_grew_refl [OF i] on_client_streams [OF w] by (simp add: stream_grew_def)
  ultimately show "r \<noteq> Panic \<and> stream_grew i s t" ..
qed

lemma uses_stream_call [uses_rules]:
  assumes "\<And>q r q'. m q = (r, q') \<Longrightarrow> r \<noteq> Panic \<and> prefix (ep_out q) (ep_out q')"
  shows "uses_stream i (on_stream i m)"
proof (rule uses_streamI)
  fix s r t
  assume "i < length (pw_streams s)" and o: "on_stream i m s = (r, t)"
  obtain cn q where q: "pw_streams s ! i = (cn, q)" by (cases "pw_streams s ! i")
  obtain x q' where m: "m q = (x, q')" by (cases "m q")
  then have "r = x" "t = s\<lparr>pw_streams := (pw_streams s)[i := (cn, q')]\<rparr>"
    using o q by (simp_all add: on_stream_def)
  with assms [OF m] q show "r \<noteq> Panic \<and> stream_grew i s t"
    by (auto intro!: stream_grewI [of _ _ _ q'])
qed

lemma ep_calls_grow:
  "ep_read k q = (r, q') \<Longrightarrow> r \<noteq> Panic \<and> prefix (ep_out q) (ep_out q')"
  "ep_write_all bs q = (w, q') \<Longrightarrow> w \<noteq> Panic \<and> prefix (ep_out q) (ep_out q')"
  "ep_finish_send q = (w, q') \<Longrightarrow> w \<noteq> Panic \<and> prefix (ep_out q) (ep_out q')"
  using ep_read_out [of k q r q'] ep_write_all_out [of bs q w q']
  by (auto simp: ep_finish_send_def split: option.splits result.splits)

lemma copy_response_keeps:
  "copy_response env n q client = (r, n', q', client') \<Longrightarrow> r \<noteq> Panic \<and> ep_out q' = ep_out q"
proof (induction env n q client rule: copy_response.induct)
  case (1 env n q client)
  note eq = copy_response.simps [of env n q client]
  show ?case
  proof (cases "ev_expires env n")
    case True
    with "1.prems" eq show ?thesis by auto
  next
    case False
    obtain rd q1 where rd: "ep_read 8192 q = (rd, q1)" by (cases "ep_read 8192 q")
    note same = ep_read_out [OF rd]
    show ?thesis
    proof (cases "\<exists>buf. rd = Ok buf \<and> buf \<noteq> [] \<and> \<not> ev_expires env (n + 1)")
      case False
      with "1.prems" eq rd same \<open>\<not> ev_expires env n\<close> show ?thesis
        by (cases rd) (auto split: if_splits)
    next
      case True
      then obtain buf where buf: "rd = Ok buf" "buf \<noteq> []" "\<not> ev_expires env (n + 1)" by blast
      obtain x c where x: "ep_write_all buf client = (x, c)" by (cases "ep_write_all buf client")
      show ?thesis
      proof (cases x)
        case (Ok u)
        then have "copy_response env (n + 2) q1 c = (r, n', q', client')"
          using "1.prems" eq rd buf x False by simp
        with "1.IH" [OF False rd [symmetric, unfolded buf]] buf x Ok same show ?thesis by metis
      qed (use "1.prems" eq rd buf x False same in auto)
    qed
  qed
qed

lemma uses_relay_response [uses_rules]: "uses_stream i (relay_response env i)"
proof (rule uses_streamI)
  fix s r t
  assume "i < length (pw_streams s)" and o: "relay_response env i s = (r, t)"
  obtain cn q where q: "pw_streams s ! i = (cn, q)" by (cases "pw_streams s ! i")
  obtain x n q' c where m: "copy_response env (pw_calls s) q (pw_client s) = (x, n, q', c)"
    by (cases "copy_response env (pw_calls s) q (pw_client s)")
  then have "r = x" "t = s\<lparr>pw_client := c, pw_calls := n, pw_streams := (pw_streams s)[i := (cn, q')]\<rparr>"
    using o q by (simp_all add: relay_response_def)
  with copy_response_keeps [OF m] q show "r \<noteq> Panic \<and> stream_grew i s t"
    by (auto intro!: stream_grewI [of _ _ _ q'])
qed

lemma uses_handle_http_request [uses_rules]: "uses_stream i (handle_http_request env i request path)"
  unfolding handle_http_request_def timed_step_def context_of_def
  by (intro uses_rules; (drule ep_calls_grow; simp)?)

lemma relay_rounds_grow:
  assumes "pw_streams s ! i = (cn, q)"
  shows "prefix (ep_out q) (ep_out (rl_far (relay_rounds ds (relay_start near q))))"
proof -
  have round: "prefix (ep_out (rl_far st)) (ep_out (rl_far (relay_round d st)))" for d st
  proof (cases d)
    case Outward
    obtain b a c where p: "pump_once (rl_near st) (rl_far st) = (b, a, c)"
      by (cases "pump_once (rl_near st) (rl_far st)")
    then obtain bs where "ep_out c = ep_out (rl_far st) @ bs" using pump_once_out by blast
    with p Outward show ?thesis by (auto simp: relay_round.simps finish_send_closed split: bool.splits)
  next
    case Inward
    obtain b a c where p: "pump_once (rl_far st) (rl_near st) = (b, a, c)"
      by (cases "pump_once (rl_far st) (rl_near st)")
    then have "ep_out a = ep_out (rl_far st)" using pump_once_frame(1) [OF p] by auto
    with p Inward show ?thesis by (auto simp: relay_round.simps split: bool.splits)
  qed
  have "prefix (ep_out (rl_far st)) (ep_out (rl_far (relay_rounds ds st)))" for st
  proof (induction ds arbitrary: st)
    case Nil
    then show ?case by (simp add: relay_rounds_def)
  next
    case (Cons d ds)
    from round [of st d] Cons [of "relay_round d st"] show ?case
      by (simp add: relay_rounds_def)
  qed
  from this [of "relay_start near q"] show ?thesis by (simp add: relay_start_def)
qed

lemma uses_timed_relay [uses_rules]: "uses_stream i (timed_relay env i)"
proof -
  have "uses_stream i (\<lambda>s. case pw_streams s ! i of (cn, q) \<Rightarrow>
     (case ev_rounds env n of
        None \<Rightarrow> relay_stream i s
      | Some ds \<Rightarrow> (let st = relay_rounds ds (relay_start (pw_client s) q) in
          (if relay_over st then Ok () else Err Elapsed,
           s\<lparr>pw_client := rl_near st, pw_streams := (pw_streams s)[i := (cn, rl_far st)]\<rparr>))))" for n
  proof (rule uses_streamI)
    fix s r t
    assume i: "i < length (pw_streams s)" and m: "(case pw_streams s ! i of (cn, q) \<Rightarrow>
     (case ev_rounds env n of
        None \<Rightarrow> relay_stream i s
      | Some ds \<Rightarrow> (let st = relay_rounds ds (relay_start (pw_client s) q) in
          (if relay_over st then Ok () else Err Elapsed,
           s\<lparr>pw_client := rl_near st, pw_streams := (pw_streams s)[i := (cn, rl_far st)]\<rparr>)))) = (r, t)"
    obtain cn q where q: "pw_streams s ! i = (cn, q)" by (cases "pw_streams s ! i")
    show "r \<noteq> Panic \<and> stream_grew i s t"
    proof (cases "ev_rounds env n")
      case None
      obtain a b where ab: "relay (pw_client s) q = (a, b)" by (cases "relay (pw_client s) q")
      with relay_out(1) [OF ab] m q None show ?thesis
        by (auto simp: relay_stream_def stream_grew_def)
    next
      case (Some ds)
      with m q relay_rounds_grow [OF q, of ds "pw_client s"] show ?thesis
        by (auto simp: Let_def stream_grew_def split: if_splits)
    qed
  qed
  then show ?thesis unfolding timed_relay_def by (rule uses_awaiting)
qed

lemma uses_handle_tunnel [uses_rules]: "uses_stream i (handle_tunnel env i)"
  unfolding handle_tunnel_def timed_step_def context_of_def by (intro uses_rules)

lemma uses_dispatch_request: "uses_stream i (dispatch_request env i request)"
  unfolding dispatch_request_def send_proxy_error_def send_error_def
  by (cases "pt_mode (pr_target request)") (auto intro!: uses_rules split: timed.split)

lemma refuse_run: "refuse e s = (r, t) \<Longrightarrow>
   r \<noteq> Panic \<and> pw_streams t = pw_streams s \<and> pw_dialled t = pw_dialled s \<and> pw_pool t = pw_pool s"
  using ep_calls_return(2)
  by (auto simp: refuse_def send_proxy_error_def send_error_def pbind_def on_client_def
      split: prod.splits result.splits)

text \<open>
  Between two states of a connection, only nodes that requests may be routed to have been
  dialled, and every stream opened leads to such a node and has been sent its command.
\<close>

definition may_reach :: "i32 option \<Rightarrow> i32 \<Rightarrow> string \<Rightarrow> bool" where
  "may_reach egress node command \<longleftrightarrow> (\<exists>host port. routed egress host port node command)"

definition new_stream_ok :: "environ \<Rightarrow> i32 option \<Rightarrow> conn \<times> endpoint \<Rightarrow> bool" where
  "new_stream_ok env egress s \<longleftrightarrow> (\<exists>command q n. may_reach egress (cn_peer (fst s)) command \<and>
     ev_open env n (fst s) = Inl q \<and> sent_command command q (snd s))"

definition connection_went :: "environ \<Rightarrow> i32 option \<Rightarrow> proxy_world \<Rightarrow> proxy_world \<Rightarrow> bool" where
  "connection_went env egress s t \<longleftrightarrow> (\<exists>dialled streams.
     pw_dialled t = pw_dialled s @ dialled \<and> pw_streams t = pw_streams s @ streams \<and>
     (\<forall>n \<in> set dialled. \<exists>command. may_reach egress n command) \<and>
     (\<forall>x \<in> set streams. new_stream_ok env egress x))"

lemma connection_went_refl:
  "pw_dialled t = pw_dialled s \<Longrightarrow> pw_streams t = pw_streams s \<Longrightarrow> connection_went env egress s t"
  by (simp add: connection_went_def)

lemma connection_went_trans:
  assumes "connection_went env egress s t" and "connection_went env egress t u"
  shows "connection_went env egress s u"
proof -
  obtain d1 n1 where 1: "pw_dialled t = pw_dialled s @ d1" "pw_streams t = pw_streams s @ n1"
      "\<forall>n \<in> set d1. \<exists>command. may_reach egress n command" "\<forall>x \<in> set n1. new_stream_ok env egress x"
    using assms(1) unfolding connection_went_def by blast
  obtain d2 n2 where 2: "pw_dialled u = pw_dialled t @ d2" "pw_streams u = pw_streams t @ n2"
      "\<forall>n \<in> set d2. \<exists>command. may_reach egress n command" "\<forall>x \<in> set n2. new_stream_ok env egress x"
    using assms(2) unfolding connection_went_def by blast
  show ?thesis
    unfolding connection_went_def
    by (rule exI [of _ "d1 @ d2"], rule exI [of _ "n1 @ n2"]) (use 1 2 in auto)
qed

lemma destination_command_routed:
  assumes "destination_ok egress d"
  shows "\<exists>node command via. destination_command egress d =
      (Ok (node, command, via) :: (i32 \<times> string \<times> bool, string) result) \<and>
    may_reach egress node command"
proof (cases d)
  case (WispersNode n port)
  with assms have "routed egress (wispers_host n) port n (forward_command port)"
    by (simp add: routed_def parse_wispers_host_prints)
  with WispersNode show ?thesis by (auto simp: destination_command_def may_reach_def)
next
  case (Internet host port)
  then obtain n where n: "egress = Some n" "parse_wispers_host host = Err None"
    using assms by (auto simp: parse_wispers_host_none)
  then have "routed egress host port n (connect_command host port)" by (simp add: routed_def)
  with Internet n show ?thesis by (auto simp: destination_command_def may_reach_def)
qed

lemma serve_request_went:
  assumes fit: "pool_fit (pw_pool s)" and ok: "request_ok egress request"
    and r: "serve_request env egress request s = (r, t)"
  shows "connection_went env egress s t \<and> pool_fit (pw_pool t) \<and> r \<noteq> Panic"
proof -
  obtain node command via where d:
      "destination_command egress (pt_destination (pr_target request)) =
        (Ok (node, command, via) :: (i32 \<times> string \<times> bool, string) result)"
      "may_reach egress node command"
    using destination_command_routed ok unfolding request_ok_def by metis
  obtain o1 s1 where o1: "open_stream env True node s = (o1, s1)" by (cases "open_stream env True node s")
  note touch = open_stream_touches [OF o1] and peer = open_stream_peer [OF fit o1]
  obtain k where k: "pw_dialled s1 = pw_dialled s @ replicate k node" using touch(3) by blast
  have dialled: "\<forall>n \<in> set (replicate k node). \<exists>command. may_reach egress n command"
    using d(2) by auto
  show ?thesis
  proof (cases o1)
    case Panic
    with peer show ?thesis by simp
  next
    case (Err e)
    then obtain x where "refuse x s1 = (r, t)"
      using r d(1) o1 by (cases e) (simp_all add: serve_request_def pbind_def pcatch_def)
    from refuse_run [OF this] have "r \<noteq> Panic" "pw_pool t = pw_pool s1"
        "pw_dialled t = pw_dialled s @ replicate k node" "pw_streams t = pw_streams s"
      using touch(2) Err k by (simp_all add: stream_opened_def)
    with peer(1) dialled show ?thesis
      unfolding connection_went_def by (intro conjI exI [of _ "replicate k node"] exI [of _ "[]"]) simp_all
  next
    case (Ok i)
    then obtain cn q n where i: "i = length (pw_streams s)" "pw_streams s1 = pw_streams s @ [(cn, q)]"
        "ev_open env n cn = Inl q"
      using touch(2) unfolding stream_opened_def by auto
    have cn: "cn_peer cn = node" using peer(2) [OF Ok] i(1,2) by simp
    obtain c s2 where c: "on_stream i (send_command command) s1 = (c, s2)"
      by (cases "on_stream i (send_command command) s1")
    obtain q2 where q2: "send_command command q = (c, q2)" "s2 = s1\<lparr>pw_streams := pw_streams s @ [(cn, q2)]\<rparr>"
      using on_last_stream [OF i(2)] c i(1) by blast
    have fin: "connection_went env egress s t \<and> pool_fit (pw_pool t) \<and> r \<noteq> Panic"
      if "pw_streams t = pw_streams s @ [(cn, q')]" "sent_command command q q'"
        "pw_dialled t = pw_dialled s1" "pw_pool t = pw_pool s1" "r \<noteq> Panic" for q'
    proof -
      have "new_stream_ok env egress (cn, q')"
        using d(2) cn i(3) that(2) by (auto simp: new_stream_ok_def)
      then show ?thesis
        using that k dialled peer(1) unfolding connection_went_def
        by (intro conjI exI [of _ "replicate k node"] exI [of _ "[(cn, q')]"]) simp_all
    qed
    show ?thesis
    proof (cases c)
      case (Ok u)
      then have dr: "dispatch_request env i request s2 = (r, t)"
        using r d(1) o1 \<open>o1 = result.Ok i\<close> c by (simp add: serve_request_def pbind_def pcatch_def)
      have "i < length (pw_streams s2)" using q2(2) i by simp
      note u = uses_streamD [OF uses_dispatch_request this dr]
      obtain q' where q': "pw_streams t = pw_streams s @ [(cn, q')]" "prefix (ep_out q2) (ep_out q')"
          "pw_dialled t = pw_dialled s2" "pw_pool t = pw_pool s2"
        using u(2) q2(2) i by (auto simp: stream_grew_def)
      have "ep_out q2 = ep_out q @ str_bytes command"
        using send_command_sends(2) [OF q2(1)] Ok by simp
      then have "sent_command command q q'"
        using q'(2) by (auto simp: sent_command_def prefix_def)
      with fin q' u(1) q2(2) show ?thesis by simp
    next
      case (Err e)
      then have "refuse (BadGateway (command_error_text e)) s2 = (r, t)"
        using r d(1) o1 \<open>o1 = result.Ok i\<close> c by (simp add: serve_request_def pbind_def pcatch_def)
      from refuse_run [OF this] fin [of q2] send_command_sends(1) [OF q2(1)] q2(2) show ?thesis by simp
    next
      case Panic
      with send_command_sends(3) [OF q2(1)] show ?thesis by simp
    qed
  qed
qed

lemma read_request_not_panic: "fst (read_request buf ep) \<noteq> Panic"
proof (induction buf ep rule: read_request.induct)
  case (1 buf ep)
  note eq = read_request.simps [of buf ep]
  show ?case
  proof (cases "REQUEST_LIMIT \<le> length buf")
    case True
    with eq show ?thesis by simp
  next
    case False
    obtain rd q where rd: "ep_read (REQUEST_LIMIT - length buf) ep = (rd, q)"
      by (cases "ep_read (REQUEST_LIMIT - length buf) ep")
    then have "rd \<noteq> Panic" by auto
    show ?thesis
    proof (cases "\<exists>bs. rd = Ok bs \<and> bs \<noteq> [] \<and>
        \<not> (4 \<le> length (buf @ bs) \<and> contains (buf @ bs) blank_line)")
      case True
      then obtain bs where bs: "rd = Ok bs" "bs \<noteq> []" "\<not> (4 \<le> length (buf @ bs) \<and> contains (buf @ bs) blank_line)"
        by blast
      then have "read_request buf ep = read_request (buf @ bs) q"
        using eq rd False by (auto split: if_splits)
      with "1.IH" [OF False rd [symmetric, unfolded bs(1)] refl bs(2,3)] show ?thesis by simp
    next
      case f: False
      with eq rd False \<open>rd \<noteq> Panic\<close> show ?thesis by (cases rd) auto
    qed
  qed
qed

lemma serve_next_went:
  assumes fit: "pool_fit (pw_pool s)" and r: "serve_next env httparse egress n s = (r, t)"
  shows "connection_went env egress s t \<and> pool_fit (pw_pool t) \<and> r \<noteq> Panic"
proof -
  obtain rd u where rd: "on_client read_request_bytes s = (rd, u)"
    by (cases "on_client read_request_bytes s")
  note u = on_client_streams [OF rd]
  have rd': "rd \<noteq> Panic"
    using rd read_request_not_panic [of "[]" "pw_client s"]
    by (auto simp: on_client_def read_request_bytes_def split: prod.splits)
  have stay: "connection_went env egress s t \<and> pool_fit (pw_pool t) \<and> r \<noteq> Panic"
    if "refuse e u = (r, t) \<or> r = Ok False \<and> t = u" for e
    using that refuse_run [of e u r t] u fit by (auto intro: connection_went_refl)
  show ?thesis
  proof (cases rd)
    case (Err e)
    with r rd stay [of e] show ?thesis by (auto simp: serve_next_def pcatch_def split: if_splits)
  next
    case (Ok res)
    show ?thesis
    proof (cases res)
      case Closed
      with r rd Ok stay show ?thesis by (auto simp: serve_next_def pcatch_def)
    next
      case (Data buf)
      show ?thesis
      proof (cases "parse_request httparse buf egress")
        case (Ok request)
        then have "serve_request env egress request u = (r, t)"
          using r rd \<open>rd = result.Ok res\<close> Data by (simp add: serve_next_def pcatch_def)
        moreover have "pool_fit (pw_pool u)" using fit u by simp
        ultimately have "connection_went env egress u t \<and> pool_fit (pw_pool t) \<and> r \<noteq> Panic"
          using serve_request_went parse_request_ok [OF Ok] by blast
        moreover have "connection_went env egress s u" using u by (simp add: connection_went_refl)
        ultimately show ?thesis using connection_went_trans by blast
      next
        case (Err e)
        with r rd \<open>rd = result.Ok res\<close> Data stay [of e] show ?thesis
          by (simp add: serve_next_def pcatch_def)
      qed simp
    qed
  qed (use rd' in simp)
qed

lemma serve_requests_went:
  assumes "pool_fit (pw_pool s)" and "serve_requests env httparse egress n s = (r, t)"
  shows "connection_went env egress s t \<and> r \<noteq> Panic"
  using assms
proof (induction env httparse egress n s rule: serve_requests.induct)
  case (1 env httparse egress n s)
  obtain x u where x: "serve_next env httparse egress n s = (x, u)"
    by (cases "serve_next env httparse egress n s")
  note w = serve_next_went [OF "1.prems"(1) x]
  note eq = serve_requests.simps [of env httparse egress n s, unfolded x]
  show ?case
  proof (cases "x = Ok True")
    case True
    then have "serve_requests env httparse egress (n + 1) u = (r, t)"
      using "1.prems"(2) eq by simp
    then have "connection_went env egress u t \<and> r \<noteq> Panic"
      using "1.IH" [OF x [symmetric] True] w by simp
    with w connection_went_trans show ?thesis by blast
  next
    case False
    then have "t = u" "r \<noteq> Panic"
      using "1.prems"(2) eq w by (auto split: result.splits bool.splits)
    with w show ?thesis by simp
  qed
qed

lemma http_connection_went:
  assumes "pool_fit (pw_pool s)" and "handle_http_connection env httparse peer egress s = (r, t)"
  shows "connection_went env egress s t" and "peer \<noteq> Panic \<Longrightarrow> r \<noteq> Panic"
proof -
  have "connection_went env egress s t \<and> (peer \<noteq> Panic \<longrightarrow> r \<noteq> Panic)"
  proof (cases peer)
    case (Ok u)
    with assms(2) have "serve_requests env httparse egress 0 s = (r, t)"
      by (simp add: handle_http_connection_def pbind_def)
    from serve_requests_went [OF assms(1) this] show ?thesis by simp
  qed (use assms(2) in \<open>auto simp: handle_http_connection_def pbind_def intro: connection_went_refl\<close>)
  then show "connection_went env egress s t" "peer \<noteq> Panic \<Longrightarrow> r \<noteq> Panic" by auto
qed

subsection \<open>Reading a request\<close>

text \<open>A request read is the beginning of what the client sends, holds a blank line and fits
  the buffer, whatever the pieces it came in.\<close>

lemma read_request_Data:
  assumes "read_request buf ep = (Ok (Data b), ep')"
  shows "\<exists>more evs. b = buf @ more \<and> ep' = ep\<lparr>ep_in := evs\<rparr> \<and>
    arriving (ep_in ep) = more @ arriving evs \<and> contains b blank_line \<and> length b \<le> REQUEST_LIMIT"
  using assms
proof (induction buf ep rule: read_request.induct)
  case (1 buf ep)
  note eq = read_request.simps [of buf ep]
  have small: "\<not> REQUEST_LIMIT \<le> length buf"
    using "1.prems" eq by (auto split: if_splits)
  obtain rd q1 where rd: "ep_read (REQUEST_LIMIT - length buf) ep = (rd, q1)"
    by (cases "ep_read (REQUEST_LIMIT - length buf) ep")
  have "\<exists>bs. rd = Ok bs \<and> bs \<noteq> []"
    using "1.prems" eq small rd by (cases rd) (auto split: if_splits)
  then obtain bs where bs: "rd = Ok bs" "bs \<noteq> []" by blast
  have len: "length bs \<le> REQUEST_LIMIT - length buf"
    using rd bs by (auto simp: ep_read_def split: list.splits arrival.splits if_splits)
  obtain e1 where e1: "q1 = ep\<lparr>ep_in := e1\<rparr>" "arriving (ep_in ep) = bs @ arriving e1"
    by (rule ep_read_arriving [OF rd [unfolded bs(1)] bs(2)]) (use small in simp_all)
  show ?case
  proof (cases "4 \<le> length (buf @ bs) \<and> contains (buf @ bs) blank_line")
    case True
    then have "b = buf @ bs" "ep' = q1"
      using "1.prems" eq small rd bs by auto
    with True e1 len small show ?thesis
      by (intro exI [of _ bs] exI [of _ e1]) simp
  next
    case False
    then have "read_request (buf @ bs) q1 = (Ok (Data b), ep')"
      using "1.prems" eq small rd bs by (auto split: if_splits)
    from "1.IH" [OF small rd [symmetric] bs False this]
    obtain m e2 where "b = (buf @ bs) @ m" "ep' = q1\<lparr>ep_in := e2\<rparr>"
        "arriving (ep_in q1) = m @ arriving e2" "contains b blank_line" "length b \<le> REQUEST_LIMIT"
      by blast
    with e1 show ?thesis by (intro exI [of _ "bs @ m"] exI [of _ e2]) simp
  qed
qed

subsection \<open>Forwarding a request\<close>

lemma timed_step_Ok:
  assumes "timed_step env m s = (Ok x, t)"
  shows "m (s\<lparr>pw_calls := pw_calls s + 1\<rparr>) = (Ok x, t)"
  using assms by (auto simp: timed_step_def awaiting_def Let_def perr_iff split: if_splits)

lemma context_of_Ok: "context_of w m s = (Ok x, t) \<longleftrightarrow> m s = (Ok x, t)"
  by (simp add: context_of_def perr_iff)

lemma copy_response_closed:
  "copy_response env n q client = (r, n', q', client') \<Longrightarrow> ep_closed q' = ep_closed q"
proof (induction env n q client rule: copy_response.induct)
  case (1 env n q client)
  note eq = copy_response.simps [of env n q client]
  show ?case
  proof (cases "ev_expires env n")
    case True
    with "1.prems" eq show ?thesis by simp
  next
    case False
    obtain rd q1 where rd: "ep_read 8192 q = (rd, q1)" by (cases "ep_read 8192 q")
    have same: "ep_closed q1 = ep_closed q"
      using rd by (auto simp: ep_read_def split: list.splits arrival.splits if_splits)
    show ?thesis
    proof (cases "\<exists>buf. rd = Ok buf \<and> buf \<noteq> [] \<and> \<not> ev_expires env (n + 1)")
      case False
      with "1.prems" eq rd same \<open>\<not> ev_expires env n\<close> show ?thesis
        by (cases rd) (auto split: if_splits)
    next
      case True
      then obtain buf where buf: "rd = Ok buf" "buf \<noteq> []" "\<not> ev_expires env (n + 1)" by blast
      obtain x c where x: "ep_write_all buf client = (x, c)" by (cases "ep_write_all buf client")
      show ?thesis
      proof (cases x)
        case (Ok u)
        then have "copy_response env (n + 2) q1 c = (r, n', q', client')"
          using "1.prems" eq rd buf x False by simp
        with "1.IH" [OF False rd [symmetric, unfolded buf]] buf x Ok same show ?thesis by metis
      qed (use "1.prems" eq rd buf x False same in auto)
    qed
  qed
qed

text \<open>What goes up a stream is the request's head and the end of the stream.\<close>

lemma handle_http_request_sends:
  assumes h: "handle_http_request env i request path s = (Ok (), t)"
    and i: "i < length (pw_streams s)" "pw_streams s ! i = (cn, q)"
  shows "\<exists>q'. pw_streams t ! i = (cn, q') \<and> ep_closed q' \<and>
      ep_out q' = ep_out q @ str_bytes (build_http_request request path)"
    and "client_in t = client_in s"
proof -
  show "client_in t = client_in s"
    using h preservesD [OF handle_http_request_client_in] by blast
  obtain u v where uv: "on_stream i (ep_write_all (str_bytes (build_http_request request path)))
        (s\<lparr>pw_calls := pw_calls s + 1\<rparr>) = (Ok (), u)"
      "on_stream i ep_finish_send (u\<lparr>pw_calls := pw_calls u + 1\<rparr>) = (Ok (), v)"
      "relay_response env i v = (Ok (), t)"
    using h unfolding handle_http_request_def pbind_Ok_iff
    by (auto dest!: timed_step_Ok simp: context_of_Ok)
  obtain q1 where q1: "ep_write_all (str_bytes (build_http_request request path)) q = (Ok (), q1)"
      "pw_streams u = (pw_streams s)[i := (cn, q1)]"
    using uv(1) i(2) by (auto simp: on_stream_def split: prod.splits)
  have out: "ep_out q1 = ep_out q @ str_bytes (build_http_request request path)"
    using ep_write_all_out [OF q1(1)] by simp
  have "pw_streams u ! i = (cn, q1)" using q1(2) i(1) by simp
  then obtain q2 where q2: "ep_finish_send q1 = (Ok (), q2)" "pw_streams v = (pw_streams s)[i := (cn, q2)]"
    using uv(2) q1(2) by (auto simp: on_stream_def split: prod.splits)
  have fin: "ep_closed q2" "ep_out q2 = ep_out q1"
    using q2(1) by (auto simp: ep_finish_send_def split: option.splits)
  have vi: "pw_streams v ! i = (cn, q2)" using q2(2) i(1) by simp
  obtain r n q3 c where c: "copy_response env (pw_calls v) q2 (pw_client v) = (r, n, q3, c)"
    by (cases "copy_response env (pw_calls v) q2 (pw_client v)")
  have "pw_streams t ! i = (cn, q3)"
    using uv(3) vi c q2(2) i(1) by (auto simp: relay_response_def)
  then show "\<exists>q'. pw_streams t ! i = (cn, q') \<and> ep_closed q' \<and>
      ep_out q' = ep_out q @ str_bytes (build_http_request request path)"
    using copy_response_keeps [OF c] copy_response_closed [OF c] fin out by auto
qed

lemma forwarded_headers:
  assumes "parse_request httparse buf egress = Ok r" and "httparse buf = ParseComplete h"
    and "hh_method h \<noteq> Some ''CONNECT''"
  shows "pr_headers r = map (\<lambda>x. (fst x, from_utf8_lossy (snd x)))
      (filter (\<lambda>x. \<not> is_hop_by_hop_header (to_lowercase (fst x))) (hh_headers h)) @
    (if \<exists>x \<in> set (hh_headers h). to_lowercase (fst x) = ''host'' then []
     else [(''Host'', target_host (pt_destination (pr_target r)))])"
  using assms(1)
proof (cases rule: parse_request_Ok_cases)
  case (plain h' verb path version parsed keep host)
  then have "h' = h" using assms(2) by simp
  with plain have parsed: "parsed = map (\<lambda>h. (fst h, from_utf8_lossy (snd h)))
      (filter (\<lambda>h. \<not> is_hop_by_hop_header (to_lowercase (fst h))) (hh_headers h))"
    using collect_headers_filter [of "hh_headers h" "[]" "version = 1" None] by simp
  have "host = None \<longleftrightarrow> (\<forall>x \<in> set (hh_headers h). to_lowercase (fst x) \<noteq> ''host'')"
    using plain(9) \<open>h' = h\<close> collect_headers_host [of "hh_headers h" "[]" "version = 1" None] by simp
  with parsed plain(10) show ?thesis by (cases "host = None") simp_all
qed (use assms in simp)

subsection \<open>The tunnel's timer\<close>

lemma relay_rounds_inward:
  assumes "ep_writes near = []"
  shows "ep_writes (rl_near (relay_rounds ds (relay_start near far))) = [] \<and>
    (\<exists>bs. ep_out (rl_near (relay_rounds ds (relay_start near far))) = ep_out near @ bs \<and>
       prefix bs (arriving (ep_in far)))"
proof -
  let ?inv = "\<lambda>st. ep_writes (rl_near st) = [] \<and> (\<exists>bs. ep_out (rl_near st) = ep_out near @ bs \<and>
      prefix bs (arriving (ep_in far)) \<and>
      (rl_inward st \<longrightarrow> arriving (ep_in far) = bs @ arriving (ep_in (rl_far st))))"
  have round: "?inv (relay_round d st)" if inv: "?inv st" for d st
  proof (cases d)
    case Outward
    obtain b a c where p: "pump_once (rl_near st) (rl_far st) = (b, a, c)"
      by (cases "pump_once (rl_near st) (rl_far st)")
    then have "ep_writes a = ep_writes (rl_near st)" "ep_out a = ep_out (rl_near st)" "ep_in c = ep_in (rl_far st)"
      using pump_once_frame [OF p] by auto
    with p Outward inv show ?thesis
      by (auto simp: relay_round.simps finish_send_closed split: bool.splits)
  next
    case Inward
    obtain b a c where p: "pump_once (rl_far st) (rl_near st) = (b, a, c)"
      by (cases "pump_once (rl_far st) (rl_near st)")
    show ?thesis
    proof (cases "rl_inward st")
      case True
      obtain bs where bs: "ep_out (rl_near st) = ep_out near @ bs"
          "arriving (ep_in far) = bs @ arriving (ep_in (rl_far st))"
        using inv True by blast
      obtain cs where cs: "ep_out c = ep_out (rl_near st) @ cs" "prefix cs (arriving (ep_in (rl_far st)))"
          "b \<longrightarrow> arriving (ep_in (rl_far st)) = cs @ arriving (ep_in a)" "ep_writes c = []"
        using pump_once_out [OF p] inv by blast
      show ?thesis
        using p Inward True bs cs
        by (cases b) (auto simp: relay_round.simps finish_send_closed intro!: exI [of _ "bs @ cs"])
    next
      case False
      with inv Inward show ?thesis by (auto simp: relay_round.simps)
    qed
  qed
  have "?inv (relay_rounds ds st)" if "?inv st" for st
    using that
  proof (induction ds arbitrary: st)
    case (Cons d ds)
    from Cons.IH [OF round [OF Cons.prems]] show ?case by (simp add: relay_rounds_def)
  qed (simp add: relay_rounds_def)
  from this [of "relay_start near far"] assms show ?thesis by (auto simp: relay_start_def)
qed

lemma tunnel_cut_off:
  assumes mode: "pt_mode (pr_target request) = Tunnel"
    and i: "pw_streams s ! i = (cn, q)"
    and quiet: "ep_writes (pw_client s) = []"
    and timer: "\<not> ev_expires env (pw_calls s)" "ev_rounds env (pw_calls s + 1) = Some ds"
      "\<not> relay_over (relay_rounds ds (relay_start
        ((pw_client s)\<lparr>ep_out := ep_out (pw_client s) @ str_bytes tunnel_established\<rparr>) q))"
  shows "\<exists>t bs. dispatch_request env i request s = (Ok False, t) \<and> prefix bs (arriving (ep_in q)) \<and>
    ep_out (pw_client t) = ep_out (pw_client s) @ str_bytes tunnel_established @ bs @
      str_bytes (error_response 504 ''tunnel setup timed out'')"
proof -
  let ?c = "(pw_client s)\<lparr>ep_out := ep_out (pw_client s) @ str_bytes tunnel_established\<rparr>"
  let ?st = "relay_rounds ds (relay_start ?c q)"
  have "ep_writes ?c = []" using quiet by simp
  from relay_rounds_inward [OF this, of ds q] obtain bs where bs: "ep_writes (rl_near ?st) = []"
      "ep_out (rl_near ?st) = ep_out ?c @ bs" "prefix bs (arriving (ep_in q))"
    by blast
  let ?s1 = "s\<lparr>pw_calls := pw_calls s + 1, pw_client := ?c\<rparr>"
  let ?s2 = "s\<lparr>pw_calls := pw_calls s + 2, pw_client := rl_near ?st,
    pw_streams := (pw_streams s)[i := (cn, rl_far ?st)]\<rparr>"
  have "timed_step env (context_of ''failed to send 200 response''
      (on_client (ep_write_all (str_bytes tunnel_established)))) s = (Ok (), ?s1)"
    using timer(1) quiet
    by (simp add: timed_step_def awaiting_def Let_def perr_def context_of_def on_client_def ep_write_all_quiet)
  moreover have "timed_relay env i ?s1 = (Err Elapsed, ?s2)"
    using timer(2,3) i by (simp add: timed_relay_def awaiting_def Let_def)
  ultimately have "handle_tunnel env i s = (Err Elapsed, ?s2)"
    by (simp add: handle_tunnel_def pbind_def)
  then have "dispatch_request env i request s =
      (Ok False, ?s2\<lparr>pw_client := snd (send_proxy_error (GatewayTimeout ''tunnel setup timed out'') (rl_near ?st))\<rparr>)"
    using mode
    by (auto simp: dispatch_request_def pcatch_def pbind_def ignoring_def on_client_def split: prod.splits)
  moreover have "ep_out (snd (send_proxy_error (GatewayTimeout ''tunnel setup timed out'') (rl_near ?st))) =
      ep_out (rl_near ?st) @ str_bytes (error_response 504 ''tunnel setup timed out'')"
    using bs(1) by (simp add: send_proxy_error_def send_error_def ep_write_all_quiet)
  ultimately show ?thesis using bs(2,3) by auto
qed

end
