(* ===== verification/Data_Plane.thy ===== *)
theory Data_Plane
  imports Http_Props Daemon_Props
begin

text \<open>
  The properties of the data plane: the relay, the pool of connections under any interleaving
  of its tasks, the SOCKS5 and the HTTP proxy, the daemon, and how a proxy's commands are
  understood at the other end of a stream.
\<close>

subsection \<open>The relay\<close>

text \<open>
  C21: the relay does not depend on how its two loops are scheduled.  Any order in which both
  loops get as many rounds as there is to read ends with both over; and whenever both are
  over, the two endpoints are what running one loop after the other leaves: when no write
  fails, each has been sent exactly what the other received, and has been told the end.
\<close>

theorem relay_schedule_irrelevant:
  "(pending_size near < count_list ds Outward \<and> pending_size far < count_list ds Inward \<longrightarrow>
      relay_over (relay_rounds ds (relay_start near far))) \<and>
   (relay_over (relay_rounds ds (relay_start near far)) \<longrightarrow>
      (let st = relay_rounds ds (relay_start near far) in
        (rl_near st, rl_far st) = relay near far \<and>
        (ep_writes near = [] \<and> ep_writes far = [] \<and> ep_finish near = None \<and> ep_finish far = None \<longrightarrow>
          ep_out (rl_far st) = ep_out far @ arriving (ep_in near) \<and> ep_closed (rl_far st) \<and>
          ep_out (rl_near st) = ep_out near @ arriving (ep_in far) \<and> ep_closed (rl_near st))))"
proof (intro conjI impI)
  assume "pending_size near < count_list ds Outward \<and> pending_size far < count_list ds Inward"
  then show "relay_over (relay_rounds ds (relay_start near far))"
    using relay_rounds_enough [of near ds far] by (simp add: relay_over_def Let_def split: prod.splits)
next
  assume "relay_over (relay_rounds ds (relay_start near far))"
  then have rel: "relay near far = (rl_near (relay_rounds ds (relay_start near far)),
      rl_far (relay_rounds ds (relay_start near far)))"
    using relay_over_reference by simp
  show "let st = relay_rounds ds (relay_start near far) in
        (rl_near st, rl_far st) = relay near far \<and>
        (ep_writes near = [] \<and> ep_writes far = [] \<and> ep_finish near = None \<and> ep_finish far = None \<longrightarrow>
          ep_out (rl_far st) = ep_out far @ arriving (ep_in near) \<and> ep_closed (rl_far st) \<and>
          ep_out (rl_near st) = ep_out near @ arriving (ep_in far) \<and> ep_closed (rl_near st))"
    using rel relay_out [OF rel] by (auto simp: Let_def)
qed

definition sample_end :: "bytes list \<Rightarrow> endpoint" where
  "sample_end pieces =
     \<lparr>ep_in = map Got pieces, ep_writes = [], ep_finish = None, ep_out = [], ep_closed = False\<rparr>"

theorem relay_schedule_irrelevant_witness:
  "let st = relay_rounds (concat (replicate 9 [Inward, Outward]))
      (relay_start (sample_end [[1, 2], [3]]) (sample_end [[4]]))
   in ep_out (rl_far st) = [1, 2, 3] \<and> ep_out (rl_near st) = [4] \<and> ep_closed (rl_far st)"
proof -
  let ?near = "sample_end [[1, 2], [3]]" and ?far = "sample_end [[4]]"
  let ?ds = "concat (replicate 9 [Inward, Outward])"
  have "pending_size ?near < count_list ?ds Outward" "pending_size ?far < count_list ?ds Inward"
    by (simp_all add: pending_size_def sample_end_def numeral_eq_Suc)
  with relay_schedule_irrelevant [of ?near ?ds ?far] show ?thesis
    by (simp add: Let_def sample_end_def del: concat.simps replicate_Suc)
qed

subsection \<open>The pool\<close>

definition dialling :: "pool_sys \<Rightarrow> i32 \<Rightarrow> nat \<Rightarrow> bool" where
  "dialling s node t \<longleftrightarrow> (\<exists>tk c. py_tasks s t = Some tk \<and> tk_node tk = node \<and> tk_at tk = Connecting c)"

text \<open>
  C19: however the tasks that share the pool are interleaved, cancelled and cleaned up after,
  at most one of them is connecting to a given node, and the cell it fills is the one that
  the pool hands to whoever asks for that node next.
\<close>

theorem one_dial_per_node:
  "let s = run_events pool_step evs pool_sys_start in
     (\<exists>\<^sub>\<le>\<^sub>1 t. dialling s node t) \<and>
     (dialling s node t \<longrightarrow> (\<exists>tk e. py_tasks s t = Some tk \<and> pl_connections (py_pool s) node = Some e \<and>
        tk_at tk = Connecting (pe_cell e)))"
proof -
  let ?s = "run_events pool_step evs pool_sys_start"
  obtain home where ok: "pool_ok home ?s"
    using reachable_pool_inv [of evs] by (auto simp: pool_inv_def)
  have at: "\<exists>tk e. py_tasks ?s t = Some tk \<and> pl_connections (py_pool ?s) node = Some e \<and>
      tk_at tk = Connecting (pe_cell e) \<and> pl_cells (py_pool ?s) (pe_cell e) = Initialising t"
    if d: "dialling ?s node t" for t
  proof -
    obtain tk c where tk: "py_tasks ?s t = Some tk" "tk_node tk = node" "tk_at tk = Connecting c"
      using d by (auto simp: dialling_def)
    have p: "c < pl_next (py_pool ?s)" "home c = node" "pl_cells (py_pool ?s) c = Initialising t"
      using pool_okD(3) [OF ok tk(1)] tk by (auto simp: task_ok_def)
    then obtain e where "pl_connections (py_pool ?s) node = Some e" "pe_cell e = c"
      using pool_okD(2) [OF ok] by (auto simp: cells_ok_def)
    with tk p show ?thesis by auto
  qed
  have "\<exists>\<^sub>\<le>\<^sub>1 t. dialling ?s node t"
  proof (rule Uniq_I)
    fix t u
    assume "dialling ?s node t" "dialling ?s node u"
    from at [OF this(1)] at [OF this(2)] show "u = t" by auto
  qed
  moreover have "dialling ?s node t \<longrightarrow> (\<exists>tk e. py_tasks ?s t = Some tk \<and>
      pl_connections (py_pool ?s) node = Some e \<and> tk_at tk = Connecting (pe_cell e))"
    using at [of t] by blast
  ultimately show ?thesis by (simp only: Let_def)
qed

lemma first_dial:
  "dialling (run_events pool_step [Enter 0 7, Lookup 0 5, PollCell 0] pool_sys_start) 7 0"
  by (simp add: pool_step_def pool_sys_start_def enter_task_def next_round_def set_task_def set_pool_def
      pool_new_def pool_lookup_def set_cell_def dialling_def)

theorem one_dial_per_node_witness:
  "let s = run_events pool_step [Enter 0 7, Lookup 0 5, PollCell 0] pool_sys_start in
     (\<exists>\<^sub>\<le>\<^sub>1 t. dialling s 7 t) \<and> (\<exists>e. pl_connections (py_pool s) 7 = Some e)"
  using one_dial_per_node [of "[Enter 0 7, Lookup 0 5, PollCell 0]" 7 0] first_dial
  unfolding Let_def by blast

text \<open>
  A task that has come to the end of \<open>open_stream\<close> never panicked on the missing error,
  made at most two rounds, and when it has a stream, the stream is on a connection to the
  node that this task asked for, whichever task made the connection.
\<close>

theorem streams_reach_their_node:
  assumes "py_tasks (run_events pool_step evs pool_sys_start) t = Some tk" and "tk_at tk = Finished r"
  shows "r \<noteq> Panic \<and> tk_round tk \<le> 2 \<and> (\<forall>cn. r = Ok cn \<longrightarrow> cn_peer cn = tk_node tk)"
proof -
  obtain home where ok: "pool_ok home (run_events pool_step evs pool_sys_start)"
    using reachable_pool_inv [of evs] by (auto simp: pool_inv_def)
  from pool_okD(3) [OF ok assms(1)] assms(2) show ?thesis by (simp add: task_ok_def)
qed

lemmas pool_eval = pool_step_def pool_sys_start_def enter_task_def next_round_def set_task_def
  set_pool_def pool_new_def pool_lookup_def set_cell_def pool_evict_def cleanup_idle_def keep_entry_def
  IDLE_TIMEOUT_def Let_def

text \<open>Two tasks share a connection that the first of them made.\<close>

definition shared_run :: "pool_event list" where
  "shared_run = [Enter 0 7, Lookup 0 5, PollCell 0, Enter 1 7, Lookup 1 6, Dialled 0 (Inl 3),
     PollCell 1, Opened 1 None]"

lemma shared_run_ends:
  "py_tasks (run_events pool_step shared_run pool_sys_start) 1 =
     Some \<lparr>tk_node = 7, tk_round = 1, tk_stream_err = None,
       tk_at = Finished (Ok \<lparr>cn_handle = 3, cn_peer = 7\<rparr>)\<rparr>"
  by (simp add: shared_run_def pool_eval)

theorem streams_reach_their_node_witness:
  "\<exists>tk cn. py_tasks (run_events pool_step shared_run pool_sys_start) 1 = Some tk \<and>
     tk_at tk = Finished (Ok cn) \<and> cn_peer cn = 7 \<and> tk_round tk \<le> 2"
  using streams_reach_their_node [OF shared_run_ends refl [THEN trans]] shared_run_ends by simp

text \<open>
  Nothing takes the pool's entry of a node away but the two sections written for it: the
  cleaner, when the entry's connection is there and nobody has looked it up for a minute, and
  a task for that node that failed to open a stream on this very connection.
\<close>

theorem entries_go_for_cause:
  assumes "pl_connections (py_pool s) node = Some e"
  shows "(\<exists>e'. pl_connections (py_pool (pool_step ev s)) node = Some e' \<and> pe_cell e' = pe_cell e \<and>
        (e' = e \<or> (\<exists>t now. ev = Lookup t now \<and> pe_last_used e' = now))) \<or>
    (\<exists>now cn. ev = Cleanup now \<and> IDLE_TIMEOUT \<le> now - pe_last_used e \<and>
        pl_cells (py_pool s) (pe_cell e) = Ready cn) \<or>
    (\<exists>t tk x. ev = Evict t \<and> py_tasks s t = Some tk \<and> tk_node tk = node \<and> tk_at tk = Evicting (pe_cell e) x)"
proof (cases ev)
  case (Cleanup now)
  with assms show ?thesis
    by (auto simp: pool_step_def set_pool_def cleanup_idle_def keep_entry_def split: cell.splits)
next
  case (Enter t n)
  with assms show ?thesis by (simp add: pool_step_def set_task_def)
next
  case (Lookup t now)
  with assms show ?thesis
    by (auto simp: pool_step_def set_task_def set_pool_def pool_lookup_def
        split: option.splits prod.splits task_point.splits)
next
  case (Evict t)
  with assms show ?thesis
    by (auto simp: pool_step_def set_task_def set_pool_def pool_evict_def
        split: option.splits task_point.splits)
qed (use assms in \<open>auto simp: pool_step_def set_task_def set_pool_def set_cell_def Let_def
    split: option.splits task_point.splits cell.splits sum.splits\<close>)

theorem entries_go_for_cause_witness:
  "\<exists>e. pl_connections (py_pool (run_events pool_step shared_run pool_sys_start)) 7 = Some e \<and>
     pl_connections (py_pool (pool_step (Evict 1) (run_events pool_step shared_run pool_sys_start))) 7 = Some e"
proof -
  let ?s = "run_events pool_step shared_run pool_sys_start"
  obtain e where e: "pl_connections (py_pool ?s) 7 = Some e"
    by (simp add: shared_run_def pool_eval)
  from entries_go_for_cause [OF e, of "Evict 1"] e shared_run_ends show ?thesis by auto
qed

text \<open>
  Who still shares a connection: the pool's entries, and the tasks between their lookup and
  the end of \<open>open_stream\<close>.  A stream does not; it holds the connection's inner state, which
  dropping the last share shuts down (\<open>Quic.drop_connection\<close>).
\<close>

definition shared_by :: "pool_sys \<Rightarrow> conn \<Rightarrow> bool" where
  "shared_by s cn \<longleftrightarrow>
     (\<exists>n e. pl_connections (py_pool s) n = Some e \<and> pl_cells (py_pool s) (pe_cell e) = Ready cn) \<or>
     (\<exists>t tk c. py_tasks s t = Some tk \<and> pl_cells (py_pool s) c = Ready cn \<and>
        (tk_at tk = AtCell c \<or> (\<exists>cn'. tk_at tk = Opening c cn') \<or> (\<exists>x. tk_at tk = Evicting c x)))"

text \<open>
  C38: the cleaner ends connections that carry streams.  Whatever a stream is used for, a
  minute after the last \<open>open_stream\<close> to its node the cleaner drops the last share of the
  connection that it is on.
\<close>

theorem cleaner_abandons_open_streams:
  assumes "IDLE_TIMEOUT \<le> now - opened_at"
  shows "let s = run_events pool_step
      [Enter t node, Lookup t opened_at, PollCell t, Dialled t (Inl h), Opened t None] pool_sys_start;
      cn = \<lparr>cn_handle = h, cn_peer = node\<rparr> in
    (\<exists>tk. py_tasks s t = Some tk \<and> tk_at tk = Finished (Ok cn)) \<and> shared_by s cn \<and>
    \<not> shared_by (pool_step (Cleanup now) s) cn"
  using assms by (auto simp: pool_eval shared_by_def)

theorem cleaner_abandons_open_streams_witness:
  "let s = run_events pool_step
      [Enter 0 7, Lookup 0 0, PollCell 0, Dialled 0 (Inl 3), Opened 0 None] pool_sys_start;
      cn = \<lparr>cn_handle = 3, cn_peer = 7\<rparr> in
    shared_by s cn \<and> \<not> shared_by (pool_step (Cleanup 60000) s) cn"
  using cleaner_abandons_open_streams [of 60000 0 0 7 3] by (simp add: IDLE_TIMEOUT_def Let_def)


text \<open>
  C20: \<open>open_stream\<close>, as a proxy's task runs it when no other task comes between, is a run of
  the pool's sections: it leaves the pool that they leave, and ends where they end, with the
  same stream, error or cancellation.
\<close>

theorem open_stream_refines_pool:
  assumes "settled (pw_pool s)" and "open_stream env under_timer node s = (r, s')"
  shows "\<exists>evs tk. run_events pool_step evs (alone (pw_pool s) (enter_task node)) = alone (pw_pool s') tk \<and>
    tk_at tk = end_point r (pw_streams s') \<and> tk_node tk = node"
  using open_stream_run [OF assms] by blast

text \<open>A world in which every call answers at once, with the streams \<open>q\<close> to every peer.\<close>

definition calm :: "endpoint \<Rightarrow> environ" where
  "calm q = \<lparr>ev_now = (\<lambda>n. n), ev_dial = (\<lambda>_ _. Inl 3), ev_open = (\<lambda>_ _. Inl q),
     ev_expires = (\<lambda>_. False), ev_rounds = (\<lambda>_. None)\<rparr>"

definition fresh_world :: "endpoint \<Rightarrow> proxy_world" where
  "fresh_world client = \<lparr>pw_client = client, pw_pool = pool_new, pw_streams = [], pw_dialled = [], pw_calls = 0\<rparr>"

lemma fresh_world_fit: "pool_fit (pw_pool (fresh_world client))" "settled (pw_pool (fresh_world client))"
  using pool_fit_new by (simp_all add: fresh_world_def pool_fit_def)

theorem open_stream_refines_pool_witness:
  "\<exists>evs tk (s' :: proxy_world).
    run_events pool_step evs (alone pool_new (enter_task 7)) = alone (pw_pool s') tk \<and>
    pw_streams s' = [(\<lparr>cn_handle = 3, cn_peer = 7\<rparr>, sample_end [])] \<and>
    tk_at tk = Finished (Ok \<lparr>cn_handle = 3, cn_peer = 7\<rparr>)"
proof -
  let ?w = "fresh_world (sample_end [])"
  obtain s' where "open_stream (calm (sample_end [])) True 7 ?w = (Ok 0, s')"
      "pw_streams s' = [(\<lparr>cn_handle = 3, cn_peer = 7\<rparr>, sample_end [])]"
    by (rule open_stream_first [of ?w 7 "calm (sample_end [])" 3 "sample_end []"])
      (simp_all add: fresh_world_def pool_new_def calm_def)
  moreover from open_stream_refines_pool [OF fresh_world_fit(2) this(1)] obtain evs tk where
      "run_events pool_step evs (alone pool_new (enter_task 7)) = alone (pw_pool s') tk"
      "tk_at tk = end_point (Ok 0) (pw_streams s')"
    by (auto simp: fresh_world_def)
  ultimately show ?thesis by (intro exI [of _ evs] exI [of _ tk] exI [of _ s']) auto
qed

subsection \<open>SOCKS5\<close>

text \<open>
  C22: the parser of a SOCKS5 request accepts exactly the CONNECT requests of RFC 1928 - any
  reserved byte, an IPv4 or IPv6 address or a domain name in UTF-8 - however the bytes are
  cut into pieces, returns the address as text with the port, and leaves in the socket
  exactly what follows the request.
\<close>

theorem socks_requests_are_rfc1928:
  assumes "unbroken (ep_in ep)"
  shows "(\<exists>evs. handle_connect_request ep = (Ok \<lparr>cr_host = host, cr_port = port\<rparr>, ep\<lparr>ep_in := evs\<rparr>) \<and>
       arriving evs = rest) \<longleftrightarrow>
    (\<exists>rsv addr. address_ok addr \<and> host = address_text addr \<and>
       arriving (ep_in ep) = build_connect rsv addr port @ rest)"
proof (intro iffI; elim exE conjE)
  fix evs
  assume h: "handle_connect_request ep = (Ok \<lparr>cr_host = host, cr_port = port\<rparr>, ep\<lparr>ep_in := evs\<rparr>)"
    and evs: "arriving evs = rest"
  obtain rsv addr evs' where "address_ok addr" "host = address_text addr"
      "ep\<lparr>ep_in := evs\<rparr> = ep\<lparr>ep_in := evs'\<rparr>"
      "arriving (ep_in ep) = build_connect rsv addr port @ arriving evs'"
    using h by (rule connect_request_Ok) simp
  moreover from this(3) have "evs' = evs" by (metis endpoint.ext_inject endpoint.update_convs(1) endpoint.surjective)
  ultimately show "\<exists>rsv addr. address_ok addr \<and> host = address_text addr \<and>
      arriving (ep_in ep) = build_connect rsv addr port @ rest"
    using evs by blast
next
  fix rsv addr
  assume a: "address_ok addr" "host = address_text addr"
      "arriving (ep_in ep) = build_connect rsv addr port @ rest"
  obtain evs where "handle_connect_request ep =
      (Ok \<lparr>cr_host = address_text addr, cr_port = port\<rparr>, ep\<lparr>ep_in := evs\<rparr>)" "arriving evs = rest"
    by (rule connect_request_encoded [OF assms a(3,1)])
  with a(2) show "\<exists>evs. handle_connect_request ep =
      (Ok \<lparr>cr_host = host, cr_port = port\<rparr>, ep\<lparr>ep_in := evs\<rparr>) \<and> arriving evs = rest"
    by (intro exI [of _ evs]) simp
qed

theorem socks_requests_are_rfc1928_witness:
  "\<exists>evs. handle_connect_request (sample_end [[5, 1], [0, 1, 127, 0, 0], [1, 0, 80, 71]]) =
     (Ok \<lparr>cr_host = ''127.0.0.1'', cr_port = 80\<rparr>,
      sample_end [[5, 1], [0, 1, 127, 0, 0], [1, 0, 80, 71]]\<lparr>ep_in := evs\<rparr>) \<and> arriving evs = [71]"
proof -
  let ?ep = "sample_end [[5, 1], [0, 1, 127, 0, 0], [1, 0, 80, 71]]"
  have "address_ok (V4 [127, 0, 0, 1])" by simp
  moreover have "address_text (V4 [127, 0, 0, 1]) = ''127.0.0.1''" by code_simp
  moreover have "arriving (ep_in ?ep) = build_connect 0 (V4 [127, 0, 0, 1]) 80 @ [71]" by code_simp
  moreover have "unbroken (ep_in ?ep)" by (simp add: sample_end_def)
  ultimately show ?thesis
    using socks_requests_are_rfc1928 [of ?ep "''127.0.0.1''" 80 "[71]"] by metis
qed


text \<open>
  C17: a SOCKS5 client's connection reaches nothing but what its request names.  Either nothing
  is dialled and no stream is opened; or the client has sent a well-formed request, and only
  the node that its host name denotes - or the egress node, for names that are not ours - was
  dialled, at most twice, at most one stream was opened, it leads to that node, and what it
  was sent begins with the command for the host and port of the request.
\<close>

theorem socks_goes_where_asked:
  assumes "pool_fit (pw_pool s)" and "handle_client_connection env peer egress s = (r, s')"
  shows "pw_dialled s' = pw_dialled s \<and> pw_streams s' = pw_streams s \<or>
    (\<exists>greeting rsv addr port rest node command.
       arriving (ep_in (pw_client s)) = greeting @ build_connect rsv addr port @ rest \<and>
       address_ok addr \<and> routed egress (address_text addr) port node command \<and>
       went_to env node command s s')"
  by (rule socks_connection_went [OF assms])

text \<open>
  A SOCKS5 connection is transparent.  With a client that offers no authentication in one
  piece, a peer that accepts the command, and no failure, the client receives the two answers
  of the protocol and then exactly what the peer sent, the peer exactly the command and what
  the client sent after its request, and both are told the end.
\<close>

theorem socks_tunnel_is_transparent:
  assumes "polite_client (pw_client s) methods (build_connect rsv addr port @ payload)"
    and "address_ok addr" and "routed egress (address_text addr) port node command"
    and "pl_connections (pw_pool s) node = None" and "pl_cells (pw_pool s) (pl_next (pw_pool s)) = Vacant"
    and "\<And>n. \<not> ev_expires env n" and "\<And>n. ev_dial env n node = Inl h"
    and "\<And>n. ev_open env n \<lparr>cn_handle = h, cn_peer = node\<rparr> = Inl q" and "accepting_stream q answer"
  shows "\<exists>s' q'. handle_client_connection env (Ok ()) egress s = (Ok (), s') \<and>
    ep_out (pw_client s') = ep_out (pw_client s) @ [SOCKS_VERSION, AUTH_NOAUTH] @
      reply_bytes REP_SUCCESS @ arriving answer \<and>
    pw_streams s' = pw_streams s @ [(\<lparr>cn_handle = h, cn_peer = node\<rparr>, q')] \<and>
    ep_out q' = str_bytes command @ payload \<and> ep_closed (pw_client s') \<and> ep_closed q'"
  by (rule socks_connection_transparent [OF assms])

text \<open>A client that asks for port 80 of node 7, and a node that accepts and answers.\<close>

definition socks_sample :: endpoint where
  "socks_sample = sample_end [[5, 1, 0], build_connect 0 (Name (wispers_host 7)) 80, [71, 69, 84]]"

definition ok_stream :: endpoint where
  "ok_stream = sample_end [str_bytes (''OK'' @ [CHR 0x0A]), [72, 73]]"

lemma socks_sample_polite:
  "polite_client (pw_client (fresh_world socks_sample)) [0] (build_connect 0 (Name (wispers_host 7)) 80 @ [71, 69, 84])"
  by (simp add: polite_client_def fresh_world_def socks_sample_def sample_end_def SOCKS_VERSION_def AUTH_NOAUTH_def
      build_connect_def)

lemma socks_sample_routed:
  "address_ok (Name (wispers_host 7))"
  "routed None (address_text (Name (wispers_host 7))) 80 7 (forward_command 80)"
proof -
  show "address_ok (Name (wispers_host 7))" by code_simp
  have "parse_wispers_host (wispers_host 7) = Ok 7" by (rule parse_wispers_host_prints) simp
  then show "routed None (address_text (Name (wispers_host 7))) 80 7 (forward_command 80)"
    by (simp add: routed_def)
qed

lemma fresh_world_run:
  "pl_connections (pw_pool (fresh_world c)) n = None"
  "pl_cells (pw_pool (fresh_world c)) k = Vacant"
  "\<not> ev_expires (calm q) n'" "ev_dial (calm q) n' n = Inl 3" "ev_open (calm q) n' cn = Inl q"
  by (simp_all add: fresh_world_def pool_new_def calm_def)

lemma ok_stream_accepting: "accepting_stream ok_stream [Got [72, 73]]"
  by (simp add: accepting_stream_def ok_stream_def sample_end_def)

theorem socks_tunnel_is_transparent_witness:
  "\<exists>s' q'. handle_client_connection (calm ok_stream) (Ok ()) None (fresh_world socks_sample) = (Ok (), s') \<and>
    ep_out (pw_client s') = [5, 0] @ reply_bytes REP_SUCCESS @ [72, 73] \<and>
    pw_streams s' = [(\<lparr>cn_handle = 3, cn_peer = 7\<rparr>, q')] \<and>
    ep_out q' = str_bytes (forward_command 80) @ [71, 69, 84]"
  using socks_tunnel_is_transparent [OF socks_sample_polite socks_sample_routed fresh_world_run(1-5) ok_stream_accepting]
  by (auto simp: fresh_world_def socks_sample_def sample_end_def SOCKS_VERSION_def AUTH_NOAUTH_def)

theorem socks_goes_where_asked_witness:
  "\<exists>s' greeting rsv addr port rest node command.
     handle_client_connection (calm ok_stream) (Ok ()) None (fresh_world socks_sample) = (Ok (), s') \<and>
     arriving (ep_in socks_sample) = greeting @ build_connect rsv addr port @ rest \<and>
     routed None (address_text addr) port node command \<and>
     went_to (calm ok_stream) node command (fresh_world socks_sample) s'"
proof -
  obtain s' q' where run: "handle_client_connection (calm ok_stream) (Ok ()) None (fresh_world socks_sample) = (Ok (), s')"
      "pw_streams s' = pw_streams (fresh_world socks_sample) @ [(\<lparr>cn_handle = 3, cn_peer = 7\<rparr>, q')]"
    using socks_connection_transparent [OF socks_sample_polite socks_sample_routed fresh_world_run(1-5) ok_stream_accepting]
    by blast
  moreover have "ep_in socks_sample = ep_in (pw_client (fresh_world socks_sample))"
    by (simp add: fresh_world_def)
  ultimately show ?thesis
    using socks_goes_where_asked [OF fresh_world_fit(1) run(1)] by (simp only:) fastforce
qed


subsection \<open>The daemon\<close>


text \<open>
  A port list parses to what its entries say: blank entries are skipped, the first entry
  that is not a port number is reported, and a list with no entry at all - not only the empty
  string - allows every port.
\<close>

theorem port_list_parses:
  "allowed_ports_parse s = (case find (\<lambda>p. parse_u16 p = None) (port_entries s) of
     Some p \<Rightarrow> Err (''invalid port number: '' @ p)
   | None \<Rightarrow> if port_entries s = [] then Ok AllPorts
       else Ok (Whitelist {w. \<exists>p \<in> set (port_entries s). parse_u16 p = Some w}))"
  by (rule allowed_ports_parse_spec)

theorem port_list_parses_witness:
  "allowed_ports_parse '','' = Ok AllPorts \<and> allowed_ports_parse [] = Ok AllPorts"
proof -
  have "trim [] = []" using trim_infix [of "[]"] by simp
  then have "port_entries '','' = []" "port_entries [] = []"
    by (simp_all add: port_entries_def)
  then show ?thesis
    using port_list_parses [of "'',''"] port_list_parses [of "[]"] by simp
qed

lemma serve_forward_run:
  assumes "commanded q (forward_command port) rest"
  shows "serve_stream connect policy q = snd (handle_forward_stream connect (po_allowed_ports policy) port
      \<lparr>sw_stream = q\<lparr>ep_in := rest\<rparr>, sw_tcp = None, sw_connects = []\<rparr>)"
  by (rule serve_forward [where tail = "[CHR 0x0A]"]) (use assms in \<open>simp_all add: forward_command_def\<close>)

lemma serve_forward_ok:
  assumes "commanded q (forward_command port) rest" and "connect (local_target port) = Inl tcp"
    and "ep_writes tcp = []" and "port_allowed (po_allowed_ports policy) port"
  shows "let s = serve_stream connect policy q in sw_connects s = [local_target port] \<and>
      ep_out (sw_stream s) = str_bytes (''OK'' @ [CHR 0x0A]) @ arriving (ep_in tcp) \<and>
      (\<exists>t. sw_tcp s = Some t \<and> ep_out t = ep_out tcp @ arriving rest)"
proof -
  let ?s0 = "\<lparr>sw_stream = q\<lparr>ep_in := rest\<rparr>, sw_tcp = None, sw_connects = []\<rparr>"
  have q: "ep_writes q = []" "ep_finish q = None" "ep_out q = []"
    using assms(1) by (auto simp: commanded_def)
  obtain q' t where "snd (connect_and_relay connect (local_target port) ?s0) =
      ?s0\<lparr>sw_connects := sw_connects ?s0 @ [local_target port], sw_stream := q', sw_tcp := Some t\<rparr>"
      "ep_out q' = ep_out (sw_stream ?s0) @ str_bytes (''OK'' @ [CHR 0x0A]) @ arriving (ep_in tcp)"
      "ep_out t = ep_out tcp @ arriving (ep_in (sw_stream ?s0))"
    using connect_and_relay_ok [of connect "local_target port" tcp ?s0] assms(2,3) q by auto
  with serve_forward_run [OF assms(1)] assms(4) q show ?thesis
    by (simp add: handle_forward_stream_def)
qed

text \<open>
  The FORWARD command a proxy sends is the one the daemon carries out.  When the daemon
  forwards the port, it connects to that port on the loopback address, and the stream gets
  \<open>OK\<close>, which the proxy takes for acceptance, and then exactly what the service sends, the
  service exactly what follows the command; else nothing is connected and the proxy reads the
  refusal as such.
\<close>

theorem forward_commands_arrive:
  assumes "commanded q (forward_command port) rest"
    and "connect (local_target port) = Inl tcp" and "ep_writes tcp = []"
  shows "let s = serve_stream connect policy q in
    if port_allowed (po_allowed_ports policy) port
    then sw_connects s = [local_target port] \<and>
      ep_out (sw_stream s) = str_bytes (''OK'' @ [CHR 0x0A]) @ arriving (ep_in tcp) \<and>
      command_response (str_bytes (''OK'' @ [CHR 0x0A])) = Ok () \<and>
      (\<exists>t. sw_tcp s = Some t \<and> ep_out t = ep_out tcp @ arriving rest)
    else sw_connects s = [] \<and> ep_closed (sw_stream s) \<and>
      command_response (ep_out (sw_stream s)) = Err (Rejected ''port not allowed'')"
proof (cases "port_allowed (po_allowed_ports policy) port")
  case True
  with serve_forward_ok [of q port rest connect tcp policy] assms command_response_OK show ?thesis by (simp add: Let_def)
next
  case False
  let ?s0 = "\<lparr>sw_stream = q\<lparr>ep_in := rest\<rparr>, sw_tcp = None, sw_connects = []\<rparr>"
  have "ep_writes q = []" "ep_finish q = None" "ep_out q = []"
    using assms(1) by (auto simp: commanded_def)
  with False serve_forward_run [OF assms(1)] port_denied_rejected handle_forward_denied [OF False, of ?s0 connect]
  show ?thesis by (simp add: Let_def)
qed

lemma i32_7: "i32_to_string 7 = ''7''"
  by code_simp

lemma u16_80: "u16_to_string 80 = ''80''"
  by code_simp

definition commanded_stream :: "string \<Rightarrow> bytes \<Rightarrow> endpoint" where
  "commanded_stream text tail = sample_end [str_bytes text, tail]"

definition echo_service :: endpoint where
  "echo_service = sample_end [[72, 73]]"

lemma commanded_sample:
  "text \<noteq> [] \<Longrightarrow> length text \<le> 1024 \<Longrightarrow> commanded (commanded_stream text tail) text [Got tail]"
  by (simp add: commanded_def commanded_stream_def sample_end_def)

lemma forward_80: "forward_command 80 \<noteq> []" "length (forward_command 80) \<le> 1024"
  by code_simp+

theorem forward_commands_arrive_witness:
  "let s = serve_stream (\<lambda>_. Inl echo_service)
      \<lparr>po_allowed_ports = Some (Whitelist {80}), po_allow_egress = False\<rparr>
      (commanded_stream (forward_command 80) [71])
   in sw_connects s = [local_target 80] \<and>
     ep_out (sw_stream s) = str_bytes (''OK'' @ [CHR 0x0A]) @ [72, 73] \<and>
     (\<exists>t. sw_tcp s = Some t \<and> ep_out t = [71])"
  using forward_commands_arrive [OF commanded_sample [OF forward_80], of "\<lambda>_. Inl echo_service" echo_service
      "\<lparr>po_allowed_ports = Some (Whitelist {80}), po_allow_egress = False\<rparr>" "[71]"]
  by (simp add: Let_def port_allowed_def is_allowed_def echo_service_def sample_end_def)

text \<open>
  The CONNECT command a proxy sends is the one the daemon carries out, for every host name
  of visible characters in UTF-8: with egress on it connects to the host and port named and
  relays; else it connects to nothing and the proxy is refused.
\<close>

theorem connect_commands_arrive:
  assumes "commanded q (connect_command host port) rest" and "host \<noteq> []" and "visible (hd host)"
    and "CHR 0x0A \<notin> set host" and "utf8_valid (str_bytes host)"
    and "connect (HostPort host port) = Inl tcp" and "ep_writes tcp = []"
  shows "let s = serve_stream connect policy q in
    if po_allow_egress policy
    then sw_connects s = [HostPort host port] \<and>
      ep_out (sw_stream s) = str_bytes (''OK'' @ [CHR 0x0A]) @ arriving (ep_in tcp) \<and>
      (\<exists>t. sw_tcp s = Some t \<and> ep_out t = ep_out tcp @ arriving rest)
    else sw_connects s = [] \<and> ep_closed (sw_stream s) \<and>
      ep_out (sw_stream s) = str_bytes (''ERROR egress not allowed'' @ [CHR 0x0A])"
proof -
  let ?s0 = "\<lparr>sw_stream = q\<lparr>ep_in := rest\<rparr>, sw_tcp = None, sw_connects = []\<rparr>"
  have q: "ep_writes q = []" "ep_finish q = None" "ep_out q = []"
    using assms(1) by (auto simp: commanded_def)
  note run = serve_connect [OF assms(1-5), of connect policy]
  show ?thesis
  proof (cases "po_allow_egress policy")
    case True
    obtain q' t where "snd (connect_and_relay connect (HostPort host port) ?s0) =
        ?s0\<lparr>sw_connects := sw_connects ?s0 @ [HostPort host port], sw_stream := q', sw_tcp := Some t\<rparr>"
        "ep_out q' = ep_out (sw_stream ?s0) @ str_bytes (''OK'' @ [CHR 0x0A]) @ arriving (ep_in tcp)"
        "ep_out t = ep_out tcp @ arriving (ep_in (sw_stream ?s0))"
      using connect_and_relay_ok [of connect "HostPort host port" tcp ?s0] assms(6,7) q by auto
    with run True q show ?thesis by simp
  next
    case False
    with run q show ?thesis by (simp add: answer_line_run ep_calls_out Let_def)
  qed
qed

theorem connect_commands_arrive_witness:
  "let s = serve_stream (\<lambda>_. Inl echo_service) \<lparr>po_allowed_ports = None, po_allow_egress = True\<rparr>
      (commanded_stream (connect_command ''a.org'' 443) [71])
   in sw_connects s = [HostPort ''a.org'' 443] \<and>
     ep_out (sw_stream s) = str_bytes (''OK'' @ [CHR 0x0A]) @ [72, 73]"
proof -
  have c: "connect_command ''a.org'' 443 \<noteq> []" "length (connect_command ''a.org'' 443) \<le> 1024"
    by code_simp+
  have "utf8_valid (str_bytes ''a.org'')" by (rule utf8_valid_ascii) simp
  with connect_commands_arrive [OF commanded_sample [OF c], of "\<lambda>_. Inl echo_service" echo_service
      "\<lparr>po_allowed_ports = None, po_allow_egress = True\<rparr>" "[71]"]
  show ?thesis
    by (simp add: Let_def echo_service_def sample_end_def visible_def)
qed


text \<open>
  C16: proxy and daemon compose.  When a SOCKS5 client asks for a port of a node whose daemon
  forwards it, and each side reads what the other wrote, the service on the other end receives
  exactly what the client sent after its request, and the client, after the two answers of
  the protocol, exactly what the service sent; the daemon connected to nothing but that port.
\<close>

theorem socks_client_meets_service:
  assumes "polite_client (pw_client s) methods (build_connect rsv addr port @ payload)"
    and "address_ok addr" and "parse_wispers_host (address_text addr) = Ok node"
    and "pl_connections (pw_pool s) node = None" and "pl_cells (pw_pool s) (pl_next (pw_pool s)) = Vacant"
    and "\<And>n. \<not> ev_expires env n" and "\<And>n. ev_dial env n node = Inl h"
    and "\<And>n. ev_open env n \<lparr>cn_handle = h, cn_peer = node\<rparr> = Inl q" and "accepting_stream q answer"
    and "commanded d (forward_command port) rest" and "arriving rest = payload"
    and "connect (local_target port) = Inl tcp" and "ep_writes tcp = []" and "ep_out tcp = []"
    and "port_allowed (po_allowed_ports policy) port" and "arriving answer = arriving (ep_in tcp)"
  shows "\<exists>s' q' t. let daemon = serve_stream connect policy d in
    handle_client_connection env (Ok ()) egress s = (Ok (), s') \<and>
    pw_streams s' = pw_streams s @ [(\<lparr>cn_handle = h, cn_peer = node\<rparr>, q')] \<and>
    ep_out q' = arriving (ep_in d) \<and> ep_out (sw_stream daemon) = arriving (ep_in q) \<and>
    sw_connects daemon = [local_target port] \<and> sw_tcp daemon = Some t \<and> ep_out t = payload \<and>
    ep_out (pw_client s') = ep_out (pw_client s) @ [SOCKS_VERSION, AUTH_NOAUTH] @
      reply_bytes REP_SUCCESS @ arriving (ep_in tcp)"
proof -
  have "routed egress (address_text addr) port node (forward_command port)"
    using assms(3) by (simp add: routed_def)
  from socks_connection_transparent [OF assms(1,2) this assms(4-9)] obtain s' q' where p:
      "handle_client_connection env (Ok ()) egress s = (Ok (), s')"
      "ep_out (pw_client s') = ep_out (pw_client s) @ [SOCKS_VERSION, AUTH_NOAUTH] @
        reply_bytes REP_SUCCESS @ arriving answer"
      "pw_streams s' = pw_streams s @ [(\<lparr>cn_handle = h, cn_peer = node\<rparr>, q')]"
      "ep_out q' = str_bytes (forward_command port) @ payload"
    by blast
  obtain t where d: "sw_connects (serve_stream connect policy d) = [local_target port]"
      "ep_out (sw_stream (serve_stream connect policy d)) = str_bytes (''OK'' @ [CHR 0x0A]) @ arriving (ep_in tcp)"
      "sw_tcp (serve_stream connect policy d) = Some t" "ep_out t = payload"
    using serve_forward_ok [of d port rest connect tcp policy] assms(10-15) by (auto simp: Let_def)
  have "arriving (ep_in d) = str_bytes (forward_command port) @ payload"
    using assms(10,11) by (simp add: commanded_def)
  moreover have "arriving (ep_in q) = str_bytes (''OK'' @ [CHR 0x0A]) @ arriving (ep_in tcp)"
    using assms(9,16) by (simp add: accepting_stream_def)
  ultimately show ?thesis
    using p d assms(16)
    by (intro exI [of _ s'] exI [of _ q'] exI [of _ t]) (simp add: Let_def)
qed

theorem socks_client_meets_service_witness:
  "\<exists>s' q' t. let daemon = serve_stream (\<lambda>_. Inl echo_service)
      \<lparr>po_allowed_ports = Some AllPorts, po_allow_egress = False\<rparr>
      (commanded_stream (forward_command 80) [71, 69, 84]) in
    handle_client_connection (calm ok_stream) (Ok ()) None (fresh_world socks_sample) = (Ok (), s') \<and>
    sw_tcp daemon = Some t \<and> ep_out t = [71, 69, 84] \<and>
    pw_streams s' = [(\<lparr>cn_handle = 3, cn_peer = 7\<rparr>, q')] \<and>
    ep_out (pw_client s') = [5, 0] @ reply_bytes REP_SUCCESS @ [72, 73]"
proof -
  have host: "parse_wispers_host (address_text (Name (wispers_host 7))) = Ok 7"
    using parse_wispers_host_prints [of 7] by simp
  have "arriving [Got [71, 69, 84 :: 8 word]] = [71, 69, 84]" by simp
  from socks_client_meets_service [OF socks_sample_polite socks_sample_routed(1) host fresh_world_run(1-5)
      ok_stream_accepting commanded_sample [OF forward_80] this, of "\<lambda>_. Inl echo_service" echo_service
      "\<lparr>po_allowed_ports = Some AllPorts, po_allow_egress = False\<rparr>" None]
  show ?thesis
    by (auto simp: echo_service_def sample_end_def port_allowed_def is_allowed_def fresh_world_def
        socks_sample_def Let_def SOCKS_VERSION_def AUTH_NOAUTH_def)
qed

text \<open>
  Reading one piece is not reading one line.  A FORWARD command whose port is cut in two on
  the way is carried out for the port that the first piece spells; and when what a service
  sends first arrives together with the daemon's \<open>OK\<close>, the proxy takes the whole for an
  unknown answer and gives the stream up.
\<close>

theorem pieces_are_taken_for_lines:
  assumes "commanded q (''FORWARD '' @ u16_to_string port) rest"
    and "port_allowed (po_allowed_ports policy) port"
    and "ep_in p = Got (str_bytes (''OK'' @ CHR 0x0A # banner)) # answer" and "length banner \<le> 253"
    and "banner \<noteq> []" and "visible (last banner)" and "utf8_valid (str_bytes banner)" and "ep_writes p = []"
  shows "sw_connects (serve_stream connect policy q) = [local_target port] \<and>
    fst (send_command command p) = Err (Protocol (''OK'' @ CHR 0x0A # banner))"
proof
  show "sw_connects (serve_stream connect policy q) = [local_target port]"
    using serve_forward [of q port "[]" rest connect policy] assms(1,2) connect_and_relay_connects
    by (simp add: handle_forward_stream_def)
  have "length (str_bytes (''OK'' @ CHR 0x0A # banner)) \<le> 256"
    using assms(4) by (simp add: str_bytes_def)
  then show "fst (send_command command p) = Err (Protocol (''OK'' @ CHR 0x0A # banner))"
    using assms(3,8) command_response_banner [OF assms(5-7)]
    by (simp add: send_command_def pbind_def perr_def ep_write_all_def ep_read_def)
qed

theorem pieces_are_taken_for_lines_witness:
  "sw_connects (serve_stream (\<lambda>_. Inl echo_service)
      \<lparr>po_allowed_ports = Some AllPorts, po_allow_egress = False\<rparr>
      (sample_end [str_bytes ''FORWARD 80'', str_bytes ''80''])) = [local_target 80] \<and>
   fst (send_command (forward_command 22) (sample_end [str_bytes (''OK'' @ CHR 0x0A # ''SSH-2.0'')])) =
     Err (Protocol (''OK'' @ CHR 0x0A # ''SSH-2.0''))"
proof -
  have "commanded (sample_end [str_bytes ''FORWARD 80'', str_bytes ''80'']) (''FORWARD '' @ u16_to_string 80)
      [Got (str_bytes ''80'')]"
    using u16_80 by (simp add: commanded_def sample_end_def)
  moreover have "utf8_valid (str_bytes ''SSH-2.0'')" by (rule utf8_valid_ascii) simp
  ultimately show ?thesis
    using pieces_are_taken_for_lines [of _ 80 "[Got (str_bytes ''80'')]"
        "\<lparr>po_allowed_ports = Some AllPorts, po_allow_egress = False\<rparr>"
        "sample_end [str_bytes (''OK'' @ CHR 0x0A # ''SSH-2.0'')]" "''SSH-2.0''" "[]"]
    by (simp add: port_allowed_def is_allowed_def sample_end_def visible_def)
qed


subsection \<open>HTTP\<close>

text \<open>
  C28: every request the parser lets through is well formed, whatever the crate made of the
  bytes: a node it names has a positive number, an Internet host is none of our names and has
  an egress node to go to; a tunnel comes from CONNECT and only from it, carries no headers
  and ends the connection; the path of any other begins with a slash; and no hop-by-hop
  header is left.
\<close>

theorem parsed_requests_are_well_formed:
  assumes "parse_request httparse buf egress = Ok r"
  shows "request_ok egress r"
  by (rule parse_request_ok [OF assms])

text \<open>What the crate makes of \<open>GET http://7.wispers.link/a\<close> with three headers.\<close>

definition sample_head :: http_head where
  "sample_head = \<lparr>hh_method = Some ''GET'', hh_path = Some (''http://7.wispers.link/a''), hh_version = Some 1,
     hh_headers = [(''Host'', str_bytes ''7''), (''TE'', str_bytes ''gzip''),
       (''Content-Length'', str_bytes ''5'')]\<rparr>"

definition sample_request :: parsed_request where
  "sample_request = \<lparr>pr_target = \<lparr>pt_destination = WispersNode 7 80, pt_mode = HttpRequest ''/a''\<rparr>,
     pr_method = ''GET'', pr_version = 1,
     pr_headers = [(''Host'', ''7''), (''Content-Length'', ''5'')], pr_keep_alive = True\<rparr>"

lemma sample_ascii:
  "from_utf8_lossy (str_bytes ''7'') = ''7''" "from_utf8_lossy (str_bytes ''gzip'') = ''gzip''"
  "from_utf8_lossy (str_bytes ''5'') = ''5''"
proof -
  have "utf8_valid (str_bytes ''7'')" "utf8_valid (str_bytes ''gzip'')" "utf8_valid (str_bytes ''5'')"
    by (rule utf8_valid_ascii; simp)+
  then show "from_utf8_lossy (str_bytes ''7'') = ''7''" "from_utf8_lossy (str_bytes ''gzip'') = ''gzip''"
    "from_utf8_lossy (str_bytes ''5'') = ''5''" by simp_all
qed

lemma sample_names:
  "to_lowercase ''Host'' = ''host''" "to_lowercase ''TE'' = ''te''"
  "to_lowercase ''Content-Length'' = ''content-length''"
  by code_simp+

lemma sample_parsed: "parse_request (\<lambda>_. ParseComplete sample_head) buf None = Ok sample_request"
proof -
  have target: "parse_proxy_target ''http://7.wispers.link/a'' None =
      Ok \<lparr>pt_destination = WispersNode 7 80, pt_mode = HttpRequest ''/a''\<rparr>"
    by code_simp
  have headers: "collect_headers (hh_headers sample_head) ([], True, None) =
      ([(''Host'', ''7''), (''Content-Length'', ''5'')], True, Some ''7'')"
    by (simp add: sample_head_def sample_ascii sample_names Let_def is_hop_by_hop_header_def
        hop_by_hop_headers_def del: to_lowercase.simps)
  have "hh_method sample_head = Some ''GET''" "hh_path sample_head = Some ''http://7.wispers.link/a''"
      "hh_version sample_head = Some 1"
    by (simp_all add: sample_head_def)
  then show ?thesis
    by (simp add: parse_request_def sample_request_def ok_or_def target headers)
qed

theorem parsed_requests_are_well_formed_witness:
  "request_ok None sample_request"
  using parsed_requests_are_well_formed [OF sample_parsed [of "[]"]] .



text \<open>
  C35: what is read as a request is the beginning of what the client sent, however it was cut,
  holds a blank line and is no longer than the limit of 8192 bytes; what was read is all in it,
  also what follows the blank line, and nothing else is gone from the socket.
\<close>

theorem request_reads_are_bounded:
  assumes "read_request_bytes ep = (Ok (Data b), ep')"
  shows "\<exists>evs. ep' = ep\<lparr>ep_in := evs\<rparr> \<and> arriving (ep_in ep) = b @ arriving evs \<and>
    sublist blank_line b \<and> length b \<le> REQUEST_LIMIT"
  using read_request_Data [of "[]" ep b ep'] assms by (auto simp: read_request_bytes_def contains_iff)

lemma sample_read:
  "read_request_bytes (sample_end [str_bytes ''GET /'', blank_line @ [1]]) =
     (Ok (Data (str_bytes ''GET /'' @ blank_line @ [1])), sample_end [])"
proof -
  have n: "length blank_line = 4" "str_bytes ''GET /'' \<noteq> []"
    by (simp_all add: blank_line_def crlf_def str_bytes_def)
  have "sublist blank_line (str_bytes ''GET /'' @ blank_line @ [1])"
    unfolding sublist_def by blast
  moreover have "\<not> sublist blank_line (str_bytes ''GET /'')"
    using set_mono_sublist [of blank_line "str_bytes ''GET /''"] by (auto simp: blank_line_def crlf_def str_bytes_def)
  ultimately show ?thesis
    using n by (simp add: read_request_bytes_def read_request.simps [of "[]"] read_request.simps [of "str_bytes ''GET /''"]
        REQUEST_LIMIT_def ep_read_def sample_end_def contains_iff)
qed

theorem request_reads_are_bounded_witness:
  "\<exists>evs. arriving (ep_in (sample_end [str_bytes ''GET /'', blank_line @ [1]])) =
      (str_bytes ''GET /'' @ blank_line @ [1]) @ arriving evs \<and>
    sublist blank_line (str_bytes ''GET /'' @ blank_line @ [1])"
  using request_reads_are_bounded [OF sample_read] by blast


text \<open>
  What goes up the stream for a request is its head - with every header of the client that
  is not hop-by-hop, in order, and a Host header when there was none - and the end of the
  stream.  Nothing is taken from the client for it: a body is not sent, although the
  \<open>Content-Length\<close> that announces it is.
\<close>

theorem requests_go_up_without_a_body:
  assumes "parse_request httparse buf egress = Ok r" and "httparse buf = ParseComplete h"
    and "hh_method h \<noteq> Some ''CONNECT''"
    and "handle_http_request env i r path s = (Ok (), t)"
    and "i < length (pw_streams s)" and "pw_streams s ! i = (cn, q)"
  shows "client_in t = client_in s \<and>
    (\<exists>q'. pw_streams t ! i = (cn, q') \<and> ep_closed q' \<and>
       ep_out q' = ep_out q @ str_bytes (build_http_request r path)) \<and>
    pr_headers r = map (\<lambda>x. (fst x, from_utf8_lossy (snd x)))
        (filter (\<lambda>x. \<not> is_hop_by_hop_header (to_lowercase (fst x))) (hh_headers h)) @
      (if \<exists>x \<in> set (hh_headers h). to_lowercase (fst x) = ''host'' then []
       else [(''Host'', target_host (pt_destination (pr_target r)))])"
  using forwarded_headers [OF assms(1-3)] handle_http_request_sends [OF assms(4-6)] by blast

definition world_with_stream :: "endpoint \<Rightarrow> endpoint \<Rightarrow> proxy_world" where
  "world_with_stream client q =
     (fresh_world client)\<lparr>pw_streams := [(\<lparr>cn_handle = 3, cn_peer = 7\<rparr>, q)]\<rparr>"

lemma sample_handled:
  "\<exists>t. handle_http_request (calm q) 0 r path (world_with_stream (sample_end [body]) (sample_end [])) = (Ok (), t)"
  by (simp add: handle_http_request_def timed_step_def context_of_def awaiting_def on_stream_def
      world_with_stream_def fresh_world_def calm_def sample_end_def pbind_def perr_def Let_def
      ep_write_all_def ep_finish_send_def relay_response_def copy_response.simps ep_read_def)

theorem requests_go_up_without_a_body_witness:
  "\<exists>t q'. handle_http_request (calm ok_stream) 0 sample_request ''/a''
       (world_with_stream (sample_end [[1, 2, 3, 4, 5]]) (sample_end [])) = (Ok (), t) \<and>
     client_in t = [Got [1, 2, 3, 4, 5]] \<and>
     pw_streams t ! 0 = (\<lparr>cn_handle = 3, cn_peer = 7\<rparr>, q') \<and> ep_closed q' \<and>
     ep_out q' = str_bytes (build_http_request sample_request ''/a'')"
proof -
  let ?w = "world_with_stream (sample_end [[1, 2, 3, 4, 5]]) (sample_end [])"
  obtain t where run: "handle_http_request (calm ok_stream) 0 sample_request ''/a'' ?w = (Ok (), t)"
    using sample_handled by blast
  have w: "0 < length (pw_streams ?w)" "pw_streams ?w ! 0 = (\<lparr>cn_handle = 3, cn_peer = 7\<rparr>, sample_end [])"
      "client_in ?w = [Got [1, 2, 3, 4, 5]]" "hh_method sample_head \<noteq> Some ''CONNECT''"
    by (simp_all add: world_with_stream_def fresh_world_def client_in_def sample_end_def sample_head_def)
  obtain q' where "client_in t = client_in ?w" "pw_streams t ! 0 = (\<lparr>cn_handle = 3, cn_peer = 7\<rparr>, q')"
      "ep_closed q'" "ep_out q' = ep_out (sample_end []) @ str_bytes (build_http_request sample_request ''/a'')"
    using requests_go_up_without_a_body [OF sample_parsed [of "[]"] refl w(4) run w(1,2)] by blast
  with run w(3) show ?thesis
    by (intro exI [of _ t] exI [of _ q']) (simp add: sample_end_def)
qed

text \<open>
  The thirty seconds that are meant for setting a tunnel up are for all of its life.  When
  they end before the relay does, the client has got the 200 answer, a beginning of what the
  peer sent, and then, inside the tunnel, an error response that says the set-up timed out.
\<close>

theorem tunnels_end_with_the_timer:
  assumes "pt_mode (pr_target request) = Tunnel" and "pw_streams s ! i = (cn, q)"
    and "ep_writes (pw_client s) = []" and "\<not> ev_expires env (pw_calls s)"
    and "ev_rounds env (pw_calls s + 1) = Some ds"
    and "\<not> relay_over (relay_rounds ds (relay_start
      ((pw_client s)\<lparr>ep_out := ep_out (pw_client s) @ str_bytes tunnel_established\<rparr>) q))"
  shows "\<exists>t bs. dispatch_request env i request s = (Ok False, t) \<and> prefix bs (arriving (ep_in q)) \<and>
    ep_out (pw_client t) = ep_out (pw_client s) @ str_bytes tunnel_established @ bs @
      str_bytes (error_response 504 ''tunnel setup timed out'')"
  by (rule tunnel_cut_off [OF assms])

theorem tunnels_end_with_the_timer_witness:
  "\<exists>t bs. dispatch_request ((calm ok_stream)\<lparr>ev_rounds := \<lambda>_. Some [Inward]\<rparr>) 0
       (sample_request\<lparr>pr_target := \<lparr>pt_destination = WispersNode 7 443, pt_mode = Tunnel\<rparr>\<rparr>)
       (world_with_stream (sample_end [[1]]) (sample_end [[2]])) = (Ok False, t) \<and> prefix bs [2] \<and>
     ep_out (pw_client t) = str_bytes tunnel_established @ bs @
       str_bytes (error_response 504 ''tunnel setup timed out'')"
proof -
  let ?env = "(calm ok_stream)\<lparr>ev_rounds := \<lambda>_. Some [Inward]\<rparr>"
  let ?w = "world_with_stream (sample_end [[1]]) (sample_end [[2]])"
  have w: "pw_streams ?w ! 0 = (\<lparr>cn_handle = 3, cn_peer = 7\<rparr>, sample_end [[2]])"
      "ep_writes (pw_client ?w) = []" "\<not> ev_expires ?env (pw_calls ?w)"
      "ev_rounds ?env (pw_calls ?w + 1) = Some [Inward]"
    by (simp_all add: world_with_stream_def fresh_world_def sample_end_def calm_def)
  have "\<not> relay_over (relay_rounds [Inward] (relay_start
      ((pw_client ?w)\<lparr>ep_out := ep_out (pw_client ?w) @ str_bytes tunnel_established\<rparr>) (sample_end [[2]])))"
    by (simp add: relay_rounds_def relay_start_def relay_over_def relay_round.simps split: prod.splits bool.splits)
  from tunnels_end_with_the_timer [OF _ w this, of "sample_request\<lparr>pr_target :=
      \<lparr>pt_destination = WispersNode 7 443, pt_mode = Tunnel\<rparr>\<rparr>"]
  show ?thesis
    by (simp add: world_with_stream_def fresh_world_def sample_end_def)
qed

end
