(* ===== verification/Commands_Props.thy ===== *)
theory Commands_Props
  imports Commands Ipc_Props Node_Props Data_Plane
begin

text \<open>
  What the commands make of the node's operations: that their checks come first, what is left
  after a logout, and that a ping and a forwarded connection meet the daemon at the other end.
\<close>

subsection \<open>The checks\<close>

lemma open_node_storage:
  "open_node E sh = (Ok (S, n), sh') \<Longrightarrow> \<exists>addr. get_storage E = Ok (S, addr)"
  by (auto simp: open_node_def rust_simps split: prod.splits)

lemma identity_of_registered:
  "node_state_of n \<noteq> Pending \<Longrightarrow> \<exists>cg num. identity_of n sh = (Ok (cg, num), sh) \<and>
     connectivity_group_id_of n = Some cg \<and> node_number_of n = Some num"
  by (cases "nd_inner n") (simp_all add: identity_of_def pbind_def connectivity_group_id_of_def
      node_number_of_def registration_of_def expect_def node_state_of_def)

definition refused :: "(('w, 's) shell, unit, cli_error) prog \<Rightarrow> ('w, 's) shell \<Rightarrow> ('w, 's) host \<Rightarrow> bool" where
  "refused m sh h \<longleftrightarrow> (\<exists>msg sh'. m sh = (Err (Bail msg), sh') \<and> sh_host sh' = h)"

lemma already_refuses:
  assumes "node_state_of n \<noteq> Pending"
  shows "\<exists>msg. already what n advice sh = (Err (Bail msg), sh)"
proof -
  obtain cg num where "identity_of n sh = (Ok (cg, num) :: (string \<times> i32, cli_error) result, sh)"
    using identity_of_registered [OF assms] by blast
  then show ?thesis by (simp add: already_def pbind_def)
qed

lemma require_peer_refuses:
  "node_state_of n \<noteq> Activated \<or> node_number_of n = Some target \<Longrightarrow>
     \<exists>msg. require_peer n target what sh = (Err (Bail msg), sh)"
  using identity_of_registered [of n sh]
  by (cases "node_state_of n") (auto simp: require_peer_def pbind_def expect_def)

text \<open>
  The checks come first.  A node that is already registered is not registered again; a
  code is only tried by a registered node that is not activated, and never one's own; only an
  activated node pings or forwards, and not to itself; a port 0 is refused before the node is
  even loaded.  In each case the command fails with a message and, once the node is loaded,
  nothing is asked of the hub or a peer and nothing is stored.
\<close>

theorem checks_come_first:
  assumes "open_node E sh = (Ok (S, n), sh')"
  shows "(node_state_of n = Registered \<or> node_state_of n = Activated \<longrightarrow>
      refused (register_command E token) sh (sh_host sh')) \<and>
    (node_state_of n \<noteq> Registered \<or> names_node code (node_number_of n) \<longrightarrow>
      refused (activate_command E code) sh (sh_host sh')) \<and>
    (node_state_of n \<noteq> Activated \<or> node_number_of n = Some target \<longrightarrow>
      refused (ping_command E target use_quic transport) sh (sh_host sh') \<and>
      (local_port \<noteq> 0 \<and> remote_port \<noteq> 0 \<longrightarrow>
        refused (start_forward_command E local_port target remote_port bound connected) sh (sh_host sh'))) \<and>
    (local_port = 0 \<or> remote_port = 0 \<longrightarrow>
      refused (start_forward_command E local_port target remote_port bound connected) sh (sh_host sh))"
proof (intro conjI impI)
  assume s: "node_state_of n = Registered \<or> node_state_of n = Activated"
  then have "node_state_of n \<noteq> Pending" by auto
  then obtain msg where "already ''registered'' n ''. Use 'wconnect logout' to clear.'' sh' =
      (Err (Bail msg) :: (unit, cli_error) result, sh')"
    using already_refuses by blast
  with s assms show "refused (register_command E token) sh (sh_host sh')"
    by (auto simp: refused_def register_command_def pbind_def)
next
  assume s: "node_state_of n \<noteq> Registered \<or> names_node code (node_number_of n)"
  show "refused (activate_command E code) sh (sh_host sh')"
  proof (cases "node_state_of n")
    case Activated
    then have "node_state_of n \<noteq> Pending" by simp
    then obtain msg where "already ''activated'' n ''.'' sh' =
        (Err (Bail msg) :: (unit, cli_error) result, sh')"
      using already_refuses by blast
    with Activated assms show ?thesis by (simp add: refused_def activate_command_def pbind_def)
  qed (use s assms in \<open>auto simp: refused_def activate_command_def pbind_def\<close>)
next
  assume s: "node_state_of n \<noteq> Activated \<or> node_number_of n = Some target"
  obtain msg where "require_peer n target ''ping'' sh' = (Err (Bail msg), sh')"
    using require_peer_refuses [OF s] by blast
  with assms show "refused (ping_command E target use_quic transport) sh (sh_host sh')"
    by (simp add: refused_def ping_command_def pbind_def)
  assume "local_port \<noteq> 0 \<and> remote_port \<noteq> 0"
  moreover obtain msg where "require_peer n target ''forward to'' sh' = (Err (Bail msg), sh')"
    using require_peer_refuses [OF s] by blast
  ultimately show "refused (start_forward_command E local_port target remote_port bound connected) sh (sh_host sh')"
    using assms by (simp add: refused_def start_forward_command_def pbind_def)
next
  assume "local_port = 0 \<or> remote_port = 0"
  then show "refused (start_forward_command E local_port target remote_port bound connected) sh (sh_host sh)"
    by (auto simp: refused_def start_forward_command_def)
qed

subsection \<open>Logging out\<close>

lemma new_persisted_storable: "storable P (new_persisted rand)"
  by (simp add: storable_def new_persisted_def generate_root_key_def)

lemma restore_keeps_healthy:
  assumes "fs_healthy io (ho_store h)"
    and "restore_or_init_node P' H (file_ops P io) addr rand h = (r, h')"
  shows "fs_healthy io (ho_store h')"
proof -
  let ?I = "\<lambda>h :: ('w, fs) host. fs_healthy io (ho_store h)"
  have blind: "env_blind ?I" by (simp add: env_blind_def)
  have "keeps ?I (on_store (so_load (file_ops P io)))"
    using fstore.load_keeps [of io "ho_store h" P for h :: "('w, fs) host"]
    by (fastforce simp: keeps_def on_store_def file_ops_def split: prod.splits)
  moreover have "keeps ?I (on_store (so_save (file_ops P io) (new_persisted rand)))"
    using fstore.save_content [of io "ho_store h" P "new_persisted rand" for h :: "('w, fs) host"] new_persisted_storable
    by (fastforce simp: keeps_def on_store_def file_ops_def split: prod.splits)
  ultimately have "keeps ?I (restore_or_init_node P' H (file_ops P io) addr rand)"
    unfolding restore_or_init_node_def Let_def
    by (auto intro!: keeps_rules keeps_modify split: option.split simp: blind)
  from keepsD [OF this assms] show ?thesis .
qed


lemma delete_state_empties:
  assumes "fs_healthy io (ho_store h)" and "so_delete (file_ops P io) (ho_store h) = (r, st)"
  shows "fs_healthy io st \<and> fs_content P st = None"
  using fstore.delete_content [OF assms(1), of P] assms(2) by (simp add: file_ops_def)

lemma logout_command_deletes:
  assumes "get_storage E = Ok (S, addr)" and "logout_command E sh = (Ok (), sh')"
  obtains r h st where "restore_or_init_node (cl_prims E) (cl_hub E) S addr (cl_rand E) (sh_host sh) = (r, h)"
    "so_delete S (ho_store h) = (Ok (), st)" "ho_store (sh_host sh') = st"
proof -
  let ?restore = "restore_or_init_node (cl_prims E) (cl_hub E) S addr (cl_rand E)"
  obtain r h where restore: "?restore (sh_host sh) = (r, h)" by (cases "?restore (sh_host sh)")
  have "\<exists>st. so_delete S (ho_store h) = (Ok (), st) \<and> ho_store (sh_host sh') = st"
  proof (cases r)
    case (Ok n)
    let ?s = "host.extend h (sys.fields n)"
    obtain l t where l: "logout (cl_prims E) (cl_hub E) S ?s = (l, t)"
      by (cases "logout (cl_prims E) (cl_hub E) S ?s")
    from assms restore Ok l have "l = result.Ok ()" "sh_host sh' = host.truncate t"
      by (cases l; auto simp: logout_command_def pbind_def pcatch_def on_host_def with_node_def perr_def println_def
          modify_def split: result.splits prod.splits)+
    moreover have "ho_store ?s = ho_store h" "ho_store (host.truncate t) = ho_store t"
      by (simp_all add: host.defs sys.defs)
    ultimately show ?thesis
      using logout_cases [OF l] by metis
  next
    case (Err e)
    from assms restore Err have "\<exists>u. delete_state S h = (Ok (), u) \<and> sh_host sh' = u"
      by (cases "fst (delete_state S h)"; auto simp: logout_command_def pbind_def pcatch_def on_host_def
          perr_def println_def modify_def split: result.splits prod.splits if_splits)
    then show ?thesis by (auto simp: delete_state_def on_store_iff)
  next
    case Panic
    with assms restore show ?thesis
      by (auto simp: logout_command_def pbind_def pcatch_def on_host_def)
  qed
  with restore that show thesis by blast
qed

lemma restored_from_nothing:
  assumes "fs_healthy io (ho_store h)" and "fs_content P (ho_store h) = None"
    and "restore_or_init_node P' H (file_ops P io) addr rand h = (Ok n, h')"
  shows "node_state_of n = Pending \<and> registration_of n = None"
proof -
  let ?S = "file_ops P io"
  have "fst (so_load ?S (ho_store h)) = Ok None"
    using fstore.load_content [OF assms(1), of P] assms(2) by (simp add: file_ops_def)
  then obtain u where u: "so_load ?S (ho_store h) = (Ok None, u)"
    by (cases "so_load ?S (ho_store h)") auto
  then have "new_pending P' (new_persisted rand) addr = (Ok n :: (node, node_state_error) result)"
    using assms(3) by (auto simp: restore_or_init_node_def rust_simps on_store_iff Let_def)
  then have "nd_inner n = InnerPending"
    by (auto simp: new_pending_def make_node_def rust_simps)
  then show ?thesis by (simp add: node_state_of_def registration_of_def)
qed

text \<open>
  \<open>wconnect logout\<close> leaves nothing.  On a file store whose calls succeed, whenever the
  command succeeds - the hub deregistered the node, or had already removed it and refuses to
  know it - neither key nor registration is left on disk, and any node loaded afterwards is
  new and unregistered.
\<close>

theorem logout_leaves_nothing:
  assumes "get_storage E = Ok (file_ops P io, addr)" and "fs_healthy io (ho_store (sh_host sh))"
    and "logout_command E sh = (Ok (), sh')"
  shows "fs_content P (ho_store (sh_host sh')) = None \<and>
    (\<forall>n h'. restore_or_init_node P' H (file_ops P io) addr' rand (sh_host sh') = (Ok n, h') \<longrightarrow>
       node_state_of n = Pending \<and> registration_of n = None)"
proof -
  obtain r h st where d: "restore_or_init_node (cl_prims E) (cl_hub E) (file_ops P io) addr (cl_rand E) (sh_host sh) = (r, h)"
      "so_delete (file_ops P io) (ho_store h) = (Ok (), st)" "ho_store (sh_host sh') = st"
    by (rule logout_command_deletes [OF assms(1,3)])
  from delete_state_empties [OF restore_keeps_healthy [OF assms(2) d(1)] d(2)]
  have "fs_healthy io (ho_store (sh_host sh'))" "fs_content P (ho_store (sh_host sh')) = None"
    using d(3) by auto
  then show ?thesis using restored_from_nothing by blast
qed


subsection \<open>Peers\<close>

lemma serve_ping:
  assumes "commanded d (''PING'' @ [CHR 0x0A]) rest"
  shows "ep_out (sw_stream (serve_stream dial policy d)) = str_bytes (''PONG'' @ [CHR 0x0A])"
    and "sw_connects (serve_stream dial policy d) = []"
proof -
  have "command_line (str_bytes (''PING'' @ [CHR 0x0A])) = str_bytes ''PING''"
    by (rule command_line_str(1)) simp
  then have "serve_stream dial policy d = snd (answer_line ''PONG''
      \<lparr>sw_stream = d\<lparr>ep_in := rest\<rparr>, sw_tcp = None, sw_connects = []\<rparr>)"
    using serve_stream_commanded [OF assms, of dial policy] by (simp add: handle_command_def)
  then show "ep_out (sw_stream (serve_stream dial policy d)) = str_bytes (''PONG'' @ [CHR 0x0A])"
      "sw_connects (serve_stream dial policy d) = []"
    using assms by (simp_all add: answer_line_run ep_calls_out commanded_def)
qed

text \<open>
  A ping meets the daemon.  Over QUIC, when each side reads what the other wrote, what the
  ping sends is the daemon's PING command, whatever the daemon's policy; the daemon connects
  to nothing, and its answer is the one the ping takes for success.  Over UDP the same holds
  of the datagram and the daemon's echo.
\<close>

theorem pings_are_answered:
  assumes "commanded d (''PING'' @ [CHR 0x0A]) rest" and "ep_writes q = []" and "ep_finish q = None"
    and "ep_out q = []" and "ep_in q = Got (ep_out (sw_stream (serve_stream dial policy d))) # more_in"
  shows "(\<exists>q' response. ping_stream False q = (Ok response, q') \<and> ping_verdict response = ''Ping successful!'' \<and>
      ep_out q' = str_bytes (''PING'' @ [CHR 0x0A]) \<and> ep_closed q') \<and>
    sw_connects (serve_stream dial policy d) = [] \<and>
    handle_udp_connection (Inl (str_bytes ''ping'') # datagrams) (None # sends) =
      str_bytes ''pong'' # handle_udp_connection datagrams sends"
proof (intro conjI)
  have "ping_stream False q = (Ok (str_bytes (''PONG'' @ [CHR 0x0A])), q\<lparr>ep_in := more_in,
      ep_out := str_bytes (''PING'' @ [CHR 0x0A]), ep_closed := True\<rparr>)"
    using assms(2-5) serve_ping(1) [OF assms(1), of dial policy]
    by (simp add: ping_stream_def pbind_def perr_def ep_write_all_def ep_finish_send_def ep_read_def)
  then show "\<exists>q' response. ping_stream False q = (Ok response, q') \<and> ping_verdict response = ''Ping successful!'' \<and>
      ep_out q' = str_bytes (''PING'' @ [CHR 0x0A]) \<and> ep_closed q'"
    by (intro exI conjI) (assumption | simp add: ping_verdict_def del: str_bytes_append)+
qed (use serve_ping(2) [OF assms(1)] in simp_all)

text \<open>
  C34: a connection that \<open>wconnect forward\<close> accepts meets the service.  When the peer's daemon
  forwards the port and each side reads what the other wrote, the service receives exactly
  what the local client sends and the client exactly what the service sends.
\<close>

theorem forwarded_connections_meet_the_service:
  assumes "accepting_stream q replies" and "ep_writes tcp = []" and "ep_finish tcp = None" and "ep_out tcp = []"
    and "commanded d (forward_command port) rest" and "arriving rest = arriving (ep_in tcp)"
    and "dial (local_target port) = Inl service" and "ep_writes service = []" and "ep_out service = []"
    and "port_allowed (po_allowed_ports policy) port" and "arriving replies = arriving (ep_in service)"
  shows "\<exists>tcp' q' t. let daemon = serve_stream dial policy d in
    handle_forward_connection port (Inl q) tcp = (Ok (), tcp', Some q') \<and>
    ep_out q' = arriving (ep_in d) \<and> ep_out (sw_stream daemon) = arriving (ep_in q) \<and>
    sw_connects daemon = [local_target port] \<and> sw_tcp daemon = Some t \<and>
    ep_out t = arriving (ep_in tcp) \<and> ep_out tcp' = arriving (ep_in service) \<and>
    ep_closed tcp' \<and> ep_closed q'"
proof -
  let ?q = "q\<lparr>ep_out := str_bytes (forward_command port), ep_in := replies\<rparr>"
  obtain tcp' q' where rel: "relay tcp ?q = (tcp', q')" by (cases "relay tcp ?q")
  have "trim (''OK'' @ [CHR 0x0A]) = ''OK''" by (rule trim_newline) (simp_all add: visible_def)
  moreover have "utf8_valid (str_bytes (''OK'' @ [CHR 0x0A]))" by (rule utf8_valid_ascii) simp
  ultimately have "trim (from_utf8_lossy (str_bytes (''OK'' @ [CHR 0x0A]))) = ''OK''" by simp
  then have run: "handle_forward_connection port (Inl q) tcp = (Ok (), tcp', Some q')"
    using assms(1) rel
    by (simp add: handle_forward_connection_def accepting_stream_def pbind_def perr_def ep_write_all_def
        ep_read_def Let_def)
  obtain t where d: "sw_connects (serve_stream dial policy d) = [local_target port]"
      "ep_out (sw_stream (serve_stream dial policy d)) = str_bytes (''OK'' @ [CHR 0x0A]) @ arriving (ep_in service)"
      "sw_tcp (serve_stream dial policy d) = Some t" "ep_out t = arriving (ep_in tcp)"
    using serve_forward_ok [of d port rest dial service policy] assms(5-10) by (auto simp: Let_def)
  have "arriving (ep_in d) = str_bytes (forward_command port) @ arriving (ep_in tcp)"
    using assms(5,6) by (simp add: commanded_def)
  moreover have "arriving (ep_in q) = str_bytes (''OK'' @ [CHR 0x0A]) @ arriving (ep_in service)"
    using assms(1,11) by (simp add: accepting_stream_def)
  moreover have "ep_out q' = str_bytes (forward_command port) @ arriving (ep_in tcp)" "ep_closed q'"
      "ep_out tcp' = arriving replies" "ep_closed tcp'"
    using relay_out [OF rel] assms(1-4) by (auto simp: accepting_stream_def)
  ultimately show ?thesis
    using run d assms(11)
    by (intro exI [of _ tcp'] exI [of _ q'] exI [of _ t]) (simp add: Let_def)
qed


subsection \<open>Samples\<close>

definition sample_cli :: "'s store_ops \<Rightarrow> (unit, 's) cli" where
  "sample_cli S = \<lparr>cl_prims = ref_prims, cl_hub = sample_hub sample_pair, cl_store = (\<lambda>_. S),
     cl_config_dir = Some ''/c'', cl_hub_override = None, cl_profile = ''default'', cl_rand = (\<lambda>_. 0),
     cl_json = sample_json, cl_server = (\<lambda>_ _. Inr ''not running'')\<rparr>"

definition sample_shell :: "'s \<Rightarrow> (unit, 's) shell" where
  "sample_shell st = \<lparr>sh_host = \<lparr>ev_world = (), ev_rtt = rtt_new, ev_now = 0, ho_store = st\<rparr>, sh_out = []\<rparr>"

lemma sample_storage: "get_storage (sample_cli S) = Ok (S, DEFAULT_HUB_ADDR)"
  by (simp add: get_storage_def sample_cli_def)

lemma derive_sample: "\<exists>sk. derive_from_root_key ref_prims (ps_root_key (new_persisted rand)) = (Ok sk :: (_, 'e) result)"
  by (simp add: derive_from_root_key_def ref_prims_def expect_def)

text \<open>On an empty file store, a new node is made and saved.\<close>

lemma sample_restore:
  assumes "restore_or_init_node ref_prims H (file_ops ref_prims (\<lambda>_. None)) addr (\<lambda>_. 0)
      (sh_host (sample_shell empty_fs)) = (r, h)"
  shows "\<exists>n. r = Ok n \<and> nd_inner n = InnerPending \<and> fs_healthy (\<lambda>_. None) (ho_store h)"
proof -
  have healthy: "fs_healthy (\<lambda>_. None) empty_fs" by (simp add: fs_healthy_def empty_fs_def)
  have "fs_content ref_prims empty_fs = None" by (simp add: fs_content_def empty_fs_def)
  then obtain u where u: "file_load ref_prims (\<lambda>_. None) empty_fs = (Ok None, u)" "fs_healthy (\<lambda>_. None) u"
    using fstore.load_content [OF healthy, of ref_prims] fstore.load_keeps [OF healthy, of ref_prims]
    by (cases "file_load ref_prims (\<lambda>_. None) empty_fs") auto
  obtain v where v: "file_save ref_prims (\<lambda>_. None) (new_persisted (\<lambda>_. 0)) u = (Ok (), v)" "fs_healthy (\<lambda>_. None) v"
    using fstore.save_content [OF u(2) new_persisted_storable, of ref_prims "\<lambda>_. 0"]
    by (cases "file_save ref_prims (\<lambda>_. None) (new_persisted (\<lambda>_. 0)) u") auto
  obtain sk where sk: "derive_from_root_key ref_prims (ps_root_key (new_persisted (\<lambda>_. 0))) =
      (Ok sk :: (_, node_state_error) result)"
    using derive_sample by blast
  show ?thesis
    using assms u(1) v sk
    by (auto simp: restore_or_init_node_def pbind_def on_store_def file_ops_def sample_shell_def Let_def
        new_pending_def make_node_def)
qed

theorem checks_come_first_witness:
  "\<exists>h. refused (activate_command (sample_cli (file_ops ref_prims (\<lambda>_. None))) ''1-abc'') (sample_shell empty_fs) h \<and>
     refused (ping_command (sample_cli (file_ops ref_prims (\<lambda>_. None))) 2 True (\<lambda>n. ret ())) (sample_shell empty_fs) h"
proof -
  let ?E = "sample_cli (file_ops ref_prims (\<lambda>_. None))" and ?sh = "sample_shell empty_fs"
  obtain r h where r: "restore_or_init_node ref_prims (cl_hub ?E) (file_ops ref_prims (\<lambda>_. None)) DEFAULT_HUB_ADDR (\<lambda>_. 0)
      (sh_host ?sh) = (r, h)"
    by (cases "restore_or_init_node ref_prims (cl_hub ?E) (file_ops ref_prims (\<lambda>_. None)) DEFAULT_HUB_ADDR (\<lambda>_. 0) (sh_host ?sh)")
  obtain n where n: "r = Ok n" "nd_inner n = InnerPending" using sample_restore [OF r] by blast
  have "cl_prims ?E = ref_prims" "cl_rand ?E = (\<lambda>_. 0)" by (simp_all add: sample_cli_def)
  then have o: "open_node ?E ?sh = (Ok (file_ops ref_prims (\<lambda>_. None), n), ?sh\<lparr>sh_host := h\<rparr>)"
    using r n(1) by (simp add: open_node_def sample_storage pbind_def load_node_def pcatch_def on_host_def)
  have "node_state_of n = Pending" using n(2) by (simp add: node_state_of_def)
  then show ?thesis
    using checks_come_first [OF o, where token = "[]" and code = "''1-abc''" and target = 2 and
        use_quic = True and transport = "\<lambda>n. ret ()" and local_port = 1 and remote_port = 1 and
        bound = "Ok ()" and connected = "Ok ()"]
    by (intro exI [of _ h]) simp
qed

theorem logout_leaves_nothing_witness:
  "\<exists>sh'. logout_command (sample_cli (file_ops ref_prims (\<lambda>_. None))) (sample_shell empty_fs) = (Ok (), sh') \<and>
     fs_content ref_prims (ho_store (sh_host sh')) = None"
proof -
  let ?E = "sample_cli (file_ops ref_prims (\<lambda>_. None))" and ?sh = "sample_shell empty_fs"
  let ?S = "file_ops ref_prims (\<lambda>_. None)"
  obtain r h where r: "restore_or_init_node ref_prims (cl_hub ?E) ?S DEFAULT_HUB_ADDR (\<lambda>_. 0) (sh_host ?sh) = (r, h)"
    by (cases "restore_or_init_node ref_prims (cl_hub ?E) ?S DEFAULT_HUB_ADDR (\<lambda>_. 0) (sh_host ?sh)")
  obtain n where n: "r = Ok n" "nd_inner n = InnerPending" "fs_healthy (\<lambda>_. None) (ho_store h)"
    using sample_restore [OF r] by blast
  obtain st where st: "file_delete (\<lambda>_. None) (ho_store h) = (Ok (), st)"
    using fstore.delete_content [OF n(3)] by (cases "file_delete (\<lambda>_. None) (ho_store h)") auto
  have E: "cl_prims ?E = ref_prims" "cl_rand ?E = (\<lambda>_. 0)" by (simp_all add: sample_cli_def)
  obtain t where "logout ref_prims (cl_hub ?E) ?S (host.extend h (sys.fields n)) = (Ok (), t)"
    using n(2) st by (simp add: logout_def logout_remote_def pbind_def on_store_def file_ops_def
        set_persisted_registration_def set_inner_def host.defs sys.defs)
  then obtain sh' where run: "logout_command ?E ?sh = (Ok (), sh')"
    using r n(1) E by (simp add: logout_command_def sample_storage pbind_def pcatch_def on_host_def with_node_def
        perr_def println_def)
  have healthy: "fs_healthy (\<lambda>_. None) (ho_store (sh_host ?sh))"
    by (simp add: sample_shell_def fs_healthy_def empty_fs_def)
  show ?thesis
    using logout_leaves_nothing [OF sample_storage healthy run] run by blast
qed

theorem pings_are_answered_witness:
  "let d = commanded_stream (''PING'' @ [CHR 0x0A]) [];
     served = serve_stream (\<lambda>_. Inl echo_service) \<lparr>po_allowed_ports = None, po_allow_egress = False\<rparr> d in
   \<exists>q'. ping_stream False (sample_end [ep_out (sw_stream served)]) =
     (Ok (str_bytes (''PONG'' @ [CHR 0x0A])), q') \<and> sw_connects served = []"
proof -
  have c: "commanded (commanded_stream (''PING'' @ [CHR 0x0A]) []) (''PING'' @ [CHR 0x0A]) [Got []]"
    by (rule commanded_sample) simp_all
  have "ep_out (sw_stream (serve_stream (\<lambda>_. Inl echo_service) \<lparr>po_allowed_ports = None, po_allow_egress = False\<rparr>
      (commanded_stream (''PING'' @ [CHR 0x0A]) []))) = str_bytes (''PONG'' @ [CHR 0x0A])"
    by (rule serve_ping(1) [OF c])
  then show ?thesis
    using pings_are_answered [OF c, of "sample_end [str_bytes (''PONG'' @ [CHR 0x0A])]" "\<lambda>_. Inl echo_service"
        "\<lparr>po_allowed_ports = None, po_allow_egress = False\<rparr>" "[]" "[]" "[]"]
    by (auto simp: sample_end_def ping_stream_def pbind_def perr_def ep_write_all_def ep_finish_send_def ep_read_def
        Let_def simp del: str_bytes_append)
qed

theorem forwarded_connections_meet_the_service_witness:
  "\<exists>tcp' q'. handle_forward_connection 80 (Inl ok_stream) (sample_end [[71]]) = (Ok (), tcp', Some q') \<and>
     ep_out tcp' = [72, 73]"
proof -
  let ?tcp = "sample_end [[71]]" and ?policy = "\<lparr>po_allowed_ports = Some (Whitelist {80}), po_allow_egress = False\<rparr>"
  have tcp: "ep_writes ?tcp = []" "ep_finish ?tcp = None" "ep_out ?tcp = []"
      "arriving [Got [71]] = arriving (ep_in ?tcp)"
    by (simp_all add: sample_end_def)
  have service: "ep_writes echo_service = []" "ep_out echo_service = []"
      "arriving [Got [72, 73]] = arriving (ep_in echo_service)" "arriving (ep_in echo_service) = [72, 73]"
    by (simp_all add: echo_service_def sample_end_def)
  have policy: "port_allowed (po_allowed_ports ?policy) 80" by (simp add: port_allowed_def is_allowed_def)
  show ?thesis
    using forwarded_connections_meet_the_service [OF ok_stream_accepting tcp(1-3)
        commanded_sample [OF forward_80, of "[71]"] tcp(4), of "\<lambda>_. Inl echo_service" echo_service ?policy,
        OF refl service(1,2) policy service(3)] service(4)
    unfolding Let_def by metis
qed

end
