(* ===== verification/Ffi_Types.thy ===== *)
theory Ffi_Types
  imports Session Rust_Text
begin

text \<open>
  \<open>wispers-connect/src/ffi/types.rs\<close>: what the C interface hands out.  The status that each
  error becomes, strings and snapshots as C sees them, and the memory they live in.

  Memory maps addresses to the objects allocated there; address 0 is the null pointer, and an
  address is never used twice, so that the use of a dangling pointer is always noticed.  Rust's
  \<open>Box\<close> and \<open>CString\<close> allocate with \<open>alloc\<close> (\<open>into_raw\<close>) and free with \<open>take_as\<close>
  (\<open>from_raw\<close>); a dereference is \<open>load_as\<close>.  Using an address that is not allocated, or as an
  object of another type, is undefined behaviour and ends the run with an error of type \<open>ub\<close>.
\<close>

subsection \<open>Statuses\<close>

fun store_status :: "storage_error \<Rightarrow> wispers_status" where
  "store_status (ForeignStatus status) = status"
| "store_status (MissingCallback _) = StatusMissingCallback"
| "store_status _ = StoreError"

fun hub_status :: "hub_error \<Rightarrow> wispers_status" where
  "hub_status e =
     (if hub_is_unauthenticated e then Unauthenticated
      else if hub_is_peer_rejected e then PeerRejected
      else if hub_is_peer_unavailable e then PeerUnavailable
      else if hub_is_not_found e then NotFound
      else StatusHubError)"

fun status_of_error :: "node_state_error \<Rightarrow> wispers_status" where
  "status_of_error (Store e) = store_status e"
| "status_of_error (Hub e) = hub_status e"
| "status_of_error AlreadyRegistered = StatusAlreadyRegistered"
| "status_of_error NotRegistered = StatusNotRegistered"
| "status_of_error (InvalidActivationCode _) = StatusInvalidActivationCode"
| "status_of_error MacVerificationFailed = ActivationFailed"
| "status_of_error MissingEndorserResponse = ActivationFailed"
| "status_of_error (RosterVerificationFailed _) = ActivationFailed"
| "status_of_error LastActiveNode = StatusInvalidState"
| "status_of_error CannotRevokeSelf = StatusInvalidState"
| "status_of_error (NodeNotActive _) = StatusInvalidState"
| "status_of_error NodeRevoked = StatusRevoked"
| "status_of_error (InvalidState _ _) = StatusInvalidState"

text \<open>\<open>p2p_error_to_status\<close>; its arms for the hub come in this order.\<close>

fun p2p_error_to_status :: "p2p_error \<Rightarrow> wispers_status" where
  "p2p_error_to_status (P2pPeerRejected _) = PeerRejected"
| "p2p_error_to_status P2pSignatureVerificationFailed = PeerRejected"
| "p2p_error_to_status (P2pHub h) =
     (if hub_is_unauthenticated h then Unauthenticated
      else if hub_is_peer_unavailable h then PeerUnavailable
      else if hub_is_peer_rejected h then PeerRejected
      else if hub_is_not_found h then NotFound
      else ConnectionFailed)"
| "p2p_error_to_status P2pNotActivated = StatusInvalidState"
| "p2p_error_to_status P2pTimeout = Timeout"
| "p2p_error_to_status _ = ConnectionFailed"

text \<open>What the end of a session and the commands of a serving handle become.\<close>

definition session_end_status :: "serving_error \<Rightarrow> wispers_status" where
  "session_end_status e =
     (if serving_is_unauthenticated e then Unauthenticated
      else if serving_is_peer_rejected e then PeerRejected
      else if serving_is_peer_unavailable e then PeerUnavailable
      else StatusHubError)"

definition code_error_status :: "serving_error \<Rightarrow> wispers_status" where
  "code_error_status e = (if serving_is_unauthenticated e then Unauthenticated else StatusHubError)"

definition status_error_status :: "serving_error \<Rightarrow> wispers_status" where
  "status_error_status e = (if serving_is_unauthenticated e then Unauthenticated else StatusInvalidState)"

text \<open>No failure is reported as a success.\<close>

definition host_honest :: "node_state_error \<Rightarrow> bool" where
  "host_honest e \<longleftrightarrow> e \<noteq> Store (ForeignStatus Success)"

lemma status_of_error_Success: "status_of_error e = Success \<longleftrightarrow> \<not> host_honest e"
proof (cases e)
  case (Store x)
  then show ?thesis by (cases x) (auto simp: host_honest_def)
qed (auto simp: host_honest_def)

lemma error_statuses_not_Success [simp]:
  "hub_status h \<noteq> Success" "p2p_error_to_status p \<noteq> Success" "session_end_status s \<noteq> Success"
  "code_error_status s \<noteq> Success" "status_error_status s \<noteq> Success"
  by (cases p; auto simp: session_end_status_def code_error_status_def status_error_status_def)+

subsection \<open>States\<close>

datatype wispers_node_state_t = StatePending | StateRegistered | StateActivated | StateRevoked

fun node_state_to_ffi :: "node_state \<Rightarrow> wispers_node_state_t" where
  "node_state_to_ffi Pending = StatePending"
| "node_state_to_ffi Registered = StateRegistered"
| "node_state_to_ffi Activated = StateActivated"
| "node_state_to_ffi Revoked = StateRevoked"

datatype wispers_group_state = CAlone | CBootstrap | CNeedActivation | CCanEndorse | CAllActivated

fun group_state_to_ffi :: "group_state \<Rightarrow> wispers_group_state" where
  "group_state_to_ffi Alone = CAlone"
| "group_state_to_ffi Bootstrap = CBootstrap"
| "group_state_to_ffi NeedActivation = CNeedActivation"
| "group_state_to_ffi CanEndorse = CCanEndorse"
| "group_state_to_ffi AllActivated = CAllActivated"

subsection \<open>Strings and snapshots\<close>

text \<open>\<open>CString::new\<close> refuses a NUL; \<open>unwrap_or_default\<close> makes that an empty string.\<close>

definition cstring_new :: "string \<Rightarrow> (string, wispers_status) result" where
  "cstring_new s = (if CHR 0x00 \<in> set s then Err InvalidUtf8 else Ok s)"

definition error_detail :: "string \<Rightarrow> string" where
  "error_detail s = (case cstring_new s of Ok t \<Rightarrow> t | _ \<Rightarrow> [])"

record wispers_node =
  wn_node_number :: i32
  wn_name :: string
  wn_metadata :: string
  wn_is_self :: bool
  wn_state :: wispers_node_state_t
  wn_last_seen_at_millis :: i64
  wn_is_online :: bool

record wispers_group_info =
  wg_id :: string
  wg_name :: "string option"
  wg_created_at_millis :: i64
  wg_state :: wispers_group_state
  wg_nodes :: "wispers_node list"

definition wispers_node_of :: "node_info \<Rightarrow> (wispers_node, wispers_status) result" where
  "wispers_node_of info =
     rbind (cstring_new (ni_name info)) (\<lambda>name.
     rbind (cstring_new (ni_metadata info)) (\<lambda>metadata.
     Ok \<lparr>wn_node_number = ni_node_number info, wn_name = name, wn_metadata = metadata,
       wn_is_self = ni_is_self info, wn_state = node_state_to_ffi (ni_state info),
       wn_last_seen_at_millis = ni_last_seen_at_millis info, wn_is_online = ni_is_online info\<rparr>))"

fun wispers_nodes_of :: "node_info list \<Rightarrow> (wispers_node list, wispers_status) result" where
  "wispers_nodes_of [] = Ok []"
| "wispers_nodes_of (info # rest) =
     rbind (wispers_node_of info) (\<lambda>n. rbind (wispers_nodes_of rest) (\<lambda>ns. Ok (n # ns)))"

definition from_group_info :: "group_info \<Rightarrow> (wispers_group_info, wispers_status) result" where
  "from_group_info info =
     rbind (cstring_new (gi_id info)) (\<lambda>gid.
     rbind (case gi_name info of None \<Rightarrow> Ok None | Some n \<Rightarrow> rbind (cstring_new n) (\<lambda>n. Ok (Some n))) (\<lambda>gname.
     rbind (wispers_nodes_of (gi_nodes info)) (\<lambda>nodes.
     Ok \<lparr>wg_id = gid, wg_name = gname, wg_created_at_millis = gi_created_at_millis info,
       wg_state = group_state_to_ffi (gi_state info), wg_nodes = nodes\<rparr>)))"

record wispers_serving_status =
  ws_connected :: bool
  ws_node_number :: i32
  ws_connectivity_group_id :: string
  ws_codes_outstanding :: nat
  ws_nodes_awaiting_cosign :: "i32 list"

definition from_serving_status :: "serving_status \<Rightarrow> (wispers_serving_status, wispers_status) result" where
  "from_serving_status st =
     rbind (cstring_new (sst_connectivity_group_id st)) (\<lambda>cg.
     case (case sst_endorsing st of
         Some e \<Rightarrow> (et_codes_outstanding e, et_nodes_awaiting_cosign e) | None \<Rightarrow> (0, [])) of
       (codes, nodes) \<Rightarrow>
         Ok \<lparr>ws_connected = sst_connected st, ws_node_number = sst_node_number st,
           ws_connectivity_group_id = cg, ws_codes_outstanding = codes, ws_nodes_awaiting_cosign = nodes\<rparr>)"

text \<open>The reason came off the wire: each NUL is replaced by U+FFFD.\<close>

record quic_close_info =
  ci_closed_by_app :: bool
  ci_error_code :: u64
  ci_reason :: string

definition without_nul :: "string \<Rightarrow> string" where
  "without_nul s = concat (map (\<lambda>c. if c = CHR 0x00 then [CHR 0xEF, CHR 0xBF, CHR 0xBD] else [c]) s)"

definition from_close_info :: "quic_close_info \<Rightarrow> quic_close_info" where
  "from_close_info info = info\<lparr>ci_reason := error_detail (without_nul (ci_reason info))\<rparr>"

lemma without_nul_no_nul: "CHR 0x00 \<notin> set (without_nul s)"
  by (auto simp: without_nul_def)

lemma close_reason_is_kept: "ci_reason (from_close_info info) = without_nul (ci_reason info)"
  by (simp add: from_close_info_def error_detail_def cstring_new_def without_nul_no_nul)

subsection \<open>Memory\<close>

type_synonym addr = nat

record registration_info =
  ri_connectivity_group_id :: addr
  ri_node_number :: i32
  ri_auth_token :: addr
  ri_attestation_jwt :: addr

definition registration_info_null :: registration_info where
  "registration_info_null =
     \<lparr>ri_connectivity_group_id = 0, ri_node_number = 0, ri_auth_token = 0, ri_attestation_jwt = 0\<rparr>"

text \<open>
  The objects.  The first four are the caller's own; handles hold the number of what they
  share: a storage its store and configuration, a node its cell (\<open>Arc\<close> of a mutex), the
  handles of a session the session.  QUIC connections and streams have the number they are
  known by to the environment.
\<close>

datatype 's c_object =
    CText string
  | CBuffer bytes
  | CRegistrationOut registration_info
  | CCallbacks "'s option"
  | CString string
  | CStorage nat nat
  | CNode nat
  | CServingHandle nat
  | CServingSession "nat option"
  | CIncoming nat
  | CUdpConnection udp_connection
  | CQuicConnection nat
  | CQuicStream nat
  | CGroupInfo wispers_group_info
  | CServingStatus wispers_serving_status
  | CCloseInfo quic_close_info

datatype ub = Dangling addr | WrongObject addr

text \<open>Selectors, for dereferencing at a type.\<close>

fun as_registration_out :: "'s c_object \<Rightarrow> registration_info option" where
  "as_registration_out (CRegistrationOut r) = Some r" | "as_registration_out _ = None"
fun as_callbacks :: "'s c_object \<Rightarrow> 's option option" where
  "as_callbacks (CCallbacks s) = Some s" | "as_callbacks _ = None"
fun as_text :: "'s c_object \<Rightarrow> string option" where
  "as_text (CText s) = Some s" | "as_text (CString s) = Some s" | "as_text _ = None"
fun as_cstring :: "'s c_object \<Rightarrow> string option" where
  "as_cstring (CString s) = Some s" | "as_cstring _ = None"
fun as_buffer :: "'s c_object \<Rightarrow> bytes option" where
  "as_buffer (CBuffer b) = Some b" | "as_buffer _ = None"
fun as_storage :: "'s c_object \<Rightarrow> (nat \<times> nat) option" where
  "as_storage (CStorage st cfg) = Some (st, cfg)" | "as_storage _ = None"
fun as_node :: "'s c_object \<Rightarrow> nat option" where
  "as_node (CNode c) = Some c" | "as_node _ = None"
fun as_serving_handle :: "'s c_object \<Rightarrow> nat option" where
  "as_serving_handle (CServingHandle n) = Some n" | "as_serving_handle _ = None"
fun as_serving_session :: "'s c_object \<Rightarrow> nat option option" where
  "as_serving_session (CServingSession n) = Some n" | "as_serving_session _ = None"
fun as_incoming :: "'s c_object \<Rightarrow> nat option" where
  "as_incoming (CIncoming n) = Some n" | "as_incoming _ = None"
fun as_udp :: "'s c_object \<Rightarrow> udp_connection option" where
  "as_udp (CUdpConnection n) = Some n" | "as_udp _ = None"
fun as_quic :: "'s c_object \<Rightarrow> nat option" where
  "as_quic (CQuicConnection n) = Some n" | "as_quic _ = None"
fun as_stream :: "'s c_object \<Rightarrow> nat option" where
  "as_stream (CQuicStream n) = Some n" | "as_stream _ = None"
fun as_group_info :: "'s c_object \<Rightarrow> wispers_group_info option" where
  "as_group_info (CGroupInfo g) = Some g" | "as_group_info _ = None"
fun as_serving_status :: "'s c_object \<Rightarrow> wispers_serving_status option" where
  "as_serving_status (CServingStatus s) = Some s" | "as_serving_status _ = None"
fun as_close_info :: "'s c_object \<Rightarrow> quic_close_info option" where
  "as_close_info (CCloseInfo i) = Some i" | "as_close_info _ = None"

text \<open>Memory on its own: what is where, and the next address.\<close>

record 's memory =
  mm_mem :: "addr \<Rightarrow> 's c_object option"
  mm_next :: nat

definition alloc :: "'s c_object \<Rightarrow> (('s, 'z) memory_scheme, addr, 'e) prog" where
  "alloc ob = (\<lambda>w. (Ok (mm_next w), w\<lparr>mm_mem := (mm_mem w)(mm_next w \<mapsto> ob), mm_next := mm_next w + 1\<rparr>))"

definition load_as :: "('s c_object \<Rightarrow> 'a option) \<Rightarrow> addr \<Rightarrow> (('s, 'z) memory_scheme, 'a, ub) prog" where
  "load_as sel p = (\<lambda>w. case mm_mem w p of
     None \<Rightarrow> (Err (Dangling p), w)
   | Some ob \<Rightarrow> (case sel ob of None \<Rightarrow> (Err (WrongObject p), w) | Some x \<Rightarrow> (Ok x, w)))"

definition store_at :: "addr \<Rightarrow> 's c_object \<Rightarrow> (('s, 'z) memory_scheme, unit, 'e) prog" where
  "store_at p ob = modify (\<lambda>w. w\<lparr>mm_mem := (mm_mem w)(p \<mapsto> ob)\<rparr>)"

definition take_as :: "('s c_object \<Rightarrow> 'a option) \<Rightarrow> addr \<Rightarrow> (('s, 'z) memory_scheme, 'a, ub) prog" where
  "take_as sel p = pbind (load_as sel p) (\<lambda>x.
     pbind (modify (\<lambda>w. w\<lparr>mm_mem := (mm_mem w)(p := None)\<rparr>)) (\<lambda>_. ret x))"

text \<open>The free functions: null is let through, anything else is taken back.\<close>

definition free_as :: "('s c_object \<Rightarrow> 'a option) \<Rightarrow> addr \<Rightarrow> (('s, 'z) memory_scheme, unit, ub) prog" where
  "free_as sel p = (if p = 0 then ret () else pbind (take_as sel p) (\<lambda>_. ret ()))"

text \<open>\<open>c_str_to_string\<close>: the characters up to the NUL, if they are UTF-8.\<close>

definition c_str_to_string :: "addr \<Rightarrow> (('s, 'z) memory_scheme, (string, wispers_status) result, ub) prog" where
  "c_str_to_string p =
     (if p = 0 then ret (Err NullPointer)
      else pbind (load_as as_text p) (\<lambda>s.
        ret (if utf8_valid (str_bytes s) then Ok s else Err InvalidUtf8)))"

lemma load_as_run: "load_as sel p w = (Ok x, w') \<longleftrightarrow> w' = w \<and> (\<exists>ob. mm_mem w p = Some ob \<and> sel ob = Some x)"
  by (auto simp: load_as_def split: option.splits)

lemma load_as_same: "snd (load_as sel p w) = w"
  by (simp add: load_as_def split: option.splits)

lemma load_as_live: "mm_mem w p = Some ob \<Longrightarrow> sel ob = Some x \<Longrightarrow> load_as sel p w = (Ok x, w)"
  by (simp add: load_as_def)

lemma load_as_dangling: "mm_mem w p = None \<Longrightarrow> load_as sel p w = (Err (Dangling p), w)"
  by (simp add: load_as_def)

lemma load_as_not_panic [simp]: "load_as sel p w \<noteq> (Panic, w')"
  by (simp add: load_as_def split: option.splits)

lemma take_as_run:
  "take_as sel p w = (Ok x, w') \<longleftrightarrow> (\<exists>ob. mm_mem w p = Some ob \<and> sel ob = Some x) \<and>
     w' = w\<lparr>mm_mem := (mm_mem w)(p := None)\<rparr>"
  by (auto simp: take_as_def pbind_def modify_def ret_def load_as_def split: option.splits)

end
