(* ===== verification/Ffi.thy ===== *)
theory Ffi
  imports Ffi_Types
begin

text \<open>
  \<open>wispers-connect/src/ffi/node.rs\<close>, \<open>serving.rs\<close> and \<open>p2p.rs\<close>: the C interface.  Every
  function is a program over the state of the library and the memory it shares with C; it
  returns a status or a value, and an error of type \<open>ub\<close> when the C side broke its contract.

  An asynchronous call checks its arguments and spawns a task; when the task is done it makes
  one callback.  Tasks on a node take its mutex, so they are done one after the other: here
  \<open>complete\<close> runs a task from start to end.  What the network answers on connections and
  streams is the \<open>outcome\<close> that completes their tasks; operations of nodes and sessions are
  the ones of \<open>Node\<close> and \<open>Session\<close>.  A panic inside a task ends the task without its callback.
\<close>

subsection \<open>The library's state\<close>

record serving_params =
  sv_hub_addr :: string
  sv_registration :: node_registration
  sv_signing_key :: signing_seed
  sv_rtt :: nat

datatype node_call =
    CallRegister string | CallActivate string | CallLogout | CallRevoke i32 | CallRefresh | CallGroupInfo

datatype conn_call =
    UdpRecv | QuicOpenStream | QuicAcceptStream | QuicPing "32 word"
  | StreamWrite bytes | StreamRead nat | StreamFinish | StreamShutdown

text \<open>
  What a spawned task owns: its clone of a storage, of a node's or a session's cell, of a
  channel, the connection it took - or, in \<open>OnPointer\<close>, nothing but the raw pointer.
\<close>

datatype task =
    RestoreTask nat nat
  | NodeTask nat node_call
  | ConnectTask nat i32 transport
  | ServeTask serving_params
  | CodeTask nat ttl_profile
  | ShutdownTask nat
  | StatusTask nat
  | RunTask nat
  | AcceptTask nat transport
  | OnPointer addr conn_call
  | CloseTask nat "(u64 \<times> string) option"

record pending =
  pd_ctx :: addr
  pd_callback :: nat
  pd_task :: task

text \<open>What a callback is given besides its context, the status and the detail.\<close>

datatype c_args =
    NoArgs
  | ArgHandle addr
  | ArgNode addr wispers_node_state_t
  | ArgServing addr addr addr
  | ArgData "bytes option"

record c_call =
  ca_callback :: nat
  ca_ctx :: addr
  ca_status :: wispers_status
  ca_detail :: "string option"
  ca_args :: c_args

text \<open>A node behind its mutex, with the store, configuration and estimator it shares.\<close>

record node_cell =
  nc_node :: node
  nc_store :: nat
  nc_config :: nat
  nc_rtt :: nat

text \<open>A session, the estimator it shares, and whether its loop has been started.\<close>

record ('w, 'q) session_cell =
  sc_session :: "('w, 'q) session"
  sc_rtt :: nat
  sc_started :: bool

record ('w, 's, 'q) c_world = "'s memory" +
  cw_env :: "'w env"
  cw_stores :: "nat \<Rightarrow> 's"
  cw_configs :: "nat \<Rightarrow> string"
  cw_rtts :: "nat \<Rightarrow> rtt_estimator"
  cw_nodes :: "nat \<Rightarrow> node_cell option"
  cw_sessions :: "nat \<Rightarrow> ('w, 'q) session_cell option"
  cw_tasks :: "nat \<Rightarrow> pending option"
  cw_called :: "c_call list"

text \<open>
  The libraries, the hub, the operations of the stores (in memory, or through the host's
  callbacks), the empty store, how the peer closed a connection, and the texts of errors.
\<close>

record ('w, 's, 'q) c_env =
  ce_prims :: prims
  ce_hub :: "'w hub"
  ce_juice :: "'w juice"
  ce_quiche :: "'q quiche"
  ce_store :: "'s store_ops"
  ce_empty :: 's
  ce_peer_close :: "nat \<Rightarrow> quic_close_info option"
  ce_node_text :: "node_state_error \<Rightarrow> string"
  ce_hub_text :: "hub_error \<Rightarrow> string"
  ce_serving_text :: "serving_error \<Rightarrow> string"
  ce_p2p_text :: "p2p_error \<Rightarrow> string"
  ce_status_text :: "wispers_status \<Rightarrow> string"

type_synonym ('w, 's, 'q, 'a) c_prog = "(('w, 's, 'q) c_world, 'a, ub) prog"

text \<open>Fresh numbers and addresses come from one counter.\<close>

definition fresh :: "('w, 's, 'q, nat) c_prog" where
  "fresh = (\<lambda>w. (Ok (mm_next w), w\<lparr>mm_next := mm_next w + 1\<rparr>))"

text \<open>
  The outcome of an operation of the library, run where it runs: on a host, on a node with
  what it shares, on a session.  The estimator is the one of the node or the session.
\<close>

definition on_c_host ::
  "nat \<Rightarrow> (('w, 's) host, 'a, 'e) prog \<Rightarrow> ('w, 's, 'q, ('a, 'e) result) c_prog"
where
  "on_c_host st m = (\<lambda>w. case m (env.extend (cw_env w) (host.fields (cw_stores w st))) of
     (r, h) \<Rightarrow> (Ok r, w\<lparr>cw_env := env.truncate h, cw_stores := (cw_stores w)(st := ho_store h)\<rparr>))"

definition node_sys :: "('w, 's, 'q) c_world \<Rightarrow> node_cell \<Rightarrow> ('w, 's) sys" where
  "node_sys w cell = \<lparr>ev_world = ev_world (cw_env w), ev_rtt = cw_rtts w (nc_rtt cell),
     ev_now = ev_now (cw_env w), ho_store = cw_stores w (nc_store cell),
     sy_node = (nc_node cell)\<lparr>nd_hub_addr := cw_configs w (nc_config cell)\<rparr>\<rparr>"

definition on_c_node ::
  "nat \<Rightarrow> (('w, 's) sys, 'a, 'e) prog \<Rightarrow> ('w, 's, 'q, ('a, 'e) result) c_prog"
where
  "on_c_node c m = (\<lambda>w. case cw_nodes w c of
     None \<Rightarrow> (Panic, w)
   | Some cell \<Rightarrow>
       (case m (node_sys w cell) of
          (r, s) \<Rightarrow> (Ok r, w\<lparr>cw_env := env.truncate s,
             cw_rtts := (cw_rtts w)(nc_rtt cell := ev_rtt s),
             cw_stores := (cw_stores w)(nc_store cell := ho_store s),
             cw_nodes := (cw_nodes w)(c \<mapsto> cell\<lparr>nc_node := sy_node s\<rparr>)\<rparr>)))"

definition on_c_session ::
  "nat \<Rightarrow> (('w, 'q) session, 'a, 'e) prog \<Rightarrow> ('w, 's, 'q, ('a, 'e) result) c_prog"
where
  "on_c_session k m = (\<lambda>w. case cw_sessions w k of
     None \<Rightarrow> (Panic, w)
   | Some cell \<Rightarrow>
       (case m ((sc_session cell)\<lparr>ev_world := ev_world (cw_env w), ev_rtt := cw_rtts w (sc_rtt cell),
              ev_now := ev_now (cw_env w)\<rparr>) of
          (r, s) \<Rightarrow> (Ok r, w\<lparr>cw_env := env.truncate s,
             cw_rtts := (cw_rtts w)(sc_rtt cell := ev_rtt s),
             cw_sessions := (cw_sessions w)(k \<mapsto> cell\<lparr>sc_session := s\<rparr>)\<rparr>)))"

subsection \<open>The guards of an entry point\<close>

definition not_null :: "addr \<Rightarrow> ('w, 's, 'q, wispers_status) c_prog \<Rightarrow> ('w, 's, 'q, wispers_status) c_prog" where
  "not_null p k = (if p = 0 then ret NullPointer else k)"

definition with_text ::
  "addr \<Rightarrow> (string \<Rightarrow> ('w, 's, 'q, wispers_status) c_prog) \<Rightarrow> ('w, 's, 'q, wispers_status) c_prog"
where
  "with_text p k = pbind (c_str_to_string p) (\<lambda>r. case r of
     Ok s \<Rightarrow> k s | Err status \<Rightarrow> ret status | Panic \<Rightarrow> lift Panic)"

definition with_callback ::
  "nat option \<Rightarrow> (nat \<Rightarrow> ('w, 's, 'q, wispers_status) c_prog) \<Rightarrow> ('w, 's, 'q, wispers_status) c_prog"
where
  "with_callback cb k = (case cb of None \<Rightarrow> ret StatusMissingCallback | Some f \<Rightarrow> k f)"

text \<open>\<open>runtime::spawn\<close>, and the status with which the entry point returns.\<close>

definition spawn :: "addr \<Rightarrow> nat \<Rightarrow> task \<Rightarrow> ('w, 's, 'q, wispers_status) c_prog" where
  "spawn ctx f tk = pbind fresh (\<lambda>t.
     pbind (modify (\<lambda>w. w\<lparr>cw_tasks := (cw_tasks w)(t \<mapsto> \<lparr>pd_ctx = ctx, pd_callback = f, pd_task = tk\<rparr>)\<rparr>)) (\<lambda>_.
     ret Success))"

text \<open>
  \<open>blocking_lock\<close> panics on a thread of the runtime, that is, inside a callback.  A node's
  tasks hold the mutex only while they run, and here they run at once.
\<close>

definition blocking_lock :: "bool \<Rightarrow> nat \<Rightarrow> ('w, 's, 'q, node_cell) c_prog" where
  "blocking_lock in_callback c =
     (if in_callback then lift Panic
      else (\<lambda>w. (case cw_nodes w c of None \<Rightarrow> Panic | Some cell \<Rightarrow> Ok cell, w)))"

subsection \<open>Storage\<close>

definition new_storage :: "'s \<Rightarrow> ('w, 's, 'q, addr) c_prog" where
  "new_storage s =
     pbind fresh (\<lambda>st. pbind fresh (\<lambda>cfg.
     pbind (modify (\<lambda>w. w\<lparr>cw_stores := (cw_stores w)(st := s), cw_configs := (cw_configs w)(cfg := DEFAULT_HUB_ADDR)\<rparr>)) (\<lambda>_.
     alloc (CStorage st cfg))))"

definition wispers_storage_new_in_memory :: "('w, 's, 'q) c_env \<Rightarrow> ('w, 's, 'q, addr) c_prog" where
  "wispers_storage_new_in_memory E = new_storage (ce_empty E)"

text \<open>The table of callbacks is refused when it is null or has a gap.\<close>

definition wispers_storage_new_with_callbacks :: "addr \<Rightarrow> ('w, 's, 'q, addr) c_prog" where
  "wispers_storage_new_with_callbacks p =
     (if p = 0 then ret 0
      else pbind (load_as as_callbacks p) (\<lambda>table. case table of None \<Rightarrow> ret 0 | Some s \<Rightarrow> new_storage s))"

definition wispers_storage_free :: "addr \<Rightarrow> ('w, 's, 'q, unit) c_prog" where
  "wispers_storage_free p = free_as as_storage p"

text \<open>\<open>from_registration\<close>: three strings, all allocated or none.\<close>

definition from_registration ::
  "node_registration \<Rightarrow> ('w, 's, 'q, (registration_info, wispers_status) result) c_prog"
where
  "from_registration reg =
     (case rbind (cstring_new (nr_connectivity_group_id reg)) (\<lambda>cg.
           rbind (cstring_new (case nr_auth_token reg of Some t \<Rightarrow> t | None \<Rightarrow> [])) (\<lambda>token.
           rbind (cstring_new (nr_attestation_jwt reg)) (\<lambda>jwt. Ok (cg, token, jwt)))) of
        Ok (cg, token, jwt) \<Rightarrow>
          pbind (alloc (CString jwt)) (\<lambda>jwt_ptr.
          pbind (alloc (CString cg)) (\<lambda>cg_ptr.
          pbind (alloc (CString token)) (\<lambda>token_ptr.
          ret (Ok \<lparr>ri_connectivity_group_id = cg_ptr, ri_node_number = nr_node_number reg,
            ri_auth_token = token_ptr, ri_attestation_jwt = jwt_ptr\<rparr>))))
      | Err status \<Rightarrow> ret (Err status)
      | Panic \<Rightarrow> lift Panic)"

definition wispers_registration_info_free :: "addr \<Rightarrow> ('w, 's, 'q, unit) c_prog" where
  "wispers_registration_info_free info =
     (if info = 0 then ret ()
      else
        pbind (load_as as_registration_out info) (\<lambda>r.
        pbind (free_as as_cstring (ri_connectivity_group_id r)) (\<lambda>_.
        pbind (free_as as_cstring (ri_auth_token r)) (\<lambda>_.
        pbind (free_as as_cstring (ri_attestation_jwt r)) (\<lambda>_.
        store_at info (CRegistrationOut (r\<lparr>ri_connectivity_group_id := 0, ri_auth_token := 0,
          ri_attestation_jwt := 0\<rparr>)))))))"

definition wispers_storage_read_registration ::
  "('w, 's, 'q) c_env \<Rightarrow> addr \<Rightarrow> addr \<Rightarrow> ('w, 's, 'q, wispers_status) c_prog"
where
  "wispers_storage_read_registration E handle out_info =
     (if handle = 0 \<or> out_info = 0 then ret NullPointer
      else
        pbind (load_as as_storage handle) (\<lambda>(st, cfg).
        pbind (on_c_host st (read_registration (ce_store E))) (\<lambda>r. case r of
           Ok (Some reg) \<Rightarrow> pbind (from_registration reg) (\<lambda>made. case made of
               Ok info \<Rightarrow>
                 pbind (load_as as_registration_out out_info) (\<lambda>_.
                 pbind (store_at out_info (CRegistrationOut info)) (\<lambda>_. ret Success))
             | Err status \<Rightarrow> ret status
             | Panic \<Rightarrow> lift Panic)
         | Ok None \<Rightarrow>
             pbind (load_as as_registration_out out_info) (\<lambda>_.
             pbind (store_at out_info (CRegistrationOut registration_info_null)) (\<lambda>_. ret NotFound))
         | Err e \<Rightarrow> ret StoreError
         | Panic \<Rightarrow> lift Panic)))"

definition wispers_storage_override_hub_addr :: "addr \<Rightarrow> addr \<Rightarrow> ('w, 's, 'q, wispers_status) c_prog" where
  "wispers_storage_override_hub_addr handle hub_addr =
     not_null handle (with_text hub_addr (\<lambda>text_addr.
       pbind (load_as as_storage handle) (\<lambda>(st, cfg).
       pbind (modify (\<lambda>w. w\<lparr>cw_configs := (cw_configs w)(cfg := text_addr)\<rparr>)) (\<lambda>_. ret Success))))"

definition wispers_storage_delete_state :: "('w, 's, 'q) c_env \<Rightarrow> addr \<Rightarrow> ('w, 's, 'q, wispers_status) c_prog" where
  "wispers_storage_delete_state E handle =
     not_null handle
       (pbind (load_as as_storage handle) (\<lambda>(st, cfg).
        pbind (on_c_host st (delete_state (ce_store E))) (\<lambda>r. case r of
          Ok _ \<Rightarrow> ret Success | Err e \<Rightarrow> ret (status_of_error e) | Panic \<Rightarrow> lift Panic)))"

definition wispers_storage_restore_or_init_async ::
  "addr \<Rightarrow> addr \<Rightarrow> nat option \<Rightarrow> ('w, 's, 'q, wispers_status) c_prog"
where
  "wispers_storage_restore_or_init_async handle ctx callback =
     not_null handle (with_callback callback (\<lambda>f.
       pbind (load_as as_storage handle) (\<lambda>(st, cfg). spawn ctx f (RestoreTask st cfg))))"

subsection \<open>Nodes\<close>

definition wispers_node_free :: "addr \<Rightarrow> ('w, 's, 'q, unit) c_prog" where
  "wispers_node_free p = free_as as_node p"

definition wispers_node_state :: "bool \<Rightarrow> addr \<Rightarrow> ('w, 's, 'q, wispers_node_state_t) c_prog" where
  "wispers_node_state in_callback handle =
     (if handle = 0 then ret StatePending
      else pbind (load_as as_node handle) (\<lambda>c.
        pbind (blocking_lock in_callback c) (\<lambda>cell. ret (node_state_to_ffi (node_state_of (nc_node cell))))))"

text \<open>What the calls on a node that is kept have in common: a clone of the handle.\<close>

definition spawn_on_node ::
  "addr \<Rightarrow> addr \<Rightarrow> nat option \<Rightarrow> (nat \<Rightarrow> task) \<Rightarrow> ('w, 's, 'q, wispers_status) c_prog"
where
  "spawn_on_node handle ctx callback tk =
     with_callback callback (\<lambda>f. pbind (load_as as_node handle) (\<lambda>c. spawn ctx f (tk c)))"

definition wispers_node_register_async ::
  "addr \<Rightarrow> addr \<Rightarrow> addr \<Rightarrow> nat option \<Rightarrow> ('w, 's, 'q, wispers_status) c_prog"
where
  "wispers_node_register_async handle token ctx callback =
     not_null handle (with_text token (\<lambda>t.
       spawn_on_node handle ctx callback (\<lambda>c. NodeTask c (CallRegister t))))"

definition wispers_node_activate_async ::
  "addr \<Rightarrow> addr \<Rightarrow> addr \<Rightarrow> nat option \<Rightarrow> ('w, 's, 'q, wispers_status) c_prog"
where
  "wispers_node_activate_async handle activation_code ctx callback =
     not_null handle (with_text activation_code (\<lambda>t.
       spawn_on_node handle ctx callback (\<lambda>c. NodeTask c (CallActivate t))))"

text \<open>Logging out consumes the handle; the task keeps the node.\<close>

definition wispers_node_logout_async :: "addr \<Rightarrow> addr \<Rightarrow> nat option \<Rightarrow> ('w, 's, 'q, wispers_status) c_prog" where
  "wispers_node_logout_async handle ctx callback =
     not_null handle (with_callback callback (\<lambda>f.
       pbind (take_as as_node handle) (\<lambda>c. spawn ctx f (NodeTask c CallLogout))))"

definition wispers_node_revoke_node_async ::
  "addr \<Rightarrow> i32 \<Rightarrow> addr \<Rightarrow> nat option \<Rightarrow> ('w, 's, 'q, wispers_status) c_prog"
where
  "wispers_node_revoke_node_async handle target ctx callback =
     not_null handle (spawn_on_node handle ctx callback (\<lambda>c. NodeTask c (CallRevoke target)))"

definition wispers_node_refresh_membership_async ::
  "addr \<Rightarrow> addr \<Rightarrow> nat option \<Rightarrow> ('w, 's, 'q, wispers_status) c_prog"
where
  "wispers_node_refresh_membership_async handle ctx callback =
     not_null handle (spawn_on_node handle ctx callback (\<lambda>c. NodeTask c CallRefresh))"

definition wispers_node_group_info_async ::
  "addr \<Rightarrow> addr \<Rightarrow> nat option \<Rightarrow> ('w, 's, 'q, wispers_status) c_prog"
where
  "wispers_node_group_info_async handle ctx callback =
     not_null handle (spawn_on_node handle ctx callback (\<lambda>c. NodeTask c CallGroupInfo))"

definition wispers_node_connect_udp_async ::
  "addr \<Rightarrow> i32 \<Rightarrow> addr \<Rightarrow> nat option \<Rightarrow> ('w, 's, 'q, wispers_status) c_prog"
where
  "wispers_node_connect_udp_async handle peer ctx callback =
     not_null handle (spawn_on_node handle ctx callback (\<lambda>c. ConnectTask c peer Datagram))"

definition wispers_node_connect_quic_async ::
  "addr \<Rightarrow> i32 \<Rightarrow> addr \<Rightarrow> nat option \<Rightarrow> ('w, 's, 'q, wispers_status) c_prog"
where
  "wispers_node_connect_quic_async handle peer ctx callback =
     not_null handle (spawn_on_node handle ctx callback (\<lambda>c. ConnectTask c peer Stream))"

subsection \<open>Serving\<close>

definition wispers_serving_handle_free :: "addr \<Rightarrow> ('w, 's, 'q, unit) c_prog" where
  "wispers_serving_handle_free p = free_as as_serving_handle p"

text \<open>A session that is dropped without having run is over: its handle finds it gone.\<close>

definition on_cell ::
  "(('w, 'q) session_cell \<Rightarrow> ('w, 'q) session_cell) \<Rightarrow> nat \<Rightarrow> ('w, 's, 'q) c_world \<Rightarrow> ('w, 's, 'q) c_world"
where
  "on_cell f k w = w\<lparr>cw_sessions := (cw_sessions w)(k := map_option f (cw_sessions w k))\<rparr>"

definition drop_session :: "nat option \<Rightarrow> ('w, 's, 'q, unit) c_prog" where
  "drop_session session = (case session of
     None \<Rightarrow> ret ()
   | Some k \<Rightarrow> modify (on_cell (\<lambda>cell. cell\<lparr>sc_session := ended (Ok ()) (sc_session cell)\<rparr>) k))"

definition wispers_serving_session_free :: "addr \<Rightarrow> ('w, 's, 'q, unit) c_prog" where
  "wispers_serving_session_free p =
     (if p = 0 then ret () else pbind (take_as as_serving_session p) drop_session)"

definition wispers_incoming_connections_free :: "addr \<Rightarrow> ('w, 's, 'q, unit) c_prog" where
  "wispers_incoming_connections_free p = free_as as_incoming p"

text \<open>The receivers are shared: the task keeps its own, whatever becomes of the handle.\<close>

definition accept_async :: "transport \<Rightarrow> addr \<Rightarrow> addr \<Rightarrow> nat option \<Rightarrow> ('w, 's, 'q, wispers_status) c_prog" where
  "accept_async transport handle ctx callback =
     not_null handle (with_callback callback (\<lambda>f.
       pbind (load_as as_incoming handle) (\<lambda>k. spawn ctx f (AcceptTask k transport))))"

definition wispers_incoming_accept_udp_async ::
  "addr \<Rightarrow> addr \<Rightarrow> nat option \<Rightarrow> ('w, 's, 'q, wispers_status) c_prog"
where
  "wispers_incoming_accept_udp_async handle ctx callback = accept_async Datagram handle ctx callback"

definition wispers_incoming_accept_quic_async ::
  "addr \<Rightarrow> addr \<Rightarrow> nat option \<Rightarrow> ('w, 's, 'q, wispers_status) c_prog"
where
  "wispers_incoming_accept_quic_async handle ctx callback = accept_async Stream handle ctx callback"

definition extract_serving_params :: "string \<Rightarrow> node_cell \<Rightarrow> (serving_params, wispers_status) result" where
  "extract_serving_params hub_addr cell =
     (if node_state_of (nc_node cell) = Pending then Err StatusInvalidState
      else
        rbind (ok_or StatusInvalidState (registration_of (nc_node cell))) (\<lambda>registration.
        Ok \<lparr>sv_hub_addr = hub_addr, sv_registration = registration,
          sv_signing_key = nd_signing_key (nc_node cell), sv_rtt = nc_rtt cell\<rparr>))"

definition wispers_node_start_serving_async ::
  "bool \<Rightarrow> addr \<Rightarrow> addr \<Rightarrow> nat option \<Rightarrow> ('w, 's, 'q, wispers_status) c_prog"
where
  "wispers_node_start_serving_async in_callback handle ctx callback =
     not_null handle (with_callback callback (\<lambda>f.
       pbind (load_as as_node handle) (\<lambda>c.
       pbind (blocking_lock in_callback c) (\<lambda>cell.
       pbind (gets (\<lambda>w. cw_configs w (nc_config cell))) (\<lambda>hub_addr.
       case extract_serving_params hub_addr cell of
          Ok params \<Rightarrow> spawn ctx f (ServeTask params)
        | Err status \<Rightarrow> ret status
        | Panic \<Rightarrow> lift Panic)))))"

text \<open>\<open>start_serving_impl\<close>: the session, under a number of its own.\<close>

definition start_serving_impl ::
  "'w hub \<Rightarrow> serving_params \<Rightarrow> ('w, 's, 'q, (nat, hub_error) result) c_prog"
where
  "start_serving_impl H params = (\<lambda>w.
     case open_serving_connection H (sv_hub_addr params) (sv_registration params)
         ((cw_env w)\<lparr>ev_rtt := cw_rtts w (sv_rtt params)\<rparr>) of
       (r, e) \<Rightarrow>
         (let w' = w\<lparr>cw_env := env.truncate e, cw_rtts := (cw_rtts w)(sv_rtt params := ev_rtt e)\<rparr>;
              reg = sv_registration params in
          (case r of
             Ok opened_at \<Rightarrow>
               (let session = session_new opened_at (sv_signing_key params)
                      (nr_connectivity_group_id reg) (nr_node_number reg)
                      \<lparr>pcf_hub_addr = sv_hub_addr params, pcf_registration = reg\<rparr> e in
                (Ok (Ok (mm_next w)), w'\<lparr>cw_sessions := (cw_sessions w')(mm_next w \<mapsto>
                   \<lparr>sc_session = session, sc_rtt = sv_rtt params, sc_started = False\<rparr>),
                   mm_next := mm_next w + 1\<rparr>))
           | Err err \<Rightarrow> (Ok (Err err), w')
           | Panic \<Rightarrow> (Panic, w'))))"

definition spawn_on_session ::
  "addr \<Rightarrow> addr \<Rightarrow> nat option \<Rightarrow> (nat \<Rightarrow> task) \<Rightarrow> ('w, 's, 'q, wispers_status) c_prog"
where
  "spawn_on_session handle ctx callback tk =
     not_null handle (with_callback callback (\<lambda>f.
       pbind (load_as as_serving_handle handle) (\<lambda>k. spawn ctx f (tk k))))"

definition generate_activation_code_impl ::
  "addr \<Rightarrow> ttl_profile \<Rightarrow> addr \<Rightarrow> nat option \<Rightarrow> ('w, 's, 'q, wispers_status) c_prog"
where
  "generate_activation_code_impl handle ttl_profile ctx callback =
     spawn_on_session handle ctx callback (\<lambda>k. CodeTask k ttl_profile)"

definition wispers_serving_handle_generate_activation_code_async ::
  "addr \<Rightarrow> addr \<Rightarrow> nat option \<Rightarrow> ('w, 's, 'q, wispers_status) c_prog"
where
  "wispers_serving_handle_generate_activation_code_async handle ctx callback =
     generate_activation_code_impl handle Interactive ctx callback"

datatype wispers_ttl_profile = TtlInteractive | TtlAsynchronous

fun ttl_profile_of :: "wispers_ttl_profile \<Rightarrow> ttl_profile" where
  "ttl_profile_of TtlInteractive = Interactive"
| "ttl_profile_of TtlAsynchronous = Asynchronous"

definition wispers_serving_handle_generate_activation_code_with_ttl_async ::
  "addr \<Rightarrow> wispers_ttl_profile \<Rightarrow> addr \<Rightarrow> nat option \<Rightarrow> ('w, 's, 'q, wispers_status) c_prog"
where
  "wispers_serving_handle_generate_activation_code_with_ttl_async handle profile ctx callback =
     generate_activation_code_impl handle (ttl_profile_of profile) ctx callback"

text \<open>Running consumes the session, also when it turns out to be gone already.\<close>

definition wispers_serving_session_run_async ::
  "addr \<Rightarrow> addr \<Rightarrow> nat option \<Rightarrow> ('w, 's, 'q, wispers_status) c_prog"
where
  "wispers_serving_session_run_async handle ctx callback =
     not_null handle (with_callback callback (\<lambda>f.
       pbind (take_as as_serving_session handle) (\<lambda>session. case session of
          Some k \<Rightarrow> pbind (modify (on_cell (\<lambda>cell. cell\<lparr>sc_started := True\<rparr>) k)) (\<lambda>_. spawn ctx f (RunTask k))
        | None \<Rightarrow> ret StatusInvalidState)))"

definition wispers_serving_handle_shutdown_async ::
  "addr \<Rightarrow> addr \<Rightarrow> nat option \<Rightarrow> ('w, 's, 'q, wispers_status) c_prog"
where
  "wispers_serving_handle_shutdown_async handle ctx callback = spawn_on_session handle ctx callback ShutdownTask"

definition wispers_serving_handle_status_async ::
  "addr \<Rightarrow> addr \<Rightarrow> nat option \<Rightarrow> ('w, 's, 'q, wispers_status) c_prog"
where
  "wispers_serving_handle_status_async handle ctx callback = spawn_on_session handle ctx callback StatusTask"

subsection \<open>Connections and streams\<close>

text \<open>These tasks go on with the raw pointer of the handle.\<close>

definition spawn_on_pointer ::
  "addr \<Rightarrow> addr \<Rightarrow> nat option \<Rightarrow> conn_call \<Rightarrow> ('w, 's, 'q, wispers_status) c_prog"
where
  "spawn_on_pointer handle ctx callback call =
     not_null handle (with_callback callback (\<lambda>f. spawn ctx f (OnPointer handle call)))"

definition wispers_udp_connection_free :: "addr \<Rightarrow> ('w, 's, 'q, unit) c_prog" where
  "wispers_udp_connection_free p = free_as as_udp p"

text \<open>\<open>from_raw_parts\<close>: the buffer must be as long as the caller says.\<close>

definition load_slice :: "addr \<Rightarrow> nat \<Rightarrow> ('w, 's, 'q, bytes) c_prog" where
  "load_slice data len = pbind (load_as as_buffer data) (\<lambda>b.
     if len \<le> length b then ret (take len b) else fail (WrongObject data))"

text \<open>An operation on the connection behind a handle.\<close>

definition on_c_udp ::
  "addr \<Rightarrow> (udp_connection \<times> 'w, 'a, p2p_error) prog \<Rightarrow> ('w, 's, 'q, ('a, p2p_error) result) c_prog"
where
  "on_c_udp handle m =
     pbind (load_as as_udp handle) (\<lambda>c. (\<lambda>w. case m (c, ev_world (cw_env w)) of
       (r, (c', e)) \<Rightarrow> (Ok r, w\<lparr>mm_mem := (mm_mem w)(handle \<mapsto> CUdpConnection c'),
          cw_env := (cw_env w)\<lparr>ev_world := e\<rparr>\<rparr>)))"

definition wispers_udp_connection_send ::
  "('w, 's, 'q) c_env \<Rightarrow> addr \<Rightarrow> addr \<Rightarrow> nat \<Rightarrow> ('w, 's, 'q, wispers_status) c_prog"
where
  "wispers_udp_connection_send E handle data len =
     (if handle = 0 \<or> data = 0 then ret NullPointer
      else
        pbind (load_slice data len) (\<lambda>b.
        pbind (on_c_udp handle (udp_send (ce_prims E) (ce_juice E) b)) (\<lambda>r. case r of
          Ok _ \<Rightarrow> ret Success | Err _ \<Rightarrow> ret ConnectionFailed | Panic \<Rightarrow> lift Panic)))"

definition wispers_udp_connection_recv_async ::
  "addr \<Rightarrow> addr \<Rightarrow> nat option \<Rightarrow> ('w, 's, 'q, wispers_status) c_prog"
where
  "wispers_udp_connection_recv_async handle ctx callback = spawn_on_pointer handle ctx callback UdpRecv"

text \<open>Closing consumes the connection; dropping it closes the agent.\<close>

definition wispers_udp_connection_close :: "addr \<Rightarrow> ('w, 's, 'q, unit) c_prog" where
  "wispers_udp_connection_close handle = free_as as_udp handle"

definition wispers_quic_connection_free :: "addr \<Rightarrow> ('w, 's, 'q, unit) c_prog" where
  "wispers_quic_connection_free p = free_as as_quic p"

definition wispers_quic_stream_free :: "addr \<Rightarrow> ('w, 's, 'q, unit) c_prog" where
  "wispers_quic_stream_free p = free_as as_stream p"

definition wispers_quic_connection_open_stream_async ::
  "addr \<Rightarrow> addr \<Rightarrow> nat option \<Rightarrow> ('w, 's, 'q, wispers_status) c_prog"
where
  "wispers_quic_connection_open_stream_async handle ctx callback =
     spawn_on_pointer handle ctx callback QuicOpenStream"

definition wispers_quic_connection_accept_stream_async ::
  "addr \<Rightarrow> addr \<Rightarrow> nat option \<Rightarrow> ('w, 's, 'q, wispers_status) c_prog"
where
  "wispers_quic_connection_accept_stream_async handle ctx callback =
     spawn_on_pointer handle ctx callback QuicAcceptStream"

definition wispers_quic_connection_ping_async ::
  "addr \<Rightarrow> 32 word \<Rightarrow> addr \<Rightarrow> nat option \<Rightarrow> ('w, 's, 'q, wispers_status) c_prog"
where
  "wispers_quic_connection_ping_async handle timeout_ms ctx callback =
     spawn_on_pointer handle ctx callback (QuicPing timeout_ms)"

definition spawn_quic_close ::
  "addr \<Rightarrow> addr \<Rightarrow> nat \<Rightarrow> (u64 \<times> string) option \<Rightarrow> ('w, 's, 'q, wispers_status) c_prog"
where
  "spawn_quic_close handle ctx f close =
     pbind (take_as as_quic handle) (\<lambda>k. spawn ctx f (CloseTask k close))"

definition wispers_quic_connection_close_async ::
  "addr \<Rightarrow> addr \<Rightarrow> nat option \<Rightarrow> ('w, 's, 'q, wispers_status) c_prog"
where
  "wispers_quic_connection_close_async handle ctx callback =
     not_null handle (with_callback callback (\<lambda>f. spawn_quic_close handle ctx f None))"

definition wispers_quic_connection_close_with_error_async ::
  "addr \<Rightarrow> u64 \<Rightarrow> addr \<Rightarrow> addr \<Rightarrow> nat option \<Rightarrow> ('w, 's, 'q, wispers_status) c_prog"
where
  "wispers_quic_connection_close_with_error_async handle error_code reason ctx callback =
     not_null handle (with_callback callback (\<lambda>f.
       if reason = 0 then spawn_quic_close handle ctx f (Some (error_code, []))
       else with_text reason (\<lambda>r. spawn_quic_close handle ctx f (Some (error_code, r)))))"

definition wispers_quic_connection_peer_close_info ::
  "('w, 's, 'q) c_env \<Rightarrow> addr \<Rightarrow> ('w, 's, 'q, addr) c_prog"
where
  "wispers_quic_connection_peer_close_info E handle =
     (if handle = 0 then ret 0
      else pbind (load_as as_quic handle) (\<lambda>k. case ce_peer_close E k of
        Some info \<Rightarrow> alloc (CCloseInfo (from_close_info info)) | None \<Rightarrow> ret 0))"

text \<open>The data of a write is copied before the call returns.\<close>

definition wispers_quic_stream_write_async ::
  "addr \<Rightarrow> addr \<Rightarrow> nat \<Rightarrow> addr \<Rightarrow> nat option \<Rightarrow> ('w, 's, 'q, wispers_status) c_prog"
where
  "wispers_quic_stream_write_async handle data len ctx callback =
     (if handle = 0 \<or> data = 0 then ret NullPointer
      else with_callback callback (\<lambda>f.
        pbind (load_slice data len) (\<lambda>b. spawn ctx f (OnPointer handle (StreamWrite b)))))"

definition wispers_quic_stream_read_async ::
  "addr \<Rightarrow> nat \<Rightarrow> addr \<Rightarrow> nat option \<Rightarrow> ('w, 's, 'q, wispers_status) c_prog"
where
  "wispers_quic_stream_read_async handle max_len ctx callback =
     spawn_on_pointer handle ctx callback (StreamRead max_len)"

definition wispers_quic_stream_finish_async ::
  "addr \<Rightarrow> addr \<Rightarrow> nat option \<Rightarrow> ('w, 's, 'q, wispers_status) c_prog"
where
  "wispers_quic_stream_finish_async handle ctx callback =
     spawn_on_pointer handle ctx callback StreamFinish"

definition wispers_quic_stream_shutdown_async ::
  "addr \<Rightarrow> addr \<Rightarrow> nat option \<Rightarrow> ('w, 's, 'q, wispers_status) c_prog"
where
  "wispers_quic_stream_shutdown_async handle ctx callback =
     spawn_on_pointer handle ctx callback StreamShutdown"

end
