(* ===== verification/Ffi_Tasks.thy ===== *)
theory Ffi_Tasks
  imports Ffi
begin

text \<open>
  The spawned tasks of \<open>wispers-connect/src/ffi/\<close> and the callbacks they make, the accessors
  of the snapshots handed to a callback, and the calls C can make, as data.
\<close>

subsection \<open>What a task hands its callback\<close>

text \<open>
  A task ends with the arguments of its callback; \<open>None\<close> is a task that is not done yet, an
  outcome \<open>Panic\<close> one that ends without a callback.
\<close>

type_synonym callback_args = "wispers_status \<times> string option \<times> c_args"

definition done_with :: "c_args \<Rightarrow> ('w, 's, 'q, callback_args option) c_prog" where
  "done_with args = ret (Some (Success, None, args))"

definition failed_with ::
  "c_args \<Rightarrow> wispers_status \<Rightarrow> string \<Rightarrow> ('w, 's, 'q, callback_args option) c_prog"
where
  "failed_with nothing status detail = ret (Some (status, Some (error_detail detail), nothing))"

definition hand_out :: "'s c_object \<Rightarrow> ('w, 's, 'q, callback_args option) c_prog" where
  "hand_out ob = pbind (alloc ob) (\<lambda>p. done_with (ArgHandle p))"

definition reply_with ::
  "c_args \<Rightarrow> ('e \<Rightarrow> wispers_status) \<Rightarrow> ('e \<Rightarrow> string) \<Rightarrow> ('a \<Rightarrow> ('w, 's, 'q, callback_args option) c_prog) \<Rightarrow>
   ('a, 'e) result \<Rightarrow> ('w, 's, 'q, callback_args option) c_prog"
where
  "reply_with nothing status detail ok r = (case r of
     Ok x \<Rightarrow> ok x | Err e \<Rightarrow> failed_with nothing (status e) (detail e) | Panic \<Rightarrow> lift Panic)"

subsection \<open>Tasks on nodes\<close>

text \<open>\<open>WispersNodeHandle::new\<close>: a cell for the node, with an estimator of its own.\<close>

definition new_node_handle :: "node \<Rightarrow> nat \<Rightarrow> nat \<Rightarrow> ('w, 's, 'q, addr) c_prog" where
  "new_node_handle n st cfg =
     pbind fresh (\<lambda>rtt. pbind fresh (\<lambda>c.
     pbind (modify (\<lambda>w. w\<lparr>cw_rtts := (cw_rtts w)(rtt := rtt_new), cw_nodes := (cw_nodes w)(c \<mapsto>
       \<lparr>nc_node = n, nc_store = st, nc_config = cfg, nc_rtt = rtt\<rparr>)\<rparr>)) (\<lambda>_.
     alloc (CNode c))))"

definition restore_task ::
  "('w, 's, 'q) c_env \<Rightarrow> (nat \<Rightarrow> u8) \<Rightarrow> nat \<Rightarrow> nat \<Rightarrow> ('w, 's, 'q, callback_args option) c_prog"
where
  "restore_task E rand st cfg =
     pbind (gets (\<lambda>w. cw_configs w cfg)) (\<lambda>hub_addr.
     pbind (on_c_host st (restore_or_init_node (ce_prims E) (ce_hub E) (ce_store E) hub_addr rand))
       (reply_with (ArgNode 0 StatePending) status_of_error (ce_node_text E) (\<lambda>n.
          pbind (new_node_handle n st cfg) (\<lambda>p.
          done_with (ArgNode p (node_state_to_ffi (node_state_of n)))))))"

definition unit_task ::
  "('w, 's, 'q) c_env \<Rightarrow> nat \<Rightarrow> (('w, 's) sys, 'a, node_state_error) prog \<Rightarrow>
   ('w, 's, 'q, callback_args option) c_prog"
where
  "unit_task E c m =
     pbind (on_c_node c m) (reply_with NoArgs status_of_error (ce_node_text E) (\<lambda>_. done_with NoArgs))"

definition handle_group_info_result ::
  "('w, 's, 'q) c_env \<Rightarrow> (group_info, node_state_error) result \<Rightarrow>
   ('w, 's, 'q, callback_args option) c_prog"
where
  "handle_group_info_result E result =
     reply_with (ArgHandle 0) status_of_error (ce_node_text E) (\<lambda>info.
       case from_group_info info of
         Ok g \<Rightarrow> hand_out (CGroupInfo g)
       | Err status \<Rightarrow> failed_with (ArgHandle 0) status
           (''failed to build group info: '' @ ce_status_text E status)
       | Panic \<Rightarrow> lift Panic) result"

definition register_task :: "('w, 's, 'q) c_env \<Rightarrow> nat \<Rightarrow> string \<Rightarrow> ('w, 's, 'q, callback_args option) c_prog" where
  "register_task E c token = unit_task E c (register (ce_hub E) (ce_store E) token)"

definition activate_task ::
  "('w, 's, 'q) c_env \<Rightarrow> (nat \<Rightarrow> u8) \<Rightarrow> nat \<Rightarrow> string \<Rightarrow> ('w, 's, 'q, callback_args option) c_prog"
where
  "activate_task E rand c code = unit_task E c (activate (ce_prims E) (ce_hub E) rand code)"

definition logout_task :: "('w, 's, 'q) c_env \<Rightarrow> nat \<Rightarrow> ('w, 's, 'q, callback_args option) c_prog" where
  "logout_task E c = unit_task E c (logout (ce_prims E) (ce_hub E) (ce_store E))"

definition revoke_task :: "('w, 's, 'q) c_env \<Rightarrow> nat \<Rightarrow> i32 \<Rightarrow> ('w, 's, 'q, callback_args option) c_prog" where
  "revoke_task E c target = unit_task E c (revoke_node (ce_prims E) (ce_hub E) target)"

definition refresh_task :: "('w, 's, 'q) c_env \<Rightarrow> nat \<Rightarrow> ('w, 's, 'q, callback_args option) c_prog" where
  "refresh_task E c = unit_task E c (refresh_membership (ce_prims E) (ce_hub E))"

definition group_info_task :: "('w, 's, 'q) c_env \<Rightarrow> nat \<Rightarrow> ('w, 's, 'q, callback_args option) c_prog" where
  "group_info_task E c = pbind (on_c_node c (get_group_info (ce_hub E))) (handle_group_info_result E)"

fun node_task ::
  "('w, 's, 'q) c_env \<Rightarrow> (nat \<Rightarrow> u8) \<Rightarrow> nat \<Rightarrow> node_call \<Rightarrow> ('w, 's, 'q, callback_args option) c_prog"
where
  "node_task E rand c (CallRegister token) = register_task E c token"
| "node_task E rand c (CallActivate code) = activate_task E rand c code"
| "node_task E rand c CallLogout = logout_task E c"
| "node_task E rand c (CallRevoke target) = revoke_task E c target"
| "node_task E rand c CallRefresh = refresh_task E c"
| "node_task E rand c CallGroupInfo = group_info_task E c"

lemmas node_task_defs = register_task_def activate_task_def logout_task_def revoke_task_def refresh_task_def
  group_info_task_def

text \<open>A QUIC handshake that has not come to an end after \<open>evs\<close> keeps its task going.\<close>

definition connect_udp_task ::
  "('w, 's, 'q) c_env \<Rightarrow> (nat \<Rightarrow> u8) \<Rightarrow> nat \<Rightarrow> i32 \<Rightarrow> ('w, 's, 'q, callback_args option) c_prog"
where
  "connect_udp_task E rand c peer =
     pbind (on_c_node c (connect_udp (ce_prims E) (ce_hub E) (ce_juice E) rand peer))
       (reply_with (ArgHandle 0) p2p_error_to_status (ce_p2p_text E) (\<lambda>conn. hand_out (CUdpConnection conn)))"

definition connect_quic_task ::
  "('w, 's, 'q) c_env \<Rightarrow> (nat \<Rightarrow> u8) \<Rightarrow> ('q qconn \<times> 'w \<Rightarrow> 'q qconn \<times> 'w) list \<Rightarrow> nat \<Rightarrow> i32 \<Rightarrow>
   ('w, 's, 'q, callback_args option) c_prog"
where
  "connect_quic_task E rand evs c peer =
     pbind (on_c_node c (connect_quic (ce_prims E) (ce_hub E) (ce_juice E) (ce_quiche E) evs rand peer))
       (reply_with (ArgHandle 0) p2p_error_to_status (ce_p2p_text E) (\<lambda>conn. case conn of
          Some _ \<Rightarrow> pbind fresh (\<lambda>n. hand_out (CQuicConnection n)) | None \<Rightarrow> ret None))"

fun connect_task ::
  "('w, 's, 'q) c_env \<Rightarrow> (nat \<Rightarrow> u8) \<Rightarrow> ('q qconn \<times> 'w \<Rightarrow> 'q qconn \<times> 'w) list \<Rightarrow> nat \<Rightarrow> i32 \<Rightarrow>
   transport \<Rightarrow> ('w, 's, 'q, callback_args option) c_prog"
where
  "connect_task E rand evs c peer Datagram = connect_udp_task E rand c peer"
| "connect_task E rand evs c peer Stream = connect_quic_task E rand evs c peer"

lemmas connect_task_defs = connect_udp_task_def connect_quic_task_def

subsection \<open>Tasks on sessions\<close>

definition serve_task ::
  "('w, 's, 'q) c_env \<Rightarrow> serving_params \<Rightarrow> ('w, 's, 'q, callback_args option) c_prog"
where
  "serve_task E params =
     pbind (start_serving_impl (ce_hub E) params)
       (reply_with (ArgServing 0 0 0) hub_status (ce_hub_text E) (\<lambda>k.
          pbind (alloc (CServingHandle k)) (\<lambda>h.
          pbind (alloc (CServingSession (Some k))) (\<lambda>s.
          pbind (alloc (CIncoming k)) (\<lambda>i. done_with (ArgServing h s i))))))"

text \<open>A command waits in the channel until the session's loop takes it or the session is gone.\<close>

definition once_heard ::
  "nat \<Rightarrow> ('w, 's, 'q, callback_args option) c_prog \<Rightarrow> ('w, 's, 'q, callback_args option) c_prog"
where
  "once_heard k m = (\<lambda>w. case cw_sessions w k of
     None \<Rightarrow> (Panic, w)
   | Some cell \<Rightarrow>
       if sc_started cell \<or> \<not> running (se_phase (sc_session cell)) then m w else (Ok None, w))"

definition code_task ::
  "('w, 's, 'q) c_env \<Rightarrow> (nat \<Rightarrow> u8) \<Rightarrow> nat \<Rightarrow> ttl_profile \<Rightarrow> ('w, 's, 'q, callback_args option) c_prog"
where
  "code_task E rand k profile = once_heard k
     (pbind (on_c_session k (handle_generate_activation_code rand profile))
       (reply_with (ArgHandle 0) code_error_status (ce_serving_text E) (\<lambda>code.
          pbind (lift (format_code (ce_prims E) code)) (\<lambda>text_code.
          case cstring_new text_code of
            Ok s \<Rightarrow> hand_out (CString s)
          | _ \<Rightarrow> failed_with (ArgHandle 0) InvalidUtf8 ''nul byte found in provided data''))))"

definition shutdown_task ::
  "('w, 's, 'q) c_env \<Rightarrow> nat \<Rightarrow> ('w, 's, 'q, callback_args option) c_prog"
where
  "shutdown_task E k = once_heard k
     (pbind (on_c_session k handle_shutdown)
       (reply_with NoArgs (\<lambda>_. StatusHubError) (ce_serving_text E) (\<lambda>_. done_with NoArgs)))"

definition status_task ::
  "('w, 's, 'q) c_env \<Rightarrow> nat \<Rightarrow> ('w, 's, 'q, callback_args option) c_prog"
where
  "status_task E k = once_heard k
     (pbind (on_c_session k handle_status)
       (reply_with (ArgHandle 0) status_error_status (ce_serving_text E) (\<lambda>st.
          case from_serving_status st of
            Ok s \<Rightarrow> hand_out (CServingStatus s)
          | Err status \<Rightarrow> failed_with (ArgHandle 0) status
              (''failed to build serving status: '' @ ce_status_text E status)
          | Panic \<Rightarrow> lift Panic)))"

text \<open>The loop's task is done when the session has ended.\<close>

definition run_session_task ::
  "('w, 's, 'q) c_env \<Rightarrow> nat \<Rightarrow> ('w, 's, 'q, callback_args option) c_prog"
where
  "run_session_task E k = (\<lambda>w. case cw_sessions w k of
     None \<Rightarrow> (Panic, w)
   | Some cell \<Rightarrow> (case se_phase (sc_session cell) of
       Ended r \<Rightarrow> reply_with NoArgs session_end_status (ce_serving_text E) (\<lambda>_. done_with NoArgs) r w
     | _ \<Rightarrow> (Ok None, w)))"

text \<open>
  \<open>recv\<close> on a channel of incoming connections: the next one, or the end when nobody is left
  to send - the session is over and the tasks it spawned are done.
\<close>

definition channel_closed :: "('w, 'q) session \<Rightarrow> bool" where
  "channel_closed s \<longleftrightarrow> \<not> running (se_phase s) \<and> se_tasks s = []"

definition next_incoming ::
  "('w, 's, 'q) c_env \<Rightarrow> ('w, 'q) session \<Rightarrow> ('a, p2p_error) result list \<Rightarrow>
   ('a \<Rightarrow> ('w, 's, 'q, callback_args option) c_prog) \<Rightarrow> ('w, 's, 'q, callback_args option) c_prog"
where
  "next_incoming E s queue ok = (case queue of
     r # _ \<Rightarrow> reply_with (ArgHandle 0) (\<lambda>_. ConnectionFailed) (ce_p2p_text E) ok r
   | [] \<Rightarrow> if channel_closed s
          then failed_with (ArgHandle 0) ConnectionFailed ''channel closed (session ended)''
          else ret None)"

definition on_queue ::
  "nat \<Rightarrow> (('w, 'q) session \<Rightarrow> ('w, 'q) session) \<Rightarrow>
   (('w, 'q) session \<Rightarrow> ('w, 's, 'q, callback_args option) c_prog) \<Rightarrow>
   ('w, 's, 'q, callback_args option) c_prog"
where
  "on_queue k removed k_next = (\<lambda>w. case cw_sessions w k of
     None \<Rightarrow> (Panic, w)
   | Some cell \<Rightarrow>
       pbind (modify (on_cell (\<lambda>cell. cell\<lparr>sc_session := removed (sc_session cell)\<rparr>) k))
         (\<lambda>_. k_next (sc_session cell)) w)"

definition accept_udp_task :: "('w, 's, 'q) c_env \<Rightarrow> nat \<Rightarrow> ('w, 's, 'q, callback_args option) c_prog" where
  "accept_udp_task E k =
     on_queue k (\<lambda>s. s\<lparr>se_incoming_udp := tl (se_incoming_udp s)\<rparr>)
       (\<lambda>s. next_incoming E s (se_incoming_udp s) (\<lambda>conn. hand_out (CUdpConnection conn)))"

definition accept_quic_task :: "('w, 's, 'q) c_env \<Rightarrow> nat \<Rightarrow> ('w, 's, 'q, callback_args option) c_prog" where
  "accept_quic_task E k =
     on_queue k (\<lambda>s. s\<lparr>se_incoming_quic := tl (se_incoming_quic s)\<rparr>)
       (\<lambda>s. next_incoming E s (se_incoming_quic s)
         (\<lambda>_. pbind fresh (\<lambda>n. hand_out (CQuicConnection n))))"

fun accept_task ::
  "('w, 's, 'q) c_env \<Rightarrow> nat \<Rightarrow> transport \<Rightarrow> ('w, 's, 'q, callback_args option) c_prog"
where
  "accept_task E k Datagram = accept_udp_task E k"
| "accept_task E k Stream = accept_quic_task E k"

lemmas accept_task_defs = accept_udp_task_def accept_quic_task_def

subsection \<open>Tasks on connections and streams\<close>

text \<open>What the network makes of an operation on a QUIC connection or a stream.\<close>

datatype net = NetDone | NetStream nat | NetData bytes | NetFailed p2p_error

definition ISIZE_MAX :: nat where "ISIZE_MAX = 2 ^ 63 - 1"

fun net_task ::
  "('w, 's, 'q) c_env \<Rightarrow> net \<Rightarrow> c_args \<Rightarrow> (p2p_error \<Rightarrow> wispers_status) \<Rightarrow>
   (net \<Rightarrow> ('w, 's, 'q, callback_args option) c_prog) \<Rightarrow> ('w, 's, 'q, callback_args option) c_prog"
where
  "net_task E (NetFailed e) nothing status ok = failed_with nothing (status e) (ce_p2p_text E e)"
| "net_task E net nothing status ok = ok net"

definition stream_handed :: "net \<Rightarrow> ('w, 's, 'q, callback_args option) c_prog" where
  "stream_handed net = (case net of NetStream n \<Rightarrow> hand_out (CQuicStream n) | _ \<Rightarrow> ret None)"

definition just_done :: "net \<Rightarrow> ('w, 's, 'q, callback_args option) c_prog" where
  "just_done net = (case net of NetDone \<Rightarrow> done_with NoArgs | _ \<Rightarrow> ret None)"

definition data_read :: "nat \<Rightarrow> net \<Rightarrow> ('w, 's, 'q, callback_args option) c_prog" where
  "data_read max_len net = (case net of
     NetData d \<Rightarrow> if length d \<le> max_len then done_with (ArgData (Some d)) else ret None
   | _ \<Rightarrow> ret None)"

text \<open>\<open>get\<close> dereferences the raw pointer when the task runs.\<close>

definition recv_task ::
  "('w, 's, 'q) c_env \<Rightarrow> addr \<Rightarrow> ('w, 's, 'q, callback_args option) c_prog"
where
  "recv_task E p =
     pbind (on_c_udp p (udp_recv (ce_prims E) (ce_juice E)))
       (reply_with (ArgData None) (\<lambda>_. ConnectionFailed) (ce_p2p_text E) (\<lambda>d. done_with (ArgData (Some d))))"

definition open_stream_task ::
  "('w, 's, 'q) c_env \<Rightarrow> net \<Rightarrow> addr \<Rightarrow> ('w, 's, 'q, callback_args option) c_prog"
where
  "open_stream_task E net p =
     pbind (load_as as_quic p) (\<lambda>_. net_task E net (ArgHandle 0) (\<lambda>_. ConnectionFailed) stream_handed)"

definition accept_stream_task ::
  "('w, 's, 'q) c_env \<Rightarrow> net \<Rightarrow> addr \<Rightarrow> ('w, 's, 'q, callback_args option) c_prog"
where
  "accept_stream_task E net p =
     pbind (load_as as_quic p) (\<lambda>_. net_task E net (ArgHandle 0) (\<lambda>_. ConnectionFailed) stream_handed)"

definition ping_task ::
  "('w, 's, 'q) c_env \<Rightarrow> net \<Rightarrow> addr \<Rightarrow> ('w, 's, 'q, callback_args option) c_prog"
where
  "ping_task E net p =
     pbind (load_as as_quic p) (\<lambda>_. net_task E net NoArgs p2p_error_to_status just_done)"

definition write_task ::
  "('w, 's, 'q) c_env \<Rightarrow> net \<Rightarrow> addr \<Rightarrow> ('w, 's, 'q, callback_args option) c_prog"
where
  "write_task E net p =
     pbind (load_as as_stream p) (\<lambda>_. net_task E net NoArgs (\<lambda>_. ConnectionFailed) just_done)"

definition read_task ::
  "('w, 's, 'q) c_env \<Rightarrow> net \<Rightarrow> addr \<Rightarrow> nat \<Rightarrow> ('w, 's, 'q, callback_args option) c_prog"
where
  "read_task E net p max_len =
     pbind (load_as as_stream p) (\<lambda>_.
       if ISIZE_MAX < max_len then lift Panic
       else net_task E net (ArgData None) (\<lambda>_. ConnectionFailed) (data_read max_len))"

definition finish_task ::
  "('w, 's, 'q) c_env \<Rightarrow> net \<Rightarrow> addr \<Rightarrow> ('w, 's, 'q, callback_args option) c_prog"
where
  "finish_task E net p =
     pbind (load_as as_stream p) (\<lambda>_. net_task E net NoArgs (\<lambda>_. ConnectionFailed) just_done)"

definition shutdown_stream_task ::
  "('w, 's, 'q) c_env \<Rightarrow> net \<Rightarrow> addr \<Rightarrow> ('w, 's, 'q, callback_args option) c_prog"
where
  "shutdown_stream_task E net p =
     pbind (load_as as_stream p) (\<lambda>_. net_task E net NoArgs (\<lambda>_. ConnectionFailed) just_done)"

text \<open>The timeout of a ping and the data of a write are what the network has been given.\<close>

fun pointer_task ::
  "('w, 's, 'q) c_env \<Rightarrow> net \<Rightarrow> addr \<Rightarrow> conn_call \<Rightarrow> ('w, 's, 'q, callback_args option) c_prog"
where
  "pointer_task E net p UdpRecv = recv_task E p"
| "pointer_task E net p QuicOpenStream = open_stream_task E net p"
| "pointer_task E net p QuicAcceptStream = accept_stream_task E net p"
| "pointer_task E net p (QuicPing timeout_ms) = ping_task E net p"
| "pointer_task E net p (StreamWrite data) = write_task E net p"
| "pointer_task E net p (StreamRead max_len) = read_task E net p max_len"
| "pointer_task E net p StreamFinish = finish_task E net p"
| "pointer_task E net p StreamShutdown = shutdown_stream_task E net p"

lemmas pointer_task_defs = recv_task_def open_stream_task_def accept_stream_task_def ping_task_def
  write_task_def read_task_def finish_task_def shutdown_stream_task_def

definition close_task :: "('w, 's, 'q) c_env \<Rightarrow> net \<Rightarrow> ('w, 's, 'q, callback_args option) c_prog" where
  "close_task E net = net_task E net NoArgs (\<lambda>_. ConnectionFailed) just_done"

subsection \<open>Running a task\<close>

fun run_spawned ::
  "('w, 's, 'q) c_env \<Rightarrow> (nat \<Rightarrow> u8) \<Rightarrow> ('q qconn \<times> 'w \<Rightarrow> 'q qconn \<times> 'w) list \<Rightarrow> net \<Rightarrow> task \<Rightarrow>
   ('w, 's, 'q, callback_args option) c_prog"
where
  "run_spawned E rand evs net (RestoreTask st cfg) = restore_task E rand st cfg"
| "run_spawned E rand evs net (NodeTask c call) = node_task E rand c call"
| "run_spawned E rand evs net (ConnectTask c peer transport) = connect_task E rand evs c peer transport"
| "run_spawned E rand evs net (ServeTask params) = serve_task E params"
| "run_spawned E rand evs net (CodeTask k profile) = code_task E rand k profile"
| "run_spawned E rand evs net (ShutdownTask k) = shutdown_task E k"
| "run_spawned E rand evs net (StatusTask k) = status_task E k"
| "run_spawned E rand evs net (RunTask k) = run_session_task E k"
| "run_spawned E rand evs net (AcceptTask k transport) = accept_task E k transport"
| "run_spawned E rand evs net (OnPointer p call) = pointer_task E net p call"
| "run_spawned E rand evs net (CloseTask n close) = close_task E net"

text \<open>
  The runtime runs task \<open>t\<close>: to its callback, or to a panic, which the runtime catches.  A
  task that is not done leaves no trace.
\<close>

definition complete ::
  "('w, 's, 'q) c_env \<Rightarrow> (nat \<Rightarrow> u8) \<Rightarrow> ('q qconn \<times> 'w \<Rightarrow> 'q qconn \<times> 'w) list \<Rightarrow> net \<Rightarrow> nat \<Rightarrow>
   ('w, 's, 'q, unit) c_prog"
where
  "complete E rand evs net t = (\<lambda>w. case cw_tasks w t of
     None \<Rightarrow> (Ok (), w)
   | Some pd \<Rightarrow> (case run_spawned E rand evs net (pd_task pd) w of
       (Ok None, _) \<Rightarrow> (Ok (), w)
     | (Ok (Some (status, detail, args)), w') \<Rightarrow>
         (Ok (), w'\<lparr>cw_tasks := (cw_tasks w')(t := None),
            cw_called := cw_called w' @ [\<lparr>ca_callback = pd_callback pd, ca_ctx = pd_ctx pd,
              ca_status = status, ca_detail = detail, ca_args = args\<rparr>]\<rparr>)
     | (Panic, w') \<Rightarrow> (Ok (), w'\<lparr>cw_tasks := (cw_tasks w')(t := None)\<rparr>)
     | (Err u, w') \<Rightarrow> (Err u, w')))"

end
