(* ===== verification/Ffi_Calls.thy ===== *)
theory Ffi_Calls
  imports Ffi_Tasks
begin

text \<open>
  The accessors of \<open>wispers-connect/src/ffi/\<close>, which read the snapshots handed to C, and the
  calls of the C interface as data, so that a C program is a sequence of them.
\<close>

subsection \<open>Freeing snapshots\<close>

definition wispers_group_info_free :: "addr \<Rightarrow> ('w, 's, 'q, unit) c_prog" where
  "wispers_group_info_free p = free_as as_group_info p"

definition wispers_serving_status_free :: "addr \<Rightarrow> ('w, 's, 'q, unit) c_prog" where
  "wispers_serving_status_free p = free_as as_serving_status p"

definition wispers_quic_close_info_free :: "addr \<Rightarrow> ('w, 's, 'q, unit) c_prog" where
  "wispers_quic_close_info_free p = free_as as_close_info p"

definition wispers_string_free :: "addr \<Rightarrow> ('w, 's, 'q, unit) c_prog" where
  "wispers_string_free p = free_as as_cstring p"

subsection \<open>Accessors\<close>

text \<open>
  A field, or a default when the pointer is null.  A pointer into the snapshot is the string
  or the node it points to, \<open>None\<close> where it is null.
\<close>

definition field_or ::
  "('s c_object \<Rightarrow> 'a option) \<Rightarrow> 'b \<Rightarrow> ('a \<Rightarrow> 'b) \<Rightarrow> addr \<Rightarrow> ('w, 's, 'q, 'b) c_prog"
where
  "field_or sel null_value f p = (if p = 0 then ret null_value else pbind (load_as sel p) (\<lambda>x. ret (f x)))"

definition wispers_group_info_id :: "addr \<Rightarrow> ('w, 's, 'q, string option) c_prog" where
  "wispers_group_info_id info = field_or as_group_info None (\<lambda>g. Some (wg_id g)) info"

definition wispers_group_info_name :: "addr \<Rightarrow> ('w, 's, 'q, string option) c_prog" where
  "wispers_group_info_name info = field_or as_group_info None wg_name info"

definition wispers_group_info_created_at_millis :: "addr \<Rightarrow> ('w, 's, 'q, i64) c_prog" where
  "wispers_group_info_created_at_millis info = field_or as_group_info 0 wg_created_at_millis info"

definition wispers_group_info_state :: "addr \<Rightarrow> ('w, 's, 'q, wispers_group_state) c_prog" where
  "wispers_group_info_state info = field_or as_group_info CAlone wg_state info"

definition wispers_group_info_nodes_count :: "addr \<Rightarrow> ('w, 's, 'q, nat) c_prog" where
  "wispers_group_info_nodes_count info = field_or as_group_info 0 (\<lambda>g. length (wg_nodes g)) info"

definition get_at :: "nat \<Rightarrow> 'a list \<Rightarrow> 'a option" where
  "get_at i xs = (if i < length xs then Some (xs ! i) else None)"

definition wispers_group_info_node_at :: "addr \<Rightarrow> nat \<Rightarrow> ('w, 's, 'q, wispers_node option) c_prog" where
  "wispers_group_info_node_at info index = field_or as_group_info None (\<lambda>g. get_at index (wg_nodes g)) info"

definition wispers_node_number :: "wispers_node option \<Rightarrow> i32" where
  "wispers_node_number node = (case node of None \<Rightarrow> 0 | Some n \<Rightarrow> wn_node_number n)"
definition wispers_node_name :: "wispers_node option \<Rightarrow> string option" where
  "wispers_node_name node = map_option wn_name node"
definition wispers_node_metadata :: "wispers_node option \<Rightarrow> string option" where
  "wispers_node_metadata node = map_option wn_metadata node"
definition wispers_node_is_self :: "wispers_node option \<Rightarrow> bool" where
  "wispers_node_is_self node = (case node of None \<Rightarrow> False | Some n \<Rightarrow> wn_is_self n)"
definition wispers_group_node_state :: "wispers_node option \<Rightarrow> wispers_node_state_t" where
  "wispers_group_node_state node = (case node of None \<Rightarrow> StatePending | Some n \<Rightarrow> wn_state n)"
definition wispers_node_last_seen_at_millis :: "wispers_node option \<Rightarrow> i64" where
  "wispers_node_last_seen_at_millis node = (case node of None \<Rightarrow> 0 | Some n \<Rightarrow> wn_last_seen_at_millis n)"
definition wispers_node_is_online :: "wispers_node option \<Rightarrow> bool" where
  "wispers_node_is_online node = (case node of None \<Rightarrow> False | Some n \<Rightarrow> wn_is_online n)"

definition wispers_serving_status_connected :: "addr \<Rightarrow> ('w, 's, 'q, bool) c_prog" where
  "wispers_serving_status_connected status = field_or as_serving_status False ws_connected status"

definition wispers_serving_status_node_number :: "addr \<Rightarrow> ('w, 's, 'q, i32) c_prog" where
  "wispers_serving_status_node_number status = field_or as_serving_status 0 ws_node_number status"

definition wispers_serving_status_connectivity_group_id :: "addr \<Rightarrow> ('w, 's, 'q, string option) c_prog" where
  "wispers_serving_status_connectivity_group_id status =
     field_or as_serving_status None (\<lambda>s. Some (ws_connectivity_group_id s)) status"

definition wispers_serving_status_codes_outstanding :: "addr \<Rightarrow> ('w, 's, 'q, nat) c_prog" where
  "wispers_serving_status_codes_outstanding status = field_or as_serving_status 0 ws_codes_outstanding status"

definition wispers_serving_status_nodes_awaiting_cosign_count :: "addr \<Rightarrow> ('w, 's, 'q, nat) c_prog" where
  "wispers_serving_status_nodes_awaiting_cosign_count status =
     field_or as_serving_status 0 (\<lambda>s. length (ws_nodes_awaiting_cosign s)) status"

definition wispers_serving_status_node_awaiting_cosign_at :: "addr \<Rightarrow> nat \<Rightarrow> ('w, 's, 'q, i32) c_prog" where
  "wispers_serving_status_node_awaiting_cosign_at status index =
     field_or as_serving_status (- 1)
       (\<lambda>s. case get_at index (ws_nodes_awaiting_cosign s) of Some n \<Rightarrow> n | None \<Rightarrow> - 1) status"

definition wispers_quic_close_info_closed_by_app :: "addr \<Rightarrow> ('w, 's, 'q, bool) c_prog" where
  "wispers_quic_close_info_closed_by_app info = field_or as_close_info False ci_closed_by_app info"

definition wispers_quic_close_info_error_code :: "addr \<Rightarrow> ('w, 's, 'q, u64) c_prog" where
  "wispers_quic_close_info_error_code info = field_or as_close_info 0 ci_error_code info"

definition wispers_quic_close_info_reason :: "addr \<Rightarrow> ('w, 's, 'q, string option) c_prog" where
  "wispers_quic_close_info_reason info = field_or as_close_info None (\<lambda>i. Some (ci_reason i)) info"

subsection \<open>The calls\<close>

text \<open>The asynchronous calls; each also takes a handle, a context and a callback.\<close>

datatype async_fn =
    RestoreOrInit
  | RegisterNode addr
  | ActivateNode addr
  | LogoutNode
  | RevokeNode i32
  | RefreshMembership
  | NodeGroupInfo
  | ConnectUdp i32
  | ConnectQuic i32
  | StartServing bool
  | AcceptUdp
  | AcceptQuic
  | GenerateCode
  | GenerateCodeTtl wispers_ttl_profile
  | RunSession
  | ShutdownSession
  | SessionStatus
  | RecvUdp
  | OpenStream
  | AcceptStream
  | PingQuic "32 word"
  | CloseQuic
  | CloseQuicWithError u64 addr
  | WriteStream addr nat
  | ReadStream nat
  | FinishStream
  | ShutdownStream

fun async_call :: "async_fn \<Rightarrow> addr \<Rightarrow> addr \<Rightarrow> nat option \<Rightarrow> ('w, 's, 'q, wispers_status) c_prog" where
  "async_call RestoreOrInit h ctx cb = wispers_storage_restore_or_init_async h ctx cb"
| "async_call (RegisterNode token) h ctx cb = wispers_node_register_async h token ctx cb"
| "async_call (ActivateNode code) h ctx cb = wispers_node_activate_async h code ctx cb"
| "async_call LogoutNode h ctx cb = wispers_node_logout_async h ctx cb"
| "async_call (RevokeNode target) h ctx cb = wispers_node_revoke_node_async h target ctx cb"
| "async_call RefreshMembership h ctx cb = wispers_node_refresh_membership_async h ctx cb"
| "async_call NodeGroupInfo h ctx cb = wispers_node_group_info_async h ctx cb"
| "async_call (ConnectUdp peer) h ctx cb = wispers_node_connect_udp_async h peer ctx cb"
| "async_call (ConnectQuic peer) h ctx cb = wispers_node_connect_quic_async h peer ctx cb"
| "async_call (StartServing in_callback) h ctx cb = wispers_node_start_serving_async in_callback h ctx cb"
| "async_call AcceptUdp h ctx cb = wispers_incoming_accept_udp_async h ctx cb"
| "async_call AcceptQuic h ctx cb = wispers_incoming_accept_quic_async h ctx cb"
| "async_call GenerateCode h ctx cb = wispers_serving_handle_generate_activation_code_async h ctx cb"
| "async_call (GenerateCodeTtl p) h ctx cb =
     wispers_serving_handle_generate_activation_code_with_ttl_async h p ctx cb"
| "async_call RunSession h ctx cb = wispers_serving_session_run_async h ctx cb"
| "async_call ShutdownSession h ctx cb = wispers_serving_handle_shutdown_async h ctx cb"
| "async_call SessionStatus h ctx cb = wispers_serving_handle_status_async h ctx cb"
| "async_call RecvUdp h ctx cb = wispers_udp_connection_recv_async h ctx cb"
| "async_call OpenStream h ctx cb = wispers_quic_connection_open_stream_async h ctx cb"
| "async_call AcceptStream h ctx cb = wispers_quic_connection_accept_stream_async h ctx cb"
| "async_call (PingQuic timeout_ms) h ctx cb = wispers_quic_connection_ping_async h timeout_ms ctx cb"
| "async_call CloseQuic h ctx cb = wispers_quic_connection_close_async h ctx cb"
| "async_call (CloseQuicWithError code reason) h ctx cb =
     wispers_quic_connection_close_with_error_async h code reason ctx cb"
| "async_call (WriteStream data len) h ctx cb = wispers_quic_stream_write_async h data len ctx cb"
| "async_call (ReadStream max_len) h ctx cb = wispers_quic_stream_read_async h max_len ctx cb"
| "async_call FinishStream h ctx cb = wispers_quic_stream_finish_async h ctx cb"
| "async_call ShutdownStream h ctx cb = wispers_quic_stream_shutdown_async h ctx cb"

datatype free_fn =
    FreeStorage | FreeNode | FreeServingHandle | FreeSession | FreeIncoming
  | FreeUdp | CloseUdp | FreeQuic | FreeStream
  | FreeGroupInfo | FreeServingStatus | FreeCloseInfo | FreeString

fun free_call :: "free_fn \<Rightarrow> addr \<Rightarrow> ('w, 's, 'q, unit) c_prog" where
  "free_call FreeStorage p = wispers_storage_free p"
| "free_call FreeNode p = wispers_node_free p"
| "free_call FreeServingHandle p = wispers_serving_handle_free p"
| "free_call FreeSession p = wispers_serving_session_free p"
| "free_call FreeIncoming p = wispers_incoming_connections_free p"
| "free_call FreeUdp p = wispers_udp_connection_free p"
| "free_call CloseUdp p = wispers_udp_connection_close p"
| "free_call FreeQuic p = wispers_quic_connection_free p"
| "free_call FreeStream p = wispers_quic_stream_free p"
| "free_call FreeGroupInfo p = wispers_group_info_free p"
| "free_call FreeServingStatus p = wispers_serving_status_free p"
| "free_call FreeCloseInfo p = wispers_quic_close_info_free p"
| "free_call FreeString p = wispers_string_free p"

text \<open>
  What may happen next: C calls the library, the runtime gets on with a task, a session's loop
  hears of an event.  The accessors change nothing and are left out.
\<close>

datatype ('w, 'q) c_step =
    Async async_fn addr addr "nat option"
  | Free free_fn addr
  | NewStorage
  | NewStorageWith addr
  | ReadRegistration addr addr
  | FreeRegistration addr
  | OverrideHubAddr addr addr
  | DeleteState addr
  | NodeState bool addr
  | SendUdp addr addr nat
  | PeerCloseInfo addr
  | Complete "nat \<Rightarrow> u8" "('q qconn \<times> 'w \<Rightarrow> 'q qconn \<times> 'w) list" net nat
  | SessionEvent nat "('w, 'q) session_event"

definition ignore_result :: "('w, 's, 'q, 'a) c_prog \<Rightarrow> ('w, 's, 'q, unit) c_prog" where
  "ignore_result m = pbind m (\<lambda>_. ret ())"

definition session_goes_on ::
  "('w, 's, 'q) c_env \<Rightarrow> nat \<Rightarrow> ('w, 'q) session_event \<Rightarrow> ('w, 's, 'q, unit) c_prog"
where
  "session_goes_on E k ev = (\<lambda>w. case cw_sessions w k of
     None \<Rightarrow> (Ok (), w)
   | Some cell \<Rightarrow>
       if sc_started cell
       then (case on_c_session k (modify (session_step (ce_prims E) (ce_hub E) (ce_juice E) (ce_quiche E) ev)
                 :: (('w, 'q) session, unit, ub) prog) w of (_, w') \<Rightarrow> (Ok (), w'))
       else (Ok (), w))"

fun c_exec :: "('w, 's, 'q) c_env \<Rightarrow> ('w, 'q) c_step \<Rightarrow> ('w, 's, 'q, unit) c_prog" where
  "c_exec E (Async fn h ctx cb) = ignore_result (async_call fn h ctx cb)"
| "c_exec E (Free fn p) = free_call fn p"
| "c_exec E NewStorage = ignore_result (wispers_storage_new_in_memory E)"
| "c_exec E (NewStorageWith p) = ignore_result (wispers_storage_new_with_callbacks p)"
| "c_exec E (ReadRegistration h out) = ignore_result (wispers_storage_read_registration E h out)"
| "c_exec E (FreeRegistration p) = wispers_registration_info_free p"
| "c_exec E (OverrideHubAddr h text_addr) = ignore_result (wispers_storage_override_hub_addr h text_addr)"
| "c_exec E (DeleteState h) = ignore_result (wispers_storage_delete_state E h)"
| "c_exec E (NodeState in_callback h) = ignore_result (wispers_node_state in_callback h)"
| "c_exec E (SendUdp h data len) = ignore_result (wispers_udp_connection_send E h data len)"
| "c_exec E (PeerCloseInfo h) = ignore_result (wispers_quic_connection_peer_close_info E h)"
| "c_exec E (Complete rand evs net t) = complete E rand evs net t"
| "c_exec E (SessionEvent k ev) = session_goes_on E k ev"

end
