(* ===== verification/Ffi_Inv.thy ===== *)
theory Ffi_Inv
  imports Ffi_Calls
begin

text \<open>
  What keeps the C interface out of undefined behaviour: the contract of its callers, and the
  invariant of the library's state that makes the contract enough.  Both look at memory only
  through the kinds of the objects in it.
\<close>

subsection \<open>Kinds of objects\<close>

datatype c_kind =
    KText | KBuffer | KRegistration | KCallbacks | KString | KStorage | KNode nat
  | KServing nat | KSession "nat option" | KIncoming nat | KUdp | KQuic | KStream
  | KGroupInfo | KStatus | KCloseInfo

fun kind_of :: "'s c_object \<Rightarrow> c_kind" where
  "kind_of (CText _) = KText"
| "kind_of (CBuffer _) = KBuffer"
| "kind_of (CRegistrationOut _) = KRegistration"
| "kind_of (CCallbacks _) = KCallbacks"
| "kind_of (CString _) = KString"
| "kind_of (CStorage _ _) = KStorage"
| "kind_of (CNode c) = KNode c"
| "kind_of (CServingHandle k) = KServing k"
| "kind_of (CServingSession k) = KSession k"
| "kind_of (CIncoming k) = KIncoming k"
| "kind_of (CUdpConnection _) = KUdp"
| "kind_of (CQuicConnection _) = KQuic"
| "kind_of (CQuicStream _) = KStream"
| "kind_of (CGroupInfo _) = KGroupInfo"
| "kind_of (CServingStatus _) = KStatus"
| "kind_of (CCloseInfo _) = KCloseInfo"

definition kinds :: "('s, 'z) memory_scheme \<Rightarrow> addr \<Rightarrow> c_kind option" where
  "kinds w p = map_option kind_of (mm_mem w p)"

lemma kind_of_iff:
  "kind_of ob = KText \<longleftrightarrow> (\<exists>s. ob = CText s)" "kind_of ob = KBuffer \<longleftrightarrow> (\<exists>b. ob = CBuffer b)"
  "kind_of ob = KRegistration \<longleftrightarrow> (\<exists>r. ob = CRegistrationOut r)"
  "kind_of ob = KCallbacks \<longleftrightarrow> (\<exists>s. ob = CCallbacks s)" "kind_of ob = KString \<longleftrightarrow> (\<exists>s. ob = CString s)"
  "kind_of ob = KStorage \<longleftrightarrow> (\<exists>st cfg. ob = CStorage st cfg)" "kind_of ob = KNode c \<longleftrightarrow> ob = CNode c"
  "kind_of ob = KServing k \<longleftrightarrow> ob = CServingHandle k" "kind_of ob = KSession ks \<longleftrightarrow> ob = CServingSession ks"
  "kind_of ob = KIncoming k \<longleftrightarrow> ob = CIncoming k" "kind_of ob = KUdp \<longleftrightarrow> (\<exists>c. ob = CUdpConnection c)"
  "kind_of ob = KQuic \<longleftrightarrow> (\<exists>n. ob = CQuicConnection n)" "kind_of ob = KStream \<longleftrightarrow> (\<exists>n. ob = CQuicStream n)"
  "kind_of ob = KGroupInfo \<longleftrightarrow> (\<exists>g. ob = CGroupInfo g)" "kind_of ob = KStatus \<longleftrightarrow> (\<exists>s. ob = CServingStatus s)"
  "kind_of ob = KCloseInfo \<longleftrightarrow> (\<exists>i. ob = CCloseInfo i)"
  by (cases ob; auto)+

subsection \<open>The invariant\<close>

text \<open>The object a task's raw pointer must still lead to.\<close>

fun target :: "conn_call \<Rightarrow> c_kind" where
  "target UdpRecv = KUdp"
| "target QuicOpenStream = KQuic"
| "target QuicAcceptStream = KQuic"
| "target (QuicPing _) = KQuic"
| "target (StreamWrite _) = KStream"
| "target (StreamRead _) = KStream"
| "target StreamFinish = KStream"
| "target StreamShutdown = KStream"

text \<open>What handles and tasks share exists; the raw pointers of tasks lead to live objects.\<close>

fun known :: "('w, 's, 'q) c_world \<Rightarrow> c_kind \<Rightarrow> bool" where
  "known w (KNode c) = (cw_nodes w c \<noteq> None)"
| "known w (KServing k) = (cw_sessions w k \<noteq> None)"
| "known w (KSession (Some k)) = (cw_sessions w k \<noteq> None)"
| "known w (KIncoming k) = (cw_sessions w k \<noteq> None)"
| "known w _ = True"

fun pending_ok :: "('w, 's, 'q) c_world \<Rightarrow> task \<Rightarrow> bool" where
  "pending_ok w (NodeTask c _) = (cw_nodes w c \<noteq> None)"
| "pending_ok w (ConnectTask c _ _) = (cw_nodes w c \<noteq> None)"
| "pending_ok w (CodeTask k _) = (cw_sessions w k \<noteq> None)"
| "pending_ok w (ShutdownTask k) = (cw_sessions w k \<noteq> None)"
| "pending_ok w (StatusTask k) = (cw_sessions w k \<noteq> None)"
| "pending_ok w (RunTask k) = (cw_sessions w k \<noteq> None)"
| "pending_ok w (AcceptTask k _) = (cw_sessions w k \<noteq> None)"
| "pending_ok w (OnPointer p call) = (kinds w p = Some (target call))"
| "pending_ok w _ = True"

definition c_ok :: "('w, 's, 'q) c_world \<Rightarrow> bool" where
  "c_ok w \<longleftrightarrow> 0 < mm_next w \<and>
     (\<forall>p k. kinds w p = Some k \<longrightarrow> 0 < p \<and> p < mm_next w \<and> known w k) \<and>
     (\<forall>t pd. cw_tasks w t = Some pd \<longrightarrow> t < mm_next w \<and> pending_ok w (pd_task pd))"

subsection \<open>The contract\<close>

fun takes :: "async_fn \<Rightarrow> c_kind \<Rightarrow> bool" where
  "takes RestoreOrInit = (\<lambda>k. k = KStorage)"
| "takes AcceptUdp = (\<lambda>k. \<exists>n. k = KIncoming n)"
| "takes AcceptQuic = (\<lambda>k. \<exists>n. k = KIncoming n)"
| "takes GenerateCode = (\<lambda>k. \<exists>n. k = KServing n)"
| "takes (GenerateCodeTtl _) = (\<lambda>k. \<exists>n. k = KServing n)"
| "takes ShutdownSession = (\<lambda>k. \<exists>n. k = KServing n)"
| "takes SessionStatus = (\<lambda>k. \<exists>n. k = KServing n)"
| "takes RunSession = (\<lambda>k. \<exists>n. k = KSession n)"
| "takes RecvUdp = (\<lambda>k. k = KUdp)"
| "takes OpenStream = (\<lambda>k. k = KQuic)"
| "takes AcceptStream = (\<lambda>k. k = KQuic)"
| "takes (PingQuic _) = (\<lambda>k. k = KQuic)"
| "takes CloseQuic = (\<lambda>k. k = KQuic)"
| "takes (CloseQuicWithError _ _) = (\<lambda>k. k = KQuic)"
| "takes (WriteStream _ _) = (\<lambda>k. k = KStream)"
| "takes (ReadStream _) = (\<lambda>k. k = KStream)"
| "takes FinishStream = (\<lambda>k. k = KStream)"
| "takes ShutdownStream = (\<lambda>k. k = KStream)"
| "takes _ = (\<lambda>k. \<exists>n. k = KNode n)"

fun frees :: "free_fn \<Rightarrow> c_kind \<Rightarrow> bool" where
  "frees FreeStorage = (\<lambda>k. k = KStorage)"
| "frees FreeNode = (\<lambda>k. \<exists>n. k = KNode n)"
| "frees FreeServingHandle = (\<lambda>k. \<exists>n. k = KServing n)"
| "frees FreeSession = (\<lambda>k. \<exists>n. k = KSession n)"
| "frees FreeIncoming = (\<lambda>k. \<exists>n. k = KIncoming n)"
| "frees FreeUdp = (\<lambda>k. k = KUdp)"
| "frees CloseUdp = (\<lambda>k. k = KUdp)"
| "frees FreeQuic = (\<lambda>k. k = KQuic)"
| "frees FreeStream = (\<lambda>k. k = KStream)"
| "frees FreeGroupInfo = (\<lambda>k. k = KGroupInfo)"
| "frees FreeServingStatus = (\<lambda>k. k = KStatus)"
| "frees FreeCloseInfo = (\<lambda>k. k = KCloseInfo)"
| "frees FreeString = (\<lambda>k. k = KString)"

definition null_or :: "(c_kind \<Rightarrow> bool) \<Rightarrow> ('w, 's, 'q) c_world \<Rightarrow> addr \<Rightarrow> bool" where
  "null_or K w p \<longleftrightarrow> p = 0 \<or> (\<exists>k. kinds w p = Some k \<and> K k)"

definition is_text :: "c_kind \<Rightarrow> bool" where
  "is_text k \<longleftrightarrow> k = KText \<or> k = KString"

definition slice_ok :: "('w, 's, 'q) c_world \<Rightarrow> addr \<Rightarrow> nat \<Rightarrow> bool" where
  "slice_ok w data len \<longleftrightarrow> data = 0 \<or> (\<exists>b. mm_mem w data = Some (CBuffer b) \<and> len \<le> length b)"

fun args_ok :: "('w, 's, 'q) c_world \<Rightarrow> async_fn \<Rightarrow> bool" where
  "args_ok w (RegisterNode token) = null_or is_text w token"
| "args_ok w (ActivateNode code) = null_or is_text w code"
| "args_ok w (CloseQuicWithError _ reason) = null_or is_text w reason"
| "args_ok w (WriteStream data len) = slice_ok w data len"
| "args_ok w _ = True"

text \<open>No call on the handle is pending: required of whoever ends a connection or a stream.\<close>

definition idle :: "('w, 's, 'q) c_world \<Rightarrow> addr \<Rightarrow> bool" where
  "idle w p \<longleftrightarrow> (\<forall>t pd call. cw_tasks w t = Some pd \<longrightarrow> pd_task pd \<noteq> OnPointer p call)"

fun ends_connection :: "c_kind \<Rightarrow> bool" where
  "ends_connection KUdp = True" | "ends_connection KQuic = True" | "ends_connection KStream = True"
| "ends_connection _ = False"

fun closes :: "async_fn \<Rightarrow> bool" where
  "closes CloseQuic = True" | "closes (CloseQuicWithError _ _) = True" | "closes _ = False"

text \<open>The strings of a registration: each of its own, and C's to give back.\<close>

definition registration_ok :: "('w, 's, 'q) c_world \<Rightarrow> addr \<Rightarrow> bool" where
  "registration_ok w p \<longleftrightarrow> (case mm_mem w p of
     Some (CRegistrationOut r) \<Rightarrow>
       (let ps = filter (\<lambda>a. a \<noteq> 0) [ri_connectivity_group_id r, ri_auth_token r, ri_attestation_jwt r]
        in distinct ps \<and> list_all (\<lambda>a. kinds w a = Some KString) ps)
   | _ \<Rightarrow> False)"

fun allowed :: "('w, 's, 'q) c_world \<Rightarrow> ('w, 'q) c_step \<Rightarrow> bool" where
  "allowed w (Async fn h ctx cb) \<longleftrightarrow>
     null_or (takes fn) w h \<and> args_ok w fn \<and> (closes fn \<longrightarrow> idle w h)"
| "allowed w (Free fn p) \<longleftrightarrow> null_or (\<lambda>k. frees fn k \<and> (ends_connection k \<longrightarrow> idle w p)) w p"
| "allowed w (NewStorageWith p) \<longleftrightarrow> null_or (\<lambda>k. k = KCallbacks) w p"
| "allowed w (ReadRegistration h out) \<longleftrightarrow>
     null_or (\<lambda>k. k = KStorage) w h \<and> null_or (\<lambda>k. k = KRegistration) w out"
| "allowed w (FreeRegistration p) \<longleftrightarrow> p = 0 \<or> registration_ok w p"
| "allowed w (OverrideHubAddr h a) \<longleftrightarrow> null_or (\<lambda>k. k = KStorage) w h \<and> null_or is_text w a"
| "allowed w (DeleteState h) \<longleftrightarrow> null_or (\<lambda>k. k = KStorage) w h"
| "allowed w (NodeState in_callback h) \<longleftrightarrow> null_or (\<lambda>k. \<exists>n. k = KNode n) w h"
| "allowed w (SendUdp h data len) \<longleftrightarrow> null_or (\<lambda>k. k = KUdp) w h \<and> slice_ok w data len"
| "allowed w (PeerCloseInfo h) \<longleftrightarrow> null_or (\<lambda>k. k = KQuic) w h"
| "allowed w _ \<longleftrightarrow> True"

subsection \<open>What the invariant looks at\<close>

definition view :: "('w, 's, 'q) c_world \<Rightarrow> nat \<times> (addr \<Rightarrow> c_kind option) \<times> nat set \<times> nat set \<times> (nat \<Rightarrow> pending option)" where
  "view w = (mm_next w, kinds w, dom (cw_nodes w), dom (cw_sessions w), cw_tasks w)"

lemma view_parts:
  assumes "view w = view w'"
  shows "mm_next w = mm_next w'" "kinds w = kinds w'" "dom (cw_nodes w) = dom (cw_nodes w')"
    "dom (cw_sessions w) = dom (cw_sessions w')" "cw_tasks w = cw_tasks w'"
  using assms by (auto simp: view_def)

lemma known_dom:
  "dom (cw_nodes w) \<subseteq> dom (cw_nodes w') \<Longrightarrow> dom (cw_sessions w) \<subseteq> dom (cw_sessions w') \<Longrightarrow>
   known w k \<Longrightarrow> known w' k"
  by (cases "(w, k)" rule: known.cases) (auto simp: domIff subset_iff)

lemma task_dom:
  "dom (cw_nodes w) \<subseteq> dom (cw_nodes w') \<Longrightarrow> dom (cw_sessions w) \<subseteq> dom (cw_sessions w') \<Longrightarrow>
   (\<And>p call. tk = OnPointer p call \<Longrightarrow> kinds w p = Some (target call) \<Longrightarrow> kinds w' p = Some (target call)) \<Longrightarrow>
   pending_ok w tk \<Longrightarrow> pending_ok w' tk"
  by (cases tk) (auto simp: domIff subset_iff)

text \<open>
  Memory and cells may grow, tasks come and go, and an object may go that no task points to.
\<close>

lemma c_okI:
  assumes "c_ok w" "mm_next w \<le> mm_next w'"
    "dom (cw_nodes w) \<subseteq> dom (cw_nodes w')" "dom (cw_sessions w) \<subseteq> dom (cw_sessions w')"
    "\<And>p k. kinds w' p = Some k \<Longrightarrow> kinds w p = Some k \<or> mm_next w \<le> p \<and> p < mm_next w' \<and> known w' k"
    "\<And>t pd. cw_tasks w' t = Some pd \<Longrightarrow>
       (cw_tasks w t = Some pd \<and>
         (\<forall>p call. pd_task pd = OnPointer p call \<longrightarrow> kinds w p = Some (target call) \<longrightarrow>
            kinds w' p = Some (target call))) \<or>
       (t < mm_next w' \<and> pending_ok w' (pd_task pd))"
  shows "c_ok w'"
  unfolding c_ok_def
proof (intro conjI allI impI)
  show "0 < mm_next w'" using assms(1,2) by (simp add: c_ok_def)
next
  fix p k assume k: "kinds w' p = Some k"
  have 0: "0 < mm_next w" using assms(1) by (simp add: c_ok_def)
  from assms(5)[OF k] show "0 < p" "p < mm_next w'" "known w' k"
    using assms(1,2) known_dom[OF assms(3,4)] 0 by (auto simp: c_ok_def) (metis order_less_le_trans)+
next
  fix t pd assume t: "cw_tasks w' t = Some pd"
  have "cw_tasks w t = Some pd \<Longrightarrow> t < mm_next w" using assms(1) by (simp add: c_ok_def)
  with assms(6)[OF t] show "t < mm_next w'"
    using assms(2) by (metis order_less_le_trans)
  from assms(6)[OF t] show "pending_ok w' (pd_task pd)"
    using assms(1) task_dom[OF assms(3,4)] by (auto simp: c_ok_def)
qed

lemma c_ok_view: "view w' = view w \<Longrightarrow> c_ok w \<Longrightarrow> c_ok w'"
  by (rule c_okI) (auto dest: view_parts)

end
