(* ===== verification/Ffi_Safe.thy ===== *)
theory Ffi_Safe
  imports Ffi_Inv
begin

text \<open>
  The invariant of \<open>Ffi_Inv\<close> carried through the calls of the C interface and the tasks they
  spawn: a caller that keeps the contract never meets undefined behaviour.
\<close>

subsection \<open>Runs without undefined behaviour\<close>

text \<open>
  \<open>runs m w Q\<close>: from \<open>w\<close>, \<open>m\<close> is free of undefined behaviour; a result satisfies \<open>Q\<close>, and a
  panic leaves the invariant in force.
\<close>

definition runs ::
  "('w, 's, 'q, 'a) c_prog \<Rightarrow> ('w, 's, 'q) c_world \<Rightarrow> ('a \<Rightarrow> ('w, 's, 'q) c_world \<Rightarrow> bool) \<Rightarrow> bool"
where
  "runs m w Q \<longleftrightarrow> (case m w of (Ok x, w') \<Rightarrow> Q x w' | (Err _, _) \<Rightarrow> False | (Panic, w') \<Rightarrow> c_ok w')"

abbreviation fine :: "('w, 's, 'q, 'a) c_prog \<Rightarrow> ('w, 's, 'q) c_world \<Rightarrow> bool" where
  "fine m w \<equiv> runs m w (\<lambda>_. c_ok)"

lemma runs_simps [simp]:
  "runs (ret x) w Q \<longleftrightarrow> Q x w" "runs (lift Panic) w Q \<longleftrightarrow> c_ok w" "runs (lift (Ok x)) w Q \<longleftrightarrow> Q x w"
  "runs (gets f) w F \<longleftrightarrow> F (f w) w" "runs (modify g) w S \<longleftrightarrow> S () (g w)"
  "runs fresh w N \<longleftrightarrow> N (mm_next w) (w\<lparr>mm_next := Suc (mm_next w)\<rparr>)"
  "runs (alloc ob) w N \<longleftrightarrow>
     N (mm_next w) (w\<lparr>mm_mem := (mm_mem w)(mm_next w \<mapsto> ob), mm_next := Suc (mm_next w)\<rparr>)"
  "runs (store_at p ob) w S \<longleftrightarrow> S () (w\<lparr>mm_mem := (mm_mem w)(p \<mapsto> ob)\<rparr>)"
  by (simp_all add: runs_def fresh_def alloc_def store_at_def)

lemma runs_bind [simp]: "runs (pbind m k) w Q \<longleftrightarrow> runs m w (\<lambda>x w'. runs (k x) w' Q)"
  by (auto simp: runs_def pbind_def split: prod.splits result.splits)

lemma runs_mono: "runs m w Q \<Longrightarrow> (\<And>x w'. Q x w' \<Longrightarrow> R x w') \<Longrightarrow> runs m w R"
  by (auto simp: runs_def split: prod.splits result.splits)

lemma runs_load: "mm_mem w p = Some ob \<Longrightarrow> sel ob = Some x \<Longrightarrow> runs (load_as sel p) w Q \<longleftrightarrow> Q x w"
  by (simp add: runs_def load_as_def)

lemma runs_take:
  "mm_mem w p = Some ob \<Longrightarrow> sel ob = Some x \<Longrightarrow>
   runs (take_as sel p) w Q \<longleftrightarrow> Q x (w\<lparr>mm_mem := (mm_mem w)(p := None)\<rparr>)"
  by (simp add: take_as_def runs_load)

lemma runs_free:
  "p = 0 \<or> (\<exists>ob x. mm_mem w p = Some ob \<and> sel ob = Some x) \<Longrightarrow>
   runs (free_as sel p) w Q \<longleftrightarrow> Q () (if p = 0 then w else w\<lparr>mm_mem := (mm_mem w)(p := None)\<rparr>)"
  by (auto simp: free_as_def runs_take)

text \<open>What a kind says of the object.\<close>

lemma kindsD: "kinds w p = Some k \<Longrightarrow> \<exists>ob. mm_mem w p = Some ob \<and> kind_of ob = k"
  by (auto simp: kinds_def)

lemma kinds_upd [simp]:
  "kinds (w\<lparr>mm_mem := f(p \<mapsto> ob)\<rparr>) = (kinds (w\<lparr>mm_mem := f\<rparr>))(p \<mapsto> kind_of ob)"
  "kinds (w\<lparr>mm_mem := f(p := None)\<rparr>) = (kinds (w\<lparr>mm_mem := f\<rparr>))(p := None)"
  "kinds (w\<lparr>mm_mem := mm_mem w\<rparr>) = kinds w"
  "kinds (w\<lparr>mm_mem := m, mm_next := n\<rparr>) = kinds (w\<lparr>mm_mem := m\<rparr>)"
  "kinds (w\<lparr>mm_next := n\<rparr>) = kinds w"
  by (auto simp: kinds_def fun_eq_iff)

lemma kinds_c_world [simp]:
  "kinds (v\<lparr>cw_env := e\<rparr>) = kinds v" "kinds (v\<lparr>cw_stores := s\<rparr>) = kinds v"
  "kinds (v\<lparr>cw_configs := c\<rparr>) = kinds v" "kinds (v\<lparr>cw_rtts := r\<rparr>) = kinds v"
  "kinds (v\<lparr>cw_nodes := n\<rparr>) = kinds v" "kinds (v\<lparr>cw_sessions := ss\<rparr>) = kinds v"
  "kinds (v\<lparr>cw_tasks := t\<rparr>) = kinds v" "kinds (v\<lparr>cw_called := d\<rparr>) = kinds v"
  by (auto simp: kinds_def fun_eq_iff)

subsection \<open>Updates that keep the invariant\<close>

named_theorems ok_rules "updates under which the invariant stays"

lemma c_ok_quiet [ok_rules]:
  "c_ok w \<Longrightarrow> c_ok (w\<lparr>cw_env := e\<rparr>)" "c_ok w \<Longrightarrow> c_ok (w\<lparr>cw_stores := s\<rparr>)"
  "c_ok w \<Longrightarrow> c_ok (w\<lparr>cw_configs := c\<rparr>)" "c_ok w \<Longrightarrow> c_ok (w\<lparr>cw_rtts := r\<rparr>)"
  "c_ok w \<Longrightarrow> c_ok (w\<lparr>cw_called := d\<rparr>)"
  by (erule c_ok_view [rotated]; simp add: view_def)+

lemma c_ok_next [ok_rules]: "c_ok w \<Longrightarrow> c_ok (w\<lparr>mm_next := Suc (mm_next w)\<rparr>)"
  by (erule c_okI) auto

lemma fresh_unused: "c_ok w \<Longrightarrow> mm_next w \<le> p \<Longrightarrow> kinds w p = None"
  by (metis c_ok_def leD not_None_eq)

lemma known_memory [simp]: "known (w\<lparr>mm_mem := m, mm_next := n\<rparr>) k = known w k"
  by (cases "(w, k)" rule: known.cases) auto

lemma c_ok_alloc [ok_rules]:
  "c_ok w \<Longrightarrow> known w (kind_of ob) \<Longrightarrow>
   c_ok (w\<lparr>mm_mem := (mm_mem w)(mm_next w \<mapsto> ob), mm_next := Suc (mm_next w)\<rparr>)"
  using fresh_unused [of w "mm_next w"] by (auto intro!: c_okI [of w] split: if_splits)

lemma c_ok_store [ok_rules]:
  "c_ok w \<Longrightarrow> kinds w p = Some (kind_of ob) \<Longrightarrow> c_ok (w\<lparr>mm_mem := (mm_mem w)(p \<mapsto> ob)\<rparr>)"
  by (rule c_ok_view) (auto simp: view_def)

lemma c_ok_take [ok_rules]:
  "c_ok w \<Longrightarrow> idle w p \<Longrightarrow> c_ok (w\<lparr>mm_mem := (mm_mem w)(p := None)\<rparr>)"
  by (erule c_okI) (auto simp: idle_def split: if_splits)

lemma idle_other:
  assumes "c_ok w" "kinds w p = Some k" "\<not> ends_connection k"
  shows "idle w p"
  unfolding idle_def
proof (intro allI impI notI)
  fix t pd call assume "cw_tasks w t = Some pd" "pd_task pd = OnPointer p call"
  with assms(1) have "kinds w p = Some (target call)" by (fastforce simp: c_ok_def)
  with assms(2,3) show False by (cases call) auto
qed

lemma c_ok_tasks [ok_rules]: "c_ok w \<Longrightarrow> c_ok (w\<lparr>cw_tasks := (cw_tasks w)(t := None)\<rparr>)"
  by (erule c_okI) (auto split: if_splits)

lemma c_ok_cells [ok_rules]:
  "c_ok w \<Longrightarrow> dom (cw_nodes w) \<subseteq> dom ns \<Longrightarrow> c_ok (w\<lparr>cw_nodes := ns\<rparr>)"
  "c_ok w \<Longrightarrow> dom (cw_sessions w) \<subseteq> dom ss \<Longrightarrow> c_ok (w\<lparr>cw_sessions := ss\<rparr>)"
  by (erule c_okI; simp)+

lemma c_ok_on_cell [ok_rules]: "c_ok w \<Longrightarrow> c_ok (on_cell f k w)"
  unfolding on_cell_def by (rule c_ok_cells) auto

subsection \<open>The shared steps\<close>

lemma spawn_fine:
  assumes "c_ok w" "pending_ok w tk"
  shows "fine (spawn ctx f tk) w"
proof -
  let ?w = "w\<lparr>mm_next := Suc (mm_next w), cw_tasks := (cw_tasks w)(mm_next w \<mapsto> \<lparr>pd_ctx = ctx, pd_callback = f, pd_task = tk\<rparr>)\<rparr>"
  have "pending_ok ?w tk" using assms(2) by (rule task_dom [rotated 3]) auto
  then have "c_ok ?w" using assms(1) by (intro c_okI [OF assms(1)]) (auto split: if_splits)
  then show ?thesis by (simp add: spawn_def)
qed

lemma host_fine: "c_ok w \<Longrightarrow> runs (on_c_host st m) w (\<lambda>_. c_ok)"
  by (auto simp: on_c_host_def runs_def split: prod.splits intro!: ok_rules)

lemma node_fine:
  assumes "c_ok w" "cw_nodes w c \<noteq> None"
  shows "fine (on_c_node c m) w"
proof -
  obtain cell where c: "cw_nodes w c = Some cell" using assms(2) by auto
  obtain r s where m: "m (node_sys w cell) = (r, s)" by (cases "m (node_sys w cell)")
  show ?thesis using assms(1) by (auto simp: on_c_node_def runs_def c m intro!: c_ok_view [OF _ assms(1)] simp: view_def)
qed

lemma session_fine:
  assumes "c_ok w" "cw_sessions w k \<noteq> None"
  shows "fine (on_c_session k m) w"
  using assms by (auto simp: on_c_session_def runs_def view_def split: prod.splits intro!: c_ok_view [OF _ assms(1)])

lemma reply_with_fine:
  "c_ok w \<Longrightarrow> (\<And>x. r = Ok x \<Longrightarrow> fine (ok x) w) \<Longrightarrow> fine (reply_with nothing status detail ok r) w"
  by (cases r) (auto simp: reply_with_def failed_with_def)

lemma done_fine: "c_ok w \<Longrightarrow> fine (done_with args) w"
  by (simp add: done_with_def)

lemma failed_fine: "c_ok w \<Longrightarrow> fine (failed_with nothing status detail) w"
  by (simp add: failed_with_def)

lemma hand_out_fine: "c_ok w \<Longrightarrow> known w (kind_of ob) \<Longrightarrow> fine (hand_out ob) w"
  by (simp add: hand_out_def done_with_def c_ok_alloc)

lemma not_done_fine: "c_ok w \<Longrightarrow> fine (ret None) w"
  by simp

lemma fine_bind: "fine m w \<Longrightarrow> (\<And>x w'. c_ok w' \<Longrightarrow> fine (k x) w') \<Longrightarrow> fine (pbind m k) w"
  by (auto elim: runs_mono)

lemmas fine_rules = reply_with_fine done_fine failed_fine hand_out_fine not_done_fine

subsection \<open>Tasks\<close>

lemma new_node_fine:
  fixes n :: node and st cfg :: nat
  assumes "c_ok w"
  shows "fine (new_node_handle n st cfg) w"
proof -
  let ?w = "w\<lparr>mm_next := Suc (Suc (mm_next w)), cw_rtts := (cw_rtts w)(mm_next w := rtt_new),
    cw_nodes := (cw_nodes w)(Suc (mm_next w) \<mapsto>
       \<lparr>nc_node = n, nc_store = st, nc_config = cfg, nc_rtt = mm_next w\<rparr>)\<rparr>"
  have "c_ok ?w" using assms by (rule c_okI) (auto simp: kinds_def)
  then have "c_ok (?w\<lparr>mm_mem := (mm_mem ?w)(mm_next ?w \<mapsto> CNode (Suc (mm_next w))), mm_next := Suc (mm_next ?w)\<rparr>)"
    by (rule c_ok_alloc) simp
  then show ?thesis by (simp add: new_node_handle_def)
qed

lemma restore_task_fine: "c_ok w \<Longrightarrow> fine (restore_task E rand st cfg) w"
  unfolding restore_task_def
  by (auto intro!: runs_mono [OF host_fine] reply_with_fine runs_mono [OF new_node_fine] done_fine)

lemma unit_task_fine: "c_ok w \<Longrightarrow> cw_nodes w c \<noteq> None \<Longrightarrow> fine (unit_task E c m) w"
  unfolding unit_task_def by (rule fine_bind [OF node_fine]) (auto intro!: reply_with_fine done_fine)

lemma group_info_fine: "c_ok w \<Longrightarrow> fine (handle_group_info_result E r) w"
  unfolding handle_group_info_result_def by (auto intro!: fine_rules split: result.splits)

lemma node_task_fine: "c_ok w \<Longrightarrow> cw_nodes w c \<noteq> None \<Longrightarrow> fine (node_task E rand c call) w"
  by (cases call) (simp_all only: node_task.simps node_task_defs unit_task_fine fine_bind [OF node_fine group_info_fine] not_False_eq_True)

lemma quic_handle_fine: "c_ok w \<Longrightarrow> fine (pbind fresh (\<lambda>n. hand_out (CQuicConnection n))) w"
  by (simp add: hand_out_fine c_ok_next)

lemma connect_task_fine:
  "c_ok w \<Longrightarrow> cw_nodes w c \<noteq> None \<Longrightarrow> fine (connect_task E rand evs c peer transport) w"
  by (cases transport; simp only: connect_task.simps connect_task_defs;
      rule fine_bind [OF node_fine]) (auto intro!: reply_with_fine hand_out_fine quic_handle_fine
        simp del: runs_bind split: option.splits)

lemma serving_params_fine:
  assumes "c_ok w"
  shows "runs (start_serving_impl H params) w
    (\<lambda>r w'. c_ok w' \<and> (\<forall>k. r = Ok k \<longrightarrow> cw_sessions w' k \<noteq> None))"
proof -
  obtain r e where o: "open_serving_connection H (sv_hub_addr params) (sv_registration params)
      ((cw_env w)\<lparr>ev_rtt := cw_rtts w (sv_rtt params)\<rparr>) = (r, e)" by fastforce
  show ?thesis
    by (cases r) (auto simp: start_serving_impl_def runs_def o Let_def kinds_def intro!: c_okI [OF assms])
qed

lemma serve_handles_fine:
  assumes "c_ok w" "cw_sessions w k \<noteq> None"
  shows "fine (pbind (alloc (CServingHandle k)) (\<lambda>h. pbind (alloc (CServingSession (Some k))) (\<lambda>s.
      pbind (alloc (CIncoming k)) (\<lambda>i. done_with (ArgServing h s i))))) w"
proof -
  let ?a = "\<lambda>v ob. v\<lparr>mm_mem := (mm_mem v)(mm_next v \<mapsto> ob), mm_next := Suc (mm_next v)\<rparr>"
  have "c_ok (?a w (CServingHandle k))" using assms by (auto intro: c_ok_alloc)
  then have "c_ok (?a (?a w (CServingHandle k)) (CServingSession (Some k)))"
    by (rule c_ok_alloc) (use assms(2) in auto)
  then have "c_ok (?a (?a (?a w (CServingHandle k)) (CServingSession (Some k))) (CIncoming k))"
    by (rule c_ok_alloc) (use assms(2) in auto)
  then show ?thesis by (simp add: done_with_def)
qed

lemma serve_task_fine: "c_ok w \<Longrightarrow> fine (serve_task E params) w"
  unfolding serve_task_def runs_bind [of "start_serving_impl _ _"]
  by (rule runs_mono [OF serving_params_fine]) (auto intro!: reply_with_fine serve_handles_fine simp del: runs_bind)

lemma heard_fine:
  assumes "c_ok w" "cw_sessions w k \<noteq> None" "fine m w"
  shows "fine (once_heard k m) w"
proof -
  obtain cell where "cw_sessions w k = Some cell" using assms(2) by auto
  then show ?thesis using assms(1,3) by (simp add: once_heard_def runs_def)
qed

lemma format_code_no_error: "format_code P code \<noteq> Err e"
  by (cases "from_secret_len (length (pc_secret code))")
    (simp_all add: format_code_def to_base36_def encode_base36_def)

lemma code_handed_fine:
  assumes "c_ok w"
  shows "fine (pbind (lift (format_code P code)) (\<lambda>text_code. case cstring_new text_code of
     Ok s \<Rightarrow> hand_out (CString s) | _ \<Rightarrow> failed_with (ArgHandle 0) InvalidUtf8 detail)) w"
  using assms by (cases "format_code P code :: (string, ub) result")
    (auto simp: format_code_no_error intro!: fine_rules split: result.splits)

lemma session_tasks_fine:
  assumes "c_ok w" "cw_sessions w k \<noteq> None"
  shows "fine (code_task E rand k profile) w" "fine (shutdown_task E k) w" "fine (status_task E k) w"
proof -
  note heard = heard_fine [OF assms] fine_bind [OF session_fine [OF assms]]
  show "fine (code_task E rand k profile) w"
    unfolding code_task_def by (intro heard reply_with_fine code_handed_fine)
  show "fine (shutdown_task E k) w"
    unfolding shutdown_task_def by (intro heard reply_with_fine done_fine)
  show "fine (status_task E k) w"
    unfolding status_task_def
    by (intro heard reply_with_fine) (auto intro!: fine_rules split: result.splits)
qed

lemma run_session_fine:
  assumes "c_ok w" "cw_sessions w k \<noteq> None"
  shows "fine (run_session_task E k) w"
proof -
  obtain cell where cell: "cw_sessions w k = Some cell" using assms(2) by auto
  have "fine (reply_with NoArgs session_end_status (ce_serving_text E) (\<lambda>_. done_with NoArgs) r) w" for r
    using assms(1) by (intro reply_with_fine done_fine)
  then show ?thesis
    using assms(1) by (cases "se_phase (sc_session cell)") (simp_all add: run_session_task_def runs_def cell)
qed

lemma next_incoming_fine:
  "c_ok w \<Longrightarrow> (\<And>x. fine (ok x) w) \<Longrightarrow> fine (next_incoming E s queue ok) w"
  by (auto simp: next_incoming_def intro!: fine_rules split: list.splits)

lemma on_queue_fine:
  assumes "c_ok w" "cw_sessions w k \<noteq> None" "\<And>s v. c_ok v \<Longrightarrow> fine (k_next s) v"
  shows "fine (on_queue k removed k_next) w"
proof -
  obtain cell where cell: "cw_sessions w k = Some cell" using assms(2) by auto
  have "fine (k_next (sc_session cell)) (on_cell (\<lambda>cell. cell\<lparr>sc_session := removed (sc_session cell)\<rparr>) k w)"
    using assms(1,3) by (simp add: c_ok_on_cell)
  then show ?thesis by (simp add: on_queue_def runs_def cell pbind_def)
qed

lemma accept_task_fine:
  "c_ok w \<Longrightarrow> cw_sessions w k \<noteq> None \<Longrightarrow> fine (accept_task E k transport) w"
  by (cases transport; simp only: accept_task.simps accept_task_defs; rule on_queue_fine)
    (auto intro!: next_incoming_fine hand_out_fine quic_handle_fine simp del: runs_bind)

lemma net_task_fine:
  "c_ok w \<Longrightarrow> (\<And>net. fine (ok net) w) \<Longrightarrow> fine (net_task E net nothing status ok) w"
  by (cases net) (auto intro!: failed_fine)

lemma net_results_fine:
  "c_ok w \<Longrightarrow> fine (stream_handed net) w" "c_ok w \<Longrightarrow> fine (just_done net) w"
  "c_ok w \<Longrightarrow> fine (data_read max_len net) w"
  by (auto simp: stream_handed_def just_done_def data_read_def intro!: hand_out_fine done_fine split: net.splits)

text \<open>A live raw pointer.\<close>

lemma load_kind_fine:
  "c_ok w \<Longrightarrow> kinds w p = Some KQuic \<Longrightarrow> (\<And>x. fine (f x) w) \<Longrightarrow> fine (pbind (load_as as_quic p) f) w"
  "c_ok w \<Longrightarrow> kinds w p = Some KStream \<Longrightarrow> (\<And>x. fine (f x) w) \<Longrightarrow> fine (pbind (load_as as_stream p) f) w"
  by (auto dest!: kindsD simp: kind_of_iff runs_load)

lemma on_c_udp_fine:
  assumes "c_ok w" "kinds w p = Some KUdp"
  shows "fine (on_c_udp p m) w"
proof -
  obtain c where c: "mm_mem w p = Some (CUdpConnection c)"
    using kindsD [OF assms(2)] by (auto simp: kind_of_iff)
  obtain r c' e where m: "m (c, ev_world (cw_env w)) = (r, (c', e))" by (metis prod.exhaust)
  have "c_ok (w\<lparr>mm_mem := (mm_mem w)(p \<mapsto> CUdpConnection c'), cw_env := (cw_env w)\<lparr>ev_world := e\<rparr>\<rparr>)"
    by (rule c_ok_view [OF _ assms(1)]) (auto simp: view_def kinds_def fun_eq_iff c)
  then show ?thesis by (simp add: on_c_udp_def runs_def pbind_def load_as_def c m)
qed

lemma pointer_task_fine:
  assumes "c_ok w" "kinds w p = Some (target call)"
  shows "fine (pointer_task E net p call) w"
proof (cases call)
  case UdpRecv
  then show ?thesis
    using assms by (auto simp: pointer_task_defs intro!: fine_bind [OF on_c_udp_fine] reply_with_fine done_fine simp del: runs_bind)
next
  case (StreamRead n)
  then show ?thesis
    using assms by (auto simp: pointer_task_defs intro!: load_kind_fine net_task_fine net_results_fine simp del: runs_bind)
qed (use assms in \<open>auto simp: pointer_task_defs intro!: load_kind_fine net_task_fine net_results_fine simp del: runs_bind\<close>)

lemma spawned_fine:
  assumes "c_ok w" "pending_ok w tk"
  shows "fine (run_spawned E rand evs net tk) w"
  using assms by (cases tk)
    (auto intro!: restore_task_fine node_task_fine connect_task_fine serve_task_fine session_tasks_fine
      run_session_fine accept_task_fine pointer_task_fine net_task_fine net_results_fine simp: close_task_def simp del: runs_bind)

lemma complete_fine:
  assumes "c_ok w"
  shows "fine (complete E rand evs net t) w"
proof (cases "cw_tasks w t")
  case (Some pd)
  then have "fine (run_spawned E rand evs net (pd_task pd)) w"
    using assms by (intro spawned_fine) (auto simp: c_ok_def)
  then show ?thesis
    using assms Some
    by (auto simp: complete_def runs_def intro!: c_ok_quiet c_ok_tasks split: prod.splits result.splits option.splits)
qed (simp add: complete_def runs_def assms)

end
