(* ===== verification/Ffi_Contract.thy ===== *)
theory Ffi_Contract
  imports Ffi_Safe
begin

text \<open>
  Every call of the C interface keeps the invariant of \<open>Ffi_Inv\<close> and is free of undefined
  behaviour when its caller keeps the contract there.
\<close>

subsection \<open>The guards\<close>

lemma not_null_fine: "c_ok w \<Longrightarrow> (h \<noteq> 0 \<Longrightarrow> fine m w) \<Longrightarrow> fine (not_null h m) w"
  by (simp add: not_null_def)

lemma with_callback_fine: "c_ok w \<Longrightarrow> (\<And>f. cb = Some f \<Longrightarrow> fine (k f) w) \<Longrightarrow> fine (with_callback cb k) w"
  by (cases cb) (simp_all add: with_callback_def)

lemma text_objectD: "null_or is_text w p \<Longrightarrow> p = 0 \<or> (\<exists>ob s. mm_mem w p = Some ob \<and> as_text ob = Some s)"
  by (auto simp: null_or_def is_text_def kind_of_iff dest!: kindsD)

lemma with_text_fine:
  assumes "c_ok w" "null_or is_text w p" "\<And>s. fine (k s) w"
  shows "fine (with_text p k) w"
  using text_objectD [OF assms(2)] assms(1,3) by (auto simp: with_text_def c_str_to_string_def runs_load)

lemma loads_fine:
  "kinds w p = Some KStorage \<Longrightarrow> (\<And>st cfg. fine (f (st, cfg)) w) \<Longrightarrow> fine (pbind (load_as as_storage p) f) w"
  "kinds w p = Some (KNode c) \<Longrightarrow> fine (g c) w \<Longrightarrow> fine (pbind (load_as as_node p) g) w"
  "kinds w p = Some (KServing c) \<Longrightarrow> fine (g c) w \<Longrightarrow> fine (pbind (load_as as_serving_handle p) g) w"
  "kinds w p = Some (KIncoming c) \<Longrightarrow> fine (g c) w \<Longrightarrow> fine (pbind (load_as as_incoming p) g) w"
  by (auto simp: kind_of_iff runs_load dest!: kindsD)

lemma known_kind: "c_ok w \<Longrightarrow> kinds w p = Some k \<Longrightarrow> known w k"
  by (simp add: c_ok_def)

lemma take_fine:
  assumes "c_ok w" "idle w p" "mm_mem w p = Some ob" "sel ob = Some x"
    "\<And>v. c_ok v \<Longrightarrow> cw_nodes v = cw_nodes w \<Longrightarrow> cw_sessions v = cw_sessions w \<Longrightarrow> fine (f x) v"
  shows "fine (pbind (take_as sel p) f) w"
  using assms by (simp add: runs_take c_ok_take)

lemma free_fine:
  assumes "c_ok w" "null_or (\<lambda>k. K k \<and> (ends_connection k \<longrightarrow> idle w p)) w p"
    "\<And>ob. K (kind_of ob) \<Longrightarrow> \<exists>x. sel ob = Some x"
  shows "fine (free_as sel p) w"
proof -
  have "p = 0 \<or> idle w p \<and> (\<exists>ob x. mm_mem w p = Some ob \<and> sel ob = Some x)"
    using assms idle_other [OF assms(1)] by (auto simp: null_or_def dest: kindsD)
  then show ?thesis using assms(1) by (auto simp: c_ok_take runs_free)
qed

subsection \<open>The calls\<close>

lemma spawn_on_node_fine:
  assumes "c_ok w" "kinds w h = Some (KNode c)" "cw_nodes w c \<noteq> None \<Longrightarrow> pending_ok w (tk c)"
  shows "fine (spawn_on_node h ctx cb tk) w"
  using assms known_kind [OF assms(1,2)] unfolding known.simps spawn_on_node_def by (intro with_callback_fine loads_fine spawn_fine)

lemma spawn_on_session_fine:
  assumes "c_ok w" "null_or (\<lambda>k. \<exists>n. k = KServing n) w h" "\<And>k. cw_sessions w k \<noteq> None \<Longrightarrow> pending_ok w (tk k)"
  shows "fine (spawn_on_session h ctx cb tk) w"
  unfolding spawn_on_session_def
proof (intro not_null_fine with_callback_fine assms(1))
  fix f assume "h \<noteq> 0"
  then obtain k where k: "kinds w h = Some (KServing k)" using assms(2) by (auto simp: null_or_def)
  then show "fine (pbind (load_as as_serving_handle h) (\<lambda>k. spawn ctx f (tk k))) w"
    using known_kind [OF assms(1) k] assms(1,3) by (intro loads_fine(3) spawn_fine) simp_all
qed

lemma accept_fine:
  assumes "c_ok w" "null_or (\<lambda>k. \<exists>n. k = KIncoming n) w h"
  shows "fine (accept_async transport h ctx cb) w"
  unfolding accept_async_def
proof (intro not_null_fine with_callback_fine assms(1))
  fix f assume "h \<noteq> 0"
  then obtain k where k: "kinds w h = Some (KIncoming k)" using assms(2) by (auto simp: null_or_def)
  then show "fine (pbind (load_as as_incoming h) (\<lambda>k. spawn ctx f (AcceptTask k transport))) w"
    using known_kind [OF assms(1) k] assms(1) by (intro loads_fine(4) spawn_fine) simp_all
qed

lemma spawn_on_pointer_fine:
  assumes "c_ok w" "null_or (\<lambda>k. k = target call) w h"
  shows "fine (spawn_on_pointer h ctx cb call) w"
  using assms unfolding spawn_on_pointer_def null_or_def
  by (auto intro!: not_null_fine with_callback_fine spawn_fine)

lemma blocking_lock_fine: "c_ok w \<Longrightarrow> (\<And>cell. Q cell w) \<Longrightarrow> runs (blocking_lock in_callback c) w Q"
  by (auto simp: blocking_lock_def runs_def split: option.splits)

lemma params_fine:
  assumes "c_ok w"
  shows "fine (case extract_serving_params hub_addr cell of
     Ok params \<Rightarrow> spawn ctx f (ServeTask params) | Err status \<Rightarrow> ret status | Panic \<Rightarrow> lift Panic) w"
  using assms by (auto intro: spawn_fine split: result.splits)

lemma start_serving_fine:
  assumes "c_ok w" "null_or (\<lambda>k. \<exists>n. k = KNode n) w h"
  shows "fine (wispers_node_start_serving_async in_callback h ctx cb) w"
  unfolding wispers_node_start_serving_async_def
proof (intro not_null_fine with_callback_fine assms(1))
  fix f assume "h \<noteq> 0"
  then obtain c where "kinds w h = Some (KNode c)" using assms(2) by (auto simp: null_or_def)
  then show "fine (pbind (load_as as_node h) (\<lambda>c. pbind (blocking_lock in_callback c) (\<lambda>cell.
      pbind (gets (\<lambda>w. cw_configs w (nc_config cell))) (\<lambda>hub_addr. case extract_serving_params hub_addr cell of
         Ok params \<Rightarrow> spawn ctx f (ServeTask params) | Err status \<Rightarrow> ret status | Panic \<Rightarrow> lift Panic)))) w"
    by (rule loads_fine) (simp add: blocking_lock_fine params_fine assms(1))
qed

lemma run_session_call_fine:
  fixes w :: "('w, 's, 'q) c_world"
  assumes "c_ok w" "null_or (\<lambda>k. \<exists>n. k = KSession n) w h"
  shows "fine (wispers_serving_session_run_async h ctx cb) w"
  unfolding wispers_serving_session_run_async_def
proof (intro not_null_fine with_callback_fine assms(1))
  fix f assume "h \<noteq> 0"
  then obtain n where n: "kinds w h = Some (KSession n)" using assms(2) by (auto simp: null_or_def)
  let ?k = "\<lambda>session. case session of
      Some k \<Rightarrow> pbind (modify (on_cell (\<lambda>cell. cell\<lparr>sc_started := True\<rparr>) k)) (\<lambda>_. spawn ctx f (RunTask k))
    | None \<Rightarrow> ret StatusInvalidState"
  have "fine (?k n) v" if "c_ok v" "cw_sessions v = cw_sessions w" for v :: "('w, 's, 'q) c_world"
    using that known_kind [OF assms(1) n]
    by (cases n) (auto intro!: spawn_fine c_ok_cells(2) simp: on_cell_def)
  moreover have "mm_mem w h = Some (CServingSession n)" using kindsD [OF n] by (simp add: kind_of_iff)
  moreover have "idle w h" by (rule idle_other [OF assms(1) n]) simp
  ultimately show "fine (pbind (take_as as_serving_session h) ?k) w"
    using assms(1) by (simp add: runs_take c_ok_take)
qed

lemma quic_close_fine:
  assumes "c_ok w" "kinds w h = Some KQuic" "idle w h"
  shows "fine (spawn_quic_close h ctx f close) w"
proof -
  obtain n where "mm_mem w h = Some (CQuicConnection n)"
    using kindsD [OF assms(2)] by (auto simp: kind_of_iff)
  then show ?thesis
    unfolding spawn_quic_close_def
    by (rule take_fine [OF assms(1,3)]) (auto intro: spawn_fine)
qed

lemma close_calls_fine:
  assumes "c_ok w" "null_or (\<lambda>k. k = KQuic) w h" "idle w h"
  shows "fine (wispers_quic_connection_close_async h ctx cb) w"
    "null_or is_text w reason \<Longrightarrow> fine (wispers_quic_connection_close_with_error_async h code reason ctx cb) w"
  unfolding wispers_quic_connection_close_async_def wispers_quic_connection_close_with_error_async_def
  using assms by (auto simp: null_or_def [of "\<lambda>k. k = KQuic"]
      intro!: not_null_fine with_callback_fine quic_close_fine with_text_fine)

lemma load_slice_fine: "slice_ok w data len \<Longrightarrow> data \<noteq> 0 \<Longrightarrow> (\<And>b. Q b w) \<Longrightarrow> runs (load_slice data len) w Q"
  by (auto simp: slice_ok_def load_slice_def runs_load)

lemma logout_call_fine:
  assumes "c_ok w" "null_or (\<lambda>k. \<exists>n. k = KNode n) w h"
  shows "fine (wispers_node_logout_async h ctx cb) w"
  unfolding wispers_node_logout_async_def
proof (intro not_null_fine with_callback_fine assms(1))
  fix f assume "h \<noteq> 0"
  then obtain c where c: "kinds w h = Some (KNode c)" using assms(2) by (auto simp: null_or_def)
  have "mm_mem w h = Some (CNode c)" using kindsD [OF c] by (simp add: kind_of_iff)
  moreover have "idle w h" by (rule idle_other [OF assms(1) c]) simp
  ultimately show "fine (pbind (take_as as_node h) (\<lambda>c. spawn ctx f (NodeTask c CallLogout))) w"
    using known_kind [OF assms(1) c] by (intro take_fine [OF assms(1)]) (auto intro: spawn_fine)
qed

lemma async_fine:
  assumes "c_ok w" "null_or (takes fn) w h" "args_ok w fn" "closes fn \<Longrightarrow> idle w h"
  shows "fine (async_call fn h ctx cb) w"
proof -
  have node: "fine (not_null h (spawn_on_node h ctx cb tk)) w"
    if "null_or (\<lambda>k. \<exists>n. k = KNode n) w h" "\<And>c. cw_nodes w c \<noteq> None \<Longrightarrow> pending_ok w (tk c)" for tk
    using that assms(1) by (auto simp: null_or_def intro!: not_null_fine spawn_on_node_fine)
  have with_arg: "fine (not_null h (with_text p (\<lambda>t. spawn_on_node h ctx cb (tk t)))) w"
    if "null_or (\<lambda>k. \<exists>n. k = KNode n) w h" "null_or is_text w p"
      "\<And>t c. cw_nodes w c \<noteq> None \<Longrightarrow> pending_ok w (tk t c)" for tk p
    using that assms(1) by (auto simp: null_or_def [of "\<lambda>k. \<exists>n. k = KNode n"]
        intro!: not_null_fine with_text_fine spawn_on_node_fine)
  show ?thesis
  proof (cases fn)
    case (RegisterNode p)
    then show ?thesis using assms by (auto simp: wispers_node_register_async_def intro!: with_arg)
  next
    case (ActivateNode p)
    then show ?thesis using assms by (auto simp: wispers_node_activate_async_def intro!: with_arg)
  next
    case (RevokeNode n)
    then show ?thesis using assms node [of "\<lambda>c. NodeTask c (CallRevoke n)"]
      by (simp add: wispers_node_revoke_node_async_def)
  next
    case RefreshMembership
    then show ?thesis using assms node [of "\<lambda>c. NodeTask c CallRefresh"]
      by (simp add: wispers_node_refresh_membership_async_def)
  next
    case NodeGroupInfo
    then show ?thesis using assms node [of "\<lambda>c. NodeTask c CallGroupInfo"]
      by (simp add: wispers_node_group_info_async_def)
  next
    case (ConnectUdp n)
    then show ?thesis using assms node [of "\<lambda>c. ConnectTask c n Datagram"]
      by (simp add: wispers_node_connect_udp_async_def)
  next
    case (ConnectQuic n)
    then show ?thesis using assms node [of "\<lambda>c. ConnectTask c n Stream"]
      by (simp add: wispers_node_connect_quic_async_def)
  next
    case RestoreOrInit
    then show ?thesis using assms
      by (auto simp: wispers_storage_restore_or_init_async_def null_or_def
          intro!: not_null_fine with_callback_fine loads_fine spawn_fine simp del: runs_bind)
  next
    case (WriteStream data len)
    then show ?thesis using assms
      by (auto simp: wispers_quic_stream_write_async_def null_or_def
          intro!: with_callback_fine load_slice_fine spawn_fine)
  qed (use assms in \<open>auto simp: wispers_incoming_accept_udp_async_def wispers_incoming_accept_quic_async_def
      wispers_serving_handle_generate_activation_code_async_def generate_activation_code_impl_def
      wispers_serving_handle_generate_activation_code_with_ttl_async_def
      wispers_serving_handle_shutdown_async_def wispers_serving_handle_status_async_def
      wispers_udp_connection_recv_async_def wispers_quic_connection_open_stream_async_def
      wispers_quic_connection_accept_stream_async_def wispers_quic_connection_ping_async_def
      wispers_quic_stream_read_async_def wispers_quic_stream_finish_async_def
      wispers_quic_stream_shutdown_async_def
      intro!: logout_call_fine start_serving_fine run_session_call_fine spawn_on_session_fine accept_fine
        spawn_on_pointer_fine close_calls_fine\<close>)
qed

lemma free_call_fine:
  assumes "c_ok w" "null_or (\<lambda>k. frees fn k \<and> (ends_connection k \<longrightarrow> idle w p)) w p"
  shows "fine (free_call fn p) w"
proof (cases "fn = FreeSession")
  case True
  have dropped: "fine (drop_session n) v" if "c_ok v" for n and v :: "('b, 'a, 'c) c_world"
    using that by (cases n) (auto simp: drop_session_def c_ok_on_cell)
  show ?thesis
  proof (cases "p = 0")
    case False
    with True assms(2) obtain n where n: "kinds w p = Some (KSession n)" by (auto simp: null_or_def)
    moreover have "idle w p" by (rule idle_other [OF assms(1) n]) simp
    ultimately show ?thesis
      using True False assms(1) dropped [OF c_ok_take]
      by (auto simp: wispers_serving_session_free_def runs_take kind_of_iff dest!: kindsD)
  qed (simp add: True wispers_serving_session_free_def assms(1))
next
  case False
  then show ?thesis
    by (cases fn) (auto intro!: free_fine [OF assms] simp: wispers_storage_free_def wispers_node_free_def wispers_serving_handle_free_def
        wispers_incoming_connections_free_def wispers_udp_connection_free_def wispers_udp_connection_close_def
        wispers_quic_connection_free_def wispers_quic_stream_free_def wispers_group_info_free_def
        wispers_serving_status_free_def wispers_quic_close_info_free_def wispers_string_free_def kind_of_iff)
qed

lemma new_storage_fine:
  assumes "c_ok w"
  shows "fine (new_storage s) w"
proof -
  let ?w = "w\<lparr>mm_next := Suc (Suc (mm_next w)), cw_stores := (cw_stores w)(mm_next w := s),
    cw_configs := (cw_configs w)(Suc (mm_next w) := DEFAULT_HUB_ADDR)\<rparr>"
  have "c_ok ?w" using assms by (rule c_okI) (auto simp: kinds_def)
  then have "c_ok (?w\<lparr>mm_mem := (mm_mem ?w)(mm_next ?w \<mapsto> CStorage (mm_next w) (Suc (mm_next w))),
      mm_next := Suc (mm_next ?w)\<rparr>)"
    by (rule c_ok_alloc) simp
  then show ?thesis by (simp add: new_storage_def)
qed

text \<open>The strings of a registration are allocated together and freed together.\<close>

definition with_strings :: "string \<Rightarrow> string \<Rightarrow> string \<Rightarrow> ('w, 's, 'q) c_world \<Rightarrow> ('w, 's, 'q) c_world" where
  "with_strings jwt cg token w = w\<lparr>mm_mem := (mm_mem w)(mm_next w \<mapsto> CString jwt,
     Suc (mm_next w) \<mapsto> CString cg, Suc (Suc (mm_next w)) \<mapsto> CString token),
     mm_next := Suc (Suc (Suc (mm_next w)))\<rparr>"

lemma from_registration_run:
  "\<exists>cg token jwt. cstring_new (nr_connectivity_group_id reg) = Ok cg \<and>
     cstring_new (case nr_auth_token reg of Some t \<Rightarrow> t | None \<Rightarrow> []) = Ok token \<and>
     cstring_new (nr_attestation_jwt reg) = Ok jwt \<and>
     from_registration reg w = (Ok (Ok \<lparr>ri_connectivity_group_id = Suc (mm_next w),
       ri_node_number = nr_node_number reg, ri_auth_token = Suc (Suc (mm_next w)),
       ri_attestation_jwt = mm_next w\<rparr>), with_strings jwt cg token w)
   \<or> (from_registration reg w = (Ok (Err InvalidUtf8), w) \<and>
      CHR 0x00 \<in> set (nr_connectivity_group_id reg) \<union> set (nr_attestation_jwt reg) \<union>
        (case nr_auth_token reg of Some t \<Rightarrow> set t | None \<Rightarrow> {}))"
  by (auto simp: from_registration_def cstring_new_def pbind_def alloc_def with_strings_def split: option.splits)

lemma from_registration_runs:
  "(\<And>info cg token jwt. Q (Ok info) (with_strings jwt cg token w)) \<Longrightarrow> Q (Err InvalidUtf8) w \<Longrightarrow>
   runs (from_registration reg) w Q"
  using from_registration_run [of reg w] by (auto simp: runs_def)

lemma c_ok_strings [ok_rules]: "c_ok w \<Longrightarrow> c_ok (with_strings jwt cg token w)"
proof -
  let ?a = "\<lambda>v s. v\<lparr>mm_mem := (mm_mem v)(mm_next v \<mapsto> CString s), mm_next := Suc (mm_next v)\<rparr>"
  assume "c_ok w"
  then have "c_ok (?a (?a (?a w jwt) cg) token)" by (intro c_ok_alloc) simp_all
  then show ?thesis by (simp add: with_strings_def)
qed

lemma host_runs:
  "runs (on_c_host st m) w (\<lambda>_ v. mm_mem v = mm_mem w \<and> mm_next v = mm_next w \<and> view v = view w)"
  by (auto simp: on_c_host_def runs_def view_def split: prod.splits)

lemma read_registration_fine:
  fixes w :: "('w, 's, 'q) c_world"
  assumes "c_ok w" "null_or (\<lambda>k. k = KStorage) w h" "null_or (\<lambda>k. k = KRegistration) w out"
  shows "fine (wispers_storage_read_registration E h out) w"
proof (cases "h = 0 \<or> out = 0")
  case False
  then have k: "kinds w h = Some KStorage" "kinds w out = Some KRegistration"
    using assms(2,3) by (auto simp: null_or_def)
  have out: "fine (pbind (load_as as_registration_out out) (\<lambda>_. pbind (store_at out (CRegistrationOut info)) (\<lambda>_. ret st))) v"
    if "c_ok v" "kinds v out = Some KRegistration" for info st and v :: "('w, 's, 'q) c_world"
    using that kindsD [OF that(2)] by (auto simp: kind_of_iff runs_load c_ok_store)
  have "fine (pbind (from_registration reg) (\<lambda>made. case made of
        Ok info \<Rightarrow> pbind (load_as as_registration_out out) (\<lambda>_.
          pbind (store_at out (CRegistrationOut info)) (\<lambda>_. ret Success))
      | Err status \<Rightarrow> ret status | Panic \<Rightarrow> lift Panic)) v"
    if "c_ok v" "kinds v out = Some KRegistration" for reg and v :: "('w, 's, 'q) c_world"
  proof -
    have "kinds (with_strings jwt cg token v) out = Some KRegistration" for jwt cg token
      using that fresh_unused [OF that(1), of out] by (auto simp: with_strings_def)
    then show ?thesis
      using out [OF c_ok_strings [OF that(1)]] that(1)
      by (simp only: runs_bind [of "from_registration reg"]) (rule from_registration_runs; simp)
  qed
  moreover have "c_ok v \<and> kinds v out = Some KRegistration" if "view v = view w" for v :: "('w, 's, 'q) c_world"
    using that k(2) c_ok_view [OF that assms(1)] by (simp add: view_parts(2) [OF that])
  ultimately show ?thesis
    unfolding wispers_storage_read_registration_def using False k(1)
    by (auto simp: runs_bind [of "on_c_host _ _"] intro!: loads_fine(1) runs_mono [OF host_runs] out
        simp del: runs_bind split: result.splits option.splits)
qed (simp add: wispers_storage_read_registration_def assms(1))

definition forget :: "addr \<Rightarrow> ('w, 's, 'q) c_world \<Rightarrow> ('w, 's, 'q) c_world" where
  "forget p w = (if p = 0 then w else w\<lparr>mm_mem := (mm_mem w)(p := None)\<rparr>)"

lemma kinds_forget: "kinds (forget p w) a = (if a = p \<and> p \<noteq> 0 then None else kinds w a)"
  by (simp add: forget_def)

lemma free_string_run:
  "p = 0 \<or> kinds w p = Some KString \<Longrightarrow> free_as as_cstring p w = (Ok (), forget p w)"
  by (auto simp: free_as_def take_as_def forget_def pbind_def load_as_def kind_of_iff dest!: kindsD)

lemma c_ok_forget: "c_ok w \<Longrightarrow> p = 0 \<or> kinds w p = Some KString \<Longrightarrow> c_ok (forget p w)"
  using idle_other [of w p KString] by (auto simp: forget_def c_ok_take)

text \<open>What freeing a registration does: the strings go, and the pointers to them.\<close>

lemma registration_free_run:
  assumes "p \<noteq> 0" "mm_mem w p = Some (CRegistrationOut r)"
    "\<forall>a \<in> {ri_connectivity_group_id r, ri_auth_token r, ri_attestation_jwt r}. a = 0 \<or> kinds w a = Some KString"
    "distinct (filter (\<lambda>a. a \<noteq> 0) [ri_connectivity_group_id r, ri_auth_token r, ri_attestation_jwt r])"
  shows "wispers_registration_info_free p w = (Ok (),
     (forget (ri_attestation_jwt r) (forget (ri_auth_token r) (forget (ri_connectivity_group_id r) w)))
     \<lparr>mm_mem := (mm_mem (forget (ri_attestation_jwt r) (forget (ri_auth_token r)
         (forget (ri_connectivity_group_id r) w))))(p \<mapsto> CRegistrationOut (r\<lparr>ri_connectivity_group_id := 0,
           ri_auth_token := 0, ri_attestation_jwt := 0\<rparr>))\<rparr>)"
proof -
  let ?w1 = "forget (ri_connectivity_group_id r) w"
  let ?w2 = "forget (ri_auth_token r) ?w1"
  have "free_as as_cstring (ri_connectivity_group_id r) w = (Ok (), ?w1)"
    by (rule free_string_run) (use assms(3) in auto)
  moreover have "free_as as_cstring (ri_auth_token r) ?w1 = (Ok (), ?w2)"
    by (rule free_string_run) (use assms(3,4) in \<open>auto simp: kinds_forget split: if_splits\<close>)
  moreover have "free_as as_cstring (ri_attestation_jwt r) ?w2 = (Ok (), forget (ri_attestation_jwt r) ?w2)"
    by (rule free_string_run) (use assms(3,4) in \<open>auto simp: kinds_forget split: if_splits\<close>)
  ultimately show ?thesis
    using assms(1,2) by (simp add: wispers_registration_info_free_def pbind_def load_as_def store_at_def)
qed

lemma registration_free_fine:
  assumes "c_ok w" "p = 0 \<or> registration_ok w p"
  shows "fine (wispers_registration_info_free p) w"
proof (cases "p = 0")
  case False
  then obtain r where r: "mm_mem w p = Some (CRegistrationOut r)"
    "\<forall>a \<in> {ri_connectivity_group_id r, ri_auth_token r, ri_attestation_jwt r}. a = 0 \<or> kinds w a = Some KString"
    "distinct (filter (\<lambda>a. a \<noteq> 0) [ri_connectivity_group_id r, ri_auth_token r, ri_attestation_jwt r])"
    using assms(2) by (auto simp: registration_ok_def Let_def split: option.splits c_object.splits if_splits)
  let ?w3 = "forget (ri_attestation_jwt r) (forget (ri_auth_token r) (forget (ri_connectivity_group_id r) w))"
  have k: "kinds w p = Some KRegistration" by (simp add: kinds_def r(1))
  have "c_ok ?w3"
    by (intro c_ok_forget assms(1)) (use r(2,3) in \<open>auto simp: kinds_forget split: if_splits\<close>)
  moreover have "kinds ?w3 p = Some KRegistration"
    using r(2) k by (auto simp: kinds_forget)
  ultimately show ?thesis
    unfolding runs_def registration_free_run [OF False r] by (simp add: c_ok_store)
qed (simp add: wispers_registration_info_free_def assms(1))

lemma on_cell_event_fine: "c_ok w \<Longrightarrow> fine (session_goes_on E k ev) w"
proof (cases "cw_sessions w k")
  case (Some cell)
  assume "c_ok w"
  then have "fine (on_c_session k (modify (session_step (ce_prims E) (ce_hub E) (ce_juice E) (ce_quiche E) ev)
      :: (_, unit, ub) prog)) w"
    using Some by (intro session_fine) auto
  then show ?thesis
    using \<open>c_ok w\<close> Some by (auto simp: session_goes_on_def runs_def on_c_session_def)
qed (simp add: session_goes_on_def runs_def)

lemma send_fine:
  assumes "c_ok w" "null_or (\<lambda>k. k = KUdp) w h" "slice_ok w data len"
  shows "fine (wispers_udp_connection_send E h data len) w"
proof (cases "h = 0 \<or> data = 0")
  case False
  then have "kinds w h = Some KUdp" using assms(2) by (auto simp: null_or_def)
  then have "fine (pbind (on_c_udp h m) (\<lambda>r. case r of
      Ok _ \<Rightarrow> ret Success | Err _ \<Rightarrow> ret ConnectionFailed | Panic \<Rightarrow> lift Panic)) w"
    for m :: "(udp_connection \<times> 'b, unit, p2p_error) prog"
    by (intro fine_bind [OF on_c_udp_fine [OF assms(1)]]) (auto split: result.splits)
  then show ?thesis
    using False assms(3) by (auto simp: wispers_udp_connection_send_def runs_bind [of "load_slice _ _"]
        intro!: load_slice_fine simp del: runs_bind)
qed (simp add: wispers_udp_connection_send_def assms(1))

lemma small_calls_fine:
  assumes "c_ok w"
  shows "null_or (\<lambda>k. k = KCallbacks) w p \<Longrightarrow> fine (wispers_storage_new_with_callbacks p) w"
    "null_or (\<lambda>k. k = KStorage) w h \<Longrightarrow> null_or is_text w a \<Longrightarrow> fine (wispers_storage_override_hub_addr h a) w"
    "null_or (\<lambda>k. k = KStorage) w h \<Longrightarrow> fine (wispers_storage_delete_state E h) w"
    "null_or (\<lambda>k. \<exists>n. k = KNode n) w h \<Longrightarrow> fine (wispers_node_state in_callback h) w"
    "null_or (\<lambda>k. k = KQuic) w h \<Longrightarrow> fine (wispers_quic_connection_peer_close_info E h) w"
proof -
  show "null_or (\<lambda>k. k = KCallbacks) w p \<Longrightarrow> fine (wispers_storage_new_with_callbacks p) w"
    using assms by (auto simp: wispers_storage_new_with_callbacks_def null_or_def kind_of_iff runs_load
        dest!: kindsD intro!: new_storage_fine split: option.splits)
  show "fine (wispers_storage_override_hub_addr h a) w"
    if "null_or (\<lambda>k. k = KStorage) w h" "null_or is_text w a"
    using that assms by (auto simp: wispers_storage_override_hub_addr_def null_or_def [of "\<lambda>k. k = KStorage"]
        intro!: not_null_fine with_text_fine loads_fine(1) c_ok_quiet)
  show "null_or (\<lambda>k. k = KStorage) w h \<Longrightarrow> fine (wispers_storage_delete_state E h) w"
    using assms by (auto simp: wispers_storage_delete_state_def null_or_def
        intro!: not_null_fine loads_fine(1) fine_bind [OF host_fine] simp del: runs_bind split: result.splits)
  show "fine (wispers_node_state in_callback h) w" if node: "null_or (\<lambda>k. \<exists>n. k = KNode n) w h"
  proof (cases "h = 0")
    case False
    then obtain c where "kinds w h = Some (KNode c)" using node by (auto simp: null_or_def)
    then show ?thesis
      unfolding wispers_node_state_def using False
      by (simp only: if_False) (rule loads_fine(2), simp_all add: blocking_lock_fine assms)
  qed (simp add: wispers_node_state_def assms)
  show "null_or (\<lambda>k. k = KQuic) w h \<Longrightarrow> fine (wispers_quic_connection_peer_close_info E h) w"
    using assms by (auto simp: wispers_quic_connection_peer_close_info_def null_or_def
        intro!: load_kind_fine c_ok_alloc simp del: runs_bind split: option.splits)
qed

lemma ignored_fine: "fine m w \<Longrightarrow> fine (ignore_result m) w"
  by (simp add: ignore_result_def)

lemma step_fine:
  assumes "c_ok w" "allowed w st"
  shows "fine (c_exec E st) w"
  using assms
  by (cases st) (auto intro!: ignored_fine async_fine free_call_fine new_storage_fine small_calls_fine
      read_registration_fine registration_free_fine send_fine complete_fine on_cell_event_fine
      simp: wispers_storage_new_in_memory_def simp del: runs_bind)

end
