(* ===== verification/Ffi_Props.thy ===== *)
theory Ffi_Props
  imports Ffi_Contract "HOL-Library.Multiset"
begin

text \<open>
  The C interface: freedom from undefined behaviour under the contract, the one callback of
  every accepted call, the strings of a registration, and the revoked node that may serve.
\<close>

subsection \<open>Programs in C\<close>

fun c_run :: "('w, 's, 'q) c_env \<Rightarrow> ('w, 'q) c_step list \<Rightarrow> ('w, 's, 'q, unit) c_prog" where
  "c_run E [] = ret ()"
| "c_run E (st # rest) = pbind (c_exec E st) (\<lambda>_. c_run E rest)"

text \<open>The caller keeps the contract at every call it gets to make.\<close>

fun well_used :: "('w, 's, 'q) c_env \<Rightarrow> ('w, 'q) c_step list \<Rightarrow> ('w, 's, 'q) c_world \<Rightarrow> bool" where
  "well_used E [] w = True"
| "well_used E (st # rest) w \<longleftrightarrow>
     allowed w st \<and> (case c_exec E st w of (Ok _, w') \<Rightarrow> well_used E rest w' | _ \<Rightarrow> True)"

text \<open>
  What is owed: a callback and its context for every accepted call, less those of the tasks
  that ended in a panic.
\<close>

type_synonym owed = "(nat \<times> addr) multiset"

fun step_accepted :: "('w, 'q) c_step \<Rightarrow> ('w, 's, 'q) c_world \<Rightarrow> owed" where
  "step_accepted (Async fn h ctx (Some f)) w = (case async_call fn h ctx (Some f) w of
     (Ok st, _) \<Rightarrow> if st = Success then {#(f, ctx)#} else {#} | _ \<Rightarrow> {#})"
| "step_accepted _ w = {#}"

fun step_panicked :: "('w, 's, 'q) c_env \<Rightarrow> ('w, 'q) c_step \<Rightarrow> ('w, 's, 'q) c_world \<Rightarrow> owed" where
  "step_panicked E (Complete rand evs net t) w = (case cw_tasks w t of
     Some pd \<Rightarrow> (case run_spawned E rand evs net (pd_task pd) w of
       (Panic, _) \<Rightarrow> {#(pd_callback pd, pd_ctx pd)#} | _ \<Rightarrow> {#})
   | None \<Rightarrow> {#})"
| "step_panicked E _ w = {#}"

fun accepted_calls :: "('w, 's, 'q) c_env \<Rightarrow> ('w, 'q) c_step list \<Rightarrow> ('w, 's, 'q) c_world \<Rightarrow> owed" where
  "accepted_calls E [] w = {#}"
| "accepted_calls E (st # rest) w = step_accepted st w + accepted_calls E rest (snd (c_exec E st w))"

fun panicked_tasks :: "('w, 's, 'q) c_env \<Rightarrow> ('w, 'q) c_step list \<Rightarrow> ('w, 's, 'q) c_world \<Rightarrow> owed" where
  "panicked_tasks E [] w = {#}"
| "panicked_tasks E (st # rest) w = step_panicked E st w + panicked_tasks E rest (snd (c_exec E st w))"

definition made_calls :: "('w, 's, 'q) c_world \<Rightarrow> owed" where
  "made_calls w = mset (map (\<lambda>call. (ca_callback call, ca_ctx call)) (cw_called w))"

definition pending_calls :: "('w, 's, 'q) c_world \<Rightarrow> owed" where
  "pending_calls w = image_mset (\<lambda>t. case cw_tasks w t of
     Some pd \<Rightarrow> (pd_callback pd, pd_ctx pd) | None \<Rightarrow> (0, 0)) (mset_set (dom (cw_tasks w)))"

subsection \<open>Who touches the tasks and the callbacks\<close>

definition books_of :: "('w, 's, 'q) c_world \<Rightarrow> (nat \<Rightarrow> pending option) \<times> c_call list" where
  "books_of w = (cw_tasks w, cw_called w)"

lemma books_memory [preserves_rules]:
  "preserves books_of fresh" "preserves books_of (alloc ob)" "preserves books_of (load_as sel p)"
  "preserves books_of (store_at p ob)" "preserves books_of (lift r)" "preserves books_of (ret x)"
  by (simp_all add: preserves_def books_of_def fresh_def alloc_def store_at_def load_as_same)

lemma books_run [preserves_rules]:
  "preserves books_of (on_c_host st m)" "preserves books_of (on_c_node c m')"
  "preserves books_of (on_c_session k m'')"
  by (auto simp: preserves_def books_of_def on_c_host_def on_c_node_def on_c_session_def
      split: prod.splits option.splits)

lemma books_modify [preserves_rules]:
  "(\<And>w. books_of (f w) = books_of w) \<Longrightarrow> preserves books_of (modify f)"
  by (simp add: preserves_def)

lemma books_on_cell [simp]: "books_of (on_cell f k w) = books_of w"
  by (simp add: books_of_def on_cell_def)

lemma books_fields [simp]:
  "books_of (w\<lparr>mm_mem := m\<rparr>) = books_of w" "books_of (w\<lparr>mm_next := n\<rparr>) = books_of w"
  "books_of (w\<lparr>cw_env := e\<rparr>) = books_of w" "books_of (w\<lparr>cw_stores := s\<rparr>) = books_of w"
  "books_of (w\<lparr>cw_configs := c\<rparr>) = books_of w" "books_of (w\<lparr>cw_rtts := r\<rparr>) = books_of w"
  "books_of (w\<lparr>cw_nodes := ns\<rparr>) = books_of w" "books_of (w\<lparr>cw_sessions := ss\<rparr>) = books_of w"
  by (simp_all add: books_of_def)

lemma books_take [preserves_rules]:
  "preserves books_of (take_as sel p)" "preserves books_of (free_as sel p)"
  by (auto simp: take_as_def free_as_def intro!: preserves_rules)

lemma books_start_serving [preserves_rules]: "preserves books_of (start_serving_impl H params)"
  by (auto simp: preserves_def start_serving_impl_def Let_def books_of_def split: prod.splits result.splits)

lemma books_udp [preserves_rules]: "preserves books_of (on_c_udp p m)"
  unfolding on_c_udp_def
  by (intro preserves_rules) (auto simp: preserves_def books_of_def split: prod.splits)

lemma books_answer [preserves_rules]:
  "(\<And>x. preserves books_of (ok x)) \<Longrightarrow> preserves books_of (reply_with nothing status detail ok r)"
  by (auto simp: reply_with_def failed_with_def intro!: preserves_rules split: result.splits)

lemma books_results [preserves_rules]:
  "preserves books_of (done_with args)" "preserves books_of (failed_with nothing status detail)"
  "preserves books_of (hand_out ob)" "preserves books_of (stream_handed net)"
  "preserves books_of (just_done net)" "preserves books_of (data_read max_len net)"
  by (auto simp: done_with_def failed_with_def hand_out_def stream_handed_def just_done_def data_read_def
      intro!: preserves_rules split: net.splits)

lemma books_net [preserves_rules]:
  "(\<And>net. preserves books_of (ok net)) \<Longrightarrow> preserves books_of (net_task E net nothing status ok)"
  by (cases net) (auto intro!: preserves_rules)

lemma books_heard [preserves_rules]: "preserves books_of m \<Longrightarrow> preserves books_of (once_heard k m)"
  by (auto simp: preserves_def once_heard_def split: option.splits)

lemma books_queue [preserves_rules]:
  "(\<And>s. preserves books_of (f s)) \<Longrightarrow> preserves books_of (on_queue k removed f)"
  by (auto simp: preserves_def on_queue_def pbind_def split: option.splits)

lemma books_next [preserves_rules]:
  "(\<And>x. preserves books_of (ok x)) \<Longrightarrow> preserves books_of (next_incoming E s queue ok)"
  by (auto simp: next_incoming_def intro!: preserves_rules split: list.splits)

lemma books_spawned: "preserves books_of (run_spawned E rand evs net tk)"
proof (cases tk)
  case (NodeTask c call)
  then show ?thesis
    by (cases call) (auto simp: node_task_defs unit_task_def handle_group_info_result_def intro!: preserves_rules split: result.splits)
next
  case (ConnectTask c peer transport)
  then show ?thesis by (cases transport) (auto simp: connect_task_defs intro!: preserves_rules split: option.splits)
next
  case (RunTask k)
  have "preserves books_of (reply_with NoArgs session_end_status (ce_serving_text E) (\<lambda>_. done_with NoArgs) r)" for r
    by (intro preserves_rules)
  then show ?thesis using RunTask by (auto simp: preserves_def run_session_task_def split: option.splits phase.splits)
next
  case (AcceptTask k transport)
  then show ?thesis by (cases transport) (auto simp: accept_task_defs intro!: preserves_rules)
next
  case (OnPointer p call)
  then show ?thesis by (cases call) (auto simp: pointer_task_defs intro!: preserves_rules)
qed (auto simp: restore_task_def new_node_handle_def serve_task_def code_task_def shutdown_task_def status_task_def
    close_task_def intro!: preserves_rules split: result.splits)

lemma books_lock [preserves_rules]: "preserves books_of (blocking_lock in_callback c)"
  by (auto simp: preserves_def blocking_lock_def)

lemma books_storage [preserves_rules]: "preserves books_of (new_storage s)"
  by (auto simp: new_storage_def intro!: preserves_rules)

lemma books_calls:
  "preserves books_of (free_call fn p)"
  "preserves books_of (wispers_storage_new_with_callbacks p)"
  "preserves books_of (wispers_storage_read_registration E h out)"
  "preserves books_of (wispers_registration_info_free p)"
  "preserves books_of (wispers_storage_override_hub_addr h a)"
  "preserves books_of (wispers_storage_delete_state E h)"
  "preserves books_of (wispers_node_state in_callback h)"
  "preserves books_of (wispers_udp_connection_send E h data len)"
  "preserves books_of (wispers_quic_connection_peer_close_info E h)"
  "preserves books_of (session_goes_on E k ev)"
proof -
  show "preserves books_of (free_call fn p)"
    by (cases fn) (auto simp: wispers_storage_free_def wispers_node_free_def wispers_serving_handle_free_def
        wispers_serving_session_free_def drop_session_def
        wispers_incoming_connections_free_def wispers_udp_connection_free_def wispers_udp_connection_close_def
        wispers_quic_connection_free_def wispers_quic_stream_free_def wispers_group_info_free_def
        wispers_serving_status_free_def wispers_quic_close_info_free_def wispers_string_free_def
        intro!: preserves_rules split: option.splits)
  show "preserves books_of (wispers_storage_new_with_callbacks p)"
    by (auto simp: wispers_storage_new_with_callbacks_def intro!: preserves_rules split: option.splits)
  show "preserves books_of (wispers_storage_read_registration E h out)"
    by (auto simp: wispers_storage_read_registration_def from_registration_def
        intro!: preserves_rules split: result.splits option.splits)
  show "preserves books_of (wispers_registration_info_free p)"
    by (auto simp: wispers_registration_info_free_def intro!: preserves_rules)
  show "preserves books_of (wispers_storage_override_hub_addr h a)"
    by (auto simp: wispers_storage_override_hub_addr_def not_null_def with_text_def c_str_to_string_def
        intro!: preserves_rules split: result.splits)
  show "preserves books_of (wispers_storage_delete_state E h)"
    by (auto simp: wispers_storage_delete_state_def not_null_def intro!: preserves_rules split: result.splits)
  show "preserves books_of (wispers_node_state in_callback h)"
    by (auto simp: wispers_node_state_def intro!: preserves_rules)
  show "preserves books_of (wispers_udp_connection_send E h data len)"
    by (auto simp: wispers_udp_connection_send_def load_slice_def intro!: preserves_rules split: result.splits)
  show "preserves books_of (wispers_quic_connection_peer_close_info E h)"
    by (auto simp: wispers_quic_connection_peer_close_info_def intro!: preserves_rules split: option.splits)
  show "preserves books_of (session_goes_on E k ev)"
    by (auto simp: preserves_def session_goes_on_def books_of_def on_c_session_def split: option.splits)
qed

subsection \<open>What an asynchronous call does\<close>

text \<open>A success is one task more, under a number of its own; an error is no task.\<close>

definition booked ::
  "addr \<Rightarrow> nat option \<Rightarrow> wispers_status \<Rightarrow> ('w, 's, 'q) c_world \<Rightarrow> ('w, 's, 'q) c_world \<Rightarrow> bool"
where
  "booked ctx cb st w w' \<longleftrightarrow> cw_called w' = cw_called w \<and>
     (if st = Success
      then \<exists>f tk. cb = Some f \<and> cw_tasks w' =
        (cw_tasks w)(mm_next w \<mapsto> \<lparr>pd_ctx = ctx, pd_callback = f, pd_task = tk\<rparr>)
      else cw_tasks w' = cw_tasks w)"

definition accepts :: "addr \<Rightarrow> nat option \<Rightarrow> ('w, 's, 'q, wispers_status) c_prog \<Rightarrow> bool" where
  "accepts ctx cb m \<longleftrightarrow> (\<forall>w st w'. m w = (Ok st, w') \<longrightarrow> booked ctx cb st w w')"

definition frame :: "('w, 's, 'q) c_world \<Rightarrow> nat \<times> (nat \<Rightarrow> pending option) \<times> c_call list" where
  "frame w = (mm_next w, cw_tasks w, cw_called w)"

lemma frame_rules:
  "preserves frame (load_as sel p)" "preserves frame (take_as sel p)" "preserves frame (c_str_to_string p)"
  "preserves frame (modify (on_cell f k))" "preserves frame (blocking_lock in_callback c)"
  "preserves frame (gets g)" "preserves frame (load_slice p n)"
  by (auto simp: preserves_def load_as_same take_as_def c_str_to_string_def load_slice_def blocking_lock_def
      frame_def on_cell_def pbind_def load_as_def split: option.splits)

lemma booked_frame: "frame u = frame w \<Longrightarrow> booked ctx cb st u w' \<longleftrightarrow> booked ctx cb st w w'"
  by (simp add: booked_def frame_def)

lemma accepts_bind:
  assumes "preserves frame m" "\<And>x w u. m w = (Ok x, u) \<Longrightarrow> accepts ctx cb (k x)"
  shows "accepts ctx cb (pbind m k)"
  unfolding accepts_def
proof (intro allI impI)
  fix w st w' assume "pbind m k w = (Ok st, w')"
  then obtain x u where u: "m w = (Ok x, u)" "k x u = (Ok st, w')" by (auto simp: pbind_Ok_iff)
  have "booked ctx cb st u w'" using assms(2) [OF u(1)] u(2) by (simp add: accepts_def)
  then show "booked ctx cb st w w'" by (simp add: booked_frame [OF preservesD [OF assms(1) u(1)]])
qed

lemma accepts_rules:
  "st \<noteq> Success \<Longrightarrow> accepts ctx cb (ret st)" "accepts ctx cb (lift Panic)"
  "cb = Some f \<Longrightarrow> accepts ctx cb (spawn ctx f tk)"
  by (auto simp: accepts_def booked_def spawn_def fresh_def pbind_def)

lemma accepts_guards:
  "accepts ctx cb m \<Longrightarrow> accepts ctx cb (not_null h m)"
  "(\<And>f. cb = Some f \<Longrightarrow> accepts ctx cb (k f)) \<Longrightarrow> accepts ctx cb (with_callback cb k)"
  by (auto simp: not_null_def with_callback_def intro!: accepts_rules split: option.splits)

lemma c_str_errors: "c_str_to_string p w = (Ok (Err st), w') \<Longrightarrow> st \<noteq> Success"
  by (auto simp: c_str_to_string_def pbind_Ok_iff split: if_splits)

lemma accepts_text: "(\<And>t. accepts ctx cb (k t)) \<Longrightarrow> accepts ctx cb (with_text p k)"
  unfolding with_text_def
  by (rule accepts_bind [OF frame_rules(3)]) (auto intro!: accepts_rules dest: c_str_errors split: result.splits)

lemma params_errors: "extract_serving_params hub_addr cell = Err st \<Longrightarrow> st \<noteq> Success"
  by (auto simp: extract_serving_params_def rust_simps split: if_splits)

lemma async_accepts: "accepts ctx cb (async_call fn h ctx cb)"
  by (cases fn; simp only: async_call.simps)
    (auto simp: wispers_storage_restore_or_init_async_def wispers_node_register_async_def
      wispers_node_activate_async_def wispers_node_logout_async_def wispers_node_revoke_node_async_def
      wispers_node_refresh_membership_async_def wispers_node_group_info_async_def
      wispers_node_connect_udp_async_def wispers_node_connect_quic_async_def spawn_on_node_def
      wispers_node_start_serving_async_def wispers_incoming_accept_udp_async_def
      wispers_incoming_accept_quic_async_def accept_async_def
      wispers_serving_handle_generate_activation_code_async_def generate_activation_code_impl_def
      wispers_serving_handle_generate_activation_code_with_ttl_async_def spawn_on_session_def
      wispers_serving_session_run_async_def
      wispers_serving_handle_shutdown_async_def wispers_serving_handle_status_async_def spawn_on_pointer_def
      wispers_udp_connection_recv_async_def wispers_quic_connection_open_stream_async_def
      wispers_quic_connection_accept_stream_async_def wispers_quic_connection_ping_async_def
      wispers_quic_connection_close_async_def wispers_quic_connection_close_with_error_async_def
      spawn_quic_close_def wispers_quic_stream_write_async_def
      wispers_quic_stream_read_async_def wispers_quic_stream_finish_async_def
      wispers_quic_stream_shutdown_async_def
      intro!: accepts_guards accepts_text accepts_bind accepts_rules frame_rules
      dest: params_errors split: option.splits result.splits)

subsection \<open>The balance of calls and callbacks\<close>

lemma books_of_eqD: "books_of w' = books_of w \<Longrightarrow> made_calls w' = made_calls w \<and> pending_calls w' = pending_calls w"
  by (simp add: books_of_def made_calls_def pending_calls_def)

lemma pending_more:
  assumes "finite (dom (cw_tasks w))" "cw_tasks w t = None" "cw_tasks w' = (cw_tasks w)(t \<mapsto> pd)"
  shows "pending_calls w' = pending_calls w + {#(pd_callback pd, pd_ctx pd)#}"
proof -
  have "t \<notin> dom (cw_tasks w)" using assms(2) by auto
  then show ?thesis
    unfolding pending_calls_def assms(3) using assms(1)
    by (auto intro!: image_mset_cong split: option.splits if_splits)
qed

lemma pending_less:
  assumes "finite (dom (cw_tasks w))" "cw_tasks w t = Some pd" "cw_tasks w' = (cw_tasks w)(t := None)"
  shows "pending_calls w = pending_calls w' + {#(pd_callback pd, pd_ctx pd)#}"
proof (rule pending_more)
  show "finite (dom (cw_tasks w'))" using assms(1,3) by simp
  show "cw_tasks w' t = None" "cw_tasks w = (cw_tasks w')(t \<mapsto> pd)" using assms(2,3) by auto
qed

lemma complete_balance:
  assumes "finite (dom (cw_tasks w))" "complete E rand evs net t w = (Ok (), w')"
  shows "made_calls w' + pending_calls w' + step_panicked E (Complete rand evs net t) w = made_calls w + pending_calls w \<and>
    finite (dom (cw_tasks w'))"
proof (cases "cw_tasks w t")
  case (Some pd)
  obtain r v where v: "run_spawned E rand evs net (pd_task pd) w = (r, v)" by fastforce
  have b: "cw_tasks v = cw_tasks w" "cw_called v = cw_called w"
    using preservesD [OF books_spawned v] by (simp_all add: books_of_def)
  show ?thesis
  proof (cases r)
    case (Ok a)
    then show ?thesis
      using assms Some b v pending_less [OF assms(1) Some, of w']
      by (cases a) (auto simp: complete_def made_calls_def)
  next
    case Panic
    then show ?thesis
      using assms Some b v pending_less [OF assms(1) Some, of w']
      by (auto simp: complete_def made_calls_def)
  qed (use assms(2) Some v in \<open>simp add: complete_def\<close>)
qed (use assms in \<open>simp add: complete_def\<close>)

lemma async_balance:
  assumes "c_ok w" "finite (dom (cw_tasks w))" "c_exec E (Async fn h ctx cb) w = (Ok (), w')"
  shows "made_calls w' + pending_calls w' = made_calls w + pending_calls w + step_accepted (Async fn h ctx cb) w \<and>
    finite (dom (cw_tasks w'))"
proof -
  from assms(3) obtain st where st: "async_call fn h ctx cb w = (Ok st, w')"
    by (auto simp: ignore_result_def pbind_Ok_iff)
  then have b: "booked ctx cb st w w'" using async_accepts [of ctx cb fn h] by (auto simp: accepts_def)
  have "cw_tasks w (mm_next w) = None"
    using assms(1) by (metis c_ok_def less_irrefl not_None_eq)
  then show ?thesis
    using b st assms(2) pending_more [OF assms(2), of "mm_next w" w']
    by (cases cb) (auto simp: booked_def made_calls_def pending_calls_def split: if_splits)
qed

lemma step_balance:
  assumes "c_ok w" "finite (dom (cw_tasks w))" "c_exec E st w = (Ok (), w')"
  shows "made_calls w' + pending_calls w' + step_panicked E st w = made_calls w + pending_calls w + step_accepted st w \<and>
    finite (dom (cw_tasks w'))"
proof -
  have quiet: ?thesis if "preserves books_of (c_exec E st)" "step_panicked E st w = {#}" "step_accepted st w = {#}"
  proof -
    have "books_of w' = books_of w" by (rule preservesD [OF that(1) assms(3)])
    then show ?thesis using books_of_eqD [of w' w] assms(2) that(2,3) by (simp add: books_of_def)
  qed
  show ?thesis
  proof (cases st)
    case (Async fn h ctx cb)
    then show ?thesis using async_balance [OF assms(1,2)] assms(3) by simp
  next
    case (Complete rand evs net t)
    then show ?thesis using complete_balance [OF assms(2)] assms(3) by simp
  qed (rule quiet; auto intro!: preserves_rules books_calls
        simp: ignore_result_def wispers_storage_new_in_memory_def)+
qed

lemma balance_trans:
  fixes a b :: "'a::comm_monoid_add"
  assumes "a + p = b + q" "b + s = c + t"
  shows "a + (s + p) = c + (t + q)"
proof -
  have "a + (s + p) = (a + p) + s" by (simp add: ac_simps)
  also have "\<dots> = (b + s) + q" using assms(1) by (simp add: ac_simps)
  finally show ?thesis using assms(2) by (simp add: ac_simps)
qed

lemma run_balance:
  assumes "c_ok w" "finite (dom (cw_tasks w))" "well_used E ss w" "c_run E ss w = (Ok (), w')"
  shows "made_calls w' + pending_calls w' + panicked_tasks E ss w =
    made_calls w + pending_calls w + accepted_calls E ss w"
  using assms
proof (induction ss arbitrary: w)
  case (Cons st rest)
  from Cons.prems(4) obtain v where v: "c_exec E st w = (Ok (), v)" "c_run E rest v = (Ok (), w')"
    by (auto simp: pbind_Ok_iff)
  have "c_ok v" using step_fine [OF Cons.prems(1), of st E] Cons.prems(3) v(1) by (simp add: runs_def)
  moreover note step = step_balance [OF Cons.prems(1,2) v(1)]
  ultimately have "made_calls w' + pending_calls w' + panicked_tasks E rest v =
      made_calls v + pending_calls v + accepted_calls E rest v"
    using Cons.IH Cons.prems(3) v by simp
  from balance_trans [OF this step [THEN conjunct1]] show ?case using v(1) by simp
qed simp

lemma run_fine:
  assumes "c_ok w" "well_used E ss w"
  shows "fine (c_run E ss) w"
  using assms
proof (induction ss arbitrary: w)
  case (Cons st rest)
  have e: "fine (c_exec E st) w" using step_fine [OF Cons.prems(1)] Cons.prems(2) by simp
  obtain r v where v: "c_exec E st w = (r, v)" by fastforce
  show ?case
  proof (cases r)
    case (Ok x)
    then have "fine (c_run E rest) v" using Cons e v by (simp add: runs_def)
    then show ?thesis using v Ok by (simp add: runs_def pbind_def)
  qed (use e v in \<open>simp_all add: runs_def pbind_def\<close>)
qed simp

subsection \<open>A sample\<close>

text \<open>A world with one live stream handle, at address 1.\<close>

definition sample_world :: "(unit, unit, unit) c_world" where
  "sample_world = \<lparr>mm_mem = [1 \<mapsto> CQuicStream 0], mm_next = 2,
     cw_env = \<lparr>ev_world = (), ev_rtt = rtt_new, ev_now = 0\<rparr>, cw_stores = (\<lambda>_. ()), cw_configs = (\<lambda>_. []),
     cw_rtts = (\<lambda>_. rtt_new), cw_nodes = (\<lambda>_. None), cw_sessions = (\<lambda>_. None), cw_tasks = (\<lambda>_. None),
     cw_called = []\<rparr>"

definition sample_program :: "(unit, unit) c_step list" where
  "sample_program = [Async FinishStream 1 7 (Some 5), Complete (\<lambda>_. 0) [] NetDone 2, Free FreeStream 1]"

lemma sample_world_ok: "c_ok sample_world"
  by (auto simp: c_ok_def sample_world_def kinds_def split: if_splits)

lemmas sample_simps = sample_program_def sample_world_def null_or_def kinds_def idle_def ignore_result_def
  pbind_def wispers_quic_stream_finish_async_def spawn_on_pointer_def not_null_def with_callback_def spawn_def
  fresh_def complete_def load_as_def finish_task_def just_done_def done_with_def wispers_quic_stream_free_def free_as_def
  take_as_def

lemma sample_well_used: "well_used E sample_program sample_world"
  by (simp add: sample_simps)

lemma sample_run:
  "\<exists>w. c_run E sample_program sample_world = (Ok (), w) \<and> made_calls w = {#(5, 7)#} \<and> mm_mem w 1 = None"
  by (simp add: sample_simps made_calls_def)

definition sample_revoked_world :: "(unit, unit, unit) c_world" where
  "sample_revoked_world = sample_world\<lparr>mm_mem := [1 \<mapsto> CNode 2], mm_next := 4, cw_nodes := [2 \<mapsto>
     \<lparr>nc_node = \<lparr>nd_inner = InnerRevoked sample_registration, nd_persisted = new_persisted (\<lambda>_. 0),
        nd_hub_addr = [], nd_signing_key = []\<rparr>, nc_store = 0, nc_config = 0, nc_rtt = 3\<rparr>]\<rparr>"

text \<open>A registered storage, with a place for its registration at address 4.\<close>

definition sample_stored :: "(unit, mem_store, unit) c_world" where
  "sample_stored = \<lparr>mm_mem = [3 \<mapsto> CStorage 1 2, 4 \<mapsto> CRegistrationOut registration_info_null], mm_next = 5,
     cw_env = \<lparr>ev_world = (), ev_rtt = rtt_new, ev_now = 0\<rparr>,
     cw_stores = (\<lambda>_. \<lparr>ms_state = Some ((new_persisted (\<lambda>_. 0))\<lparr>ps_registration := Some sample_registration\<rparr>),
       ms_poisoned = False\<rparr>),
     cw_configs = (\<lambda>_. DEFAULT_HUB_ADDR), cw_rtts = (\<lambda>_. rtt_new), cw_nodes = (\<lambda>_. None),
     cw_sessions = (\<lambda>_. None), cw_tasks = (\<lambda>_. None), cw_called = []\<rparr>"

lemma sample_stored_ok: "c_ok sample_stored" "kinds sample_stored 4 = Some KRegistration"
  "mm_mem sample_stored 3 = Some (CStorage 1 2)"
  by (auto simp: c_ok_def sample_stored_def kinds_def split: if_splits)

definition sample_c_env ::
  "prims \<Rightarrow> unit hub \<Rightarrow> unit juice \<Rightarrow> unit quiche \<Rightarrow> (unit, mem_store, unit) c_env"
where
  "sample_c_env P H J Q = \<lparr>ce_prims = P, ce_hub = H, ce_juice = J, ce_quiche = Q,
     ce_store = \<lparr>so_load = mem_load, so_save = mem_save, so_delete = mem_delete\<rparr>, ce_empty = mem_new,
     ce_peer_close = (\<lambda>_. None), ce_node_text = (\<lambda>_. []), ce_hub_text = (\<lambda>_. []),
     ce_serving_text = (\<lambda>_. []), ce_p2p_text = (\<lambda>_. []), ce_status_text = (\<lambda>_. [])\<rparr>"

lemma sample_lent:
  "\<exists>w. wispers_storage_read_registration (sample_c_env P H J Q) 3 4 sample_stored = (Ok Success, w)"
  by (simp add: wispers_storage_read_registration_def sample_stored_def pbind_def load_as_def on_c_host_def
      read_registration_def on_store_def mem_load_def from_registration_def alloc_def cstring_new_def
      sample_registration_def new_registration_def store_at_def env.defs host.defs sample_c_env_def)

subsection \<open>Strings of a registration\<close>

lemma read_registration_Success:
  assumes ok: "c_ok w" and h: "mm_mem w h = Some (CStorage st cfg)" and out: "kinds w out = Some KRegistration"
    and run: "wispers_storage_read_registration E h out w = (Ok Success, w1)"
  obtains reg v info jwt cg token where
    "fst (on_c_host st (read_registration (ce_store E)) w) = Ok (Ok (Some reg))"
    "mm_mem v = mm_mem w" "mm_next v = mm_next w"
    "cg = nr_connectivity_group_id reg" "token = (case nr_auth_token reg of Some t \<Rightarrow> t | None \<Rightarrow> [])"
    "jwt = nr_attestation_jwt reg"
    "info = \<lparr>ri_connectivity_group_id = Suc (mm_next w), ri_node_number = nr_node_number reg,
      ri_auth_token = Suc (Suc (mm_next w)), ri_attestation_jwt = mm_next w\<rparr>"
    "w1 = (with_strings jwt cg token v)\<lparr>mm_mem := (mm_mem (with_strings jwt cg token v))(out \<mapsto> CRegistrationOut info)\<rparr>"
proof -
  have nz: "h \<noteq> 0" "out \<noteq> 0" using ok h out by (auto simp: c_ok_def kinds_def)
  obtain r v where v: "on_c_host st (read_registration (ce_store E)) w = (Ok r, v)"
    by (cases "read_registration (ce_store E) (env.extend (cw_env w) (host.fields (cw_stores w st)))")
      (auto simp: on_c_host_def)
  have mem: "mm_mem v = mm_mem w" "mm_next v = mm_next w" using v by (auto simp: on_c_host_def split: prod.splits)
  have out_v: "out < mm_next v" "\<exists>r. mm_mem v out = Some (CRegistrationOut r)"
    using ok out mem kindsD [OF out] by (auto simp: c_ok_def kind_of_iff)
  show thesis
  proof (cases "\<exists>reg. r = Ok (Some reg)")
    case True
    then obtain reg where reg: "r = Ok (Some reg)" by blast
    from from_registration_run [of reg v] show thesis
    proof (elim disjE exE conjE)
      fix cg token jwt
      let ?info = "\<lparr>ri_connectivity_group_id = Suc (mm_next v), ri_node_number = nr_node_number reg,
        ri_auth_token = Suc (Suc (mm_next v)), ri_attestation_jwt = mm_next v\<rparr>"
      assume c: "cstring_new (nr_connectivity_group_id reg) = Ok cg"
        "cstring_new (case nr_auth_token reg of Some t \<Rightarrow> t | None \<Rightarrow> []) = Ok token"
        "cstring_new (nr_attestation_jwt reg) = Ok jwt"
        and f: "from_registration reg v = (Ok (Ok ?info), with_strings jwt cg token v)"
      have "mm_mem (with_strings jwt cg token v) out = mm_mem v out" using out_v(1) by (simp add: with_strings_def)
      then have "w1 = (with_strings jwt cg token v)\<lparr>mm_mem :=
          (mm_mem (with_strings jwt cg token v))(out \<mapsto> CRegistrationOut ?info)\<rparr>"
        using run nz h v reg f out_v(2)
        by (auto simp: wispers_storage_read_registration_def pbind_def load_as_def store_at_def)
      then show thesis
        using c v reg mem by (intro that [of reg v cg token jwt ?info]) (auto simp: cstring_new_def split: if_splits)
    next
      assume "from_registration reg v = (Ok (Err InvalidUtf8), v)"
      then show thesis
        using run nz h v reg by (simp add: wispers_storage_read_registration_def pbind_def load_as_def)
    qed
  next
    case False
    then show thesis
      using run nz h v out_v(2)
      by (auto simp: wispers_storage_read_registration_def pbind_def load_as_def store_at_def
          split: result.splits option.splits)
  qed
qed

subsection \<open>Properties\<close>

text \<open>
  C23: A C program that keeps the contract - live pointers of the right type, and no end of a
  connection or a stream with a call on it pending - never runs into undefined behaviour,
  whatever the network, the hub and the callbacks do in between.  Nodes, storages and the
  handles of a session may be freed at any time.
\<close>

theorem contract_excludes_undefined_behaviour:
  assumes "c_ok w" "well_used E ss w"
  shows "fst (c_run E ss w) \<noteq> Err u \<and> c_ok (snd (c_run E ss w))"
  using run_fine [OF assms] by (auto simp: runs_def split: prod.splits result.splits)

theorem contract_excludes_undefined_behaviour_witness:
  "\<forall>E. fst (c_run E sample_program sample_world) \<noteq> Err (Dangling 1) \<and>
     c_ok (snd (c_run E sample_program sample_world))"
  using contract_excludes_undefined_behaviour [OF sample_world_ok sample_well_used] by blast



text \<open>
  C40: A node that was revoked may start serving through the C interface: the call is accepted,
  while \<open>Node::start_serving\<close> refuses it.
\<close>

theorem revoked_node_may_serve_from_c:
  assumes "h \<noteq> 0" "mm_mem w h = Some (CNode c)" "cw_nodes w c = Some cell"
    "nd_inner (nc_node cell) = InnerRevoked reg"
  shows "fst (wispers_node_start_serving_async False h ctx (Some f) w) = Ok Success \<and>
    fst (start_serving H (node_sys w cell)) = Err NodeRevoked"
  using assms
  by (simp add: wispers_node_start_serving_async_def not_null_def with_callback_def load_as_def pbind_def
      blocking_lock_def extract_serving_params_def spawn_def fresh_def start_serving_def node_sys_def
      require_registered_or_activated_def node_state_of_def registration_of_def)

theorem revoked_node_may_serve_from_c_witness:
  "\<exists>cell. cw_nodes sample_revoked_world 2 = Some cell \<and>
     fst (wispers_node_start_serving_async False 1 7 (Some 5) sample_revoked_world) = Ok Success \<and>
     (\<forall>H. fst (start_serving H (node_sys sample_revoked_world cell) :: ((unit, unit) session, node_state_error) result \<times> _) =
        Err NodeRevoked)"
proof -
  obtain cell where "cw_nodes sample_revoked_world 2 = Some cell" "nd_inner (nc_node cell) = InnerRevoked sample_registration"
    "mm_mem sample_revoked_world 1 = Some (CNode 2)" by (simp add: sample_revoked_world_def)
  then show ?thesis
    using revoked_node_may_serve_from_c [of 1 sample_revoked_world 2 cell sample_registration 7 5] by auto
qed

text \<open>
  C39: The registration that C reads is the stored one, string for string; freeing it gives all
  the memory back, and freeing it again does nothing.
\<close>

theorem registration_is_lent_to_c:
  assumes "c_ok w" "mm_mem w h = Some (CStorage st cfg)" "kinds w out = Some KRegistration"
    "wispers_storage_read_registration E h out w = (Ok Success, w1)"
  shows "\<exists>reg r w2. fst (on_c_host st (read_registration (ce_store E)) w) = Ok (Ok (Some reg)) \<and>
    mm_mem w1 out = Some (CRegistrationOut r) \<and> ri_node_number r = nr_node_number reg \<and>
    mm_mem w1 (ri_connectivity_group_id r) = Some (CString (nr_connectivity_group_id reg)) \<and>
    mm_mem w1 (ri_auth_token r) = Some (CString (case nr_auth_token reg of Some t \<Rightarrow> t | None \<Rightarrow> [])) \<and>
    mm_mem w1 (ri_attestation_jwt r) = Some (CString (nr_attestation_jwt reg)) \<and>
    wispers_registration_info_free out w1 = (Ok (), w2) \<and>
    mm_mem w2 = (mm_mem w)(out \<mapsto> CRegistrationOut (registration_info_null\<lparr>ri_node_number := nr_node_number reg\<rparr>)) \<and>
    wispers_registration_info_free out w2 = (Ok (), w2)"
proof -
  obtain reg v info jwt cg token where read:
    "fst (on_c_host st (read_registration (ce_store E)) w) = Ok (Ok (Some reg))"
    "mm_mem v = mm_mem w" "mm_next v = mm_next w"
    "cg = nr_connectivity_group_id reg" "token = (case nr_auth_token reg of Some t \<Rightarrow> t | None \<Rightarrow> [])"
    "jwt = nr_attestation_jwt reg"
    "info = \<lparr>ri_connectivity_group_id = Suc (mm_next w), ri_node_number = nr_node_number reg,
      ri_auth_token = Suc (Suc (mm_next w)), ri_attestation_jwt = mm_next w\<rparr>"
    "w1 = (with_strings jwt cg token v)\<lparr>mm_mem := (mm_mem (with_strings jwt cg token v))(out \<mapsto> CRegistrationOut info)\<rparr>"
    by (rule read_registration_Success [OF assms])
  let ?n = "mm_next w"
  have out: "0 < out" "out < ?n" "0 < ?n" using assms(1,3) by (auto simp: c_ok_def)
  have unused: "mm_mem w p = None" if "?n \<le> p" for p
    using fresh_unused [OF assms(1) that] by (simp add: kinds_def)
  have mem1: "mm_mem w1 = (mm_mem w)(?n \<mapsto> CString jwt, Suc ?n \<mapsto> CString cg, Suc (Suc ?n) \<mapsto> CString token,
      out \<mapsto> CRegistrationOut info)"
    by (simp add: read(2,3,8) with_strings_def)
  let ?null = "registration_info_null\<lparr>ri_node_number := nr_node_number reg\<rparr>"
  let ?w3 = "forget ?n (forget (Suc (Suc ?n)) (forget (Suc ?n) w1))"
  define w2 where "w2 = ?w3\<lparr>mm_mem := (mm_mem ?w3)(out \<mapsto> CRegistrationOut ?null)\<rparr>"
  have "wispers_registration_info_free out w1 = (Ok (), w2)"
    using registration_free_run [of out w1 info] out mem1
    by (simp add: read(7) kinds_def w2_def registration_info_null_def)
  moreover have mem2: "mm_mem w2 = (mm_mem w)(out \<mapsto> CRegistrationOut ?null)"
    using out unused by (auto simp: w2_def forget_def mem1 fun_eq_iff)
  moreover have "wispers_registration_info_free out w2 = (Ok (), w2)"
    using registration_free_run [of out w2 ?null] out mem2
    by (simp add: forget_def registration_info_null_def)
  moreover have "mm_mem w1 out = Some (CRegistrationOut info)" using mem1 by simp
  moreover have "mm_mem w1 (ri_connectivity_group_id info) = Some (CString cg)"
    "mm_mem w1 (ri_auth_token info) = Some (CString token)" "mm_mem w1 (ri_attestation_jwt info) = Some (CString jwt)"
    using mem1 out by (simp_all add: read(7))
  ultimately show ?thesis
    using read(1,4-7) by (intro exI [of _ reg] exI [of _ info] exI [of _ w2]) simp
qed

theorem registration_is_lent_to_c_witness:
  "\<forall>P H J Q. \<exists>w1 r w2.
     wispers_storage_read_registration (sample_c_env P H J Q) 3 4 sample_stored = (Ok Success, w1) \<and>
     mm_mem w1 4 = Some (CRegistrationOut r) \<and>
     wispers_registration_info_free 4 w1 = (Ok (), w2) \<and> wispers_registration_info_free 4 w2 = (Ok (), w2)"
  using sample_lent registration_is_lent_to_c [OF sample_stored_ok(1,3,2)] by blast

end
