(* ===== verification/Juice.thy ===== *)
theory Juice
  imports Ice Rust_Text
begin

text \<open>
  \<open>wispers-connect/src/juice.rs\<close>, the safe wrapper of the C library libjuice: the conversion
  of its states and error codes, the configuration handed over by pointers (with the memory
  they point into), \<open>JuiceAgent\<close> with its methods, \<open>close\<close> and the callbacks, and the
  interleavings of several threads that share an agent.  The constants of the generated
  bindings are the parameter \<open>K\<close> and the library's functions the parameter \<open>L\<close>.
\<close>

subsection \<open>States and error codes\<close>

record juice_consts =
  k_disconnected :: i32
  k_gathering :: i32
  k_connecting :: i32
  k_connected :: i32
  k_completed :: i32
  k_failed :: i32
  k_err_success :: i32
  k_err_invalid :: i32
  k_err_failed :: i32
  k_err_not_avail :: i32
  k_err_ignored :: i32
  k_err_again :: i32
  k_err_too_large :: i32
  k_max_sdp :: nat
  k_max_candidate :: nat
  k_max_address :: nat

definition state_from_raw :: "juice_consts \<Rightarrow> i32 \<Rightarrow> juice_state" where
  "state_from_raw K raw =
     (if raw = k_disconnected K then JDisconnected
      else if raw = k_gathering K then JGathering
      else if raw = k_connecting K then JConnecting
      else if raw = k_connected K then JConnected
      else if raw = k_completed K then JCompleted
      else if raw = k_failed K then JFailed
      else JUnknown raw)"

definition state_as_raw :: "juice_consts \<Rightarrow> juice_state \<Rightarrow> i32" where
  "state_as_raw K s = (case s of
     JDisconnected \<Rightarrow> k_disconnected K | JGathering \<Rightarrow> k_gathering K
   | JConnecting \<Rightarrow> k_connecting K | JConnected \<Rightarrow> k_connected K
   | JCompleted \<Rightarrow> k_completed K | JFailed \<Rightarrow> k_failed K | JUnknown other \<Rightarrow> other)"

definition juice_is_connected :: "juice_state \<Rightarrow> bool" where
  "juice_is_connected s \<longleftrightarrow> s = JConnected \<or> s = JCompleted"

definition juice_from_code :: "juice_consts \<Rightarrow> i32 \<Rightarrow> juice_error" where
  "juice_from_code K code =
     (if code = k_err_invalid K then JuiceInvalid
      else if code = k_err_failed K then JuiceFailed
      else if code = k_err_not_avail K then JuiceNotAvailable
      else if code = k_err_ignored K then JuiceIgnored
      else if code = k_err_again K then JuiceAgain
      else if code = k_err_too_large K then JuiceTooLarge
      else JuiceUnknown code)"

definition to_result :: "juice_consts \<Rightarrow> i32 \<Rightarrow> (unit, juice_error) result" where
  "to_result K code = (if code = k_err_success K then Ok () else Err (juice_from_code K code))"

definition buffer_to_string :: "bytes \<Rightarrow> string" where
  "buffer_to_string buffer = from_utf8_lossy (takeWhile (\<lambda>b. b \<noteq> 0) buffer)"

subsection \<open>The configuration in memory\<close>

text \<open>
  An allocation holds a C string without its terminating zero byte, or the buffer of the
  vector of servers; its address is its position, counted from one, so that 0 is the null
  pointer of the zeroed structures.
\<close>

type_synonym ptr = nat

record raw_turn_server =
  rt_host :: ptr
  rt_username :: ptr
  rt_password :: ptr
  rt_port :: u16

datatype c_alloc = CStr bytes | Servers "raw_turn_server list"

type_synonym heap = "c_alloc list"

record raw_config =
  rc_stun_server_host :: ptr
  rc_stun_server_port :: u16
  rc_turn_servers :: ptr
  rc_turn_servers_count :: i32
  \<comment> \<open>whether the four callbacks are set\<close>
  rc_callbacks :: bool
  rc_user_ptr :: ptr

record owned_config =
  oc_raw :: raw_config
  oc_stun_host :: ptr
  oc_turn_servers :: "raw_turn_server list"
  oc_turn_strings :: "ptr list"

definition c_alloc_new :: "c_alloc \<Rightarrow> (heap, ptr, juice_error) prog" where
  "c_alloc_new x = (\<lambda>h. (Ok (Suc (length h)), h @ [x]))"

text \<open>\<open>CString::new\<close> with its error mapped, as the code maps it everywhere.\<close>

definition cstring_from :: "string \<Rightarrow> (heap, ptr, juice_error) prog" where
  "cstring_from s =
     (if 0 \<in> set (str_bytes s) then fail JuiceInteriorNul else c_alloc_new (CStr (str_bytes s)))"

text \<open>An absent or an empty credential leaves the null pointer.\<close>

definition push_credential ::
  "string option \<Rightarrow> ptr list \<Rightarrow> (heap, ptr \<times> ptr list, juice_error) prog"
where
  "push_credential credential turn_strings = (case credential of
     Some c \<Rightarrow>
       if c \<noteq> [] then pbind (cstring_from c) (\<lambda>p. ret (p, turn_strings @ [p]))
       else ret (0, turn_strings)
   | None \<Rightarrow> ret (0, turn_strings))"

definition push_server ::
  "turn_server_config \<Rightarrow> raw_turn_server list \<times> ptr list \<Rightarrow>
   (heap, raw_turn_server list \<times> ptr list, juice_error) prog"
where
  "push_server server = (\<lambda>(raw_servers, turn_strings).
     pbind (cstring_from (ts_host server)) (\<lambda>host.
     pbind (push_credential (ts_username server) (turn_strings @ [host])) (\<lambda>(username, turn_strings).
     pbind (push_credential (ts_password server) turn_strings) (\<lambda>(password, turn_strings).
     ret (raw_servers @ [\<lparr>rt_host = host, rt_username = username, rt_password = password,
       rt_port = ts_port server\<rparr>], turn_strings)))))"

fun push_servers ::
  "turn_server_config list \<Rightarrow> raw_turn_server list \<times> ptr list \<Rightarrow>
   (heap, raw_turn_server list \<times> ptr list, juice_error) prog"
where
  "push_servers [] acc = ret acc"
| "push_servers (server # servers) acc = pbind (push_server server acc) (push_servers servers)"

definition owned_config_new :: "ice_servers_config \<Rightarrow> (heap, owned_config, juice_error) prog" where
  "owned_config_new config =
     pbind (cstring_from (is_stun_host config)) (\<lambda>stun_host.
     let raw = \<lparr>rc_stun_server_host = stun_host, rc_stun_server_port = is_stun_port config,
       rc_turn_servers = 0, rc_turn_servers_count = 0, rc_callbacks = False, rc_user_ptr = 0\<rparr> in
     pbind (push_servers (is_turn_servers config) ([], [])) (\<lambda>(raw_servers, turn_strings).
     pbind (if raw_servers \<noteq> [] then
              pbind (c_alloc_new (Servers raw_servers)) (\<lambda>p.
              ret (raw\<lparr>rc_turn_servers := p, rc_turn_servers_count := of_nat (length raw_servers)\<rparr>))
            else ret raw) (\<lambda>raw.
     ret \<lparr>oc_raw = raw, oc_stun_host = stun_host, oc_turn_servers = raw_servers,
       oc_turn_strings = turn_strings\<rparr>)))"

definition configure_callbacks :: "ptr \<Rightarrow> owned_config \<Rightarrow> owned_config" where
  "configure_callbacks user_ptr oc =
     oc\<lparr>oc_raw := (oc_raw oc)\<lparr>rc_callbacks := True, rc_user_ptr := user_ptr\<rparr>\<rparr>"

text \<open>What the library reads through the pointers; a pointer to nothing, or to the wrong
  kind of allocation, reads as \<open>None\<close>.\<close>

definition deref :: "heap \<Rightarrow> ptr \<Rightarrow> c_alloc option" where
  "deref h p = (case p of 0 \<Rightarrow> None | Suc i \<Rightarrow> if i < length h then Some (h ! i) else None)"

definition read_cstr :: "heap \<Rightarrow> ptr \<Rightarrow> bytes option" where
  "read_cstr h p = (case deref h p of Some (CStr s) \<Rightarrow> Some s | _ \<Rightarrow> None)"

definition read_turn_server ::
  "heap \<Rightarrow> raw_turn_server \<Rightarrow> bytes option \<times> u16 \<times> bytes option \<times> bytes option"
where
  "read_turn_server h r =
     (read_cstr h (rt_host r), rt_port r, read_cstr h (rt_username r), read_cstr h (rt_password r))"

definition read_turn_servers ::
  "heap \<Rightarrow> raw_config \<Rightarrow> (bytes option \<times> u16 \<times> bytes option \<times> bytes option) list"
where
  "read_turn_servers h raw = (case deref h (rc_turn_servers raw) of
     Some (Servers rs) \<Rightarrow>
       map (read_turn_server h) (take (nat (sint (rc_turn_servers_count raw))) rs)
   | _ \<Rightarrow> [])"

subsection \<open>The agent\<close>

text \<open>
  \<open>JuiceAgentInner\<close>: the atomic pointer to the library's agent and the atomic flag.  The
  functions on it are the single atomic operations of the code.
\<close>

record agent_inner =
  ai_agent :: ptr
  ai_closed :: bool

definition agent_inner_new :: agent_inner where
  "agent_inner_new = \<lparr>ai_agent = 0, ai_closed = False\<rparr>"

definition is_closed :: "agent_inner \<Rightarrow> bool" where
  "is_closed i = ai_closed i"

definition load_agent :: "agent_inner \<Rightarrow> (ptr, juice_error) result" where
  "load_agent i = (if ai_agent i = 0 then Err JuiceClosed else Ok (ai_agent i))"

definition cas_closed :: "agent_inner \<Rightarrow> bool \<times> agent_inner" where
  "cas_closed i = (if ai_closed i then (False, i) else (True, i\<lparr>ai_closed := True\<rparr>))"

definition swap_agent :: "agent_inner \<Rightarrow> ptr \<times> agent_inner" where
  "swap_agent i = (ai_agent i, i\<lparr>ai_agent := 0\<rparr>)"

text \<open>
  The library: what each function returns, and what it leaves in the buffers that it is
  given, of which it is told the length.
\<close>

record 'w juice_lib =
  jl_create :: "heap \<Rightarrow> raw_config \<Rightarrow> 'w \<Rightarrow> ptr \<times> 'w"
  jl_destroy :: "ptr \<Rightarrow> 'w \<Rightarrow> 'w"
  jl_gather_candidates :: "ptr \<Rightarrow> 'w \<Rightarrow> i32 \<times> 'w"
  jl_get_local_description :: "ptr \<Rightarrow> nat \<Rightarrow> 'w \<Rightarrow> (i32 \<times> bytes) \<times> 'w"
  jl_set_remote_description :: "ptr \<Rightarrow> bytes \<Rightarrow> 'w \<Rightarrow> i32 \<times> 'w"
  jl_add_remote_candidate :: "ptr \<Rightarrow> bytes \<Rightarrow> 'w \<Rightarrow> i32 \<times> 'w"
  jl_set_remote_gathering_done :: "ptr \<Rightarrow> 'w \<Rightarrow> i32 \<times> 'w"
  \<comment> \<open>no data pointer for an empty slice\<close>
  jl_send :: "ptr \<Rightarrow> bytes option \<Rightarrow> nat \<Rightarrow> 'w \<Rightarrow> i32 \<times> 'w"
  jl_get_state :: "ptr \<Rightarrow> 'w \<Rightarrow> i32 \<times> 'w"
  jl_get_selected_candidates :: "ptr \<Rightarrow> nat \<Rightarrow> nat \<Rightarrow> 'w \<Rightarrow> (i32 \<times> bytes \<times> bytes) \<times> 'w"
  jl_get_selected_addresses :: "ptr \<Rightarrow> nat \<Rightarrow> nat \<Rightarrow> 'w \<Rightarrow> (i32 \<times> bytes \<times> bytes) \<times> 'w"

type_synonym ('w, 'a) agent_prog = "(agent_inner \<times> 'w, 'a, juice_error) prog"

definition agent_ptr :: "('w, ptr) agent_prog" where
  "agent_ptr = (\<lambda>s. (load_agent (fst s), s))"

definition lib_call :: "('w \<Rightarrow> 'a \<times> 'w) \<Rightarrow> ('w, 'a) agent_prog" where
  "lib_call f = (\<lambda>(i, w). case f w of (x, w') \<Rightarrow> (Ok x, (i, w')))"

definition agent_new ::
  "'w juice_lib \<Rightarrow> ptr \<Rightarrow> ice_servers_config \<Rightarrow> heap \<times> 'w \<Rightarrow>
   (agent_inner \<times> owned_config, juice_error) result \<times> heap \<times> 'w"
where
  "agent_new L inner_ptr config = (\<lambda>(h, w).
     case owned_config_new config h of
       (Err e, h') \<Rightarrow> (Err e, h', w)
     | (Panic, h') \<Rightarrow> (Panic, h', w)
     | (Ok oc, h') \<Rightarrow>
         let oc = configure_callbacks inner_ptr oc in
         case jl_create L h' (oc_raw oc) w of (p, w') \<Rightarrow>
           if p = 0 then (Err JuiceCreationFailed, h', w')
           else (Ok (agent_inner_new\<lparr>ai_agent := p\<rparr>, oc), h', w'))"

definition agent_close :: "'w juice_lib \<Rightarrow> agent_inner \<times> 'w \<Rightarrow> agent_inner \<times> 'w" where
  "agent_close L = (\<lambda>(i, w). case cas_closed i of
     (won, i) \<Rightarrow>
       if won then
         case swap_agent i of (p, i) \<Rightarrow> if p \<noteq> 0 then (i, jl_destroy L p w) else (i, w)
       else (i, w))"

definition gather_candidates :: "juice_consts \<Rightarrow> 'w juice_lib \<Rightarrow> ('w, unit) agent_prog" where
  "gather_candidates K L =
     pbind agent_ptr (\<lambda>agent.
     pbind (lib_call (jl_gather_candidates L agent)) (\<lambda>rc.
     lift (to_result K rc)))"

definition get_local_description :: "juice_consts \<Rightarrow> 'w juice_lib \<Rightarrow> ('w, string) agent_prog" where
  "get_local_description K L =
     pbind agent_ptr (\<lambda>agent.
     pbind (lib_call (jl_get_local_description L agent (k_max_sdp K))) (\<lambda>(rc, buffer).
     pbind (lift (to_result K rc)) (\<lambda>_.
     ret (buffer_to_string buffer))))"

text \<open>A text argument: its C string lives until the call has returned.\<close>

definition c_string :: "string \<Rightarrow> (bytes, juice_error) result" where
  "c_string s = (if 0 \<in> set (str_bytes s) then Err JuiceInteriorNul else Ok (str_bytes s))"

definition set_remote_description ::
  "juice_consts \<Rightarrow> 'w juice_lib \<Rightarrow> string \<Rightarrow> ('w, unit) agent_prog"
where
  "set_remote_description K L sdp =
     pbind agent_ptr (\<lambda>agent.
     pbind (lift (c_string sdp)) (\<lambda>c_sdp.
     pbind (lib_call (jl_set_remote_description L agent c_sdp)) (\<lambda>rc.
     lift (to_result K rc))))"

definition add_remote_candidate ::
  "juice_consts \<Rightarrow> 'w juice_lib \<Rightarrow> string \<Rightarrow> ('w, unit) agent_prog"
where
  "add_remote_candidate K L sdp =
     pbind agent_ptr (\<lambda>agent.
     pbind (lift (c_string sdp)) (\<lambda>c_sdp.
     pbind (lib_call (jl_add_remote_candidate L agent c_sdp)) (\<lambda>rc.
     lift (to_result K rc))))"

definition set_remote_gathering_done :: "juice_consts \<Rightarrow> 'w juice_lib \<Rightarrow> ('w, unit) agent_prog" where
  "set_remote_gathering_done K L =
     pbind agent_ptr (\<lambda>agent.
     pbind (lib_call (jl_set_remote_gathering_done L agent)) (\<lambda>rc.
     lift (to_result K rc)))"

definition agent_send :: "juice_consts \<Rightarrow> 'w juice_lib \<Rightarrow> bytes \<Rightarrow> ('w, unit) agent_prog" where
  "agent_send K L data =
     pbind agent_ptr (\<lambda>agent.
     let ptr = (if data = [] then None else Some data) in
     pbind (lib_call (jl_send L agent ptr (length data))) (\<lambda>rc.
     lift (to_result K rc)))"

definition get_state :: "juice_consts \<Rightarrow> 'w juice_lib \<Rightarrow> ('w, juice_state) agent_prog" where
  "get_state K L =
     pcatch agent_ptr
       (\<lambda>agent. pbind (lib_call (jl_get_state L agent)) (\<lambda>raw. ret (state_from_raw K raw)))
       (\<lambda>_. ret JDisconnected)"

definition get_selected_candidates ::
  "juice_consts \<Rightarrow> 'w juice_lib \<Rightarrow> ('w, string \<times> string) agent_prog"
where
  "get_selected_candidates K L =
     pbind agent_ptr (\<lambda>agent.
     let len = k_max_candidate K in
     pbind (lib_call (jl_get_selected_candidates L agent len len)) (\<lambda>(rc, local, remote).
     pbind (lift (to_result K rc)) (\<lambda>_.
     ret (buffer_to_string local, buffer_to_string remote))))"

definition get_selected_addresses ::
  "juice_consts \<Rightarrow> 'w juice_lib \<Rightarrow> ('w, string \<times> string) agent_prog"
where
  "get_selected_addresses K L =
     pbind agent_ptr (\<lambda>agent.
     let len = k_max_address K in
     pbind (lib_call (jl_get_selected_addresses L agent len len)) (\<lambda>(rc, local, remote).
     pbind (lift (to_result K rc)) (\<lambda>_.
     ret (buffer_to_string local, buffer_to_string remote))))"

subsection \<open>Callbacks\<close>

text \<open>
  What the library calls back with; a null pointer of the data is \<open>None\<close>.  A callback
  reaches the closures of \<open>JuiceAgent::new\<close> as an event, unless the pointer to the agent or
  to the data is null or the agent is closed.
\<close>

datatype juice_callback =
    CbStateChanged i32 | CbCandidate "bytes option" | CbGatheringDone | CbRecv "bytes option"

datatype juice_event =
    EvState juice_state | EvCandidate string | EvGatheringDone | EvRecv bytes

definition with_inner :: "agent_inner option \<Rightarrow> juice_event \<Rightarrow> juice_event option" where
  "with_inner user_ptr ev = (case user_ptr of
     None \<Rightarrow> None
   | Some inner \<Rightarrow> if is_closed inner then None else Some ev)"

definition on_callback ::
  "juice_consts \<Rightarrow> agent_inner option \<Rightarrow> juice_callback \<Rightarrow> juice_event option"
where
  "on_callback K user_ptr cb = (case cb of
     CbStateChanged state \<Rightarrow> with_inner user_ptr (EvState (state_from_raw K state))
   | CbCandidate None \<Rightarrow> None
   | CbCandidate (Some sdp) \<Rightarrow> with_inner user_ptr (EvCandidate (from_utf8_lossy sdp))
   | CbGatheringDone \<Rightarrow> with_inner user_ptr EvGatheringDone
   | CbRecv None \<Rightarrow> None
   | CbRecv (Some data) \<Rightarrow> with_inner user_ptr (EvRecv data))"

subsection \<open>Threads\<close>

text \<open>
  An agent is shared by threads, of the program and of the library.  Where a thread stands
  between two atomic operations: it holds the pointer loaded for a call; it has won the flag
  in \<open>close\<close>; it is about to destroy the agent; as a thread of the library, it is past the
  check of \<open>with_inner\<close>, in a handler.
\<close>

datatype juice_pc = PIdle | PHolding ptr | PClosing | PDestroying ptr | PHandler

text \<open>
  Beside the shared words: whether the \<open>JuiceAgent\<close> still has its owners, whether its memory
  has been freed, what has been destroyed, and what must not happen: a call with a destroyed
  agent, an agent destroyed twice, a callback on freed memory.
\<close>

record juice_sys =
  js_inner :: agent_inner
  js_pcs :: "juice_pc list"
  js_owned :: bool
  js_freed :: bool
  js_destroyed :: "ptr list"
  js_call_after_destroy :: bool
  js_double_destroy :: bool
  js_callback_after_free :: bool

datatype juice_act =
    Load nat | CallLib nat | CloseFlag nat | SwapPtr nat | DestroyLib nat
  | DropAgent nat | FreeMemory | CallbackIn nat | HandlerDone nat

definition at_pc :: "juice_sys \<Rightarrow> nat \<Rightarrow> juice_pc \<Rightarrow> bool" where
  "at_pc s t pc \<longleftrightarrow> t < length (js_pcs s) \<and> js_pcs s ! t = pc"

definition set_pc :: "nat \<Rightarrow> juice_pc \<Rightarrow> juice_sys \<Rightarrow> juice_sys" where
  "set_pc t pc s = s\<lparr>js_pcs := (js_pcs s)[t := pc]\<rparr>"

fun closing_pc :: "juice_pc \<Rightarrow> bool" where
  "closing_pc PClosing = True"
| "closing_pc (PDestroying p) = True"
| "closing_pc _ = False"

fun holding_pc :: "juice_pc \<Rightarrow> bool" where
  "holding_pc (PHolding p) = True"
| "holding_pc _ = False"

text \<open>\<open>self.closed.compare_exchange\<close>: the winner goes on to swap the pointer.\<close>

definition close_flag :: "nat \<Rightarrow> juice_sys \<Rightarrow> juice_sys" where
  "close_flag t s = (case cas_closed (js_inner s) of
     (won, i) \<Rightarrow> let s = s\<lparr>js_inner := i\<rparr> in if won then set_pc t PClosing s else s)"

text \<open>
  One atomic operation.  Methods borrow the agent, so they start only while it is owned, and
  it is dropped only when none is running; its memory is freed when the drop has returned.
  The library calls back as long as its agent is not destroyed, and destroys an agent only
  when its callbacks have returned.
\<close>

fun jstep :: "juice_act \<Rightarrow> juice_sys \<Rightarrow> juice_sys option" where
  "jstep (Load t) s =
     (if js_owned s \<and> at_pc s t PIdle then
        Some (case load_agent (js_inner s) of Ok p \<Rightarrow> set_pc t (PHolding p) s | _ \<Rightarrow> s)
      else None)"
| "jstep (CallLib t) s =
     (if t < length (js_pcs s) then
        (case js_pcs s ! t of
           PHolding p \<Rightarrow> Some (set_pc t PIdle
             (if p \<in> set (js_destroyed s) then s\<lparr>js_call_after_destroy := True\<rparr> else s))
         | _ \<Rightarrow> None)
      else None)"
| "jstep (CloseFlag t) s =
     (if js_owned s \<and> at_pc s t PIdle then Some (close_flag t s) else None)"
| "jstep (SwapPtr t) s =
     (if at_pc s t PClosing then
        (case swap_agent (js_inner s) of (p, i) \<Rightarrow>
           Some (set_pc t (if p \<noteq> 0 then PDestroying p else PIdle) (s\<lparr>js_inner := i\<rparr>)))
      else None)"
| "jstep (DestroyLib t) s =
     (if t < length (js_pcs s) \<and> PHandler \<notin> set (js_pcs s) then
        (case js_pcs s ! t of
           PDestroying p \<Rightarrow> Some (set_pc t PIdle
             (s\<lparr>js_destroyed := js_destroyed s @ [p],
                js_double_destroy := (js_double_destroy s \<or> p \<in> set (js_destroyed s))\<rparr>))
         | _ \<Rightarrow> None)
      else None)"
| "jstep (DropAgent t) s =
     (if js_owned s \<and> at_pc s t PIdle \<and> list_all (\<lambda>pc. \<not> holding_pc pc \<and> \<not> closing_pc pc) (js_pcs s)
      then Some (close_flag t (s\<lparr>js_owned := False\<rparr>)) else None)"
| "jstep FreeMemory s =
     (if \<not> js_owned s \<and> \<not> js_freed s \<and> list_all (\<lambda>pc. \<not> closing_pc pc) (js_pcs s)
      then Some (s\<lparr>js_freed := True,
        js_callback_after_free := (js_callback_after_free s \<or> PHandler \<in> set (js_pcs s))\<rparr>)
      else None)"
| "jstep (CallbackIn t) s =
     (if at_pc s t PIdle \<and> js_destroyed s = [] then
        Some (if js_freed s then s\<lparr>js_callback_after_free := True\<rparr>
              else if is_closed (js_inner s) then s
              else set_pc t PHandler s)
      else None)"
| "jstep (HandlerDone t) s =
     (if at_pc s t PHandler then
        Some (set_pc t PIdle (if js_freed s then s\<lparr>js_callback_after_free := True\<rparr> else s))
      else None)"

fun jrun :: "juice_act list \<Rightarrow> juice_sys \<Rightarrow> juice_sys option" where
  "jrun [] s = Some s"
| "jrun (a # as) s = (case jstep a s of Some s' \<Rightarrow> jrun as s' | None \<Rightarrow> None)"

text \<open>The agent as \<open>JuiceAgent::new\<close> leaves it, with \<open>n\<close> threads.\<close>

definition juice_start :: "ptr \<Rightarrow> nat \<Rightarrow> juice_sys" where
  "juice_start p n =
     \<lparr>js_inner = agent_inner_new\<lparr>ai_agent := p\<rparr>, js_pcs = replicate n PIdle, js_owned = True,
      js_freed = False, js_destroyed = [], js_call_after_destroy = False,
      js_double_destroy = False, js_callback_after_free = False\<rparr>"

text \<open>A call that has loaded the pointer while another thread is in \<open>close\<close>.\<close>

definition overlap :: "juice_sys \<Rightarrow> bool" where
  "overlap s \<longleftrightarrow> list_ex holding_pc (js_pcs s) \<and> list_ex closing_pc (js_pcs s)"

text \<open>No state on the way of a run overlaps.\<close>

fun no_overlap :: "juice_act list \<Rightarrow> juice_sys \<Rightarrow> bool" where
  "no_overlap [] s \<longleftrightarrow> \<not> overlap s"
| "no_overlap (a # as) s \<longleftrightarrow>
     \<not> overlap s \<and> (case jstep a s of Some s' \<Rightarrow> no_overlap as s' | None \<Rightarrow> True)"

end
