(* ===== verification/Juice_Props.thy ===== *)
theory Juice_Props
  imports Juice
begin

text \<open>
  What the wrapper of the ICE library keeps: the configuration arrives as it was written and
  its pointers stay owned, a closed agent answers without the library, the agent is destroyed
  exactly once whatever the threads do, and closing is safe except during another call.
\<close>

subsection \<open>Codes\<close>

lemma state_raw_roundtrip: "state_as_raw K (state_from_raw K raw) = raw"
  by (simp add: state_as_raw_def state_from_raw_def)

lemma to_result_ok: "to_result K code = Ok () \<longleftrightarrow> code = k_err_success K"
  by (simp add: to_result_def)

subsection \<open>The configuration\<close>

text \<open>A run of the builder only appends to the memory.\<close>

lemma read_cstr_append [simp]: "read_cstr h p = Some s \<Longrightarrow> read_cstr (h @ h') p = Some s"
  by (auto simp: read_cstr_def deref_def nth_append split: nat.splits if_splits option.splits c_alloc.splits)

definition has_nul :: "string \<Rightarrow> bool" where
  "has_nul s \<longleftrightarrow> 0 \<in> set (str_bytes s)"

lemma cstring_from_cases:
  "cstring_from s h = (if has_nul s then (Err JuiceInteriorNul, h)
     else (Ok (Suc (length h)), h @ [CStr (str_bytes s)]))"
  by (simp add: cstring_from_def has_nul_def c_alloc_new_def)

text \<open>A credential that counts: present and not empty.\<close>

definition credential :: "string option \<Rightarrow> string option" where
  "credential c = (case c of Some s \<Rightarrow> if s = [] then None else Some s | None \<Rightarrow> None)"

definition opt_nul :: "string option \<Rightarrow> bool" where
  "opt_nul c \<longleftrightarrow> (case credential c of Some s \<Rightarrow> has_nul s | None \<Rightarrow> False)"

text \<open>\<open>p\<close> is null for no text and the address of the text's C string else.\<close>

definition holds :: "heap \<Rightarrow> ptr \<Rightarrow> string option \<Rightarrow> bool" where
  "holds h p c \<longleftrightarrow> (case c of None \<Rightarrow> p = 0 | Some s \<Rightarrow> read_cstr h p = Some (str_bytes s))"

lemma read_null [simp]: "read_cstr h 0 = None"
  by (simp add: read_cstr_def deref_def)

lemma read_last [simp]: "read_cstr (h @ [CStr s]) (Suc (length h)) = Some s"
  by (simp add: read_cstr_def deref_def)

lemma holds_read: "holds h p c \<Longrightarrow> read_cstr h p = map_option str_bytes c"
  by (cases c) (auto simp: holds_def)

lemma holds_append: "holds h p c \<Longrightarrow> holds (h @ h') p c"
  by (cases c) (auto simp: holds_def)

lemma push_credential_cases:
  obtains "opt_nul c" "push_credential c ps h = (Err JuiceInteriorNul, h)"
  | p h' where "\<not> opt_nul c" "holds (h @ h') p (credential c)"
      "push_credential c ps h = (Ok (p, ps @ (if p = 0 then [] else [p])), h @ h')"
proof (cases "credential c")
  case None
  then have "push_credential c ps h = (Ok (0, ps @ []), h @ [])"
    by (auto simp: push_credential_def credential_def split: option.splits if_splits)
  with None show ?thesis
    using that(2) [of "[]" 0] by (auto simp: opt_nul_def holds_def)
next
  case (Some s)
  then have c: "c = Some s" "s \<noteq> []"
    by (auto simp: credential_def split: option.splits if_splits)
  show ?thesis
  proof (cases "has_nul s")
    case True
    with c Some show ?thesis
      using that(1) by (simp add: push_credential_def pbind_def cstring_from_cases opt_nul_def)
  next
    case False
    with c Some show ?thesis
      using that(2) [of "[CStr (str_bytes s)]" "Suc (length h)"]
      by (simp add: push_credential_def pbind_def cstring_from_cases opt_nul_def holds_def)
  qed
qed

definition server_nul :: "turn_server_config \<Rightarrow> bool" where
  "server_nul s \<longleftrightarrow> has_nul (ts_host s) \<or> opt_nul (ts_username s) \<or> opt_nul (ts_password s)"

text \<open>What the library should read of a server.\<close>

definition server_view ::
  "turn_server_config \<Rightarrow> bytes option \<times> u16 \<times> bytes option \<times> bytes option"
where
  "server_view s = (Some (str_bytes (ts_host s)), ts_port s,
     map_option str_bytes (credential (ts_username s)),
     map_option str_bytes (credential (ts_password s)))"

text \<open>The structure \<open>r\<close> describes \<open>s\<close>, and points to strings in \<open>ps\<close> only.\<close>

definition describes :: "heap \<Rightarrow> ptr list \<Rightarrow> raw_turn_server \<Rightarrow> turn_server_config \<Rightarrow> bool" where
  "describes h ps r s \<longleftrightarrow> rt_port r = ts_port s \<and> holds h (rt_host r) (Some (ts_host s)) \<and>
     holds h (rt_username r) (credential (ts_username s)) \<and>
     holds h (rt_password r) (credential (ts_password s)) \<and>
     {rt_host r, rt_username r, rt_password r} - {0} \<subseteq> set ps"

lemma describes_read: "describes h ps r s \<Longrightarrow> read_turn_server h r = server_view s"
  by (auto simp: describes_def read_turn_server_def server_view_def dest!: holds_read)

lemma describes_append: "describes h ps r s \<Longrightarrow> describes (h @ h') (ps @ ps') r s"
  unfolding describes_def by (intro conjI holds_append) (simp_all, blast)

lemma describes_all_append:
  "list_all2 (describes h ps) rs ss \<Longrightarrow> list_all2 (describes (h @ h') (ps @ ps')) rs ss"
  by (auto elim!: list_all2_mono intro: describes_append)

lemma push_server_cases:
  obtains h' where "server_nul s" "push_server s (rs, ps) h = (Err JuiceInteriorNul, h @ h')"
  | r ps' h' where "\<not> server_nul s" "describes (h @ h') (ps @ ps') r s"
      "push_server s (rs, ps) h = (Ok (rs @ [r], ps @ ps'), h @ h')"
proof (cases "has_nul (ts_host s)")
  case True
  then show ?thesis
    using that(1) [of "[]"] by (simp add: push_server_def server_nul_def pbind_def cstring_from_cases)
next
  case host: False
  let ?h = "h @ [CStr (str_bytes (ts_host s))]" and ?p = "Suc (length h)"
  have p: "holds ?h ?p (Some (ts_host s))" by (simp add: holds_def)
  show ?thesis
  proof (cases rule: push_credential_cases [of "ts_username s" "ps @ [?p]" ?h])
    case 1
    then show ?thesis
      using that(1) [of "[CStr (str_bytes (ts_host s))]"] host
      by (simp add: push_server_def server_nul_def pbind_def cstring_from_cases)
  next
    case user: (2 u hu)
    let ?ps = "(ps @ [?p]) @ (if u = 0 then [] else [u])"
    show ?thesis
    proof (cases rule: push_credential_cases [of "ts_password s" ?ps "?h @ hu"])
      case 1
      then show ?thesis
        using that(1) [of "CStr (str_bytes (ts_host s)) # hu"] host user
        by (simp add: push_server_def server_nul_def pbind_def cstring_from_cases)
    next
      case pw: (2 w hw)
      let ?r = "\<lparr>rt_host = ?p, rt_username = u, rt_password = w, rt_port = ts_port s\<rparr>"
      let ?hs = "CStr (str_bytes (ts_host s)) # hu @ hw"
      let ?new = "[?p] @ (if u = 0 then [] else [u]) @ (if w = 0 then [] else [w])"
      have "describes (h @ ?hs) (ps @ ?new) ?r s"
        using holds_append [OF holds_append [OF p, of hu], of hw]
          holds_append [OF user(2), of hw] pw(2)
        by (auto simp: describes_def)
      moreover have "push_server s (rs, ps) h = (Ok (rs @ [?r], ps @ ?new), h @ ?hs)"
        using host user pw by (simp add: push_server_def pbind_def cstring_from_cases)
      moreover have "\<not> server_nul s" using host user pw by (simp add: server_nul_def)
      ultimately show ?thesis using that(2) by blast
    qed
  qed
qed

lemma push_servers_cases:
  assumes "list_all2 (describes h ps) rs done"
  obtains h' where "list_ex server_nul servers"
      "push_servers servers (rs, ps) h = (Err JuiceInteriorNul, h @ h')"
  | rs' ps' h' where "\<not> list_ex server_nul servers"
      "list_all2 (describes (h @ h') (ps @ ps')) rs' (done @ servers)"
      "push_servers servers (rs, ps) h = (Ok (rs', ps @ ps'), h @ h')"
  using assms
proof (induction servers arbitrary: h ps rs "done" thesis)
  case Nil
  then show ?case using Nil(2) [of "[]" "[]" rs] by simp
next
  case (Cons s servers)
  show ?case
  proof (cases rule: push_server_cases [of s rs ps h])
    case (1 h')
    then show ?thesis using Cons.prems(1) [of h'] by (simp add: pbind_def)
  next
    case (2 r ps' h')
    have all: "list_all2 (describes (h @ h') (ps @ ps')) (rs @ [r]) (done @ [s])"
      using describes_all_append [OF Cons.prems(3)] 2(2)
      by (auto intro: list_all2_appendI)
    show ?thesis
    proof (rule Cons.IH [OF _ _ all])
      fix h''
      assume "list_ex server_nul servers"
        "push_servers servers (rs @ [r], ps @ ps') (h @ h') = (Err JuiceInteriorNul, (h @ h') @ h'')"
      then show ?thesis
        using 2 Cons.prems(1) [of "h' @ h''"] by (simp add: pbind_def)
    next
      fix h'' rs' ps''
      assume "\<not> list_ex server_nul servers"
        "list_all2 (describes ((h @ h') @ h'') ((ps @ ps') @ ps'')) rs' ((done @ [s]) @ servers)"
        "push_servers servers (rs @ [r], ps @ ps') (h @ h') = (Ok (rs', (ps @ ps') @ ps''), (h @ h') @ h'')"
      then show ?thesis
        using 2 Cons.prems(2) [of "h' @ h''" "ps' @ ps''" rs'] by (simp add: pbind_def)
    qed
  qed
qed

lemma describes_reads: "list_all2 (describes h ps) rs ss \<Longrightarrow> map (read_turn_server h) rs = map server_view ss"
  by (induction rule: list_all2_induct) (auto dest: describes_read)

lemma describes_owned:
  "list_all2 (describes h ps) rs ss \<Longrightarrow> r \<in> set rs \<Longrightarrow>
     {rt_host r, rt_username r, rt_password r} - {0} \<subseteq> set ps"
  by (induction rule: list_all2_induct) (auto simp: describes_def)

definition config_nul :: "ice_servers_config \<Rightarrow> bool" where
  "config_nul config \<longleftrightarrow> has_nul (is_stun_host config) \<or> list_ex server_nul (is_turn_servers config)"

text \<open>
  The pointers of \<open>oc\<close>'s raw configuration: each is null or owned by \<open>oc\<close>, the array of
  servers is the owned vector, and the library reads through them what \<open>config\<close> says.
\<close>

definition config_arrives :: "ice_servers_config \<Rightarrow> heap \<Rightarrow> owned_config \<Rightarrow> bool" where
  "config_arrives config h oc \<longleftrightarrow> (let raw = oc_raw oc in
     rc_stun_server_host raw = oc_stun_host oc \<and>
     read_cstr h (rc_stun_server_host raw) = Some (str_bytes (is_stun_host config)) \<and>
     rc_stun_server_port raw = is_stun_port config \<and>
     (rc_turn_servers raw = 0 \<and> oc_turn_servers oc = [] \<or>
      deref h (rc_turn_servers raw) = Some (Servers (oc_turn_servers oc))) \<and>
     (\<forall>r \<in> set (oc_turn_servers oc).
        {rt_host r, rt_username r, rt_password r} - {0} \<subseteq> set (oc_turn_strings oc)) \<and>
     read_turn_servers h raw = map server_view (is_turn_servers config))"

lemma read_turn_servers_callbacks [simp]:
  "read_turn_servers h (raw\<lparr>rc_callbacks := b, rc_user_ptr := u\<rparr>) = read_turn_servers h raw"
  by (simp add: read_turn_servers_def split: option.split c_alloc.split)

lemma deref_at [simp]: "deref (h @ x # h') (Suc (length h)) = Some x"
  by (simp add: deref_def)

lemma deref_at_later [simp]:
  "deref (h @ x # h' @ y # h'') (Suc (Suc (length h + length h'))) = Some y"
  using deref_at [of "h @ x # h'" y h''] by simp

lemma read_cstr_at [simp]: "read_cstr (h @ CStr s # h') (Suc (length h)) = Some s"
  by (simp add: read_cstr_def)

lemma sint_of_nat_small: "n < 2 ^ 31 \<Longrightarrow> sint (of_nat n :: i32) = int n"
  by (simp add: signed_of_nat signed_take_bit_int_eq_self)

lemma sint_count: "n < 2 ^ 31 \<Longrightarrow> nat (sint (of_nat n :: i32)) = n"
  by (simp add: sint_of_nat_small)

lemma owned_config_cases:
  assumes "length (is_turn_servers config) < 2 ^ 31"
  obtains h' where "config_nul config" "owned_config_new config h = (Err JuiceInteriorNul, h')"
  | oc h' where "\<not> config_nul config" "owned_config_new config h = (Ok oc, h')"
      "config_arrives config h' oc"
proof (cases "has_nul (is_stun_host config)")
  case True
  then show ?thesis
    using that(1) by (simp add: owned_config_new_def Let_def config_nul_def pbind_def cstring_from_cases)
next
  case host: False
  let ?h = "h @ [CStr (str_bytes (is_stun_host config))]"
  have start: "list_all2 (describes ?h []) [] []" by simp
  show ?thesis
  proof (cases rule: push_servers_cases [OF start, of "is_turn_servers config"])
    case (1 h')
    with host show ?thesis
      using that(1) by (simp add: owned_config_new_def Let_def config_nul_def pbind_def cstring_from_cases)
  next
    case (2 rs ps h')
    have len: "length rs = length (is_turn_servers config)"
      using 2(2) by (simp add: list_all2_lengthD)
    show ?thesis
    proof (cases "rs = []")
      case True
      with 2 host len show ?thesis
        using that(2)
        by (auto simp: owned_config_new_def Let_def config_nul_def pbind_def cstring_from_cases
            config_arrives_def read_turn_servers_def deref_def Let_def)
    next
      case False
      have "list_all2 (describes ((?h @ h') @ [Servers rs]) (ps @ [])) rs (is_turn_servers config)"
        using describes_all_append [OF 2(2), of "[Servers rs]" "[]"] by simp
      note d = describes_reads [OF this] describes_owned [OF this]
      have "nat (sint (of_nat (length rs) :: i32)) = length rs"
        using assms len by (simp add: sint_count)
      with 2 host d False show ?thesis
        using that(2)
        by (simp add: owned_config_new_def Let_def config_nul_def pbind_def cstring_from_cases c_alloc_new_def
            config_arrives_def read_turn_servers_def)
    qed
  qed
qed

text \<open>
  C26: the ICE library gets the configuration that was asked for.  A new agent is refused
  with \<open>InteriorNul\<close>, before the library is called, exactly when the STUN host, a TURN host
  or a credential in use holds a zero byte.  Otherwise the library is called once, with the
  callbacks set: what it reads through the pointers is the configuration, empty credentials
  as absent ones, and every pointer is null or owned by the agent's configuration, so that it
  stays valid as long as the agent.  The agent holds the library's pointer, or creation
  fails when that is null.
\<close>

theorem configuration_reaches_the_library:
  assumes "length (is_turn_servers config) < 2 ^ 31"
  shows "if config_nul config
    then \<exists>h'. agent_new L inner_ptr config (h, w) = (Err JuiceInteriorNul, h', w)
    else \<exists>oc h' p w'. config_arrives config h' oc \<and> rc_callbacks (oc_raw oc) \<and>
      rc_user_ptr (oc_raw oc) = inner_ptr \<and> jl_create L h' (oc_raw oc) w = (p, w') \<and>
      agent_new L inner_ptr config (h, w) =
        (if p = 0 then Err JuiceCreationFailed else Ok (\<lparr>ai_agent = p, ai_closed = False\<rparr>, oc), h', w')"
proof (cases rule: owned_config_cases [OF assms, of h])
  case (1 h')
  then show ?thesis by (simp add: agent_new_def)
next
  case (2 oc h')
  let ?oc = "configure_callbacks inner_ptr oc"
  have "config_arrives config h' ?oc"
    using 2(3) by (auto simp: config_arrives_def configure_callbacks_def Let_def)
  moreover obtain p w' where "jl_create L h' (oc_raw ?oc) w = (p, w')" by fastforce
  moreover have "rc_callbacks (oc_raw ?oc)" "rc_user_ptr (oc_raw ?oc) = inner_ptr"
    by (simp_all add: configure_callbacks_def)
  ultimately have "config_arrives config h' ?oc \<and> rc_callbacks (oc_raw ?oc) \<and>
      rc_user_ptr (oc_raw ?oc) = inner_ptr \<and> jl_create L h' (oc_raw ?oc) w = (p, w') \<and>
      agent_new L inner_ptr config (h, w) =
        (if p = 0 then Err JuiceCreationFailed else Ok (\<lparr>ai_agent = p, ai_closed = False\<rparr>, ?oc), h', w')"
    using 2(2) by (simp add: agent_new_def agent_inner_new_def Let_def)
  with 2(1) show ?thesis by (simp only: if_False) blast
qed

subsection \<open>A closed agent\<close>

lemma agent_ptr_closed: "ai_agent i = 0 \<Longrightarrow> agent_ptr (i, w) = (Err JuiceClosed, (i, w))"
  by (simp add: agent_ptr_def load_agent_def)

lemma close_clears: "ai_closed i \<longrightarrow> ai_agent i = 0 \<Longrightarrow> ai_agent (fst (agent_close L (i, w))) = 0"
  by (auto simp: agent_close_def cas_closed_def swap_agent_def)

lemma close_twice: "agent_close L (agent_close L (i, w)) = agent_close L (i, w)"
  by (simp add: agent_close_def cas_closed_def swap_agent_def)

text \<open>After \<open>close\<close> no method reaches the library, and nothing it calls back is handled.\<close>

lemma closed_agent_is_quiet:
  assumes "ai_agent i = 0"
  shows "gather_candidates K L (i, w) = (Err JuiceClosed, (i, w))"
    and "get_local_description K L (i, w) = (Err JuiceClosed, (i, w))"
    and "set_remote_description K L sdp (i, w) = (Err JuiceClosed, (i, w))"
    and "add_remote_candidate K L sdp (i, w) = (Err JuiceClosed, (i, w))"
    and "set_remote_gathering_done K L (i, w) = (Err JuiceClosed, (i, w))"
    and "agent_send K L data (i, w) = (Err JuiceClosed, (i, w))"
    and "get_state K L (i, w) = (Ok JDisconnected, (i, w))"
    and "get_selected_candidates K L (i, w) = (Err JuiceClosed, (i, w))"
    and "get_selected_addresses K L (i, w) = (Err JuiceClosed, (i, w))"
  using assms
  by (simp_all add: gather_candidates_def get_local_description_def set_remote_description_def
      add_remote_candidate_def set_remote_gathering_done_def agent_send_def get_state_def
      get_selected_candidates_def get_selected_addresses_def pbind_def pcatch_def
      agent_ptr_closed Let_def)

lemma closed_agent_ignores_callbacks: "ai_closed i \<Longrightarrow> on_callback K (Some i) cb = None"
  by (auto simp: on_callback_def with_inner_def is_closed_def split: juice_callback.split option.split)

subsection \<open>Counting threads\<close>

definition count :: "('a \<Rightarrow> bool) \<Rightarrow> 'a list \<Rightarrow> nat" where
  "count P xs = length (filter P xs)"

lemma count_update:
  "t < length xs \<Longrightarrow>
     count P (xs[t := x]) + (if P (xs ! t) then 1 else 0) = count P xs + (if P x then 1 else 0)"
proof (induction xs arbitrary: t)
  case (Cons y ys)
  then show ?case by (cases t) (fastforce simp: count_def)+
qed simp

lemma count_zero: "count P xs = 0 \<longleftrightarrow> list_all (\<lambda>x. \<not> P x) xs"
  by (induction xs) (auto simp: count_def)

lemma count_pos: "t < length xs \<Longrightarrow> P (xs ! t) \<Longrightarrow> 0 < count P xs"
  by (auto simp: count_def filter_empty_conv intro: nth_mem)

fun destroying_pc :: "juice_pc \<Rightarrow> bool" where
  "destroying_pc (PDestroying p) = True"
| "destroying_pc _ = False"

text \<open>
  The three counts that matter: threads that won the flag and have not swapped yet, threads
  about to destroy, and threads in a handler.
\<close>

abbreviation n_swap :: "juice_pc list \<Rightarrow> nat" where "n_swap \<equiv> count (\<lambda>pc. pc = PClosing)"
abbreviation n_destroy :: "juice_pc list \<Rightarrow> nat" where "n_destroy \<equiv> count destroying_pc"
abbreviation n_handler :: "juice_pc list \<Rightarrow> nat" where "n_handler \<equiv> count (\<lambda>pc. pc = PHandler)"
abbreviation n_hold :: "juice_pc list \<Rightarrow> nat" where "n_hold \<equiv> count holding_pc"

lemma closing_count: "list_all (\<lambda>pc. \<not> closing_pc pc) pcs \<longleftrightarrow> n_swap pcs = 0 \<and> n_destroy pcs = 0"
proof -
  have "closing_pc pc \<longleftrightarrow> pc = PClosing \<or> destroying_pc pc" for pc by (cases pc) auto
  then show ?thesis by (auto simp: count_zero list_all_iff)
qed

lemma handler_count: "PHandler \<in> set pcs \<longleftrightarrow> n_handler pcs \<noteq> 0"
  by (auto simp: count_zero list_all_iff)

lemma overlap_count: "overlap s \<longleftrightarrow>
    n_hold (js_pcs s) \<noteq> 0 \<and> (n_swap (js_pcs s) \<noteq> 0 \<or> n_destroy (js_pcs s) \<noteq> 0)"
  using closing_count [of "js_pcs s"]
  by (auto simp: overlap_def count_zero list_all_iff list_ex_iff)

subsection \<open>The stages of closing\<close>

text \<open>
  An agent is open; or one thread has won the flag; or one thread has taken the pointer; or
  the library's agent is destroyed.
\<close>

definition stage :: "ptr \<Rightarrow> agent_inner \<Rightarrow> nat \<Rightarrow> nat \<Rightarrow> ptr list \<Rightarrow> bool" where
  "stage p i swapping destroying destroyed \<longleftrightarrow>
     \<not> ai_closed i \<and> ai_agent i = p \<and> swapping = 0 \<and> destroying = 0 \<and> destroyed = [] \<or>
     ai_closed i \<and> ai_agent i = p \<and> swapping = 1 \<and> destroying = 0 \<and> destroyed = [] \<or>
     ai_closed i \<and> ai_agent i = 0 \<and> swapping = 0 \<and> destroying = 1 \<and> destroyed = [] \<or>
     ai_closed i \<and> ai_agent i = 0 \<and> swapping = 0 \<and> destroying = 0 \<and> destroyed = [p]"

definition points_to :: "ptr \<Rightarrow> juice_pc list \<Rightarrow> bool" where
  "points_to p pcs \<longleftrightarrow> (\<forall>pc \<in> set pcs. \<forall>q. pc = PDestroying q \<or> pc = PHolding q \<longrightarrow> q = p)"

definition juice_inv :: "ptr \<Rightarrow> juice_sys \<Rightarrow> bool" where
  "juice_inv p s \<longleftrightarrow> p \<noteq> 0 \<and>
     stage p (js_inner s) (n_swap (js_pcs s)) (n_destroy (js_pcs s)) (js_destroyed s) \<and>
     points_to p (js_pcs s) \<and>
     (js_destroyed s \<noteq> [] \<longrightarrow> n_handler (js_pcs s) = 0) \<and>
     (\<not> js_owned s \<longrightarrow> ai_closed (js_inner s)) \<and>
     (js_freed s \<longrightarrow> js_destroyed s = [p] \<and> \<not> js_owned s) \<and>
     \<not> js_double_destroy s \<and> \<not> js_callback_after_free s"

lemma juice_inv_start: "p \<noteq> 0 \<Longrightarrow> juice_inv p (juice_start p n)"
  by (auto simp: juice_inv_def stage_def juice_start_def agent_inner_new_def count_zero
      list_all_iff points_to_def)

lemma points_to_update:
  "points_to p pcs \<Longrightarrow> \<forall>q. pc = PDestroying q \<or> pc = PHolding q \<longrightarrow> q = p \<Longrightarrow> points_to p (pcs[t := pc])"
  unfolding points_to_def using set_update_subset_insert [of pcs t pc] by blast

lemma points_to_nth:
  "points_to p pcs \<Longrightarrow> t < length pcs \<Longrightarrow> pcs ! t = PDestroying q \<or> pcs ! t = PHolding q \<Longrightarrow> q = p"
  unfolding points_to_def by (meson nth_mem)

text \<open>How the counts move when a thread does.\<close>

lemma set_pc_counts:
  assumes "t < length pcs"
  shows "n_swap (pcs[t := pc]) =
      n_swap pcs + (if pc = PClosing then 1 else 0) - (if pcs ! t = PClosing then 1 else 0)"
    and "n_destroy (pcs[t := pc]) =
      n_destroy pcs + (if destroying_pc pc then 1 else 0) - (if destroying_pc (pcs ! t) then 1 else 0)"
    and "n_handler (pcs[t := pc]) =
      n_handler pcs + (if pc = PHandler then 1 else 0) - (if pcs ! t = PHandler then 1 else 0)"
    and "n_hold (pcs[t := pc]) =
      n_hold pcs + (if holding_pc pc then 1 else 0) - (if holding_pc (pcs ! t) then 1 else 0)"
  using count_update [OF assms, of "\<lambda>pc. pc = PClosing" pc]
    count_update [OF assms, of destroying_pc pc]
    count_update [OF assms, of "\<lambda>pc. pc = PHandler" pc]
    count_update [OF assms, of holding_pc pc]
  by auto

text \<open>A thread at a place is counted there.\<close>

lemma pc_counted:
  assumes "t < length pcs"
  shows "pcs ! t = PClosing \<Longrightarrow> 0 < n_swap pcs"
    and "pcs ! t = PDestroying q \<Longrightarrow> 0 < n_destroy pcs"
    and "pcs ! t = PHandler \<Longrightarrow> 0 < n_handler pcs"
  using assms by (auto intro: count_pos)

subsection \<open>Every step keeps the stages\<close>

lemma inv_Load:
  assumes inv: "juice_inv p s" and step: "jstep (Load t) s = Some s'"
  shows "juice_inv p s'"
proof (cases "ai_agent (js_inner s) = 0")
  case True
  with assms show ?thesis by (auto simp: load_agent_def split: if_splits)
next
  case False
  with inv have p: "ai_agent (js_inner s) = p"
    by (auto simp: juice_inv_def stage_def)
  from False step p have t: "t < length (js_pcs s)" "js_pcs s ! t = PIdle"
    and s': "s' = set_pc t (PHolding p) s"
    by (auto simp: load_agent_def at_pc_def split: if_splits)
  show ?thesis
    using inv t by (simp add: juice_inv_def s' set_pc_def set_pc_counts points_to_update)
qed

lemma inv_CallLib:
  assumes inv: "juice_inv p s" and step: "jstep (CallLib t) s = Some s'"
  shows "juice_inv p s'"
proof -
  from step obtain q where t: "t < length (js_pcs s)" "js_pcs s ! t = PHolding q"
    and s': "s' = set_pc t PIdle
      (if q \<in> set (js_destroyed s) then s\<lparr>js_call_after_destroy := True\<rparr> else s)"
    by (auto split: if_splits juice_pc.splits)
  show ?thesis
    using inv t by (simp add: juice_inv_def s' set_pc_def set_pc_counts points_to_update)
qed

lemma inv_close_flag:
  assumes inv: "juice_inv p s" and t: "t < length (js_pcs s)" "js_pcs s ! t = PIdle"
  shows "juice_inv p (close_flag t s)"
  using inv t
  by (auto simp: juice_inv_def close_flag_def cas_closed_def set_pc_def set_pc_counts
      points_to_update stage_def)

lemma inv_CloseFlag:
  "juice_inv p s \<Longrightarrow> jstep (CloseFlag t) s = Some s' \<Longrightarrow> juice_inv p s'"
  by (auto simp: at_pc_def split: if_splits intro: inv_close_flag)

lemma inv_SwapPtr:
  assumes inv: "juice_inv p s" and step: "jstep (SwapPtr t) s = Some s'"
  shows "juice_inv p s'"
proof -
  from step have t: "t < length (js_pcs s)" "js_pcs s ! t = PClosing"
    by (auto simp: at_pc_def split: if_splits)
  have stage: "ai_closed (js_inner s)" "ai_agent (js_inner s) = p" "n_swap (js_pcs s) = 1"
      "n_destroy (js_pcs s) = 0" "js_destroyed s = []" "p \<noteq> 0"
    using inv pc_counted(1) [OF t] by (auto simp: juice_inv_def stage_def)
  have s': "s' = set_pc t (PDestroying p) (s\<lparr>js_inner := (js_inner s)\<lparr>ai_agent := 0\<rparr>\<rparr>)"
    using step t stage by (simp add: at_pc_def swap_agent_def)
  show ?thesis
    using inv t stage
    by (simp add: juice_inv_def s' set_pc_def set_pc_counts points_to_update stage_def)
qed

lemma inv_DestroyLib:
  assumes inv: "juice_inv p s" and step: "jstep (DestroyLib t) s = Some s'"
  shows "juice_inv p s'"
proof -
  from step obtain q where t: "t < length (js_pcs s)" "js_pcs s ! t = PDestroying q"
    and quiet: "n_handler (js_pcs s) = 0"
    and s': "s' = set_pc t PIdle (s\<lparr>js_destroyed := js_destroyed s @ [q],
      js_double_destroy := (js_double_destroy s \<or> q \<in> set (js_destroyed s))\<rparr>)"
    by (auto simp: handler_count split: if_splits juice_pc.splits)
  have q: "q = p"
    using inv t points_to_nth by (auto simp: juice_inv_def)
  have stage: "ai_closed (js_inner s)" "ai_agent (js_inner s) = 0" "n_swap (js_pcs s) = 0"
      "n_destroy (js_pcs s) = 1" "js_destroyed s = []" "\<not> js_freed s"
    using inv pc_counted(2) [OF t] by (auto simp: juice_inv_def stage_def)
  show ?thesis
    using inv t stage quiet
    by (simp add: juice_inv_def s' q set_pc_def set_pc_counts points_to_update stage_def)
qed

lemma inv_DropAgent:
  assumes inv: "juice_inv p s" and step: "jstep (DropAgent t) s = Some s'"
  shows "juice_inv p s'"
proof -
  let ?s = "s\<lparr>js_owned := False\<rparr>"
  from step have t: "t < length (js_pcs s)" "js_pcs s ! t = PIdle" and own: "js_owned s"
    and s': "s' = close_flag t ?s"
    by (auto simp: at_pc_def split: if_splits)
  from inv own t show ?thesis
    by (auto simp: juice_inv_def s' close_flag_def cas_closed_def set_pc_def set_pc_counts
        points_to_update stage_def)
qed

lemma inv_FreeMemory:
  assumes inv: "juice_inv p s" and step: "jstep FreeMemory s = Some s'"
  shows "juice_inv p s'"
proof -
  from step have idle: "\<not> js_owned s" "n_swap (js_pcs s) = 0" "n_destroy (js_pcs s) = 0"
    and s': "s' = s\<lparr>js_freed := True,
      js_callback_after_free := (js_callback_after_free s \<or> PHandler \<in> set (js_pcs s))\<rparr>"
    by (auto simp: closing_count split: if_splits)
  from inv idle have "js_destroyed s = [p]"
    by (auto simp: juice_inv_def stage_def)
  with inv idle show ?thesis
    by (simp add: juice_inv_def s' handler_count)
qed

lemma inv_CallbackIn:
  assumes inv: "juice_inv p s" and step: "jstep (CallbackIn t) s = Some s'"
  shows "juice_inv p s'"
proof -
  from step have t: "t < length (js_pcs s)" "js_pcs s ! t = PIdle" "js_destroyed s = []"
    by (auto simp: at_pc_def split: if_splits)
  with inv have "\<not> js_freed s" by (auto simp: juice_inv_def)
  with step t have "s' = s \<or> s' = set_pc t PHandler s"
    by (auto split: if_splits)
  with inv t show ?thesis
    by (auto simp: juice_inv_def set_pc_def set_pc_counts points_to_update)
qed

lemma inv_HandlerDone:
  assumes inv: "juice_inv p s" and step: "jstep (HandlerDone t) s = Some s'"
  shows "juice_inv p s'"
proof -
  from step have t: "t < length (js_pcs s)" "js_pcs s ! t = PHandler"
    by (auto simp: at_pc_def split: if_splits)
  have "js_destroyed s = []" "\<not> js_freed s"
    using inv pc_counted(3) [OF t] by (auto simp: juice_inv_def)
  with step t have "s' = set_pc t PIdle s"
    by (auto simp: at_pc_def)
  with inv t show ?thesis
    by (simp add: juice_inv_def set_pc_def set_pc_counts points_to_update)
qed

lemma juice_inv_step: "juice_inv p s \<Longrightarrow> jstep a s = Some s' \<Longrightarrow> juice_inv p s'"
  by (cases a) (blast intro: inv_Load inv_CallLib inv_CloseFlag inv_SwapPtr inv_DestroyLib
      inv_DropAgent inv_FreeMemory inv_CallbackIn inv_HandlerDone)+

lemma juice_inv_run: "juice_inv p s \<Longrightarrow> jrun as s = Some s' \<Longrightarrow> juice_inv p s'"
  by (induction as arbitrary: s) (auto split: option.splits dest: juice_inv_step)

text \<open>
  Without an overlap nobody holds the pointer once the agent is destroyed, and then nobody
  gets it any more.
\<close>

definition calm_inv :: "juice_sys \<Rightarrow> bool" where
  "calm_inv s \<longleftrightarrow> \<not> js_call_after_destroy s \<and> (js_destroyed s \<noteq> [] \<longrightarrow> n_hold (js_pcs s) = 0)"

lemma calm_step:
  assumes inv: "juice_inv p s" and no_overlap: "calm_inv s" and quiet: "\<not> overlap s"
    and step: "jstep a s = Some s'"
  shows "calm_inv s'"
proof (cases a)
  case (Load t)
  have "ai_agent (js_inner s) = 0" if "js_destroyed s \<noteq> []"
    using inv that by (auto simp: juice_inv_def stage_def)
  with Load step no_overlap show ?thesis
    by (auto simp: calm_inv_def load_agent_def at_pc_def set_pc_def split: if_splits)
next
  case (CallLib t)
  then obtain q where t: "t < length (js_pcs s)" "js_pcs s ! t = PHolding q"
    and s': "s' = set_pc t PIdle
      (if q \<in> set (js_destroyed s) then s\<lparr>js_call_after_destroy := True\<rparr> else s)"
    using step by (auto split: if_splits juice_pc.splits)
  have "0 < n_hold (js_pcs s)" using t by (auto intro: count_pos)
  with no_overlap have "js_destroyed s = []" by (auto simp: calm_inv_def)
  with no_overlap t show ?thesis by (simp add: calm_inv_def s' set_pc_def)
next
  case (CloseFlag t)
  with step no_overlap show ?thesis
    by (auto simp: calm_inv_def close_flag_def cas_closed_def set_pc_def set_pc_counts at_pc_def
        split: if_splits)
next
  case (SwapPtr t)
  with step no_overlap show ?thesis
    by (auto simp: calm_inv_def swap_agent_def set_pc_def set_pc_counts at_pc_def split: if_splits)
next
  case (DestroyLib t)
  then obtain q where t: "t < length (js_pcs s)" "js_pcs s ! t = PDestroying q"
    and s': "s' = set_pc t PIdle (s\<lparr>js_destroyed := js_destroyed s @ [q],
      js_double_destroy := (js_double_destroy s \<or> q \<in> set (js_destroyed s))\<rparr>)"
    using step by (auto split: if_splits juice_pc.splits)
  have "n_hold (js_pcs s) = 0"
    using quiet pc_counted(2) [OF t] by (auto simp: overlap_count)
  with no_overlap t show ?thesis by (simp add: calm_inv_def s' set_pc_def set_pc_counts)
next
  case (DropAgent t)
  with step no_overlap show ?thesis
    by (auto simp: calm_inv_def close_flag_def cas_closed_def set_pc_def set_pc_counts at_pc_def
        split: if_splits)
next
  case FreeMemory
  with step no_overlap show ?thesis by (auto simp: calm_inv_def split: if_splits)
next
  case (CallbackIn t)
  with step no_overlap show ?thesis
    by (auto simp: calm_inv_def set_pc_def set_pc_counts at_pc_def split: if_splits)
next
  case (HandlerDone t)
  with step no_overlap show ?thesis
    by (auto simp: calm_inv_def set_pc_def set_pc_counts at_pc_def split: if_splits)
qed

lemma calm_run:
  "juice_inv p s \<Longrightarrow> calm_inv s \<Longrightarrow> no_overlap as s \<Longrightarrow> jrun as s = Some s' \<Longrightarrow> calm_inv s'"
proof (induction as arbitrary: s)
  case (Cons a as)
  then obtain u where u: "jstep a s = Some u" "jrun as u = Some s'"
    by (auto split: option.splits)
  with Cons.prems have "juice_inv p u" "calm_inv u" "no_overlap as u"
    using juice_inv_step calm_step by auto
  with Cons.IH u(2) show ?case by blast
qed simp

subsection \<open>Witnesses\<close>

definition demo_servers :: "ice_servers_config" where
  "demo_servers = \<lparr>is_stun_host = ''s'', is_stun_port = 1, is_turn_servers =
     [\<lparr>ts_host = ''t'', ts_port = 2, ts_username = Some ''u'', ts_password = Some []\<rparr>]\<rparr>"

definition demo_lib :: "nat juice_lib" where
  "demo_lib = \<lparr>jl_create = (\<lambda>h raw n. (7, Suc n)), jl_destroy = (\<lambda>p n. n),
     jl_gather_candidates = (\<lambda>p n. (0, n)), jl_get_local_description = (\<lambda>p len n. ((0, []), n)),
     jl_set_remote_description = (\<lambda>p d n. (0, n)), jl_add_remote_candidate = (\<lambda>p d n. (0, n)),
     jl_set_remote_gathering_done = (\<lambda>p n. (0, n)), jl_send = (\<lambda>p d len n. (0, n)),
     jl_get_state = (\<lambda>p n. (0, n)),
     jl_get_selected_candidates = (\<lambda>p a b n. ((0, [], []), n)),
     jl_get_selected_addresses = (\<lambda>p a b n. ((0, [], []), n))\<rparr>"

theorem configuration_reaches_the_library_witness:
  "\<exists>oc h'. config_arrives demo_servers h' oc \<and>
     agent_new demo_lib 9 demo_servers ([], 0) =
       (Ok (\<lparr>ai_agent = 7, ai_closed = False\<rparr>, oc), h', 1)"
proof -
  have "length (is_turn_servers demo_servers) < 2 ^ 31" by (simp add: demo_servers_def)
  moreover have "\<not> config_nul demo_servers" by code_simp
  ultimately show ?thesis
    using configuration_reaches_the_library [of demo_servers demo_lib 9 "[]" 0]
    by (auto simp: demo_lib_def)
qed

subsection \<open>Every run\<close>

text \<open>Thread 0 loads the pointer for a call, thread 1 closes, and thread 0 calls.\<close>

definition call_during_close :: "juice_act list" where
  "call_during_close = [Load 0, CloseFlag 1, SwapPtr 1, DestroyLib 1, CallLib 0]"

text \<open>
  C25: the library's agent is destroyed exactly once and its memory outlives the callbacks,
  whatever calls, closes, callbacks and the drop do between them, in any number of threads.
  In every run the agent is destroyed at most once and no callback finds freed memory; when
  the memory is freed the agent has been destroyed.  No call uses a destroyed agent in a run
  in which nobody closes while a call holds the pointer; but the methods do not prevent that:
  a call that has loaded the pointer uses the agent after another thread's \<open>close\<close> has
  destroyed it.
\<close>

theorem agent_is_destroyed_once:
  assumes "p \<noteq> 0" and "jrun acts (juice_start p n) = Some s"
  shows "\<not> js_double_destroy s \<and> \<not> js_callback_after_free s \<and>
    (js_destroyed s = [] \<or> js_destroyed s = [p]) \<and> (js_freed s \<longrightarrow> js_destroyed s = [p]) \<and>
    (no_overlap acts (juice_start p n) \<longrightarrow> \<not> js_call_after_destroy s) \<and>
    (\<exists>s'. jrun call_during_close (juice_start p 2) = Some s' \<and> js_call_after_destroy s')"
proof -
  have inv: "juice_inv p s"
    using juice_inv_run [OF juice_inv_start [OF assms(1)] assms(2)] .
  have "calm_inv (juice_start p n)"
    by (simp add: calm_inv_def juice_start_def)
  then have "no_overlap acts (juice_start p n) \<Longrightarrow> \<not> js_call_after_destroy s"
    using calm_run [OF juice_inv_start [OF assms(1)] _ _ assms(2)] by (simp add: calm_inv_def)
  moreover have "\<exists>s'. jrun call_during_close (juice_start p 2) = Some s' \<and> js_call_after_destroy s'"
    using assms(1)
    by (simp add: call_during_close_def juice_start_def agent_inner_new_def at_pc_def set_pc_def
        load_agent_def close_flag_def cas_closed_def swap_agent_def numeral_2_eq_2)
  ultimately show ?thesis
    using inv by (auto simp: juice_inv_def stage_def)
qed

definition demo_run :: "juice_act list" where
  "demo_run = [CallbackIn 1, Load 0, CallLib 0, CloseFlag 0, SwapPtr 0, HandlerDone 1, DestroyLib 0,
     DropAgent 0, FreeMemory]"

lemma demo_run_ends:
  "case jrun demo_run (juice_start 7 2) of Some s \<Rightarrow> js_freed s \<and> no_overlap demo_run (juice_start 7 2) | None \<Rightarrow> False"
  by code_simp

theorem agent_is_destroyed_once_witness:
  "case jrun demo_run (juice_start 7 2) of
     Some s \<Rightarrow> js_destroyed s = [7] \<and> \<not> js_call_after_destroy s | None \<Rightarrow> False"
  using demo_run_ends agent_is_destroyed_once [of 7 demo_run 2]
  by (auto split: option.splits)

end
