(* ===== verification/Wcadm.thy ===== *)
theory Wcadm
  imports Rust_Text
begin

text \<open>
  The administration tool, \<open>wcadm/src/main.rs\<close>: the API key and the base URL, the seven
  commands, each a request to the service and a report of its answer, and the errors that
  \<open>main\<close> prints.  The service with the HTTP client in front of it and the JSON parsers are
  the parameter \<open>S\<close>; \<open>clap\<close>'s parsing of the command line is left out, its result is the
  record \<open>cli\<close>.
\<close>

subsection \<open>The command line\<close>

datatype adm_command =
    ListGroups
  | ShowGroup string
  | AddGroup "string option"
  | RemoveGroup string
  | ResetGroup string
  | RemoveNode string i32
  | CreateRegistrationToken string "string option"

record adm_cli =
  cli_api_key :: string
  cli_url :: "string option"
  cli_command :: adm_command

subsection \<open>Requests and responses\<close>

datatype http_method = HttpGet | HttpPost | HttpDelete

text \<open>A JSON body is the object's fields, all of them strings.\<close>

record adm_request =
  rq_method :: http_method
  rq_url :: string
  rq_bearer :: string
  rq_json :: "(string \<times> string) list option"

text \<open>
  Reading a response's body can fail, as text (decoded) or as the bytes that are parsed.
\<close>

record adm_response =
  rs_status :: nat
  rs_text :: "string + string"
  rs_body :: "string + bytes"

record group_summary =
  gs_id :: string
  gs_name :: "string option"

record groups_stats =
  gst_count :: i32
  gst_max :: "i32 option"

record adm_stats =
  stats_connectivity_groups :: groups_stats

record node_quota =
  nq_limit :: "i32 option"
  nq_current :: i32

record node_response =
  nr_node_number :: i32
  nr_name :: "string option"
  nr_last_seen_at :: "string option"
  nr_created_at :: string

record group_response =
  gr_id :: string
  gr_name :: "string option"
  gr_created_at :: string
  gr_nodes :: "node_response list"
  gr_node_quota :: "node_quota option"

record token_response =
  tr_token :: string
  tr_expires_at :: string

record quota_body =
  qb_error :: string
  qb_quota :: string
  qb_limit :: i32
  qb_current :: i32

record 'w adm_service =
  as_send :: "adm_request \<Rightarrow> 'w \<Rightarrow> (string + adm_response) \<times> 'w"
  \<comment> \<open>a status as it prints, such as 404 Not Found\<close>
  as_status_text :: "nat \<Rightarrow> string"
  as_groups :: "bytes \<Rightarrow> string + group_summary list"
  as_stats :: "bytes \<Rightarrow> string + adm_stats"
  as_group :: "bytes \<Rightarrow> string + group_response"
  as_token :: "bytes \<Rightarrow> string + token_response"
  as_quota :: "string \<Rightarrow> string + quota_body"

subsection \<open>Errors\<close>

record quota_exceeded =
  qe_quota :: string
  qe_limit :: i32
  qe_current :: i32

datatype adm_error =
    AdmMsg string
  | AdmQuota quota_exceeded
  | AdmContext string adm_error

definition quota_exceeded_text :: "quota_exceeded \<Rightarrow> string" where
  "quota_exceeded_text q =
     qe_quota q @ '' quota exceeded ('' @ i32_to_string (qe_current q) @ '' of '' @
     i32_to_string (qe_limit q) @ '' used)''"

text \<open>\<open>{e:#}\<close>: the contexts, outermost first, then the cause.\<close>

fun adm_error_text :: "adm_error \<Rightarrow> string" where
  "adm_error_text (AdmMsg s) = s"
| "adm_error_text (AdmQuota q) = quota_exceeded_text q"
| "adm_error_text (AdmContext c e) = c @ '': '' @ adm_error_text e"

fun of_sum :: "('e \<Rightarrow> 'f) \<Rightarrow> 'e + 'a \<Rightarrow> ('a, 'f) result" where
  "of_sum f (Inl e) = Err (f e)"
| "of_sum f (Inr x) = Ok x"

definition is_success :: "nat \<Rightarrow> bool" where
  "is_success status \<longleftrightarrow> 200 \<le> status \<and> status < 300"

definition classify_error :: "'w adm_service \<Rightarrow> nat \<Rightarrow> string \<Rightarrow> adm_error" where
  "classify_error S status body =
     (let other = AdmMsg (''server returned '' @ as_status_text S status @ '': '' @ body) in
      if status = 429 then
        (case as_quota S body of
           Inr q \<Rightarrow>
             if qb_error q = ''quota exceeded''
             then AdmQuota \<lparr>qe_quota = qb_quota q, qe_limit = qb_limit q, qe_current = qb_current q\<rparr>
             else other
         | Inl _ \<Rightarrow> other)
      else other)"

definition ok_or_error :: "'w adm_service \<Rightarrow> adm_response \<Rightarrow> (adm_response, adm_error) result" where
  "ok_or_error S resp =
     (if is_success (rs_status resp) then Ok resp
      else Err (classify_error S (rs_status resp)
        (case rs_text resp of Inr body \<Rightarrow> body | Inl _ \<Rightarrow> [])))"

definition explain_quota :: "adm_error \<Rightarrow> adm_error" where
  "explain_quota e = (case e of
     AdmQuota q \<Rightarrow>
       if qe_quota q = ''groups_per_domain'' then
         AdmMsg (''the domain's connectivity-group quota is used up ('' @
           i32_to_string (qe_current q) @ '' of '' @ i32_to_string (qe_limit q) @
           ''). Delete an unused group with `wcadm remove-group <group-id>` or upgrade your plan.'')
       else if qe_quota q = ''nodes_per_group'' then
         AdmMsg (''the connectivity group is full: '' @
           i32_to_string (qe_current q) @ '' of '' @ i32_to_string (qe_limit q) @
           '' node quota used (registered nodes plus pending registration tokens). Free quota by deleting a revoked node with `wcadm remove-node <group-id> <node-number>`, by waiting for a pending registration token to expire, or by starting the group over with `wcadm reset-group <group-id>` (which also clears the roster). `wcadm show-group <group-id>` shows the usage.'')
       else e
   | _ \<Rightarrow> e)"

subsection \<open>Key and URL\<close>

definition quote :: string where "quote = [CHR 0x27]"

text \<open>The part of an API key between its first two underscores names the environment.\<close>

definition api_key_parse :: "string \<Rightarrow> (string, adm_error) result" where
  "api_key_parse raw =
     rbind (ok_or (AdmMsg (''API key must start with 'wc_'' @ quote)) (strip_prefix ''wc_'' (trim raw))) (\<lambda>rest.
     rbind (check (CHR ''_'' \<in> set rest) (AdmMsg ''invalid API key format'')) (\<lambda>_.
     let env = takeWhile (\<lambda>c. c \<noteq> CHR ''_'') rest in
     rbind (check (env \<noteq> []) (AdmMsg ''API key environment is empty'')) (\<lambda>_.
     Ok env)))"

definition trim_end_slashes :: "string \<Rightarrow> string" where
  "trim_end_slashes s = rev (dropWhile (\<lambda>c. c = CHR ''/'') (rev s))"

definition api_base_url :: "string \<Rightarrow> string option \<Rightarrow> (string, adm_error) result" where
  "api_base_url env url_override = (case url_override of
     Some url \<Rightarrow> Ok (trim_end_slashes url)
   | None \<Rightarrow>
       if env = ''local'' then Ok ''http://localhost:3000''
       else if env = ''staging'' then Ok ''https://staging.connect.wispers.dev''
       else if env = ''prod'' then Ok ''https://connect.wispers.dev''
       else if env = ''standalone'' then
         Err (AdmMsg ''standalone API keys need the hub's URL: pass --url or set WC_URL (e.g. http://my-hub:2357)'')
       else Err (AdmMsg (''unknown API key environment '' @ quote @ env @ quote @
         ''; pass --url or set WC_URL'')))"

subsection \<open>Talking to the service\<close>

text \<open>What the tool has printed, the service's state, and the requests it has sent.\<close>

record 'w adm_world =
  aw_out :: "string list"
  aw_net :: 'w
  aw_sent :: "adm_request list"

type_synonym ('w, 'a) adm_prog = "('w adm_world, 'a, adm_error) prog"

definition adm_println :: "string \<Rightarrow> ('w, unit) adm_prog" where
  "adm_println line = modify (\<lambda>s. s\<lparr>aw_out := aw_out s @ [line]\<rparr>)"

fun adm_println_all :: "string list \<Rightarrow> ('w, unit) adm_prog" where
  "adm_println_all [] = ret ()"
| "adm_println_all (l # ls) = pbind (adm_println l) (\<lambda>_. adm_println_all ls)"

definition adm_send :: "'w adm_service \<Rightarrow> adm_request \<Rightarrow> ('w, adm_response) adm_prog" where
  "adm_send S rq = (\<lambda>s. case as_send S rq (aw_net s) of (r, w) \<Rightarrow>
     (of_sum (\<lambda>e. AdmContext ''failed to send request'' (AdmMsg e)) r,
      s\<lparr>aw_net := w, aw_sent := aw_sent s @ [rq]\<rparr>))"

definition adm_json :: "(bytes \<Rightarrow> string + 'a) \<Rightarrow> adm_response \<Rightarrow> ('a, adm_error) result" where
  "adm_json parse resp =
     map_err (AdmContext ''failed to parse response'')
       (rbind (of_sum AdmMsg (rs_body resp)) (\<lambda>b. of_sum AdmMsg (parse b)))"

definition get_request :: "string \<Rightarrow> string \<Rightarrow> adm_request" where
  "get_request key url = \<lparr>rq_method = HttpGet, rq_url = url, rq_bearer = key, rq_json = None\<rparr>"

definition post_request :: "string \<Rightarrow> string \<Rightarrow> (string \<times> string) list option \<Rightarrow> adm_request" where
  "post_request key url body =
     \<lparr>rq_method = HttpPost, rq_url = url, rq_bearer = key, rq_json = body\<rparr>"

definition delete_request :: "string \<Rightarrow> string \<Rightarrow> adm_request" where
  "delete_request key url =
     \<lparr>rq_method = HttpDelete, rq_url = url, rq_bearer = key, rq_json = None\<rparr>"

definition fmt_used :: "i32 \<Rightarrow> i32 option \<Rightarrow> string" where
  "fmt_used current limit = (case limit of
     Some limit \<Rightarrow> i32_to_string current @ '' of '' @ i32_to_string limit @ '' used''
   | None \<Rightarrow> i32_to_string current @ '' used (no limit)'')"

text \<open>Registration tokens that hold quota: the current usage less the registered nodes.\<close>

definition pending_tokens :: "node_quota \<Rightarrow> nat \<Rightarrow> nat" where
  "pending_tokens quota node_count = nat (max (sint (nq_current quota)) 0) - node_count"

definition fmt_quota :: "node_quota \<Rightarrow> nat \<Rightarrow> string" where
  "fmt_quota quota node_count =
     (let used = fmt_used (nq_current quota) (nq_limit quota);
          pending = pending_tokens quota node_count
      in if pending = 0 then used
         else used @ '' ('' @ nat_to_string node_count @ '' node'' @
           (if node_count = 1 then [] else ''s'') @ '' + '' @ nat_to_string pending @
           '' pending registration token'' @ (if pending = 1 then [] else ''s'') @ '')'')"

subsection \<open>The commands\<close>

definition groups_url :: "string \<Rightarrow> string" where
  "groups_url base_url = base_url @ ''/api/v1/connectivity-groups''"

definition group_url :: "string \<Rightarrow> string \<Rightarrow> string" where
  "group_url base_url group_id = groups_url base_url @ ''/'' @ group_id"

definition get_stats :: "'w adm_service \<Rightarrow> string \<Rightarrow> string \<Rightarrow> ('w, adm_stats) adm_prog" where
  "get_stats S base_url api_key =
     pbind (adm_send S (get_request api_key (base_url @ ''/api/v1/stats''))) (\<lambda>resp.
     pbind (lift (ok_or_error S resp)) (\<lambda>resp.
     lift (adm_json (as_stats S) resp)))"

definition group_line :: "group_summary \<Rightarrow> string" where
  "group_line grp = (case gs_name grp of
     Some name \<Rightarrow> ''  '' @ gs_id grp @ '' ('' @ name @ '')''
   | None \<Rightarrow> ''  '' @ gs_id grp)"

definition list_groups :: "'w adm_service \<Rightarrow> string \<Rightarrow> string \<Rightarrow> ('w, unit) adm_prog" where
  "list_groups S base_url api_key =
     pbind (adm_send S (get_request api_key (groups_url base_url))) (\<lambda>resp.
     pbind (lift (ok_or_error S resp)) (\<lambda>resp.
     pbind (lift (adm_json (as_groups S) resp)) (\<lambda>groups.
     pbind (if groups = [] then adm_println ''No connectivity groups found.''
            else pbind (adm_println ''Connectivity groups:'') (\<lambda>_. adm_println_all (map group_line groups))) (\<lambda>_.
     pcatch (get_stats S base_url api_key)
       (\<lambda>stats. let groups = stats_connectivity_groups stats in
          adm_println (''Group quota: '' @ fmt_used (gst_count groups) (gst_max groups)))
       (\<lambda>_. ret ())))))"

definition adm_node_line :: "node_response \<Rightarrow> string" where
  "adm_node_line node =
     (let name = (case nr_name node of Some n \<Rightarrow> n | None \<Rightarrow> ''(unnamed)'');
          last_seen = (case nr_last_seen_at node of Some t \<Rightarrow> t | None \<Rightarrow> ''never'')
      in ''    '' @ i32_to_string (nr_node_number node) @ '' - '' @ name @ '' (created: '' @
         nr_created_at node @ '', last seen: '' @ last_seen @ '')'')"

definition if_some :: "'a option \<Rightarrow> ('a \<Rightarrow> ('w, unit) adm_prog) \<Rightarrow> ('w, unit) adm_prog" where
  "if_some opt k = (case opt of Some x \<Rightarrow> k x | None \<Rightarrow> ret ())"

definition show_group ::
  "'w adm_service \<Rightarrow> string \<Rightarrow> string \<Rightarrow> string \<Rightarrow> ('w, unit) adm_prog"
where
  "show_group S base_url api_key group_id =
     pbind (adm_send S (get_request api_key (group_url base_url group_id))) (\<lambda>resp.
     pbind (lift (ok_or_error S resp)) (\<lambda>resp.
     pbind (lift (adm_json (as_group S) resp)) (\<lambda>data.
     pbind (adm_println (''Connectivity group: '' @ gr_id data)) (\<lambda>_.
     pbind (if_some (gr_name data) (\<lambda>name. adm_println (''  Name: '' @ name))) (\<lambda>_.
     pbind (adm_println (''  Created: '' @ gr_created_at data)) (\<lambda>_.
     pbind (if_some (gr_node_quota data) (\<lambda>quota.
       adm_println (''  Node quota: '' @ fmt_quota quota (length (gr_nodes data))))) (\<lambda>_.
     if gr_nodes data = [] then adm_println ''  Nodes: (none)''
     else pbind (adm_println ''  Nodes:'') (\<lambda>_. adm_println_all (map adm_node_line (gr_nodes data))))))))))"

definition add_group ::
  "'w adm_service \<Rightarrow> string \<Rightarrow> string \<Rightarrow> string option \<Rightarrow> ('w, unit) adm_prog"
where
  "add_group S base_url api_key name =
     (let body = (case name of Some n \<Rightarrow> [(''name'', n)] | None \<Rightarrow> []) in
     pbind (adm_send S (post_request api_key (groups_url base_url) (Some body))) (\<lambda>resp.
     pbind (lift (map_err (AdmContext ''cannot create a connectivity group'')
       (map_err explain_quota (ok_or_error S resp)))) (\<lambda>resp.
     pbind (lift (adm_json (as_group S) resp)) (\<lambda>data.
     pbind (adm_println ''Created connectivity group:'') (\<lambda>_.
     pbind (adm_println (''  ID: '' @ gr_id data)) (\<lambda>_.
     pbind (if_some (gr_name data) (\<lambda>name. adm_println (''  Name: '' @ name))) (\<lambda>_.
     adm_println (''  Created: '' @ gr_created_at data))))))))"

definition remove_group ::
  "'w adm_service \<Rightarrow> string \<Rightarrow> string \<Rightarrow> string \<Rightarrow> ('w, unit) adm_prog"
where
  "remove_group S base_url api_key group_id =
     pbind (adm_send S (delete_request api_key (group_url base_url group_id))) (\<lambda>resp.
     pbind (lift (ok_or_error S resp)) (\<lambda>_.
     adm_println (''Deleted connectivity group: '' @ group_id)))"

definition reset_group ::
  "'w adm_service \<Rightarrow> string \<Rightarrow> string \<Rightarrow> string \<Rightarrow> ('w, unit) adm_prog"
where
  "reset_group S base_url api_key group_id =
     pbind (adm_send S (post_request api_key (group_url base_url group_id @ ''/reset'') None)) (\<lambda>resp.
     pbind (lift (ok_or_error S resp)) (\<lambda>_.
     adm_println (''Reset connectivity group '' @ group_id @ '': all nodes removed, roster cleared.'')))"

definition not_registered_text :: "string \<Rightarrow> i32 \<Rightarrow> string" where
  "not_registered_text group_id node_number =
     ''node '' @ i32_to_string node_number @ '' is not registered in connectivity group '' @
     group_id @ '' (`wcadm show-group '' @ group_id @ ''` lists the group's nodes)''"

definition still_active_text :: "i32 \<Rightarrow> string" where
  "still_active_text node_number =
     ''node '' @ i32_to_string node_number @ '' is still active in the connectivity group's roster. Revoke it from another node in the group first (or let the node itself log out, which deregisters it and frees the quota), then retry.''"

definition remove_node ::
  "'w adm_service \<Rightarrow> string \<Rightarrow> string \<Rightarrow> string \<Rightarrow> i32 \<Rightarrow> ('w, unit) adm_prog"
where
  "remove_node S base_url api_key group_id node_number =
     pbind (adm_send S (delete_request api_key
       (group_url base_url group_id @ ''/nodes/'' @ i32_to_string node_number))) (\<lambda>resp.
     if rs_status resp = 404 then fail (AdmMsg (not_registered_text group_id node_number))
     else if rs_status resp = 409 then fail (AdmMsg (still_active_text node_number))
     else
     pbind (lift (ok_or_error S resp)) (\<lambda>_.
     adm_println (''Deleted node '' @ i32_to_string node_number @ '' from connectivity group '' @
       group_id @ ''.'')))"

definition create_registration_token ::
  "'w adm_service \<Rightarrow> string \<Rightarrow> string \<Rightarrow> string \<Rightarrow> string option \<Rightarrow> ('w, unit) adm_prog"
where
  "create_registration_token S base_url api_key group_id name =
     (let body = (case name of Some n \<Rightarrow> [(''nodeName'', n)] | None \<Rightarrow> []) in
     pbind (adm_send S (post_request api_key
       (group_url base_url group_id @ ''/registration-tokens'') (Some body))) (\<lambda>resp.
     pbind (lift (map_err (AdmContext ''cannot create a registration token'')
       (map_err explain_quota (ok_or_error S resp)))) (\<lambda>resp.
     pbind (lift (adm_json (as_token S) resp)) (\<lambda>data.
     pbind (adm_println ''Registration token created:'') (\<lambda>_.
     pbind (adm_println (''  Token: '' @ tr_token data)) (\<lambda>_.
     adm_println (''  Expires: '' @ tr_expires_at data)))))))"

definition adm_dispatch ::
  "'w adm_service \<Rightarrow> string \<Rightarrow> string \<Rightarrow> adm_command \<Rightarrow> ('w, unit) adm_prog"
where
  "adm_dispatch S base_url api_key command = (case command of
     ListGroups \<Rightarrow> list_groups S base_url api_key
   | ShowGroup group_id \<Rightarrow> show_group S base_url api_key group_id
   | AddGroup name \<Rightarrow> add_group S base_url api_key name
   | RemoveGroup group_id \<Rightarrow> remove_group S base_url api_key group_id
   | ResetGroup group_id \<Rightarrow> reset_group S base_url api_key group_id
   | RemoveNode group_id node_number \<Rightarrow> remove_node S base_url api_key group_id node_number
   | CreateRegistrationToken group_id name \<Rightarrow>
       create_registration_token S base_url api_key group_id name)"

definition adm_run :: "'w adm_service \<Rightarrow> adm_cli \<Rightarrow> ('w, unit) adm_prog" where
  "adm_run S cli =
     pbind (lift (api_key_parse (cli_api_key cli))) (\<lambda>env.
     pbind (lift (api_base_url env (cli_url cli))) (\<lambda>base_url.
     adm_dispatch S base_url (cli_api_key cli) (cli_command cli)))"

text \<open>\<open>main\<close>: the exit status, and what is printed to standard error.\<close>

definition adm_main ::
  "'w adm_service \<Rightarrow> adm_cli \<Rightarrow> 'w adm_world \<Rightarrow> (nat \<times> string option) \<times> 'w adm_world"
where
  "adm_main S cli w = (case adm_run S cli w of
     (Err e, w') \<Rightarrow> ((1, Some (''error: '' @ adm_error_text e)), w')
   | (_, w') \<Rightarrow> ((0, None), w'))"

end
