(* ===== verification/Wcadm_Props.thy ===== *)
theory Wcadm_Props
  imports Wcadm
begin

text \<open>
  What the administration tool does, seen from outside: which request a command is, when the
  service's answer lets it succeed, and what it has printed and sent in either case.
\<close>

subsection \<open>The request of a command, and the answers it accepts\<close>

definition adm_plan :: "string \<Rightarrow> string \<Rightarrow> adm_command \<Rightarrow> adm_request" where
  "adm_plan base key command = (case command of
     ListGroups \<Rightarrow> \<lparr>rq_method = HttpGet, rq_url = groups_url base, rq_bearer = key, rq_json = None\<rparr>
   | ShowGroup g \<Rightarrow> \<lparr>rq_method = HttpGet, rq_url = group_url base g, rq_bearer = key, rq_json = None\<rparr>
   | AddGroup name \<Rightarrow>
       \<lparr>rq_method = HttpPost, rq_url = groups_url base, rq_bearer = key,
        rq_json = Some (map (Pair ''name'') (case name of Some n \<Rightarrow> [n] | None \<Rightarrow> []))\<rparr>
   | RemoveGroup g \<Rightarrow> \<lparr>rq_method = HttpDelete, rq_url = group_url base g, rq_bearer = key, rq_json = None\<rparr>
   | ResetGroup g \<Rightarrow>
       \<lparr>rq_method = HttpPost, rq_url = group_url base g @ ''/reset'', rq_bearer = key, rq_json = None\<rparr>
   | RemoveNode g n \<Rightarrow>
       \<lparr>rq_method = HttpDelete, rq_url = group_url base g @ ''/nodes/'' @ i32_to_string n,
        rq_bearer = key, rq_json = None\<rparr>
   | CreateRegistrationToken g name \<Rightarrow>
       \<lparr>rq_method = HttpPost, rq_url = group_url base g @ ''/registration-tokens'', rq_bearer = key,
        rq_json = Some (map (Pair ''nodeName'') (case name of Some n \<Rightarrow> [n] | None \<Rightarrow> []))\<rparr>)"

definition readable :: "(bytes \<Rightarrow> string + 'a) \<Rightarrow> adm_response \<Rightarrow> bool" where
  "readable parse resp \<longleftrightarrow> (case rs_body resp of
     Inr b \<Rightarrow> (case parse b of Inr _ \<Rightarrow> True | Inl _ \<Rightarrow> False) | Inl _ \<Rightarrow> False)"

definition adm_accepts :: "'w adm_service \<Rightarrow> adm_command \<Rightarrow> adm_response \<Rightarrow> bool" where
  "adm_accepts S command resp \<longleftrightarrow> is_success (rs_status resp) \<and> (case command of
     ListGroups \<Rightarrow> readable (as_groups S) resp
   | ShowGroup _ \<Rightarrow> readable (as_group S) resp
   | AddGroup _ \<Rightarrow> readable (as_group S) resp
   | CreateRegistrationToken _ _ \<Rightarrow> readable (as_token S) resp
   | _ \<Rightarrow> True)"

subsection \<open>Printing\<close>

lemma adm_println_run [simp]: "adm_println l w = (Ok (), w\<lparr>aw_out := aw_out w @ [l]\<rparr>)"
  by (simp add: adm_println_def)

lemma adm_println_all_run [simp]: "adm_println_all ls w = (Ok (), w\<lparr>aw_out := aw_out w @ ls\<rparr>)"
  by (induction ls arbitrary: w) (simp_all add: pbind_def)

text \<open>A program that can only print: it succeeds and leaves the service and the requests.\<close>

definition prints :: "('w, unit) adm_prog \<Rightarrow> bool" where
  "prints m \<longleftrightarrow> (\<forall>w. \<exists>ls. m w = (Ok (), w\<lparr>aw_out := aw_out w @ ls\<rparr>))"

lemma printsE:
  assumes "prints m"
  obtains ls where "m w = (Ok (), w\<lparr>aw_out := aw_out w @ ls\<rparr>)"
  using assms by (auto simp: prints_def)

named_theorems prints_rules "introduction rules for prints"

lemma prints_basic [prints_rules]: "prints (adm_println l)" "prints (adm_println_all ls)"
  by (auto simp: prints_def)

lemma prints_ret [prints_rules]: "prints (ret ())"
proof -
  have "ret () w = (Ok (), w\<lparr>aw_out := aw_out w @ []\<rparr>)" for w :: "'w adm_world"
    by simp
  then show ?thesis unfolding prints_def by blast
qed

lemma prints_pbind [prints_rules]:
  assumes "prints m" "\<And>u. prints (k u)"
  shows "prints (pbind m k)"
  unfolding prints_def
proof
  fix w
  obtain ls where m: "m w = (Ok (), w\<lparr>aw_out := aw_out w @ ls\<rparr>)"
    using assms(1) by (auto simp: prints_def)
  let ?w = "w\<lparr>aw_out := aw_out w @ ls\<rparr>"
  obtain ls' where "k () ?w = (Ok (), ?w\<lparr>aw_out := aw_out ?w @ ls'\<rparr>)"
    using assms(2) by (rule printsE)
  with m have "pbind m k w = (Ok (), w\<lparr>aw_out := aw_out w @ (ls @ ls')\<rparr>)"
    by (simp add: pbind_def)
  then show "\<exists>ls. pbind m k w = (Ok (), w\<lparr>aw_out := aw_out w @ ls\<rparr>)" by blast
qed

lemma prints_if [prints_rules]: "prints m \<Longrightarrow> prints m' \<Longrightarrow> prints (if b then m else m')"
  by simp

lemma prints_if_some [prints_rules]: "(\<And>x. prints (k x)) \<Longrightarrow> prints (if_some opt k)"
  by (auto simp: if_some_def prints_ret split: option.split)

subsection \<open>One exchange with the service\<close>

text \<open>
  \<open>settles m w n rq ok later\<close>: \<open>m\<close> sends \<open>rq\<close> first and the service, answering \<open>a\<close>, is
  then in state \<open>n\<close>; \<open>m\<close> succeeds when \<open>ok\<close>, having sent \<open>later\<close> as well, and else leaves
  what is printed as it was.
\<close>

definition settles ::
  "('w, unit) adm_prog \<Rightarrow> 'w adm_world \<Rightarrow> 'w \<Rightarrow> adm_request \<Rightarrow> bool \<Rightarrow> adm_request list \<Rightarrow> bool"
where
  "settles m w n rq ok later \<longleftrightarrow> (case m w of (r, w') \<Rightarrow>
     if ok then r = Ok () \<and> aw_sent w' = aw_sent w @ rq # later \<and>
       (later = [] \<longrightarrow> aw_net w' = n)
     else (\<exists>e. r = Err e) \<and> w' = w\<lparr>aw_net := n, aw_sent := aw_sent w @ [rq]\<rparr>)"

lemma adm_send_run:
  "as_send S rq (aw_net w) = (a, n) \<Longrightarrow>
   adm_send S rq w = (of_sum (\<lambda>e. AdmContext ''failed to send request'' (AdmMsg e)) a,
     w\<lparr>aw_net := n, aw_sent := aw_sent w @ [rq]\<rparr>)"
  by (simp add: adm_send_def)

lemma adm_json_ok: "(\<exists>x. adm_json parse resp = Ok x) \<longleftrightarrow> readable parse resp"
  by (auto simp: adm_json_def readable_def rust_simps split: sum.splits)

lemma adm_json_cases:
  obtains x where "adm_json parse resp = Ok x" "readable parse resp"
  | e where "adm_json parse resp = Err e" "\<not> readable parse resp"
proof (cases "adm_json parse resp")
  case Panic
  then show ?thesis
    by (auto simp: adm_json_def rust_simps) (metis of_sum.elims result.distinct(3,5))+
qed (use adm_json_ok [of parse resp] that in auto)

lemma ok_or_error_ok: "is_success (rs_status resp) \<Longrightarrow> ok_or_error S resp = Ok resp"
  by (simp add: ok_or_error_def)

lemma ok_or_error_err: "\<not> is_success (rs_status resp) \<Longrightarrow> \<exists>e. ok_or_error S resp = Err e"
  by (simp add: ok_or_error_def)

text \<open>
  The two shapes of a command: a request whose success is enough, and one whose answer is
  read; \<open>f\<close> stands for the contexts put on a refusal.
\<close>

lemma settles_simple:
  assumes send: "as_send S rq (aw_net w) = (a, n)"
    and refused: "\<And>resp. \<not> is_success (rs_status resp) \<Longrightarrow>
      \<exists>e. k resp = fail e"
    and accepted: "\<And>resp. is_success (rs_status resp) \<Longrightarrow> prints (k resp)"
  shows "settles (pbind (adm_send S rq) k) w n rq
    (\<exists>resp. a = Inr resp \<and> is_success (rs_status resp)) []"
proof (cases a)
  case (Inl e)
  then show ?thesis
    using send by (simp add: settles_def pbind_def adm_send_run)
next
  case (Inr resp)
  let ?w = "w\<lparr>aw_net := n, aw_sent := aw_sent w @ [rq]\<rparr>"
  have run: "pbind (adm_send S rq) k w = k resp ?w"
    using send Inr by (simp add: pbind_def adm_send_run)
  show ?thesis
  proof (cases "is_success (rs_status resp)")
    case True
    obtain ls where "k resp ?w = (Ok (), ?w\<lparr>aw_out := aw_out ?w @ ls\<rparr>)"
      using accepted [OF True] by (rule printsE)
    with True Inr run show ?thesis by (simp add: settles_def)
  next
    case False
    with refused [OF False] Inr run show ?thesis by (auto simp: settles_def)
  qed
qed

lemma settles_read:
  assumes send: "as_send S rq (aw_net w) = (a, n)"
    and k: "\<And>x. prints (k x)"
  shows "settles (pbind (adm_send S rq) (\<lambda>resp.
      pbind (lift (map_err f (ok_or_error S resp))) (\<lambda>resp.
      pbind (lift (adm_json parse resp)) k))) w n rq
    (\<exists>resp. a = Inr resp \<and> is_success (rs_status resp) \<and> readable parse resp) []"
proof (cases a)
  case (Inl e)
  then show ?thesis
    using send by (simp add: settles_def pbind_def adm_send_run)
next
  case (Inr resp)
  let ?w = "w\<lparr>aw_net := n, aw_sent := aw_sent w @ [rq]\<rparr>"
  show ?thesis
  proof (cases "is_success (rs_status resp)")
    case True
    show ?thesis
    proof (cases rule: adm_json_cases [of parse resp])
      case (1 x)
      obtain ls where "k x ?w = (Ok (), ?w\<lparr>aw_out := aw_out ?w @ ls\<rparr>)"
        using k by (rule printsE)
      with 1 True Inr send show ?thesis
        by (simp add: settles_def pbind_def adm_send_run ok_or_error_ok)
    next
      case (2 e)
      with True Inr send show ?thesis
        by (simp add: settles_def pbind_def adm_send_run ok_or_error_ok)
    qed
  next
    case False
    then obtain e where "ok_or_error S resp = Err e"
      using ok_or_error_err by blast
    with False Inr send show ?thesis
      by (simp add: settles_def pbind_def adm_send_run)
  qed
qed

lemma map_err_map_err: "map_err f (map_err g r) = map_err (f \<circ> g) r"
  by (cases r) auto

lemma map_err_id [simp]: "map_err id r = r"
  by (cases r) auto

lemmas settles_read_plain = settles_read [where f = id, unfolded map_err_id]

lemma settles_read_quota:
  assumes "as_send S rq (aw_net w) = (a, n)" "\<And>x. prints (k x)"
  shows "settles (pbind (adm_send S rq) (\<lambda>resp.
      pbind (lift (map_err f (map_err g (ok_or_error S resp)))) (\<lambda>resp.
      pbind (lift (adm_json parse resp)) k))) w n rq
    (\<exists>resp. a = Inr resp \<and> is_success (rs_status resp) \<and> readable parse resp) []"
  unfolding map_err_map_err using assms by (rule settles_read)

lemma prints_lift [prints_rules]: "m = Ok x \<Longrightarrow> prints k \<Longrightarrow> prints (pbind (lift m) (\<lambda>_. k))"
  by (simp add: prints_def pbind_def)

lemma settles_plain:
  assumes "as_send S rq (aw_net w) = (a, n)" "prints k"
  shows "settles (pbind (adm_send S rq) (\<lambda>resp. pbind (lift (ok_or_error S resp)) (\<lambda>_. k))) w n rq
    (\<exists>resp. a = Inr resp \<and> is_success (rs_status resp)) []"
proof (rule settles_simple [OF assms(1)])
  fix resp :: adm_response
  assume "\<not> is_success (rs_status resp)"
  then obtain e where "ok_or_error S resp = Err e" using ok_or_error_err by blast
  then show "\<exists>e. pbind (lift (ok_or_error S resp)) (\<lambda>_. k) = fail e"
    by (auto simp: pbind_def fun_eq_iff)
qed (use assms(2) in \<open>auto simp: prints_def pbind_def ok_or_error_ok\<close>)

lemma get_stats_run:
  "\<exists>r n. get_stats S base key w = (r, w\<lparr>aw_net := n,
     aw_sent := aw_sent w @ [get_request key (base @ ''/api/v1/stats'')]\<rparr>) \<and> r \<noteq> Panic"
proof -
  let ?rq = "get_request key (base @ ''/api/v1/stats'')"
  obtain a n where send: "as_send S ?rq (aw_net w) = (a, n)" by fastforce
  show ?thesis
  proof (cases a)
    case (Inl e)
    with send show ?thesis by (auto simp: get_stats_def pbind_def adm_send_run)
  next
    case (Inr resp)
    show ?thesis
    proof (cases "is_success (rs_status resp)")
      case True
      show ?thesis
        by (rule adm_json_cases [of "as_stats S" resp])
           (use send Inr True in \<open>auto simp: get_stats_def pbind_def adm_send_run ok_or_error_ok\<close>)
    next
      case False
      with ok_or_error_err [OF False, of S] send Inr show ?thesis
        by (auto simp: get_stats_def pbind_def adm_send_run)
    qed
  qed
qed

subsection \<open>Every command\<close>

lemma list_groups_settles:
  assumes "as_send S (get_request key (groups_url base)) (aw_net w) = (a, n)"
  shows "settles (list_groups S base key) w n (get_request key (groups_url base))
    (\<exists>resp. a = Inr resp \<and> is_success (rs_status resp) \<and> readable (as_groups S) resp)
    [get_request key (base @ ''/api/v1/stats'')]"
proof (cases "\<exists>resp. a = Inr resp \<and> is_success (rs_status resp)")
  case False
  then show ?thesis
    using assms ok_or_error_err [of _ S]
    by (cases a) (fastforce simp: settles_def list_groups_def pbind_def adm_send_run)+
next
  case True
  then obtain resp where resp: "a = Inr resp" "is_success (rs_status resp)" by blast
  let ?w = "w\<lparr>aw_net := n, aw_sent := aw_sent w @ [get_request key (groups_url base)]\<rparr>"
  show ?thesis
  proof (cases rule: adm_json_cases [of "as_groups S" resp])
    case (1 groups)
    define P :: "('a, unit) adm_prog" where
      "P = (if groups = [] then adm_println ''No connectivity groups found.''
        else pbind (adm_println ''Connectivity groups:'') (\<lambda>_. adm_println_all (map group_line groups)))"
    have "prints P" unfolding P_def by (intro prints_rules)
    then obtain ls where P: "P ?w = (Ok (), ?w\<lparr>aw_out := aw_out ?w @ ls\<rparr>)"
      by (rule printsE)
    obtain r n' where "get_stats S base key (?w\<lparr>aw_out := aw_out ?w @ ls\<rparr>) =
        (r, ?w\<lparr>aw_out := aw_out ?w @ ls, aw_net := n', aw_sent := aw_sent ?w @
          [get_request key (base @ ''/api/v1/stats'')]\<rparr>)" "r \<noteq> Panic"
      using get_stats_run [of S base key "?w\<lparr>aw_out := aw_out ?w @ ls\<rparr>"] by auto
    with 1 resp assms P show ?thesis
      by (cases r) (simp_all add: settles_def list_groups_def P_def [symmetric] pbind_def
        pcatch_def Let_def adm_send_run ok_or_error_ok)
  next
    case (2 e)
    with resp assms show ?thesis
      by (simp add: settles_def list_groups_def pbind_def adm_send_run ok_or_error_ok)
  qed
qed

text \<open>The request of a command as the command writes it.\<close>

lemma adm_plan_requests:
  "adm_plan base key ListGroups = get_request key (groups_url base)"
  "adm_plan base key (ShowGroup g) = get_request key (group_url base g)"
  "adm_plan base key (AddGroup name) = post_request key (groups_url base)
     (Some (case name of Some n \<Rightarrow> [(''name'', n)] | None \<Rightarrow> []))"
  "adm_plan base key (RemoveGroup g) = delete_request key (group_url base g)"
  "adm_plan base key (ResetGroup g) = post_request key (group_url base g @ ''/reset'') None"
  "adm_plan base key (RemoveNode g i) =
     delete_request key (group_url base g @ ''/nodes/'' @ i32_to_string i)"
  "adm_plan base key (CreateRegistrationToken g name) =
     post_request key (group_url base g @ ''/registration-tokens'')
     (Some (case name of Some n \<Rightarrow> [(''nodeName'', n)] | None \<Rightarrow> []))"
  by (simp_all add: adm_plan_def get_request_def post_request_def delete_request_def
      split: option.split)

lemma adm_accepts_simps:
  "adm_accepts S ListGroups resp \<longleftrightarrow> is_success (rs_status resp) \<and> readable (as_groups S) resp"
  "adm_accepts S (ShowGroup g) resp \<longleftrightarrow> is_success (rs_status resp) \<and> readable (as_group S) resp"
  "adm_accepts S (AddGroup name) resp \<longleftrightarrow> is_success (rs_status resp) \<and> readable (as_group S) resp"
  "adm_accepts S (RemoveGroup g) resp \<longleftrightarrow> is_success (rs_status resp)"
  "adm_accepts S (ResetGroup g) resp \<longleftrightarrow> is_success (rs_status resp)"
  "adm_accepts S (RemoveNode g i) resp \<longleftrightarrow> is_success (rs_status resp)"
  "adm_accepts S (CreateRegistrationToken g name) resp \<longleftrightarrow>
     is_success (rs_status resp) \<and> readable (as_token S) resp"
  by (simp_all add: adm_accepts_def)

lemma remove_node_settles:
  assumes "as_send S (delete_request key (group_url base g @ ''/nodes/'' @ i32_to_string i)) (aw_net w) = (a, n)"
  shows "settles (remove_node S base key g i) w n
    (delete_request key (group_url base g @ ''/nodes/'' @ i32_to_string i))
    (\<exists>resp. a = Inr resp \<and> is_success (rs_status resp)) []"
  unfolding remove_node_def
proof (rule settles_simple [OF assms])
  fix resp :: adm_response
  assume "\<not> is_success (rs_status resp)"
  then obtain e where "ok_or_error S resp = Err e" using ok_or_error_err by blast
  then show "\<exists>e. (if rs_status resp = 404 then fail (AdmMsg (not_registered_text g i))
      else if rs_status resp = 409 then fail (AdmMsg (still_active_text i))
      else pbind (lift (ok_or_error S resp)) (\<lambda>_. adm_println (''Deleted node '' @
        i32_to_string i @ '' from connectivity group '' @ g @ ''.''))) = fail e"
    by (auto simp: pbind_def fun_eq_iff)
next
  fix resp :: adm_response
  assume "is_success (rs_status resp)"
  then show "prints (if rs_status resp = 404 then fail (AdmMsg (not_registered_text g i))
      else if rs_status resp = 409 then fail (AdmMsg (still_active_text i))
      else pbind (lift (ok_or_error S resp)) (\<lambda>_. adm_println (''Deleted node '' @
        i32_to_string i @ '' from connectivity group '' @ g @ ''.'')))"
    by (simp add: is_success_def prints_rules ok_or_error_ok prints_lift)
qed

lemma dispatch_settles:
  assumes "as_send S (adm_plan base key command) (aw_net w) = (a, n)"
  shows "settles (adm_dispatch S base key command) w n (adm_plan base key command)
    (\<exists>resp. a = Inr resp \<and> adm_accepts S command resp)
    (if command = ListGroups then [get_request key (base @ ''/api/v1/stats'')] else [])"
proof (cases command)
  case ListGroups
  from list_groups_settles assms show ?thesis
    by (simp add: ListGroups adm_plan_requests adm_accepts_simps adm_dispatch_def)
next
  case (ShowGroup g)
  have "settles (show_group S base key g) w n (get_request key (group_url base g))
    (\<exists>resp. a = Inr resp \<and> is_success (rs_status resp) \<and> readable (as_group S) resp) []"
    unfolding show_group_def
    by (rule settles_read_plain) (use assms ShowGroup in \<open>simp add: adm_plan_requests\<close>, intro prints_rules)
  then show ?thesis
    by (simp add: ShowGroup adm_plan_requests adm_accepts_simps adm_dispatch_def)
next
  case (AddGroup name)
  have "settles (add_group S base key name) w n (adm_plan base key command)
    (\<exists>resp. a = Inr resp \<and> is_success (rs_status resp) \<and> readable (as_group S) resp) []"
    unfolding add_group_def Let_def AddGroup adm_plan_requests
    by (rule settles_read_quota) (use assms AddGroup in \<open>simp add: adm_plan_requests\<close>, intro prints_rules)
  then show ?thesis
    by (simp add: AddGroup adm_accepts_simps adm_dispatch_def)
next
  case (RemoveGroup g)
  have "settles (remove_group S base key g) w n (delete_request key (group_url base g))
    (\<exists>resp. a = Inr resp \<and> is_success (rs_status resp)) []"
    unfolding remove_group_def
    by (rule settles_plain) (use assms RemoveGroup in \<open>simp add: adm_plan_requests\<close>, intro prints_rules)
  then show ?thesis
    by (simp add: RemoveGroup adm_plan_requests adm_accepts_simps adm_dispatch_def)
next
  case (ResetGroup g)
  have "settles (reset_group S base key g) w n (adm_plan base key command)
    (\<exists>resp. a = Inr resp \<and> is_success (rs_status resp)) []"
    unfolding reset_group_def ResetGroup adm_plan_requests
    by (rule settles_plain) (use assms ResetGroup in \<open>simp add: adm_plan_requests\<close>, intro prints_rules)
  then show ?thesis
    by (simp add: ResetGroup adm_accepts_simps adm_dispatch_def)
next
  case (RemoveNode g i)
  from remove_node_settles assms show ?thesis
    by (simp add: RemoveNode adm_plan_requests adm_accepts_simps adm_dispatch_def)
next
  case (CreateRegistrationToken g name)
  have "settles (create_registration_token S base key g name) w n (adm_plan base key command)
    (\<exists>resp. a = Inr resp \<and> is_success (rs_status resp) \<and> readable (as_token S) resp) []"
    unfolding create_registration_token_def Let_def CreateRegistrationToken adm_plan_requests
    by (rule settles_read_quota)
       (use assms CreateRegistrationToken in \<open>simp add: adm_plan_requests\<close>, intro prints_rules)
  then show ?thesis
    by (simp add: CreateRegistrationToken adm_accepts_simps adm_dispatch_def)
qed

text \<open>
  C27: an administration command is one exchange with the service, and its exit status tells
  how that went.  With a usable key and URL the tool first sends exactly the request that the
  command names, with the key as given, and exits with 0 exactly when the service answered,
  the status was a success and the answer, where one is reported, could be read.  Otherwise it
  exits with 1 and a message, and has printed no result and sent nothing else.  Listing the
  groups asks for the quota afterwards and succeeds whatever comes of that.
\<close>

theorem admin_command_is_one_exchange:
  assumes "api_key_parse (cli_api_key cli) = Ok env"
    and "api_base_url env (cli_url cli) = Ok base"
    and "as_send S (adm_plan base (cli_api_key cli) (cli_command cli)) (aw_net w) = (a, n)"
    and "adm_main S cli w = ((exit, message), w')"
  shows "(exit = 0 \<longleftrightarrow> (\<exists>resp. a = Inr resp \<and> adm_accepts S (cli_command cli) resp)) \<and>
    (exit = 0 \<longrightarrow> message = None \<and>
      aw_sent w' = aw_sent w @ adm_plan base (cli_api_key cli) (cli_command cli) #
        (if cli_command cli = ListGroups
         then [get_request (cli_api_key cli) (base @ ''/api/v1/stats'')] else [])) \<and>
    (exit \<noteq> 0 \<longrightarrow> exit = 1 \<and> message \<noteq> None \<and> aw_out w' = aw_out w \<and>
      aw_sent w' = aw_sent w @ [adm_plan base (cli_api_key cli) (cli_command cli)])"
proof -
  have "adm_run S cli w = adm_dispatch S base (cli_api_key cli) (cli_command cli) w"
    using assms(1,2) by (simp add: adm_run_def pbind_def)
  with dispatch_settles [OF assms(3)] assms(4) show ?thesis
    by (auto simp: settles_def adm_main_def split: if_splits prod.splits result.splits)
qed

definition demo_service :: "nat adm_service" where
  "demo_service =
     \<lparr>as_send = (\<lambda>rq n. (Inr \<lparr>rs_status = if rq_method rq = HttpDelete then 204 else 500,
        rs_text = Inr ''no'', rs_body = Inr []\<rparr>, Suc n)),
      as_status_text = nat_to_string, as_groups = (\<lambda>_. Inr []), as_stats = (\<lambda>_. Inl ''none''),
      as_group = (\<lambda>_. Inl ''none''), as_token = (\<lambda>_. Inl ''none''), as_quota = (\<lambda>_. Inl ''none'')\<rparr>"

definition demo_cli :: "adm_command \<Rightarrow> adm_cli" where
  "demo_cli command = \<lparr>cli_api_key = ''wc_x_1'', cli_url = Some ''h/'', cli_command = command\<rparr>"

lemma demo_key: "api_key_parse ''wc_x_1'' = Ok ''x'' \<and> api_base_url ''x'' (Some ''h/'') = Ok ''h''"
  by code_simp

theorem admin_command_is_one_exchange_witness:
  "fst (fst (adm_main demo_service (demo_cli (RemoveGroup ''g'')) \<lparr>aw_out = [], aw_net = 0, aw_sent = []\<rparr>)) = 0 \<and>
   fst (fst (adm_main demo_service (demo_cli ListGroups) \<lparr>aw_out = [], aw_net = 0, aw_sent = []\<rparr>)) = 1"
proof -
  let ?w = "\<lparr>aw_out = [], aw_net = 0::nat, aw_sent = []\<rparr>"
  have run: "adm_main demo_service (demo_cli command) ?w =
      ((fst (fst (adm_main demo_service (demo_cli command) ?w)),
        snd (fst (adm_main demo_service (demo_cli command) ?w))),
       snd (adm_main demo_service (demo_cli command) ?w))" for command
    by simp
  show ?thesis
    using admin_command_is_one_exchange [OF _ _ _ run [of "RemoveGroup ''g''"], of "''x''" "''h''"
        "Inr \<lparr>rs_status = 204, rs_text = Inr ''no'', rs_body = Inr []\<rparr>" 1]
      admin_command_is_one_exchange [OF _ _ _ run [of ListGroups], of "''x''" "''h''"
        "Inr \<lparr>rs_status = 500, rs_text = Inr ''no'', rs_body = Inr []\<rparr>" 1]
      demo_key
    by (auto simp: demo_service_def demo_cli_def adm_plan_def adm_accepts_def is_success_def)
qed

end
