(* ===== verification/Spec2Isabelle.thy ===== *)
theory Spec2Isabelle
  imports Connect_Props Commands_Props Ffi_Props Juice_Props Wcadm_Props
begin

text \<open>
  A model and correctness proofs of \<open>wispers-connect\<close>, the Rust library by which the devices
  of one owner find and trust each other through a hub that neither has to trust, of its C
  interface, of \<open>wconnect\<close>, the program built on it: the daemon and the proxies that carry
  TCP connections from one device to another, and the command line; and of \<open>wcadm\<close>, the tool
  that administers groups.  Paths are relative to \<open>wispers-connect/\<close>, or to the root where they
  begin with \<open>wconnect/\<close> or \<open>wcadm/\<close>.

  \<^bold>\<open>The program.\<close>  A \<^emph>\<open>node\<close> registers with the hub and is activated by an endorser: the two
  share a pairing code, authenticate each other with it through the hub, and cosign the next
  version of the group's \<^emph>\<open>roster\<close>, a list of nodes with the addenda that made it.  Whoever
  gets a roster verifies it by rebuilding it from its addenda.  An activated node \<^emph>\<open>calls\<close>
  another: a signed request goes through the hub to the peer's \<^emph>\<open>serving session\<close>, which
  checks the caller against a fresh roster and answers; both derive one X25519 secret and
  meet over ICE, either with encrypted datagrams or with a QUIC connection.

  On a device runs the \<^emph>\<open>daemon\<close> of \<open>wconnect\<close>: it serves, answers the command line over a
  local socket, and carries out what peers write at the head of a QUIC stream: \<open>PING\<close>, a
  \<open>FORWARD\<close> to one of its own ports, or a \<open>CONNECT\<close> to anywhere when egress is allowed.  The
  SOCKS5 and the HTTP proxy turn the requests of local clients into such streams, over a pool
  with one QUIC connection per node.

  \<^bold>\<open>Theories and sources.\<close>
  \<^item> \<open>Prelude\<close>, \<open>Rust_Std\<close>: outcomes (\<open>Ok\<close>, \<open>Err\<close>, \<open>Panic\<close>), programs over a state with the
    rules \<open>keeps\<close> and \<open>preserves\<close>, the contract \<open>event_machine\<close> of a component driven by
    events; integers, parsing and splitting as the standard library has them.
  \<^item> \<open>Proto\<close>: the messages of \<open>proto/*.proto\<close>.  \<open>Primitives\<close>: the crates that are called, as
    the parameter \<open>P\<close>, and the documented behaviour that a property may assume of them;
    \<open>Reference_Prims\<close>: an instance of all of it, on which the witnesses run.
  \<^item> \<open>Roster\<close>: \<open>src/roster.rs\<close>.  \<open>Roster_Chain\<close> defines valid histories and proves the
    verifier equivalent to them; \<open>Roster_Props\<close> holds the properties.
  \<^item> \<open>Pairing\<close>: \<open>src/crypto.rs\<close>.  \<open>Encryption\<close>: \<open>src/encryption.rs\<close>, with the contract
    \<open>packet_cipher\<close>.  \<open>P2p_Signing\<close>: \<open>src/p2p_signing.rs\<close>, with the contract
    \<open>signed_envelope\<close>.  \<open>Rtt\<close>: \<open>src/rtt.rs\<close>.
  \<^item> \<open>Node_Types\<close>: \<open>src/types.rs\<close>, \<open>src/errors.rs\<close> and the error types of the other files.
    \<open>Storage\<close>: \<open>src/storage/\<close>, three stores that implement one abstract cell.  \<open>Hub\<close>:
    \<open>src/hub.rs\<close>, the client; the hub itself is the parameter \<open>H\<close>.
  \<^item> \<open>Endorsing\<close>: \<open>EndorsingState\<close> of \<open>src/serving.rs\<close>, the endorser's side of an activation.
  \<^item> \<open>Node\<close>: \<open>src/node.rs\<close>, the node's state and operations.  \<open>Node_Inv\<close> proves what each
    operation does and the invariant; \<open>Node_Props\<close> holds the properties.
  \<^item> \<open>Ice\<close>: \<open>src/ice.rs\<close>, the enums of \<open>src/juice.rs\<close>, and \<open>UdpConnection\<close> of \<open>src/p2p.rs\<close>;
    the agent below is the parameter \<open>J\<close>.  \<open>Juice\<close>: \<open>src/juice.rs\<close>, that agent over the C
    library, its configuration in memory and the threads that share it; \<open>Juice_Props\<close>.
  \<^item> \<open>Quic\<close>: \<open>src/quic.rs\<close> and \<open>QuicConnection\<close> of \<open>src/p2p.rs\<close>; the \<open>quiche\<close> library is the
    parameter \<open>Q\<close>.  \<open>Quic_Props\<close>: with the contract \<open>waiter\<close> of an operation that waits.
  \<^item> \<open>Connect\<close>: \<open>connect_udp\<close> and \<open>connect_quic\<close> of \<open>src/node.rs\<close>.  \<open>Session\<close>: the serving
    session of \<open>src/serving.rs\<close> with its handle, and \<open>start_serving\<close> of \<open>src/node.rs\<close>.
    \<open>Session_Inv\<close>, \<open>Session_Props\<close>, \<open>Connect_Props\<close>: their invariants and properties, the
    last for both ends of a connection together.
  \<^item> \<open>Rust_Text\<close>, \<open>Stream_Io\<close>: text, and the byte streams of tokio with the relay between two
    of them, as the standard library and tokio have them.
  \<^item> \<open>Proxy_Common\<close>: \<open>wconnect/src/proxy_common.rs\<close>.  \<open>Proxy_Pool\<close> proves its pool correct under
    any interleaving, \<open>Proxy_World\<close> gives a proxy's task its view of it.  \<open>Proxy_Socks\<close> and
    \<open>Proxy_Http\<close>: \<open>wconnect/src/proxy_socks.rs\<close> and \<open>proxy_http.rs\<close>.  \<open>Daemon\<close>:
    \<open>wconnect/src/serving.rs\<close>.  \<open>Proxy_Props\<close>, \<open>Http_Props\<close> and \<open>Daemon_Props\<close> are their lemmas,
    \<open>Data_Plane\<close> the properties of all of it.
  \<^item> \<open>Ipc\<close>, \<open>Ipc_Props\<close>: \<open>wconnect/src/ipc.rs\<close>, the command line's way to the daemon.
    \<open>Commands\<close>, \<open>Commands_Props\<close>: \<open>wconnect/src/main.rs\<close> and \<open>wconnect/src/p2p.rs\<close>, every command
    from its options to what it prints.  \<open>Wcadm\<close>, \<open>Wcadm_Props\<close>: \<open>wcadm/src/main.rs\<close>, the
    administration tool; the service it talks to is the parameter \<open>S\<close>.
  \<^item> \<open>Ffi_Types\<close>: \<open>src/ffi/types.rs\<close> and an explicit memory.  \<open>Ffi\<close>: the functions C calls, of
    \<open>src/ffi/node.rs\<close>, \<open>serving.rs\<close> and \<open>p2p.rs\<close>.  \<open>Ffi_Tasks\<close>: the tasks they spawn and the
    callbacks these make.  \<open>Ffi_Calls\<close>: the accessors, and the calls as data.  \<open>Ffi_Inv\<close>: the
    contract of a caller and the invariant; \<open>Ffi_Safe\<close> and \<open>Ffi_Contract\<close> carry it through the
    tasks and the calls, \<open>Ffi_Props\<close> holds the properties.

  \<^bold>\<open>How the code is read.\<close>  A struct is a record whose fields carry a prefix (\<open>ServingSession\<close>
  is \<open>session\<close> with \<open>se_\<close>), an enum a datatype, an \<open>i32\<close>, \<open>i64\<close> or \<open>u64\<close> a word of its width
  whose arithmetic wraps, an \<open>async fn\<close> a program that returns its outcome and the state it
  leaves, also on error.  A panic is an outcome.  Random bytes, clock readings and jitter are
  arguments; time is in nanoseconds and only moves where the code waits or a call takes time.
  A task that waits in a \<open>select!\<close> is a machine with one event per branch (\<open>session_step\<close>,
  \<open>driver_step\<close>), so that a theorem over all event lists is one over all interleavings of
  those branches.  An operation of a QUIC connection that waits for the driver is the pass
  it makes between two notifications, repeated by \<open>waiting\<close>.  The pool's operations are the
  sections between two awaits (\<open>pool_step\<close>), with a table of the tasks inside them.  A timeout
  is one of two outcomes that the environment chooses.  In the C interface a pointer is an
  address that is never used twice, undefined behaviour is an error of type \<open>ub\<close>, and what a
  spawned task owns is written in the task.

  \<^bold>\<open>What is shown.\<close>
  \<^item> Rosters: the verifier accepts exactly the valid histories in which the verifier is active
    under its own key; the protocol's own rosters verify; an accepted roster extends accepted
    ones; revocation is irreversible.
  \<^item> Codes, packets, stores: round trips, freshness of nonces up to the sharp bound 2^64, the
    refinement of one cell by each store.
  \<^item> Endorsing: bounded memory, one use per code, and what a cosignature vouches for.
  \<^item> Nodes: the state always names what was verified, failures change nothing, no hub can make
    an operation panic, save activation in the one way that is described.
  \<^item> Connections: whom a session accepts and a call reaches, that both ends agree on keys,
    ids and the start of their checks; that every request is answered once and under its id.
  \<^item> Sessions: when they end, what their handle tells, how they reconnect.
  \<^item> QUIC: sending ends, waiting operations end with the driver, with the exceptions proved;
    stream ids, dropped streams and the close frame.
  \<^item> Data plane: the relay delivers the same bytes under every schedule; the pool dials a node
    once at a time and hands out streams to the node asked for; the SOCKS parser is that of
    RFC 1928; the proxies go only where the request, and the policy of the daemon, allow; a
    request of a client meets the service at the other end of the stream; and how tunnels and
    pooled connections are cut off.
  \<^item> Local interface and commands: one answer per line however the lines arrive; what an answer
    says is what the session does; what a command leaves behind.
  \<^item> C interface: a caller that keeps the contract never meets undefined behaviour, with no
    condition on when nodes, storages and handles of sessions are freed; every accepted call
    is called back once, unless its task panics; strings are lent and given back.
  \<^item> ICE agent: the C library reads the configuration that was asked for, through pointers that
    stay owned; under every interleaving the agent is destroyed once, and used afterwards only
    by a call that a \<open>close\<close> overlaps, which the code does not prevent.
  \<^item> Administration: a command is one exchange with the service, and its exit status says how
    that went.

  \<^bold>\<open>Loops and bounds.\<close>  Loops over lists recurse on them; the retry of a full send buffer ends
  after six doublings of its delay (a measure).  Loops over a connection (\<open>read_request\<close>,
  \<open>copy_response\<close>, \<open>serve_requests\<close>, \<open>pump\<close>, \<open>read_until_newline\<close>,
  \<open>handle_client_with_optional_handle\<close>) end by a measure of what is still to arrive or of what
  the limits leave.  Loops whose end depends on a library or the
  host (\<open>load_registration_loop\<close>, \<open>flush_loop\<close>, \<open>flush_ready_loop\<close>, \<open>next_unaccepted\<close>) are
  partial functions, \<open>None\<close> standing for a loop that never ends; that they end is proved
  (\<open>foreign_load_termination\<close>, \<open>flush_send_terminates\<close>) from the contract of the library.
  No fuel is used; the lists of events and of what happens during a wait are arbitrary.

  \<^bold>\<open>Not modelled.\<close>  The runtime's set-up in \<open>src/ffi/runtime.rs\<close>,
  and what the crates for cryptography, protobuf, gRPC, ICE, TLS, QUIC, JSON (\<open>serde_json\<close>) and
  HTTP parsing (\<open>httparse\<close>) do inside; name resolution and \<open>connect\<close> of the operating system,
  which are parameters.  The text of error messages where nothing reads it; logging; printed
  durations.  Futures that are dropped half way - also in the middle of a write that a timeout
  cuts off - and operations on one node that race, which in the C interface its mutex
  excludes.  The capacity of channels and what a full one delays.  Wakers: a poll or wait is
  retried after every event instead of on notification, and \<open>timeout()\<close> of QUIC only picks
  when the timer's event comes.  \<open>peer_close_info\<close>, which copies a field, and the certificate
  that BoringSSL wants of a server.  In the C interface, what a QUIC connection or a stream
  makes of an operation is chosen by the environment, and a failed allocation ends nothing.  Of
  \<open>wconnect\<close>: parsing the arguments, forking into the background, and on Windows the search for
  a port, the port's file and \<open>stop\<close>.  The command-line parser of \<open>wcadm\<close>.  That the agent of
  \<open>Juice\<close> is put in for \<open>J\<close>: \<open>J\<close> also foretells what the callbacks will report.  The wrappers
  and the examples.
\<close>

end
